(* ===== verification/Prelude.thy ===== *)
theory Prelude
  imports Complex_Main "HOL-Library.Word"
begin

text \<open>
  Shared vocabulary of the development.  Machine integers are words of their C++ width, read with
  \<open>unat\<close> or \<open>sint\<close>; 64-bit signed time stamps are unbounded \<open>int\<close>s because overflowing them is
  undefined behaviour in the source.  Fallible operations return \<open>'a result\<close>, the sum type that
  stands for \<open>Result<T>\<close> of \<^verbatim>\<open>include/policy_runtime/common/result.hpp\<close>: \<open>Inl\<close> carries the error and
  \<open>Inr\<close> the value.  The theory also holds the lemma collections and the generic lemmas on lists,
  bytes and little-endian encodings that the components share.
\<close>

unbundle bit_operations_syntax

section \<open>Types\<close>

type_synonym u8 = "8 word"
type_synonym u16 = "16 word"
type_synonym u32 = "32 word"
type_synonym u64 = "64 word"
type_synonym bytes = "u8 list"

datatype error_code = invalid_argument | io | timeout | protocol | unavailable | internal

datatype error = Error (code: error_code) (message: string)

type_synonym 'a result = "error + 'a"

definition success :: "'a \<Rightarrow> 'a result" where
  "success v = Inr v"

definition failure :: "error_code \<Rightarrow> string \<Rightarrow> 'a result" where
  "failure c m = Inl (Error c m)"

definition has_value :: "'a result \<Rightarrow> bool" where
  "has_value r = (case r of Inl _ \<Rightarrow> False | Inr _ \<Rightarrow> True)"

section \<open>Lemma collections\<close>

named_theorems result_simps \<open>rewriting of results\<close>
named_theorems fp_simps \<open>rewriting of floating-point operations\<close>
named_theorems fp_eval \<open>evaluation of floating-point operations on small integers\<close>
named_theorems flag_simps \<open>single-bit flag words\<close>
named_theorems inv_intros \<open>preservation of component invariants\<close>

lemma success_simps [simp, result_simps]:
  "has_value (success v)" "\<not> has_value (failure c m)"
  "success v = success w \<longleftrightarrow> v = w" "success v \<noteq> failure c m" "failure c m \<noteq> success v"
  "failure c m = failure c' m' \<longleftrightarrow> c = c' \<and> m = m'"
  by (auto simp: success_def failure_def has_value_def)

lemma Inl_success [simp, result_simps]: "Inl e \<noteq> success v" "success v \<noteq> Inl e"
  by (simp_all add: success_def)

lemma result_case [simp, result_simps]:
  "(case success v of Inl e \<Rightarrow> f e | Inr x \<Rightarrow> g x) = g v"
  "(case failure c m of Inl e \<Rightarrow> f e | Inr x \<Rightarrow> g x) = f (Error c m)"
  by (auto simp: success_def failure_def)

lemma result_cases [case_names failure success]:
  obtains (failure) c m where "r = failure c m" | (success) v where "r = success v"
  by (cases r) (auto simp: success_def failure_def intro: error.exhaust)

section \<open>Lists\<close>

lemma nth_map_upt0 [simp]: "i < n \<Longrightarrow> map f [0..<n] ! i = f i"
  by simp

lemma take_append_length [simp]: "take (length xs) (xs @ ys) = xs"
  by simp

lemma list_eq_take_drop_iff: "n \<le> length xs \<Longrightarrow> length (take n xs) = n \<and> length (drop n xs) = length xs - n"
  by simp

lemma nth_list_update_at: "j < length xs \<Longrightarrow> xs[i := x] ! j = (if i = j then x else xs ! j)"
  by (cases "i = j") auto

lemma foldl_invariant:
  assumes "P s" and "\<And>s x. P s \<Longrightarrow> x \<in> set xs \<Longrightarrow> P (f s x)"
  shows "P (foldl f s xs)"
  using assms by (induction xs arbitrary: s) auto

text \<open>A loop that assigns the first \<open>n\<close> cells of an array, each from values read before the loop.\<close>

definition fill_prefix :: "nat \<Rightarrow> (nat \<Rightarrow> 'a) \<Rightarrow> 'a list \<Rightarrow> 'a list" where
  "fill_prefix n f xs = map (\<lambda>i. if i < n then f i else xs ! i) [0..<length xs]"

lemma length_fill_prefix [simp]: "length (fill_prefix n f xs) = length xs"
  by (simp add: fill_prefix_def)

lemma nth_fill_prefix [simp]:
  "i < length xs \<Longrightarrow> fill_prefix n f xs ! i = (if i < n then f i else xs ! i)"
  by (simp add: fill_prefix_def)

section \<open>Bytes and little-endian encodings\<close>

text \<open>\<open>byte_at w i\<close> is \<open>static_cast<std::byte>((w >> (8 * i)) & 0xFF)\<close>.\<close>

definition byte_at :: "'a::len word \<Rightarrow> nat \<Rightarrow> u8" where
  "byte_at w i = ucast (drop_bit (8 * i) w)"

definition le_bytes :: "nat \<Rightarrow> 'a::len word \<Rightarrow> bytes" where
  "le_bytes n w = map (byte_at w) [0..<n]"

fun le_word :: "bytes \<Rightarrow> 'a::len word" where
  "le_word [] = 0"
| "le_word (b # bs) = ucast b OR push_bit 8 (le_word bs)"

lemma length_le_bytes [simp]: "length (le_bytes n w) = n"
  by (simp add: le_bytes_def)

lemma le_bytes_Suc: "le_bytes (Suc n) w = byte_at w 0 # le_bytes n (drop_bit 8 w)"
  by (simp add: le_bytes_def byte_at_def upt_conv_Cons map_Suc_upt [symmetric] add.commute
      del: upt_Suc map_Suc_upt)

lemma le_word_le_bytes_take: "le_word (le_bytes n w) = take_bit (8 * n) (w :: 'a::len word)"
proof (induction n arbitrary: w)
  case 0
  then show ?case by (simp add: le_bytes_def)
next
  case (Suc n)
  have "bit (ucast (byte_at w 0) OR push_bit 8 (take_bit (8 * n) (drop_bit 8 w))) i
      = bit (take_bit (8 * Suc n) w) i" for i
    by (cases "i < 8") (auto simp: byte_at_def bit_simps dest: bit_imp_le_length)
  then show ?case
    by (simp add: le_bytes_Suc Suc.IH bit_eq_iff)
qed

lemma le_word_le_bytes: "LENGTH('a) \<le> 8 * n \<Longrightarrow> le_word (le_bytes n w) = (w :: 'a::len word)"
  by (simp add: le_word_le_bytes_take take_bit_word_eq_self)

section \<open>Flag words\<close>

lemma word_or_eq_0_iff: "(a OR b :: 'a::len word) = 0 \<longleftrightarrow> a = 0 \<and> b = 0"
  by (auto simp: bit_eq_iff bit_simps)

lemma or_nonzero [flag_simps]:
  "(a :: 'a::len word) \<noteq> 0 \<Longrightarrow> a OR b \<noteq> 0" "b \<noteq> 0 \<Longrightarrow> a OR b \<noteq> 0"
  by (auto simp: word_or_eq_0_iff)

lemma odd_guard: "(g :: 'a::len word) AND 1 \<noteq> 0 \<longleftrightarrow> odd (unat g)"
proof -
  have "unat (g AND 1) = unat g AND 1" by (simp add: unsigned_and_eq)
  then have "unat (g AND 1) = unat g mod 2" by (simp add: and_one_eq)
  then show ?thesis by (metis odd_iff_mod_2_eq_one unsigned_0 unsigned_eq_0_iff even_iff_mod_2_eq_zero)
qed

section \<open>Counters\<close>

lemma unat_Suc_less: "(a :: 'a::len word) < b \<Longrightarrow> unat (a + 1) = unat a + 1"
proof -
  assume "a < b"
  then have "unat a < unat b" by (simp add: word_less_nat_alt)
  then have "unat a + 1 < 2 ^ LENGTH('a)" using unsigned_less [of b, where ?'a = nat] by linarith
  then show ?thesis by (simp add: unat_plus_if')
qed

end
