(* ===== verification/Interfaces.thy ===== *)
theory Interfaces
  imports Prelude
begin

text \<open>
  Interfaces between the components, as locales.  A \<open>command_gate\<close> admits commands by sequence number:
  its laws say that an admitted command carries a newer sequence than the one stored and that anything
  else leaves the stored command alone.  A \<open>framed_stream\<close> takes frames off a byte buffer: its laws say that
  a complete frame at the front is returned and removed and that a proper prefix of a frame is left for
  later.  A \<open>bounded_fifo\<close> is a queue of limited capacity that refuses an element when it is full.  The client
  lemmas describe whole runs: admitted sequences strictly increase, and a stream of
  frames is recovered exactly however it is cut into chunks, and what a queue accepts comes out once and in
  order.  The providers interpret the locales on their
  own operations.
\<close>

section \<open>Sequence-gated command admission\<close>

locale command_gate =
  fixes accept :: "'s \<Rightarrow> 'c \<Rightarrow> 's \<times> bool"
    and last_sequence :: "'s \<Rightarrow> u64 option"
    and sequence_of :: "'c \<Rightarrow> u64"
    and stored :: "'s \<Rightarrow> 'v"
  assumes accepted_newer:
      "accept s c = (s', True) \<Longrightarrow>
        last_sequence s' = Some (sequence_of c) \<and> (\<forall>n. last_sequence s = Some n \<longrightarrow> n < sequence_of c)"
    and refused_frame:
      "accept s c = (s', False) \<Longrightarrow> last_sequence s' = last_sequence s \<and> stored s' = stored s"
begin

primrec run :: "'s \<Rightarrow> 'c list \<Rightarrow> 's \<times> u64 list" where
  "run s [] = (s, [])"
| "run s (c # cs) =
     (let (s1, ok) = accept s c; (s2, ns) = run s1 cs
      in (s2, if ok then sequence_of c # ns else ns))"

lemma run_bound:
  "run s cs = (s', ns) \<Longrightarrow> last_sequence s = Some n \<Longrightarrow> \<forall>m \<in> set ns. n < m"
proof (induction cs arbitrary: s n ns)
  case (Cons c cs)
  obtain s1 ok where a: "accept s c = (s1, ok)" by fastforce
  obtain ns1 where r: "run s1 cs = (s', ns1)" using Cons.prems a by (auto split: prod.splits)
  show ?case
  proof (cases ok)
    case True
    with a have "last_sequence s1 = Some (sequence_of c)" "n < sequence_of c"
      using accepted_newer Cons.prems(2) by auto
    with Cons.IH [OF r this(1)] True Cons.prems a r show ?thesis by (auto intro: less_trans)
  next
    case False
    with a have "last_sequence s1 = Some n" using refused_frame Cons.prems(2) by auto
    with Cons.IH [OF r this] False Cons.prems a r show ?thesis by auto
  qed
qed simp

lemma run_sorted: "run s cs = (s', ns) \<Longrightarrow> sorted_wrt (<) ns"
proof (induction cs arbitrary: s ns)
  case (Cons c cs)
  obtain s1 ok where a: "accept s c = (s1, ok)" by fastforce
  obtain ns1 where r: "run s1 cs = (s', ns1)" using Cons.prems a by (auto split: prod.splits)
  show ?case
  proof (cases ok)
    case True
    with a have "last_sequence s1 = Some (sequence_of c)" using accepted_newer by auto
    with run_bound [OF r this] Cons.IH [OF r] True Cons.prems a r show ?thesis by auto
  next
    case False
    with Cons.IH [OF r] Cons.prems a r show ?thesis by auto
  qed
qed simp

lemma run_distinct: "run s cs = (s', ns) \<Longrightarrow> distinct ns"
  using run_sorted [of s cs s' ns] by (simp add: strict_sorted_iff)

end

section \<open>Framed byte streams\<close>

locale framed_stream =
  fixes enc :: "'p \<Rightarrow> bytes"
    and valid :: "'p \<Rightarrow> bool"
    and take_one :: "bytes \<Rightarrow> bytes \<times> 'p option result"
  assumes enc_nonempty: "valid p \<Longrightarrow> enc p \<noteq> []"
    and take_complete: "valid p \<Longrightarrow> take_one (enc p @ rest) = (rest, success (Some p))"
    and take_partial: "valid p \<Longrightarrow> enc p = pre @ suf \<Longrightarrow> suf \<noteq> [] \<Longrightarrow> take_one pre = (pre, success None)"
    and take_empty: "take_one [] = ([], success None)"
begin

text \<open>Take frames until none is complete; errors are skipped.  The first argument bounds the number of
  steps.\<close>

primrec drain :: "nat \<Rightarrow> bytes \<Rightarrow> bytes \<times> 'p list" where
  "drain 0 bs = (bs, [])"
| "drain (Suc n) bs =
     (case take_one bs of
        (bs', Inr (Some p)) \<Rightarrow> (let (bs'', ps) = drain n bs' in (bs'', p # ps))
      | (bs', Inr None) \<Rightarrow> (bs', [])
      | (bs', Inl _) \<Rightarrow> drain n bs')"

text \<open>What is buffered of a stream is a proper prefix of its first frame.\<close>

definition waiting :: "bytes \<Rightarrow> 'p list \<Rightarrow> bool" where
  "waiting bs ps \<longleftrightarrow> (case ps of [] \<Rightarrow> bs = [] | p # _ \<Rightarrow> length bs < length (enc p))"

lemma drain_prefix:
  assumes "\<forall>p \<in> set ps. valid p" and "bs @ rest = concat (map enc ps)" and "length bs < n"
  shows "\<exists>done todo bs'. ps = done @ todo \<and> drain n bs = (bs', done) \<and> bs' @ rest = concat (map enc todo) \<and> waiting bs' todo"
  using assms
proof (induction ps arbitrary: bs n)
  case Nil
  then obtain k where "n = Suc k" by (cases n) auto
  with Nil show ?case by (simp add: take_empty waiting_def)
next
  case (Cons p ps)
  then obtain k where n: "n = Suc k" by (cases n) auto
  have v: "valid p" using Cons.prems by simp
  have "bs @ rest = enc p @ concat (map enc ps)" using Cons.prems(2) by simp
  then consider (complete) bs1 where "bs = enc p @ bs1" "bs1 @ rest = concat (map enc ps)"
    | (partial) suf where "enc p = bs @ suf" "suf \<noteq> []"
  proof -
    assume "bs @ rest = enc p @ concat (map enc ps)"
    then obtain us where "bs = enc p @ us \<and> us @ rest = concat (map enc ps)
        \<or> bs @ us = enc p \<and> rest = us @ concat (map enc ps)" by (auto simp: append_eq_append_conv2)
    then show thesis using complete [of us] complete [of "[]"] partial [of us] by (cases "us = []") auto
  qed
  then show ?case
  proof cases
    case complete
    have "length bs1 < k" using complete(1) Cons.prems(3) n enc_nonempty [OF v] by (cases "enc p") auto
    from Cons.IH [OF _ complete(2) this] Cons.prems(1) obtain done' todo bs' where d: "ps = done' @ todo" "drain k bs1 = (bs', done')" "bs' @ rest = concat (map enc todo)"
        "waiting bs' todo"
      by auto
    show ?thesis
      by (rule exI [of _ "p # done'"], rule exI [of _ todo], rule exI [of _ bs'])
        (use d complete in \<open>simp add: n take_complete [OF v, of bs1] success_def\<close>)
  next
    case partial
    have d: "drain n bs = (bs, [])" using take_partial [OF v partial] by (simp add: n success_def)
    show ?thesis
      by (rule exI [of _ "[]"], rule exI [of _ "p # ps"], rule exI [of _ bs])
        (use d Cons.prems(2) partial in \<open>simp add: waiting_def\<close>)
  qed
qed

end

section \<open>Bounded queues\<close>

locale bounded_fifo =
  fixes push :: "'q \<Rightarrow> 'a \<Rightarrow> 'q \<times> bool"
    and pop :: "'q \<Rightarrow> 'q \<times> 'a option"
    and queued :: "'q \<Rightarrow> 'a list"
    and ok :: "'q \<Rightarrow> bool"
    and capacity :: nat
  assumes push_ok: "ok q \<Longrightarrow> ok (fst (push q x))"
    and push_accepts: "ok q \<Longrightarrow> snd (push q x) \<longleftrightarrow> length (queued q) < capacity"
    and push_queued: "ok q \<Longrightarrow> queued (fst (push q x)) = (if length (queued q) < capacity then queued q @ [x] else queued q)"
    and pop_ok: "ok q \<Longrightarrow> ok (fst (pop q))"
    and pop_queued: "ok q \<Longrightarrow> queued (fst (pop q)) = tl (queued q)"
    and pop_result: "ok q \<Longrightarrow> snd (pop q) = (case queued q of [] \<Rightarrow> None | x # _ \<Rightarrow> Some x)"
    and bounded: "ok q \<Longrightarrow> length (queued q) \<le> capacity"
begin

text \<open>A run of pushes (\<open>Some x\<close>) and pops (\<open>None\<close>): the final queue, the accepted and the popped elements.\<close>

primrec fifo_run :: "'q \<Rightarrow> 'a option list \<Rightarrow> 'q \<times> 'a list \<times> 'a list" where
  "fifo_run q [] = (q, [], [])"
| "fifo_run q (op # ops) =
     (case op of
        Some x \<Rightarrow> (let (q', took) = push q x; (q'', ins, outs) = fifo_run q' ops in (q'', if took then x # ins else ins, outs))
      | None \<Rightarrow> (let (q', r) = pop q; (q'', ins, outs) = fifo_run q' ops
                in (q'', ins, case r of Some x \<Rightarrow> x # outs | None \<Rightarrow> outs)))"

lemma fifo_conserves:
  "ok q \<Longrightarrow> fifo_run q ops = (q', ins, outs) \<Longrightarrow> ok q' \<and> queued q @ ins = outs @ queued q'"
proof (induction ops arbitrary: q ins outs)
  case (Cons op ops)
  show ?case
  proof (cases op)
    case (Some x)
    obtain q1 took where p: "push q x = (q1, took)" by fastforce
    obtain ins1 where r: "fifo_run q1 ops = (q', ins1, outs)" "ins = (if took then x # ins1 else ins1)"
      using Cons.prems(2) Some p by (auto split: prod.splits)
    have "ok q1" "queued q1 = (if took then queued q @ [x] else queued q)"
      using push_ok [OF Cons.prems(1), of x] push_queued [OF Cons.prems(1), of x] push_accepts [OF Cons.prems(1), of x] p
      by auto
    then show ?thesis using Cons.IH [OF _ r(1)] r(2) by auto
  next
    case None
    obtain q1 y where p: "pop q = (q1, y)" by fastforce
    obtain outs1 where r: "fifo_run q1 ops = (q', ins, outs1)" "outs = (case y of Some x \<Rightarrow> x # outs1 | None \<Rightarrow> outs1)"
      using Cons.prems(2) None p by (auto split: prod.splits)
    have "ok q1" "queued q1 = tl (queued q)" "y = (case queued q of [] \<Rightarrow> None | x # _ \<Rightarrow> Some x)"
      using pop_ok [OF Cons.prems(1)] pop_queued [OF Cons.prems(1)] pop_result [OF Cons.prems(1)] p by auto
    then show ?thesis using Cons.IH [OF _ r(1)] r(2) by (cases "queued q") auto
  qed
qed simp

end

end
