(* ===== verification/Can_Transport.thy ===== *)
theory Can_Transport
  imports Interfaces
begin

text \<open>
  CAN frames and the two transports that carry them: SocketCAN
  (\<^verbatim>\<open>src/transport/socketcan/socketcan_transport.cpp\<close>) and a USB adapter behind a serial port
  (\<^verbatim>\<open>src/transport/serial/virtual_can_transport.cpp\<close>).  Each system call is an argument that carries its outcome, a
  value or the text of its error; every operation makes at most one of them.  Of the receive buffer of the serial
  adapter only the first \<open>buffer_length_\<close> bytes are kept, the only ones the code reads.
\<close>

section \<open>Frames and system calls\<close>

record can_frame =
  can_id :: u32
  can_data :: bytes
  can_dlc :: u8

datatype 'a os_outcome = os_value 'a | os_would_block | os_errno string

fun outcome_error :: "string \<Rightarrow> string \<Rightarrow> 'a result" where
  "outcome_error operation text = failure io (operation @ '': '' @ text)"

definition again_text :: string where "again_text = ''Resource temporarily unavailable''"

text \<open>A value-initialised frame into which the first bytes of a payload are copied.\<close>

definition received_frame :: "u32 \<Rightarrow> u8 \<Rightarrow> bytes \<Rightarrow> can_frame" where
  "received_frame i dlc payload = \<lparr>can_id = i, can_data = take (unat dlc) payload @ replicate (8 - unat dlc) 0, can_dlc = dlc\<rparr>"

definition trimmed :: "can_frame \<Rightarrow> can_frame" where
  "trimmed f = received_frame (can_id f) (can_dlc f) (can_data f)"

section \<open>SocketCAN\<close>

definition CAN_SFF_MASK :: u32 where "CAN_SFF_MASK = 0x7FF"
definition CAN_NON_DATA :: u32 where "CAN_NON_DATA = 0xE0000000"
definition IFNAMSIZ :: nat where "IFNAMSIZ = 16"
definition raw_frame_size :: nat where "raw_frame_size = 16"

text \<open>The kernel's \<open>struct can_frame\<close>.\<close>

record raw_can_frame =
  raw_id :: u32
  raw_dlc :: u8
  raw_data :: bytes

record socketcan =
  sc_fd :: int
  sc_owns_fd :: bool
  sc_has_handler :: bool

definition valid_dlc :: "u8 \<Rightarrow> bool" where "valid_dlc dlc \<longleftrightarrow> dlc \<le> 8"

definition socketcan_valid :: "socketcan \<Rightarrow> bool" where "socketcan_valid t \<longleftrightarrow> sc_fd t \<ge> 0"

definition socketcan_reopen :: "socketcan \<Rightarrow> unit result" where
  "socketcan_reopen t = (if socketcan_valid t then success () else failure unavailable ''SocketCAN descriptor is not open'')"

text \<open>Operations that close descriptors return them.\<close>

definition socketcan_close :: "socketcan \<Rightarrow> socketcan \<times> int list" where
  "socketcan_close t = (t\<lparr>sc_fd := -1, sc_owns_fd := False\<rparr>, if sc_owns_fd t \<and> sc_fd t \<ge> 0 then [sc_fd t] else [])"

definition socketcan_move :: "socketcan \<Rightarrow> socketcan \<times> socketcan" where
  "socketcan_move other = (\<lparr>sc_fd = sc_fd other, sc_owns_fd = sc_owns_fd other, sc_has_handler = sc_has_handler other\<rparr>,
     other\<lparr>sc_fd := -1, sc_owns_fd := False, sc_has_handler := False\<rparr>)"

definition socketcan_assign :: "socketcan \<Rightarrow> socketcan \<Rightarrow> socketcan \<times> socketcan \<times> int list" where
  "socketcan_assign t other =
     (let (moved, left) = socketcan_move other
      in (moved, left, if sc_owns_fd t \<and> sc_fd t \<ge> 0 then [sc_fd t] else []))"

text \<open>\<open>open(interface_name)\<close>: the arguments are the outcomes of \<open>socket\<close>, \<open>ioctl\<close> and \<open>bind\<close>.\<close>

definition socketcan_open ::
  "string \<Rightarrow> int os_outcome \<Rightarrow> unit os_outcome \<Rightarrow> unit os_outcome \<Rightarrow> socketcan result \<times> int list" where
  "socketcan_open interface_name socket_r ioctl_r bind_r =
     (if interface_name = [] \<or> length interface_name \<ge> IFNAMSIZ
      then (failure invalid_argument ''invalid SocketCAN interface name'', [])
      else case socket_r of
        os_errno e \<Rightarrow> (outcome_error ''socket(PF_CAN)'' e, [])
      | os_would_block \<Rightarrow> (outcome_error ''socket(PF_CAN)'' again_text, [])
      | os_value fd \<Rightarrow>
          (case ioctl_r of
             os_errno e \<Rightarrow> (outcome_error ''ioctl(SIOCGIFINDEX)'' e, [fd])
           | os_would_block \<Rightarrow> (outcome_error ''ioctl(SIOCGIFINDEX)'' again_text, [fd])
           | os_value _ \<Rightarrow>
               (case bind_r of
                  os_errno e \<Rightarrow> (outcome_error ''bind(SocketCAN)'' e, [fd])
                | os_would_block \<Rightarrow> (outcome_error ''bind(SocketCAN)'' again_text, [fd])
                | os_value _ \<Rightarrow> (success \<lparr>sc_fd = fd, sc_owns_fd = True, sc_has_handler = False\<rparr>, []))))"

text \<open>What is handed to \<open>write\<close>, if anything, and the result given the outcome of the call.\<close>

definition socketcan_send :: "socketcan \<Rightarrow> can_frame \<Rightarrow> nat os_outcome \<Rightarrow> raw_can_frame option \<times> unit result" where
  "socketcan_send t f w =
     (if sc_fd t < 0 \<or> can_id f > CAN_SFF_MASK \<or> \<not> valid_dlc (can_dlc f)
      then (None, failure invalid_argument ''invalid CAN frame'')
      else (Some \<lparr>raw_id = can_id f, raw_dlc = can_dlc f,
                  raw_data = take (unat (can_dlc f)) (can_data f) @ replicate (8 - unat (can_dlc f)) 0\<rparr>,
            case w of
              os_errno e \<Rightarrow> outcome_error ''socketcan write'' e
            | os_would_block \<Rightarrow> outcome_error ''socketcan write'' again_text
            | os_value n \<Rightarrow> if n \<noteq> raw_frame_size then failure io ''socketcan short write'' else success ()))"

definition socketcan_receive :: "socketcan \<Rightarrow> (nat \<times> raw_can_frame) os_outcome \<Rightarrow> can_frame option result" where
  "socketcan_receive t r =
     (if sc_fd t < 0 then failure invalid_argument ''invalid socketcan descriptor''
      else case r of
        os_would_block \<Rightarrow> success None
      | os_errno e \<Rightarrow> outcome_error ''socketcan read'' e
      | os_value (n, raw) \<Rightarrow>
          if n < raw_frame_size then failure io ''socketcan short read''
          else if raw_id raw AND CAN_NON_DATA \<noteq> 0 then success None
          else if \<not> valid_dlc (raw_dlc raw) then failure protocol ''invalid CAN DLC''
          else success (Some (received_frame (raw_id raw AND CAN_SFF_MASK) (raw_dlc raw) (raw_data raw))))"

text \<open>The frame \<open>receive_once\<close> passes to the handler.\<close>

definition socketcan_receive_once :: "socketcan \<Rightarrow> (nat \<times> raw_can_frame) os_outcome \<Rightarrow> can_frame option" where
  "socketcan_receive_once t r =
     (case socketcan_receive t r of Inr (Some f) \<Rightarrow> if sc_has_handler t then Some f else None | _ \<Rightarrow> None)"

definition socketcan_set_handler :: "socketcan \<Rightarrow> bool \<Rightarrow> socketcan" where
  "socketcan_set_handler t handler = t\<lparr>sc_has_handler := handler\<rparr>"

section \<open>Virtual CAN over a serial port\<close>

definition kHeader :: u8 where "kHeader = 0xAA"
definition kHeaderSize :: nat where "kHeaderSize = 6"
definition kEncodedFrameSize :: nat where "kEncodedFrameSize = 15"

record virtual_can =
  vc_fd :: int
  vc_buffer :: bytes

definition make_virtual_can :: "int \<Rightarrow> virtual_can" where
  "make_virtual_can fd = \<lparr>vc_fd = fd, vc_buffer = []\<rparr>"

definition vc_checksum :: "bytes \<Rightarrow> u8" where
  "vc_checksum data = ucast (foldl (\<lambda>s b. s + ucast b) (0 :: u32) data AND 0xFF)"

definition vc_encode :: "can_frame \<Rightarrow> bytes" where
  "vc_encode f =
     (let body = kHeader # le_bytes 4 (can_id f) @ [can_dlc f] @ take (unat (can_dlc f)) (can_data f)
      in body @ [vc_checksum body])"

definition vc_send :: "virtual_can \<Rightarrow> can_frame \<Rightarrow> nat os_outcome \<Rightarrow> bytes option \<times> unit result" where
  "vc_send t f w =
     (if vc_fd t < 0 \<or> can_id f > 0x1FFFFFFF \<or> can_dlc f > 8
      then (None, failure invalid_argument ''invalid CAN frame'')
      else (Some (vc_encode f),
            case w of
              os_errno e \<Rightarrow> outcome_error ''virtual CAN write'' e
            | os_would_block \<Rightarrow> outcome_error ''virtual CAN write'' again_text
            | os_value n \<Rightarrow> if n \<noteq> kHeaderSize + unat (can_dlc f) + 1 then failure io ''virtual CAN short write''
                             else success ()))"

text \<open>The parsing loop of \<open>receive_frame\<close> on the bytes from \<open>consumed\<close> on: the bytes consumed and the first frame.\<close>

function vc_parse :: "bytes \<Rightarrow> nat \<Rightarrow> can_frame option \<Rightarrow> (nat \<times> can_frame option) result" where
  "vc_parse d consumed frame =
     (if length d \<ge> kHeaderSize + 1
      then if d ! 0 \<noteq> kHeader \<or> d ! 5 > 8 then failure protocol ''malformed virtual CAN frame''
           else let len = kHeaderSize + unat (d ! 5) + 1
                in if length d \<ge> len
                   then if vc_checksum (take (len - 1) d) \<noteq> d ! (len - 1)
                        then failure protocol ''virtual CAN checksum mismatch''
                        else vc_parse (drop len d) (consumed + len)
                               (if frame = None
                                then Some (received_frame (le_word (take 4 (drop 1 d))) (d ! 5) (drop kHeaderSize d))
                                else frame)
                   else success (consumed, frame)
      else success (consumed, frame))"
  by pat_completeness auto
termination by (relation "measure (\<lambda>(d, _). length d)") auto

declare vc_parse.simps [simp del]

definition vc_receive :: "virtual_can \<Rightarrow> bytes os_outcome \<Rightarrow> virtual_can \<times> can_frame option result" where
  "vc_receive t r =
     (if vc_fd t < 0 then (t, failure invalid_argument ''invalid virtual CAN descriptor'')
      else if length (vc_buffer t) = kEncodedFrameSize then (t, failure protocol ''virtual CAN frame overflow'')
      else case r of
        os_errno e \<Rightarrow> (t, outcome_error ''virtual CAN read'' e)
      | os_would_block \<Rightarrow> (t, outcome_error ''virtual CAN read'' again_text)
      | os_value bs \<Rightarrow>
          let b = vc_buffer t @ bs
          in case vc_parse b 0 None of
               Inl e \<Rightarrow> (t\<lparr>vc_buffer := b\<rparr>, Inl e)
             | Inr (consumed, frame) \<Rightarrow> (t\<lparr>vc_buffer := drop consumed b\<rparr>, success frame))"

definition vc_pending_bytes :: "virtual_can \<Rightarrow> nat" where
  "vc_pending_bytes t = length (vc_buffer t)"

section \<open>Runs of reads\<close>

text \<open>A run of receive calls, with their results in order.  The system never delivers more than was asked for.\<close>

fun vc_run :: "virtual_can \<Rightarrow> bytes os_outcome list \<Rightarrow> virtual_can \<times> can_frame option result list" where
  "vc_run t [] = (t, [])"
| "vc_run t (r # rs) = (let (t', x) = vc_receive t r; (t'', xs) = vc_run t' rs in (t'', x # xs))"

fun reads_fit :: "virtual_can \<Rightarrow> bytes list \<Rightarrow> bool" where
  "reads_fit t [] = True"
| "reads_fit t (r # rs) = (length r \<le> kEncodedFrameSize - vc_pending_bytes t \<and> reads_fit (fst (vc_receive t (os_value r))) rs)"

fun frames_of :: "can_frame option result list \<Rightarrow> can_frame list" where
  "frames_of [] = []"
| "frames_of (Inr (Some f) # xs) = f # frames_of xs"
| "frames_of (x # xs) = frames_of xs"

definition can_ok :: "can_frame \<Rightarrow> bool" where
  "can_ok f \<longleftrightarrow> can_dlc f \<le> 8 \<and> can_id f \<le> 0x1FFFFFFF \<and> length (can_data f) = 8"

section \<open>Wires\<close>

text \<open>What a user of either transport relies on: a frame the wire accepts arrives with its identifier and payload, and
  nothing is written for a frame it refuses.\<close>

locale can_wire =
  fixes accepts :: "can_frame \<Rightarrow> bool"
    and put :: "can_frame \<Rightarrow> 'w option \<times> unit result"
    and get :: "'w \<Rightarrow> can_frame option result"
  assumes put_accepted: "length (can_data f) = 8 \<Longrightarrow> accepts f \<Longrightarrow> \<exists>w. put f = (Some w, success ()) \<and> get w = success (Some (trimmed f))"
    and put_refused: "\<not> accepts f \<Longrightarrow> fst (put f) = None \<and> \<not> has_value (snd (put f))"
begin

text \<open>Frames sent one after another, as the cycle of a runtime sends its slots: what arrives.\<close>

definition transmit :: "can_frame list \<Rightarrow> can_frame list" where
  "transmit fs = concat (map (\<lambda>f. case fst (put f) of None \<Rightarrow> []
      | Some w \<Rightarrow> (case get w of Inr (Some g) \<Rightarrow> [g] | _ \<Rightarrow> [])) fs)"

lemma transmit_exact: "\<forall>f \<in> set fs. length (can_data f) = 8 \<Longrightarrow> transmit fs = map trimmed (filter accepts fs)"
proof (induction fs)
  case (Cons f fs)
  show ?case
  proof (cases "accepts f")
    case True
    then obtain w where "put f = (Some w, success ())" "get w = success (Some (trimmed f))" using put_accepted Cons.prems by auto
    then show ?thesis using Cons True by (simp add: transmit_def success_def)
  next
    case False
    then have "fst (put f) = None" using put_refused by blast
    then show ?thesis using Cons False by (simp add: transmit_def)
  qed
qed (simp add: transmit_def)

end

end
