(* ===== verification/Topology.thy ===== *)
theory Topology
  imports Can_Transport
begin

text \<open>
  The physical topology compiled from a profile, \<^verbatim>\<open>src/robot_io/daemon/topology.cpp\<close>, and the checks of the transport
  factory, \<^verbatim>\<open>src/robot_io/daemon/transport_factory.cpp\<close>.  The maps of the compiler are finite maps; the lexical
  normalisation of paths is the one the C++ standard specifies for POSIX paths.
\<close>

section \<open>Data\<close>

datatype transport_kind = ethercat | socketcan_kind | usb_can | serial

record device_config =
  dv_name :: string
  dv_type :: string
  dv_path :: string
  dv_args :: "string \<rightharpoonup> string"

type_synonym transport_key = "transport_kind \<times> string"

record device_binding =
  db_sensor_profile_index :: "nat option"
  db_actuator_profile_index :: "nat option"
  db_transport_index :: nat
  db_receive_slot :: nat
  db_transmit_slot :: nat

record compiled_topology =
  ct_transports :: "transport_key list"
  ct_devices :: "device_binding list"

section \<open>Paths\<close>

fun path_names :: "string \<Rightarrow> string list" where
  "path_names [] = [[]]"
| "path_names (c # cs) = (if c = CHR ''/'' then [] # path_names cs
     else case path_names cs of [] \<Rightarrow> [[c]] | n # ns \<Rightarrow> (c # n) # ns)"

fun normal_names :: "bool \<Rightarrow> string list \<Rightarrow> string list \<Rightarrow> string list" where
  "normal_names absolute stack [] = rev stack"
| "normal_names absolute stack (n # ns) =
     (if n = [] \<or> n = ''.'' then normal_names absolute stack ns
      else if n = ''..''
      then case stack of
             [] \<Rightarrow> normal_names absolute (if absolute then [] else [n]) ns
           | upper # rest \<Rightarrow> normal_names absolute (if upper = ''..'' then n # stack else rest) ns
      else normal_names absolute (n # stack) ns)"

fun join_names :: "string list \<Rightarrow> string" where
  "join_names [] = []"
| "join_names [n] = n"
| "join_names (n # ns) = n @ ''/'' @ join_names ns"

definition lexically_normal :: "string \<Rightarrow> string" where
  "lexically_normal p =
     (if p = [] then []
      else let absolute = (hd p = CHR ''/''); names = path_names p; ns = normal_names absolute [] names;
               trailing = (ns \<noteq> [] \<and> last ns \<noteq> ''..'' \<and> (last names = [] \<or> last names = ''.'' \<or> last names = ''..''));
               r = (if absolute then ''/'' else []) @ join_names ns @ (if trailing then ''/'' else [])
           in if r = [] then ''.'' else r)"

definition canonical_path :: "transport_kind \<Rightarrow> string \<Rightarrow> string" where
  "canonical_path kind path = (if kind = socketcan_kind then path else lexically_normal path)"

section \<open>Compilation\<close>

fun decimal :: "nat \<Rightarrow> string" where
  "decimal n = (if n < 10 then [char_of (48 + n)] else decimal (n div 10) @ [char_of (48 + n mod 10)])"

declare decimal.simps [simp del]

definition transport_kind_of :: "device_config \<Rightarrow> transport_kind result" where
  "transport_kind_of device =
     (if dv_type device = ''cia402'' then success ethercat
      else if dv_type device = ''st3215'' then success serial
      else let selected = (case dv_args device ''transport'' of None \<Rightarrow> ''socketcan'' | Some v \<Rightarrow> v)
           in if dv_type device = ''damiao_motor'' \<and> selected = ''socketcan'' then success socketcan_kind
              else if dv_type device = ''damiao_motor'' \<and> (selected = ''virtual_serial'' \<or> selected = ''usb_can'') then success usb_can
              else failure invalid_argument (''device '' @ [CHR 0x27] @ dv_name device @ [CHR 0x27] @ '' has no compatible transport''))"

definition physical_identity :: "device_config \<Rightarrow> string" where
  "physical_identity device =
     dv_type device @ [CHR 0x0A] @ dv_path device @ (case dv_args device ''motor_id'' of None \<Rightarrow> [] | Some v \<Rightarrow> [CHR 0x0A] @ v)"

record compile_state =
  cs_topology :: compiled_topology
  cs_transport_indices :: "transport_key \<rightharpoonup> nat"
  cs_identities :: "string \<rightharpoonup> nat"
  cs_next_slots :: "nat list"

text \<open>\<open>emplace\<close> leaves an existing entry alone.\<close>

definition emplace :: "('k \<rightharpoonup> 'v) \<Rightarrow> 'k \<Rightarrow> 'v \<Rightarrow> ('k \<rightharpoonup> 'v)" where
  "emplace m k v = (case m k of None \<Rightarrow> m(k \<mapsto> v) | Some _ \<Rightarrow> m)"

text \<open>The transport of a device and its next slot.\<close>

definition place_device :: "compile_state \<Rightarrow> transport_key \<Rightarrow> compile_state \<times> nat \<times> nat" where
  "place_device c key =
     (let ts = ct_transports (cs_topology c);
          c1 = (case cs_transport_indices c key of
                  None \<Rightarrow> c\<lparr>cs_transport_indices := (cs_transport_indices c)(key \<mapsto> length ts),
                            cs_topology := (cs_topology c)\<lparr>ct_transports := ts @ [key]\<rparr>, cs_next_slots := cs_next_slots c @ [0]\<rparr>
                | Some _ \<Rightarrow> c);
          transport_index = (case cs_transport_indices c key of None \<Rightarrow> length ts | Some x \<Rightarrow> x);
          slot = cs_next_slots c1 ! transport_index
      in (c1\<lparr>cs_next_slots := (cs_next_slots c1)[transport_index := slot + 1]\<rparr>, transport_index, slot))"

definition push_binding :: "compile_state \<Rightarrow> device_binding \<Rightarrow> compile_state" where
  "push_binding c b = c\<lparr>cs_topology := (cs_topology c)\<lparr>ct_devices := ct_devices (cs_topology c) @ [b]\<rparr>\<rparr>"

definition update_binding :: "compile_state \<Rightarrow> nat \<Rightarrow> (device_binding \<Rightarrow> device_binding) \<Rightarrow> compile_state" where
  "update_binding c i f =
     c\<lparr>cs_topology := (cs_topology c)\<lparr>ct_devices := (ct_devices (cs_topology c))[i := f (ct_devices (cs_topology c) ! i)]\<rparr>\<rparr>"

definition bind_sensor :: "compile_state \<Rightarrow> string \<Rightarrow> nat \<Rightarrow> nat \<Rightarrow> nat \<Rightarrow> compile_state" where
  "bind_sensor c identity index transport_index slot =
     (let ds = ct_devices (cs_topology c);
          fresh = \<lparr>db_sensor_profile_index = Some index, db_actuator_profile_index = None, db_transport_index = transport_index,
                   db_receive_slot = slot, db_transmit_slot = slot\<rparr>
      in case cs_identities c identity of
           None \<Rightarrow> push_binding (c\<lparr>cs_identities := emplace (cs_identities c) identity (length ds)\<rparr>) fresh
         | Some b \<Rightarrow>
             if db_sensor_profile_index (ds ! b) \<noteq> None
             then let unique = identity @ [CHR 0x0A] @ ''sensor'' @ [CHR 0x0A] @ decimal index
                  in push_binding (c\<lparr>cs_identities := emplace (emplace (cs_identities c) unique (length ds)) identity (length ds)\<rparr>) fresh
             else update_binding c b (\<lambda>d. d\<lparr>db_sensor_profile_index := Some index, db_receive_slot := slot\<rparr>))"

definition bind_actuator :: "compile_state \<Rightarrow> string \<Rightarrow> nat \<Rightarrow> nat \<Rightarrow> nat \<Rightarrow> compile_state" where
  "bind_actuator c identity index transport_index slot =
     (let ds = ct_devices (cs_topology c);
          fresh = \<lparr>db_sensor_profile_index = None, db_actuator_profile_index = Some index, db_transport_index = transport_index,
                   db_receive_slot = slot, db_transmit_slot = slot\<rparr>
      in case cs_identities c identity of
           None \<Rightarrow> push_binding (c\<lparr>cs_identities := emplace (cs_identities c) identity (length ds)\<rparr>) fresh
         | Some b \<Rightarrow>
             if db_actuator_profile_index (ds ! b) \<noteq> None
             then let unique = identity @ [CHR 0x0A] @ ''actuator'' @ [CHR 0x0A] @ decimal index
                  in push_binding (c\<lparr>cs_identities := emplace (cs_identities c) unique (length ds)\<rparr>) fresh
             else update_binding c b (\<lambda>d. d\<lparr>db_actuator_profile_index := Some index, db_transmit_slot := slot\<rparr>))"

definition device_key :: "device_config \<Rightarrow> transport_key result" where
  "device_key device =
     (case transport_kind_of device of
        Inl e \<Rightarrow> Inl e
      | Inr kind \<Rightarrow>
          if dv_path device = []
          then failure invalid_argument (''device '' @ [CHR 0x27] @ dv_name device @ [CHR 0x27] @ '' requires a transport path'')
          else success (kind, canonical_path kind (dv_path device)))"

fun append_devices :: "device_config list \<Rightarrow> nat \<Rightarrow> bool \<Rightarrow> compile_state \<Rightarrow> compile_state result" where
  "append_devices [] index sensor c = success c"
| "append_devices (device # devices) index sensor c =
     (case device_key device of
        Inl e \<Rightarrow> Inl e
      | Inr key \<Rightarrow>
          let (c1, transport_index, slot) = place_device c key; identity = physical_identity device
          in append_devices devices (index + 1) sensor
               (if sensor then bind_sensor c1 identity index transport_index slot
                else bind_actuator c1 identity index transport_index slot))"

definition initial_compile :: compile_state where
  "initial_compile = \<lparr>cs_topology = \<lparr>ct_transports = [], ct_devices = []\<rparr>, cs_transport_indices = Map.empty, cs_identities = Map.empty,
     cs_next_slots = []\<rparr>"

definition compile_physical_topology :: "device_config list \<Rightarrow> device_config list \<Rightarrow> compiled_topology result" where
  "compile_physical_topology sensors actuators =
     (case append_devices sensors 0 True initial_compile of
        Inl e \<Rightarrow> Inl e
      | Inr c1 \<Rightarrow> (case append_devices actuators 0 False c1 of Inl e \<Rightarrow> Inl e | Inr c2 \<Rightarrow> success (cs_topology c2)))"

section \<open>The factory\<close>

definition factory_validate :: "transport_key \<Rightarrow> unit result" where
  "factory_validate key =
     (if snd key = [] then failure invalid_argument ''physical transport path must not be empty''
      else if fst key \<noteq> socketcan_kind \<and> fst key \<noteq> ethercat
      then failure invalid_argument ''physical transport kind is not implemented by the factory''
      else success ())"

end
