(* ===== verification/Floating.thy ===== *)
theory Floating
  imports Prelude
begin

text \<open>
  IEEE-754 arithmetic as the C++ code uses it.  A floating-point value is a NaN, an infinity or a
  finite rational; the sign of zero is not represented, since no branch of the modelled code can
  observe it.  A format has a precision, a minimum quantum exponent and an overflow exponent, and
  every operation rounds its exact result to nearest, ties to even.  \<open>float\<close>, \<open>double\<close> and
  \<open>long double\<close> (x87 extended, the x86-64 ABI) are the instances \<open>f32\<close>, \<open>f64\<close> and \<open>f80\<close>.  The
  lemmas show that rounding is monotone, the identity on representable values, and bounded by any
  representable bound, for every well-formed format; \<open>rounding\<close> is the interface the components use.
\<close>

section \<open>Values and formats\<close>

datatype fp = NaN | NInf | Fin rat | PInf

record fmt =
  prec :: nat
  emin :: int
  emax :: int

definition f32 :: fmt where "f32 = \<lparr>prec = 24, emin = - 149, emax = 128\<rparr>"
definition f64 :: fmt where "f64 = \<lparr>prec = 53, emin = - 1074, emax = 1024\<rparr>"
definition f80 :: fmt where "f80 = \<lparr>prec = 64, emin = - 16445, emax = 16384\<rparr>"

fun isfinite :: "fp \<Rightarrow> bool" where
  "isfinite (Fin _) = True"
| "isfinite _ = False"

text \<open>Comparisons: every comparison with a NaN is false.\<close>

fun flt :: "fp \<Rightarrow> fp \<Rightarrow> bool" where
  "flt NaN _ = False"
| "flt _ NaN = False"
| "flt _ NInf = False"
| "flt NInf _ = True"
| "flt PInf _ = False"
| "flt (Fin _) PInf = True"
| "flt (Fin a) (Fin b) = (a < b)"

definition feq :: "fp \<Rightarrow> fp \<Rightarrow> bool" where
  "feq a b = (a \<noteq> NaN \<and> a = b)"

definition fle :: "fp \<Rightarrow> fp \<Rightarrow> bool" where
  "fle a b = (flt a b \<or> feq a b)"

section \<open>Rounding\<close>

text \<open>\<open>ilog2 x\<close> is the exponent of the leading bit of a positive rational.\<close>

fun bitlen :: "nat \<Rightarrow> nat" where
  "bitlen n = (if n = 0 then 0 else Suc (bitlen (n div 2)))"

declare bitlen.simps [simp del]

definition ilog2 :: "rat \<Rightarrow> int" where
  "ilog2 x = (let (n, d) = quotient_of x; k = int (bitlen (nat n)) - int (bitlen (nat d))
     in if 2 powi k \<le> x then k else k - 1)"

definition rne :: "rat \<Rightarrow> int" where
  "rne y = (let f = \<lfloor>y\<rfloor>; r = y - of_int f
     in if r < 1/2 \<or> (r = 1/2 \<and> even f) then f else f + 1)"

definition qexp :: "fmt \<Rightarrow> rat \<Rightarrow> int" where
  "qexp F x = max (emin F) (ilog2 \<bar>x\<bar> - int (prec F) + 1)"

definition rval :: "fmt \<Rightarrow> rat \<Rightarrow> rat" where
  "rval F x = (if x = 0 then 0 else of_int (rne (x / 2 powi qexp F x)) * 2 powi qexp F x)"

definition fround :: "fmt \<Rightarrow> rat \<Rightarrow> fp" where
  "fround F x = (let v = rval F x
     in if 2 powi emax F \<le> v then PInf else if v \<le> - (2 powi emax F) then NInf else Fin v)"

section \<open>Operations\<close>

fun fneg :: "fp \<Rightarrow> fp" where
  "fneg NaN = NaN" | "fneg NInf = PInf" | "fneg PInf = NInf" | "fneg (Fin a) = Fin (- a)"

fun fabs :: "fp \<Rightarrow> fp" where
  "fabs NaN = NaN" | "fabs NInf = PInf" | "fabs PInf = PInf" | "fabs (Fin a) = Fin \<bar>a\<bar>"

fun fadd :: "fmt \<Rightarrow> fp \<Rightarrow> fp \<Rightarrow> fp" where
  "fadd F (Fin a) (Fin b) = fround F (a + b)"
| "fadd F NaN _ = NaN"
| "fadd F _ NaN = NaN"
| "fadd F PInf NInf = NaN"
| "fadd F NInf PInf = NaN"
| "fadd F PInf _ = PInf"
| "fadd F _ PInf = PInf"
| "fadd F NInf _ = NInf"
| "fadd F _ NInf = NInf"

definition fsub :: "fmt \<Rightarrow> fp \<Rightarrow> fp \<Rightarrow> fp" where
  "fsub F a b = fadd F a (fneg b)"

definition finf :: "rat \<Rightarrow> fp" where
  "finf s = (if s > 0 then PInf else if s < 0 then NInf else NaN)"

fun fsgn :: "fp \<Rightarrow> rat" where
  "fsgn NaN = 0" | "fsgn NInf = - 1" | "fsgn PInf = 1" | "fsgn (Fin a) = sgn a"

definition fmul :: "fmt \<Rightarrow> fp \<Rightarrow> fp \<Rightarrow> fp" where
  "fmul F a b = (case (a, b) of (Fin x, Fin y) \<Rightarrow> fround F (x * y)
     | _ \<Rightarrow> if a = NaN \<or> b = NaN then NaN else finf (fsgn a * fsgn b))"

definition fdiv :: "fmt \<Rightarrow> fp \<Rightarrow> fp \<Rightarrow> fp" where
  "fdiv F a b = (case (a, b) of
       (Fin x, Fin y) \<Rightarrow> if y = 0 then finf x else fround F (x / y)
     | (Fin x, PInf) \<Rightarrow> Fin 0
     | (Fin x, NInf) \<Rightarrow> Fin 0
     | (PInf, Fin y) \<Rightarrow> if y < 0 then NInf else PInf
     | (NInf, Fin y) \<Rightarrow> if y < 0 then PInf else NInf
     | _ \<Rightarrow> NaN)"

text \<open>\<open>std::clamp\<close>, and the conversion of a value to another format.\<close>

definition fclamp :: "fp \<Rightarrow> fp \<Rightarrow> fp \<Rightarrow> fp" where
  "fclamp v lo hi = (if flt v lo then lo else if flt hi v then hi else v)"

fun fcast :: "fmt \<Rightarrow> fp \<Rightarrow> fp" where
  "fcast F (Fin x) = fround F x"
| "fcast F v = v"

text \<open>\<open>std::round\<close> and \<open>std::lround\<close> round half away from zero; \<open>std::floor\<close> rounds down.\<close>

definition round_away :: "rat \<Rightarrow> int" where
  "round_away x = (if x < 0 then - \<lfloor>- x + 1/2\<rfloor> else \<lfloor>x + 1/2\<rfloor>)"

fun fround_away :: "fp \<Rightarrow> fp" where
  "fround_away (Fin x) = Fin (of_int (round_away x))"
| "fround_away v = v"

section \<open>Lemmas on comparisons and clamping\<close>

lemma flt_Fin [simp]: "flt (Fin a) (Fin b) \<longleftrightarrow> a < b"
  by simp

lemma fle_Fin [simp]: "fle (Fin a) (Fin b) \<longleftrightarrow> a \<le> b"
  by (auto simp: fle_def feq_def)

lemma isfinite_iff: "isfinite v \<longleftrightarrow> (\<exists>x. v = Fin x)"
  by (cases v) auto

lemma fclamp_Fin [fp_simps]: "fclamp (Fin v) (Fin lo) (Fin hi) = Fin (if v < lo then lo else if hi < v then hi else v)"
  by (simp add: fclamp_def)

lemma fle_refl [simp]: "v \<noteq> NaN \<Longrightarrow> fle v v"
  by (simp add: fle_def feq_def)

lemma flt_not_fle: "a \<noteq> NaN \<Longrightarrow> b \<noteq> NaN \<Longrightarrow> \<not> flt a b \<longleftrightarrow> fle b a"
  by (cases a; cases b) (auto simp: fle_def feq_def)

lemma fclamp_bounds:
  assumes "v \<noteq> NaN" "lo \<noteq> NaN" "hi \<noteq> NaN" "fle lo hi"
  shows "fle lo (fclamp v lo hi) \<and> fle (fclamp v lo hi) hi"
  using assms by (auto simp: fclamp_def flt_not_fle)

lemma fclamp_inside: "fle lo v \<Longrightarrow> fle v hi \<Longrightarrow> fclamp v lo hi = v"
  by (cases lo; cases v; cases hi) (auto simp: fclamp_def fle_def feq_def)

section \<open>Lemmas on rounding\<close>

lemma bitlen_bounds: "n > 0 \<Longrightarrow> 2 ^ (bitlen n - 1) \<le> n \<and> n < 2 ^ bitlen n \<and> 0 < bitlen n"
proof (induction n rule: bitlen.induct)
  case (1 n)
  show ?case
  proof (cases "n div 2 = 0")
    case True
    with "1.prems" have "n = 1" by auto
    then show ?thesis by (simp add: bitlen.simps)
  next
    case False
    then obtain b where b: "bitlen (n div 2) = Suc b" by (metis bitlen.simps)
    from "1.IH" "1.prems" False have "2 ^ b \<le> n div 2" "n div 2 < 2 ^ Suc b"
      by (auto simp: b)
    moreover have "bitlen n = Suc (Suc b)" using "1.prems" b by (simp add: bitlen.simps [of n])
    ultimately show ?thesis by auto
  qed
qed

lemma powi_pos [simp]: "(0::rat) < 2 powi k"
  by (simp add: power_int_def)

lemma powi_mono: "k \<le> l \<Longrightarrow> (2::rat) powi k \<le> 2 powi l"
  by (rule power_int_increasing) auto

lemma powi_less_iff: "(2::rat) powi k < 2 powi l \<longleftrightarrow> k < l"
  using powi_mono [of l k] power_int_strict_increasing [of k l "2::rat"] by (cases "k < l") auto

lemma powi_split: "k \<le> l \<Longrightarrow> (2::rat) powi l = of_int (2 ^ nat (l - k)) * 2 powi k"
  by (simp add: power_int_add [symmetric] flip: power_int_of_nat)

lemma powi_Suc: "(2::rat) powi (k + 1) = 2 * 2 powi k"
  by (simp add: power_int_add)

lemma powi_neg_le: "k \<le> -40 \<Longrightarrow> (2::rat) powi k \<le> 1 / 2 ^ 40"
proof -
  assume "k \<le> -40"
  then have "(2::rat) powi k \<le> 2 powi (-40)" by (rule powi_mono)
  also have "(2::rat) powi (-40) = 1 / 2 ^ 40" by (simp add: power_int_def power_one_over)
  finally show ?thesis .
qed

lemma bitlen_bounds_rat:
  assumes "0 < n"
  shows "(2::rat) powi (int (bitlen (nat n)) - 1) \<le> of_int n"
    and "of_int n < (2::rat) powi int (bitlen (nat n))"
proof -
  obtain b where b: "bitlen (nat n) = Suc b"
    using bitlen_bounds [of "nat n"] assms by (cases "bitlen (nat n)") auto
  with bitlen_bounds [of "nat n"] assms have nn: "2 ^ b \<le> nat n" "nat n < 2 ^ Suc b" by auto
  have "int (2 ^ b) \<le> int (nat n)" "int (nat n) < int (2 ^ Suc b)"
    using nn by (simp_all only: of_nat_le_iff of_nat_less_iff)
  with assms have *: "int (2 ^ b) \<le> n" "n < int (2 ^ Suc b)" by simp_all
  have "of_int (int (2 ^ b)) \<le> (of_int n :: rat)" "of_int n < (of_int (int (2 ^ Suc b)) :: rat)"
    using * by (simp_all only: of_int_le_iff of_int_less_iff)
  then show "(2::rat) powi (int (bitlen (nat n)) - 1) \<le> of_int n"
    and "of_int n < (2::rat) powi int (bitlen (nat n))"
    by (simp_all add: b power_int_add)
qed

lemma ilog2_bounds:
  assumes "0 < x"
  shows "2 powi ilog2 x \<le> x" and "x < 2 powi (ilog2 x + 1)"
proof -
  obtain n d where q: "quotient_of x = (n, d)" by fastforce
  have x: "x = of_int n / of_int d" and d: "0 < d"
    using quotient_of_div [OF q] quotient_of_denom_pos [OF q] by auto
  with assms have n: "0 < n" by (simp add: zero_less_divide_iff)
  define a b where "a = int (bitlen (nat n))" and "b = int (bitlen (nat d))"
  note n2 = bitlen_bounds_rat [OF n, folded a_def] and d2 = bitlen_bounds_rat [OF d, folded b_def]
  have lo: "2 powi (a - b - 1) < x"
  proof -
    have "2 powi (a - b - 1) * of_int d < (2::rat) powi (a - b - 1) * 2 powi b"
      using d2 by simp
    also have "\<dots> = 2 powi (a - 1)" by (simp flip: power_int_add)
    finally show ?thesis using n2(1) d by (simp add: x pos_less_divide_eq)
  qed
  have hi: "x < 2 powi (a - b + 1)"
  proof -
    have "of_int n < (2::rat) powi (a - b + 1) * 2 powi (b - 1)"
      using n2(2) by (simp flip: power_int_add)
    also have "\<dots> \<le> 2 powi (a - b + 1) * of_int d" using d2(1) by simp
    finally show ?thesis using d by (simp add: x pos_divide_less_eq)
  qed
  have "ilog2 x = (if 2 powi (a - b) \<le> x then a - b else a - b - 1)"
    by (simp add: ilog2_def q a_def b_def Let_def)
  then show "2 powi ilog2 x \<le> x" and "x < 2 powi (ilog2 x + 1)"
    using lo hi by (auto split: if_splits)
qed

lemma ilog2_mono: "0 < x \<Longrightarrow> x \<le> y \<Longrightarrow> ilog2 x \<le> ilog2 y"
proof -
  assume a: "0 < x" "x \<le> y"
  then have "2 powi ilog2 x < (2::rat) powi (ilog2 y + 1)"
    using ilog2_bounds [of x] ilog2_bounds [of y] by linarith
  then show ?thesis by (simp add: powi_less_iff)
qed

lemma ilog2_less: "0 < x \<Longrightarrow> x < 2 powi k \<Longrightarrow> ilog2 x < k"
  using ilog2_bounds(1) [of x] by (meson order.strict_trans1 powi_less_iff)

lemma rne_cases: "rne y = \<lfloor>y\<rfloor> \<or> rne y = \<lfloor>y\<rfloor> + 1"
  by (simp add: rne_def Let_def)

lemma rne_near: "\<bar>of_int (rne y) - y\<bar> \<le> 1/2"
  using floor_correct [of y] by (auto simp: rne_def Let_def)

lemma rne_of_int [simp]: "rne (of_int n) = n"
  by (simp add: rne_def)

lemma rne_mono: "x \<le> y \<Longrightarrow> rne x \<le> rne y"
proof (cases "\<lfloor>x\<rfloor> = \<lfloor>y\<rfloor>")
  case True
  assume "x \<le> y"
  with True show ?thesis by (auto simp: rne_def Let_def)
next
  case False
  assume "x \<le> y"
  then have "\<lfloor>x\<rfloor> \<le> \<lfloor>y\<rfloor>" by (rule floor_mono)
  with False show ?thesis using rne_cases [of x] rne_cases [of y] by linarith
qed

lemma rne_minus: "rne (- y) = - rne y"
proof (cases "y = of_int \<lfloor>y\<rfloor>")
  case True
  then show ?thesis by (metis of_int_minus rne_of_int)
next
  case False
  then have "\<lceil>y\<rceil> = \<lfloor>y\<rfloor> + 1" by (simp add: ceiling_altdef)
  then have f: "\<lfloor>- y\<rfloor> = - \<lfloor>y\<rfloor> - 1" by (simp add: floor_minus)
  show ?thesis by (auto simp: rne_def Let_def f)
qed

lemma qexp_minus [simp]: "qexp F (- x) = qexp F x"
  by (simp add: qexp_def)

lemma rval_0 [simp]: "rval F 0 = 0"
  by (simp add: rval_def)

lemma rval_minus: "rval F (- x) = - rval F x"
  by (simp add: rval_def rne_minus)

lemma rval_nonneg: "0 \<le> x \<Longrightarrow> 0 \<le> rval F x"
  using rne_mono [of 0 "x / 2 powi qexp F x"] rne_of_int [of 0] by (auto simp: rval_def)

text \<open>A multiple of the quantum that bounds the argument also bounds the rounded value.\<close>

lemma rval_le_multiple:
  assumes "0 < x" "x \<le> of_int m * 2 powi qexp F x"
  shows "rval F x \<le> of_int m * 2 powi qexp F x"
proof -
  have "x / 2 powi qexp F x \<le> of_int m" using assms by (simp add: pos_divide_le_eq)
  then have "rne (x / 2 powi qexp F x) \<le> m" using rne_mono rne_of_int by metis
  then show ?thesis using assms by (simp add: rval_def)
qed

lemma rval_ge_multiple:
  assumes "0 < x" "of_int m * 2 powi qexp F x \<le> x"
  shows "of_int m * 2 powi qexp F x \<le> rval F x"
proof -
  have "of_int m \<le> x / 2 powi qexp F x" using assms by (simp add: pos_le_divide_eq)
  then have "m \<le> rne (x / 2 powi qexp F x)" using rne_mono rne_of_int by metis
  then show ?thesis using assms by (simp add: rval_def)
qed

definition wf_fmt :: "fmt \<Rightarrow> bool" where
  "wf_fmt F \<longleftrightarrow> 1 \<le> prec F"

lemma qexp_mono: "0 < x \<Longrightarrow> x \<le> y \<Longrightarrow> qexp F x \<le> qexp F y"
  using ilog2_mono [of x y] by (auto simp: qexp_def)

lemma rval_mono_pos:
  assumes F: "wf_fmt F" and x: "0 < x" and xy: "x \<le> y"
  shows "rval F x \<le> rval F y"
proof (cases "qexp F x = qexp F y")
  case True
  have "x / 2 powi qexp F y \<le> y / 2 powi qexp F y" using xy by (simp add: divide_right_mono)
  from rne_mono [OF this] x xy True show ?thesis by (simp add: rval_def)
next
  case False
  let ?B = "2 powi ilog2 y :: rat"
  from False qexp_mono [OF x xy, of F] have lt: "qexp F x < qexp F y" by simp
  then have qy: "qexp F y = ilog2 y - int (prec F) + 1" using x xy by (auto simp: qexp_def)
  have y: "0 < y" using x xy by simp
  have Bx: "?B = of_int (2 ^ nat (ilog2 y - qexp F x)) * 2 powi qexp F x"
    using lt qy F by (intro powi_split) (simp add: wf_fmt_def)
  have By: "?B = of_int (2 ^ nat (ilog2 y - qexp F y)) * 2 powi qexp F y"
    using qy F by (intro powi_split) (simp add: wf_fmt_def)
  have "ilog2 x < ilog2 y" using lt x unfolding qy by (auto simp: qexp_def)
  then have "x \<le> ?B" using ilog2_bounds(2) [OF x] powi_mono [of "ilog2 x + 1" "ilog2 y"] by linarith
  then have "rval F x \<le> ?B" unfolding Bx by (rule rval_le_multiple [OF x])
  moreover have "?B \<le> rval F y"
    using ilog2_bounds(1) [OF y] unfolding By by (rule rval_ge_multiple [OF y])
  ultimately show ?thesis by linarith
qed

lemma rval_mono:
  assumes F: "wf_fmt F" and xy: "x \<le> y"
  shows "rval F x \<le> rval F y"
proof -
  consider "0 < x" | "x \<le> 0" "0 \<le> y" | "y < 0" by linarith
  then show ?thesis
  proof cases
    case 1
    then show ?thesis using rval_mono_pos [OF F _ xy] by simp
  next
    case 2
    then show ?thesis using rval_nonneg [of y F] rval_nonneg [of "- x" F] by (simp add: rval_minus)
  next
    case 3
    with rval_mono_pos [OF F, of "- y" "- x"] xy show ?thesis by (simp add: rval_minus)
  qed
qed

definition representable :: "fmt \<Rightarrow> rat \<Rightarrow> bool" where
  "representable F x \<longleftrightarrow>
     (\<exists>m e. x = of_int m * 2 powi e \<and> \<bar>m\<bar> < 2 ^ prec F \<and> emin F \<le> e) \<and> \<bar>x\<bar> < 2 powi emax F"

lemma rval_representable:
  assumes "representable F x"
  shows "rval F x = x"
proof (cases "x = 0")
  case False
  from assms obtain m e where x: "x = of_int m * 2 powi e" and m: "\<bar>m\<bar> < 2 ^ prec F" and e: "emin F \<le> e"
    by (auto simp: representable_def)
  have "(of_int \<bar>m\<bar> :: rat) < of_int (2 ^ prec F)" using m by (simp only: of_int_less_iff)
  then have "\<bar>x\<bar> < 2 powi int (prec F) * 2 powi e" by (simp add: x abs_mult)
  also have "\<dots> = 2 powi (int (prec F) + e)" by (simp add: power_int_add)
  finally have "ilog2 \<bar>x\<bar> < int (prec F) + e" using False by (intro ilog2_less) auto
  then have q: "qexp F x \<le> e" using e by (auto simp: qexp_def)
  define k where "k = m * 2 ^ nat (e - qexp F x)"
  have xk: "of_int k * 2 powi qexp F x = x"
    using powi_split [OF q] x unfolding k_def by (simp add: mult.assoc)
  then have "x / 2 powi qexp F x = of_int k" by (metis divide_eq_eq powi_pos less_irrefl)
  then have "rne (x / 2 powi qexp F x) = k" by simp
  then show ?thesis using False xk by (simp add: rval_def)
qed simp

lemma fround_not_NaN [simp]: "fround F x \<noteq> NaN"
  by (simp add: fround_def Let_def)

lemma fround_mono: "wf_fmt F \<Longrightarrow> x \<le> y \<Longrightarrow> fle (fround F x) (fround F y)"
  using rval_mono [of F x y] by (auto simp: fround_def Let_def fle_def feq_def)

lemma fround_representable: "representable F x \<Longrightarrow> fround F x = Fin x"
  by (auto simp: fround_def Let_def rval_representable representable_def abs_less_iff)

lemma fround_0 [simp]: "fround F 0 = Fin 0"
  using powi_pos [of "emax F"] by (auto simp: fround_def not_le)

lemma fround_between:
  assumes F: "wf_fmt F" and "representable F a" "representable F b" "a \<le> x" "x \<le> b"
  shows "\<exists>v. fround F x = Fin v \<and> a \<le> v \<and> v \<le> b"
proof -
  have "fle (Fin a) (fround F x)" "fle (fround F x) (Fin b)"
    using fround_mono [OF F \<open>a \<le> x\<close>] fround_mono [OF F \<open>x \<le> b\<close>] assms(2,3)
    by (simp_all add: fround_representable)
  then show ?thesis by (cases "fround F x") (auto simp: fle_def feq_def)
qed

lemma representable_int:
  assumes "\<bar>n\<bar> < 2 ^ prec F" "emin F \<le> 0" "int (prec F) \<le> emax F"
  shows "representable F (of_int n)"
proof -
  have "(of_int \<bar>n\<bar> :: rat) < of_int (2 ^ prec F)" using assms by (simp only: of_int_less_iff)
  also have "\<dots> \<le> 2 powi emax F" using powi_mono [OF assms(3)] by simp
  finally have "\<bar>of_int n :: rat\<bar> < 2 powi emax F" by simp
  moreover have "of_int n = (of_int n :: rat) * 2 powi 0" by simp
  ultimately show ?thesis using assms unfolding representable_def by blast
qed

text \<open>The rounding error is at most half a unit in the last place.\<close>

lemma rval_error: "\<bar>rval F x - x\<bar> \<le> \<bar>x\<bar> * 2 powi (- int (prec F)) + 2 powi (emin F - 1)"
proof (cases "x = 0")
  case False
  let ?q = "2 powi qexp F x :: rat"
  have "rval F x - x = (of_int (rne (x / ?q)) - x / ?q) * ?q"
    using False by (simp add: rval_def left_diff_distrib)
  then have "\<bar>rval F x - x\<bar> = \<bar>of_int (rne (x / ?q)) - x / ?q\<bar> * ?q" by (simp add: abs_mult)
  also have "\<dots> \<le> 1/2 * ?q" using rne_near by (intro mult_right_mono) auto
  also have "\<dots> = 2 powi (qexp F x - 1)" by (simp add: power_int_diff)
  also have "\<dots> \<le> 2 powi (ilog2 \<bar>x\<bar> - int (prec F)) + 2 powi (emin F - 1)"
    by (auto simp: qexp_def max_def)
  also have "2 powi (ilog2 \<bar>x\<bar> - int (prec F)) \<le> \<bar>x\<bar> * 2 powi (- int (prec F))"
    using ilog2_bounds(1) [of "\<bar>x\<bar>"] False by (simp add: power_int_diff power_int_minus field_simps)
  finally show ?thesis by simp
qed simp

lemma fround_finite: "fround F x = Fin v \<Longrightarrow> v = rval F x"
  by (auto simp: fround_def Let_def split: if_splits)

lemma rval_mantissa:
  assumes "wf_fmt F"
  shows "\<bar>rne (x / 2 powi qexp F x)\<bar> \<le> 2 ^ prec F"
proof (cases "x = 0")
  case False
  let ?y = "x / 2 powi qexp F x"
  have "\<bar>x\<bar> < 2 powi (ilog2 \<bar>x\<bar> + 1)" using False by (intro ilog2_bounds) simp
  also have "\<dots> \<le> 2 powi (qexp F x + int (prec F))" by (intro powi_mono) (simp add: qexp_def)
  finally have "\<bar>?y\<bar> \<le> of_int (2 ^ prec F)" by (simp add: power_int_add abs_divide pos_divide_le_eq mult.commute)
  then have "?y \<le> of_int (2 ^ prec F)" "of_int (- (2 ^ prec F)) \<le> ?y"
    unfolding abs_le_iff of_int_minus by linarith+
  then have "rne ?y \<le> rne (of_int (2 ^ prec F))" "rne (of_int (- (2 ^ prec F))) \<le> rne ?y"
    by (blast intro: rne_mono)+
  then show ?thesis by (simp only: rne_of_int abs_le_iff) simp
qed (simp add: rne_def)

lemma fround_finite_representable:
  assumes F: "wf_fmt F" and v: "fround F x = Fin v"
  shows "representable F v"
proof -
  let ?m = "rne (x / 2 powi qexp F x)" and ?q = "qexp F x"
  have vr: "v = rval F x" and ov: "\<bar>v\<bar> < 2 powi emax F"
    using v by (auto simp: fround_def Let_def abs_less_iff split: if_splits)
  have q: "emin F \<le> ?q" by (simp add: qexp_def)
  have "\<exists>m e. v = of_int m * 2 powi e \<and> \<bar>m\<bar> < 2 ^ prec F \<and> emin F \<le> e"
  proof (cases "x = 0 \<or> \<bar>?m\<bar> < 2 ^ prec F")
    case True
    then show ?thesis using q vr by (cases "x = 0") (auto simp: rval_def intro: exI [of _ 0])
  next
    case False
    obtain p where p: "prec F = Suc p" using F by (cases "prec F") (auto simp: wf_fmt_def)
    have "?m = sgn ?m * (2 ^ p * 2)" using False rval_mantissa [OF F, of x] p
      by (metis abs_mult_sgn antisym_conv1 mult.commute power_Suc)
    then have "v = of_int (sgn ?m * 2 ^ p) * 2 powi (?q + 1)"
      using False vr by (simp add: rval_def powi_Suc) (metis (no_types, lifting) mult.assoc of_int_mult of_int_numeral of_int_power)
    moreover have "\<bar>sgn ?m * 2 ^ p\<bar> < 2 ^ prec F" using p by (simp add: abs_mult abs_sgn_eq)
    ultimately show ?thesis using q by (metis add.commute add_increasing zero_le_one)
  qed
  with ov show ?thesis by (simp add: representable_def)
qed

text \<open>Every value held in a C++ object of a floating-point type is representable in its format.\<close>

definition in_fmt :: "fmt \<Rightarrow> fp \<Rightarrow> bool" where
  "in_fmt F v \<longleftrightarrow> (\<forall>x. v = Fin x \<longrightarrow> representable F x)"

lemma in_fmt_fround [simp]: "wf_fmt F \<Longrightarrow> in_fmt F (fround F x)"
  by (simp add: in_fmt_def fround_finite_representable)

lemma in_fmt_fclamp: "in_fmt F v \<Longrightarrow> in_fmt F lo \<Longrightarrow> in_fmt F hi \<Longrightarrow> in_fmt F (fclamp v lo hi)"
  by (simp add: fclamp_def)

lemma fround_small_value: "\<bar>rval F x\<bar> < 2 powi emax F \<Longrightarrow> fround F x = Fin (rval F x)"
  by (auto simp: fround_def Let_def abs_less_iff)

lemma round_away_of_int [simp, fp_eval]:
  "round_away (of_int n) = n" "round_away (numeral k) = numeral k" "round_away (- numeral k) = - numeral k"
  "round_away 0 = 0" "round_away 1 = 1"
proof -
  show n: "round_away (of_int n) = n" for n by (simp add: round_away_def floor_eq_iff)
  show "round_away (numeral k) = numeral k" "round_away (- numeral k) = - numeral k" "round_away 0 = 0" "round_away 1 = 1"
    using n [of "numeral k"] n [of "- numeral k"] n [of 0] n [of 1] by simp_all
qed

lemma round_away_near:
  assumes "\<bar>x - of_int n\<bar> < 1/2"
  shows "round_away x = n"
proof -
  have b: "of_int n - 1/2 < x" "x < of_int n + 1/2" using assms by linarith+
  then have "\<lfloor>x + 1/2\<rfloor> = n" by (intro floor_unique) linarith+
  moreover have "\<lfloor>- x + 1/2\<rfloor> = - n" using b by (intro floor_unique; unfold of_int_minus; linarith)
  ultimately show ?thesis by (simp add: round_away_def)
qed

section \<open>The interface of a rounding function\<close>

text \<open>
  What the components rely on: rounding is monotone, never produces a NaN and fixes zero.  The
  client lemmas below are used through the interpretations for the three formats.
\<close>

locale rounding =
  fixes rnd :: "rat \<Rightarrow> fp"
  assumes rnd_mono: "x \<le> y \<Longrightarrow> fle (rnd x) (rnd y)"
    and rnd_not_NaN: "rnd x \<noteq> NaN"
    and rnd_0: "rnd 0 = Fin 0"
begin

lemma window_ordered: "0 \<le> d \<Longrightarrow> fle (rnd (x - d)) (rnd (x + d))"
  by (rule rnd_mono) simp

lemma rnd_nonneg: "0 \<le> x \<Longrightarrow> fle (Fin 0) (rnd x)"
  using rnd_mono [of 0 x] by (simp add: rnd_0)

lemma clamp_window:
  assumes "0 \<le> d" "v \<noteq> NaN"
  shows "fle (rnd (x - d)) (fclamp v (rnd (x - d)) (rnd (x + d)))"
    and "fle (fclamp v (rnd (x - d)) (rnd (x + d))) (rnd (x + d))"
  using fclamp_bounds [OF assms(2) rnd_not_NaN rnd_not_NaN window_ordered [OF assms(1)]] by auto

end

lemma wf_fmts [simp]: "wf_fmt f32" "wf_fmt f64" "wf_fmt f80"
  by (simp_all add: wf_fmt_def f32_def f64_def f80_def)

lemma rounding_fround: "wf_fmt F \<Longrightarrow> rounding (fround F)"
  by unfold_locales (auto intro: fround_mono)

interpretation r32: rounding "fround f32"
  by (rule rounding_fround) simp

interpretation r64: rounding "fround f64"
  by (rule rounding_fround) simp

interpretation r80: rounding "fround f80"
  by (rule rounding_fround) simp

section \<open>Evaluation on small integers\<close>

definition std_fmt :: "fmt \<Rightarrow> bool" where
  "std_fmt F \<longleftrightarrow> 24 \<le> prec F \<and> emin F \<le> 0 \<and> int (prec F) \<le> emax F"

lemma std_fmts [simp]: "std_fmt f32" "std_fmt f64" "std_fmt f80"
  by (simp_all add: std_fmt_def f32_def f64_def f80_def)

lemma representable_small:
  assumes F: "std_fmt F" and n: "\<bar>n\<bar> < 2 ^ 24"
  shows "representable F (of_int n)"
proof -
  have "(2::int) ^ 24 \<le> 2 ^ prec F" using F by (intro power_increasing) (auto simp: std_fmt_def)
  then have "\<bar>n\<bar> < 2 ^ prec F" using n by linarith
  then show ?thesis using F by (intro representable_int) (auto simp: std_fmt_def)
qed

lemma fround_small: "std_fmt F \<Longrightarrow> \<bar>n\<bar> < 2 ^ 24 \<Longrightarrow> fround F (of_int n) = Fin (of_int n)"
  by (intro fround_representable representable_small)

lemma fround_numeral [fp_eval]:
  "std_fmt F \<Longrightarrow> (numeral k :: int) < 2 ^ 24 \<Longrightarrow> fround F (numeral k) = Fin (numeral k)"
  "std_fmt F \<Longrightarrow> (numeral k :: int) < 2 ^ 24 \<Longrightarrow> fround F (- numeral k) = Fin (- numeral k)"
  "std_fmt F \<Longrightarrow> fround F 1 = Fin 1"
  "std_fmt F \<Longrightarrow> fround F (- 1) = Fin (- 1)"
  using fround_small [of F "numeral k"] fround_small [of F "- numeral k"]
    fround_small [of F 1] fround_small [of F "- 1"]
  by simp_all

end
