(* ===== verification/Damiao.thy ===== *)
theory Damiao
  imports Floating Can_Transport
begin

text \<open>
  The Damiao motor protocol, \<^verbatim>\<open>src/devices/damiao/protocol.cpp\<close>, and the sensor and actuator halves of a motor,
  \<^verbatim>\<open>include/policy_runtime/devices/damiao/sensor.hpp\<close> and \<^verbatim>\<open>actuator.hpp\<close>.  All arithmetic is that of \<open>float\<close>.  The value
  of \<open>std::lround\<close> on a NaN is unspecified, so it is an argument of the definitions that use it.
\<close>

section \<open>Data\<close>

record damiao_limits =
  dl_position_max :: fp
  dl_velocity_max :: fp
  dl_torque_max :: fp

record mit_command =
  mc_position :: fp
  mc_velocity :: fp
  mc_kp :: fp
  mc_kd :: fp
  mc_torque :: fp

record damiao_feedback =
  df_motor_id :: u8
  df_error_code :: u8
  df_position :: fp
  df_velocity :: fp
  df_torque :: fp
  df_mos_temperature_c :: int
  df_rotor_temperature_c :: int

datatype damiao_control = dc_enable | dc_disable | dc_zero_position

fun control_byte :: "damiao_control \<Rightarrow> u8" where
  "control_byte dc_enable = 0xFC"
| "control_byte dc_disable = 0xFD"
| "control_byte dc_zero_position = 0xFE"

record device_frame =
  fm_sequence :: u64
  fm_address :: u32
  fm_size :: u16
  fm_bytes :: bytes

definition empty_frame :: device_frame where
  "empty_frame = \<lparr>fm_sequence = 0, fm_address = 0, fm_size = 0, fm_bytes = replicate 256 0\<rparr>"

section \<open>Codes\<close>

definition lround :: "int \<Rightarrow> fp \<Rightarrow> int" where
  "lround unspecified v = (case v of Fin x \<Rightarrow> round_away x | _ \<Rightarrow> unspecified)"

definition clamp_code :: "int \<Rightarrow> fp \<Rightarrow> fp \<Rightarrow> fp \<Rightarrow> nat \<Rightarrow> u16" where
  "clamp_code unspecified v min_value max_value max_code =
     (let ratio = fdiv f32 (fsub f32 v min_value) (fsub f32 max_value min_value);
          scaled = fmul f32 (fclamp ratio (Fin 0) (Fin 1)) (fround f32 (of_nat max_code))
      in of_int (lround unspecified scaled))"

definition decode_code :: "nat \<Rightarrow> nat \<Rightarrow> fp \<Rightarrow> fp \<Rightarrow> fp" where
  "decode_code c max_code min_value max_value =
     fadd f32 min_value (fmul f32 (fdiv f32 (fround f32 (of_nat c)) (fround f32 (of_nat max_code))) (fsub f32 max_value min_value))"

definition finite_and_in_range :: "fp \<Rightarrow> fp \<Rightarrow> fp \<Rightarrow> bool" where
  "finite_and_in_range v min_value max_value \<longleftrightarrow> isfinite v \<and> fle min_value v \<and> fle v max_value"

definition limits_positive :: "damiao_limits \<Rightarrow> bool" where
  "limits_positive l \<longleftrightarrow> flt (Fin 0) (dl_position_max l) \<and> flt (Fin 0) (dl_velocity_max l) \<and> flt (Fin 0) (dl_torque_max l)"

section \<open>Frames\<close>

definition pack_mit :: "u16 \<Rightarrow> u16 \<Rightarrow> u16 \<Rightarrow> u16 \<Rightarrow> u16 \<Rightarrow> bytes" where
  "pack_mit p v kp kd t =
     [ucast (drop_bit 8 p), ucast (p AND 0xFF), ucast (drop_bit 4 v), ucast (push_bit 4 (v AND 0x0F) OR drop_bit 8 kp),
      ucast (kp AND 0xFF), ucast (drop_bit 4 kd), ucast (push_bit 4 (kd AND 0x0F) OR drop_bit 8 t), ucast (t AND 0xFF)]"

definition command_accepted :: "mit_command \<Rightarrow> damiao_limits \<Rightarrow> bool" where
  "command_accepted c l \<longleftrightarrow>
     limits_positive l
     \<and> finite_and_in_range (mc_position c) (fneg (dl_position_max l)) (dl_position_max l)
     \<and> finite_and_in_range (mc_velocity c) (fneg (dl_velocity_max l)) (dl_velocity_max l)
     \<and> finite_and_in_range (mc_torque c) (fneg (dl_torque_max l)) (dl_torque_max l)
     \<and> finite_and_in_range (mc_kp c) (Fin 0) (Fin 500) \<and> finite_and_in_range (mc_kd c) (Fin 0) (Fin 5)"

definition encode_mit :: "int \<Rightarrow> mit_command \<Rightarrow> damiao_limits \<Rightarrow> bytes result" where
  "encode_mit unspecified c l =
     (if \<not> command_accepted c l then failure invalid_argument ''MIT command is outside configured limits''
      else let p = clamp_code unspecified (mc_position c) (fneg (dl_position_max l)) (dl_position_max l) 0xFFFF;
               v = clamp_code unspecified (mc_velocity c) (fneg (dl_velocity_max l)) (dl_velocity_max l) 0x0FFF;
               kp = clamp_code unspecified (mc_kp c) (Fin 0) (Fin 500) 0x0FFF;
               kd = clamp_code unspecified (mc_kd c) (Fin 0) (Fin 5) 0x0FFF;
               t = clamp_code unspecified (mc_torque c) (fneg (dl_torque_max l)) (dl_torque_max l) 0x0FFF
           in success (pack_mit p v kp kd t))"

definition encode_control :: "damiao_control \<Rightarrow> bytes" where
  "encode_control control = replicate 7 0xFF @ [control_byte control]"

text \<open>A null pointer is the frame \<open>None\<close>.\<close>

definition decode_feedback :: "u32 \<Rightarrow> bytes option \<Rightarrow> nat \<Rightarrow> damiao_limits \<Rightarrow> damiao_feedback result" where
  "decode_feedback can_identifier frame len l =
     (case frame of
        None \<Rightarrow> failure invalid_argument ''invalid CAN feedback frame''
      | Some b \<Rightarrow>
          if can_identifier > 0x7FF \<or> len \<noteq> 8 \<or> \<not> limits_positive l
          then failure invalid_argument ''invalid CAN feedback frame''
          else let position = unat (b ! 1) * 256 + unat (b ! 2);
                   velocity = unat (b ! 3) * 16 + unat (b ! 4) div 16;
                   torque = unat (b ! 4) mod 16 * 256 + unat (b ! 5)
               in success
                    \<lparr>df_motor_id = b ! 0 AND 0x0F, df_error_code = drop_bit 4 (b ! 0),
                     df_position = decode_code position 0xFFFF (fneg (dl_position_max l)) (dl_position_max l),
                     df_velocity = decode_code velocity 0x0FFF (fneg (dl_velocity_max l)) (dl_velocity_max l),
                     df_torque = decode_code torque 0x0FFF (fneg (dl_torque_max l)) (dl_torque_max l),
                     df_mos_temperature_c = sint (b ! 6), df_rotor_temperature_c = sint (b ! 7)\<rparr>)"

section \<open>The sensor\<close>

record damiao_config =
  cg_motor_id :: u8
  cg_limits :: damiao_limits

definition damiao_sensor_accepts :: "damiao_config \<Rightarrow> device_frame \<Rightarrow> bool" where
  "damiao_sensor_accepts config frame \<longleftrightarrow> fm_address frame = ucast (cg_motor_id config) \<and> fm_size frame = 8"

definition damiao_sensor_decode :: "damiao_config \<Rightarrow> device_frame \<Rightarrow> damiao_feedback result" where
  "damiao_sensor_decode config frame =
     (if \<not> damiao_sensor_accepts config frame then failure protocol ''Damiao sensor frame does not match motor''
      else decode_feedback (fm_address frame) (Some (fm_bytes frame)) (unat (fm_size frame)) (cg_limits config))"

section \<open>The actuator\<close>

record damiao_actuator =
  da_config :: damiao_config
  da_command :: mit_command
  da_enabled :: bool
  da_zero_requested :: bool

definition make_actuator :: "damiao_config \<Rightarrow> damiao_actuator" where
  "make_actuator config = \<lparr>da_config = config,
     da_command = \<lparr>mc_position = Fin 0, mc_velocity = Fin 0, mc_kp = Fin 0, mc_kd = Fin 0, mc_torque = Fin 0\<rparr>,
     da_enabled = False, da_zero_requested = False\<rparr>"

definition set_enable :: "damiao_actuator \<Rightarrow> damiao_actuator" where "set_enable a = a\<lparr>da_enabled := True\<rparr>"
definition set_disable :: "damiao_actuator \<Rightarrow> damiao_actuator" where "set_disable a = a\<lparr>da_enabled := False\<rparr>"
definition request_zero_position :: "damiao_actuator \<Rightarrow> damiao_actuator" where "request_zero_position a = a\<lparr>da_zero_requested := True\<rparr>"
definition clear_zero_position :: "damiao_actuator \<Rightarrow> damiao_actuator" where "clear_zero_position a = a\<lparr>da_zero_requested := False\<rparr>"
definition set_command :: "damiao_actuator \<Rightarrow> mit_command \<Rightarrow> damiao_actuator" where "set_command a c = a\<lparr>da_command := c\<rparr>"

definition motor_frame :: "damiao_actuator \<Rightarrow> bytes \<Rightarrow> device_frame" where
  "motor_frame a payload =
     empty_frame\<lparr>fm_address := ucast (cg_motor_id (da_config a)), fm_size := 8, fm_bytes := payload @ drop (length payload) (fm_bytes empty_frame)\<rparr>"

definition encode_frame :: "int \<Rightarrow> damiao_actuator \<Rightarrow> device_frame result" where
  "encode_frame unspecified a =
     (if da_zero_requested a then success (motor_frame a (encode_control dc_zero_position))
      else if \<not> da_enabled a then success (motor_frame a (encode_control dc_disable))
      else case encode_mit unspecified (da_command a) (cg_limits (da_config a)) of
             Inl e \<Rightarrow> Inl e
           | Inr payload \<Rightarrow> success (motor_frame a payload))"

definition encode_enable :: "damiao_actuator \<Rightarrow> device_frame result" where
  "encode_enable a = success (motor_frame a (encode_control dc_enable))"

end
