(* ===== verification/St3215_Protocol.thy ===== *)
theory St3215_Protocol
  imports Floating Interfaces
begin

text \<open>
  The ST3215 servo protocol of \<^verbatim>\<open>src/devices/st3215/protocol.cpp\<close>: packet encoding with its checksum, the
  strict decoder, the bounded incremental stream parser and the conversions between radians and position
  units.  The codec lemmas show that decoding and encoding are mutually inverse; the parser refines a
  parser over plain byte lists, loses no packet of a well-formed stream however it is cut into chunks, and
  resynchronises after noise.
\<close>

section \<open>Packets\<close>

definition kSt3215BroadcastId :: u8 where "kSt3215BroadcastId = 0xFE"
definition kSt3215MaximumParameters :: nat where "kSt3215MaximumParameters = 253"
definition kSt3215MaximumFrameSize :: nat where "kSt3215MaximumFrameSize = 259"
definition kHeaderByte :: u8 where "kHeaderByte = 0xFF"

datatype st3215_instruction =
  ping | read_data | write_data | reg_write | action | recovery | reset | sync_read | sync_write

fun instruction_code :: "st3215_instruction \<Rightarrow> u8" where
  "instruction_code ping = 0x01"
| "instruction_code read_data = 0x02"
| "instruction_code write_data = 0x03"
| "instruction_code reg_write = 0x04"
| "instruction_code action = 0x05"
| "instruction_code recovery = 0x06"
| "instruction_code reset = 0x0A"
| "instruction_code sync_read = 0x82"
| "instruction_code sync_write = 0x83"

datatype st3215_register = goal_position | present_position

fun register_code :: "st3215_register \<Rightarrow> u8" where
  "register_code goal_position = 0x2A"
| "register_code present_position = 0x38"

record st3215_packet =
  pk_device_id :: u8
  pk_instruction_or_status :: u8
  pk_parameters :: bytes

record st3215_status =
  st_device_id :: u8
  st_error :: u8
  st_parameters :: bytes

definition checksum :: "u8 \<Rightarrow> u8 \<Rightarrow> u8 \<Rightarrow> bytes \<Rightarrow> u8" where
  "checksum device_id len instruction_or_status parameters =
     (let total = foldl (\<lambda>total parameter. total + ucast parameter)
                    (ucast device_id + ucast len + ucast instruction_or_status :: u32) parameters
      in ucast (NOT total AND 0xFF))"

definition encode_packet :: "u8 \<Rightarrow> u8 \<Rightarrow> bytes \<Rightarrow> bytes result" where
  "encode_packet device_id instruction_or_status parameters =
     (if length parameters > kSt3215MaximumParameters then failure invalid_argument ''too many ST3215 parameters''
      else let len = word_of_nat (length parameters + 2)
           in success ([kHeaderByte, kHeaderByte, device_id, len, instruction_or_status] @ parameters
                       @ [checksum device_id len instruction_or_status parameters]))"

definition decode_packet :: "bytes \<Rightarrow> st3215_packet result" where
  "decode_packet packet =
     (if length packet < 6 then failure protocol ''ST3215 packet is too short''
      else if packet ! 0 \<noteq> kHeaderByte \<or> packet ! 1 \<noteq> kHeaderByte then failure protocol ''invalid ST3215 packet header''
      else let len = packet ! 3
        in if len < 2 \<or> unat len + 4 \<noteq> length packet then failure protocol ''invalid ST3215 packet length''
           else let device_id = packet ! 2;
                    instruction_or_status = packet ! 4;
                    parameters = take (length packet - 6) (drop 5 packet);
                    expected = checksum device_id len instruction_or_status parameters
                in if last packet \<noteq> expected then failure protocol ''invalid ST3215 checksum''
                   else success \<lparr>pk_device_id = device_id, pk_instruction_or_status = instruction_or_status,
                                 pk_parameters = parameters\<rparr>)"

definition parse_status :: "bytes \<Rightarrow> st3215_status result" where
  "parse_status packet =
     (case decode_packet packet of
        Inl e \<Rightarrow> Inl e
      | Inr decoded \<Rightarrow> success \<lparr>st_device_id = pk_device_id decoded, st_error = pk_instruction_or_status decoded,
                              st_parameters = pk_parameters decoded\<rparr>)"

definition require_encoded :: "u8 \<Rightarrow> u8 \<Rightarrow> bytes \<Rightarrow> bytes" where
  "require_encoded device_id instruction_or_status parameters =
     (case encode_packet device_id instruction_or_status parameters of Inr b \<Rightarrow> b | Inl _ \<Rightarrow> [])"

definition ping_command :: "u8 \<Rightarrow> bytes" where
  "ping_command device_id = require_encoded device_id (instruction_code ping) []"

definition read_data_command :: "u8 \<Rightarrow> st3215_register \<Rightarrow> u8 \<Rightarrow> bytes" where
  "read_data_command device_id address len =
     require_encoded device_id (instruction_code read_data) [register_code address, len]"

definition write_data_command :: "u8 \<Rightarrow> st3215_register \<Rightarrow> bytes \<Rightarrow> bytes" where
  "write_data_command device_id address data =
     (if length data + 1 > kSt3215MaximumParameters then []
      else require_encoded device_id (instruction_code write_data) (register_code address # data))"

definition append_u16 :: "bytes \<Rightarrow> u16 \<Rightarrow> bytes" where
  "append_u16 output value = output @ [ucast (value AND 0xFF), ucast (drop_bit 8 value AND 0xFF)]"

definition goal_position_command :: "u8 \<Rightarrow> u16 \<Rightarrow> u16 \<Rightarrow> u16 \<Rightarrow> bytes" where
  "goal_position_command device_id position_units time_units speed_units =
     write_data_command device_id goal_position
       (append_u16 (append_u16 (append_u16 [] position_units) time_units) speed_units)"

definition read_present_position_command :: "u8 \<Rightarrow> bytes" where
  "read_present_position_command device_id = read_data_command device_id present_position 2"

definition status_packet :: "u8 \<Rightarrow> u8 \<Rightarrow> bytes \<Rightarrow> bytes" where
  "status_packet device_id err parameters = require_encoded device_id err parameters"

definition read_st3215_u16_le :: "bytes \<Rightarrow> u16 result" where
  "read_st3215_u16_le data =
     (if length data < 2 then failure protocol ''expected at least two ST3215 bytes''
      else success (ucast (data ! 0) OR push_bit 8 (ucast (data ! 1))))"

section \<open>Exact codec\<close>

lemma encode_packet_success:
  "length ps \<le> 253 \<Longrightarrow> encode_packet d i ps =
     success ([kHeaderByte, kHeaderByte, d, word_of_nat (length ps + 2), i] @ ps
       @ [checksum d (word_of_nat (length ps + 2)) i ps])"
  by (simp add: encode_packet_def kSt3215MaximumParameters_def Let_def)

lemma unat_length_byte: "n \<le> 253 \<Longrightarrow> unat (word_of_nat (n + 2) :: u8) = n + 2"
  by (subst unat_of_nat) simp

lemma decode_encode:
  assumes "encode_packet d i ps = success b"
  shows "decode_packet b = success \<lparr>pk_device_id = d, pk_instruction_or_status = i, pk_parameters = ps\<rparr>"
proof -
  have l: "length ps \<le> 253"
    using assms by (auto simp: encode_packet_def kSt3215MaximumParameters_def split: if_splits)
  have u: "unat (word_of_nat (length ps + 2) :: u8) = length ps + 2" by (rule unat_length_byte [OF l])
  have "\<not> (word_of_nat (length ps + 2) :: u8) < 2" unfolding word_less_nat_alt u by simp
  moreover have "b = [kHeaderByte, kHeaderByte, d, word_of_nat (length ps + 2), i] @ ps
       @ [checksum d (word_of_nat (length ps + 2)) i ps]"
    using assms encode_packet_success [OF l] by simp
  ultimately show ?thesis using u by (simp add: decode_packet_def Let_def)
qed

lemma encode_decode:
  assumes "decode_packet b = success p"
  shows "encode_packet (pk_device_id p) (pk_instruction_or_status p) (pk_parameters p) = success b"
proof -
  let ?ps = "take (length b - 6) (drop 5 b)"
  have h: "6 \<le> length b" "b ! 0 = kHeaderByte" "b ! 1 = kHeaderByte" "2 \<le> b ! 3" "unat (b ! 3) + 4 = length b"
    "last b = checksum (b ! 2) (b ! 3) (b ! 4) ?ps"
    and p: "p = \<lparr>pk_device_id = b ! 2, pk_instruction_or_status = b ! 4, pk_parameters = ?ps\<rparr>"
    using assms by (auto simp: decode_packet_def Let_def not_less split: if_splits)
  have lp: "length ?ps = length b - 6" by simp
  have le: "length ?ps \<le> 253" using h(5) unsigned_less [of "b ! 3", where ?'a = nat] by simp
  have "length ?ps + 2 = unat (b ! 3)" using h(1,5) lp by linarith
  then have len: "word_of_nat (length ?ps + 2) = b ! 3" by (simp only:) simp
  have "b = take 5 b @ ?ps @ [last b]"
  proof -
    have ne: "drop 5 b \<noteq> []" using h(1) by simp
    have "drop 5 b = butlast (drop 5 b) @ [last (drop 5 b)]" by (rule append_butlast_last_id [OF ne, symmetric])
    also have "butlast (drop 5 b) = ?ps" by (simp add: butlast_conv_take)
    also have "last (drop 5 b) = last b" using h(1) by (simp add: last_drop)
    finally show ?thesis by (metis append_take_drop_id)
  qed
  moreover have "take 5 b = [b ! 0, b ! 1, b ! 2, b ! 3, b ! 4]"
    using h(1) by (intro nth_equalityI) (auto simp: less_Suc_eq numeral_eq_Suc)
  ultimately show ?thesis using h le len by (simp add: p encode_packet_success)
qed

text \<open>The packet codec is exact: a byte string decodes to a packet precisely when it is that packet's
  encoding, so every accepted frame has the right header, length and checksum, no two packets share an encoding,
  and a packet with up to 253 parameters always survives the round trip.\<close>

theorem packet_codec_exact:
  "decode_packet b = success p \<longleftrightarrow>
     encode_packet (pk_device_id p) (pk_instruction_or_status p) (pk_parameters p) = success b"
  using decode_encode [of "pk_device_id p" "pk_instruction_or_status p" "pk_parameters p" b] encode_decode by auto

lemma u16_bytes: "ucast (ucast (w AND 0xFF) :: u8) OR push_bit 8 (ucast (ucast (drop_bit 8 w AND 0xFF) :: u8)) = (w :: u16)"
proof -
  have m: "(0xFF :: u16) = mask 8" by (simp add: mask_eq_exp_minus_1)
  have "bit (ucast (ucast (w AND 0xFF) :: u8) OR push_bit 8 (ucast (ucast (drop_bit 8 w AND 0xFF) :: u8)) :: u16) n = bit w n"
    for n
    unfolding m by (cases "n < 8") (auto simp: bit_simps dest: bit_imp_le_length)
  then show ?thesis by (simp add: bit_eq_iff)
qed

section \<open>The stream parser\<close>

record stream_parser =
  sp_buffer :: bytes
  sp_size :: nat

definition kCapacity :: nat where "kCapacity = 2 * kSt3215MaximumFrameSize"

definition make_parser :: stream_parser where
  "make_parser = \<lparr>sp_buffer = replicate kCapacity 0, sp_size = 0\<rparr>"

definition reset_parser :: "stream_parser \<Rightarrow> stream_parser" where
  "reset_parser p = p\<lparr>sp_size := 0\<rparr>"

definition append_stream :: "stream_parser \<Rightarrow> bytes \<Rightarrow> stream_parser \<times> unit result" where
  "append_stream p data =
     (if length data > length (sp_buffer p) - sp_size p
      then (reset_parser p, failure protocol ''ST3215 stream buffer capacity exceeded'')
      else (p\<lparr>sp_buffer := take (sp_size p) (sp_buffer p) @ data @ drop (sp_size p + length data) (sp_buffer p),
              sp_size := sp_size p + length data\<rparr>, success ()))"

definition discard_prefix :: "stream_parser \<Rightarrow> nat \<Rightarrow> stream_parser" where
  "discard_prefix p count0 =
     (let count = min count0 (sp_size p);
          moved = take (sp_size p - count) (drop count (sp_buffer p))
      in p\<lparr>sp_buffer := moved @ drop (length moved) (sp_buffer p), sp_size := sp_size p - count\<rparr>)"

function find_header :: "bytes \<Rightarrow> nat \<Rightarrow> nat \<Rightarrow> nat" where
  "find_header buffer n header =
     (if header + 1 < n \<and> (buffer ! header \<noteq> kHeaderByte \<or> buffer ! (header + 1) \<noteq> kHeaderByte)
      then find_header buffer n (header + 1) else header)"
  by pat_completeness auto
termination by (relation "measure (\<lambda>(_, n, header). n - header)") auto

declare find_header.simps [simp del]

definition next_packet :: "stream_parser \<Rightarrow> stream_parser \<times> st3215_packet option result" where
  "next_packet p0 =
     (let header = find_header (sp_buffer p0) (sp_size p0) 0;
          p = (if header > 0 then discard_prefix p0 header else p0)
      in if sp_size p < 2 then (p, success None)
         else if sp_size p < 4 then (p, success None)
         else let len = sp_buffer p ! 3
           in if len < 2 then (discard_prefix p 2, failure protocol ''invalid ST3215 packet length'')
              else let frame_size = unat len + 4
                in if frame_size > kSt3215MaximumFrameSize
                   then (discard_prefix p 2, failure protocol ''ST3215 frame exceeds maximum size'')
                   else if sp_size p < frame_size then (p, success None)
                   else let decoded = decode_packet (take frame_size (sp_buffer p));
                            p' = discard_prefix p frame_size
                        in case decoded of Inl e \<Rightarrow> (p', Inl e) | Inr packet \<Rightarrow> (p', success (Some packet)))"

section \<open>Refinement to byte lists\<close>

text \<open>The specification of the parser on the buffered bytes alone: skip to the first header, then take one
  frame.\<close>

fun skip_to_header :: "bytes \<Rightarrow> bytes" where
  "skip_to_header (a # b # bs) = (if a = kHeaderByte \<and> b = kHeaderByte then a # b # bs else skip_to_header (b # bs))"
| "skip_to_header bs = bs"

definition take_frame :: "bytes \<Rightarrow> bytes \<times> st3215_packet option result" where
  "take_frame bs0 =
     (let bs = skip_to_header bs0
      in if length bs < 4 then (bs, success None)
         else if bs ! 3 < 2 then (drop 2 bs, failure protocol ''invalid ST3215 packet length'')
         else if length bs < unat (bs ! 3) + 4 then (bs, success None)
         else (drop (unat (bs ! 3) + 4) bs,
               case decode_packet (take (unat (bs ! 3) + 4) bs) of Inl e \<Rightarrow> Inl e | Inr q \<Rightarrow> success (Some q)))"

definition contents :: "stream_parser \<Rightarrow> bytes" where
  "contents p = take (sp_size p) (sp_buffer p)"

definition parser_ok :: "stream_parser \<Rightarrow> bool" where
  "parser_ok p \<longleftrightarrow> length (sp_buffer p) = kCapacity \<and> sp_size p \<le> kCapacity"

lemma length_contents: "parser_ok p \<Longrightarrow> length (contents p) = sp_size p"
  by (simp add: contents_def parser_ok_def)

lemma make_parser_ok [simp]: "parser_ok make_parser" "contents make_parser = []"
  by (simp_all add: parser_ok_def make_parser_def contents_def)

lemma discard_prefix_refines:
  assumes "parser_ok p"
  shows "parser_ok (discard_prefix p n)" "contents (discard_prefix p n) = drop n (contents p)"
  using assms by (auto simp: parser_ok_def discard_prefix_def contents_def Let_def min_def drop_take)

lemma append_stream_refines:
  assumes "parser_ok p"
  shows "append_stream p data =
    (if length (contents p) + length data \<le> kCapacity
     then (fst (append_stream p data), success ())
     else (reset_parser p, failure protocol ''ST3215 stream buffer capacity exceeded''))"
    and "parser_ok (fst (append_stream p data))"
    and "length (contents p) + length data \<le> kCapacity \<Longrightarrow> contents (fst (append_stream p data)) = contents p @ data"
  using assms by (auto simp: append_stream_def parser_ok_def contents_def reset_parser_def)

lemma find_header_refines:
  "header \<le> n \<Longrightarrow> n \<le> length buffer \<Longrightarrow>
    drop (find_header buffer n header) (take n buffer) = skip_to_header (drop header (take n buffer))
    \<and> header \<le> find_header buffer n header \<and> find_header buffer n header \<le> n"
proof (induction buffer n header rule: find_header.induct)
  case (1 buffer n header)
  show ?case
  proof (cases "header + 1 < n")
    case True
    let ?rest = "drop (header + 2) (take n buffer)"
    have d: "drop header (take n buffer) = buffer ! header # buffer ! (header + 1) # ?rest"
      using True "1.prems" by (simp add: Cons_nth_drop_Suc [symmetric] Suc_lessD)
    have d': "drop (header + 1) (take n buffer) = buffer ! (header + 1) # ?rest"
      using True "1.prems" by (simp add: Cons_nth_drop_Suc [symmetric])
    have "skip_to_header (drop header (take n buffer)) =
        (if buffer ! header \<noteq> kHeaderByte \<or> buffer ! (header + 1) \<noteq> kHeaderByte
         then skip_to_header (drop (header + 1) (take n buffer)) else drop header (take n buffer))"
      unfolding d' by (simp add: d)
    then show ?thesis
      using "1.IH" "1.prems" True
      by (cases "buffer ! header \<noteq> kHeaderByte \<or> buffer ! (header + 1) \<noteq> kHeaderByte")
        (auto simp: find_header.simps [of buffer n header])
  next
    case False
    then have "length (drop header (take n buffer)) \<le> 1" by auto
    then have "skip_to_header (drop header (take n buffer)) = drop header (take n buffer)"
      by (cases "drop header (take n buffer)" rule: skip_to_header.cases) auto
    then show ?thesis using False "1.prems" by (simp add: find_header.simps [of buffer n header])
  qed
qed

lemma next_packet_contents:
  assumes ok: "parser_ok p"
  shows "parser_ok (fst (next_packet p)) \<and> contents (fst (next_packet p)) = fst (take_frame (contents p))
    \<and> snd (next_packet p) = snd (take_frame (contents p))"
proof -
  let ?h = "find_header (sp_buffer p) (sp_size p) 0"
  define q where "q = (if ?h > 0 then discard_prefix p ?h else p)"
  have q: "parser_ok q" "contents q = skip_to_header (contents p)"
    using discard_prefix_refines [OF ok] ok find_header_refines [of 0 "sp_size p" "sp_buffer p"]
    by (auto simp: q_def contents_def parser_ok_def)
  have l: "length (contents q) = sp_size q" by (rule length_contents [OF q(1)])
  have b: "sp_size q > 3 \<Longrightarrow> contents q ! 3 = sp_buffer q ! 3" by (simp add: contents_def)
  have t: "n \<le> sp_size q \<Longrightarrow> take n (sp_buffer q) = take n (contents q)" for n by (simp add: contents_def)
  let ?f = "unat (sp_buffer q ! 3) + 4"
  have m: "\<not> kSt3215MaximumFrameSize < ?f"
    using unsigned_less [of "sp_buffer q ! 3", where ?'a = nat] by (simp add: kSt3215MaximumFrameSize_def)
  note u = next_packet_def take_frame_def Let_def q_def [symmetric] q(2) [symmetric] if_not_P [OF m]
  note d = discard_prefix_refines [OF q(1)]
  show ?thesis
  proof (cases "sp_size q < 4")
    case True
    then show ?thesis unfolding u using q(1) l by simp
  next
    case False
    then have b: "contents q ! 3 = sp_buffer q ! 3" "\<not> sp_size q < 2" using b by auto
    show ?thesis
    proof (cases "sp_buffer q ! 3 < 2 \<or> sp_size q < ?f")
      case True
      then show ?thesis unfolding u using q(1) l b False d by auto
    next
      case small: False
      then show ?thesis unfolding u using q(1) l b False d t [of ?f] by (cases "decode_packet (take ?f (contents q))") auto
    qed
  qed
qed
text \<open>Claim C27.  The array-based stream parser refines the byte-list parser: on every well-formed parser,
  one step leaves exactly the bytes and returns exactly the outcome that skipping to the next header and
  taking one frame prescribe, and the buffer stays within its capacity.  A frame with a wrong checksum is removed
  whole; a frame whose length byte is below two has no known end, and only its two header bytes are removed, although
  the comment at the class speaks of one complete malformed frame for every error.\<close>

theorem next_packet_refines:
  assumes ok: "parser_ok p"
  shows "parser_ok (fst (next_packet p)) \<and> contents (fst (next_packet p)) = fst (take_frame (contents p))
    \<and> snd (next_packet p) = snd (take_frame (contents p))"
  by (rule next_packet_contents [OF ok])

text \<open>A frame behind a byte of noise is taken; of a frame with the length one, two bytes go.\<close>

theorem next_packet_refines_witness:
  "contents (fst (next_packet (fst (append_stream make_parser [0, 0xFF, 0xFF, 1, 2, 1, 0xFB, 9])))) = [9]
   \<and> snd (next_packet (fst (append_stream make_parser [0, 0xFF, 0xFF, 1, 2, 1, 0xFB, 9])))
       = success (Some \<lparr>pk_device_id = 1, pk_instruction_or_status = 1, pk_parameters = []\<rparr>)
   \<and> contents (fst (next_packet (fst (append_stream make_parser [0xFF, 0xFF, 1, 1, 7])))) = [1, 1, 7]"
proof -
  have a: "parser_ok (fst (append_stream make_parser bs))" "contents (fst (append_stream make_parser bs)) = bs" if "length bs \<le> 8" for bs
    using append_stream_refines [of make_parser bs] that by (simp_all add: kCapacity_def kSt3215MaximumFrameSize_def)
  have t: "take_frame [0, 0xFF, 0xFF, 1, 2, 1, 0xFB, 9] =
      ([9], success (Some \<lparr>pk_device_id = 1, pk_instruction_or_status = 1, pk_parameters = []\<rparr>))"
    "fst (take_frame [0xFF, 0xFF, 1, 1, 7]) = [1, 1, 7]" by code_simp+
  show ?thesis
    using next_packet_refines [OF a(1), of "[0, 0xFF, 0xFF, 1, 2, 1, 0xFB, 9]"] next_packet_refines [OF a(1), of "[0xFF, 0xFF, 1, 1, 7]"]
    by (simp add: a(2) t)
qed

section \<open>Streams of packets\<close>

definition frame_of :: "st3215_packet \<Rightarrow> bytes" where
  "frame_of q = require_encoded (pk_device_id q) (pk_instruction_or_status q) (pk_parameters q)"

definition packet_valid :: "st3215_packet \<Rightarrow> bool" where
  "packet_valid q \<longleftrightarrow> length (pk_parameters q) \<le> kSt3215MaximumParameters"

lemma frame_of_layout:
  assumes "packet_valid q"
  obtains sum where "frame_of q = [kHeaderByte, kHeaderByte, pk_device_id q, word_of_nat (length (pk_parameters q) + 2),
      pk_instruction_or_status q] @ pk_parameters q @ [sum]"
    and "decode_packet (frame_of q) = success q" and "length (frame_of q) = length (pk_parameters q) + 6"
    and "unat (word_of_nat (length (pk_parameters q) + 2) :: u8) = length (pk_parameters q) + 2"
proof -
  have l: "length (pk_parameters q) \<le> 253" using assms by (simp add: packet_valid_def kSt3215MaximumParameters_def)
  note e = encode_packet_success [OF l, of "pk_device_id q" "pk_instruction_or_status q"]
  show thesis
  proof (rule that)
    show f: "frame_of q = [kHeaderByte, kHeaderByte, pk_device_id q, word_of_nat (length (pk_parameters q) + 2),
      pk_instruction_or_status q] @ pk_parameters q @ [checksum (pk_device_id q) (word_of_nat (length (pk_parameters q) + 2))
      (pk_instruction_or_status q) (pk_parameters q)]"
      using e by (simp add: frame_of_def require_encoded_def success_def)
    show "decode_packet (frame_of q) = success q"
      using decode_encode [OF e] f by simp
    show "length (frame_of q) = length (pk_parameters q) + 6" using f by simp
    show "unat (word_of_nat (length (pk_parameters q) + 2) :: u8) = length (pk_parameters q) + 2"
      by (rule unat_length_byte [OF l])
  qed
qed

interpretation packets: framed_stream frame_of packet_valid take_frame
proof unfold_locales
  fix q :: st3215_packet and rest
  assume v: "packet_valid q"
  then show "frame_of q \<noteq> []" by (rule frame_of_layout) auto
  obtain s where f: "frame_of q = [kHeaderByte, kHeaderByte, pk_device_id q, word_of_nat (length (pk_parameters q) + 2),
      pk_instruction_or_status q] @ pk_parameters q @ [s]"
    and d: "decode_packet (frame_of q) = success q" and l: "length (frame_of q) = length (pk_parameters q) + 6"
    and u: "unat (word_of_nat (length (pk_parameters q) + 2) :: u8) = length (pk_parameters q) + 2"
    by (rule frame_of_layout [OF v])
  have lt: "\<not> (word_of_nat (length (pk_parameters q) + 2) :: u8) < 2" unfolding word_less_nat_alt u by simp
  have skip: "skip_to_header (frame_of q @ rest) = frame_of q @ rest" for rest by (simp add: f)
  have at: "(frame_of q @ rest) ! 3 = word_of_nat (length (pk_parameters q) + 2)" for rest by (simp add: f)
  show "take_frame (frame_of q @ rest) = (rest, success (Some q))"
    unfolding take_frame_def Let_def skip at u using l lt d by simp
  fix pre suf :: bytes
  assume e: "frame_of q = pre @ suf" and n: "suf \<noteq> []"
  have "skip_to_header pre = pre"
    using e f by (cases pre rule: skip_to_header.cases) auto
  moreover have "pre ! 3 = word_of_nat (length (pk_parameters q) + 2)" if "4 \<le> length pre"
    using that at [of "[]"] e by (simp add: nth_append split: if_splits)
  moreover have "length pre < length (pk_parameters q) + 6" using e n l by (metis length_append length_greater_0_conv
        less_add_same_cancel1)
  ultimately show "take_frame pre = (pre, success None)"
    using lt u by (auto simp: take_frame_def Let_def not_less)
next
  show "take_frame [] = ([], success None)" by (simp add: take_frame_def)
qed

text \<open>Calling \<open>next\<close> until it returns nothing; a parser holds at most \<open>kCapacity\<close> bytes and every packet or
  error removes some, so \<open>kCapacity + 1\<close> calls always suffice.\<close>

primrec drain_parser :: "nat \<Rightarrow> stream_parser \<Rightarrow> stream_parser \<times> st3215_packet list" where
  "drain_parser 0 p = (p, [])"
| "drain_parser (Suc n) p =
     (case next_packet p of
        (p', Inr (Some q)) \<Rightarrow> (let (p'', qs) = drain_parser n p' in (p'', q # qs))
      | (p', Inr None) \<Rightarrow> (p', [])
      | (p', Inl _) \<Rightarrow> drain_parser n p')"

primrec feed :: "stream_parser \<Rightarrow> bytes list \<Rightarrow> stream_parser \<times> st3215_packet list \<times> bool" where
  "feed p [] = (p, [], True)"
| "feed p (c # cs) =
     (let (p1, r) = append_stream p c;
          (p2, qs) = drain_parser (kCapacity + 1) p1;
          (p3, qs', ok) = feed p2 cs
      in (p3, qs @ qs', has_value r \<and> ok))"

lemma drain_parser_refines:
  "parser_ok p \<Longrightarrow> parser_ok (fst (drain_parser n p))
     \<and> contents (fst (drain_parser n p)) = fst (packets.drain n (contents p))
     \<and> snd (drain_parser n p) = snd (packets.drain n (contents p))"
proof (induction n arbitrary: p)
  case (Suc n)
  obtain p' r where np: "next_packet p = (p', r)" by fastforce
  have c: "parser_ok p'" "take_frame (contents p) = (contents p', r)"
    using next_packet_contents [OF Suc.prems] np by (auto simp: prod_eq_iff)
  show ?case using Suc.IH [OF c(1)] c np by (auto split: sum.splits option.splits prod.splits)
qed simp

lemma feed_stream:
  assumes "parser_ok p" "\<forall>q \<in> set qs. packet_valid q" "contents p @ concat cs = concat (map frame_of qs)"
    "packets.waiting (contents p) qs" "\<forall>c \<in> set cs. length c \<le> kSt3215MaximumFrameSize"
  shows "\<exists>p'. feed p cs = (p', qs, True) \<and> contents p' = [] \<and> parser_ok p'"
  using assms
proof (induction cs arbitrary: p qs)
  case Nil
  have "qs = []"
  proof (cases qs)
    case (Cons q qs')
    then have "length (contents p) < length (frame_of q)" using Nil.prems(4) by (simp add: packets.waiting_def)
    then show ?thesis using Nil.prems(3) Cons by (metis append_Nil2 concat.simps(1,2) leD length_append list.simps(9) le_add1)
  qed simp
  then show ?case using Nil by simp
next
  case (Cons c cs)
  have small: "length (contents p) + length c \<le> kCapacity"
  proof -
    have "length (contents p) \<le> kSt3215MaximumFrameSize"
    proof (cases qs)
      case Nil
      then show ?thesis using Cons.prems(4) by (simp add: packets.waiting_def)
    next
      case (Cons q qs')
      then have v: "packet_valid q" using Cons.prems(2) by simp
      then have "length (frame_of q) \<le> kSt3215MaximumFrameSize"
        by (rule frame_of_layout) (use v in \<open>simp add: packet_valid_def kSt3215MaximumFrameSize_def kSt3215MaximumParameters_def\<close>)
      then show ?thesis using \<open>packets.waiting (contents p) qs\<close> Cons by (simp add: packets.waiting_def)
    qed
    then show ?thesis using Cons.prems(5) by (simp add: kCapacity_def)
  qed
  obtain p1 where a: "append_stream p c = (p1, success ())" "parser_ok p1" "contents p1 = contents p @ c"
    using append_stream_refines [OF Cons.prems(1), of c] small by (metis prod.collapse fst_conv)
  have "contents p1 @ concat cs = concat (map frame_of qs)" using Cons.prems(3) a(3) by simp
  moreover have "length (contents p1) < kCapacity + 1" using a(2,3) small by simp
  ultimately obtain dn todo bs' where d: "qs = dn @ todo" "packets.drain (kCapacity + 1) (contents p1) = (bs', dn)"
      "bs' @ concat cs = concat (map frame_of todo)" "packets.waiting bs' todo"
    using packets.drain_prefix [OF Cons.prems(2)] by blast
  obtain p2 where p2: "drain_parser (kCapacity + 1) p1 = (p2, dn)" "parser_ok p2" "contents p2 = bs'"
    using drain_parser_refines [OF a(2), of "kCapacity + 1"] d(2) by (metis fst_conv prod.collapse snd_conv)
  obtain p3 where "feed p2 cs = (p3, todo, True)" "contents p3 = []" "parser_ok p3"
    using Cons.IH [OF p2(2), of todo] Cons.prems(2,5) d p2(3) by auto
  then show ?case using a(1) p2(1) d(1) by (simp del: drain_parser.simps)
qed

text \<open>Claim C25.  No packet of a well-formed stream is lost, invented or reordered, as long as no chunk is longer than
  one maximal frame of 259 bytes and the parser is drained after each chunk: however the concatenation of encoded
  packets is cut into such chunks, feeding them to a fresh parser and draining it after each returns exactly the
  packets, without an error or an overflow, and leaves the buffer empty.  (A longer chunk may not fit the buffer, which
  the parser then empties.)\<close>

theorem stream_recovered:
  assumes "\<forall>q \<in> set qs. packet_valid q" "concat cs = concat (map frame_of qs)"
    "\<forall>c \<in> set cs. length c \<le> kSt3215MaximumFrameSize"
  shows "\<exists>p'. feed make_parser cs = (p', qs, True) \<and> contents p' = []"
proof -
  have "packets.waiting [] qs"
  proof (cases qs)
    case (Cons q qs')
    then show ?thesis using assms(1) packets.enc_nonempty by (auto simp: packets.waiting_def)
  qed (simp add: packets.waiting_def)
  then show ?thesis using feed_stream [of make_parser qs cs] assms by auto
qed

theorem stream_recovered_witness:
  "\<exists>p'. feed make_parser [[0xFF], [0xFF, 1, 2, 1], [0xFB]]
     = (p', [\<lparr>pk_device_id = 1, pk_instruction_or_status = 1, pk_parameters = []\<rparr>], True) \<and> contents p' = []"
proof (rule stream_recovered)
  show "concat [[0xFF], [0xFF, 1, 2, 1], [0xFB]] =
    concat (map frame_of [\<lparr>pk_device_id = 1, pk_instruction_or_status = 1, pk_parameters = []\<rparr>])" by code_simp
qed (simp_all add: packet_valid_def kSt3215MaximumFrameSize_def)

lemma skip_noise: "\<forall>b \<in> set noise. b \<noteq> kHeaderByte \<Longrightarrow> skip_to_header (noise @ kHeaderByte # bs) = skip_to_header (kHeaderByte # bs)"
proof (induction noise)
  case (Cons a noise)
  then show ?case by (cases noise) auto
qed simp

text \<open>The parser resynchronises and always makes progress: a packet that follows any bytes other than
  the header byte is returned, with nothing but its frame and the noise removed; and a step that reports an error
  removes at least two bytes, so errors cannot repeat for ever.\<close>

theorem parser_resynchronises:
  assumes ok: "parser_ok p"
  shows "(packet_valid q \<and> contents p = noise @ frame_of q @ rest \<and> (\<forall>b \<in> set noise. b \<noteq> kHeaderByte) \<longrightarrow>
       snd (next_packet p) = success (Some q) \<and> contents (fst (next_packet p)) = rest)
    \<and> (snd (next_packet p) = failure c m \<longrightarrow> length (contents (fst (next_packet p))) + 2 \<le> length (contents p))"
proof (intro conjI impI)
  note r = next_packet_contents [OF ok]
  {
    assume h: "packet_valid q \<and> contents p = noise @ frame_of q @ rest \<and> (\<forall>b \<in> set noise. b \<noteq> kHeaderByte)"
    then obtain fs where f: "frame_of q = kHeaderByte # fs" by (elim conjE frame_of_layout) auto
    then have "skip_to_header (contents p) = skip_to_header (frame_of q @ rest)" using h skip_noise by auto
    then have "take_frame (contents p) = take_frame (frame_of q @ rest)" by (simp add: take_frame_def)
    then show "snd (next_packet p) = success (Some q)" "contents (fst (next_packet p)) = rest"
      using r packets.take_complete [of q rest] h by auto
  }
  assume "snd (next_packet p) = failure c m"
  then have e: "snd (take_frame (contents p)) = failure c m" using r by simp
  have "length (skip_to_header bs) \<le> length bs" for bs by (induction bs rule: skip_to_header.induct) auto
  from this [of "contents p"] e show "length (contents (fst (next_packet p))) + 2 \<le> length (contents p)"
    using r by (auto simp: take_frame_def Let_def not_less split: if_splits)
qed

theorem parser_resynchronises_witness:
  "snd (next_packet (fst (append_stream make_parser [7, 0xFF, 0xFF, 1, 2, 1, 0xFB])))
   = success (Some \<lparr>pk_device_id = 1, pk_instruction_or_status = 1, pk_parameters = []\<rparr>)"
proof -
  let ?b = "[7, 0xFF, 0xFF, 1, 2, 1, 0xFB]" and ?q = "\<lparr>pk_device_id = 1, pk_instruction_or_status = 1, pk_parameters = []\<rparr>"
  have a: "parser_ok (fst (append_stream make_parser ?b))" "contents (fst (append_stream make_parser ?b)) = ?b"
    using append_stream_refines [of make_parser ?b] by (simp_all add: kCapacity_def kSt3215MaximumFrameSize_def)
  have f: "frame_of ?q = [0xFF, 0xFF, 1, 2, 1, 0xFB]" by code_simp
  show ?thesis
    using parser_resynchronises [OF a(1), of ?q "[7]" "[]"] by (simp add: a(2) f packet_valid_def kHeaderByte_def)
qed

end
