(* ===== verification/St3215_Units.thy ===== *)
theory St3215_Units
  imports St3215_Protocol
begin

text \<open>
  The conversions between radians and ST3215 position units, with every floating-point operation of the
  source rounded to a double.  \<open>std::fmod\<close> and \<open>std::floor\<close> are exact in IEEE arithmetic.  The theorems bound
  the result of the forward conversion and show that a position reported by the servo converts to radians and
  back without loss.
\<close>

section \<open>Library functions\<close>

definition pi_double :: rat where
  "pi_double = 884279719003555 / 281474976710656"

definition truncate_rat :: "rat \<Rightarrow> int" where
  "truncate_rat x = (if x < 0 then \<lceil>x\<rceil> else \<lfloor>x\<rfloor>)"

fun ffmod :: "fp \<Rightarrow> fp \<Rightarrow> fp" where
  "ffmod (Fin x) (Fin y) = (if y = 0 then NaN else Fin (x - of_int (truncate_rat (x / y)) * y))"
| "ffmod (Fin x) PInf = Fin x"
| "ffmod (Fin x) NInf = Fin x"
| "ffmod _ _ = NaN"

fun ffloor :: "fp \<Rightarrow> fp" where
  "ffloor (Fin x) = Fin (of_int \<lfloor>x\<rfloor>)"
| "ffloor v = v"

text \<open>The conversion of a floating-point value to an integer type discards the fraction; it is only defined
  for values in range, and the theorems below show that the source stays there.\<close>

fun fp_to_int :: "fp \<Rightarrow> int" where
  "fp_to_int (Fin x) = truncate_rat x"
| "fp_to_int _ = 0"

section \<open>Conversions\<close>

definition tau :: fp where
  "tau = fmul f64 (Fin 2) (Fin pi_double)"

definition u16_rat :: "u16 \<Rightarrow> rat" where
  "u16_rat w = of_int (uint w)"

definition u16_double :: "u16 \<Rightarrow> fp" where
  "u16_double w = Fin (u16_rat w)"

definition wrap_angle :: "fp \<Rightarrow> fp" where
  "wrap_angle position_rad =
     (let wrapped = ffmod position_rad tau in if flt wrapped (Fin 0) then fadd f64 wrapped tau else wrapped)"

definition round_half_even :: "fp \<Rightarrow> fp" where
  "round_half_even scaled =
     (let integral = ffloor scaled;
          fractional = fsub f64 scaled integral
      in if flt (Fin (1/2)) fractional \<or> (feq fractional (Fin (1/2)) \<and> fp_to_int integral mod 2 \<noteq> 0)
         then fadd f64 integral (Fin 1) else integral)"

definition radians_to_position_units :: "fp \<Rightarrow> u16 \<Rightarrow> u16 result" where
  "radians_to_position_units position_rad max_position_units =
     (if \<not> isfinite position_rad \<or> max_position_units = 0
      then failure invalid_argument ''invalid ST3215 position conversion''
      else let scaled = fmul f64 (fdiv f64 (wrap_angle position_rad) tau) (u16_double max_position_units);
               rounded = fclamp (round_half_even scaled) (Fin 0) (u16_double max_position_units)
           in success (word_of_int (fp_to_int rounded)))"

definition position_units_to_radians :: "u16 \<Rightarrow> u16 \<Rightarrow> fp result" where
  "position_units_to_radians position_units max_position_units =
     (if max_position_units = 0 then failure invalid_argument ''invalid ST3215 position conversion''
      else success (fmul f64 (fmul f64 (fdiv f64 (u16_double position_units) (u16_double max_position_units)) (Fin 2))
                      (Fin pi_double)))"

section \<open>Range\<close>

lemma representable_dyadic:
  assumes "\<bar>m\<bar> < 2 ^ 53" "- 1074 \<le> e" "e \<le> 0"
  shows "representable f64 (of_int m * 2 powi e)"
proof -
  have "\<bar>of_int m * 2 powi e\<bar> = of_int \<bar>m\<bar> * (2 powi e :: rat)" by (simp add: abs_mult)
  also have "\<dots> \<le> of_int \<bar>m\<bar> * 1" using powi_mono [OF assms(3)] by (intro mult_left_mono) simp_all
  also have "\<dots> < 2 ^ 53"
    using assms(1) by (metis mult.right_neutral of_int_less_iff of_int_numeral of_int_power)
  also have "\<dots> = 2 powi int 53" by (simp only: power_int_of_nat)
  also have "\<dots> \<le> 2 powi 1024" by (rule powi_mono) simp
  finally show ?thesis using assms unfolding representable_def f64_def by auto
qed

lemma tau_representable: "representable f64 (2 * pi_double)"
proof -
  have "2 * pi_double = of_int 884279719003555 * 2 powi (- 47)"
    by (simp add: pi_double_def power_int_def power_one_over)
  then show ?thesis using representable_dyadic [of 884279719003555 "- 47"] by (simp only:) simp
qed

lemma tau_value: "tau = Fin (2 * pi_double)"
  by (simp add: tau_def fmul_def fround_representable [OF tau_representable])

lemma pi_double_bounds: "3 < pi_double" "pi_double < 4"
  by (simp_all add: pi_double_def)

lemma fmod_range:
  assumes "0 < t"
  shows "0 \<le> x \<Longrightarrow> 0 \<le> x - of_int (truncate_rat (x / t)) * t \<and> x - of_int (truncate_rat (x / t)) * t < t"
    and "x < 0 \<Longrightarrow> - t < x - of_int (truncate_rat (x / t)) * t \<and> x - of_int (truncate_rat (x / t)) * t \<le> 0"
proof -
  have t: "x = (x / t) * t" using assms by simp
  show "0 \<le> x - of_int (truncate_rat (x / t)) * t \<and> x - of_int (truncate_rat (x / t)) * t < t" if "0 \<le> x"
  proof -
    have "\<not> x / t < 0" using that assms by (simp add: divide_less_0_iff)
    then have k: "of_int (truncate_rat (x / t)) \<le> x / t" "x / t < of_int (truncate_rat (x / t)) + 1"
      by (simp_all add: truncate_rat_def) linarith
    show ?thesis using mult_right_mono [OF k(1), of t] mult_strict_right_mono [OF k(2), of t] assms by (simp add: algebra_simps)
  qed
  show "- t < x - of_int (truncate_rat (x / t)) * t \<and> x - of_int (truncate_rat (x / t)) * t \<le> 0" if "x < 0"
  proof -
    have "x / t < 0" using that assms by (simp add: divide_less_0_iff)
    then have k: "x / t \<le> of_int (truncate_rat (x / t))" "of_int (truncate_rat (x / t)) < x / t + 1"
      by (simp_all add: truncate_rat_def) linarith
    show ?thesis using mult_right_mono [OF k(1), of t] mult_strict_right_mono [OF k(2), of t] assms by (simp add: algebra_simps)
  qed
qed

lemma wrap_angle_range: "\<exists>w. wrap_angle (Fin x) = Fin w \<and> 0 \<le> w \<and> w \<le> 2 * pi_double"
proof -
  let ?t = "2 * pi_double"
  have t: "0 < ?t" using pi_double_bounds by simp
  let ?w = "x - of_int (truncate_rat (x / ?t)) * ?t"
  have f: "ffmod (Fin x) tau = Fin ?w" using t by (simp add: tau_value)
  show ?thesis
  proof (cases "?w < 0")
    case True
    then have "- ?t < ?w" using fmod_range [OF t, of x] by (meson linorder_not_less)
    then have "\<exists>v. fround f64 (?w + ?t) = Fin v \<and> 0 \<le> v \<and> v \<le> ?t"
      using True tau_representable representable_small [of f64 0] by (intro fround_between) auto
    then show ?thesis using True f unfolding wrap_angle_def Let_def by (simp add: tau_value)
  next
    case False
    then have "?w \<le> ?t" using fmod_range [OF t, of x] by (meson linorder_not_less order.strict_implies_order order_trans t)
    then show ?thesis using False f by (simp add: wrap_angle_def Let_def)
  qed
qed

lemma round_half_even_range:
  assumes "0 \<le> s" "s \<le> of_int n" "n < 2 ^ 20"
  shows "\<exists>k. round_half_even (Fin s) = Fin (of_int k) \<and> 0 \<le> k"
proof -
  have f: "0 \<le> \<lfloor>s\<rfloor>" "\<lfloor>s\<rfloor> \<le> n" using assms by (simp_all add: floor_le_iff)
  have "0 \<le> n + 1 \<Longrightarrow> n < 2 ^ 20 \<Longrightarrow> \<bar>n + 1\<bar> < 2 ^ 24" for n :: int by simp
  then have "\<bar>\<lfloor>s\<rfloor> + 1\<bar> < 2 ^ 24" using f assms(3) by (meson add_nonneg_nonneg order_le_less_trans zero_le_one)
  then have "fround f64 (of_int (\<lfloor>s\<rfloor> + 1)) = Fin (of_int (\<lfloor>s\<rfloor> + 1))" by (intro fround_small) auto
  then have "fadd f64 (Fin (of_int \<lfloor>s\<rfloor>)) (Fin 1) = Fin (of_int (\<lfloor>s\<rfloor> + 1))" by simp
  then show ?thesis
    unfolding round_half_even_def Let_def ffloor.simps using f
    by (cases "flt (Fin (1 / 2)) (fsub f64 (Fin s) (Fin (rat_of_int \<lfloor>s\<rfloor>)))
        \<or> feq (fsub f64 (Fin s) (Fin (rat_of_int \<lfloor>s\<rfloor>))) (Fin (1 / 2)) \<and> fp_to_int (Fin (rat_of_int \<lfloor>s\<rfloor>)) mod 2 \<noteq> 0")
      (auto intro: exI [of _ "\<lfloor>s\<rfloor>"] exI [of _ "\<lfloor>s\<rfloor> + 1"])
qed

lemma u16_int:
  obtains n where "u16_rat w = of_int n" "uint w = n" "0 \<le> n" "n < 65536"
proof -
  have "uint w < 2 ^ 16" using unsigned_less [of w, where ?'a = int] by simp
  then show thesis using that [of "uint w"] by (simp add: u16_rat_def)
qed

lemma u16_rat_nonneg: "0 \<le> u16_rat w"
  by (rule u16_int [of w]) simp

lemma u16_representable: "representable f64 (u16_rat w)"
proof (rule u16_int [of w])
  fix n assume "u16_rat w = of_int n" "0 \<le> n" "n < 65536"
  then show ?thesis using representable_small [of f64 n] by simp
qed

lemma scaled_range:
  assumes "0 \<le> w" "w \<le> 2 * pi_double"
  shows "\<exists>s. fmul f64 (fdiv f64 (Fin w) tau) (u16_double m) = Fin s \<and> 0 \<le> s \<and> s \<le> u16_rat m"
proof -
  have t: "0 < pi_double" using pi_double_bounds by simp
  have "\<exists>q. fround f64 (w / (2 * pi_double)) = Fin q \<and> 0 \<le> q \<and> q \<le> 1"
    using assms t representable_small [of f64 0] representable_small [of f64 1] by (intro fround_between) auto
  then obtain q where q: "fdiv f64 (Fin w) tau = Fin q" "0 \<le> q" "q \<le> 1" using t by (auto simp: fdiv_def tau_value)
  have "\<exists>s. fround f64 (q * u16_rat m) = Fin s \<and> 0 \<le> s \<and> s \<le> u16_rat m"
    using q u16_representable [of m] u16_rat_nonneg [of m] representable_small [of f64 0]
    by (intro fround_between) (auto intro: mult_left_le_one_le mult_nonneg_nonneg)
  then show ?thesis unfolding q(1) by (simp add: fmul_def u16_double_def)
qed

text \<open>Every finite angle converts to a position within the servo's range: the conversion never leaves
  the defined range of the integer casts and its result is at most the configured maximum.\<close>

lemma radians_in_range:
  assumes "isfinite position_rad" "0 < m"
  shows "\<exists>k. radians_to_position_units position_rad m = success k \<and> k \<le> m"
proof -
  obtain x where x: "position_rad = Fin x" using assms(1) by (auto simp: isfinite_iff)
  obtain w where w: "wrap_angle position_rad = Fin w" "0 \<le> w" "w \<le> 2 * pi_double" using wrap_angle_range x by blast
  obtain s where s: "fmul f64 (fdiv f64 (Fin w) tau) (u16_double m) = Fin s" "0 \<le> s" "s \<le> u16_rat m"
    using scaled_range [OF w(2,3)] by blast
  obtain n where n: "u16_rat m = of_int n" "uint m = n" "0 \<le> n" "n < 65536" by (rule u16_int)
  obtain k where k: "round_half_even (Fin s) = Fin (of_int k)" "0 \<le> k"
    using round_half_even_range [of s n] s(2,3) n by auto
  define j where "j = min k n"
  have "fclamp (Fin (of_int k)) (Fin 0) (u16_double m) = Fin (of_int j)"
    using k(2) by (auto simp: fclamp_def u16_double_def n j_def min_def)
  then have "radians_to_position_units position_rad m = success (word_of_int j)"
    using assms w(1) s(1) k n by (auto simp: radians_to_position_units_def Let_def truncate_rat_def j_def)
  moreover have j: "0 \<le> j" "j \<le> n" using k(2) n(3) by (simp_all add: j_def)
  then have "uint (word_of_int j :: u16) = j" using n(4) by (simp add: uint_word_of_int)
  then have "(word_of_int j :: u16) \<le> m" using j n(2) by (simp add: word_le_def)
  ultimately show ?thesis by auto
qed

lemma radians_in_range_witness:
  "\<exists>k. radians_to_position_units (Fin (- 3)) 4095 = success k \<and> k \<le> 4095"
  by (rule radians_in_range) simp_all

section \<open>Round trip\<close>

lemma rval_step:
  assumes "\<bar>x\<bar> \<le> 8"
  shows "\<bar>rval f64 x - x\<bar> \<le> 1 / 2 ^ 39"
proof -
  have "emin f64 - 1 \<le> -40" by (simp add: f64_def)
  note tiny = powi_neg_le [OF this]
  have "\<bar>rval f64 x - x\<bar> \<le> \<bar>x\<bar> * 2 powi (- 53) + 2 powi (emin f64 - 1)"
    using rval_error [of f64 x] by (simp add: f64_def)
  also have "\<bar>x\<bar> * 2 powi (- 53) \<le> 8 * (2 powi (- 53) :: rat)" using assms by (intro mult_right_mono) simp_all
  also have "8 * (2 powi (- 53) :: rat) = 1 / 2 ^ 50" by (simp add: power_int_def power_one_over)
  finally show ?thesis using tiny by simp
qed

lemma rval_step_large:
  assumes "\<bar>x\<bar> \<le> 2 ^ 17"
  shows "\<bar>rval f64 x - x\<bar> \<le> 1 / 2 ^ 20"
proof -
  have "emin f64 - 1 \<le> -40" by (simp add: f64_def)
  note tiny = powi_neg_le [OF this]
  have "\<bar>rval f64 x - x\<bar> \<le> \<bar>x\<bar> * 2 powi (- 53) + 2 powi (emin f64 - 1)"
    using rval_error [of f64 x] by (simp add: f64_def)
  also have "\<bar>x\<bar> * 2 powi (- 53) \<le> 2 ^ 17 * (2 powi (- 53) :: rat)" using assms by (intro mult_right_mono) simp_all
  also have "2 ^ 17 * (2 powi (- 53) :: rat) = 1 / 2 ^ 36" by (simp add: power_int_def power_one_over)
  finally show ?thesis using tiny by simp
qed

lemma fround_moderate:
  assumes "\<bar>x\<bar> \<le> 2 ^ 17"
  shows "fround f64 x = Fin (rval f64 x)"
proof -
  have x: "\<bar>x\<bar> \<le> 131072" using assms by simp
  have "\<bar>rval f64 x\<bar> < 262144" using rval_step_large [OF assms] x by (simp only: abs_le_iff) (simp add: abs_if)
  also have "(262144 :: rat) = 2 ^ 18" by simp
  also have "\<dots> = 2 powi int 18" by (simp only: power_int_of_nat)
  also have "\<dots> \<le> 2 powi emax f64" by (rule powi_mono) (simp add: f64_def)
  finally show ?thesis by (rule fround_small_value)
qed

lemma round_half_even_near:
  assumes s: "0 \<le> s" "\<bar>s - of_int k\<bar> < 1/4" and k: "0 \<le> k" "k < 2 ^ 20"
  shows "round_half_even (Fin s) = Fin (of_int k)"
proof -
  have r: "representable f64 (1/4)" "representable f64 (3/4)" "representable f64 0" "representable f64 1"
    using representable_dyadic [of 1 "- 2"] representable_dyadic [of 3 "- 2"] representable_small [of f64 0]
      representable_small [of f64 1] by (simp_all add: power_int_def power2_eq_square)
  show ?thesis
  proof (cases "of_int k \<le> s")
    case True
    then have fl: "\<lfloor>s\<rfloor> = k" using s(2) by (simp add: floor_eq_iff)
    obtain v where v: "fround f64 (s - of_int k) = Fin v" "v \<le> 1/4"
      using fround_between [of f64 0 "1/4" "s - of_int k"] True s(2) r by (auto simp: abs_if split: if_splits)
    then show ?thesis by (simp add: round_half_even_def Let_def fl fsub_def feq_def)
  next
    case False
    then have fl: "\<lfloor>s\<rfloor> = k - 1" using s(2) by (simp add: floor_eq_iff abs_if split: if_splits)
    obtain v where v: "fround f64 (s - of_int (k - 1)) = Fin v" "3/4 \<le> v"
      using fround_between [of f64 "3/4" 1 "s - of_int (k - 1)"] False s(2) r by (auto simp: abs_if split: if_splits)
    have "fadd f64 (Fin (of_int (k - 1))) (Fin 1) = Fin (of_int k)" using fround_small [of f64 k] k by simp
    moreover have "fsub f64 (Fin s) (Fin (of_int (k - 1))) = Fin v" using v(1) by (simp add: fsub_def del: of_int_diff)
    ultimately show ?thesis using v(2) by (simp add: round_half_even_def Let_def fl del: of_int_diff fadd.simps)
  qed
qed

lemma angle_error:
  fixes a b :: rat
  assumes a: "0 \<le> a" "a + 1 \<le> b" "b \<le> 65535"
  defines "r \<equiv> rval f64 (rval f64 (rval f64 (a / b) * 2) * pi_double)"
  shows "0 \<le> r" "r < 2 * pi_double" "r \<le> 8" "\<bar>rval f64 (r / (2 * pi_double)) - a / b\<bar> \<le> 4 / 2 ^ 39"
    "\<bar>a / b\<bar> \<le> 8" "\<bar>rval f64 (a / b) * 2\<bar> \<le> 8" "\<bar>rval f64 (rval f64 (a / b) * 2) * pi_double\<bar> \<le> 8"
proof -
  let ?E = "1 / 2 ^ 39 :: rat"
  have E: "0 < ?E" "?E < 1 / 100000000" by simp_all
  have b: "1 \<le> b" "0 < b" using a by simp_all
  define x where "x = a / b"
  define r1 where "r1 = rval f64 x"
  define r2 where "r2 = rval f64 (r1 * 2)"
  have pi: "3 < pi_double" "pi_double < 16 / 5" by (simp_all add: pi_double_def)
  have x: "0 \<le> x" "x \<le> 1 - 1 / b" "1 / 65535 \<le> 1 / b"
    using a b by (simp_all add: x_def field_simps)
  have x1: "\<bar>x\<bar> \<le> 8" "x \<le> 1" using x by auto
  have e1: "\<bar>r1 - x\<bar> \<le> ?E" unfolding r1_def by (rule rval_step [OF x1(1)])
  have b1: "\<bar>r1 * 2\<bar> \<le> 8" using e1 x x1 E by linarith
  have e2: "\<bar>r2 - r1 * 2\<bar> \<le> ?E" unfolding r2_def by (rule rval_step [OF b1])
  have e2': "\<bar>r2 - 2 * x\<bar> \<le> 3 * ?E" using e1 e2 by linarith
  have r2: "0 \<le> r2" "r2 \<le> 5 / 2"
    using rval_nonneg [of "r1 * 2" f64] rval_nonneg [OF x(1), of f64] e2' x1 E by (simp add: r2_def r1_def, linarith)
  have b2: "\<bar>r2 * pi_double\<bar> \<le> 8" using mult_mono [OF r2(2), of pi_double "16/5"] r2 pi by (simp add: abs_mult)
  have r: "r = rval f64 (r2 * pi_double)" by (simp add: r_def r1_def r2_def x_def)
  have e3: "\<bar>r - r2 * pi_double\<bar> \<le> ?E" unfolding r by (rule rval_step [OF b2])
  have "\<bar>(r2 - 2 * x) * pi_double\<bar> \<le> 3 * ?E * 4" unfolding abs_mult using e2' pi by (intro mult_mono) auto
  then have "\<bar>r2 * pi_double - 2 * x * pi_double\<bar> \<le> 3 * ?E * 4" by (simp only: left_diff_distrib)
  moreover have "2 * x * pi_double = 2 * pi_double * x" by simp
  ultimately have e3': "\<bar>r - 2 * pi_double * x\<bar> \<le> 13 * ?E" using e3 by linarith
  show r0: "0 \<le> r" unfolding r using r2 pi by (intro rval_nonneg) simp
  have "2 * pi_double * x \<le> 2 * pi_double * (1 - 1 / b)" using x pi by (intro mult_left_mono) auto
  also have "\<dots> = 2 * pi_double - 2 * pi_double * (1 / b)" by (simp add: algebra_simps)
  finally have "2 * pi_double * x \<le> 2 * pi_double - 2 * pi_double * (1 / b)" .
  moreover have "6 * (1 / 65535) \<le> 2 * pi_double * (1 / b)" using x(3) pi by (intro mult_mono) auto
  ultimately show rt: "r < 2 * pi_double" using e3' E by linarith
  then show r8: "r \<le> 8" using pi by linarith
  have t: "0 < 2 * pi_double" using pi by simp
  have "\<bar>r / (2 * pi_double) - x\<bar> = \<bar>r - 2 * pi_double * x\<bar> / (2 * pi_double)"
    using t by (simp add: field_simps abs_divide)
  also have "\<dots> \<le> 13 * ?E / 6" using e3' pi by (intro frac_le) auto
  finally have e4: "\<bar>r / (2 * pi_double) - x\<bar> \<le> 3 * ?E" using E by simp
  have "\<bar>r / (2 * pi_double)\<bar> \<le> 8" using e4 x x1 E by linarith
  from rval_step [OF this] have "\<bar>rval f64 (r / (2 * pi_double)) - r / (2 * pi_double)\<bar> \<le> ?E" .
  with e4 show "\<bar>rval f64 (r / (2 * pi_double)) - a / b\<bar> \<le> 4 / 2 ^ 39" unfolding x_def [symmetric] by linarith
  show "\<bar>a / b\<bar> \<le> 8" "\<bar>rval f64 (a / b) * 2\<bar> \<le> 8" "\<bar>rval f64 (rval f64 (a / b) * 2) * pi_double\<bar> \<le> 8"
    using x1(1) b1 b2 by (simp_all add: x_def r1_def r2_def)
qed

lemma wrap_angle_inside: "0 \<le> r \<Longrightarrow> r < 2 * pi_double \<Longrightarrow> wrap_angle (Fin r) = Fin r"
proof -
  assume r: "0 \<le> r" "r < 2 * pi_double"
  then have "0 \<le> r / (2 * pi_double)" "r / (2 * pi_double) < 1" by simp_all
  then have "truncate_rat (r / (2 * pi_double)) = 0" by (simp add: truncate_rat_def floor_eq_iff)
  then show ?thesis using r by (simp add: wrap_angle_def Let_def tau_value)
qed

text \<open>A reported position survives the conversion to radians and back: for every position below the
  configured maximum, converting it to radians and the result back to position units returns the same position.\<close>

theorem position_roundtrip:
  assumes "u < m"
  shows "\<exists>r. position_units_to_radians u m = success r \<and> radians_to_position_units r m = success u"
proof -
  obtain a where a: "u16_rat u = of_int a" "uint u = a" "0 \<le> a" "a < 65536" by (rule u16_int)
  obtain b where b: "u16_rat m = of_int b" "uint m = b" "0 \<le> b" "b < 65536" by (rule u16_int)
  have ab: "a + 1 \<le> b" using assms a(2) b(2) by (simp add: word_less_def)
  let ?a = "of_int a :: rat" and ?b = "of_int b :: rat"
  have "(of_int (a + 1) :: rat) \<le> of_int b" "(of_int b :: rat) \<le> of_int 65535" using ab b(4) by (simp_all only: of_int_le_iff)
  then have h: "0 \<le> ?a" "?a + 1 \<le> ?b" "?b \<le> 65535" using a(3) by simp_all
  note e = angle_error [OF h]
  define r where "r = rval f64 (rval f64 (rval f64 (?a / ?b) * 2) * pi_double)"
  define q where "q = rval f64 (r / (2 * pi_double))"
  note er = e [folded r_def, folded q_def]
  have big: "\<bar>x\<bar> \<le> 8 \<Longrightarrow> fround f64 x = Fin (rval f64 x)" for x using fround_moderate [of x] by simp
  have m: "m \<noteq> 0" "?b \<noteq> 0" using assms h by auto
  have rad: "position_units_to_radians u m = success (Fin r)"
    using m big [OF er(5)] big [OF er(6)] big [OF er(7)]
    by (simp add: position_units_to_radians_def u16_double_def a(1) b(1) fdiv_def fmul_def r_def)
  have t: "0 < 2 * pi_double" using pi_double_bounds by simp
  have "\<bar>r / (2 * pi_double)\<bar> \<le> 8" using er(1,2) t by (simp add: divide_le_eq)
  then have qd: "fdiv f64 (Fin r) tau = Fin q" using t by (simp add: fdiv_def tau_value big q_def)
  have qb: "\<bar>q * ?b - ?a\<bar> \<le> 1 / 1000"
  proof -
    have "\<bar>q * ?b - ?a\<bar> = \<bar>q - ?a / ?b\<bar> * ?b" using h by (simp add: abs_mult_pos [symmetric] field_simps)
    also have "\<dots> \<le> 4 / 2 ^ 39 * 65535" using er(4) h by (intro mult_mono) auto
    finally show ?thesis by simp
  qed
  then have "\<bar>q * ?b\<bar> \<le> 131072" using h by linarith
  then have "\<bar>q * ?b\<bar> \<le> 2 ^ 17" by simp
  note sc = fround_moderate [OF this] rval_step_large [OF this]
  define s where "s = rval f64 (q * ?b)"
  have s: "\<bar>s - ?a\<bar> < 1/4" using abs_triangle_ineq [of "s - q * ?b" "q * ?b - ?a"] sc(2) qb unfolding s_def [symmetric] by simp
  have "0 \<le> q" using er(1) t by (auto simp: q_def intro: rval_nonneg)
  then have s0: "0 \<le> s" using h by (auto simp: s_def intro!: rval_nonneg)
  have "round_half_even (Fin s) = Fin ?a" using a by (intro round_half_even_near s s0) auto
  moreover have "fmul f64 (Fin q) (u16_double m) = Fin s" using sc(1) by (simp add: fmul_def u16_double_def b(1) s_def)
  moreover have "fclamp (Fin ?a) (Fin 0) (u16_double m) = Fin ?a" using h by (simp add: fclamp_def u16_double_def b(1))
  moreover have "word_of_int a = u" unfolding a(2) [symmetric] by simp
  ultimately have "radians_to_position_units (Fin r) m = success u"
    using m a(3) qd wrap_angle_inside [OF er(1,2)] by (simp add: radians_to_position_units_def Let_def truncate_rat_def)
  with rad show ?thesis by blast
qed

theorem position_roundtrip_witness:
  "\<exists>r. position_units_to_radians 2048 4095 = success r \<and> radians_to_position_units r 4095 = success 2048"
  by (rule position_roundtrip) simp

end
