(* ===== verification/Ring_Queue.thy ===== *)
theory Ring_Queue
  imports Interfaces
begin

text \<open>
  Ring buffers over a fixed array: the head index and the number of queued elements, as the serial
  transport and the mailboxes keep them.  The ring interprets the bounded queue interface.
\<close>

record 'a ring =
  ring_slots :: "'a list"
  ring_head :: nat
  ring_size :: nat

definition ring_push :: "'a ring \<Rightarrow> 'a \<Rightarrow> 'a ring \<times> bool" where
  "ring_push q x =
     (if ring_size q \<ge> length (ring_slots q) then (q, False)
      else (q\<lparr>ring_slots := (ring_slots q)[(ring_head q + ring_size q) mod length (ring_slots q) := x],
              ring_size := ring_size q + 1\<rparr>, True))"

definition ring_pop :: "'a ring \<Rightarrow> 'a ring \<times> 'a option" where
  "ring_pop q =
     (if ring_size q = 0 then (q, None)
      else (q\<lparr>ring_head := (ring_head q + 1) mod length (ring_slots q), ring_size := ring_size q - 1\<rparr>,
            Some (ring_slots q ! ring_head q)))"

definition ring_clear :: "'a ring \<Rightarrow> 'a ring" where
  "ring_clear q = q\<lparr>ring_head := 0, ring_size := 0\<rparr>"

definition ring_list :: "'a ring \<Rightarrow> 'a list" where
  "ring_list q = map (\<lambda>i. ring_slots q ! ((ring_head q + i) mod length (ring_slots q))) [0..<ring_size q]"

definition ring_ok :: "nat \<Rightarrow> 'a ring \<Rightarrow> bool" where
  "ring_ok n q \<longleftrightarrow> 0 < n \<and> length (ring_slots q) = n \<and> ring_head q < n \<and> ring_size q \<le> n"

lemma length_ring_list [simp]: "length (ring_list q) = ring_size q"
  by (simp add: ring_list_def)

lemma ring_index_inj:
  assumes "(h + i) mod n = (h + j) mod n" "i < n" "j < n"
  shows "i = (j :: nat)"
proof -
  have "a = b" if "(h + a) mod n = (h + b) mod n" "a \<le> b" "b < n" for a b
  proof -
    have "n dvd b - a" using that mod_eq_dvd_iff_nat [of "h + a" "h + b" n] by simp
    then show ?thesis using that by (metis diff_is_0_eq' dvd_imp_le diff_less_mono2 less_imp_diff_less linorder_not_le
          zero_less_diff le_antisym)
  qed
  then show ?thesis using assms by (metis nat_le_linear)
qed

lemma ring_push_list:
  assumes "ring_ok n q"
  shows "ring_ok n (fst (ring_push q x))" "snd (ring_push q x) \<longleftrightarrow> length (ring_list q) < n"
    "ring_list (fst (ring_push q x)) = (if length (ring_list q) < n then ring_list q @ [x] else ring_list q)"
proof -
  have l: "length (ring_slots q) = n" "0 < n" using assms by (simp_all add: ring_ok_def)
  show "ring_ok n (fst (ring_push q x))" "snd (ring_push q x) \<longleftrightarrow> length (ring_list q) < n"
    using assms by (auto simp: ring_ok_def ring_push_def)
  show "ring_list (fst (ring_push q x)) = (if length (ring_list q) < n then ring_list q @ [x] else ring_list q)"
  proof (cases "ring_size q < n")
    case True
    let ?e = "(ring_head q + ring_size q) mod n"
    have "(ring_slots q)[?e := x] ! ((ring_head q + i) mod n) = ring_slots q ! ((ring_head q + i) mod n)" if "i < ring_size q" for i
    proof -
      have "(ring_head q + i) mod n \<noteq> ?e" using ring_index_inj [of "ring_head q" i n "ring_size q"] that True by auto
      then show ?thesis by simp
    qed
    then show ?thesis using True l by (simp add: ring_push_def ring_list_def)
  qed (use l in \<open>simp add: ring_push_def\<close>)
qed

lemma ring_pop_list:
  assumes "ring_ok n q"
  shows "ring_ok n (fst (ring_pop q))" "ring_list (fst (ring_pop q)) = tl (ring_list q)"
    "snd (ring_pop q) = (case ring_list q of [] \<Rightarrow> None | x # _ \<Rightarrow> Some x)"
proof -
  have l: "length (ring_slots q) = n" "0 < n" "ring_head q < n" using assms by (simp_all add: ring_ok_def)
  have c: "ring_list q = ring_slots q ! ring_head q #
      map (\<lambda>i. ring_slots q ! ((ring_head q + Suc i) mod n)) [0..<ring_size q - 1]" if "ring_size q \<noteq> 0"
  proof -
    from that obtain k where k: "ring_size q = Suc k" by (cases "ring_size q") auto
    have "[0..<Suc k] = 0 # map Suc [0..<k]" by (simp add: map_Suc_upt upt_conv_Cons del: upt_Suc)
    then show ?thesis using l by (simp add: ring_list_def k comp_def del: upt_Suc)
  qed
  show "ring_ok n (fst (ring_pop q))" using assms by (auto simp: ring_ok_def ring_pop_def)
  show "ring_list (fst (ring_pop q)) = tl (ring_list q)"
  proof (cases "ring_size q = 0")
    case False
    have "((ring_head q + 1) mod n + i) mod n = (ring_head q + Suc i) mod n" for i by (simp add: mod_add_left_eq)
    then show ?thesis using c [OF False] False l by (simp add: ring_pop_def ring_list_def)
  qed (simp add: ring_pop_def ring_list_def)
  show "snd (ring_pop q) = (case ring_list q of [] \<Rightarrow> None | x # _ \<Rightarrow> Some x)"
    using c by (cases "ring_size q = 0") (simp_all add: ring_pop_def ring_list_def)
qed

lemma ring_clear_list: "ring_ok n q \<Longrightarrow> ring_ok n (ring_clear q)" "ring_list (ring_clear q) = []"
  by (simp_all add: ring_ok_def ring_clear_def ring_list_def)

lemma ring_fifo: "bounded_fifo ring_push ring_pop ring_list (ring_ok n) n"
  by (unfold_locales, simp_all add: ring_push_list ring_pop_list) (simp add: ring_ok_def)

end
