(* ===== verification/Serial_Transport.thy ===== *)
theory Serial_Transport
  imports St3215_Protocol Ring_Queue
begin

text \<open>
  The serial transport of \<^verbatim>\<open>src/transport/serial/serial_transport.cpp\<close>.  The operating system is a parameter:
  a \<open>kernel\<close> lists the outcomes of the coming \<open>write\<close>, \<open>poll\<close> and \<open>read\<close> calls and the values of
  \<open>remaining_timeout_ms\<close>, and an operation that would need more outcomes than the lists hold returns
  \<open>None\<close>.  The receive stream has the array-and-size representation of the ST3215 stream parser, whose
  \<open>find_header\<close> and \<open>discard_prefix\<close> it shares; a frame is the used part of its array.
\<close>

section \<open>Data\<close>

definition kMaximumFrameStorage :: nat where "kMaximumFrameStorage = 259"
definition kMaximumReadBuffer :: nat where "kMaximumReadBuffer = 4096"
definition kQueueCapacity :: nat where "kQueueCapacity = 64"
definition kMaximumIoTimeout :: int where "kMaximumIoTimeout = 100"

datatype serial_error = no_error | timed_out | framing | io_failed | closed | queue_full | internal_failure

datatype transport_health = healthy | degraded | failed

record serial_config =
  cfg_path :: string
  cfg_baud_rate :: u32
  cfg_read_buffer_size :: nat
  cfg_maximum_frame_size :: nat
  cfg_read_timeout :: int
  cfg_write_timeout :: int

record serial_frame =
  fr_channel :: u32
  fr_data :: bytes

type_synonym port_identity = "u64 \<times> u64 \<times> u64"

record serial_impl =
  si_config :: serial_config
  si_fd_open :: bool
  si_wake_open :: bool
  si_has_original_termios :: bool
  si_port_identity :: port_identity
  si_has_port_identity :: bool
  si_tx_queue :: "serial_frame ring"
  si_rx_queue :: "serial_frame ring"
  si_stream :: stream_parser
  si_opened :: bool
  si_health :: transport_health
  si_last_error :: serial_error
  si_timeout_count :: u64
  si_io_error_count :: u64

definition empty_queue :: "serial_frame ring" where
  "empty_queue = \<lparr>ring_slots = replicate kQueueCapacity \<lparr>fr_channel = 0, fr_data = []\<rparr>, ring_head = 0, ring_size = 0\<rparr>"

definition make_serial :: "serial_config \<Rightarrow> serial_impl" where
  "make_serial config = \<lparr>si_config = config, si_fd_open = False, si_wake_open = False, si_has_original_termios = False,
     si_port_identity = (0, 0, 0), si_has_port_identity = False, si_tx_queue = empty_queue, si_rx_queue = empty_queue,
     si_stream = make_parser, si_opened = False, si_health = failed, si_last_error = closed, si_timeout_count = 0,
     si_io_error_count = 0\<rparr>"

section \<open>The operating system\<close>

datatype write_result = wrote nat | write_interrupted | write_blocked | write_failed
datatype poll_result =
    poll_interrupted
  | poll_expired
  | poll_failed
  | poll_ready (port_error: bool) (port_hangup: bool) (port_input: bool) (wake_signalled: bool)
datatype read_result = received bytes | read_interrupted | read_blocked | read_failed

record kernel =
  k_writes :: "write_result list"
  k_polls :: "poll_result list"
  k_reads :: "read_result list"
  k_remaining :: "nat list"

section \<open>Writing a frame\<close>

text \<open>The inner loop of \<open>write_all\<close>: poll again while interrupted, give up when the deadline has passed
  (\<open>None\<close> in the last component).\<close>

fun wait_writable :: "nat list \<Rightarrow> poll_result list \<Rightarrow> (nat list \<times> poll_result list \<times> poll_result option) option" where
  "wait_writable [] ps = None"
| "wait_writable (t # ts) ps =
     (if t = 0 then Some (ts, ps, None)
      else case ps of
             [] \<Rightarrow> None
           | p # ps' \<Rightarrow> if p = poll_interrupted then wait_writable ts ps' else Some (ts, ps', Some p))"

text \<open>Waiting for the port to become writable: the error that ends the write, or nothing to try again.\<close>

definition await_writable :: "kernel \<Rightarrow> (kernel \<times> serial_error option) option" where
  "await_writable k =
     (case wait_writable (k_remaining k) (k_polls k) of
        None \<Rightarrow> None
      | Some (ts, ps, r) \<Rightarrow>
          Some (k\<lparr>k_remaining := ts, k_polls := ps\<rparr>,
                case r of
                  None \<Rightarrow> Some timed_out
                | Some poll_expired \<Rightarrow> Some timed_out
                | Some (poll_ready err hup inp wake) \<Rightarrow>
                    if err \<or> hup then Some io_failed else if wake then Some closed else None
                | Some _ \<Rightarrow> Some io_failed))"

lemma await_writable_writes: "await_writable k = Some (k', e) \<Longrightarrow> k_writes k' = k_writes k"
  by (auto simp: await_writable_def split: option.splits)

fun progress :: "write_result \<Rightarrow> nat" where
  "progress (wrote n) = n"
| "progress _ = 0"

text \<open>The argument is what is left of the frame; the result carries the bytes handed to the kernel.\<close>

function write_all :: "bytes \<Rightarrow> kernel \<Rightarrow> (serial_error \<times> kernel \<times> bytes) option" where
  "write_all data k =
     (if data = [] then Some (no_error, k, [])
      else case k_writes k of
          [] \<Rightarrow> None
        | w # ws \<Rightarrow>
            let k1 = k\<lparr>k_writes := ws\<rparr>
            in if w = write_interrupted then write_all data k1
               else if w = write_failed then Some (io_failed, k1, [])
               else if progress w > 0
               then map_option (\<lambda>(e, k', sent). (e, k', take (progress w) data @ sent))
                      (write_all (drop (progress w) data) k1)
               else case await_writable k1 of
                      None \<Rightarrow> None
                    | Some (k2, Some e) \<Rightarrow> Some (e, k2, [])
                    | Some (k2, None) \<Rightarrow> write_all data k2)"
  by pat_completeness auto
termination
  by (relation "measure (\<lambda>(_, k). length (k_writes k))") (auto dest: await_writable_writes)

declare write_all.simps [simp del]

section \<open>Extracting frames\<close>

definition discard_stream_prefix :: "stream_parser \<Rightarrow> nat \<Rightarrow> stream_parser" where
  "discard_stream_prefix st count = discard_prefix st count"

lemma discard_size: "sp_size (discard_prefix st n) = sp_size st - min n (sp_size st)"
  by (simp add: discard_prefix_def Let_def)

function extract_frame ::
  "nat \<Rightarrow> stream_parser \<Rightarrow> bool \<Rightarrow> stream_parser \<times> serial_frame option \<times> bool" where
  "extract_frame maximum_frame_size st0 saw_framing_error =
     (let header = find_header (sp_buffer st0) (sp_size st0) 0;
          st = (if header > 0 then discard_stream_prefix st0 header else st0)
      in if sp_size st < 4 then (st, None, saw_framing_error)
         else let len = sp_buffer st ! 3; frame_size = unat len + 4
           in if len < 2 \<or> frame_size > maximum_frame_size \<or> frame_size > kMaximumFrameStorage
              then extract_frame maximum_frame_size (discard_stream_prefix st 2) True
              else if sp_size st < frame_size then (st, None, saw_framing_error)
              else (discard_stream_prefix st frame_size,
                    Some \<lparr>fr_channel = 0, fr_data = take frame_size (sp_buffer st)\<rparr>, saw_framing_error))"
  by pat_completeness auto
termination
  by (relation "measure (\<lambda>(_, st, _). sp_size st)") (auto simp: discard_stream_prefix_def discard_size split: if_splits)

declare extract_frame.simps [simp del]

section \<open>Receiving\<close>

fun wait_readable ::
  "bool \<Rightarrow> nat list \<Rightarrow> poll_result list \<Rightarrow> (nat list \<times> poll_result list \<times> poll_result option) option" where
  "wait_readable nonblocking ts [] =
     (case ts of t # ts' \<Rightarrow> if \<not> nonblocking \<and> t = 0 then Some (ts', [], None) else None | [] \<Rightarrow> None)"
| "wait_readable nonblocking ts (p # ps) =
     (if nonblocking
      then if p = poll_interrupted then wait_readable nonblocking ts ps else Some (ts, ps, Some p)
      else case ts of
             [] \<Rightarrow> None
           | t # ts' \<Rightarrow>
               if t = 0 then Some (ts', p # ps, None)
               else if p = poll_interrupted then wait_readable nonblocking ts' ps else Some (ts', ps, Some p))"

lemma wait_readable_shrinks: "wait_readable b ts ps = Some (ts', ps', r) \<Longrightarrow> length ts' \<le> length ts"
  by (induction b ts ps rule: wait_readable.induct) (fastforce split: if_splits list.splits)+

text \<open>What the receive loop does with the bytes of one \<open>read\<close>: the stream is reset when they do not fit,
  and bytes that exceed even the empty stream are dropped.\<close>

definition take_incoming :: "stream_parser \<Rightarrow> bytes \<Rightarrow> bool \<Rightarrow> stream_parser \<times> bool \<times> bool" where
  "take_incoming st incoming saw =
     (let overflow = length incoming > length (sp_buffer st) - sp_size st;
          st1 = (if overflow then st\<lparr>sp_size := 0\<rparr> else st)
      in if overflow \<and> length incoming > length (sp_buffer st) then (st1, True, False)
         else (fst (append_stream st1 incoming), saw \<or> overflow, True))"

definition stop_code :: "bool \<Rightarrow> serial_error" where
  "stop_code saw_framing_error = (if saw_framing_error then framing else timed_out)"

definition push_received :: "serial_frame ring \<Rightarrow> serial_frame \<Rightarrow> serial_frame ring \<times> serial_error" where
  "push_received rx frame = (let (rx', ok) = ring_push rx frame in (rx', if ok then no_error else queue_full))"

function receive_loop ::
  "serial_config \<Rightarrow> bool \<Rightarrow> bool \<Rightarrow> bool \<Rightarrow> stream_parser \<Rightarrow> serial_frame ring \<Rightarrow> kernel
     \<Rightarrow> (serial_error \<times> stream_parser \<times> serial_frame ring \<times> kernel) option" where
  "receive_loop config nonblocking polled saw st rx k =
     (case k_remaining k of
        [] \<Rightarrow> None
      | wait # ts \<Rightarrow>
          if wait = 0 \<and> (\<not> nonblocking \<or> polled) then Some (stop_code saw, st, rx, k\<lparr>k_remaining := ts\<rparr>)
          else case wait_readable nonblocking ts (k_polls k) of
              None \<Rightarrow> None
            | Some (ts', ps, None) \<Rightarrow> Some (stop_code saw, st, rx, k\<lparr>k_remaining := ts', k_polls := ps\<rparr>)
            | Some (ts', ps, Some r) \<Rightarrow>
                let k1 = k\<lparr>k_remaining := ts', k_polls := ps\<rparr>
                in if r = poll_expired then Some (stop_code saw, st, rx, k1)
                   else if r = poll_failed \<or> r = poll_interrupted then Some (io_failed, st, rx, k1)
                   else if wake_signalled r then Some (closed, st, rx, k1)
                   else if port_error r then Some (io_failed, st, rx, k1)
                   else if \<not> port_input r \<and> \<not> port_hangup r
                   then receive_loop config nonblocking True saw st rx k1
                   else case k_reads k1 of
                       [] \<Rightarrow> None
                     | read_interrupted # rs \<Rightarrow> receive_loop config nonblocking True saw st rx (k1\<lparr>k_reads := rs\<rparr>)
                     | read_blocked # rs \<Rightarrow> receive_loop config nonblocking True saw st rx (k1\<lparr>k_reads := rs\<rparr>)
                     | read_failed # rs \<Rightarrow> Some (io_failed, st, rx, k1\<lparr>k_reads := rs\<rparr>)
                     | received incoming # rs \<Rightarrow>
                         let k2 = k1\<lparr>k_reads := rs\<rparr>
                         in if incoming = [] then Some (io_failed, st, rx, k2)
                            else let (st1, saw1, kept) = take_incoming st incoming saw
                              in if \<not> kept then receive_loop config nonblocking True saw1 st1 rx k2
                                 else case extract_frame (cfg_maximum_frame_size config) st1 saw1 of
                                     (st2, None, saw2) \<Rightarrow> receive_loop config nonblocking True saw2 st2 rx k2
                                   | (st2, Some frame, saw2) \<Rightarrow>
                                       let (rx', e) = push_received rx frame in Some (e, st2, rx', k2))"
  by pat_completeness auto
termination
  by (relation "measure (\<lambda>(_, _, _, _, _, _, k). length (k_remaining k))")
    (auto dest!: wait_readable_shrinks simp: less_Suc_eq_le)

declare receive_loop.simps [simp del]

definition receive_one ::
  "serial_impl \<Rightarrow> int \<Rightarrow> kernel \<Rightarrow> (serial_error \<times> serial_impl \<times> kernel) option" where
  "receive_one s timeout_ms k =
     (case extract_frame (cfg_maximum_frame_size (si_config s)) (si_stream s) False of
        (st, Some frame, saw) \<Rightarrow>
          let (rx, e) = push_received (si_rx_queue s) frame
          in Some (e, s\<lparr>si_stream := st, si_rx_queue := rx\<rparr>, k)
      | (st, None, saw) \<Rightarrow>
          map_option (\<lambda>(e, st', rx, k'). (e, s\<lparr>si_stream := st', si_rx_queue := rx\<rparr>, k'))
            (receive_loop (si_config s) (timeout_ms = 0) False saw st (si_rx_queue s) k))"

section \<open>The transport\<close>

definition publish_error :: "serial_impl \<Rightarrow> serial_error \<Rightarrow> serial_impl" where
  "publish_error s err =
     (let s1 = s\<lparr>si_last_error := err\<rparr>
      in if err = no_error then s1\<lparr>si_health := healthy\<rparr>
         else if err = timed_out then s1\<lparr>si_timeout_count := si_timeout_count s1 + 1, si_health := degraded\<rparr>
         else if err = framing \<or> err = queue_full then s1\<lparr>si_health := degraded\<rparr>
         else s1\<lparr>si_io_error_count := si_io_error_count s1 + 1, si_health := failed\<rparr>)"

definition resynchronize_after_timeout :: "serial_impl \<Rightarrow> kernel \<Rightarrow> (serial_impl \<times> kernel) option" where
  "resynchronize_after_timeout s k =
     (case receive_one s (cfg_read_timeout (si_config s)) k of
        None \<Rightarrow> None
      | Some (_, s1, k1) \<Rightarrow>
          Some (s1\<lparr>si_stream := (si_stream s1)\<lparr>sp_size := 0\<rparr>, si_rx_queue := ring_clear (si_rx_queue s1)\<rparr>, k1))"

definition receive_once :: "serial_impl \<Rightarrow> kernel \<Rightarrow> (serial_impl \<times> kernel) option" where
  "receive_once s k =
     (if \<not> si_opened s \<or> \<not> si_fd_open s then Some (publish_error s closed, k)
      else case receive_one s 0 k of
             None \<Rightarrow> None
           | Some (e, s', k') \<Rightarrow> Some (if e \<noteq> timed_out then publish_error s' e else s', k'))"

text \<open>One transport cycle; the last component lists the bytes written to the port.\<close>

definition serial_cycle :: "serial_impl \<Rightarrow> kernel \<Rightarrow> (serial_impl \<times> kernel \<times> bytes) option" where
  "serial_cycle s0 k0 =
     (if \<not> si_opened s0 \<or> \<not> si_fd_open s0 then Some (publish_error s0 closed, k0, [])
      else
        case (if cfg_read_timeout (si_config s0) > 0 \<and> si_last_error s0 = timed_out
              then map_option (\<lambda>(s, k). (s\<lparr>si_last_error := no_error\<rparr>, k)) (resynchronize_after_timeout s0 k0)
              else Some (s0, k0)) of
          None \<Rightarrow> None
        | Some (s, k) \<Rightarrow>
            (case ring_pop (si_tx_queue s) of
               (_, None) \<Rightarrow>
                 (case receive_one s 0 k of
                    None \<Rightarrow> None
                  | Some (e, s', k') \<Rightarrow> Some (if e \<noteq> timed_out then publish_error s' e else s', k', []))
             | (tx, Some outgoing) \<Rightarrow>
                 (case write_all (fr_data outgoing) k of
                    None \<Rightarrow> None
                  | Some (e, k1, sent) \<Rightarrow>
                      let s1 = s\<lparr>si_tx_queue := tx\<rparr>
                      in if e \<noteq> no_error then Some (publish_error s1 e, k1, sent)
                         else case receive_one s1 (cfg_read_timeout (si_config s1)) k1 of
                                None \<Rightarrow> None
                              | Some (e', s2, k2) \<Rightarrow> Some (publish_error s2 e', k2, sent))))"

definition serial_write :: "serial_impl \<Rightarrow> u32 \<Rightarrow> bytes \<Rightarrow> serial_impl \<times> unit result" where
  "serial_write s channel data =
     (if \<not> si_opened s then (s, failure unavailable ''serial port is closed'')
      else if data = [] \<or> length data > cfg_maximum_frame_size (si_config s) \<or> length data > kMaximumFrameStorage
      then (s, failure invalid_argument ''invalid serial frame size'')
      else case ring_push (si_tx_queue s) \<lparr>fr_channel = channel, fr_data = data\<rparr> of
             (_, False) \<Rightarrow> (s\<lparr>si_last_error := queue_full, si_health := degraded\<rparr>,
                           failure unavailable ''serial transmit queue is full'')
           | (tx, True) \<Rightarrow> (s\<lparr>si_tx_queue := tx\<rparr>, success ()))"

definition serial_read :: "serial_impl \<Rightarrow> u32 \<Rightarrow> nat \<Rightarrow> serial_impl \<times> bytes result" where
  "serial_read s channel buffer_size =
     (if \<not> si_opened s then (s, failure unavailable ''serial port is closed'')
      else if ring_size (si_rx_queue s) = 0
      then (s, if si_last_error s = timed_out then failure timeout ''serial response timed out''
               else failure unavailable ''no serial frame is available'')
      else let frame = ring_slots (si_rx_queue s) ! ring_head (si_rx_queue s)
        in if fr_channel frame \<noteq> channel then (s, failure unavailable ''no serial frame for channel'')
           else if buffer_size < length (fr_data frame)
           then (s, failure invalid_argument ''serial receive buffer is too small'')
           else (s\<lparr>si_rx_queue := fst (ring_pop (si_rx_queue s))\<rparr>, success (fr_data frame)))"

section \<open>Opening and closing\<close>

text \<open>The outcomes of the system calls of \<open>open\<close>; a string is the system's error message.\<close>

datatype open_result = open_succeeds | open_busy | open_fails string

record open_calls =
  oc_open :: open_result
  oc_claim :: "string option"
  oc_identity :: "string + port_identity"
  oc_get_attributes :: "string option"
  oc_configure :: "string option"
  oc_eventfd :: "string option"

definition serial_speed :: "u32 \<Rightarrow> bool" where
  "serial_speed baud_rate \<longleftrightarrow>
     baud_rate \<in> {9600, 19200, 38400, 57600, 115200, 230400, 460800, 500000, 576000, 921600, 1000000, 1152000, 2000000}"

definition serial_config_ok :: "serial_config \<Rightarrow> bool" where
  "serial_config_ok c \<longleftrightarrow>
     \<not> (cfg_path c = [] \<or> \<not> serial_speed (cfg_baud_rate c) \<or> cfg_read_buffer_size c = 0
        \<or> cfg_read_buffer_size c > kMaximumReadBuffer \<or> cfg_maximum_frame_size c < 6
        \<or> cfg_maximum_frame_size c > kMaximumFrameStorage \<or> cfg_read_timeout c < 0 \<or> cfg_write_timeout c < 0
        \<or> cfg_read_timeout c > kMaximumIoTimeout \<or> cfg_write_timeout c > kMaximumIoTimeout)"

definition serial_open ::
  "serial_impl \<Rightarrow> port_identity set \<Rightarrow> open_calls \<Rightarrow> serial_impl \<times> port_identity set \<times> unit result" where
  "serial_open s open_ports calls =
     (if si_opened s then (s, open_ports, success ())
      else if \<not> serial_config_ok (si_config s)
      then (s, open_ports, failure invalid_argument ''invalid serial configuration'')
      else case oc_open calls of
          open_busy \<Rightarrow> (s, open_ports, failure unavailable ''serial port is already open exclusively'')
        | open_fails m \<Rightarrow> (s, open_ports, failure io (''open serial port: '' @ m))
        | open_succeeds \<Rightarrow>
            (case oc_claim calls of
               Some m \<Rightarrow> (s, open_ports, failure unavailable (''claim serial port exclusively: '' @ m))
             | None \<Rightarrow>
                 (case oc_identity calls of
                    Inl m \<Rightarrow> (s, open_ports, failure io (''fstat serial port: '' @ m))
                  | Inr identity \<Rightarrow>
                      if identity \<in> open_ports
                      then (s, open_ports, failure unavailable ''serial port is already open in this process'')
                      else let ports = insert identity open_ports; released = ports - {identity}
                        in case oc_get_attributes calls of
                             Some m \<Rightarrow> (s, released, failure io (''tcgetattr serial port: '' @ m))
                           | None \<Rightarrow>
                               (case oc_configure calls of
                                  Some m \<Rightarrow> (s, released, failure io (''configure serial port: '' @ m))
                                | None \<Rightarrow>
                                    (case oc_eventfd calls of
                                       Some m \<Rightarrow> (s, released, failure io (''create serial stop wakeup: '' @ m))
                                     | None \<Rightarrow>
                                         (s\<lparr>si_fd_open := True, si_wake_open := True, si_has_original_termios := True,
                                            si_port_identity := identity, si_has_port_identity := True,
                                            si_stream := (si_stream s)\<lparr>sp_size := 0\<rparr>,
                                            si_tx_queue := ring_clear (si_tx_queue s),
                                            si_rx_queue := ring_clear (si_rx_queue s),
                                            si_last_error := no_error, si_health := healthy, si_opened := True\<rparr>,
                                          ports, success ()))))))"

definition serial_close :: "serial_impl \<Rightarrow> port_identity set \<Rightarrow> serial_impl \<times> port_identity set" where
  "serial_close s open_ports =
     (if \<not> si_opened s \<and> \<not> si_fd_open s then (s\<lparr>si_opened := False\<rparr>, open_ports)
      else (s\<lparr>si_opened := False, si_fd_open := False, si_has_port_identity := False, si_wake_open := False,
              si_has_original_termios := False, si_last_error := closed, si_health := failed\<rparr>,
            if si_has_port_identity s then open_ports - {si_port_identity s} else open_ports))"

end
