(* ===== verification/Transport_Scheduler.thy ===== *)
theory Transport_Scheduler
  imports Prelude
begin

text \<open>
  Executor assignments of transports, \<^verbatim>\<open>src/robot_io/daemon/transport_scheduler.cpp\<close>.  A transport is known by
  its address; the scheduler keeps a map from addresses to executors.
\<close>

datatype scheduling_class =
  hard_realtime_periodic | soft_realtime_periodic | blocking_event_driven | asynchronous_class

datatype executor = hard_realtime | soft_realtime | blocking_event | asynchronous

type_synonym address = nat

record transport_scheduler =
  ts_assignments :: "address \<rightharpoonup> executor"

fun executor_for :: "scheduling_class \<Rightarrow> executor" where
  "executor_for hard_realtime_periodic = hard_realtime"
| "executor_for soft_realtime_periodic = soft_realtime"
| "executor_for blocking_event_driven = blocking_event"
| "executor_for asynchronous_class = asynchronous"

definition scheduler_add ::
  "transport_scheduler \<Rightarrow> address \<Rightarrow> scheduling_class \<Rightarrow> transport_scheduler \<times> unit result" where
  "scheduler_add s transport cls =
     (if ts_assignments s transport \<noteq> None
      then (s, failure invalid_argument ''transport is already registered'')
      else (s\<lparr>ts_assignments := (ts_assignments s)(transport \<mapsto> executor_for cls)\<rparr>, success ()))"

definition scheduler_remove :: "transport_scheduler \<Rightarrow> address \<Rightarrow> transport_scheduler \<times> unit result" where
  "scheduler_remove s transport =
     (if ts_assignments s transport = None
      then (s, failure invalid_argument ''transport is not registered'')
      else (s\<lparr>ts_assignments := (ts_assignments s)(transport := None)\<rparr>, success ()))"

definition executor_id :: "transport_scheduler \<Rightarrow> address \<Rightarrow> executor option" where
  "executor_id s transport = ts_assignments s transport"

lemma scheduler_add_remove:
  "scheduler_add s t c = (s', success ()) \<Longrightarrow> scheduler_remove s' t = (s, success ())"
  by (cases s) (auto simp: scheduler_add_def scheduler_remove_def fun_upd_idem split: if_splits)

lemma executor_id_add:
  "scheduler_add s t c = (s', success ()) \<Longrightarrow> executor_id s' u = (if u = t then Some (executor_for c) else executor_id s u)"
  by (auto simp: scheduler_add_def executor_id_def split: if_splits)

lemma scheduler_remove_assignments:
  "ts_assignments (fst (scheduler_remove s t)) = (ts_assignments s)(t := None)"
  by (auto simp: scheduler_remove_def)

end
