(* ===== verification/St3215_Servo.thy ===== *)
theory St3215_Servo
  imports St3215_Units Serial_Transport Transport_Scheduler
begin

text \<open>
  A servo and its command gate, the shared bus and the sensor and actuator codecs,
  \<^verbatim>\<open>src/devices/st3215/servo.cpp\<close>.  The servos live in a store (a list indexed by address) because the bus and
  the registry share them.  A \<open>LocalSnapshot\<close> is its last published value.  The monotonic clock is an argument
  \<open>now_ns\<close>; the serial port's answers are the \<open>kernel\<close> of the serial transport.
\<close>

section \<open>Data\<close>

definition kSt3215FeedbackValid :: u32 where "kSt3215FeedbackValid = 0x01"
definition kSt3215FeedbackStale :: u32 where "kSt3215FeedbackStale = 0x02"
definition kSt3215FeedbackTimeout :: u32 where "kSt3215FeedbackTimeout = 0x04"
definition kSt3215FeedbackIo :: u32 where "kSt3215FeedbackIo = 0x08"
definition kSt3215FeedbackProtocol :: u32 where "kSt3215FeedbackProtocol = 0x10"
definition kSt3215FeedbackDeviceError :: u32 where "kSt3215FeedbackDeviceError = 0x20"
definition kSt3215FeedbackDisabled :: u32 where "kSt3215FeedbackDisabled = 0x40"

lemmas feedback_flag_defs =
  kSt3215FeedbackValid_def kSt3215FeedbackStale_def kSt3215FeedbackTimeout_def kSt3215FeedbackIo_def
  kSt3215FeedbackProtocol_def kSt3215FeedbackDeviceError_def kSt3215FeedbackDisabled_def

record servo_command =
  vc_sequence :: u64
  vc_timestamp_ns :: int
  vc_target_position_rad :: fp
  vc_enabled :: bool
  vc_emergency_stop :: bool
  vc_reserved :: bytes

definition zero_servo_command :: servo_command where
  "zero_servo_command = \<lparr>vc_sequence = 0, vc_timestamp_ns = 0, vc_target_position_rad = Fin 0, vc_enabled = False,
     vc_emergency_stop = False, vc_reserved = replicate 6 0\<rparr>"

record servo_feedback =
  vf_feedback_sequence :: u64
  vf_command_sequence :: u64
  vf_timestamp_ns :: int
  vf_position_rad :: fp
  vf_raw_position :: u32
  vf_flags :: u32
  vf_transport_health :: u32
  vf_status_error :: u32
  vf_timeout_count :: u64
  vf_io_error_count :: u64

definition initial_servo_feedback :: servo_feedback where
  "initial_servo_feedback = \<lparr>vf_feedback_sequence = 0, vf_command_sequence = 0, vf_timestamp_ns = 0,
     vf_position_rad = Fin 0, vf_raw_position = 0, vf_flags = 0x02, vf_transport_health = 0, vf_status_error = 0,
     vf_timeout_count = 0, vf_io_error_count = 0\<rparr>"

record servo_config =
  sc_name :: string
  sc_device_id :: u8
  sc_servo_id :: u16
  sc_max_position_units :: u16
  sc_speed_units :: u16
  sc_time_units :: u16
  sc_feedback_timeout_ms :: int
  sc_command_timeout_ns :: int
  sc_maximum_command_future_ns :: int

datatype acceptance = accepted | duplicate | rejected

record staged_command =
  sg_publication :: u64
  sg_command :: servo_command

record servo =
  so_config :: servo_config
  so_commands :: "staged_command option"
  so_feedback :: "servo_feedback option"
  so_command_gate :: bool
  so_next_publication :: u64
  so_last_command_sequence :: u64
  so_last_command_timestamp_ns :: int
  so_last_command :: servo_command
  so_has_command :: bool

definition make_servo :: "servo_config \<Rightarrow> servo" where
  "make_servo config = \<lparr>so_config = config, so_commands = None, so_feedback = Some initial_servo_feedback,
     so_command_gate = False, so_next_publication = 0, so_last_command_sequence = 0, so_last_command_timestamp_ns = 0,
     so_last_command = zero_servo_command, so_has_command = False\<rparr>"

section \<open>The command gate\<close>

definition same_command :: "servo_command \<Rightarrow> servo_command \<Rightarrow> bool" where
  "same_command l r \<longleftrightarrow> vc_sequence l = vc_sequence r \<and> vc_timestamp_ns l = vc_timestamp_ns r
     \<and> feq (vc_target_position_rad l) (vc_target_position_rad r) \<and> vc_enabled l = vc_enabled r
     \<and> vc_emergency_stop l = vc_emergency_stop r \<and> vc_reserved l = vc_reserved r"

fun error_flag :: "error_code \<Rightarrow> u32" where
  "error_flag timeout = kSt3215FeedbackTimeout"
| "error_flag protocol = kSt3215FeedbackProtocol"
| "error_flag invalid_argument = kSt3215FeedbackProtocol"
| "error_flag io = kSt3215FeedbackIo"
| "error_flag unavailable = kSt3215FeedbackIo"
| "error_flag internal = kSt3215FeedbackIo"

definition try_lock_command :: "servo \<Rightarrow> servo \<times> bool" where
  "try_lock_command s = (s\<lparr>so_command_gate := True\<rparr>, \<not> so_command_gate s)"

definition unlock_command :: "servo \<Rightarrow> servo" where
  "unlock_command s = s\<lparr>so_command_gate := False\<rparr>"

definition inspect_command :: "servo \<Rightarrow> servo_command \<Rightarrow> int \<Rightarrow> acceptance" where
  "inspect_command s c now_ns =
     (if vc_timestamp_ns c < 0 \<or> \<not> isfinite (vc_target_position_rad c) \<or> (\<exists>b \<in> set (vc_reserved c). b \<noteq> 0) then rejected
      else if sc_command_timeout_ns (so_config s) > 0
           \<and> (vc_timestamp_ns c > now_ns + sc_maximum_command_future_ns (so_config s)
              \<or> now_ns - vc_timestamp_ns c > sc_command_timeout_ns (so_config s)) then rejected
      else if so_has_command s
           \<and> (vc_sequence c < so_last_command_sequence s \<or> vc_timestamp_ns c < so_last_command_timestamp_ns s) then rejected
      else if so_has_command s \<and> vc_sequence c = so_last_command_sequence s
      then (if same_command c (so_last_command s) then duplicate else rejected)
      else accepted)"

definition commit_command :: "servo \<Rightarrow> servo_command \<Rightarrow> servo" where
  "commit_command s c =
     s\<lparr>so_last_command := c, so_last_command_sequence := vc_sequence c,
       so_last_command_timestamp_ns := vc_timestamp_ns c, so_has_command := True,
       so_next_publication := so_next_publication s + 1,
       so_commands := Some \<lparr>sg_publication = so_next_publication s + 1, sg_command = c\<rparr>\<rparr>"

definition stage_command :: "servo \<Rightarrow> servo_command \<Rightarrow> int \<Rightarrow> servo \<times> acceptance" where
  "stage_command s c now_ns =
     (case try_lock_command s of
        (s1, False) \<Rightarrow> (s1, rejected)
      | (s1, True) \<Rightarrow>
          let a = inspect_command s1 c now_ns;
              s2 = (if a = accepted then commit_command s1 c else s1)
          in (unlock_command s2, a))"

definition servo_feedback_now :: "servo \<Rightarrow> int \<Rightarrow> servo_feedback" where
  "servo_feedback_now s now_ns =
     (let v = (case so_feedback s of Some v \<Rightarrow> v | None \<Rightarrow> initial_servo_feedback)
      in if now_ns > 0 \<and> sc_feedback_timeout_ms (so_config s) > 0
            \<and> (vf_timestamp_ns v \<le> 0 \<or> now_ns < vf_timestamp_ns v
               \<or> now_ns - vf_timestamp_ns v > sc_feedback_timeout_ms (so_config s) * 1000000)
         then v\<lparr>vf_flags := (vf_flags v OR kSt3215FeedbackStale) AND NOT kSt3215FeedbackValid\<rparr>
         else v)"

definition read_staged :: "servo \<Rightarrow> u64 \<Rightarrow> staged_command option" where
  "read_staged s consumed_publication =
     (case so_commands s of
        None \<Rightarrow> None
      | Some staged \<Rightarrow> if sg_publication staged = consumed_publication then None else Some staged)"

definition publish_feedback :: "servo list \<Rightarrow> nat \<Rightarrow> servo_feedback \<Rightarrow> servo list" where
  "publish_feedback servos i fb = servos[i := (servos ! i)\<lparr>so_feedback := Some fb\<rparr>]"

section \<open>Sensor and actuator codecs\<close>

definition st3215_sensor_decode :: "servo_config \<Rightarrow> st3215_status \<Rightarrow> int \<Rightarrow> u64 \<Rightarrow> servo_feedback result" where
  "st3215_sensor_decode config status timestamp_ns command_sequence =
     (let fb = initial_servo_feedback
            \<lparr>vf_feedback_sequence := 1, vf_command_sequence := command_sequence, vf_timestamp_ns := timestamp_ns,
             vf_status_error := ucast (st_error status),
             vf_flags := (if st_error status = 0 then kSt3215FeedbackValid else kSt3215FeedbackDeviceError)\<rparr>
      in if st_device_id status \<noteq> sc_device_id config
         then failure protocol ''ST3215 response device ID does not match sensor''
         else if length (st_parameters status) \<ge> 2
         then case read_st3215_u16_le (st_parameters status) of
                Inl e \<Rightarrow> Inl e
              | Inr raw \<Rightarrow>
                  (case position_units_to_radians raw (sc_max_position_units config) of
                     Inl e \<Rightarrow> Inl e
                   | Inr radians \<Rightarrow> success (fb\<lparr>vf_raw_position := ucast raw, vf_position_rad := radians\<rparr>))
         else success fb)"

definition st3215_actuator_encode :: "servo_config \<Rightarrow> servo_command \<Rightarrow> bytes result" where
  "st3215_actuator_encode config command =
     (if \<not> vc_enabled command \<or> vc_emergency_stop command
      then success (read_present_position_command (sc_device_id config))
      else case radians_to_position_units (vc_target_position_rad command) (sc_max_position_units config) of
             Inl e \<Rightarrow> Inl e
           | Inr position \<Rightarrow>
               success (goal_position_command (sc_device_id config) position (sc_time_units config) (sc_speed_units config)))"

end
