(* ===== verification/St3215_Bus.thy ===== *)
theory St3215_Bus
  imports St3215_Servo
begin

text \<open>
  The shared serial bus of ST3215 servos, \<^verbatim>\<open>St3215Bus\<close> of \<^verbatim>\<open>src/devices/st3215/servo.cpp\<close>.  A runtime refers to its
  servo by address in the store; an operation on a runtime takes its position on the bus.  The handler of
  exceptions in \<open>cycle\<close> is not represented: the modelled operations do not throw.
\<close>

section \<open>Data\<close>

record servo_runtime =
  rt_servo :: address
  rt_consumed_publication :: u64
  rt_feedback_sequence :: u64
  rt_goal_sequence :: u64
  rt_goal_dispatched :: bool
  rt_last_response_ns :: int
  rt_command :: servo_command
  rt_has_command :: bool
  rt_command_timed_out :: bool

definition make_runtime :: "address \<Rightarrow> servo_runtime" where
  "make_runtime servo = \<lparr>rt_servo = servo, rt_consumed_publication = 0, rt_feedback_sequence = 0, rt_goal_sequence = 0,
     rt_goal_dispatched = False, rt_last_response_ns = 0, rt_command = zero_servo_command, rt_has_command = False,
     rt_command_timed_out = False\<rparr>"

record bus =
  sb_transport :: serial_impl
  sb_address :: address
  sb_service_period :: int
  sb_servos :: "servo_runtime list"
  sb_scheduler :: "address option"
  sb_running :: bool
  sb_health :: transport_health
  sb_cycle_sequence :: u64
  sb_cursor :: nat
  sb_pending_index :: nat
  sb_dispatched :: bool
  sb_started_ns :: int
  sb_fault_latched :: bool

definition make_bus :: "serial_impl \<Rightarrow> address \<Rightarrow> int \<Rightarrow> bus" where
  "make_bus transport addr service_period = \<lparr>sb_transport = transport, sb_address = addr,
     sb_service_period = service_period, sb_servos = [], sb_scheduler = None, sb_running = False, sb_health = failed,
     sb_cycle_sequence = 0, sb_cursor = 0, sb_pending_index = 0, sb_dispatched = False, sb_started_ns = 0,
     sb_fault_latched = False\<rparr>"

fun health_code :: "transport_health \<Rightarrow> u32" where
  "health_code healthy = 0"
| "health_code degraded = 1"
| "health_code failed = 2"

section \<open>Life cycle\<close>

definition int64_limit :: int where "int64_limit = 2 ^ 63 - 1"

definition add_servo :: "bus \<Rightarrow> servo list \<Rightarrow> address option \<Rightarrow> bus \<times> unit result" where
  "add_servo b servos servo =
     (case servo of
        None \<Rightarrow> (b, failure invalid_argument ''invalid ST3215 servo configuration'')
      | Some i \<Rightarrow>
          let c = so_config (servos ! i)
          in if sb_running b \<or> sc_name c = [] \<or> sc_device_id c = kSt3215BroadcastId \<or> sc_max_position_units c = 0
                \<or> sc_feedback_timeout_ms c \<le> 0 \<or> sc_feedback_timeout_ms c > int64_limit div 1000000
             then (b, failure invalid_argument ''invalid ST3215 servo configuration'')
             else if \<exists>r \<in> set (sb_servos b). sc_device_id (so_config (servos ! rt_servo r)) = sc_device_id c
                       \<or> sc_name (so_config (servos ! rt_servo r)) = sc_name c
             then (b, failure invalid_argument ''duplicate ST3215 servo on shared bus'')
             else (b\<lparr>sb_servos := sb_servos b @ [make_runtime i]\<rparr>, success ()))"

text \<open>What the process shares: its schedulers, by address, and the serial ports it has claimed.\<close>

record process =
  pr_schedulers :: "address \<Rightarrow> transport_scheduler"
  pr_ports :: "port_identity set"

definition bus_start ::
  "bus \<Rightarrow> bool \<Rightarrow> address \<Rightarrow> open_calls \<Rightarrow> int \<Rightarrow> process \<Rightarrow> bus \<times> process \<times> unit result" where
  "bus_start b lock_free scheduler calls now_ns p =
     (if sb_running b \<or> sb_servos b = [] \<or> sb_service_period b \<le> 0 \<or> sb_service_period b > 1000000000
      then (b, p, failure invalid_argument ''ST3215 bus is not startable'')
      else if \<not> lock_free then (b, p, failure unavailable ''ST3215 snapshots are not lock-free'')
      else case scheduler_add (pr_schedulers p scheduler) (sb_address b) blocking_event_driven of
          (_, Inl e) \<Rightarrow> (b, p, Inl e)
        | (s, Inr _) \<Rightarrow>
            (case serial_open (sb_transport b) (pr_ports p) calls of
               (t, ports, Inl e) \<Rightarrow>
                 (b\<lparr>sb_transport := t\<rparr>,
                  p\<lparr>pr_schedulers := (pr_schedulers p)(scheduler := fst (scheduler_remove s (sb_address b))), pr_ports := ports\<rparr>,
                  Inl e)
             | (t, ports, Inr _) \<Rightarrow>
                 (b\<lparr>sb_transport := t, sb_scheduler := Some scheduler, sb_health := healthy, sb_started_ns := now_ns,
                    sb_running := True\<rparr>,
                  p\<lparr>pr_schedulers := (pr_schedulers p)(scheduler := s), pr_ports := ports\<rparr>, success ())))"

definition bus_stop :: "bus \<Rightarrow> process \<Rightarrow> bus \<times> process" where
  "bus_stop b p =
     (if \<not> sb_running b \<and> sb_scheduler b = None then (b, p)
      else let (t, ports) = serial_close (sb_transport b) (pr_ports p)
        in (b\<lparr>sb_running := False, sb_transport := t, sb_scheduler := None, sb_health := failed\<rparr>,
            case sb_scheduler b of
              None \<Rightarrow> p\<lparr>pr_ports := ports\<rparr>
            | Some a \<Rightarrow>
                p\<lparr>pr_schedulers := (pr_schedulers p)(a := fst (scheduler_remove (pr_schedulers p a) (sb_address b))),
                  pr_ports := ports\<rparr>))"

definition bus_stop_on :: "bus \<Rightarrow> address \<Rightarrow> process \<Rightarrow> bus \<times> process" where
  "bus_stop_on b scheduler p =
     (if sb_scheduler b \<noteq> None \<and> sb_scheduler b \<noteq> Some scheduler then (b, p) else bus_stop b p)"

definition bus_health :: "bus \<Rightarrow> transport_health" where
  "bus_health b = (if sb_fault_latched b then failed else sb_health b)"

section \<open>One service step\<close>

definition set_runtime :: "bus \<Rightarrow> nat \<Rightarrow> servo_runtime \<Rightarrow> bus" where
  "set_runtime b r rt = b\<lparr>sb_servos := (sb_servos b)[r := rt]\<rparr>"

definition refresh_staged :: "servo_config \<Rightarrow> staged_command option \<Rightarrow> servo_runtime \<Rightarrow> int \<Rightarrow> servo_runtime" where
  "refresh_staged config staged rt0 now_ns =
     (let rt = (case staged of
                  None \<Rightarrow> rt0
                | Some s \<Rightarrow> rt0\<lparr>rt_consumed_publication := sg_publication s, rt_command := sg_command s,
                               rt_has_command := True, rt_command_timed_out := False\<rparr>)
      in if rt_has_command rt \<and> sc_command_timeout_ns config > 0
            \<and> (now_ns < vc_timestamp_ns (rt_command rt)
               \<or> now_ns - vc_timestamp_ns (rt_command rt) > sc_command_timeout_ns config)
         then rt\<lparr>rt_has_command := False, rt_command := (rt_command rt)\<lparr>vc_enabled := False\<rparr>, rt_command_timed_out := True\<rparr>
         else rt)"

definition bus_refresh :: "bus \<Rightarrow> servo list \<Rightarrow> nat \<Rightarrow> int \<Rightarrow> bus" where
  "bus_refresh b servos r now_ns =
     (let rt = sb_servos b ! r; s = servos ! rt_servo rt
      in set_runtime b r (refresh_staged (so_config s) (read_staged s (rt_consumed_publication rt)) rt now_ns))"

definition failed_feedback :: "bus \<Rightarrow> servo list \<Rightarrow> nat \<Rightarrow> u32 \<Rightarrow> int \<Rightarrow> bus \<times> servo_feedback" where
  "failed_feedback b servos r flags now_ns =
     (let rt = sb_servos b ! r; t = sb_transport b; fb = servo_feedback_now (servos ! rt_servo rt) 0
      in ((set_runtime b r (rt\<lparr>rt_feedback_sequence := rt_feedback_sequence rt + 1\<rparr>))\<lparr>sb_health := si_health t\<rparr>,
          fb\<lparr>vf_feedback_sequence := rt_feedback_sequence rt + 1,
             vf_command_sequence := (if rt_has_command rt then vc_sequence (rt_command rt) else 0),
             vf_timestamp_ns := now_ns,
             vf_flags := (vf_flags fb AND NOT kSt3215FeedbackValid) OR (kSt3215FeedbackStale OR flags),
             vf_transport_health := health_code (si_health t),
             vf_timeout_count := si_timeout_count t, vf_io_error_count := si_io_error_count t\<rparr>))"

text \<open>Publishing a failed feedback, the last step of every fault path.\<close>

definition publish_failed :: "bus \<Rightarrow> servo list \<Rightarrow> nat \<Rightarrow> u32 \<Rightarrow> int \<Rightarrow> bus \<times> servo list" where
  "publish_failed b servos r flags now_ns =
     (let (b', fb) = failed_feedback b servos r flags now_ns
      in (b', publish_feedback servos (rt_servo (sb_servos b ! r)) fb))"

definition latch_fault :: "bus \<Rightarrow> servo list \<Rightarrow> nat \<Rightarrow> u32 \<Rightarrow> int \<Rightarrow> bus \<times> servo list" where
  "latch_fault b servos r flags now_ns =
     publish_failed (b\<lparr>sb_fault_latched := True, sb_health := failed\<rparr>) servos r flags now_ns"

definition consume_response :: "bus \<Rightarrow> servo list \<Rightarrow> nat \<Rightarrow> int \<Rightarrow> bus \<times> servo_feedback result" where
  "consume_response b0 servos r now_ns =
     (let (t, received) = serial_read (sb_transport b0) 0 kSt3215MaximumFrameSize;
          b = b0\<lparr>sb_transport := t\<rparr>; rt = sb_servos b ! r; s = servos ! rt_servo rt
      in case received of
          Inl e \<Rightarrow> (b, Inl e)
        | Inr response \<Rightarrow>
            (case parse_status response of
               Inl e \<Rightarrow> (b, Inl e)
             | Inr status \<Rightarrow>
                 if st_device_id status \<noteq> sc_device_id (so_config s)
                 then (b, failure protocol ''ST3215 response device ID does not match request'')
                 else
                   let fb0 = servo_feedback_now s 0;
                       b1 = set_runtime b r (rt\<lparr>rt_feedback_sequence := rt_feedback_sequence rt + 1\<rparr>);
                       fb = fb0\<lparr>vf_feedback_sequence := rt_feedback_sequence rt + 1,
                              vf_command_sequence := (if rt_has_command rt then vc_sequence (rt_command rt) else 0),
                              vf_timestamp_ns := now_ns, vf_status_error := ucast (st_error status),
                              vf_transport_health := health_code (si_health t),
                              vf_flags := (if st_error status = 0 then kSt3215FeedbackValid
                                           else kSt3215FeedbackStale OR kSt3215FeedbackDeviceError),
                              vf_timeout_count := si_timeout_count t, vf_io_error_count := si_io_error_count t\<rparr>
                   in if st_error status = 0 \<and> length (st_parameters status) \<ge> 2
                      then case read_st3215_u16_le (st_parameters status) of
                             Inl e \<Rightarrow> (b1, Inl e)
                           | Inr raw \<Rightarrow>
                               (case position_units_to_radians raw (sc_max_position_units (so_config s)) of
                                  Inl e \<Rightarrow> (b1, Inl e)
                                | Inr radians \<Rightarrow>
                                    (b1, success (fb\<lparr>vf_raw_position := ucast raw, vf_position_rad := radians\<rparr>)))
                      else (b1, success fb)))"

definition annotate_feedback :: "servo_runtime \<Rightarrow> servo_feedback \<Rightarrow> servo_feedback" where
  "annotate_feedback rt fb0 =
     (let fb = (if rt_command_timed_out rt
                then fb0\<lparr>vf_command_sequence := vc_sequence (rt_command rt),
                         vf_flags := (vf_flags fb0 AND NOT kSt3215FeedbackValid)
                                     OR (kSt3215FeedbackStale OR kSt3215FeedbackTimeout)\<rparr>
                else fb0)
      in if \<not> rt_has_command rt \<or> \<not> vc_enabled (rt_command rt) \<or> vc_emergency_stop (rt_command rt)
         then fb\<lparr>vf_flags := vf_flags fb OR kSt3215FeedbackDisabled\<rparr> else fb)"

definition poll_response :: "bus \<Rightarrow> servo list \<Rightarrow> nat \<Rightarrow> int \<Rightarrow> bus \<times> servo list" where
  "poll_response b0 servos r now_ns =
     (let (b, response) = consume_response (bus_refresh b0 servos r now_ns) servos r now_ns; rt = sb_servos b ! r
      in case response of
          Inr fb \<Rightarrow>
            (set_runtime b r (rt\<lparr>rt_last_response_ns := now_ns\<rparr>),
             publish_feedback servos (rt_servo rt) (annotate_feedback rt fb))
        | Inl e \<Rightarrow>
            if code e \<noteq> timeout then latch_fault b servos r (error_flag (code e)) now_ns
            else let reference = max (rt_last_response_ns rt) (sb_started_ns b);
                     timeout_ns = sc_feedback_timeout_ms (so_config (servos ! rt_servo rt)) * 1000000
              in if now_ns - reference > timeout_ns then latch_fault b servos r kSt3215FeedbackTimeout now_ns
                 else (b, servos))"

text \<open>The request for a servo: the goal of a command sequence that was not dispatched yet, else a read of
  the present position.\<close>

definition command_active :: "servo_runtime \<Rightarrow> bool" where
  "command_active rt \<longleftrightarrow> rt_has_command rt \<and> vc_enabled (rt_command rt) \<and> \<not> vc_emergency_stop (rt_command rt)"

definition send_goal :: "servo_runtime \<Rightarrow> bool" where
  "send_goal rt \<longleftrightarrow> command_active rt \<and> (\<not> rt_goal_dispatched rt \<or> rt_goal_sequence rt \<noteq> vc_sequence (rt_command rt))"

definition choose_request :: "servo_config \<Rightarrow> servo_runtime \<Rightarrow> (servo_runtime \<times> bytes) result" where
  "choose_request config rt =
     (if send_goal rt
      then case radians_to_position_units (vc_target_position_rad (rt_command rt)) (sc_max_position_units config) of
             Inl e \<Rightarrow> Inl e
           | Inr position \<Rightarrow>
               success (rt\<lparr>rt_goal_dispatched := True, rt_goal_sequence := vc_sequence (rt_command rt)\<rparr>,
                        goal_position_command (sc_device_id config) position (sc_time_units config) (sc_speed_units config))
      else success (rt, read_present_position_command (sc_device_id config)))"

definition send_request :: "bus \<Rightarrow> servo list \<Rightarrow> nat \<Rightarrow> kernel \<Rightarrow> (bus \<times> unit result \<times> kernel \<times> bytes) option" where
  "send_request b servos r k =
     (let rt = sb_servos b ! r
      in case choose_request (so_config (servos ! rt_servo rt)) rt of
          Inl e \<Rightarrow> Some (b, Inl e, k, [])
        | Inr (rt', request) \<Rightarrow>
            let b1 = set_runtime b r rt'
            in case serial_write (sb_transport b1) 0 request of
                (t, Inl e) \<Rightarrow> Some (b1\<lparr>sb_transport := t\<rparr>, Inl e, k, [])
              | (t, Inr _) \<Rightarrow>
                  map_option (\<lambda>(t', k', sent). (b1\<lparr>sb_transport := t'\<rparr>, success (), k', sent)) (serial_cycle t k))"

definition dispatch_request ::
  "bus \<Rightarrow> servo list \<Rightarrow> nat \<Rightarrow> int \<Rightarrow> kernel \<Rightarrow> (bus \<times> servo list \<times> kernel \<times> bytes) option" where
  "dispatch_request b servos r now_ns k =
     (case send_request b servos r k of
        None \<Rightarrow> None
      | Some (b1, sent, k1, out) \<Rightarrow>
          (case sent of
             Inr _ \<Rightarrow> Some (b1, servos, k1, out)
           | Inl e \<Rightarrow> let (b2, servos') = latch_fault b1 servos r (error_flag (code e)) now_ns in Some (b2, servos', k1, out)))"

text \<open>The last component of the result is what the port was given.\<close>

definition bus_cycle :: "bus \<Rightarrow> servo list \<Rightarrow> int \<Rightarrow> kernel \<Rightarrow> (bus \<times> servo list \<times> kernel \<times> bytes) option" where
  "bus_cycle b0 servos0 now_ns k =
     (if \<not> sb_running b0 \<or> sb_servos b0 = [] then Some (b0, servos0, k, [])
      else let b = b0\<lparr>sb_cycle_sequence := sb_cycle_sequence b0 + 1\<rparr>
        in if sb_fault_latched b
           then let (b1, servos) = publish_failed b servos0 (sb_cursor b) kSt3215FeedbackIo now_ns in Some (b1, servos, k, [])
           else let (b1, servos) = (if sb_dispatched b then poll_response b servos0 (sb_pending_index b) now_ns else (b, servos0))
             in if sb_fault_latched b1 then Some (b1, servos, k, [])
                else let cursor = (if sb_dispatched b1 then (sb_pending_index b1 + 1) mod length (sb_servos b1) else 0);
                         b2 = bus_refresh (b1\<lparr>sb_cursor := cursor\<rparr>) servos cursor now_ns
                  in map_option (\<lambda>(b3, servos', k', out). (b3\<lparr>sb_pending_index := cursor, sb_dispatched := True\<rparr>, servos', k', out))
                       (dispatch_request b2 servos cursor now_ns k))"

end
