(* ===== verification/Serial_Props.thy ===== *)
theory Serial_Props
  imports Serial_Transport
begin

text \<open>
  Properties of the serial transport under an arbitrary kernel: the invariant of the queues and the
  stream, the shape of every received frame, exact transmission, and the claims on serial ports.
\<close>

section \<open>Received frames\<close>

lemma in_set_tlD: "x \<in> set (tl xs) \<Longrightarrow> x \<in> set xs"
  by (cases xs) auto

definition raw_frame :: "nat \<Rightarrow> bytes \<Rightarrow> bool" where
  "raw_frame limit d \<longleftrightarrow>
     6 \<le> length d \<and> length d \<le> limit \<and> length d \<le> kMaximumFrameStorage
     \<and> d ! 0 = kHeaderByte \<and> d ! 1 = kHeaderByte \<and> unat (d ! 3) + 4 = length d"

lemma skip_to_header_head:
  "2 \<le> length (skip_to_header bs) \<Longrightarrow> skip_to_header bs ! 0 = kHeaderByte \<and> skip_to_header bs ! 1 = kHeaderByte"
  by (induction bs rule: skip_to_header.induct) (auto split: if_splits)

lemma find_header_contents:
  assumes "parser_ok st"
  defines "h \<equiv> find_header (sp_buffer st) (sp_size st) 0"
  defines "st' \<equiv> (if h > 0 then discard_stream_prefix st h else st)"
  shows "parser_ok st'" "contents st' = skip_to_header (contents st)"
proof -
  have "drop h (contents st) = skip_to_header (contents st)"
    using find_header_refines [of 0 "sp_size st" "sp_buffer st"] assms(1) by (simp add: h_def contents_def parser_ok_def)
  then show "parser_ok st'" "contents st' = skip_to_header (contents st)"
    using discard_prefix_refines [OF assms(1), of h] assms(1) by (auto simp: st'_def discard_stream_prefix_def)
qed

lemma extract_frame_shape:
  "parser_ok st \<Longrightarrow> extract_frame limit st saw = (st', r, saw') \<Longrightarrow>
     parser_ok st' \<and> (saw \<longrightarrow> saw') \<and> (\<forall>f. r = Some f \<longrightarrow> fr_channel f = 0 \<and> raw_frame limit (fr_data f))"
proof (induction limit st saw rule: extract_frame.induct)
  case (1 limit st0 saw)
  define h where "h = find_header (sp_buffer st0) (sp_size st0) 0"
  define st where "st = (if h > 0 then discard_stream_prefix st0 h else st0)"
  have ok: "parser_ok st" "contents st = skip_to_header (contents st0)"
    using find_header_contents [OF "1.prems"(1)] by (simp_all only: st_def h_def)
  have len: "length (contents st) = sp_size st" by (rule length_contents [OF ok(1)])
  let ?n = "unat (sp_buffer st ! 3) + 4"
  note e = "1.prems"(2) [unfolded extract_frame.simps [of limit st0 saw], folded h_def, unfolded Let_def, folded st_def]
  note d = discard_prefix_refines(1) [OF ok(1)]
  show ?case
  proof (cases "sp_size st < 4")
    case True
    then show ?thesis using e ok by auto
  next
    case size: False
    show ?thesis
    proof (cases "sp_buffer st ! 3 < 2 \<or> limit < ?n \<or> kMaximumFrameStorage < ?n")
      case True
      then show ?thesis
        using "1.IH" [OF h_def st_def size refl refl True] e size d by (auto simp: discard_stream_prefix_def)
    next
      case valid: False
      have b: "contents st ! i = sp_buffer st ! i" if "i < 4" for i using that size by (simp add: contents_def)
      have head: "sp_buffer st ! 0 = kHeaderByte" "sp_buffer st ! 1 = kHeaderByte"
        using skip_to_header_head [of "contents st0"] ok(2) len size b [of 0] b [of 1] by auto
      have l: "length (sp_buffer st) \<ge> sp_size st" using ok(1) by (simp add: parser_ok_def)
      have "2 \<le> unat (sp_buffer st ! 3)" using valid by (simp add: not_less word_le_nat_alt)
      then have "raw_frame limit (take ?n (sp_buffer st))" if "\<not> sp_size st < ?n"
        using that valid head l by (simp add: raw_frame_def not_less min_def)
      then show ?thesis using e size valid d ok by (auto simp: discard_stream_prefix_def split: if_splits)
    qed
  qed
qed

section \<open>The invariant\<close>

definition rx_ok :: "nat \<Rightarrow> serial_frame ring \<Rightarrow> bool" where
  "rx_ok limit rx \<longleftrightarrow>
     ring_ok kQueueCapacity rx \<and> (\<forall>f \<in> set (ring_list rx). fr_channel f = 0 \<and> raw_frame limit (fr_data f))"

definition serial_inv :: "serial_impl \<Rightarrow> bool" where
  "serial_inv s \<longleftrightarrow>
     rx_ok (cfg_maximum_frame_size (si_config s)) (si_rx_queue s)
     \<and> ring_ok kQueueCapacity (si_tx_queue s)
     \<and> (\<forall>f \<in> set (ring_list (si_tx_queue s)).
          fr_data f \<noteq> [] \<and> length (fr_data f) \<le> cfg_maximum_frame_size (si_config s))
     \<and> parser_ok (si_stream s)"

interpretation serial_queue: bounded_fifo ring_push ring_pop ring_list "ring_ok kQueueCapacity :: serial_frame ring \<Rightarrow> bool" kQueueCapacity
  by (rule ring_fifo)

lemma take_incoming_ok: "parser_ok st \<Longrightarrow> take_incoming st incoming saw = (st', saw', kept) \<Longrightarrow> parser_ok st'"
  using append_stream_refines(2) [of st incoming] append_stream_refines(2) [of "st\<lparr>sp_size := 0\<rparr>" incoming]
  by (auto simp: take_incoming_def Let_def parser_ok_def split: if_splits)

lemma push_received_ok:
  assumes "rx_ok limit rx" "fr_channel f = 0" "raw_frame limit (fr_data f)" "push_received rx f = (rx', e)"
  shows "rx_ok limit rx'"
  using assms serial_queue.push_ok [of rx f] serial_queue.push_queued [of rx f]
  by (auto simp: rx_ok_def push_received_def Let_def split: prod.splits if_splits)

lemma receive_loop_ok:
  "receive_loop config nb polled saw st rx k = Some (e, st', rx', k') \<Longrightarrow> parser_ok st \<Longrightarrow>
     rx_ok (cfg_maximum_frame_size config) rx \<Longrightarrow> parser_ok st' \<and> rx_ok (cfg_maximum_frame_size config) rx'"
proof (induction "length (k_remaining k)" arbitrary: polled saw st k rule: less_induct)
  case less
  obtain wait ts where t: "k_remaining k = wait # ts"
    using less.prems(1) by (cases "k_remaining k") (simp_all add: receive_loop.simps)
  show ?case
  proof (cases "wait = 0 \<and> (\<not> nb \<or> polled)")
    case True
    then show ?thesis using less.prems t by (simp add: receive_loop.simps)
  next
    case go: False
    obtain ts' ps r where w: "wait_readable nb ts (k_polls k) = Some (ts', ps, r)"
      using less.prems(1) t go by (cases "wait_readable nb ts (k_polls k)") (auto simp: receive_loop.simps)
    have smaller: "length ts' < length (k_remaining k)" using wait_readable_shrinks [OF w] t by simp
    note u = less.prems(1) [unfolded receive_loop.simps [of config nb polled saw st rx k] t list.case if_not_P [OF go] w
        option.case prod.case]
    show ?thesis
    proof (cases r)
      case None
      then show ?thesis using u less.prems(2,3) by auto
    next
      case (Some pr)
      let ?k1 = "k\<lparr>k_remaining := ts', k_polls := ps\<rparr>"
      have IH: "parser_ok st1 \<Longrightarrow> receive_loop config nb True saw1 st1 rx (?k1\<lparr>k_reads := rs\<rparr>) = Some (e, st', rx', k') \<Longrightarrow> ?thesis"
        "receive_loop config nb True saw st rx ?k1 = Some (e, st', rx', k') \<Longrightarrow> ?thesis" for st1 saw1 rs
        using less.hyps [of "?k1\<lparr>k_reads := rs\<rparr>"] less.hyps [of ?k1] smaller less.prems(2,3) by auto
      show ?thesis
      proof (cases "pr = poll_expired \<or> pr = poll_failed \<or> pr = poll_interrupted \<or> wake_signalled pr \<or> port_error pr
          \<or> (\<not> port_input pr \<and> \<not> port_hangup pr)")
        case True
        then show ?thesis using u Some less.prems(2,3) IH(2) by (auto simp: Let_def split: if_splits)
      next
        case False
        then obtain rr rs where reads: "k_reads k = rr # rs"
          using u Some by (cases "k_reads k") (auto simp: Let_def)
        note v = u [unfolded Some option.case Let_def]
        show ?thesis
        proof (cases "\<exists>incoming. rr = received incoming \<and> incoming \<noteq> []")
          case quiet: False
          then show ?thesis using v False reads less.prems(2,3) IH(1) [OF less.prems(2)] by (cases rr) (auto split: if_splits)
        next
          case True
          then obtain incoming where inc: "rr = received incoming" "incoming \<noteq> []" by blast
          obtain st1 saw1 kept where ti: "take_incoming st incoming saw = (st1, saw1, kept)" by (metis prod_cases3)
          have ok1: "parser_ok st1" by (rule take_incoming_ok [OF less.prems(2) ti])
          obtain st2 fo saw2 where ex: "extract_frame (cfg_maximum_frame_size config) st1 saw1 = (st2, fo, saw2)"
            by (metis prod_cases3)
          note sh = extract_frame_shape [OF ok1 ex]
          have w: "(if \<not> kept then receive_loop config nb True saw1 st1 rx (?k1\<lparr>k_reads := rs\<rparr>)
              else case fo of None \<Rightarrow> receive_loop config nb True saw2 st2 rx (?k1\<lparr>k_reads := rs\<rparr>)
                | Some frame \<Rightarrow> (case push_received rx frame of (q, c) \<Rightarrow> Some (c, st2, q, ?k1\<lparr>k_reads := rs\<rparr>)))
              = Some (e, st', rx', k')"
            using v False reads inc ti ex by (cases fo) (simp_all split: if_splits)
          show ?thesis
          proof (cases kept)
            case True
            then show ?thesis
              using w sh IH(1) [of st2] less.prems(3) push_received_ok by (cases fo) (auto split: prod.splits)
          qed (use w IH(1) [OF ok1] in simp)
        qed
      qed
    qed
  qed
qed

lemma receive_one_frame:
  assumes "receive_one s t k = Some (e, s', k')"
  shows "\<exists>st rx. s' = s\<lparr>si_stream := st, si_rx_queue := rx\<rparr>"
    and "parser_ok (si_stream s) \<Longrightarrow> rx_ok (cfg_maximum_frame_size (si_config s)) (si_rx_queue s) \<Longrightarrow>
      parser_ok (si_stream s') \<and> rx_ok (cfg_maximum_frame_size (si_config s)) (si_rx_queue s')"
proof -
  obtain st fo saw where ex: "extract_frame (cfg_maximum_frame_size (si_config s)) (si_stream s) False = (st, fo, saw)"
    by (metis prod_cases3)
  show "\<exists>st rx. s' = s\<lparr>si_stream := st, si_rx_queue := rx\<rparr>"
    using assms ex by (auto simp: receive_one_def Let_def split: option.splits prod.splits)
  assume ok: "parser_ok (si_stream s)" "rx_ok (cfg_maximum_frame_size (si_config s)) (si_rx_queue s)"
  note sh = extract_frame_shape [OF ok(1) ex]
  show "parser_ok (si_stream s') \<and> rx_ok (cfg_maximum_frame_size (si_config s)) (si_rx_queue s')"
  proof (cases fo)
    case None
    then show ?thesis using assms ex sh receive_loop_ok [OF _ _ ok(2)] by (auto simp: receive_one_def)
  next
    case (Some f)
    then show ?thesis using assms ex sh push_received_ok [OF ok(2), of f]
      by (auto simp: receive_one_def Let_def split: prod.splits)
  qed
qed

lemma receive_one_inv: "receive_one s t k = Some (e, s', k') \<Longrightarrow> serial_inv s \<Longrightarrow> serial_inv s'"
  using receive_one_frame [of s t k e s' k'] by (auto simp: serial_inv_def)

lemma publish_error_inv [simp]: "serial_inv (publish_error s e) = serial_inv s"
  by (simp add: publish_error_def serial_inv_def Let_def)

lemma tx_pop_inv:
  assumes "serial_inv s" "ring_pop (si_tx_queue s) = (tx, r)"
  shows "serial_inv (s\<lparr>si_tx_queue := tx\<rparr>)"
  using assms serial_queue.pop_ok [of "si_tx_queue s"] serial_queue.pop_queued [of "si_tx_queue s"]
  by (auto simp: serial_inv_def dest: in_set_tlD)

lemma resynchronize_inv:
  assumes "resynchronize_after_timeout s k = Some (s', k')" "serial_inv s"
  shows "serial_inv s'"
proof -
  obtain e s1 where r: "receive_one s (cfg_read_timeout (si_config s)) k = Some (e, s1, k')"
    and s': "s' = s1\<lparr>si_stream := (si_stream s1)\<lparr>sp_size := 0\<rparr>, si_rx_queue := ring_clear (si_rx_queue s1)\<rparr>"
    using assms(1) by (auto simp: resynchronize_after_timeout_def split: option.splits)
  show ?thesis
    using receive_one_inv [OF r assms(2)] unfolding s'
    by (auto simp: serial_inv_def rx_ok_def parser_ok_def ring_clear_list)
qed

lemma serial_cycle_cases:
  assumes "serial_cycle s0 k0 = Some (s', k', sent)"
  obtains (not_open) "\<not> si_opened s0 \<or> \<not> si_fd_open s0" "s' = publish_error s0 closed" "sent = []"
  | (idle) s k tx e s1 where "s = s0 \<or> (\<exists>s2. resynchronize_after_timeout s0 k0 = Some (s2, k) \<and> s = s2\<lparr>si_last_error := no_error\<rparr>)"
      "ring_pop (si_tx_queue s) = (tx, None)" "receive_one s 0 k = Some (e, s1, k')"
      "s' = (if e \<noteq> timed_out then publish_error s1 e else s1)" "sent = []"
  | (sending) s k tx f e k1 where "s = s0 \<or> (\<exists>s2. resynchronize_after_timeout s0 k0 = Some (s2, k) \<and> s = s2\<lparr>si_last_error := no_error\<rparr>)"
      "ring_pop (si_tx_queue s) = (tx, Some f)" "write_all (fr_data f) k = Some (e, k1, sent)"
      "(e \<noteq> no_error \<and> s' = publish_error (s\<lparr>si_tx_queue := tx\<rparr>) e)
       \<or> (e = no_error \<and> (\<exists>e' s2 t. receive_one (s\<lparr>si_tx_queue := tx\<rparr>) t k1 = Some (e', s2, k') \<and> s' = publish_error s2 e'))"
proof (cases "\<not> si_opened s0 \<or> \<not> si_fd_open s0")
  case True
  then show thesis using not_open assms by (auto simp: serial_cycle_def)
next
  case open_port: False
  define start where "start = (if cfg_read_timeout (si_config s0) > 0 \<and> si_last_error s0 = timed_out
              then map_option (\<lambda>(s, k). (s\<lparr>si_last_error := no_error\<rparr>, k)) (resynchronize_after_timeout s0 k0)
              else Some (s0, k0))"
  note c = assms [unfolded serial_cycle_def if_not_P [OF open_port], folded start_def]
  obtain s k where sk: "start = Some (s, k)" using c by (cases start) auto
  have from_s: "s = s0 \<or> (\<exists>s2. resynchronize_after_timeout s0 k0 = Some (s2, k) \<and> s = s2\<lparr>si_last_error := no_error\<rparr>)"
    using sk by (auto simp: start_def split: if_splits)
  obtain tx r where p: "ring_pop (si_tx_queue s) = (tx, r)" by fastforce
  show thesis
  proof (cases r)
    case None
    then show thesis using idle [OF from_s p [unfolded None]] c sk p by (auto split: option.splits)
  next
    case (Some f)
    then show thesis using sending [OF from_s p [unfolded Some]] c sk p
      by (auto simp: Let_def split: option.splits if_splits) blast
  qed
qed

lemma serial_cycle_inv: "serial_cycle s0 k0 = Some (s', k', sent) \<Longrightarrow> serial_inv s0 \<Longrightarrow> serial_inv s'"
proof (erule serial_cycle_cases, goal_cases)
  case 1
  then show ?case by simp
next
  case (2 s k tx e s1)
  then have "serial_inv s" using resynchronize_inv [of s0 k0] by (auto simp: serial_inv_def)
  with 2 receive_one_inv show ?case by auto
next
  case (3 s k tx f e k1)
  then have "serial_inv s" using resynchronize_inv [of s0 k0] by (auto simp: serial_inv_def)
  from tx_pop_inv [OF this 3(3)] 3 receive_one_inv show ?case by auto
qed

lemma receive_once_inv: "receive_once s k = Some (s', k') \<Longrightarrow> serial_inv s \<Longrightarrow> serial_inv s'"
  using receive_one_inv [of s 0 k] by (auto simp: receive_once_def split: if_splits option.splits)

lemma serial_write_inv: "serial_inv s \<Longrightarrow> serial_inv (fst (serial_write s ch d))"
  using serial_queue.push_ok [of "si_tx_queue s" "\<lparr>fr_channel = ch, fr_data = d\<rparr>"]
    serial_queue.push_queued [of "si_tx_queue s" "\<lparr>fr_channel = ch, fr_data = d\<rparr>"]
  by (auto simp: serial_write_def serial_inv_def rx_ok_def split: if_splits prod.splits bool.splits)

lemma serial_read_inv:
  assumes "serial_inv s"
  shows "serial_inv (fst (serial_read s ch n))"
    "snd (serial_read s ch n) = success d \<Longrightarrow> raw_frame (cfg_maximum_frame_size (si_config s)) d
       \<and> ring_list (si_rx_queue s) = \<lparr>fr_channel = ch, fr_data = d\<rparr> # ring_list (si_rx_queue (fst (serial_read s ch n)))"
proof -
  let ?q = "si_rx_queue s"
  have ok: "ring_ok kQueueCapacity ?q" using assms by (simp add: serial_inv_def rx_ok_def)
  note p = serial_queue.pop_ok [OF ok] serial_queue.pop_queued [OF ok] serial_queue.pop_result [OF ok]
  show "serial_inv (fst (serial_read s ch n))"
    using assms p by (auto simp: serial_read_def Let_def serial_inv_def rx_ok_def dest: in_set_tlD)
  assume d: "snd (serial_read s ch n) = success d"
  then have ne: "ring_size ?q \<noteq> 0" by (auto simp: serial_read_def split: if_splits)
  then obtain f fs where f: "ring_list ?q = f # fs" by (metis length_0_conv length_ring_list neq_Nil_conv)
  then have "ring_slots ?q ! ring_head ?q = f" using p(3) ne by (simp add: ring_pop_def)
  then show "raw_frame (cfg_maximum_frame_size (si_config s)) d
       \<and> ring_list ?q = \<lparr>fr_channel = ch, fr_data = d\<rparr> # ring_list (si_rx_queue (fst (serial_read s ch n)))"
    using d ne assms f p(2) by (auto simp: serial_read_def Let_def serial_inv_def rx_ok_def split: if_splits)
qed

lemma serial_open_inv: "serial_inv s \<Longrightarrow> serial_inv (fst (serial_open s ports calls))"
  by (auto simp: serial_open_def serial_inv_def rx_ok_def parser_ok_def ring_clear_list Let_def
      split: open_result.splits option.splits sum.splits)

lemma serial_close_inv: "serial_inv s \<Longrightarrow> serial_inv (fst (serial_close s ports))"
  by (simp add: serial_close_def serial_inv_def)

lemma make_serial_inv: "serial_inv (make_serial config)"
  by (simp add: serial_inv_def make_serial_def rx_ok_def empty_queue_def ring_ok_def ring_list_def kQueueCapacity_def)

section \<open>Reachable transports\<close>

inductive serial_step :: "serial_impl \<Rightarrow> serial_impl \<Rightarrow> bool" where
  step_open: "serial_step s (fst (serial_open s ports calls))"
| step_close: "serial_step s (fst (serial_close s ports))"
| step_receive: "receive_once s k = Some (s', k') \<Longrightarrow> serial_step s s'"
| step_cycle: "serial_cycle s k = Some (s', k', sent) \<Longrightarrow> serial_step s s'"
| step_write: "serial_step s (fst (serial_write s ch d))"
| step_read: "serial_step s (fst (serial_read s ch n))"

lemma serial_step_inv: "serial_step s s' \<Longrightarrow> serial_inv s \<Longrightarrow> serial_inv s'"
  by (induction rule: serial_step.induct)
    (auto intro: serial_open_inv serial_close_inv receive_once_inv serial_cycle_inv serial_write_inv serial_read_inv)

lemma serial_steps_inv: "serial_step\<^sup>*\<^sup>* s s' \<Longrightarrow> serial_inv s \<Longrightarrow> serial_inv s'"
  by (induction rule: rtranclp_induct) (auto intro: serial_step_inv)

text \<open>Claim C26.  Whatever the kernel returns and however the operations interleave, a transport delivers only
  complete frames: every successful read returns the oldest received frame, which starts with the two header
  bytes, has exactly the length its length byte announces, and is no longer than the configured maximum; the
  queues and the stream buffer never overrun their arrays.\<close>

theorem serial_reads_whole_frames:
  assumes "serial_step\<^sup>*\<^sup>* (make_serial config) s"
  shows "serial_inv s
    \<and> (snd (serial_read s ch n) = success d \<longrightarrow>
        raw_frame (cfg_maximum_frame_size (si_config s)) d
        \<and> ring_list (si_rx_queue s) = \<lparr>fr_channel = ch, fr_data = d\<rparr> # ring_list (si_rx_queue (fst (serial_read s ch n))))"
  using serial_steps_inv [OF assms make_serial_inv] serial_read_inv(2) by auto

section \<open>Transmission\<close>

lemma write_all_prefix:
  "write_all data k = Some (e, k', sent) \<Longrightarrow>
     \<exists>rest. data = sent @ rest \<and> (e = no_error \<longleftrightarrow> rest = []) \<and> (rest \<noteq> [] \<longrightarrow> e \<in> {timed_out, io_failed, closed})"
proof (induction "length (k_writes k)" arbitrary: data k sent rule: less_induct)
  case less
  show ?case
  proof (cases "data = []")
    case True
    then show ?thesis using less.prems by (simp add: write_all.simps)
  next
    case ne: False
    then obtain w ws where w: "k_writes k = w # ws"
      using less.prems by (cases "k_writes k") (auto simp: write_all.simps)
    let ?k1 = "k\<lparr>k_writes := ws\<rparr>"
    note u = less.prems [unfolded write_all.simps [of data k] if_not_P [OF ne] w list.case Let_def]
    have IH: "write_all d k2 = Some (e, k', x) \<Longrightarrow> k_writes k2 = ws \<Longrightarrow>
      \<exists>rest. d = x @ rest \<and> (e = no_error \<longleftrightarrow> rest = []) \<and> (rest \<noteq> [] \<longrightarrow> e \<in> {timed_out, io_failed, closed})" for d k2 x
      using less.hyps [of k2] w by simp
    consider (retry) "w = write_interrupted" | (fail) "w = write_failed" | (wrote) "progress w > 0" "w \<noteq> write_interrupted" "w \<noteq> write_failed"
      | (wait) "progress w = 0" "w \<noteq> write_interrupted" "w \<noteq> write_failed" by (cases w) auto
    then show ?thesis
    proof cases
      case retry
      then show ?thesis using u IH [of data ?k1] by simp
    next
      case fail
      then show ?thesis using u ne by auto
    next
      case wrote
      then obtain x where x: "write_all (drop (progress w) data) ?k1 = Some (e, k', x)" "sent = take (progress w) data @ x"
        using u by auto
      then show ?thesis using IH [OF x(1)] by (metis append.assoc append_take_drop_id kernel.select_convs(1) kernel.surjective kernel.update_convs(1))
    next
      case wait
      then obtain k2 r where a: "await_writable ?k1 = Some (k2, r)"
        using u by (cases "await_writable ?k1") auto
      have k2: "k_writes k2 = ws" using await_writable_writes [OF a] by simp
      show ?thesis
      proof (cases r)
        case None
        then show ?thesis using u wait a IH [OF _ k2] by auto
      next
        case (Some e0)
        have "e0 \<in> {timed_out, io_failed, closed}"
          using a Some by (auto simp: await_writable_def split: option.splits poll_result.splits if_splits)
        then show ?thesis using u wait a Some ne by auto
      qed
    qed
  qed
qed

lemma serial_cycle_frame:
  assumes "serial_cycle s k = Some (s', k', sent)"
  shows "si_config s' = si_config s" "si_opened s' = si_opened s" "si_fd_open s' = si_fd_open s"
proof -
  have pub: "si_config (publish_error z e) = si_config z" "si_opened (publish_error z e) = si_opened z"
    "si_fd_open (publish_error z e) = si_fd_open z" for z e
    by (simp_all add: publish_error_def Let_def)
  have rec: "receive_one z t x = Some (e, z', x') \<Longrightarrow> si_config z' = si_config z \<and> si_opened z' = si_opened z \<and> si_fd_open z' = si_fd_open z"
    for z t x e z' x'
    using receive_one_frame(1) [of z t x e z' x'] by auto
  have res: "resynchronize_after_timeout z x = Some (z', x') \<Longrightarrow>
      si_config z' = si_config z \<and> si_opened z' = si_opened z \<and> si_fd_open z' = si_fd_open z" for z x z' x'
    using rec [of z "cfg_read_timeout (si_config z)" x] by (auto simp: resynchronize_after_timeout_def split: option.splits)
  have "si_config s' = si_config s \<and> si_opened s' = si_opened s \<and> si_fd_open s' = si_fd_open s"
    using assms by (cases rule: serial_cycle_cases) (auto simp: pub dest!: rec res)
  then show "si_config s' = si_config s" "si_opened s' = si_opened s" "si_fd_open s' = si_fd_open s" by simp_all
qed

lemma serial_cycle_sends:
  assumes inv: "serial_inv s" and cyc: "serial_cycle s k = Some (s', k', sent)"
    and live: "si_opened s" "si_fd_open s"
  shows "(case ring_list (si_tx_queue s) of
      [] \<Rightarrow> sent = [] \<and> ring_list (si_tx_queue s') = []
    | f # fs \<Rightarrow> ring_list (si_tx_queue s') = fs
        \<and> (\<exists>rest. fr_data f = sent @ rest \<and> (rest \<noteq> [] \<longrightarrow> si_last_error s' \<in> {timed_out, io_failed, closed})))"
proof -
  have pub: "si_tx_queue (publish_error z e) = si_tx_queue z" "si_last_error (publish_error z e) = e" for z e
    by (simp_all add: publish_error_def Let_def)
  have rec: "receive_one z t x = Some (e, z', x') \<Longrightarrow> si_tx_queue z' = si_tx_queue z" for z t x e z' x'
    using receive_one_frame(1) [of z t x e z' x'] by auto
  have res: "resynchronize_after_timeout z x = Some (z', x') \<Longrightarrow> si_tx_queue z' = si_tx_queue z" for z x z' x'
    by (auto simp: resynchronize_after_timeout_def rec split: option.splits)
  have ok: "ring_ok kQueueCapacity (si_tx_queue s)" using inv by (simp add: serial_inv_def)
  note pop = serial_queue.pop_queued [OF ok] serial_queue.pop_result [OF ok]
  from cyc show ?thesis
  proof (cases rule: serial_cycle_cases)
    case not_open
    then show ?thesis using live by simp
  next
    case (idle s1 k1 tx e s2)
    then have "si_tx_queue s1 = si_tx_queue s" by (auto dest: res)
    then show ?thesis using idle pop rec [OF idle(3)] by (auto simp: pub split: list.splits)
  next
    case (sending s1 k1 tx f e k2)
    then have q: "si_tx_queue s1 = si_tx_queue s" by (auto dest: res)
    then have r: "ring_list (si_tx_queue s) = f # ring_list tx"
      using sending(2) pop by (auto split: list.splits)
    have "si_tx_queue s' = tx" using sending(4) by (auto simp: pub dest!: rec)
    moreover have "si_last_error s' = e" if "e \<noteq> no_error" using sending(4) that pub(2) by metis
    ultimately show ?thesis using r write_all_prefix [OF sending(3)] by auto
  qed
qed

text \<open>A transport cycle hands the kernel bytes of at most one frame: the oldest frame of the transmit
  queue is removed, a prefix of it is written, and unless the whole frame went out the cycle records a timeout,
  an I/O error or a closed port; with nothing queued, nothing is written.\<close>

lemma cycle_sends_one_frame:
  assumes "serial_inv s" and "serial_cycle s k = Some (s', k', sent)" and "si_opened s" "si_fd_open s"
  shows "(case ring_list (si_tx_queue s) of
      [] \<Rightarrow> sent = [] \<and> ring_list (si_tx_queue s') = []
    | f # fs \<Rightarrow> ring_list (si_tx_queue s') = fs
        \<and> (\<exists>rest. fr_data f = sent @ rest \<and> (rest \<noteq> [] \<longrightarrow> si_last_error s' \<in> {timed_out, io_failed, closed})))"
  by (rule serial_cycle_sends [OF assms])

section \<open>Bounded receives\<close>

lemma wait_readable_nonblocking:
  "p \<noteq> poll_interrupted \<Longrightarrow> wait_readable True ts (replicate i poll_interrupted @ p # ps) = Some (ts, ps, Some p)"
  by (induction i) auto

lemma receive_loop_expired:
  "k_remaining k = 0 # ts \<Longrightarrow> receive_loop config nb True saw st rx k = Some (stop_code saw, st, rx, k\<lparr>k_remaining := ts\<rparr>)"
  by (simp add: receive_loop.simps)

text \<open>A receive with a zero timeout never blocks: whatever is buffered and whatever the port holds, it
  returns after at most one poll that is not interrupted and at most one read.\<close>

lemma zero_timeout_receive_returns:
  assumes clock: "k_remaining k = 0 # 0 # ts"
    and polls: "k_polls k = replicate i poll_interrupted @ p # ps" "p \<noteq> poll_interrupted"
    and reads: "k_reads k = r # rs"
  shows "\<exists>e s' k'. receive_one s 0 k = Some (e, s', k') \<and> k_polls k' \<in> {k_polls k, ps} \<and> k_reads k' \<in> {r # rs, rs}"
proof -
  obtain st fo saw where ex: "extract_frame (cfg_maximum_frame_size (si_config s)) (si_stream s) False = (st, fo, saw)"
    by (metis prod_cases3)
  let ?k1 = "k\<lparr>k_remaining := 0 # ts, k_polls := ps\<rparr>"
  have w: "wait_readable True (0 # ts) (k_polls k) = Some (0 # ts, ps, Some p)"
    unfolding polls(1) by (rule wait_readable_nonblocking [OF polls(2)])
  have again: "receive_loop c True True sw z q (?k1\<lparr>k_reads := x\<rparr>)
      = Some (stop_code sw, z, q, ?k1\<lparr>k_reads := x, k_remaining := ts\<rparr>)"
    "receive_loop c True True sw z q ?k1 = Some (stop_code sw, z, q, ?k1\<lparr>k_remaining := ts\<rparr>)" for c sw z q x
    by (simp_all add: receive_loop_expired [where ts = ts])
  have "\<exists>e st' rx k'. receive_loop (si_config s) True False saw st (si_rx_queue s) k = Some (e, st', rx, k')
      \<and> k_polls k' = ps \<and> k_reads k' \<in> {r # rs, rs}"
    unfolding receive_loop.simps [of "si_config s" True False saw st "si_rx_queue s" k] clock
    by (auto simp: w again reads Let_def split: read_result.splits prod.splits option.splits)
  then show ?thesis using ex reads
    by (cases fo) (auto simp: receive_one_def Let_def split: prod.splits)
qed

section \<open>Port claims\<close>

text \<open>Opening a serial port is all or nothing and exclusive: a failed open leaves the transport and the
  set of claimed ports as they were; a successful one claims a port that nobody in the process held, resets the
  queues and the stream, and closing it gives back exactly that claim.\<close>

theorem serial_open_exclusive:
  assumes "\<not> si_opened s" and "serial_open s ports calls = (s', ports', r)"
  shows "(r = success () \<longrightarrow>
       si_opened s' \<and> si_port_identity s' \<notin> ports \<and> ports' = insert (si_port_identity s') ports
       \<and> ring_list (si_tx_queue s') = [] \<and> ring_list (si_rx_queue s') = [] \<and> contents (si_stream s') = []
       \<and> snd (serial_close s' ports') = ports)
    \<and> (r \<noteq> success () \<longrightarrow> s' = s \<and> ports' = ports)"
  using assms
  by (auto simp: serial_open_def serial_close_def Let_def ring_clear_list contents_def
      split: if_splits open_result.splits option.splits sum.splits)

section \<open>Concrete transports\<close>

definition example_serial_config :: serial_config where
  "example_serial_config = \<lparr>cfg_path = ''/dev/ttyUSB0'', cfg_baud_rate = 1000000, cfg_read_buffer_size = 256,
     cfg_maximum_frame_size = 259, cfg_read_timeout = 0, cfg_write_timeout = 0\<rparr>"

definition example_calls :: open_calls where
  "example_calls = \<lparr>oc_open = open_succeeds, oc_claim = None, oc_identity = Inr (1, 2, 3), oc_get_attributes = None,
     oc_configure = None, oc_eventfd = None\<rparr>"

definition example_port :: serial_impl where
  "example_port = fst (serial_open (make_serial example_serial_config) {} example_calls)"

definition example_kernel :: kernel where
  "example_kernel = \<lparr>k_writes = [wrote 4, wrote 4], k_polls = [poll_ready False False True False],
     k_reads = [received [0xFF, 0xFF, 1, 2, 0, 0xFC]], k_remaining = [0, 0]\<rparr>"

lemma example_serial_config_ok: "serial_config_ok example_serial_config"
  by (simp add: serial_config_ok_def example_serial_config_def serial_speed_def kMaximumReadBuffer_def
      kMaximumFrameStorage_def kMaximumIoTimeout_def)

theorem serial_open_exclusive_witness:
  "snd (serial_close example_port {(1, 2, 3)}) = {} \<and> si_opened example_port"
proof -
  let ?r = "serial_open (make_serial example_serial_config) {} example_calls"
  have c: "\<not> si_opened (make_serial example_serial_config)" by (simp add: make_serial_def)
  have r: "?r = (example_port, {(1, 2, 3)}, success ())"
    using example_serial_config_ok
    by (simp add: example_port_def serial_open_def make_serial_def example_calls_def)
  show ?thesis using serial_open_exclusive [OF c r] by blast
qed

definition busy_port :: serial_impl where
  "busy_port = fst (serial_write example_port 0 [0xFF, 0xFF, 1, 4, 2, 0x38, 2, 0xBE])"

definition answered_port :: serial_impl where
  "answered_port = (case serial_cycle busy_port example_kernel of Some (s, _, _) \<Rightarrow> s | None \<Rightarrow> busy_port)"

lemma busy_cycle: "\<exists>k' sent. serial_cycle busy_port example_kernel = Some (answered_port, k', sent)"
proof -
  have "serial_cycle busy_port example_kernel \<noteq> None" by code_simp
  then show ?thesis by (auto simp: answered_port_def)
qed

lemma busy_port_reachable: "serial_step\<^sup>*\<^sup>* (make_serial example_serial_config) busy_port"
proof -
  have "serial_step (make_serial example_serial_config) example_port" unfolding example_port_def by (rule step_open)
  moreover have "serial_step example_port busy_port" unfolding busy_port_def by (rule step_write)
  ultimately show ?thesis by simp
qed

theorem serial_reads_whole_frames_witness:
  "serial_inv answered_port \<and> raw_frame 259 [0xFF, 0xFF, 1, 2, 0, 0xFC]"
proof -
  obtain k' sent where c: "serial_cycle busy_port example_kernel = Some (answered_port, k', sent)" using busy_cycle by blast
  have r: "serial_step\<^sup>*\<^sup>* (make_serial example_serial_config) answered_port"
    using busy_port_reachable step_cycle [OF c] by (rule rtranclp.rtrancl_into_rtrancl)
  have "snd (serial_read answered_port 0 259) = success [0xFF, 0xFF, 1, 2, 0, 0xFC]"
    "cfg_maximum_frame_size (si_config answered_port) = 259" by code_simp+
  then show ?thesis using serial_reads_whole_frames [OF r, of 0 259 "[0xFF, 0xFF, 1, 2, 0, 0xFC]"] by simp
qed

end
