(* ===== verification/St3215_Bus_Runs.thy ===== *)
theory St3215_Bus_Runs
  imports St3215_Bus_Props
begin

text \<open>
  Histories of a bus: construction, start and stop, commands staged by other threads, and service steps in any
  order.  The number of goal frames a servo is given is bounded by the number of commands accepted for it.
\<close>

section \<open>Sending a request\<close>

text \<open>The request bytes name the device and the instruction.\<close>

definition is_goal_for :: "u8 \<Rightarrow> bytes \<Rightarrow> bool" where
  "is_goal_for device_id out \<longleftrightarrow> 5 \<le> length out \<and> out ! 2 = device_id \<and> out ! 4 = instruction_code write_data"

lemma require_encoded_bytes:
  "length ps \<le> kSt3215MaximumParameters \<Longrightarrow>
     \<exists>rest. require_encoded d i ps = [kHeaderByte, kHeaderByte, d, word_of_nat (length ps + 2), i] @ rest"
  by (simp add: require_encoded_def encode_packet_def Let_def)

lemma goal_command_bytes:
  "\<exists>len rest. goal_position_command d p t s = [kHeaderByte, kHeaderByte, d, len, instruction_code write_data] @ rest"
  using require_encoded_bytes [of "register_code goal_position # append_u16 (append_u16 (append_u16 [] p) t) s" d "instruction_code write_data"]
  by (auto simp: goal_position_command_def write_data_command_def kSt3215MaximumParameters_def append_u16_def)

lemma read_command_bytes:
  "\<exists>len rest. read_present_position_command d = [kHeaderByte, kHeaderByte, d, len, instruction_code read_data] @ rest"
  using require_encoded_bytes [of "[register_code present_position, 2]" d "instruction_code read_data"]
  by (auto simp: read_present_position_command_def read_data_command_def kSt3215MaximumParameters_def)

lemma is_goal_prefix:
  assumes "[h1, h2, d, len, i] @ rest = out @ rest'" and "is_goal_for d' out"
  shows "d' = d \<and> i = instruction_code write_data"
proof -
  have n: "out ! k = ([h1, h2, d, len, i] @ rest) ! k" if "k < length out" for k
    using assms(1) that by (metis nth_append)
  have "5 \<le> length out" using assms(2) by (simp add: is_goal_for_def)
  then have "out ! 2 = d" "out ! 4 = i" using n [of 2] n [of 4] by (simp_all add: nth_append)
  then show ?thesis using assms(2) by (simp add: is_goal_for_def)
qed

text \<open>A request costs no debt, and a goal request pays one.\<close>

lemma choose_request_debt:
  assumes "choose_request config rt = success (rt', request)"
  shows "keeps servos rt rt'" "debt servos rt' + (if send_goal rt then 1 else 0) = debt servos rt"
    "send_goal rt \<Longrightarrow> \<exists>p t s. request = goal_position_command (sc_device_id config) p t s"
    "\<not> send_goal rt \<Longrightarrow> request = read_present_position_command (sc_device_id config)"
  using assms
  by (auto simp: choose_request_def keeps_def debt_def send_goal_def command_active_def success_def split: if_splits sum.splits)

lemma choose_request_goal:
  assumes "choose_request config rt = success (rt', request)" "request = out @ rest" "is_goal_for d out"
  shows "d = sc_device_id config \<and> send_goal rt"
proof (cases "send_goal rt")
  case True
  then obtain p t s where r: "request = goal_position_command (sc_device_id config) p t s"
    using choose_request_debt(3) [OF assms(1)] by blast
  obtain len more where "request = [kHeaderByte, kHeaderByte, sc_device_id config, len, instruction_code write_data] @ more"
    using goal_command_bytes [of "sc_device_id config" p t s] r by blast
  with assms(2) is_goal_prefix [OF _ assms(3), of kHeaderByte kHeaderByte "sc_device_id config" len _ more rest]
  show ?thesis using True by metis
next
  case False
  then have "request = read_present_position_command (sc_device_id config)" by (rule choose_request_debt(4) [OF assms(1)])
  then obtain len more where "request = [kHeaderByte, kHeaderByte, sc_device_id config, len, instruction_code read_data] @ more"
    using read_command_bytes [of "sc_device_id config"] by auto
  with assms(2) is_goal_prefix [OF _ assms(3), of kHeaderByte kHeaderByte "sc_device_id config" len _ more rest]
  have "instruction_code read_data = instruction_code write_data" by metis
  then show ?thesis by simp
qed

text \<open>Between service steps the transmit queue is empty, so a step sends its own request or nothing.\<close>

definition port_ready :: "serial_impl \<Rightarrow> bool" where
  "port_ready t \<longleftrightarrow> serial_inv t \<and> (si_opened t \<longrightarrow> si_fd_open t) \<and> ring_list (si_tx_queue t) = []"

lemma same_port_ready:
  "port_ready t \<Longrightarrow> same_port t t' \<Longrightarrow> si_tx_queue t' = si_tx_queue t \<Longrightarrow> port_ready t'"
  by (simp add: port_ready_def same_port_def)

lemma serial_write_shape:
  assumes "serial_inv t" and "ring_list (si_tx_queue t) = []"
  shows "same_port t (fst (serial_write t ch d))"
    and "snd (serial_write t ch d) = success () \<Longrightarrow>
      si_opened t \<and> ring_list (si_tx_queue (fst (serial_write t ch d))) = [\<lparr>fr_channel = ch, fr_data = d\<rparr>]"
    and "snd (serial_write t ch d) = failure c m \<Longrightarrow> si_tx_queue (fst (serial_write t ch d)) = si_tx_queue t"
proof -
  have ok: "ring_ok kQueueCapacity (si_tx_queue t)" using assms(1) by (simp add: serial_inv_def)
  note push = serial_queue.push_accepts [OF ok, of "\<lparr>fr_channel = ch, fr_data = d\<rparr>"]
    serial_queue.push_queued [OF ok, of "\<lparr>fr_channel = ch, fr_data = d\<rparr>"]
  have "kQueueCapacity > 0" by (simp add: kQueueCapacity_def)
  then show "same_port t (fst (serial_write t ch d))"
    "snd (serial_write t ch d) = success () \<Longrightarrow>
      si_opened t \<and> ring_list (si_tx_queue (fst (serial_write t ch d))) = [\<lparr>fr_channel = ch, fr_data = d\<rparr>]"
    "snd (serial_write t ch d) = failure c m \<Longrightarrow> si_tx_queue (fst (serial_write t ch d)) = si_tx_queue t"
    using serial_write_inv [OF assms(1), of ch d] push assms(2)
    by (auto simp: serial_write_def same_port_def split: prod.splits bool.splits if_splits)
qed

lemma transmit_ready:
  assumes "port_ready t" "serial_write t ch d = (t1, success ())" "serial_cycle t1 k = Some (t2, k', out)"
  shows "port_ready t2 \<and> same_port t t2 \<and> (\<exists>rest. d = out @ rest)"
proof -
  have i: "serial_inv t" "ring_list (si_tx_queue t) = []" using assms(1) by (simp_all add: port_ready_def)
  note w = serial_write_shape [OF i, of ch d, unfolded assms(2) fst_conv snd_conv]
  have o: "si_opened t1" "si_fd_open t1" "serial_inv t1"
    using w(1,2) i(1) assms(1) by (auto simp: same_port_def port_ready_def)
  have q: "ring_list (si_tx_queue t1) = [\<lparr>fr_channel = ch, fr_data = d\<rparr>]" using w(2) by simp
  have s: "same_port t1 t2"
    using serial_cycle_frame [OF assms(3)] serial_cycle_inv [OF assms(3)] by (simp add: same_port_def)
  show ?thesis
    using serial_cycle_sends [OF o(3) assms(3) o(1,2)] q s same_port_trans [OF w(1) s] o
    by (auto simp: port_ready_def same_port_def)
qed

section \<open>One service step\<close>

definition device_of :: "servo list \<Rightarrow> servo_runtime \<Rightarrow> u8" where
  "device_of servos rt = sc_device_id (so_config (servos ! rt_servo rt))"

definition bus_ok :: "bus \<Rightarrow> servo list \<Rightarrow> bool" where
  "bus_ok b servos \<longleftrightarrow>
     port_ready (sb_transport b) \<and> (\<forall>rt \<in> set (sb_servos b). rt_servo rt < length servos)
     \<and> distinct (map (device_of servos) (sb_servos b))
     \<and> sb_pending_index b < max 1 (length (sb_servos b)) \<and> sb_cursor b < max 1 (length (sb_servos b))"

text \<open>What a step that outputs \<open>out\<close> does to the debts.\<close>

definition goals :: "u8 \<Rightarrow> bytes \<Rightarrow> nat" where
  "goals device_id out = (if is_goal_for device_id out then 1 else 0)"

definition paid :: "servo list \<Rightarrow> bytes \<Rightarrow> servo_runtime \<Rightarrow> servo_runtime \<Rightarrow> bool" where
  "paid servos out rt rt' \<longleftrightarrow>
     keeps servos rt rt' \<and> debt servos rt' + goals (device_of servos rt) out \<le> debt servos rt"

definition served :: "servo list \<Rightarrow> bus \<Rightarrow> bus \<Rightarrow> bytes \<Rightarrow> bool" where
  "served servos b b' out \<longleftrightarrow>
     list_all2 (paid servos out) (sb_servos b) (sb_servos b')
     \<and> (\<forall>d. is_goal_for d out \<longrightarrow> d \<in> device_of servos ` set (sb_servos b)) \<and> port_ready (sb_transport b')"

lemma no_goal [simp]: "\<not> is_goal_for d []" "goals d [] = 0" by (simp_all add: is_goal_for_def goals_def)

lemma quiet_paid: "quiet servos b b' \<Longrightarrow> list_all2 (paid servos []) (sb_servos b) (sb_servos b')"
  by (simp add: list_all2_conv_all_nth quiet_def paid_def)

lemma paid_device: "paid servos out rt rt' \<Longrightarrow> device_of servos rt' = device_of servos rt"
  by (simp add: paid_def keeps_def device_of_def)

lemma paid_trans:
  "paid servos out rt rt1 \<Longrightarrow> paid servos [] rt1 rt' \<Longrightarrow> paid servos out rt rt'"
  "paid servos [] rt rt1 \<Longrightarrow> paid servos out rt1 rt' \<Longrightarrow> paid servos out rt rt'"
  using keeps_trans by (auto simp: paid_def device_of_def keeps_def)

lemma list_all2_compose:
  "list_all2 P xs ys \<Longrightarrow> list_all2 Q ys zs \<Longrightarrow> (\<And>x y z. P x y \<Longrightarrow> Q y z \<Longrightarrow> R x z) \<Longrightarrow> list_all2 R xs zs"
  by (rule list_all2_trans [of P Q R]) auto

lemma list_all2_image: "list_all2 P xs ys \<Longrightarrow> (\<And>x y. P x y \<Longrightarrow> f y = f x) \<Longrightarrow> f ` set ys = f ` set xs"
  by (induction rule: list_all2_induct) auto

lemma list_all2_map_eq: "list_all2 P xs ys \<Longrightarrow> (\<And>x y. P x y \<Longrightarrow> f y = f x) \<Longrightarrow> map f ys = map f xs"
  by (induction rule: list_all2_induct) auto

lemma quiet_devices: "quiet servos b b' \<Longrightarrow> map (device_of servos) (sb_servos b') = map (device_of servos) (sb_servos b)"
  using list_all2_map_eq [OF quiet_paid] paid_device by blast

lemma quiet_ready: "port_ready (sb_transport b) \<Longrightarrow> quiet servos b b' \<Longrightarrow> port_ready (sb_transport b')"
  by (auto simp: quiet_def intro: same_port_ready)

lemma quiet_served: "port_ready (sb_transport b) \<Longrightarrow> quiet servos b b' \<Longrightarrow> served servos b b' []"
  by (simp add: served_def quiet_paid quiet_ready)

lemma served_quiet: "served servos b b1 out \<Longrightarrow> quiet servos b1 b' \<Longrightarrow> served servos b b' out"
  using quiet_paid [of servos b1 b'] quiet_ready [of b1 servos b']
  by (auto simp: served_def intro: list_all2_compose paid_trans(1))

lemma quiet_then_served: "quiet servos b b1 \<Longrightarrow> served servos b1 b' out \<Longrightarrow> served servos b b' out"
  using quiet_paid [of servos b b1] list_all2_image [OF quiet_paid [of servos b b1], of "device_of servos"] paid_device
  by (auto simp: served_def intro: list_all2_compose paid_trans(2))

lemma send_request_served:
  assumes ready: "port_ready (sb_transport b)" and r: "r < length (sb_servos b)"
    and dist: "distinct (map (device_of servos) (sb_servos b))"
    and send: "send_request b servos r k = Some (b', res, k', out)"
  shows "served servos b b' out" "sb_fault_latched b' = sb_fault_latched b"
proof -
  let ?rt = "sb_servos b ! r"
  let ?c = "so_config (servos ! rt_servo ?rt)"
  note u = send [unfolded send_request_def Let_def]
  have "served servos b b' out \<and> sb_fault_latched b' = sb_fault_latched b"
  proof (cases "choose_request ?c ?rt" rule: result_cases)
    case (failure c m)
    then show ?thesis using u quiet_served [OF ready quiet_refl] by auto
  next
    case (success v)
    obtain rt' request where v: "v = (rt', request)" by fastforce
    note cr = success [unfolded v]
    let ?b1 = "set_runtime b r rt'"
    have t1: "sb_transport ?b1 = sb_transport b" by (simp add: set_runtime_def)
    have i: "serial_inv (sb_transport b)" "ring_list (si_tx_queue (sb_transport b)) = []"
      using ready by (simp_all add: port_ready_def)
    obtain t wr where w: "serial_write (sb_transport b) 0 request = (t, wr)" by fastforce
    have pay: "list_all2 (paid servos out) (sb_servos b) (sb_servos ?b1)"
      if "\<And>d. is_goal_for d out \<Longrightarrow> d = sc_device_id ?c \<and> send_goal ?rt"
    proof (unfold list_all2_conv_all_nth, intro conjI allI impI)
      fix j assume j: "j < length (sb_servos b)"
      have "device_of servos (sb_servos b ! j) = sc_device_id ?c \<longleftrightarrow> j = r"
        using dist r j unfolding device_of_def [symmetric] by (auto simp: distinct_conv_nth)
      then have "goals (device_of servos (sb_servos b ! j)) out \<le> (if send_goal ?rt \<and> j = r then 1 else 0)"
        using that by (auto simp: goals_def)
      then show "paid servos out (sb_servos b ! j) (sb_servos ?b1 ! j)"
        using choose_request_debt(1,2) [OF cr, of servos] j by (auto simp: paid_def set_runtime_def nth_list_update_at)
    qed (simp add: set_runtime_def)
    show ?thesis
    proof (cases wr rule: result_cases)
      case (failure c m)
      have "b' = ?b1\<lparr>sb_transport := t\<rparr> \<and> out = []" using u cr w failure t1 by (simp add: failure_def success_def)
      moreover have "port_ready t"
        using serial_write_shape(1,3) [OF i, of 0 request] w failure ready same_port_ready by auto
      ultimately show ?thesis using pay by (simp add: served_def set_runtime_def)
    next
      case (success w')
      obtain t2 where c: "serial_cycle t k = Some (t2, k', out)" and b': "b' = ?b1\<lparr>sb_transport := t2\<rparr>"
        using u cr w success t1 by (auto simp: success_def)
      obtain rest where t2: "port_ready t2" "request = out @ rest"
        using transmit_ready [OF ready _ c, of 0 request] w success by auto
      have goal: "is_goal_for d out \<Longrightarrow> d = sc_device_id ?c \<and> send_goal ?rt" for d
        by (rule choose_request_goal [OF cr t2(2)])
      then show ?thesis using pay t2(1) b' r by (fastforce simp: served_def set_runtime_def device_of_def)
    qed
  qed
  then show "served servos b b' out" "sb_fault_latched b' = sb_fault_latched b" by simp_all
qed

lemma dispatch_request_served:
  assumes "port_ready (sb_transport b)" "r < length (sb_servos b)" "distinct (map (device_of servos) (sb_servos b))"
    and "dispatch_request b servos r now k = Some (b', servos', k', out)"
  shows "served servos b b' out" "same_commands servos servos'"
proof -
  obtain b1 res k1 o1 where s: "send_request b servos r k = Some (b1, res, k1, o1)"
    using assms(4) by (auto simp: dispatch_request_def split: option.splits)
  note sv = send_request_served(1) [OF assms(1-3) s]
  have "served servos b b' out \<and> same_commands servos servos'"
    using assms(4) s sv latch_fault_quiet(1,2) served_quiet [OF sv]
    by (auto simp: dispatch_request_def split: sum.splits prod.splits)
  then show "served servos b b' out" "same_commands servos servos'" by simp_all
qed

lemma dispatch_request_cursor:
  assumes "dispatch_request b servos r now k = Some (b', servos', k', out)"
  shows "sb_cursor b' = sb_cursor b"
proof -
  obtain b1 res k1 o1 where s: "send_request b servos r k = Some (b1, res, k1, o1)"
    using assms by (auto simp: dispatch_request_def split: option.splits)
  have "sb_cursor b1 = sb_cursor b"
    using s by (auto simp: send_request_def set_runtime_def Let_def split: sum.splits prod.splits)
  moreover have "sb_cursor b' = sb_cursor b1"
    using assms s latch_fault_quiet(1) [of b1 servos r]
    by (auto simp: dispatch_request_def quiet_def split: sum.splits prod.splits)
  ultimately show ?thesis by simp
qed

lemma bus_cycle_cases:
  assumes "bus_cycle b0 servos0 now k = Some (b', servos', k', out)"
  obtains (stopped) "\<not> sb_running b0 \<or> sb_servos b0 = []" "b' = b0" "servos' = servos0" "out = []"
  | (latched) "sb_running b0" "sb_servos b0 \<noteq> []" "sb_fault_latched b0" "out = []"
      "publish_failed (b0\<lparr>sb_cycle_sequence := sb_cycle_sequence b0 + 1\<rparr>) servos0 (sb_cursor b0) kSt3215FeedbackIo now = (b', servos')"
  | (fault) "sb_running b0" "sb_servos b0 \<noteq> []" "\<not> sb_fault_latched b0" "out = []" "sb_dispatched b0" "sb_fault_latched b'"
      "poll_response (b0\<lparr>sb_cycle_sequence := sb_cycle_sequence b0 + 1\<rparr>) servos0 (sb_pending_index b0) now = (b', servos')"
  | (dispatch) b1 servos1 b3 cursor where "sb_running b0" "sb_servos b0 \<noteq> []" "\<not> sb_fault_latched b0" "\<not> sb_fault_latched b1"
      "(if sb_dispatched b0
        then poll_response (b0\<lparr>sb_cycle_sequence := sb_cycle_sequence b0 + 1\<rparr>) servos0 (sb_pending_index b0) now
        else (b0\<lparr>sb_cycle_sequence := sb_cycle_sequence b0 + 1\<rparr>, servos0)) = (b1, servos1)"
      "cursor = (if sb_dispatched b1 then (sb_pending_index b1 + 1) mod length (sb_servos b1) else 0)"
      "dispatch_request (bus_refresh (b1\<lparr>sb_cursor := cursor\<rparr>) servos1 cursor now) servos1 cursor now k = Some (b3, servos', k', out)"
      "b' = b3\<lparr>sb_pending_index := cursor, sb_dispatched := True\<rparr>"
proof (cases "\<not> sb_running b0 \<or> sb_servos b0 = []")
  case True
  show thesis using assms [unfolded bus_cycle_def if_P [OF True]] stopped [OF True] by simp
next
  case live: False
  let ?b = "b0\<lparr>sb_cycle_sequence := sb_cycle_sequence b0 + 1\<rparr>"
  note u = assms [unfolded bus_cycle_def if_not_P [OF live] Let_def]
  show thesis
  proof (cases "sb_fault_latched b0")
    case True
    then show thesis using u latched live by (auto split: prod.splits)
  next
    case False
    obtain b1 servos1 where p: "(if sb_dispatched b0 then poll_response ?b servos0 (sb_pending_index b0) now else (?b, servos0)) = (b1, servos1)"
      by fastforce
    show thesis
    proof (cases "sb_fault_latched b1")
      case True
      then have "sb_dispatched b0" using p False by (auto split: if_splits)
      then show thesis using u True False p live fault by simp
    next
      case ok: False
      define cursor where "cursor = (if sb_dispatched b1 then (sb_pending_index b1 + 1) mod length (sb_servos b1) else 0)"
      have "map_option (\<lambda>(b3, servos', k', out). (b3\<lparr>sb_pending_index := cursor, sb_dispatched := True\<rparr>, servos', k', out))
          (dispatch_request (bus_refresh (b1\<lparr>sb_cursor := cursor\<rparr>) servos1 cursor now) servos1 cursor now k) = Some (b', servos', k', out)"
        using u False ok p by (simp add: cursor_def cong: if_cong)
      then show thesis using dispatch [OF _ _ False ok p cursor_def] live by auto
    qed
  qed
qed

lemma poll_or_not_quiet:
  assumes "(if d then poll_response b servos r now else (b, servos)) = (b1, servos1)"
  shows "quiet servos b b1" "same_commands servos servos1"
  using assms poll_response_quiet [of b servos r now b1 servos1] by (auto split: if_splits)

lemma same_commands_config:
  assumes "same_commands servos servos'" "i < length servos"
  shows "so_config (servos' ! i) = so_config (servos ! i)" "so_commands (servos' ! i) = so_commands (servos ! i)"
    "so_command_gate (servos' ! i) = so_command_gate (servos ! i)"
proof -
  obtain f where "servos' ! i = (servos ! i)\<lparr>so_feedback := f\<rparr>" using assms by (auto simp: same_commands_def)
  then show "so_config (servos' ! i) = so_config (servos ! i)" "so_commands (servos' ! i) = so_commands (servos ! i)"
    "so_command_gate (servos' ! i) = so_command_gate (servos ! i)" by simp_all
qed

lemma same_commands_device:
  "same_commands servos servos' \<Longrightarrow> rt_servo rt < length servos \<Longrightarrow> device_of servos' rt = device_of servos rt"
  by (simp add: device_of_def same_commands_config(1))

lemma same_commands_staged:
  "same_commands servos servos' \<Longrightarrow> i < length servos \<Longrightarrow> read_staged (servos' ! i) p = read_staged (servos ! i) p"
  by (simp add: read_staged_def same_commands_config(2))

lemma same_commands_keeps:
  "same_commands servos servos' \<Longrightarrow> rt_servo rt < length servos \<Longrightarrow> keeps servos' rt rt' = keeps servos rt rt'"
  by (auto simp: keeps_def live_def current_command_def same_commands_staged)

lemma same_commands_paid:
  "same_commands servos servos' \<Longrightarrow> rt_servo rt < length servos \<Longrightarrow> paid servos' out rt rt' = paid servos out rt rt'"
  using same_commands_keeps [of servos servos' rt rt'] by (auto simp: paid_def keeps_def same_commands_debt same_commands_device)

lemma quiet_cursor: "quiet servos b c \<Longrightarrow> quiet servos (b\<lparr>sb_cursor := n\<rparr>) (c\<lparr>sb_cursor := n\<rparr>)"
  by (simp add: quiet_def)

lemma served_store:
  assumes "same_commands servos servos'" "\<forall>rt \<in> set (sb_servos b). rt_servo rt < length servos"
  shows "served servos' b b' out = served servos b b' out"
proof -
  have "list_all2 (paid servos' out) (sb_servos b) (sb_servos b') = list_all2 (paid servos out) (sb_servos b) (sb_servos b')"
    using assms by (intro list.rel_cong) (auto simp: same_commands_paid)
  moreover have "device_of servos' ` set (sb_servos b) = device_of servos ` set (sb_servos b)"
    using assms by (intro image_cong) (auto simp: same_commands_device)
  ultimately show ?thesis by (simp add: served_def)
qed

lemma bus_cycle_served:
  assumes ok: "bus_ok b servos" and cyc: "bus_cycle b servos now k = Some (b', servos', k', out)"
  shows "served servos b b' out" "same_commands servos servos'"
    "sb_pending_index b' < max 1 (length (sb_servos b')) \<and> sb_cursor b' < max 1 (length (sb_servos b'))"
proof -
  let ?b = "b\<lparr>sb_cycle_sequence := sb_cycle_sequence b + 1\<rparr>"
  have ready: "port_ready (sb_transport b)" and store: "\<forall>rt \<in> set (sb_servos b). rt_servo rt < length servos"
    and dist: "distinct (map (device_of servos) (sb_servos b))" using ok by (simp_all add: bus_ok_def)
  have q0: "quiet servos b ?b" by (simp add: quiet_def)
  have idx: "sb_pending_index c < max 1 (length (sb_servos c)) \<and> sb_cursor c < max 1 (length (sb_servos c))"
    if "quiet servos b c" for c using ok that by (auto simp: bus_ok_def quiet_def)
  from cyc have "served servos b b' out \<and> same_commands servos servos' \<and>
    sb_pending_index b' < max 1 (length (sb_servos b')) \<and> sb_cursor b' < max 1 (length (sb_servos b'))"
  proof (cases rule: bus_cycle_cases)
    case stopped
    then show ?thesis using quiet_served [OF ready quiet_refl] idx [OF quiet_refl] by simp
  next
    case latched
    note q = quiet_trans [OF q0 publish_failed_quiet(1) [OF latched(5)]]
    then show ?thesis using quiet_served [OF ready q] publish_failed_quiet(2) [OF latched(5)] idx [OF q] latched by simp
  next
    case fault
    note q = quiet_trans [OF q0 poll_response_quiet(1) [OF fault(7)]]
    then show ?thesis using quiet_served [OF ready q] poll_response_quiet(2) [OF fault(7)] idx [OF q] fault by simp
  next
    case (dispatch b1 servos1 b3 cursor)
    note s1 = poll_or_not_quiet(2) [OF dispatch(5)]
    note q1 = quiet_trans [OF q0 poll_or_not_quiet(1) [OF dispatch(5)]]
    let ?b2 = "bus_refresh (b1\<lparr>sb_cursor := cursor\<rparr>) servos1 cursor now"
    have len: "length (sb_servos b1) = length (sb_servos b)" "cursor < length (sb_servos b1)"
      using q1 dispatch(2,6) by (auto simp: quiet_def)
    have q2: "quiet servos1 (b1\<lparr>sb_cursor := cursor\<rparr>) ?b2" by (rule bus_refresh_quiet)
    have r1: "port_ready (sb_transport (b1\<lparr>sb_cursor := cursor\<rparr>))" using quiet_ready [OF ready q1] by simp
    have st1: "\<forall>rt \<in> set (sb_servos b1). rt_servo rt < length servos"
      using store list_all2_image [OF quiet_paid [OF q1], of rt_servo] by (auto simp: paid_def keeps_def) (metis imageE imageI)
    have len1: "length servos1 = length servos" using s1 by (simp add: same_commands_def)
    have d1: "distinct (map (device_of servos1) (sb_servos ?b2))"
    proof -
      have "map (device_of servos1) (sb_servos ?b2) = map (device_of servos1) (sb_servos b1)"
        using quiet_devices [OF q2] by simp
      also have "\<dots> = map (device_of servos) (sb_servos b1)"
        using st1 same_commands_device [OF s1] by simp
      also have "\<dots> = map (device_of servos) (sb_servos b)" by (rule quiet_devices [OF q1])
      finally show ?thesis using dist by simp
    qed
    have c2: "cursor < length (sb_servos ?b2)" using len q2 by (simp add: quiet_def)
    note sv = dispatch_request_served [OF quiet_ready [OF r1 q2] c2 d1 dispatch(7)]
    have "served servos1 (b1\<lparr>sb_cursor := cursor\<rparr>) b3 out" by (rule quiet_then_served [OF q2 sv(1)])
    then have "served servos (b1\<lparr>sb_cursor := cursor\<rparr>) b3 out" using served_store [OF s1, of "b1\<lparr>sb_cursor := cursor\<rparr>"] st1 by simp
    then have sv1: "served servos b1 b3 out" by (simp add: served_def)
    then have "length (sb_servos b3) = length (sb_servos b1)" by (auto simp: served_def dest: list_all2_lengthD)
    moreover have "sb_cursor b3 = cursor" using dispatch_request_cursor [OF dispatch(7)] q2 by (simp add: quiet_def)
    ultimately show ?thesis
      using quiet_then_served [OF q1 sv1] same_commands_trans [OF s1 sv(2)] len dispatch(8) by (simp add: served_def)
  qed
  then show "served servos b b' out" "same_commands servos servos'"
    "sb_pending_index b' < max 1 (length (sb_servos b')) \<and> sb_cursor b' < max 1 (length (sb_servos b'))" by simp_all
qed

section \<open>Histories\<close>

text \<open>A history lists what the port was given by every service step and the address of every accepted command.\<close>

inductive bus_history :: "bus \<Rightarrow> servo list \<Rightarrow> bytes list \<Rightarrow> address list \<Rightarrow> bool" where
  made: "bus_history (make_bus (make_serial config) a period) (map make_servo configs) [] []"
| added: "bus_history b servos outs acc \<Longrightarrow> i < length servos \<Longrightarrow>
    bus_history (fst (add_servo b servos (Some i))) servos outs acc"
| started: "bus_history b servos outs acc \<Longrightarrow> bus_history (fst (bus_start b lf sched calls now p)) servos outs acc"
| stopped: "bus_history b servos outs acc \<Longrightarrow> bus_history (fst (bus_stop b p)) servos outs acc"
| staged: "bus_history b servos outs acc \<Longrightarrow> i < length servos \<Longrightarrow> stage_command (servos ! i) c now = (s', a) \<Longrightarrow>
    bus_history b (servos[i := s']) outs (if a = accepted then i # acc else acc)"
| cycled: "bus_history b servos outs acc \<Longrightarrow> bus_cycle b servos now k = Some (b', servos', k', out) \<Longrightarrow>
    bus_history b' servos' (out # outs) acc"

definition sent_goals :: "u8 \<Rightarrow> bytes list \<Rightarrow> nat" where
  "sent_goals d outs = length (filter (is_goal_for d) outs)"

definition history_inv :: "bus \<Rightarrow> servo list \<Rightarrow> bytes list \<Rightarrow> address list \<Rightarrow> bool" where
  "history_inv b servos outs acc \<longleftrightarrow>
     bus_ok b servos
     \<and> (\<forall>rt \<in> set (sb_servos b). sent_goals (device_of servos rt) outs + debt servos rt \<le> count_list acc (rt_servo rt))
     \<and> (\<forall>d. d \<notin> device_of servos ` set (sb_servos b) \<longrightarrow> sent_goals d outs = 0)
     \<and> (\<forall>i < length servos. so_commands (servos ! i) \<noteq> None \<longrightarrow> i \<in> set acc)"

lemma bus_ok_servos:
  "port_ready (sb_transport b) \<Longrightarrow> bus_ok b0 servos \<Longrightarrow> sb_servos b = sb_servos b0 \<Longrightarrow> sb_pending_index b = sb_pending_index b0 \<Longrightarrow>
     sb_cursor b = sb_cursor b0 \<Longrightarrow> bus_ok b servos"
  by (simp add: bus_ok_def)

lemma history_inv_bus:
  "history_inv b0 servos outs acc \<Longrightarrow> bus_ok b servos \<Longrightarrow> sb_servos b = sb_servos b0 \<Longrightarrow> history_inv b servos outs acc"
  by (simp add: history_inv_def)

lemma made_inv: "history_inv (make_bus (make_serial config) a period) (map make_servo configs) [] []"
  by (auto simp: history_inv_def bus_ok_def port_ready_def make_bus_def make_serial_inv sent_goals_def make_servo_def)
    (simp_all add: make_serial_def empty_queue_def ring_list_def)

lemma start_transport:
  assumes "port_ready (sb_transport b)"
  shows "port_ready (sb_transport (fst (bus_start b lf sched calls now p)))"
    "sb_servos (fst (bus_start b lf sched calls now p)) = sb_servos b"
    "sb_pending_index (fst (bus_start b lf sched calls now p)) = sb_pending_index b"
    "sb_cursor (fst (bus_start b lf sched calls now p)) = sb_cursor b"
proof -
  have "port_ready (fst (serial_open (sb_transport b) ports calls))" for ports
    using assms serial_open_inv [of "sb_transport b" ports calls]
    by (auto simp: port_ready_def serial_open_def ring_clear_list Let_def split: open_result.splits option.splits sum.splits)
  then show "port_ready (sb_transport (fst (bus_start b lf sched calls now p)))"
    "sb_servos (fst (bus_start b lf sched calls now p)) = sb_servos b"
    "sb_pending_index (fst (bus_start b lf sched calls now p)) = sb_pending_index b"
    "sb_cursor (fst (bus_start b lf sched calls now p)) = sb_cursor b"
    using assms by (auto simp: bus_start_def split: prod.splits sum.splits) (metis fst_conv)+
qed

lemma stop_transport:
  assumes "port_ready (sb_transport b)"
  shows "port_ready (sb_transport (fst (bus_stop b p)))" "sb_servos (fst (bus_stop b p)) = sb_servos b"
    "sb_pending_index (fst (bus_stop b p)) = sb_pending_index b" "sb_cursor (fst (bus_stop b p)) = sb_cursor b"
proof -
  have "port_ready (fst (serial_close (sb_transport b) ports))" for ports
    using assms serial_close_inv [of "sb_transport b" ports] by (auto simp: port_ready_def serial_close_def)
  then show "port_ready (sb_transport (fst (bus_stop b p)))" "sb_servos (fst (bus_stop b p)) = sb_servos b"
    "sb_pending_index (fst (bus_stop b p)) = sb_pending_index b" "sb_cursor (fst (bus_stop b p)) = sb_cursor b"
    using assms by (auto simp: bus_stop_def split: prod.splits) (metis fst_conv)+
qed

lemma add_inv:
  assumes inv: "history_inv b servos outs acc" and i: "i < length servos"
  shows "history_inv (fst (add_servo b servos (Some i))) servos outs acc"
proof (cases "snd (add_servo b servos (Some i))" rule: result_cases)
  case (failure c m)
  then have "fst (add_servo b servos (Some i)) = b" by (auto simp: add_servo_def Let_def split: if_splits)
  then show ?thesis using inv by simp
next
  case (success v)
  then have b': "fst (add_servo b servos (Some i)) = b\<lparr>sb_servos := sb_servos b @ [make_runtime i]\<rparr>"
    and new: "sc_device_id (so_config (servos ! i)) \<notin> device_of servos ` set (sb_servos b)"
    by (auto simp: add_servo_def device_of_def Let_def split: if_splits)
  have "bus_ok (b\<lparr>sb_servos := sb_servos b @ [make_runtime i]\<rparr>) servos"
    using inv i new
    by (simp add: history_inv_def bus_ok_def make_runtime_def device_of_def) (auto simp: less_max_iff_disj)
  moreover have "debt servos (make_runtime i) \<le> count_list acc i"
  proof (cases "so_commands (servos ! i)")
    case (Some g)
    then have "i \<in> set acc" using inv i by (simp add: history_inv_def)
    then have "0 < count_list acc i" using count_list_0_iff [of acc i] by auto
    then show ?thesis by (simp add: debt_def make_runtime_def)
  qed (simp add: debt_def make_runtime_def read_staged_def)
  moreover have "sent_goals (sc_device_id (so_config (servos ! i))) outs = 0" using inv new by (simp add: history_inv_def)
  ultimately show ?thesis using inv b' by (auto simp: history_inv_def make_runtime_def device_of_def)
qed

lemma stage_command_fields:
  assumes "stage_command s c now = (s', a)"
  shows "so_config s' = so_config s" "a \<noteq> accepted \<Longrightarrow> so_commands s' = so_commands s"
  using stage_command_cases [OF assms]
  by (cases "a = accepted"; simp add: commit_command_def unlock_command_def; metis servo.select_convs(1,2) servo.surjective servo.update_convs(4))+

lemma staged_inv:
  assumes inv: "history_inv b servos outs acc" and i: "i < length servos" and st: "stage_command (servos ! i) c now = (s', a)"
  shows "history_inv b (servos[i := s']) outs (if a = accepted then i # acc else acc)"
proof -
  note f = stage_command_fields [OF st]
  have dev: "device_of (servos[i := s']) rt = device_of servos rt" for rt
    using f(1) i by (cases "rt_servo rt = i") (simp_all add: device_of_def)
  have devs: "device_of (servos[i := s']) = device_of servos" by (rule ext) (rule dev)
  have debt: "debt (servos[i := s']) rt \<le> debt servos rt + (if a = accepted \<and> rt_servo rt = i then 1 else 0)" for rt
    using f(2) i by (cases "rt_servo rt = i") (auto simp: debt_def read_staged_def)
  have "bus_ok b (servos[i := s'])" using inv by (simp add: history_inv_def bus_ok_def devs)
  moreover have "sent_goals (device_of servos rt) outs + debt (servos[i := s']) rt
      \<le> count_list (if a = accepted then i # acc else acc) (rt_servo rt)" if "rt \<in> set (sb_servos b)" for rt
  proof -
    have "sent_goals (device_of servos rt) outs + debt servos rt \<le> count_list acc (rt_servo rt)"
      using inv that by (simp add: history_inv_def)
    then show ?thesis using debt [of rt] by (cases "rt_servo rt = i") auto
  qed
  moreover have "so_commands (servos[i := s'] ! j) \<noteq> None \<longrightarrow> j \<in> set (if a = accepted then i # acc else acc)"
    if "j < length servos" for j
    using inv that f(2) i by (cases "j = i") (auto simp: history_inv_def)
  ultimately show ?thesis using inv by (simp add: history_inv_def devs)
qed

lemma list_all2_setE:
  assumes "list_all2 P xs ys" "y \<in> set ys"
  obtains x where "x \<in> set xs" "P x y"
  using assms by (metis in_set_conv_nth list_all2_conv_all_nth)

lemma sent_goals_Cons: "sent_goals d (out # outs) = goals d out + sent_goals d outs"
  by (simp add: sent_goals_def goals_def)

lemma cycled_inv:
  assumes inv: "history_inv b servos outs acc" and cyc: "bus_cycle b servos now k = Some (b', servos', k', out)"
  shows "history_inv b' servos' (out # outs) acc"
proof -
  have ok: "bus_ok b servos" using inv by (simp add: history_inv_def)
  note sv = bus_cycle_served [OF ok cyc]
  have store: "rt_servo rt < length servos" if "rt \<in> set (sb_servos b)" for rt using ok that by (simp add: bus_ok_def)
  have pay: "list_all2 (paid servos out) (sb_servos b) (sb_servos b')"
    and dev: "is_goal_for d out \<Longrightarrow> d \<in> device_of servos ` set (sb_servos b)" for d
    using sv(1) by (simp_all add: served_def)
  have store': "rt_servo rt < length servos" if "rt \<in> set (sb_servos b')" for rt
    using list_all2_setE [OF pay that] store by (metis paid_def keeps_def)
  have m: "map (device_of servos') (sb_servos b') = map (device_of servos) (sb_servos b)"
  proof -
    have "map (device_of servos') (sb_servos b') = map (device_of servos) (sb_servos b')"
      using same_commands_device [OF sv(2) store'] by simp
    also have "\<dots> = map (device_of servos) (sb_servos b)"
      by (rule list_all2_map_eq [OF pay]) (rule paid_device)
    finally show ?thesis .
  qed
  then have im: "device_of servos' ` set (sb_servos b') = device_of servos ` set (sb_servos b)" by (metis list.set_map)
  have len: "length servos' = length servos" using sv(2) by (simp add: same_commands_def)
  have "bus_ok b' servos'" using ok sv(1,3) m store' len by (simp add: bus_ok_def served_def)
  moreover have "sent_goals (device_of servos' rt') (out # outs) + debt servos' rt' \<le> count_list acc (rt_servo rt')"
    if r: "rt' \<in> set (sb_servos b')" for rt'
  proof -
    obtain rt where rt: "rt \<in> set (sb_servos b)" "paid servos out rt rt'" using list_all2_setE [OF pay r] .
    have e: "device_of servos' rt' = device_of servos rt" "debt servos' rt' = debt servos rt'"
      using same_commands_device [OF sv(2) store' [OF r]] paid_device [OF rt(2)] same_commands_debt [OF sv(2) store' [OF r]] by simp_all
    have "sent_goals (device_of servos rt) outs + debt servos rt \<le> count_list acc (rt_servo rt)"
      using inv rt(1) by (simp add: history_inv_def)
    then show ?thesis using rt(2) unfolding e sent_goals_Cons by (simp add: paid_def keeps_def)
  qed
  moreover have "sent_goals d (out # outs) = 0" if "d \<notin> device_of servos ` set (sb_servos b)" for d
    using inv that dev [of d] by (auto simp: sent_goals_Cons history_inv_def goals_def)
  moreover have "so_commands (servos' ! i) \<noteq> None \<longrightarrow> i \<in> set acc" if "i < length servos'" for i
    using inv that len same_commands_config(2) [OF sv(2), of i] by (simp add: history_inv_def)
  ultimately show ?thesis by (simp add: history_inv_def im)
qed

lemma history_invariant: "bus_history b servos outs acc \<Longrightarrow> history_inv b servos outs acc"
proof (induction rule: bus_history.induct)
  case (started b servos outs acc lf sched calls now p)
  then have ok: "bus_ok b servos" by (simp add: history_inv_def)
  then have "port_ready (sb_transport b)" by (simp add: bus_ok_def)
  note t = start_transport [OF this, of lf sched calls now p]
  show ?case by (rule history_inv_bus [OF started.IH bus_ok_servos [OF t(1) ok t(2-4)] t(2)])
next
  case (stopped b servos outs acc p)
  then have ok: "bus_ok b servos" by (simp add: history_inv_def)
  then have "port_ready (sb_transport b)" by (simp add: bus_ok_def)
  note t = stop_transport [OF this, of p]
  show ?case by (rule history_inv_bus [OF stopped.IH bus_ok_servos [OF t(1) ok t(2-4)] t(2)])
qed (simp_all add: made_inv add_inv staged_inv cycled_inv)

text \<open>Claim C28.  A command sequence is written to the device at most once: over any history of a bus, however staging,
  service steps, starts and stops interleave and whatever the port does, the number of goal frames handed to the
  port for a servo never exceeds the number of commands accepted for that servo.\<close>

theorem goal_frames_bounded:
  assumes "bus_history b servos outs acc" and "rt \<in> set (sb_servos b)"
  shows "length (filter (is_goal_for (device_of servos rt)) outs) \<le> count_list acc (rt_servo rt)"
  using history_invariant [OF assms(1)] assms(2) by (fastforce simp: history_inv_def sent_goals_def)

end
