(* ===== verification/St3215_Bus_Claims.thy ===== *)
theory St3215_Bus_Claims
  imports St3215_Bus_Runs
begin

text \<open>
  What the bus promises its users: a latched fault is permanent and silences the bus; feedback marked valid comes
  from a checked response; a goal frame carries the newest live command; the servos are served in turn.  The last
  part shows what a response that arrives one service step late does to a bus with several servos.
\<close>

section \<open>Flag words\<close>

lemma flags_clear: "b AND a = 0 \<Longrightarrow> ((x AND NOT a) OR b) AND a = (0 :: u32)"
  by (rule bit_eqI) (auto simp: bit_simps bit_eq_iff)

lemma flags_set: "(x OR (a OR b)) AND a = (a :: u32)"
  by (rule bit_eqI) (auto simp: bit_simps)

lemma flags_set': "(x OR (a OR b)) AND b = (b :: u32)"
  by (rule bit_eqI) (auto simp: bit_simps)

section \<open>Latched faults\<close>

lemma failed_feedback_flags:
  assumes "failed_feedback b servos r flags now = (b', fb)" and "flags AND kSt3215FeedbackValid = 0"
  shows "vf_flags fb AND kSt3215FeedbackValid = 0" "vf_flags fb AND kSt3215FeedbackStale = kSt3215FeedbackStale"
    "vf_flags fb AND flags = flags" "vf_timestamp_ns fb = now"
proof -
  let ?x = "vf_flags (servo_feedback_now (servos ! rt_servo (sb_servos b ! r)) 0)"
  have f: "vf_flags fb = (?x AND NOT kSt3215FeedbackValid) OR (kSt3215FeedbackStale OR flags)" and "vf_timestamp_ns fb = now"
    using assms(1) by (auto simp: failed_feedback_def Let_def)
  have "(kSt3215FeedbackStale OR flags) AND kSt3215FeedbackValid = 0"
    using assms(2) by (simp add: feedback_flag_defs bit.conj_disj_distrib2)
  then show "vf_flags fb AND kSt3215FeedbackValid = 0" unfolding f by (rule flags_clear)
  show "vf_flags fb AND kSt3215FeedbackStale = kSt3215FeedbackStale" "vf_flags fb AND flags = flags" "vf_timestamp_ns fb = now"
    unfolding f by (fact flags_set flags_set' \<open>vf_timestamp_ns fb = now\<close>)+
qed

text \<open>A latched fault is permanent: starting, stopping and extending the bus keep it, the bus reports itself
  failed, and every later service step hands nothing to the port, reads nothing from it and, while the bus runs,
  marks the feedback of the servo at the cursor invalid, stale and failed, leaving all other servos alone.\<close>

theorem latched_fault_permanent:
  assumes "sb_fault_latched b"
  shows "bus_health b = failed \<and> sb_fault_latched (fst (bus_start b lf sched calls now p))
    \<and> sb_fault_latched (fst (bus_stop b p)) \<and> sb_fault_latched (fst (add_servo b servos servo))
    \<and> (\<exists>b' servos'. bus_cycle b servos now k = Some (b', servos', k, []) \<and> sb_fault_latched b'
         \<and> sb_transport b' = sb_transport b
         \<and> (sb_running b \<and> sb_servos b \<noteq> [] \<longrightarrow>
             (\<exists>fb. servos' = publish_feedback servos (rt_servo (sb_servos b ! sb_cursor b)) fb
                \<and> vf_flags fb AND kSt3215FeedbackValid = 0 \<and> vf_flags fb AND kSt3215FeedbackStale = kSt3215FeedbackStale
                \<and> vf_flags fb AND kSt3215FeedbackIo = kSt3215FeedbackIo \<and> vf_timestamp_ns fb = now)))"
proof (intro conjI)
  show "bus_health b = failed" using assms by (simp add: bus_health_def)
  show "sb_fault_latched (fst (bus_start b lf sched calls now p))"
    using assms by (auto simp: bus_start_def split: prod.splits sum.splits)
  show "sb_fault_latched (fst (bus_stop b p))" using assms by (auto simp: bus_stop_def split: prod.splits)
  show "sb_fault_latched (fst (add_servo b servos servo))" using assms by (auto simp: add_servo_def Let_def split: option.splits)
  let ?b = "b\<lparr>sb_cycle_sequence := sb_cycle_sequence b + 1\<rparr>"
  obtain b' fb where ff: "failed_feedback ?b servos (sb_cursor b) kSt3215FeedbackIo now = (b', fb)" by fastforce
  have b': "sb_fault_latched b'" "sb_transport b' = sb_transport b"
    using ff assms by (auto simp: failed_feedback_def set_runtime_def Let_def)
  have io: "kSt3215FeedbackIo AND kSt3215FeedbackValid = 0" by (simp add: feedback_flag_defs)
  note fl = failed_feedback_flags [OF ff io]
  show "\<exists>b' servos'. bus_cycle b servos now k = Some (b', servos', k, []) \<and> sb_fault_latched b'
         \<and> sb_transport b' = sb_transport b
         \<and> (sb_running b \<and> sb_servos b \<noteq> [] \<longrightarrow>
             (\<exists>fb. servos' = publish_feedback servos (rt_servo (sb_servos b ! sb_cursor b)) fb
                \<and> vf_flags fb AND kSt3215FeedbackValid = 0 \<and> vf_flags fb AND kSt3215FeedbackStale = kSt3215FeedbackStale
                \<and> vf_flags fb AND kSt3215FeedbackIo = kSt3215FeedbackIo \<and> vf_timestamp_ns fb = now))"
  proof (cases "\<not> sb_running b \<or> sb_servos b = []")
    case True
    show ?thesis unfolding bus_cycle_def if_P [OF True] using True assms by auto
  next
    case False
    have "bus_cycle b servos now k = Some (b', publish_feedback servos (rt_servo (sb_servos b ! sb_cursor b)) fb, k, [])"
      unfolding bus_cycle_def if_not_P [OF False] Let_def using assms ff by (simp add: publish_failed_def)
    then show ?thesis using b' fl by blast
  qed
qed

section \<open>Valid feedback\<close>

lemma parse_status_encoding:
  assumes "parse_status d = success st"
  shows "d = status_packet (st_device_id st) (st_error st) (st_parameters st)"
proof -
  obtain p where p: "decode_packet d = success p"
    and st: "st = \<lparr>st_device_id = pk_device_id p, st_error = pk_instruction_or_status p, st_parameters = pk_parameters p\<rparr>"
    using assms by (cases "decode_packet d" rule: result_cases) (auto simp: parse_status_def)
  show ?thesis using encode_decode [OF p] by (simp add: st status_packet_def require_encoded_def)
qed

lemma consume_response_success:
  assumes inv: "serial_inv (sb_transport b)" and c: "consume_response b servos r now = (b', success fb)"
  shows "\<exists>params err rest. ring_list (si_rx_queue (sb_transport b))
        = \<lparr>fr_channel = 0, fr_data = status_packet (device_of servos (sb_servos b ! r)) err params\<rparr> # rest
      \<and> vf_timestamp_ns fb = now \<and> vf_status_error fb = ucast err
      \<and> vf_flags fb = (if err = 0 then kSt3215FeedbackValid else kSt3215FeedbackStale OR kSt3215FeedbackDeviceError)
      \<and> (err = 0 \<and> 2 \<le> length params \<longrightarrow>
           (\<exists>raw. read_st3215_u16_le params = success raw \<and> vf_raw_position fb = ucast raw
              \<and> position_units_to_radians raw (sc_max_position_units (so_config (servos ! rt_servo (sb_servos b ! r))))
                  = success (vf_position_rad fb)))"
proof -
  obtain t res where rd: "serial_read (sb_transport b) 0 kSt3215MaximumFrameSize = (t, res)" by fastforce
  note u = c [unfolded consume_response_def rd Let_def prod.case]
  obtain d where d: "res = success d" using u by (cases res rule: result_cases) auto
  obtain st where st: "parse_status d = success st" using u d by (cases "parse_status d" rule: result_cases) auto
  have id: "st_device_id st = device_of servos (sb_servos b ! r)"
    using u d st by (auto simp: device_of_def split: if_splits)
  have q: "ring_list (si_rx_queue (sb_transport b)) = \<lparr>fr_channel = 0, fr_data = d\<rparr> # ring_list (si_rx_queue t)"
    using serial_read_inv(2) [OF inv, of 0 kSt3215MaximumFrameSize d] rd d by simp
  show ?thesis
  proof (rule exI [of _ "st_parameters st"], rule exI [of _ "st_error st"], rule exI [of _ "ring_list (si_rx_queue t)"], intro conjI)
    show "ring_list (si_rx_queue (sb_transport b))
        = \<lparr>fr_channel = 0, fr_data = status_packet (device_of servos (sb_servos b ! r)) (st_error st) (st_parameters st)\<rparr>
          # ring_list (si_rx_queue t)"
      using q parse_status_encoding [OF st] id by simp
    show "vf_timestamp_ns fb = now" "vf_status_error fb = ucast (st_error st)"
      "vf_flags fb = (if st_error st = 0 then kSt3215FeedbackValid else kSt3215FeedbackStale OR kSt3215FeedbackDeviceError)"
      "st_error st = 0 \<and> 2 \<le> length (st_parameters st) \<longrightarrow>
           (\<exists>raw. read_st3215_u16_le (st_parameters st) = success raw \<and> vf_raw_position fb = ucast raw
              \<and> position_units_to_radians raw (sc_max_position_units (so_config (servos ! rt_servo (sb_servos b ! r))))
                  = success (vf_position_rad fb))"
      using u d st by (auto split: if_splits sum.splits simp: success_def failure_def)
  qed
qed

text \<open>The feedback of a servo that a step replaced.\<close>

definition replaced :: "servo list \<Rightarrow> servo list \<Rightarrow> nat \<Rightarrow> servo_feedback \<Rightarrow> bool" where
  "replaced servos servos' i fb \<longleftrightarrow>
     i < length servos \<and> so_feedback (servos' ! i) = Some fb \<and> so_feedback (servos ! i) \<noteq> Some fb"

lemma publish_replaced: "replaced servos (publish_feedback servos j fb') i fb \<Longrightarrow> i = j \<and> fb = fb'"
  by (cases "i = j") (auto simp: replaced_def publish_feedback_def)

lemma not_replaced [simp]: "\<not> replaced servos servos i fb" by (simp add: replaced_def)

lemma error_flag_invalid: "error_flag c AND kSt3215FeedbackValid = 0"
  by (cases c) (simp_all add: feedback_flag_defs)

lemma publish_failed_replaced:
  assumes "publish_failed b servos r flags now = (b', servos')" "flags AND kSt3215FeedbackValid = 0" "replaced servos servos' i fb"
  shows "vf_flags fb AND kSt3215FeedbackValid = 0"
proof -
  obtain b1 fb1 where f: "failed_feedback b servos r flags now = (b1, fb1)" by fastforce
  then have "servos' = publish_feedback servos (rt_servo (sb_servos b ! r)) fb1"
    using assms(1) by (simp add: publish_failed_def)
  then show ?thesis using publish_replaced assms(3) failed_feedback_flags(1) [OF f assms(2)] by blast
qed

lemma annotate_fields:
  "vf_timestamp_ns (annotate_feedback rt fb) = vf_timestamp_ns fb" "vf_status_error (annotate_feedback rt fb) = vf_status_error fb"
  "vf_raw_position (annotate_feedback rt fb) = vf_raw_position fb" "vf_position_rad (annotate_feedback rt fb) = vf_position_rad fb"
  by (simp_all add: annotate_feedback_def Let_def)

lemma annotate_valid:
  assumes "vf_flags (annotate_feedback rt fb) AND kSt3215FeedbackValid \<noteq> 0"
  shows "\<not> rt_command_timed_out rt \<and> vf_flags fb AND kSt3215FeedbackValid \<noteq> 0"
proof -
  have d: "(x OR kSt3215FeedbackDisabled) AND kSt3215FeedbackValid = x AND kSt3215FeedbackValid" for x
    by (simp add: bit.conj_disj_distrib2 feedback_flag_defs)
  have t: "((x AND NOT kSt3215FeedbackValid) OR (kSt3215FeedbackStale OR kSt3215FeedbackTimeout)) AND kSt3215FeedbackValid = 0" for x
    by (rule flags_clear) (simp add: feedback_flag_defs)
  show ?thesis using assms by (auto simp: annotate_feedback_def Let_def d t split: if_splits)
qed

lemma refresh_transport [simp]: "sb_transport (bus_refresh b servos r now) = sb_transport b"
  by (simp add: bus_refresh_def set_runtime_def Let_def)

lemma quiet_nth_servo: "quiet servos b b' \<Longrightarrow> r < length (sb_servos b) \<Longrightarrow> rt_servo (sb_servos b' ! r) = rt_servo (sb_servos b ! r)"
  by (simp add: quiet_def keeps_def)

definition authentic :: "servo list \<Rightarrow> bus \<Rightarrow> nat \<Rightarrow> int \<Rightarrow> servo_feedback \<Rightarrow> bool" where
  "authentic servos b r now fb \<longleftrightarrow>
     (\<exists>params rest. ring_list (si_rx_queue (sb_transport b))
        = \<lparr>fr_channel = 0, fr_data = status_packet (device_of servos (sb_servos b ! r)) 0 params\<rparr> # rest
      \<and> vf_timestamp_ns fb = now \<and> vf_status_error fb = 0
      \<and> (2 \<le> length params \<longrightarrow>
           (\<exists>raw. read_st3215_u16_le params = success raw \<and> vf_raw_position fb = ucast raw
              \<and> position_units_to_radians raw (sc_max_position_units (so_config (servos ! rt_servo (sb_servos b ! r))))
                  = success (vf_position_rad fb))))"

lemma poll_response_valid:
  assumes inv: "serial_inv (sb_transport b)" and r: "r < length (sb_servos b)"
    and poll: "poll_response b servos r now = (b', servos')"
    and rep: "replaced servos servos' i fb" and valid: "vf_flags fb AND kSt3215FeedbackValid \<noteq> 0"
  shows "i = rt_servo (sb_servos b ! r) \<and> authentic servos b r now fb"
proof -
  let ?b = "bus_refresh b servos r now"
  obtain b1 res where c: "consume_response ?b servos r now = (b1, res)" by fastforce
  have s: "rt_servo (sb_servos ?b ! r) = rt_servo (sb_servos b ! r)" by (rule quiet_nth_servo [OF bus_refresh_quiet r])
  have r': "r < length (sb_servos ?b)" using r bus_refresh_quiet [of servos b r now] by (simp add: quiet_def)
  have s1: "rt_servo (sb_servos b1 ! r) = rt_servo (sb_servos b ! r)"
    using quiet_nth_servo [OF consume_response_quiet(1) [OF c] r'] s by simp
  note u = poll [unfolded poll_response_def c Let_def prod.case]
  have latch: False if "latch_fault b1 servos r fl now = (b', servos')" "fl AND kSt3215FeedbackValid = 0" for fl
    using publish_failed_replaced [OF that(1) [unfolded latch_fault_def] that(2) rep] valid by contradiction
  have tm: "kSt3215FeedbackTimeout AND kSt3215FeedbackValid = 0" by (simp add: feedback_flag_defs)
  obtain fb0 where fb0: "res = success fb0"
    using u latch [OF _ error_flag_invalid] latch [OF _ tm] rep
    by (cases res rule: result_cases) (auto simp: replaced_def split: if_splits)
  then have "servos' = publish_feedback servos (rt_servo (sb_servos b1 ! r)) (annotate_feedback (sb_servos b1 ! r) fb0)"
    using u by simp
  then have i: "i = rt_servo (sb_servos b1 ! r)" "fb = annotate_feedback (sb_servos b1 ! r) fb0"
    using publish_replaced rep by blast+
  then have v: "vf_flags fb0 AND kSt3215FeedbackValid \<noteq> 0" using annotate_valid valid by blast
  have inv': "serial_inv (sb_transport ?b)" using inv by simp
  obtain params err rest where a: "ring_list (si_rx_queue (sb_transport b))
        = \<lparr>fr_channel = 0, fr_data = status_packet (device_of servos (sb_servos b ! r)) err params\<rparr> # rest"
      "vf_timestamp_ns fb0 = now" "vf_status_error fb0 = ucast err"
      "vf_flags fb0 = (if err = 0 then kSt3215FeedbackValid else kSt3215FeedbackStale OR kSt3215FeedbackDeviceError)"
      "err = 0 \<and> 2 \<le> length params \<longrightarrow>
           (\<exists>raw. read_st3215_u16_le params = success raw \<and> vf_raw_position fb0 = ucast raw
              \<and> position_units_to_radians raw (sc_max_position_units (so_config (servos ! rt_servo (sb_servos b ! r))))
                  = success (vf_position_rad fb0))"
    using consume_response_success [OF inv' c [unfolded fb0]] unfolding device_of_def s refresh_transport by blast
  have "err = 0" using v a(4) by (auto simp: feedback_flag_defs split: if_splits)
  then show ?thesis using a i s1 unfolding authentic_def by (auto simp: annotate_fields)
qed

lemma dispatch_replaced:
  assumes "dispatch_request b servos r now k = Some (b', servos', k', out)" "replaced servos servos' i fb"
  shows "vf_flags fb AND kSt3215FeedbackValid = 0"
  using assms publish_failed_replaced [OF _ error_flag_invalid, of _ servos r]
  by (fastforce simp: dispatch_request_def latch_fault_def split: option.splits sum.splits prod.splits)

text \<open>Claim C30.  Feedback marked valid is authentic: whenever a service step publishes feedback with the valid flag for
  a servo, that servo is the one the bus was waiting for, and the oldest frame the port had received is exactly
  the status packet, with its checksum, of that servo's device with no error; the feedback carries the time of the
  step and, if the packet has a position, that position and its conversion to radians.\<close>

theorem valid_feedback_authentic:
  assumes ok: "bus_ok b servos" and cyc: "bus_cycle b servos now k = Some (b', servos', k', out)"
    and rep: "replaced servos servos' i fb" and valid: "vf_flags fb AND kSt3215FeedbackValid \<noteq> 0"
  shows "i = rt_servo (sb_servos b ! sb_pending_index b) \<and> authentic servos b (sb_pending_index b) now fb"
proof -
  let ?b = "b\<lparr>sb_cycle_sequence := sb_cycle_sequence b + 1\<rparr>"
  have inv: "serial_inv (sb_transport ?b)" using ok by (simp add: bus_ok_def port_ready_def)
  have r: "sb_pending_index b < length (sb_servos ?b)" if "sb_servos b \<noteq> []"
    using ok that by (auto simp: bus_ok_def less_max_iff_disj)
  have a: "authentic servos ?b = authentic servos b" by (simp add: authentic_def [abs_def])
  have poll: "i = rt_servo (sb_servos b ! sb_pending_index b) \<and> authentic servos b (sb_pending_index b) now fb"
    if "poll_response ?b servos (sb_pending_index b) now = (b1, servos1)" "replaced servos servos1 i fb" "sb_servos b \<noteq> []"
    for b1 servos1
    using poll_response_valid [OF inv r [OF that(3)] that(1,2) valid] by (simp add: a)
  have io: "kSt3215FeedbackIo AND kSt3215FeedbackValid = 0" by (simp add: feedback_flag_defs)
  from cyc show ?thesis
  proof (cases rule: bus_cycle_cases)
    case stopped
    then show ?thesis using rep by simp
  next
    case latched
    then show ?thesis using publish_failed_replaced [OF latched(5) io rep] valid by simp
  next
    case fault
    then show ?thesis using poll [OF fault(7) rep] by blast
  next
    case (dispatch b1 servos1 b3 cursor)
    have n: "\<not> replaced servos1 servos' i fb" using dispatch_replaced [OF dispatch(7)] valid by blast
    have "length servos1 = length servos" using poll_or_not_quiet(2) [OF dispatch(5)] by (simp add: same_commands_def)
    then have "replaced servos servos1 i fb" using n rep by (auto simp: replaced_def)
    then show ?thesis using poll dispatch(2,5) by (auto split: if_splits)
  qed
qed

section \<open>Goals\<close>

lemma send_request_out:
  assumes ready: "port_ready (sb_transport b)" and send: "send_request b servos r k = Some (b', res, k', out)" and ne: "out \<noteq> []"
  shows "\<exists>rt' request rest. choose_request (so_config (servos ! rt_servo (sb_servos b ! r))) (sb_servos b ! r) = success (rt', request)
      \<and> request = out @ rest"
proof -
  note u = send [unfolded send_request_def Let_def]
  obtain v where v: "choose_request (so_config (servos ! rt_servo (sb_servos b ! r))) (sb_servos b ! r) = success v"
    using u ne by (cases "choose_request (so_config (servos ! rt_servo (sb_servos b ! r))) (sb_servos b ! r)" rule: result_cases) auto
  obtain rt' request where p: "v = (rt', request)" by fastforce
  obtain t wr where w: "serial_write (sb_transport b) 0 request = (t, wr)" by fastforce
  have t1: "sb_transport (set_runtime b r rt') = sb_transport b" by (simp add: set_runtime_def)
  obtain x where x: "wr = success x"
    using u v p w t1 ne by (cases wr rule: result_cases) (auto simp: success_def failure_def)
  obtain t2 where "serial_cycle t k = Some (t2, k', out)" using u v p w x t1 by (auto simp: success_def)
  then obtain rest where "request = out @ rest" using transmit_ready [OF ready _, of 0 request t k t2 k' out] w x by auto
  then show ?thesis using v p by blast
qed

lemma dispatch_request_out:
  assumes "port_ready (sb_transport b)" "dispatch_request b servos r now k = Some (b', servos', k', out)" "out \<noteq> []"
  shows "\<exists>rt' request rest. choose_request (so_config (servos ! rt_servo (sb_servos b ! r))) (sb_servos b ! r) = success (rt', request)
      \<and> request = out @ rest"
proof -
  obtain b1 res k1 where "send_request b servos r k = Some (b1, res, k1, out)"
    using assms(2) by (auto simp: dispatch_request_def split: option.splits sum.splits prod.splits)
  then show ?thesis by (rule send_request_out [OF assms(1) _ assms(3)])
qed

text \<open>The runtime a dispatch works on, after the refresh.\<close>

lemma dispatch_runtime:
  assumes ok: "bus_ok b servos" and sv: "sb_servos b \<noteq> []"
    and poll: "(if d then poll_response (b\<lparr>sb_cycle_sequence := n\<rparr>) servos r now else (b\<lparr>sb_cycle_sequence := n\<rparr>, servos)) = (b1, servos1)"
    and cur: "cursor = (if sb_dispatched b1 then (sb_pending_index b1 + 1) mod length (sb_servos b1) else 0)"
  defines "b2 \<equiv> bus_refresh (b1\<lparr>sb_cursor := cursor\<rparr>) servos1 cursor now"
  shows "cursor < length (sb_servos b)" "port_ready (sb_transport b2)" "same_commands servos servos1"
    "keeps servos (sb_servos b ! cursor) (sb_servos b2 ! cursor)"
    "sb_servos b2 ! cursor = refresh_staged (so_config (servos1 ! rt_servo (sb_servos b1 ! cursor)))
       (read_staged (servos1 ! rt_servo (sb_servos b1 ! cursor)) (rt_consumed_publication (sb_servos b1 ! cursor))) (sb_servos b1 ! cursor) now"
    "rt_servo (sb_servos b ! cursor) < length servos"
proof -
  note s1 = poll_or_not_quiet(2) [OF poll]
  have q0: "quiet servos b (b\<lparr>sb_cycle_sequence := n\<rparr>)" by (simp add: quiet_def)
  note q1 = quiet_trans [OF q0 poll_or_not_quiet(1) [OF poll]]
  have len: "length (sb_servos b1) = length (sb_servos b)" using q1 by (simp add: quiet_def)
  show c: "cursor < length (sb_servos b)" using cur len sv by auto
  have q2: "quiet servos1 (b1\<lparr>sb_cursor := cursor\<rparr>) b2" unfolding b2_def by (rule bus_refresh_quiet)
  have "port_ready (sb_transport b)" using ok by (simp add: bus_ok_def)
  then show "port_ready (sb_transport b2)" using quiet_ready [OF _ q1] by (simp add: b2_def)
  show "same_commands servos servos1" by (rule s1)
  show st: "rt_servo (sb_servos b ! cursor) < length servos" using ok c by (auto simp: bus_ok_def)
  have k1: "keeps servos (sb_servos b ! cursor) (sb_servos b1 ! cursor)" using q1 c by (simp add: quiet_def)
  then have st1: "rt_servo (sb_servos b1 ! cursor) < length servos" using st by (simp add: keeps_def)
  have "keeps servos1 (sb_servos b1 ! cursor) (sb_servos b2 ! cursor)" using q2 c len by (simp add: quiet_def)
  then have "keeps servos (sb_servos b1 ! cursor) (sb_servos b2 ! cursor)" using same_commands_keeps [OF s1 st1] by simp
  with k1 show "keeps servos (sb_servos b ! cursor) (sb_servos b2 ! cursor)" by (rule keeps_trans)
  show "sb_servos b2 ! cursor = refresh_staged (so_config (servos1 ! rt_servo (sb_servos b1 ! cursor)))
       (read_staged (servos1 ! rt_servo (sb_servos b1 ! cursor)) (rt_consumed_publication (sb_servos b1 ! cursor))) (sb_servos b1 ! cursor) now"
    using c len by (simp add: b2_def bus_refresh_def set_runtime_def Let_def)
qed

lemma refresh_unexpired:
  assumes "rt_has_command (refresh_staged c st rt now)" "0 < sc_command_timeout_ns c"
  shows "vc_timestamp_ns (rt_command (refresh_staged c st rt now)) \<le> now
    \<and> now - vc_timestamp_ns (rt_command (refresh_staged c st rt now)) \<le> sc_command_timeout_ns c"
  using assms unfolding refresh_staged_def load_command_def [symmetric] Let_def by (auto simp: not_less split: if_splits)

lemma refresh_reads:
  "read_staged (servos ! rt_servo rt) (rt_consumed_publication
     (refresh_staged c (read_staged (servos ! rt_servo rt) (rt_consumed_publication rt)) rt now)) = None"
  using refresh_staged_cases [of c "read_staged (servos ! rt_servo rt) (rt_consumed_publication rt)" rt now]
    load_reads(1) [of servos rt] by (auto simp: drop_command_def)

text \<open>Claim C29.  A goal frame carries the newest live command: when a service step hands a goal frame to the port, the
  device is one of the bus, the newest command staged for X its target converts to a position, and
  the bytes are a prefix of the frame for exactly that position.\<close>

theorem goal_carries_live_command:
  assumes ok: "bus_ok b servos" and cyc: "bus_cycle b servos now k = Some (b', servos', k', out)" and goal: "is_goal_for d out"
  shows "\<exists>r < length (sb_servos b). \<exists>position rest.
    let rt = sb_servos b ! r; config = so_config (servos ! rt_servo rt); c = current_command servos rt
    in d = sc_device_id config \<and> live servos rt \<and> vc_enabled c \<and> \<not> vc_emergency_stop c
       \<and> (0 < sc_command_timeout_ns config \<longrightarrow> vc_timestamp_ns c \<le> now \<and> now - vc_timestamp_ns c \<le> sc_command_timeout_ns config)
       \<and> radians_to_position_units (vc_target_position_rad c) (sc_max_position_units config) = success position
       \<and> goal_position_command d position (sc_time_units config) (sc_speed_units config) = out @ rest"
  using cyc
proof (cases rule: bus_cycle_cases)
  case (dispatch b1 servos1 b3 cursor)
  note rt = dispatch_runtime [OF ok dispatch(2,5,6)]
  let ?rt = "sb_servos b ! cursor" and ?b2 = "bus_refresh (b1\<lparr>sb_cursor := cursor\<rparr>) servos1 cursor now"
  let ?rt2 = "sb_servos ?b2 ! cursor"
  have s2: "rt_servo ?rt2 = rt_servo ?rt" using rt(4) by (simp add: keeps_def)
  have cfg: "so_config (servos1 ! rt_servo ?rt) = so_config (servos ! rt_servo ?rt)"
    by (rule same_commands_config(1) [OF rt(3,6)])
  have ne: "out \<noteq> []" using goal by auto
  obtain rt' request rest where cr: "choose_request (so_config (servos ! rt_servo ?rt)) ?rt2 = success (rt', request)" "request = out @ rest"
    using dispatch_request_out [OF rt(2) dispatch(7) ne] cfg s2 by auto
  have g: "d = sc_device_id (so_config (servos ! rt_servo ?rt))" "send_goal ?rt2" using choose_request_goal [OF cr goal] by simp_all
  have has: "rt_has_command ?rt2" using g(2) by (simp add: send_goal_def command_active_def)
  have s1: "rt_servo (sb_servos b1 ! cursor) = rt_servo ?rt" using rt(5) s2 by simp
  have none: "read_staged (servos ! rt_servo ?rt2) (rt_consumed_publication ?rt2) = None"
    using refresh_reads [of servos1 "sb_servos b1 ! cursor" _ now] rt(5) s1 s2 same_commands_staged [OF rt(3,6)] by simp
  have cmd: "current_command servos ?rt = rt_command ?rt2" "live servos ?rt"
    using rt(4) has none by (simp_all add: keeps_def live_def current_command_def)
  have act: "vc_enabled (rt_command ?rt2)" "\<not> vc_emergency_stop (rt_command ?rt2)"
    using g(2) by (simp_all add: send_goal_def command_active_def)
  have exp: "0 < sc_command_timeout_ns (so_config (servos ! rt_servo ?rt)) \<Longrightarrow>
      vc_timestamp_ns (rt_command ?rt2) \<le> now \<and> now - vc_timestamp_ns (rt_command ?rt2) \<le> sc_command_timeout_ns (so_config (servos ! rt_servo ?rt))"
    using refresh_unexpired [of "so_config (servos ! rt_servo ?rt)" _ "sb_servos b1 ! cursor" now] rt(5) has s1 cfg by simp
  have "\<exists>position. radians_to_position_units (vc_target_position_rad (rt_command ?rt2)) (sc_max_position_units (so_config (servos ! rt_servo ?rt)))
       = success position \<and> goal_position_command d position (sc_time_units (so_config (servos ! rt_servo ?rt)))
           (sc_speed_units (so_config (servos ! rt_servo ?rt))) = out @ rest"
    using cr g by (auto simp: choose_request_def success_def split: sum.splits)
  then show ?thesis using rt(1) g(1) cmd act exp unfolding Let_def by (intro exI [of _ cursor]) auto
qed (use goal in simp_all)

section \<open>Round robin\<close>

fun bus_cycles :: "bus \<Rightarrow> servo list \<Rightarrow> (int \<times> kernel) list \<Rightarrow> (bus \<times> servo list \<times> bytes list) option" where
  "bus_cycles b servos [] = Some (b, servos, [])"
| "bus_cycles b servos ((now, k) # steps) =
     (case bus_cycle b servos now k of
        None \<Rightarrow> None
      | Some (b1, servos1, _, out) \<Rightarrow>
          map_option (\<lambda>(b2, servos2, outs). (b2, servos2, out # outs)) (bus_cycles b1 servos1 steps))"

definition next_position :: "bus \<Rightarrow> nat" where
  "next_position b = (if sb_dispatched b then (sb_pending_index b + 1) mod length (sb_servos b) else 0)"

lemma choose_request_device:
  assumes "choose_request config rt = success (rt', request)" "request = out @ rest" "3 \<le> length out"
  shows "out ! 2 = sc_device_id config"
proof -
  obtain len i more where "request = [kHeaderByte, kHeaderByte, sc_device_id config, len, i] @ more"
    using choose_request_debt(3,4) [OF assms(1)] goal_command_bytes [of "sc_device_id config"] read_command_bytes [of "sc_device_id config"]
    by metis
  then have "(out @ rest) ! 2 = sc_device_id config" using assms(2) by simp
  then show ?thesis using assms(3) by (simp add: nth_append)
qed

lemma bus_cycle_ok:
  assumes "bus_ok b servos" "bus_cycle b servos now k = Some (b', servos', k', out)"
  shows "bus_ok b' servos' \<and> map (device_of servos') (sb_servos b') = map (device_of servos) (sb_servos b)"
proof -
  note sv = bus_cycle_served [OF assms]
  have pay: "list_all2 (paid servos out) (sb_servos b) (sb_servos b')" using sv(1) by (simp add: served_def)
  have store: "rt_servo rt < length servos" if "rt \<in> set (sb_servos b')" for rt
    using list_all2_setE [OF pay that] assms(1) by (metis paid_def keeps_def bus_ok_def)
  have "map (device_of servos') (sb_servos b') = map (device_of servos) (sb_servos b')"
    using same_commands_device [OF sv(2) store] by simp
  also have "\<dots> = map (device_of servos) (sb_servos b)"
    by (rule list_all2_map_eq [OF pay]) (rule paid_device)
  finally have m: "map (device_of servos') (sb_servos b') = map (device_of servos) (sb_servos b)" .
  then show ?thesis using assms(1) sv store by (simp add: bus_ok_def served_def same_commands_def)
qed

lemma unlatched_step:
  assumes ok: "bus_ok b servos" and live: "sb_running b" "sb_servos b \<noteq> []"
    and cyc: "bus_cycle b servos now k = Some (b', servos', k', out)" and nl: "\<not> sb_fault_latched b'"
  shows "sb_dispatched b' \<and> sb_pending_index b' = next_position b \<and> sb_running b' \<and> length (sb_servos b') = length (sb_servos b)
    \<and> (3 \<le> length out \<longrightarrow> out ! 2 = device_of servos (sb_servos b ! next_position b))"
  using cyc
proof (cases rule: bus_cycle_cases)
  case stopped
  then show ?thesis using live by simp
next
  case latched
  then show ?thesis using publish_failed_quiet(3) [OF latched(5)] nl by simp
next
  case fault
  then show ?thesis using nl by simp
next
  case (dispatch b1 servos1 b3 cursor)
  note rt = dispatch_runtime [OF ok dispatch(2,5,6)]
  let ?b2 = "bus_refresh (b1\<lparr>sb_cursor := cursor\<rparr>) servos1 cursor now"
  have q1: "quiet servos b b1"
    using quiet_trans [OF quiet_update(3) [OF quiet_refl] poll_or_not_quiet(1) [OF dispatch(5)]] .
  then have cur: "cursor = next_position b" using dispatch(6) by (simp add: quiet_def next_position_def)
  have run: "sb_running b3 = sb_running ?b2"
  proof -
    obtain b4 res k4 o4 where s: "send_request ?b2 servos1 cursor k = Some (b4, res, k4, o4)"
      using dispatch(7) by (auto simp: dispatch_request_def split: option.splits)
    then have "sb_running b4 = sb_running ?b2"
      by (auto simp: send_request_def set_runtime_def Let_def split: sum.splits prod.splits)
    then show ?thesis using dispatch(7) s latch_fault_quiet(1) [of b4 servos1 cursor]
      by (auto simp: dispatch_request_def quiet_def split: sum.splits prod.splits)
  qed
  have "3 \<le> length out \<Longrightarrow> out ! 2 = device_of servos (sb_servos b ! cursor)"
  proof -
    assume l: "3 \<le> length out"
    then have ne: "out \<noteq> []" by auto
    have s2: "rt_servo (sb_servos ?b2 ! cursor) = rt_servo (sb_servos b ! cursor)" using rt(4) by (simp add: keeps_def)
    obtain rt' request rest where "choose_request (so_config (servos1 ! rt_servo (sb_servos ?b2 ! cursor))) (sb_servos ?b2 ! cursor) = success (rt', request)"
        "request = out @ rest"
      using dispatch_request_out [OF rt(2) dispatch(7) ne] by blast
    from choose_request_device [OF this l] show ?thesis
      using same_commands_config(1) [OF rt(3,6)] s2 by (simp add: device_of_def)
  qed
  moreover have "sb_running ?b2 = sb_running b"
    using q1 bus_refresh_quiet [of servos1 "b1\<lparr>sb_cursor := cursor\<rparr>" cursor now] by (simp add: quiet_def)
  moreover have "length (sb_servos b') = length (sb_servos b)"
    using bus_cycle_ok [OF ok cyc] by (metis length_map)
  ultimately show ?thesis using dispatch(8) cur run live by simp
qed

lemma latched_cycles: "bus_cycles b servos steps = Some (b', servos', outs) \<Longrightarrow> sb_fault_latched b \<Longrightarrow> sb_fault_latched b'"
proof (induction b servos steps arbitrary: outs rule: bus_cycles.induct)
  case (2 b servos now k steps)
  obtain b1 servos1 k1 out where c: "bus_cycle b servos now k = Some (b1, servos1, k1, out)"
    using "2.prems"(1) by (auto split: option.splits)
  have "sb_fault_latched b1"
    using c by (cases rule: bus_cycle_cases) (use "2.prems"(2) publish_failed_quiet(3) in auto)
  then show ?case using 2 c by auto
qed simp

lemma cycles_round_robin:
  assumes "bus_ok b servos" "sb_running b" "sb_servos b \<noteq> []"
    and "bus_cycles b servos steps = Some (b', servos', outs)" "\<not> sb_fault_latched b'"
  shows "length outs = length steps \<and>
    (\<forall>j < length outs. 3 \<le> length (outs ! j) \<longrightarrow>
       outs ! j ! 2 = device_of servos (sb_servos b ! ((next_position b + j) mod length (sb_servos b))))"
  using assms
proof (induction b servos steps arbitrary: outs rule: bus_cycles.induct)
  case (2 b servos now k steps)
  obtain b1 servos1 k1 out outs1 where c: "bus_cycle b servos now k = Some (b1, servos1, k1, out)"
    and r: "bus_cycles b1 servos1 steps = Some (b', servos', outs1)" and o: "outs = out # outs1"
    using "2.prems"(4) by (auto split: option.splits)
  have nl: "\<not> sb_fault_latched b1" using latched_cycles [OF r] "2.prems"(5) by blast
  note st = unlatched_step [OF "2.prems"(1-3) c nl]
  note ok1 = bus_cycle_ok [OF "2.prems"(1) c]
  have ne: "sb_servos b1 \<noteq> []" using st "2.prems"(3) by auto
  have len: "length (sb_servos b1) = length (sb_servos b)" using st by simp
  have np: "next_position b1 = (next_position b + 1) mod length (sb_servos b)" using st by (simp add: next_position_def)
  have pos: "next_position b < length (sb_servos b)"
    using "2.prems"(1,3) by (auto simp: next_position_def)
  have dev: "device_of servos1 (sb_servos b1 ! i) = device_of servos (sb_servos b ! i)" if "i < length (sb_servos b)" for i
    using ok1 len that by (metis nth_map)
  have IH: "length outs1 = length steps \<and> (\<forall>j < length outs1. 3 \<le> length (outs1 ! j) \<longrightarrow>
       outs1 ! j ! 2 = device_of servos1 (sb_servos b1 ! ((next_position b1 + j) mod length (sb_servos b1))))"
    using "2.IH" [OF c refl refl refl _ _ _ r "2.prems"(5)] ok1 st ne "2.prems"(2) by simp
  show ?case
  proof (intro conjI allI impI)
    fix j assume j: "j < length outs" "3 \<le> length (outs ! j)"
    show "outs ! j ! 2 = device_of servos (sb_servos b ! ((next_position b + j) mod length (sb_servos b)))"
    proof (cases j)
      case 0
      then show ?thesis using st j o pos by simp
    next
      case (Suc i)
      have "(next_position b1 + i) mod length (sb_servos b1) = (next_position b + j) mod length (sb_servos b)"
        unfolding np len Suc by (simp add: mod_simps)
      then show ?thesis using IH j o Suc dev [of "(next_position b + j) mod length (sb_servos b)"] "2.prems"(3) by auto
    qed
  qed (use IH o in simp)
qed simp

text \<open>Claim C31.  The servos are served in turn: on a running bus that has not latched a fault by the end of a run of service
  steps, the request of the j-th step goes to servo j modulo the number of servos, counted from the next one in
  line, so that every servo is addressed once in as many consecutive steps as there are servos.\<close>

theorem bus_serves_in_turn:
  assumes "bus_ok b servos" "sb_running b" "sb_servos b \<noteq> []"
    and "bus_cycles b servos steps = Some (b', servos', outs)" "\<not> sb_fault_latched b'"
    and "j < length outs" "3 \<le> length (outs ! j)"
  shows "outs ! j ! 2 = device_of servos (sb_servos b ! ((next_position b + j) mod length (sb_servos b)))"
  using cycles_round_robin [OF assms(1-5)] assms(6,7) by blast

section \<open>Late responses\<close>

lemma serial_read_head:
  assumes "serial_inv t" "si_opened t" "ring_list (si_rx_queue t) = f # rest" "fr_channel f = ch" "length (fr_data f) \<le> n"
  shows "snd (serial_read t ch n) = success (fr_data f)"
proof -
  have ok: "ring_ok kQueueCapacity (si_rx_queue t)" using assms(1) by (simp add: serial_inv_def rx_ok_def)
  have n: "ring_size (si_rx_queue t) \<noteq> 0" using assms(3) by (metis length_ring_list list.size(3) length_0_conv list.distinct(1))
  have "Some (ring_slots (si_rx_queue t) ! ring_head (si_rx_queue t)) = Some f"
    using serial_queue.pop_result [OF ok] assms(3) n by (simp add: ring_pop_def)
  then show ?thesis using assms n by (simp add: serial_read_def Let_def)
qed

lemma parse_status_packet:
  "length ps \<le> 253 \<Longrightarrow> parse_status (status_packet d e ps) = success \<lparr>st_device_id = d, st_error = e, st_parameters = ps\<rparr>"
  using decode_encode [OF encode_packet_success, of ps d e]
  by (simp add: parse_status_def status_packet_def require_encoded_def encode_packet_success)

text \<open>A response of another servo is fatal: when the oldest frame the port has received is a status packet of a
  device other than the one the bus is waiting for, the next service step latches the permanent fault.  With several
  servos and ports that do not wait, this is what a response does that arrives after the step that sent its request
  but before the next one: that next step moves on to the next servo, and its transport cycle queues the late frame.\<close>

lemma foreign_response_latches:
  assumes ok: "bus_ok b servos" and live: "sb_running b" "sb_servos b \<noteq> []" "sb_dispatched b" "\<not> sb_fault_latched b"
    and port: "si_opened (sb_transport b)"
    and head: "ring_list (si_rx_queue (sb_transport b)) = \<lparr>fr_channel = 0, fr_data = status_packet d err params\<rparr> # rest"
    and frame: "length params \<le> 253" "d \<noteq> device_of servos (sb_servos b ! sb_pending_index b)"
  shows "\<exists>b' servos'. bus_cycle b servos now k = Some (b', servos', k, []) \<and> sb_fault_latched b'"
proof -
  let ?b = "b\<lparr>sb_cycle_sequence := sb_cycle_sequence b + 1\<rparr>" and ?r = "sb_pending_index b"
  let ?b1 = "bus_refresh ?b servos ?r now"
  have inv: "serial_inv (sb_transport b)" using ok by (simp add: bus_ok_def port_ready_def)
  have r: "?r < length (sb_servos b)" using ok live(2) by (auto simp: bus_ok_def less_max_iff_disj)
  have l: "length (status_packet d err params) \<le> kSt3215MaximumFrameSize"
    using frame(1) by (simp add: status_packet_def require_encoded_def encode_packet_success kSt3215MaximumFrameSize_def)
  have rd: "snd (serial_read (sb_transport b) 0 kSt3215MaximumFrameSize) = success (status_packet d err params)"
    using serial_read_head [OF inv port head] l by simp
  have s: "rt_servo (sb_servos ?b1 ! ?r) = rt_servo (sb_servos b ! ?r)"
    using quiet_nth_servo [OF bus_refresh_quiet, of ?r ?b] r by simp
  obtain t where t: "serial_read (sb_transport b) 0 kSt3215MaximumFrameSize = (t, success (status_packet d err params))"
    using rd by (metis prod.collapse)
  let ?b2 = "?b1\<lparr>sb_transport := t\<rparr>"
  have c: "consume_response ?b1 servos ?r now = (?b2, failure protocol ''ST3215 response device ID does not match request'')"
    using frame s by (simp add: consume_response_def t parse_status_packet device_of_def)
  obtain b3 servos3 where la: "latch_fault ?b2 servos ?r (error_flag protocol) now = (b3, servos3)" by fastforce
  have p: "poll_response ?b servos ?r now = (b3, servos3)"
    using c la by (simp add: poll_response_def)
  have f: "sb_fault_latched b3" by (rule latch_fault_quiet(3) [OF la])
  have "\<not> (\<not> sb_running b \<or> sb_servos b = [])" using live by simp
  then have "bus_cycle b servos now k = Some (b3, servos3, k, [])"
    using live(3,4) p f unfolding bus_cycle_def by (simp only: if_not_P if_False) (simp add: Let_def)
  then show ?thesis using f by blast
qed

end
