(* ===== verification/St3215_Registry.thy ===== *)
theory St3215_Registry
  imports St3215_Bus_Claims
begin

text \<open>
  The device registry of \<^verbatim>\<open>src/devices/st3215/servo.cpp\<close>: it groups the configured servos into one bus per serial port,
  starts and stops the buses together, stages whole snapshots of commands and summarises faults for the safety
  supervisor.  The servos of the registry are the store the buses refer to.  The serial transport constructor is
  \<open>create_serial\<close> of \<^verbatim>\<open>src/robot_io/daemon/transport_factory.cpp\<close>.
\<close>

section \<open>Data\<close>

definition kMaximumSt3215Servos :: nat where "kMaximumSt3215Servos = 32"

record serial_port_config =
  sp_path :: string
  sp_baud_rate :: u32
  sp_read_buffer_size :: nat
  sp_maximum_frame_size :: nat
  sp_read_timeout :: int
  sp_write_timeout :: int
  sp_service_period :: int

record servo_profile =
  pf_sensor_name :: string
  pf_actuator_name :: string
  pf_serial :: serial_port_config
  pf_device_id :: u8
  pf_servo_id :: u16
  pf_max_position_units :: u16
  pf_speed_units :: u16
  pf_time_units :: u16
  pf_feedback_timeout_ms :: int
  pf_safety_group :: string
  pf_command_timeout_ms :: int
  pf_maximum_command_future_ms :: int

record bus_entry =
  be_serial :: serial_port_config
  be_bus :: bus

record registry =
  rg_buses :: "bus_entry list"
  rg_servos :: "servo list"
  rg_safety_groups :: "string list"
  rg_scheduler :: "address option"
  rg_configured :: bool
  rg_running :: bool

definition make_registry :: registry where
  "make_registry = \<lparr>rg_buses = [], rg_servos = [], rg_safety_groups = [], rg_scheduler = None, rg_configured = False,
     rg_running = False\<rparr>"

record servo_snapshot =
  sn_sequence :: u64
  sn_timestamp_ns :: int
  sn_axis_count :: u32
  sn_axes :: "servo_command list"

record registry_safety =
  rs_servo_count :: u32
  rs_fault_count :: u32
  rs_fault_mask :: u32
  rs_aggregate_flags :: u32
  rs_flags :: "u32 list"

section \<open>Configuration\<close>

definition create_serial :: "serial_config \<Rightarrow> serial_impl result" where
  "create_serial config =
     (if cfg_path config = [] \<or> cfg_baud_rate config = 0 \<or> cfg_maximum_frame_size config = 0
      then failure invalid_argument ''serial transport requires path, baud rate, and frame size''
      else success (make_serial config))"

fun find_bus :: "bus_entry list \<Rightarrow> string \<Rightarrow> nat \<Rightarrow> nat option" where
  "find_bus [] path i = None"
| "find_bus (e # es) path i = (if sp_path (be_serial e) = path then Some i else find_bus es path (i + 1))"

definition servo_config_of :: "servo_profile \<Rightarrow> servo_config" where
  "servo_config_of p = \<lparr>sc_name = pf_sensor_name p, sc_device_id = pf_device_id p, sc_servo_id = pf_servo_id p,
     sc_max_position_units = pf_max_position_units p, sc_speed_units = pf_speed_units p, sc_time_units = pf_time_units p,
     sc_feedback_timeout_ms = pf_feedback_timeout_ms p, sc_command_timeout_ns = pf_command_timeout_ms p * 1000000,
     sc_maximum_command_future_ns = pf_maximum_command_future_ms p * 1000000\<rparr>"

text \<open>The bus for a profile: the existing one for its port, or a new one.  \<open>addr\<close> gives the address of the n-th transport
  that is allocated.\<close>

definition bus_for ::
  "(nat \<Rightarrow> address) \<Rightarrow> bus_entry list \<Rightarrow> servo_profile \<Rightarrow> (bus_entry list \<times> nat) result" where
  "bus_for addr buses p =
     (let serial = (pf_serial p)\<lparr>sp_read_timeout := 0, sp_write_timeout := 0\<rparr>
      in case find_bus buses (sp_path (pf_serial p)) 0 of
          None \<Rightarrow>
            (case create_serial \<lparr>cfg_path = sp_path serial, cfg_baud_rate = sp_baud_rate serial,
                    cfg_read_buffer_size = sp_read_buffer_size serial, cfg_maximum_frame_size = sp_maximum_frame_size serial,
                    cfg_read_timeout = sp_read_timeout serial, cfg_write_timeout = sp_write_timeout serial\<rparr> of
               Inl e \<Rightarrow> Inl e
             | Inr t \<Rightarrow>
                 success (buses @ [\<lparr>be_serial = serial, be_bus = make_bus t (addr (length buses)) (sp_service_period (pf_serial p))\<rparr>],
                          length buses))
        | Some i \<Rightarrow>
            let s = be_serial (buses ! i)
            in if sp_baud_rate s \<noteq> sp_baud_rate serial \<or> sp_read_buffer_size s \<noteq> sp_read_buffer_size serial
                  \<or> sp_maximum_frame_size s \<noteq> sp_maximum_frame_size serial \<or> sp_service_period s \<noteq> sp_service_period serial
               then failure invalid_argument ''inconsistent ST3215 registry serial configuration''
               else success (buses, i))"

fun configure_servos ::
  "(nat \<Rightarrow> address) \<Rightarrow> servo_profile list \<Rightarrow> bus_entry list \<Rightarrow> servo list \<Rightarrow> string list
     \<Rightarrow> (bus_entry list \<times> servo list \<times> string list) result" where
  "configure_servos addr [] buses servos groups = success (buses, servos, groups)"
| "configure_servos addr (p # ps) buses servos groups =
     (case bus_for addr buses p of
        Inl e \<Rightarrow> Inl e
      | Inr (buses1, i) \<Rightarrow>
          let servos1 = servos @ [make_servo (servo_config_of p)]
          in case add_servo (be_bus (buses1 ! i)) servos1 (Some (length servos)) of
               (_, Inl e) \<Rightarrow> Inl e
             | (b, Inr _) \<Rightarrow>
                 configure_servos addr ps (buses1[i := (buses1 ! i)\<lparr>be_bus := b\<rparr>]) servos1 (groups @ [pf_safety_group p]))"

definition registry_configure :: "(nat \<Rightarrow> address) \<Rightarrow> registry \<Rightarrow> servo_profile list \<Rightarrow> registry \<times> unit result" where
  "registry_configure addr g profiles =
     (if rg_configured g \<or> rg_running g \<or> length profiles > kMaximumSt3215Servos
      then (g, failure invalid_argument ''ST3215 device registry is already configured or oversized'')
      else case configure_servos addr profiles [] [] [] of
             Inl e \<Rightarrow> (g, Inl e)
           | Inr (buses, servos, groups) \<Rightarrow>
               (g\<lparr>rg_buses := buses, rg_servos := servos, rg_safety_groups := groups, rg_configured := True\<rparr>, success ()))"

section \<open>Starting and stopping\<close>

text \<open>Starts the buses from the i-th on; when one fails, those started before are stopped again, the last one first.
  \<open>env\<close> gives the outcome of the system calls and the clock for each bus.\<close>

fun start_buses ::
  "bus_entry list \<Rightarrow> nat \<Rightarrow> bool \<Rightarrow> address \<Rightarrow> (nat \<Rightarrow> open_calls \<times> int) \<Rightarrow> process \<Rightarrow> bus_entry list \<times> process \<times> unit result" where
  "start_buses [] i lock_free scheduler env p = ([], p, success ())"
| "start_buses (e # es) i lock_free scheduler env p =
     (case bus_start (be_bus e) lock_free scheduler (fst (env i)) (snd (env i)) p of
        (b, p1, Inl err) \<Rightarrow> (e\<lparr>be_bus := b\<rparr> # es, p1, Inl err)
      | (b, p1, Inr _) \<Rightarrow>
          (case start_buses es (i + 1) lock_free scheduler env p1 of
             (es', p2, Inr _) \<Rightarrow> (e\<lparr>be_bus := b\<rparr> # es', p2, success ())
           | (es', p2, Inl err) \<Rightarrow>
               let (b', p3) = bus_stop_on b scheduler p2 in (e\<lparr>be_bus := b'\<rparr> # es', p3, Inl err)))"

definition registry_start ::
  "registry \<Rightarrow> bool \<Rightarrow> address \<Rightarrow> (nat \<Rightarrow> open_calls \<times> int) \<Rightarrow> process \<Rightarrow> registry \<times> process \<times> unit result" where
  "registry_start g lock_free scheduler env p =
     (if \<not> rg_configured g \<or> rg_running g \<or> rg_scheduler g \<noteq> None
      then (g, p, failure invalid_argument ''ST3215 registry is not startable'')
      else case start_buses (rg_buses g) 0 lock_free scheduler env p of
             (buses, p', Inl e) \<Rightarrow> (g\<lparr>rg_buses := buses\<rparr>, p', Inl e)
           | (buses, p', Inr _) \<Rightarrow>
               (g\<lparr>rg_buses := buses, rg_scheduler := Some scheduler, rg_running := True\<rparr>, p', success ()))"

text \<open>The loop over the buses in reverse order.\<close>

fun stop_buses :: "(bus \<Rightarrow> process \<Rightarrow> bus \<times> process) \<Rightarrow> bus_entry list \<Rightarrow> process \<Rightarrow> bus_entry list \<times> process" where
  "stop_buses stop [] p = ([], p)"
| "stop_buses stop (e # es) p =
     (let (es', p1) = stop_buses stop es p; (b, p2) = stop (be_bus e) p1 in (e\<lparr>be_bus := b\<rparr> # es', p2))"

definition registry_stop :: "registry \<Rightarrow> process \<Rightarrow> registry \<times> process" where
  "registry_stop g p =
     (let (buses, p') =
            (case rg_scheduler g of
               Some s \<Rightarrow> stop_buses (\<lambda>b. bus_stop_on b s) (rg_buses g) p
             | None \<Rightarrow> stop_buses bus_stop (rg_buses g) p)
      in (g\<lparr>rg_running := False, rg_buses := buses, rg_scheduler := None\<rparr>, p'))"

definition registry_stop_on :: "registry \<Rightarrow> address \<Rightarrow> process \<Rightarrow> registry \<times> process" where
  "registry_stop_on g scheduler p =
     (if rg_scheduler g \<noteq> None \<and> rg_scheduler g \<noteq> Some scheduler then (g, p) else registry_stop g p)"

section \<open>Cycling and staging\<close>

fun cycle_buses ::
  "bus_entry list \<Rightarrow> servo list \<Rightarrow> (int \<times> kernel) list \<Rightarrow> (bus_entry list \<times> servo list \<times> bytes list) option" where
  "cycle_buses [] servos env = Some ([], servos, [])"
| "cycle_buses (e # es) servos [] = None"
| "cycle_buses (e # es) servos ((now_ns, k) # env) =
     (case bus_cycle (be_bus e) servos now_ns k of
        None \<Rightarrow> None
      | Some (b, servos1, _, out) \<Rightarrow>
          map_option (\<lambda>(es', servos', outs). (e\<lparr>be_bus := b\<rparr> # es', servos', out # outs)) (cycle_buses es servos1 env))"

definition registry_cycle :: "registry \<Rightarrow> (int \<times> kernel) list \<Rightarrow> (registry \<times> bytes list) option" where
  "registry_cycle g env =
     (if \<not> rg_running g then Some (g, [])
      else map_option (\<lambda>(buses, servos, outs). (g\<lparr>rg_buses := buses, rg_servos := servos\<rparr>, outs))
             (cycle_buses (rg_buses g) (rg_servos g) env))"

definition registry_stage_command :: "registry \<Rightarrow> nat \<Rightarrow> servo_command \<Rightarrow> int \<Rightarrow> registry \<times> acceptance" where
  "registry_stage_command g i c now_ns =
     (if i \<ge> length (rg_servos g) then (g, rejected)
      else let (s, a) = stage_command (rg_servos g ! i) c now_ns in (g\<lparr>rg_servos := (rg_servos g)[i := s]\<rparr>, a))"

text \<open>Takes all the gates, or none: when one is taken by another thread, those taken before are given back.\<close>

fun lock_servos :: "servo list \<Rightarrow> servo list \<times> bool" where
  "lock_servos [] = ([], True)"
| "lock_servos (s # ss) =
     (case try_lock_command s of
        (s1, False) \<Rightarrow> (s1 # ss, False)
      | (s1, True) \<Rightarrow>
          (case lock_servos ss of
             (ss', True) \<Rightarrow> (s1 # ss', True)
           | (ss', False) \<Rightarrow> (unlock_command s1 # ss', False)))"

definition stage_commands :: "registry \<Rightarrow> servo_snapshot \<Rightarrow> int \<Rightarrow> registry \<times> acceptance" where
  "stage_commands g snapshot now_ns =
     (let servos = rg_servos g; n = length servos; axis = (\<lambda>i. sn_axes snapshot ! i)
      in if unat (sn_axis_count snapshot) \<noteq> n \<or> servos = [] \<or> sn_timestamp_ns snapshot < 0 \<or> sn_timestamp_ns snapshot > now_ns
         then (g, rejected)
         else if \<exists>i \<in> set [0..<n]. vc_sequence (axis i) \<noteq> sn_sequence snapshot \<or> vc_timestamp_ns (axis i) \<noteq> sn_timestamp_ns snapshot
         then (g, rejected)
         else case lock_servos servos of
             (servos1, False) \<Rightarrow> (g\<lparr>rg_servos := servos1\<rparr>, rejected)
           | (servos1, True) \<Rightarrow>
               let first = inspect_command (servos1 ! 0) (axis 0) now_ns;
                   uniform = (first \<noteq> rejected \<and> (\<forall>i \<in> set [1..<n]. inspect_command (servos1 ! i) (axis i) now_ns = first));
                   servos2 = (if uniform \<and> first = accepted
                              then map (\<lambda>i. commit_command (servos1 ! i) (axis i)) [0..<n] else servos1)
               in (g\<lparr>rg_servos := map unlock_command servos2\<rparr>, if uniform then first else rejected))"

definition registry_feedback :: "registry \<Rightarrow> nat \<Rightarrow> int \<Rightarrow> servo_feedback" where
  "registry_feedback g i now_ns =
     (if i \<ge> length (rg_servos g) then initial_servo_feedback else servo_feedback_now (rg_servos g ! i) now_ns)"

definition kFaultFlags :: u32 where
  "kFaultFlags = kSt3215FeedbackStale OR kSt3215FeedbackTimeout OR kSt3215FeedbackIo OR kSt3215FeedbackProtocol
     OR kSt3215FeedbackDeviceError"

definition add_servo_safety :: "int \<Rightarrow> registry_safety \<Rightarrow> nat \<times> servo \<Rightarrow> registry_safety" where
  "add_servo_safety now_ns snapshot x =
     (let v = servo_feedback_now (snd x) now_ns;
          s1 = snapshot\<lparr>rs_flags := (rs_flags snapshot)[fst x := vf_flags v],
                        rs_aggregate_flags := rs_aggregate_flags snapshot OR vf_flags v\<rparr>
      in if vf_flags v AND kFaultFlags \<noteq> 0
         then s1\<lparr>rs_fault_count := rs_fault_count s1 + 1, rs_fault_mask := rs_fault_mask s1 OR push_bit (fst x) 1\<rparr>
         else s1)"

definition safety_snapshot :: "registry \<Rightarrow> int \<Rightarrow> registry_safety" where
  "safety_snapshot g now_ns =
     foldl (add_servo_safety now_ns)
       \<lparr>rs_servo_count = word_of_nat (length (rg_servos g)), rs_fault_count = 0, rs_fault_mask = 0, rs_aggregate_flags = 0,
        rs_flags = replicate kMaximumSt3215Servos 0\<rparr>
       (enumerate 0 (rg_servos g))"

end
