(* ===== verification/Cia402_State.thy ===== *)
theory Cia402_State
  imports Prelude
begin

text \<open>
  The CiA 402 power-drive state machine of \<^verbatim>\<open>src/devices/cia402/state_machine.cpp\<close>: decoding of a
  drive's status word and the control word that answers an axis request.  The lemmas give the bit
  pattern of every state, the exact control-word table, and the edge behaviour of the fault-reset
  latch over any sequence of updates.
\<close>

datatype drive_state =
    not_ready_to_switch_on | switch_on_disabled | ready_to_switch_on | switched_on
  | operation_enabled | quick_stop_active | fault_reaction_active | fault | unknown

datatype axis_request = disable | enable | quick_stop | fault_reset

record cia402_state_output =
  out_state :: drive_state
  out_control_word :: u16

record cia402_state_machine =
  fault_reset_latched :: bool

definition decode :: "u16 \<Rightarrow> drive_state" where
  "decode status_word =
     (let a = status_word AND 0x004F; b = status_word AND 0x006F
      in if a = 0x0000 then not_ready_to_switch_on
         else if a = 0x0040 then switch_on_disabled
         else if a = 0x000F then fault_reaction_active
         else if a = 0x0008 then fault
         else if b = 0x0021 then ready_to_switch_on
         else if b = 0x0023 then switched_on
         else if b = 0x0027 then operation_enabled
         else if b = 0x0007 then quick_stop_active
         else unknown)"

fun enable_control_word :: "drive_state \<Rightarrow> u16" where
  "enable_control_word switch_on_disabled = 0x0006"
| "enable_control_word ready_to_switch_on = 0x0007"
| "enable_control_word switched_on = 0x000F"
| "enable_control_word operation_enabled = 0x000F"
| "enable_control_word quick_stop_active = 0x000F"
| "enable_control_word _ = 0"

definition update ::
  "cia402_state_machine \<Rightarrow> u16 \<Rightarrow> axis_request \<Rightarrow> cia402_state_machine \<times> cia402_state_output" where
  "update sm status_word request =
     (let state = decode status_word;
          latched = (if request \<noteq> fault_reset then False else fault_reset_latched sm)
      in case request of
           disable \<Rightarrow> (sm\<lparr>fault_reset_latched := latched\<rparr>, \<lparr>out_state = state, out_control_word = 0\<rparr>)
         | quick_stop \<Rightarrow>
             (sm\<lparr>fault_reset_latched := latched\<rparr>,
              \<lparr>out_state = state,
               out_control_word =
                 (if state \<in> {ready_to_switch_on, switched_on, operation_enabled, quick_stop_active}
                  then 0x0002 else 0)\<rparr>)
         | fault_reset \<Rightarrow>
             (sm\<lparr>fault_reset_latched := True\<rparr>,
              \<lparr>out_state = state,
               out_control_word = (if \<not> latched \<and> state = fault then 0x0080 else 0)\<rparr>)
         | enable \<Rightarrow>
             (sm\<lparr>fault_reset_latched := latched\<rparr>,
              \<lparr>out_state = state, out_control_word = enable_control_word state\<rparr>))"

section \<open>Decoding\<close>

lemma and_mask_006F: "(w AND 0x006F) AND 0x004F = (w :: u16) AND 0x004F"
  by (simp add: and.assoc)

lemma decode_narrow:
  "w AND 0x006F = c \<Longrightarrow> (w :: u16) AND 0x004F = c AND 0x004F"
  by (metis and_mask_006F)

text \<open>The patterns of the second mask exclude those of the first.\<close>

lemma decode_second_mask:
  fixes w :: u16
  assumes "w AND 0x006F \<in> {0x0021, 0x0023, 0x0027, 0x0007}"
  shows "w AND 0x004F \<notin> {0x0000, 0x0040, 0x000F, 0x0008}"
  using assms decode_narrow [of w] by (elim insertE emptyE) auto

lemma decode_patterns:
  "decode w = not_ready_to_switch_on \<longleftrightarrow> w AND 0x004F = 0x0000"
  "decode w = switch_on_disabled \<longleftrightarrow> w AND 0x004F = 0x0040"
  "decode w = fault_reaction_active \<longleftrightarrow> w AND 0x004F = 0x000F"
  "decode w = fault \<longleftrightarrow> w AND 0x004F = 0x0008"
  "decode w = ready_to_switch_on \<longleftrightarrow> w AND 0x006F = 0x0021"
  "decode w = switched_on \<longleftrightarrow> w AND 0x006F = 0x0023"
  "decode w = operation_enabled \<longleftrightarrow> w AND 0x006F = 0x0027"
  "decode w = quick_stop_active \<longleftrightarrow> w AND 0x006F = 0x0007"
  using decode_second_mask [of w] by (auto simp: decode_def Let_def)

lemma and_or_eq_iff:
  fixes w :: "'a::len word"
  assumes "a AND b = 0" "c AND a = c" "d AND b = d"
  shows "w AND (a OR b) = c OR d \<longleftrightarrow> w AND a = c \<and> w AND b = d"
proof -
  have "bit c n \<longrightarrow> bit a n \<and> \<not> bit b n" "bit d n \<longrightarrow> bit b n \<and> \<not> bit a n" for n
    using arg_cong [OF assms(1), of "\<lambda>x. bit x n"] arg_cong [OF assms(2), of "\<lambda>x. bit x n"]
      arg_cong [OF assms(3), of "\<lambda>x. bit x n"] by (auto simp: bit_and_iff)
  then show ?thesis by (auto simp: bit_eq_iff bit_and_iff bit_or_iff)
qed

lemma and_bit_mask:
  "(w :: u16) AND 0x40 = 0x40 \<longleftrightarrow> bit w 6" "w AND 0x40 = 0 \<longleftrightarrow> \<not> bit w 6"
  "w AND 0x60 = 0x20 \<longleftrightarrow> \<not> bit w 6 \<and> bit w 5" "w AND 0x60 = 0 \<longleftrightarrow> \<not> bit w 6 \<and> \<not> bit w 5"
proof -
  have w: "(w AND push_bit n 1 = (if b then push_bit n 1 else 0)) \<longleftrightarrow> (bit w n = b)"
    if "n < 16" for n b and w :: u16
    using that by (auto simp: bit_eq_iff [where ?'a = u16] bit_simps)
  show "w AND 0x40 = 0x40 \<longleftrightarrow> bit w 6" "w AND 0x40 = 0 \<longleftrightarrow> \<not> bit w 6"
    using w [of 6 w True] w [of 6 w False] by simp_all
  show "w AND 0x60 = 0x20 \<longleftrightarrow> \<not> bit w 6 \<and> bit w 5" "w AND 0x60 = 0 \<longleftrightarrow> \<not> bit w 6 \<and> \<not> bit w 5"
    using w [of 6 w False] w [of 5 w True] w [of 5 w False]
      and_or_eq_iff [of "0x40 :: u16" "0x20" 0 "0x20" w] and_or_eq_iff [of "0x40 :: u16" "0x20" 0 0 w]
    by simp_all
qed

lemma mask_split:
  "(w :: u16) AND 0x4F = 0 \<longleftrightarrow> \<not> bit w 6 \<and> w AND 0xF = 0"
  "w AND 0x4F = 0x40 \<longleftrightarrow> bit w 6 \<and> w AND 0xF = 0"
  "w AND 0x4F = 0x0F \<longleftrightarrow> \<not> bit w 6 \<and> w AND 0xF = 0xF"
  "w AND 0x4F = 0x08 \<longleftrightarrow> \<not> bit w 6 \<and> w AND 0xF = 0x8"
  "w AND 0x6F = 0x21 \<longleftrightarrow> \<not> bit w 6 \<and> bit w 5 \<and> w AND 0xF = 0x1"
  "w AND 0x6F = 0x23 \<longleftrightarrow> \<not> bit w 6 \<and> bit w 5 \<and> w AND 0xF = 0x3"
  "w AND 0x6F = 0x27 \<longleftrightarrow> \<not> bit w 6 \<and> bit w 5 \<and> w AND 0xF = 0x7"
  "w AND 0x6F = 0x07 \<longleftrightarrow> \<not> bit w 6 \<and> \<not> bit w 5 \<and> w AND 0xF = 0x7"
  using and_or_eq_iff [of "0x40 :: u16" "0xF" 0 0 w] and_or_eq_iff [of "0x40 :: u16" "0xF" "0x40" 0 w]
    and_or_eq_iff [of "0x40 :: u16" "0xF" 0 "0xF" w] and_or_eq_iff [of "0x40 :: u16" "0xF" 0 "0x8" w]
    and_or_eq_iff [of "0x60 :: u16" "0xF" "0x20" 1 w] and_or_eq_iff [of "0x60 :: u16" "0xF" "0x20" 3 w]
    and_or_eq_iff [of "0x60 :: u16" "0xF" "0x20" 7 w] and_or_eq_iff [of "0x60 :: u16" "0xF" 0 7 w]
  by (simp_all add: and_bit_mask)

section \<open>Control words\<close>

lemma update_control_word:
  "out_control_word (snd (update sm w r)) =
     (case r of disable \<Rightarrow> 0
      | quick_stop \<Rightarrow> if decode w \<in> {ready_to_switch_on, switched_on, operation_enabled, quick_stop_active}
                      then 2 else 0
      | fault_reset \<Rightarrow> if \<not> fault_reset_latched sm \<and> decode w = fault then 0x80 else 0
      | enable \<Rightarrow> enable_control_word (decode w))"
  by (cases r) (simp_all add: update_def Let_def)

lemma update_latch: "fault_reset_latched (fst (update sm w r)) = (r = fault_reset)"
  by (cases r) (simp_all add: update_def Let_def)

lemma enable_control_word_values: "enable_control_word s \<in> {0, 6, 7, 0xF}"
  by (cases s) simp_all

text \<open>
  A control word that powers the drive towards operation (Shutdown, Switch on or Enable operation)
  is an answer to an enable request only.
\<close>

lemma update_enabling_word:
  assumes "out_control_word (snd (update sm w r)) \<in> {6, 7, 0xF}"
  shows "r = enable"
  using assms by (cases r) (auto simp: update_control_word split: if_splits)

lemma enable_control_word_F:
  "enable_control_word s = 0xF \<longleftrightarrow> s \<in> {switched_on, operation_enabled, quick_stop_active}"
  by (cases s) simp_all

section \<open>The reset edge over runs\<close>

fun update_run :: "cia402_state_machine \<Rightarrow> (u16 \<times> axis_request) list \<Rightarrow> u16 list" where
  "update_run sm [] = []"
| "update_run sm ((w, r) # es) =
     (let (sm', out) = update sm w r in out_control_word out # update_run sm' es)"

text \<open>\<open>reset_edges b rs\<close> counts the rising edges of the reset request in \<open>rs\<close>; \<open>b\<close> says whether the
  request before the first was a reset.\<close>

fun reset_edges :: "bool \<Rightarrow> axis_request list \<Rightarrow> nat" where
  "reset_edges b [] = 0"
| "reset_edges b (r # rs) =
     (if r = fault_reset \<and> \<not> b then 1 else 0) + reset_edges (r = fault_reset) rs"

text \<open>Over any run of the state machine the number of fault-reset pulses (control word
  0x0080) is at most the number of rising edges of the reset request, so holding the request never
  emits a second pulse.\<close>

lemma fault_reset_pulses_bounded:
  "length (filter (\<lambda>c. c = 0x0080) (update_run sm es))
     \<le> reset_edges (fault_reset_latched sm) (map snd es)"
proof (induction es arbitrary: sm)
  case Nil
  then show ?case by simp
next
  case (Cons e es)
  obtain w r where e: "e = (w, r)" by fastforce
  obtain sm' out where u: "update sm w r = (sm', out)" by fastforce
  have c: "out_control_word out = 0x0080 \<Longrightarrow> r = fault_reset \<and> \<not> fault_reset_latched sm"
    using update_control_word [of sm w r] enable_control_word_values [of "decode w"] u
    by (cases r) (auto split: if_splits)
  have "fault_reset_latched sm' = (r = fault_reset)" using update_latch [of sm w r] u by simp
  with Cons.IH [of sm'] c show ?case by (auto simp: e u)
qed

text \<open>The status word decodes to a state exactly when it carries the bit pattern that
  CiA 402 assigns to that state.\<close>

lemma decode_is_cia402:
  "(decode w = not_ready_to_switch_on) = (\<not> bit w 6 \<and> w AND 0xF = 0x0)
 \<and> (decode w = switch_on_disabled) = (bit w 6 \<and> w AND 0xF = 0x0)
 \<and> (decode w = ready_to_switch_on) = (\<not> bit w 6 \<and> bit w 5 \<and> w AND 0xF = 0x1)
 \<and> (decode w = switched_on) = (\<not> bit w 6 \<and> bit w 5 \<and> w AND 0xF = 0x3)
 \<and> (decode w = operation_enabled) = (\<not> bit w 6 \<and> bit w 5 \<and> w AND 0xF = 0x7)
 \<and> (decode w = quick_stop_active) = (\<not> bit w 6 \<and> \<not> bit w 5 \<and> w AND 0xF = 0x7)
 \<and> (decode w = fault_reaction_active) = (\<not> bit w 6 \<and> w AND 0xF = 0xF)
 \<and> (decode w = fault) = (\<not> bit w 6 \<and> w AND 0xF = 0x8)"
  by (simp add: decode_patterns mask_split)

end
