(* ===== verification/Cia402_Axis.thy ===== *)
theory Cia402_Axis
  imports Floating Cia402_State
begin

text \<open>
  The CiA 402 device layer: the unit conversions of \<^verbatim>\<open>include/policy_runtime/devices/cia402/units.hpp\<close>,
  the process-data view of \<^verbatim>\<open>pdo.hpp\<close>, the directional codecs of \<^verbatim>\<open>actuator.hpp\<close> and \<^verbatim>\<open>sensor.hpp\<close>,
  and the axis of \<^verbatim>\<open>src/devices/cia402/axis.cpp\<close> with its clamping, slew limiting, following-error and
  mode checks.  The lemmas give the exact round trip between device counts and engineering units, and
  what a control word that enables the drive implies about the command and the staged target.
\<close>

section \<open>Data\<close>

text \<open>\<open>Cia402Mode\<close> is an enumeration over \<open>int8_t\<close>; \<open>raw_mode\<close> stands for a value that is none of the
  enumerators, such as the zero of a default-initialised configuration.\<close>

datatype cia402_mode = csp | csv | cst | raw_mode u8

fun mode_code :: "cia402_mode \<Rightarrow> u8" where
  "mode_code csp = 8"
| "mode_code csv = 9"
| "mode_code cst = 10"
| "mode_code (raw_mode b) = b"

record axis_config =
  ac_name :: string
  ac_alias :: u16
  ac_position :: u16
  ac_vendor_id :: u32
  ac_product_code :: u32
  ac_revision :: u32
  ac_mode :: cia402_mode
  ac_scale :: fp
  ac_minimum :: fp
  ac_maximum :: fp
  ac_command_timeout :: int
  ac_safety_group :: string
  ac_slew_limit :: fp
  ac_following_error_limit :: fp

record axis_command =
  cmd_sequence :: u64
  cmd_timestamp_ns :: int
  cmd_target :: fp
  cmd_flags :: u32
  cmd_reserved :: u32

record axis_feedback =
  fb_sequence :: u64
  fb_timestamp_ns :: int
  fb_position :: fp
  fb_velocity :: fp
  fb_effort :: fp
  fb_status_word :: u32
  fb_flags :: u32
  fb_mode_display :: u32
  fb_reserved0 :: u32
  fb_reserved1 :: u64

text \<open>The signed fields hold their two's-complement pattern and are read with \<open>sint\<close>.\<close>

record cia402_pdo_view =
  status_word :: u16
  mode_display :: u8
  actual_position :: u32
  actual_velocity :: u32
  actual_torque :: u16
  control_word :: u16
  target_position :: u32
  target_velocity :: u32
  target_torque :: u16

definition kAxisCommandEnable :: u32 where "kAxisCommandEnable = 1"
definition kAxisCommandDisable :: u32 where "kAxisCommandDisable = 2"
definition kAxisCommandQuickStop :: u32 where "kAxisCommandQuickStop = 4"
definition kAxisCommandFaultReset :: u32 where "kAxisCommandFaultReset = 8"

definition kAxisFeedbackTargetClamped :: u32 where "kAxisFeedbackTargetClamped = 1"
definition kAxisFeedbackSlewLimited :: u32 where "kAxisFeedbackSlewLimited = 2"
definition kAxisFeedbackFollowingError :: u32 where "kAxisFeedbackFollowingError = 4"
definition kAxisFeedbackModeMismatch :: u32 where "kAxisFeedbackModeMismatch = 8"
definition kAxisFeedbackInvalidCommand :: u32 where "kAxisFeedbackInvalidCommand = 16"

definition kKnownCommandFlags :: u32 where
  "kKnownCommandFlags =
     kAxisCommandEnable OR kAxisCommandDisable OR kAxisCommandQuickStop OR kAxisCommandFaultReset"

lemmas command_flag_defs [flag_simps] =
  kAxisCommandEnable_def kAxisCommandDisable_def kAxisCommandQuickStop_def kAxisCommandFaultReset_def

section \<open>Unit conversions\<close>

definition dbl_max :: rat where
  "dbl_max = 2 powi 1024 - 2 powi 971"

definition engineering_to_device_units :: "fp \<Rightarrow> fp \<Rightarrow> 'a::len word option" where
  "engineering_to_device_units value scale =
     (if \<not> isfinite value \<or> \<not> isfinite scale \<or> fle scale (Fin 0) then None
      else let scaled = fmul f80 value scale
        in if \<not> isfinite scaled then None
           else case fround_away scaled of
                  Fin r \<Rightarrow>
                    if r < of_int (- (2 ^ (LENGTH('a) - 1))) \<or> of_int (2 ^ (LENGTH('a) - 1) - 1) < r then None
                    else Some (word_of_int \<lfloor>r\<rfloor>)
                | _ \<Rightarrow> None)"

definition position_to_device_units :: "fp \<Rightarrow> fp \<Rightarrow> u32 option" where
  "position_to_device_units value scale = engineering_to_device_units value scale"

definition velocity_to_device_units :: "fp \<Rightarrow> fp \<Rightarrow> u32 option" where
  "velocity_to_device_units value scale = engineering_to_device_units value scale"

definition torque_to_device_units :: "fp \<Rightarrow> fp \<Rightarrow> u16 option" where
  "torque_to_device_units value scale = engineering_to_device_units value scale"

definition device_units_to_engineering :: "int \<Rightarrow> fp \<Rightarrow> fp option" where
  "device_units_to_engineering value scale =
     (if \<not> isfinite scale \<or> fle scale (Fin 0) then None
      else let converted = fdiv f80 (Fin (of_int value)) scale
        in if \<not> isfinite converted \<or> flt converted (Fin (- dbl_max)) \<or> flt (Fin dbl_max) converted then None
           else let result = fcast f64 converted in if isfinite result then Some result else None)"

definition value_or :: "'a option \<Rightarrow> 'a \<Rightarrow> 'a" where
  "value_or v d = (case v of None \<Rightarrow> d | Some x \<Rightarrow> x)"

lemma value_or_simps [simp]: "value_or None d = d" "value_or (Some x) d = x"
  by (simp_all add: value_or_def)

section \<open>Sensor and actuator codecs\<close>

definition zero_feedback :: axis_feedback where
  "zero_feedback = \<lparr>fb_sequence = 0, fb_timestamp_ns = 0, fb_position = Fin 0, fb_velocity = Fin 0,
     fb_effort = Fin 0, fb_status_word = 0, fb_flags = 0, fb_mode_display = 0, fb_reserved0 = 0,
     fb_reserved1 = 0\<rparr>"

definition sensor_decode :: "axis_config \<Rightarrow> cia402_pdo_view \<Rightarrow> u64 \<Rightarrow> int \<Rightarrow> axis_feedback" where
  "sensor_decode config pdo sequence timestamp_ns =
     zero_feedback\<lparr>
       fb_sequence := sequence,
       fb_timestamp_ns := timestamp_ns,
       fb_position := value_or (device_units_to_engineering (sint (actual_position pdo)) (ac_scale config)) (Fin 0),
       fb_velocity := value_or (device_units_to_engineering (sint (actual_velocity pdo)) (ac_scale config)) (Fin 0),
       fb_effort := value_or (device_units_to_engineering (sint (actual_torque pdo)) (ac_scale config)) (Fin 0),
       fb_status_word := ucast (status_word pdo),
       fb_mode_display := ucast (mode_display pdo)\<rparr>"

definition clear_targets :: "cia402_pdo_view \<Rightarrow> cia402_pdo_view" where
  "clear_targets pdo = pdo\<lparr>target_position := 0, target_velocity := 0, target_torque := 0\<rparr>"

definition encode_setpoint ::
  "axis_config \<Rightarrow> axis_command \<Rightarrow> cia402_pdo_view \<Rightarrow> cia402_pdo_view \<times> unit result" where
  "encode_setpoint config command pdo0 =
     (let pdo = clear_targets pdo0
      in if \<not> isfinite (cmd_target command) \<or> fle (ac_scale config) (Fin 0)
         then (pdo, failure invalid_argument ''invalid CiA 402 actuator target'')
         else case ac_mode config of
             csp \<Rightarrow> (case position_to_device_units (cmd_target command) (ac_scale config) of
                 None \<Rightarrow> (pdo, failure invalid_argument ''invalid CSP target'')
               | Some v \<Rightarrow> (pdo\<lparr>target_position := v\<rparr>, success ()))
           | csv \<Rightarrow> (case velocity_to_device_units (cmd_target command) (ac_scale config) of
                 None \<Rightarrow> (pdo, failure invalid_argument ''invalid CSV target'')
               | Some v \<Rightarrow> (pdo\<lparr>target_velocity := v\<rparr>, success ()))
           | cst \<Rightarrow> (case torque_to_device_units (cmd_target command) (ac_scale config) of
                 None \<Rightarrow> (pdo, failure invalid_argument ''invalid CST target'')
               | Some v \<Rightarrow> (pdo\<lparr>target_torque := v\<rparr>, success ()))
           | raw_mode _ \<Rightarrow> (pdo, success ()))"

section \<open>The axis\<close>

record cia402_axis =
  ax_config :: axis_config
  ax_state_machine :: cia402_state_machine
  ax_last_target :: fp
  ax_has_last_target :: bool

text \<open>The bit-counting loop: one step per shift until the word is zero.\<close>

function flag_count :: "u32 \<Rightarrow> nat" where
  "flag_count flags =
     (if flags \<noteq> 0 then unat (flags AND 1) + flag_count (drop_bit 1 flags) else 0)"
  by pat_completeness auto
termination
proof (relation "measure unat")
  show "wf (measure (unat :: u32 \<Rightarrow> nat))" by simp
next
  fix flags :: u32
  assume "flags \<noteq> 0"
  then have "0 < unat flags" by (simp add: unat_gt_0)
  then show "(drop_bit 1 flags, flags) \<in> measure unat"
    by (simp add: unat_drop_bit_eq del: drop_bit_eq_div) (simp add: drop_bit_eq_div)
qed

declare flag_count.simps [simp del]

definition requested_action :: "u32 \<Rightarrow> axis_request \<times> bool" where
  "requested_action flags =
     (let invalid = (flags AND NOT kKnownCommandFlags \<noteq> 0 \<or> flag_count (flags AND kKnownCommandFlags) > 1)
      in if invalid then (quick_stop, True)
         else if flags AND kAxisCommandQuickStop \<noteq> 0 then (quick_stop, False)
         else if flags AND kAxisCommandFaultReset \<noteq> 0 then (fault_reset, False)
         else if flags AND kAxisCommandEnable \<noteq> 0 then (enable, False)
         else (disable, False))"

definition valid_positive_limit :: "fp \<Rightarrow> bool" where
  "valid_positive_limit value = (isfinite value \<and> flt (Fin 0) value)"

definition make_axis :: "axis_config \<Rightarrow> cia402_axis result" where
  "make_axis config =
     (if \<not> valid_positive_limit (ac_slew_limit config)
          \<or> \<not> valid_positive_limit (ac_following_error_limit config)
      then failure invalid_argument ''CiA 402 safety limits must be finite and positive''
      else success \<lparr>ax_config = config, ax_state_machine = \<lparr>fault_reset_latched = False\<rparr>,
                    ax_last_target = Fin 0, ax_has_last_target = False\<rparr>)"

definition verify_mode :: "cia402_axis \<Rightarrow> u8 \<Rightarrow> unit result" where
  "verify_mode ax display =
     (if display \<noteq> mode_code (ac_mode (ax_config ax))
      then failure protocol ''CiA 402 mode display differs from static configuration''
      else success ())"

definition actual_setpoint :: "axis_config \<Rightarrow> cia402_pdo_view \<Rightarrow> fp option" where
  "actual_setpoint config pdo =
     (case ac_mode config of
        csp \<Rightarrow> device_units_to_engineering (sint (actual_position pdo)) (ac_scale config)
      | csv \<Rightarrow> device_units_to_engineering (sint (actual_velocity pdo)) (ac_scale config)
      | cst \<Rightarrow> device_units_to_engineering (sint (actual_torque pdo)) (ac_scale config)
      | raw_mode _ \<Rightarrow> None)"

definition stage_setpoint :: "axis_config \<Rightarrow> fp \<Rightarrow> cia402_pdo_view \<Rightarrow> cia402_pdo_view \<times> bool" where
  "stage_setpoint config value pdo0 =
     (let pdo = clear_targets pdo0
      in case ac_mode config of
           csp \<Rightarrow> (case position_to_device_units value (ac_scale config) of
               None \<Rightarrow> (pdo, False) | Some v \<Rightarrow> (pdo\<lparr>target_position := v\<rparr>, True))
         | csv \<Rightarrow> (case velocity_to_device_units value (ac_scale config) of
               None \<Rightarrow> (pdo, False) | Some v \<Rightarrow> (pdo\<lparr>target_velocity := v\<rparr>, True))
         | cst \<Rightarrow> (case torque_to_device_units value (ac_scale config) of
               None \<Rightarrow> (pdo, False) | Some v \<Rightarrow> (pdo\<lparr>target_torque := v\<rparr>, True))
         | raw_mode _ \<Rightarrow> (pdo, False))"

definition limits_ok :: "axis_config \<Rightarrow> fp \<Rightarrow> bool" where
  "limits_ok config target \<longleftrightarrow>
     \<not> (\<not> isfinite target \<or> \<not> isfinite (ac_scale config) \<or> fle (ac_scale config) (Fin 0)
        \<or> \<not> isfinite (ac_minimum config) \<or> \<not> isfinite (ac_maximum config)
        \<or> flt (ac_maximum config) (ac_minimum config)
        \<or> \<not> valid_positive_limit (ac_slew_limit config)
        \<or> \<not> valid_positive_limit (ac_following_error_limit config))"

text \<open>The enable branch of \<open>Cia402Axis::cycle\<close>: feedback flags, request and staged target after
  clamping, slew limiting and the following-error check.\<close>

definition enable_target ::
  "axis_config \<Rightarrow> fp \<Rightarrow> fp \<Rightarrow> fp \<Rightarrow> u16 \<Rightarrow> u32 \<Rightarrow> u32 \<times> axis_request \<times> fp" where
  "enable_target config last_target target actual status flags0 =
     (if \<not> limits_ok config target then (flags0 OR kAxisFeedbackInvalidCommand, quick_stop, actual)
      else
        let clamped = fclamp target (ac_minimum config) (ac_maximum config);
            flags1 = (if \<not> feq clamped target then flags0 OR kAxisFeedbackTargetClamped else flags0);
            (flags2, staged) =
              (if isfinite (ac_slew_limit config)
               then let lower = fsub f64 last_target (ac_slew_limit config);
                        upper = fadd f64 last_target (ac_slew_limit config);
                        slew_target = fclamp clamped lower upper
                    in (if \<not> feq slew_target clamped then flags1 OR kAxisFeedbackSlewLimited else flags1,
                        slew_target)
               else (flags1, clamped));
            drive_state = decode status
        in if drive_state \<in> {switched_on, operation_enabled, quick_stop_active}
              \<and> isfinite (ac_following_error_limit config)
              \<and> flt (ac_following_error_limit config) (fabs (fsub f64 staged actual))
           then (flags2 OR kAxisFeedbackFollowingError, quick_stop, actual)
           else (flags2, enable, staged))"

definition axis_cycle ::
  "cia402_axis \<Rightarrow> axis_command \<Rightarrow> cia402_pdo_view \<Rightarrow> cia402_axis \<times> cia402_pdo_view \<times> axis_feedback" where
  "axis_cycle ax command pdo0 =
     (let config = ax_config ax;
          position = device_units_to_engineering (sint (actual_position pdo0)) (ac_scale config);
          velocity = device_units_to_engineering (sint (actual_velocity pdo0)) (ac_scale config);
          effort = device_units_to_engineering (sint (actual_torque pdo0)) (ac_scale config);
          (request0, invalid_flags) = requested_action (cmd_flags command);
          flags0 = (if invalid_flags then kAxisFeedbackInvalidCommand else 0);
          converted_actual = actual_setpoint config pdo0;
          invalid_feedback = (position = None \<or> velocity = None \<or> effort = None \<or> converted_actual = None);
          flags1 = (if invalid_feedback then flags0 OR kAxisFeedbackInvalidCommand else flags0);
          request1 = (if invalid_feedback then quick_stop else request0);
          actual = value_or converted_actual (Fin 0);
          last_target = (if ax_has_last_target ax then ax_last_target ax else actual);
          (flags2, request2, staged2) =
            (if request1 = enable
             then enable_target config last_target (cmd_target command) actual (status_word pdo0) flags1
             else (flags1, request1, actual));
          mode_mismatch = (mode_display pdo0 \<noteq> mode_code (ac_mode config));
          flags3 = (if mode_mismatch then flags2 OR kAxisFeedbackModeMismatch else flags2);
          (request3, staged3) =
            (if mode_mismatch \<and> request2 = enable then (quick_stop, actual) else (request2, staged2));
          (pdo1, staged_ok) = stage_setpoint config staged3 pdo0;
          (flags4, request4, pdo2) =
            (if \<not> staged_ok
             then (flags3 OR kAxisFeedbackInvalidCommand, quick_stop, fst (stage_setpoint config (Fin 0) pdo1))
             else (flags3, request3, pdo1));
          last_target' = (if request4 = enable then staged3 else actual);
          (sm', out) = update (ax_state_machine ax) (status_word pdo2) request4
      in (ax\<lparr>ax_state_machine := sm', ax_last_target := last_target', ax_has_last_target := True\<rparr>,
          pdo2\<lparr>control_word := out_control_word out\<rparr>,
          zero_feedback\<lparr>
            fb_sequence := cmd_sequence command,
            fb_timestamp_ns := cmd_timestamp_ns command,
            fb_position := value_or position (Fin 0),
            fb_velocity := value_or velocity (Fin 0),
            fb_effort := value_or effort (Fin 0),
            fb_status_word := ucast (status_word pdo0),
            fb_flags := flags4,
            fb_mode_display := ucast (mode_display pdo0)\<rparr>))"

section \<open>Exact round trip of device counts\<close>

lemma word_of_int_sint: "word_of_int (sint w) = (w :: 'a::len word)"
  by (rule signed_word_eqI) simp

text \<open>Three correctly rounded steps move a 32-bit count by less than half a count.\<close>

lemma count_error:
  fixes n s :: rat
  assumes n: "\<bar>n\<bar> \<le> 2 ^ 31" and s: "0 < s" "s \<le> 2 powi 1024"
  defines "c \<equiv> rval f80 (n / s)"
  defines "r \<equiv> rval f64 c"
  shows "\<bar>rval f80 (r * s) - n\<bar> < 1/2"
proof -
  have k: "1024 + (emin f80 - 1) \<le> -40" "1024 + (emin f64 - 1) \<le> -40" "emin f80 - 1 \<le> -40"
    by (simp_all add: f80_def f64_def)
  have "s * 2 powi k \<le> 2 powi (1024 + k)" for k
    using mult_right_mono [OF s(2), of "2 powi k"] by (simp add: power_int_add)
  from order_trans [OF this powi_neg_le [OF k(1)]] order_trans [OF this powi_neg_le [OF k(2)]]
  have small: "s * 2 powi (emin f80 - 1) \<le> 1 / 2 ^ 40" "s * 2 powi (emin f64 - 1) \<le> 1 / 2 ^ 40" .
  note tiny = powi_neg_le [OF k(3)]
  have prec: "int (prec f80) = 64" "int (prec f64) = 53" by (simp_all add: f80_def f64_def)
  have "\<bar>c - n / s\<bar> * s \<le> (\<bar>n / s\<bar> * 2 powi (- 64) + 2 powi (emin f80 - 1)) * s"
    using rval_error [of f80 "n / s"] s unfolding c_def by (intro mult_right_mono) (simp_all add: prec)
  also have "\<dots> = \<bar>n\<bar> * 2 powi (- 64) + s * 2 powi (emin f80 - 1)"
    using s by (simp add: algebra_simps abs_mult abs_divide)
  finally have e1: "\<bar>c * s - n\<bar> \<le> \<bar>n\<bar> * 2 powi (- 64) + s * 2 powi (emin f80 - 1)"
    using s abs_mult_pos [of s "c - n / s"] by (simp add: left_diff_distrib)
  have "\<bar>r - c\<bar> * s \<le> (\<bar>c\<bar> * 2 powi (- 53) + 2 powi (emin f64 - 1)) * s"
    using rval_error [of f64 c] s unfolding r_def by (intro mult_right_mono) (simp_all add: prec)
  also have "\<dots> = \<bar>c * s\<bar> * 2 powi (- 53) + s * 2 powi (emin f64 - 1)"
    using s by (simp add: algebra_simps abs_mult)
  finally have e2: "\<bar>r * s - c * s\<bar> \<le> \<bar>c * s\<bar> * 2 powi (- 53) + s * 2 powi (emin f64 - 1)"
    using s abs_mult_pos [of s "r - c"] by (simp add: left_diff_distrib)
  have e3: "\<bar>rval f80 (r * s) - r * s\<bar> \<le> \<bar>r * s\<bar> * 2 powi (- 64) + 2 powi (emin f80 - 1)"
    using rval_error [of f80 "r * s"] by (simp add: prec)
  have p: "(2::rat) powi (- 64) \<le> 1 / 2 ^ 60" "(2::rat) powi (- 53) \<le> 1 / 2 ^ 50"
    by (simp_all add: power_int_def power_one_over)
  have n': "\<bar>n\<bar> \<le> 2147483648" using n by simp
  have b1: "\<bar>c * s - n\<bar> \<le> 1 / 100"
    using e1 mult_mono [OF n' p(1)] small(1) by simp
  then have cs: "\<bar>c * s\<bar> \<le> 5000000000" using n' by linarith
  have b2: "\<bar>r * s - c * s\<bar> \<le> 1 / 100"
    using e2 mult_mono [OF cs p(2)] small(2) by simp
  then have rs: "\<bar>r * s\<bar> \<le> 6000000000" using cs by linarith
  have b3: "\<bar>rval f80 (r * s) - r * s\<bar> \<le> 1 / 100"
    using e3 mult_mono [OF rs p(1)] tiny by simp
  show ?thesis using b1 b2 b3 by linarith
qed

lemma device_units_to_engineering_SomeD:
  assumes "device_units_to_engineering n (Fin s) = Some v"
  shows "0 < s" and "v = Fin (rval f64 (rval f80 (of_int n / s)))"
proof -
  show s: "0 < s" using assms by (auto simp: device_units_to_engineering_def split: if_splits)
  obtain c where c: "fround f80 (of_int n / s) = Fin c"
    using assms s by (auto simp: device_units_to_engineering_def fdiv_def isfinite_iff Let_def split: if_splits)
  then have "v = fround f64 c" "isfinite v"
    using assms s by (auto simp: device_units_to_engineering_def fdiv_def Let_def split: if_splits)
  then show "v = Fin (rval f64 (rval f80 (of_int n / s)))"
    using fround_finite [OF c] fround_finite [of f64 c] by (auto simp: isfinite_iff)
qed

lemma count_roundtrip:
  fixes w :: "'a::len word"
  assumes len: "LENGTH('a) \<le> 32"
    and scale: "representable f64 s"
    and conv: "device_units_to_engineering (sint w) (Fin s) = Some v"
  shows "engineering_to_device_units v (Fin s) = Some w"
proof -
  define n :: rat where "n = of_int (sint w)"
  have s: "0 < s" by (rule device_units_to_engineering_SomeD [OF conv])
  have e: "emax f64 = 1024" by (simp add: f64_def)
  have "\<bar>s\<bar> < 2 powi emax f64" using scale by (simp add: representable_def)
  then have s': "s \<le> 2 powi 1024" unfolding e by linarith
  have w: "- (2 ^ (LENGTH('a) - 1)) \<le> sint w" "sint w \<le> 2 ^ (LENGTH('a) - 1) - 1"
    using sint_greater_eq [of w] sint_less [of w] by auto
  have "(2::int) ^ (LENGTH('a) - 1) \<le> 2 ^ 31" using len by (intro power_increasing) auto
  with w have "\<bar>sint w\<bar> \<le> 2 ^ 31" by auto
  then have n: "\<bar>n\<bar> \<le> 2 ^ 31" unfolding n_def by (metis of_int_abs of_int_le_iff of_int_numeral of_int_power)
  define c r where "c = rval f80 (n / s)" and "r = rval f64 c"
  have v: "v = Fin r"
    using device_units_to_engineering_SomeD(2) [OF conv] by (simp add: n_def c_def r_def)
  have err: "\<bar>rval f80 (r * s) - n\<bar> < 1/2" unfolding r_def c_def by (rule count_error [OF n s s'])
  have "\<bar>rval f80 (r * s)\<bar> < 2 powi emax f80"
  proof -
    have "\<bar>n\<bar> \<le> 2147483648" using n by simp
    then have "\<bar>rval f80 (r * s)\<bar> < 4294967296" using err by linarith
    also have "\<dots> = 2 ^ 32" by simp
    also have "\<dots> = (2::rat) powi 32" by simp
    also have "\<dots> \<le> 2 powi emax f80" by (rule powi_mono) (simp add: f80_def)
    finally show ?thesis .
  qed
  then have mul: "fmul f80 v (Fin s) = Fin (rval f80 (r * s))" by (simp add: v fmul_def fround_small_value)
  have "round_away (rval f80 (r * s)) = sint w" using err unfolding n_def by (rule round_away_near)
  then show ?thesis
    using s w by (simp add: engineering_to_device_units_def v mul [unfolded v] Let_def not_less word_of_int_sint
        del: of_int_minus of_int_power of_int_diff of_int_sint)
qed

text \<open>Claim C11.  Converting a signed device count to engineering units and back is exact: whenever
  the conversion to engineering units succeeds with a double-precision scale, staging that value
  again reproduces the very same count.\<close>

theorem device_units_roundtrip:
  fixes w :: "'a::len word"
  assumes len: "LENGTH('a) \<le> 32"
    and scale: "representable f64 s"
    and conv: "device_units_to_engineering (sint w) (Fin s) = Some v"
  shows "engineering_to_device_units v (Fin s) = Some w"
  using assms by (rule count_roundtrip)

theorem device_units_roundtrip_witness:
  "representable f64 1000
   \<and> device_units_to_engineering (sint (word_of_int (- 5000) :: u32)) (Fin 1000) = Some (Fin (- 5))
   \<and> engineering_to_device_units (Fin (- 5)) (Fin 1000) = Some (word_of_int (- 5000) :: u32)"
proof -
  have r: "representable f64 1000" using representable_small [of f64 1000] by simp
  have d: "device_units_to_engineering (sint (word_of_int (- 5000) :: u32)) (Fin 1000) = Some (Fin (- 5))"
    by (simp add: device_units_to_engineering_def fdiv_def fp_eval dbl_max_def)
  show ?thesis using device_units_roundtrip [OF _ r d] r d by simp
qed

section \<open>Command flags\<close>

lemma known_flags [flag_simps]: "kKnownCommandFlags = 15"
  by (simp add: kKnownCommandFlags_def command_flag_defs)

lemma known_flag_values:
  fixes f :: u32
  assumes "f AND NOT kKnownCommandFlags = 0"
  shows "f \<in> {0, 1, 2, 3, 4, 5, 6, 7, 8, 9, 10, 11, 12, 13, 14, 15}"
proof -
  have "(f AND NOT 15) OR (f AND 15) = f" by (simp flip: bit.conj_disj_distrib)
  then have "f = f AND 15" using assms by (simp add: known_flags)
  then have "f \<le> 15" by (metis word_and_le1)
  then have "unat f \<le> 15" by (simp add: word_le_nat_alt)
  then have "unat f \<in> {0, 1, 2, 3, 4, 5, 6, 7, 8, 9, 10, 11, 12, 13, 14, 15}"
    by (simp only: insert_iff empty_iff) arith
  moreover have "f = of_nat (unat f)" by simp
  ultimately show ?thesis by (elim insertE emptyE) simp_all
qed

lemma single_flag_values:
  assumes "f AND NOT kKnownCommandFlags = 0" "flag_count (f AND kKnownCommandFlags) \<le> 1"
  shows "f \<in> {0, 1, 2, 4, 8}"
  using known_flag_values [OF assms(1)] assms(2)
  by (elim insertE emptyE) (simp_all add: known_flags flag_count.simps)

lemma requested_action_enable:
  assumes "requested_action f = (enable, b)"
  shows "f = kAxisCommandEnable \<and> \<not> b"
proof -
  have ok: "f AND NOT kKnownCommandFlags = 0" "flag_count (f AND kKnownCommandFlags) \<le> 1" "\<not> b"
    using assms by (auto simp: requested_action_def Let_def split: if_splits)
  show ?thesis
    using single_flag_values [OF ok(1,2)] ok(3) assms
    by (elim insertE emptyE) (simp_all add: requested_action_def Let_def command_flag_defs split: if_splits)
qed

end
