(* ===== verification/Cia402_Control.thy ===== *)
theory Cia402_Control
  imports Cia402_Axis
begin

text \<open>
  What one cycle of a CiA 402 axis guarantees: when the control word may power the drive, how the
  staged target relates to the command, the limits and the previous target, that every other cycle
  holds the measured position exactly, and that the axis agrees with the directional sensor and
  actuator codecs.
\<close>

section \<open>The enable branch\<close>

lemma limits_okD:
  assumes "limits_ok config t"
  obtains tv mn mx sl fe sc where
    "t = Fin tv" "ac_minimum config = Fin mn" "ac_maximum config = Fin mx" "mn \<le> mx"
    "ac_slew_limit config = Fin sl" "0 < sl" "ac_following_error_limit config = Fin fe" "0 < fe"
    "ac_scale config = Fin sc" "0 < sc"
  using assms by (auto simp: limits_ok_def valid_positive_limit_def isfinite_iff)

text \<open>The slew window around a finite previous target contains that target and is never a NaN.\<close>

lemma slew_window:
  assumes "representable f64 l" "0 \<le> d"
  shows "fle (fround f64 (l - d)) (Fin l)" "fle (Fin l) (fround f64 (l + d))"
  using r64.rnd_mono [of "l - d" l] r64.rnd_mono [of l "l + d"] assms by (simp_all add: fround_representable)

lemma fclamp_between:
  assumes "fle lo (Fin l)" "fle (Fin l) hi" "lo \<noteq> NaN" "hi \<noteq> NaN" "mn \<le> c" "c \<le> mx" "mn \<le> l" "l \<le> mx"
  shows "\<exists>v. fclamp (Fin c) lo hi = Fin v \<and> mn \<le> v \<and> v \<le> mx"
  using assms by (cases lo; cases hi) (auto simp: fclamp_def fle_def feq_def)

lemma fclamp_finite:
  assumes "fle lo (Fin l)" "fle (Fin l) hi"
  shows "isfinite (fclamp (Fin c) lo hi)"
  using assms by (cases lo; cases hi) (auto simp: fclamp_def fle_def feq_def)

text \<open>When the branch keeps the enable request, its target is the command clamped to the limits and
  to the slew window, and is close enough to the measured value on an active drive.\<close>

lemma enable_target_enable:
  assumes "enable_target config last_target target actual status flags = (flags', enable, staged)"
  shows "limits_ok config target"
    and "staged = fclamp (fclamp target (ac_minimum config) (ac_maximum config))
                    (fsub f64 last_target (ac_slew_limit config)) (fadd f64 last_target (ac_slew_limit config))"
    and "decode status \<in> {switched_on, operation_enabled, quick_stop_active} \<Longrightarrow>
           \<not> flt (ac_following_error_limit config) (fabs (fsub f64 staged actual))"
proof -
  show ok: "limits_ok config target"
    using assms by (auto simp: enable_target_def split: if_splits)
  have fin: "isfinite (ac_slew_limit config)" "isfinite (ac_following_error_limit config)"
    using ok by (auto simp: limits_ok_def valid_positive_limit_def)
  show "staged = fclamp (fclamp target (ac_minimum config) (ac_maximum config))
                    (fsub f64 last_target (ac_slew_limit config)) (fadd f64 last_target (ac_slew_limit config))"
    and "decode status \<in> {switched_on, operation_enabled, quick_stop_active} \<Longrightarrow>
           \<not> flt (ac_following_error_limit config) (fabs (fsub f64 staged actual))"
    using assms ok fin by (auto simp: enable_target_def Let_def split: if_splits)
qed

lemma enable_target_request:
  assumes "enable_target config last_target target actual status flags = (flags', request, staged)"
  shows "request = enable \<or> request = quick_stop \<and> staged = actual"
  using assms by (auto simp: enable_target_def Let_def split: if_splits)

section \<open>One cycle\<close>

definition known_mode :: "cia402_mode \<Rightarrow> bool" where
  "known_mode m \<longleftrightarrow> m \<in> {csp, csv, cst}"

definition axis_actual :: "cia402_axis \<Rightarrow> cia402_pdo_view \<Rightarrow> fp" where
  "axis_actual ax pdo = value_or (actual_setpoint (ax_config ax) pdo) (Fin 0)"

definition axis_reference :: "cia402_axis \<Rightarrow> cia402_pdo_view \<Rightarrow> fp" where
  "axis_reference ax pdo = (if ax_has_last_target ax then ax_last_target ax else axis_actual ax pdo)"

lemma stage_setpoint_frame:
  assumes "stage_setpoint config v pdo = (pdo', ok)"
  shows "status_word pdo' = status_word pdo" "mode_display pdo' = mode_display pdo"
    "actual_position pdo' = actual_position pdo" "actual_velocity pdo' = actual_velocity pdo"
    "actual_torque pdo' = actual_torque pdo" "control_word pdo' = control_word pdo"
  using assms
  by (auto simp: stage_setpoint_def clear_targets_def Let_def split: cia402_mode.splits option.splits)

text \<open>A set point that cannot be converted leaves the targets cleared, and so does the zero written in its place.\<close>

lemma zero_to_device_units: "engineering_to_device_units (Fin 0) s = Some w \<Longrightarrow> w = 0"
  by (cases s) (auto simp: engineering_to_device_units_def fmul_def Let_def split: if_splits fp.splits)

lemma stage_setpoint_failed: "stage_setpoint config v pdo = (pdo', False) \<Longrightarrow> pdo' = clear_targets pdo"
  by (auto simp: stage_setpoint_def Let_def split: cia402_mode.splits option.splits)

lemma stage_zero: "fst (stage_setpoint config (Fin 0) (clear_targets pdo)) = clear_targets pdo"
  by (auto simp: stage_setpoint_def clear_targets_def position_to_device_units_def velocity_to_device_units_def
      torque_to_device_units_def Let_def dest: zero_to_device_units split: cia402_mode.splits option.splits)

lemma or_and_absorb: "(x OR y) AND y = (y :: 'a::len word)"
  by (rule bit_eqI) (auto simp: bit_simps)

text \<open>The request that reaches the state machine, the target that was staged with it and what was written.\<close>

lemma axis_cycle_cases:
  assumes "axis_cycle ax command pdo = (ax', pdo', fb)"
  obtains request staged where
    "control_word pdo' = out_control_word (snd (update (ax_state_machine ax) (status_word pdo) request))"
    "ax_last_target ax' = (if request = enable then staged else axis_actual ax pdo)"
    "ax_config ax' = ax_config ax" "ax_has_last_target ax'"
    "request = enable \<Longrightarrow>
       requested_action (cmd_flags command) = (enable, False) \<and> actual_setpoint (ax_config ax) pdo \<noteq> None
       \<and> mode_display pdo = mode_code (ac_mode (ax_config ax))
       \<and> (\<exists>f f'. enable_target (ax_config ax) (axis_reference ax pdo) (cmd_target command)
                   (axis_actual ax pdo) (status_word pdo) f = (f', enable, staged))
       \<and> stage_setpoint (ax_config ax) staged pdo = (pdo'\<lparr>control_word := control_word pdo\<rparr>, True)"
    "fst (requested_action (cmd_flags command)) \<noteq> enable \<Longrightarrow> request \<noteq> enable \<and>
       (\<forall>p. stage_setpoint (ax_config ax) (axis_actual ax pdo) pdo = (p, True) \<longrightarrow>
            pdo' = p\<lparr>control_word := control_word pdo'\<rparr>)"
    "pdo'\<lparr>control_word := control_word pdo\<rparr> = fst (stage_setpoint (ax_config ax) (ax_last_target ax') pdo)
     \<or> request \<noteq> enable \<and> fb_flags fb AND kAxisFeedbackInvalidCommand \<noteq> 0
       \<and> pdo'\<lparr>control_word := control_word pdo\<rparr> = clear_targets pdo"
proof -
  let ?c = "ax_config ax" and ?sm = "ax_state_machine ax" and ?a = "axis_actual ax pdo"
  obtain r0 inv where ra: "requested_action (cmd_flags command) = (r0, inv)" by fastforce
  define bad where "bad \<longleftrightarrow> device_units_to_engineering (sint (actual_position pdo)) (ac_scale ?c) = None
    \<or> device_units_to_engineering (sint (actual_velocity pdo)) (ac_scale ?c) = None
    \<or> device_units_to_engineering (sint (actual_torque pdo)) (ac_scale ?c) = None
    \<or> actual_setpoint ?c pdo = None"
  define r1 where "r1 = (if bad then quick_stop else r0)"
  define f1 where "f1 = (let f0 = (if inv then kAxisFeedbackInvalidCommand else 0)
    in if bad then f0 OR kAxisFeedbackInvalidCommand else f0)"
  obtain f2 r2 s2 where e: "(if r1 = enable then enable_target ?c (axis_reference ax pdo) (cmd_target command) ?a
      (status_word pdo) f1 else (f1, r1, ?a)) = (f2, r2, s2)" by (metis prod_cases3)
  define mm where "mm \<longleftrightarrow> mode_display pdo \<noteq> mode_code (ac_mode ?c)"
  obtain r3 s3 where m: "(if mm \<and> r2 = enable then (quick_stop, ?a) else (r2, s2)) = (r3, s3)" by fastforce
  obtain p1 ok where st: "stage_setpoint ?c s3 pdo = (p1, ok)" by fastforce
  define r4 where "r4 = (if ok then r3 else quick_stop)"
  define p2 where "p2 = (if ok then p1 else fst (stage_setpoint ?c (Fin 0) p1))"
  have sw: "status_word p2 = status_word pdo"
    using stage_setpoint_frame(1) [OF st] stage_setpoint_frame(1) [of ?c "Fin 0" p1]
    by (auto simp: p2_def) (metis prod.collapse)
  have res: "ax' = ax\<lparr>ax_state_machine := fst (update ?sm (status_word pdo) r4),
      ax_last_target := (if r4 = enable then s3 else ?a), ax_has_last_target := True\<rparr>"
    "pdo' = p2\<lparr>control_word := out_control_word (snd (update ?sm (status_word pdo) r4))\<rparr>"
    "\<not> ok \<Longrightarrow> fb_flags fb AND kAxisFeedbackInvalidCommand = kAxisFeedbackInvalidCommand"
    using assms sw
    unfolding axis_cycle_def Let_def ra prod.case bad_def [symmetric] axis_actual_def [symmetric]
      axis_reference_def [symmetric] f1_def [unfolded Let_def, symmetric] r1_def [symmetric] e
      mm_def [symmetric] m st
    by (auto simp: r4_def p2_def or_and_absorb split: prod.splits if_splits)
  show thesis
  proof (rule that)
    show "control_word pdo' = out_control_word (snd (update ?sm (status_word pdo) r4))" by (simp add: res)
    show "ax_last_target ax' = (if r4 = enable then s3 else ?a)" "ax_config ax' = ?c" "ax_has_last_target ax'"
      by (simp_all add: res)
  next
    assume "r4 = enable"
    then have ok: ok and r3: "r3 = enable" by (auto simp: r4_def split: if_splits)
    with m have r2: "r2 = enable" "\<not> mm" "s2 = s3" by (auto split: if_splits)
    with e have r1: "r1 = enable" by (auto split: if_splits)
    then have "\<not> bad" "r0 = enable" by (auto simp: r1_def split: if_splits)
    then show "requested_action (cmd_flags command) = (enable, False) \<and> actual_setpoint ?c pdo \<noteq> None
       \<and> mode_display pdo = mode_code (ac_mode ?c)
       \<and> (\<exists>f f'. enable_target ?c (axis_reference ax pdo) (cmd_target command) ?a (status_word pdo) f
              = (f', enable, s3))
       \<and> stage_setpoint ?c s3 pdo = (pdo'\<lparr>control_word := control_word pdo\<rparr>, True)"
      using e r1 r2 ok ra requested_action_enable [of "cmd_flags command" inv] st stage_setpoint_frame(6) [OF st]
      by (auto simp: mm_def bad_def res p2_def)
  next
    assume n: "fst (requested_action (cmd_flags command)) \<noteq> enable"
    then have "r1 \<noteq> enable" using ra by (simp add: r1_def)
    then have "r2 \<noteq> enable" "s2 = ?a" using e by auto
    then have "r3 \<noteq> enable" "s3 = ?a" using m by auto
    then show "r4 \<noteq> enable \<and> (\<forall>p. stage_setpoint ?c ?a pdo = (p, True) \<longrightarrow>
        pdo' = p\<lparr>control_word := control_word pdo'\<rparr>)"
      using st by (auto simp: r4_def res p2_def)
  next
    show "pdo'\<lparr>control_word := control_word pdo\<rparr> = fst (stage_setpoint ?c (ax_last_target ax') pdo)
     \<or> r4 \<noteq> enable \<and> fb_flags fb AND kAxisFeedbackInvalidCommand \<noteq> 0 \<and> pdo'\<lparr>control_word := control_word pdo\<rparr> = clear_targets pdo"
    proof (cases ok)
      case True
      have "r2 = enable \<or> s2 = ?a" using e enable_target_request [of ?c _ _ ?a _ f1 f2 r2 s2] by (auto split: if_splits)
      then have "r3 = enable \<or> s3 = ?a" using m by (auto split: if_splits)
      then have "ax_last_target ax' = s3" using True by (auto simp: res r4_def)
      then show ?thesis using True st stage_setpoint_frame(6) [OF st] by (simp add: res p2_def)
    next
      case False
      then have "p1 = clear_targets pdo" using st stage_setpoint_failed by simp
      then have "p2 = clear_targets pdo" using False by (simp add: p2_def stage_zero)
      then show ?thesis using False res(3) by (simp add: res r4_def clear_targets_def kAxisFeedbackInvalidCommand_def)
    qed
  qed
qed

section \<open>Guarantees of a cycle\<close>

text \<open>Claim C10.  If one axis cycle answers with a control word that moves the drive towards operation
  (Shutdown 6, Switch on 7 or Enable operation 0xF), then the command carried exactly the enable flag
  with a finite target, the drive displays the configured mode, and the target written to the process
  data is the command clamped first to the configured range and then to the slew window around the
  previous target.  When the drive already is switched on, operation enabled or in quick stop, that target is
  no further from the measured value than the following-error limit; in the other states the code does not
  compare them.\<close>

theorem enabling_control_word_safe:
  assumes cyc: "axis_cycle ax command pdo = (ax', pdo', fb)"
    and word: "control_word pdo' \<in> {6, 7, 0xF}"
  shows "cmd_flags command = kAxisCommandEnable \<and> isfinite (cmd_target command)
    \<and> mode_display pdo = mode_code (ac_mode (ax_config ax))
    \<and> ax_last_target ax' =
        fclamp (fclamp (cmd_target command) (ac_minimum (ax_config ax)) (ac_maximum (ax_config ax)))
          (fsub f64 (axis_reference ax pdo) (ac_slew_limit (ax_config ax)))
          (fadd f64 (axis_reference ax pdo) (ac_slew_limit (ax_config ax)))
    \<and> (decode (status_word pdo) \<in> {switched_on, operation_enabled, quick_stop_active} \<longrightarrow>
        \<not> flt (ac_following_error_limit (ax_config ax))
              (fabs (fsub f64 (ax_last_target ax') (axis_actual ax pdo))))
    \<and> stage_setpoint (ax_config ax) (ax_last_target ax') pdo = (pdo'\<lparr>control_word := control_word pdo\<rparr>, True)"
proof -
  obtain request staged where
    cw: "control_word pdo' = out_control_word (snd (update (ax_state_machine ax) (status_word pdo) request))"
    and last: "ax_last_target ax' = (if request = enable then staged else axis_actual ax pdo)"
    and en: "request = enable \<Longrightarrow>
       requested_action (cmd_flags command) = (enable, False) \<and> actual_setpoint (ax_config ax) pdo \<noteq> None
       \<and> mode_display pdo = mode_code (ac_mode (ax_config ax))
       \<and> (\<exists>f f'. enable_target (ax_config ax) (axis_reference ax pdo) (cmd_target command)
                   (axis_actual ax pdo) (status_word pdo) f = (f', enable, staged))
       \<and> stage_setpoint (ax_config ax) staged pdo = (pdo'\<lparr>control_word := control_word pdo\<rparr>, True)"
    using axis_cycle_cases [OF cyc] by metis
  have req: "request = enable" using update_enabling_word word unfolding cw by blast
  from en [OF req] obtain f f' where
    et: "enable_target (ax_config ax) (axis_reference ax pdo) (cmd_target command)
           (axis_actual ax pdo) (status_word pdo) f = (f', enable, staged)" by blast
  show ?thesis
    using en [OF req] enable_target_enable [OF et] requested_action_enable [of "cmd_flags command" False]
    by (auto simp: last req limits_ok_def)
qed

lemma actual_setpoint_finite: "actual_setpoint config pdo = Some v \<Longrightarrow> in_fmt f64 v \<and> isfinite v"
  by (auto simp: actual_setpoint_def device_units_to_engineering_def Let_def isfinite_iff
      split: cia402_mode.splits if_splits)
     (metis fcast.simps(1) in_fmt_fround wf_fmts(2))+

definition axis_inv :: "cia402_axis \<Rightarrow> bool" where
  "axis_inv ax \<longleftrightarrow> isfinite (ax_last_target ax) \<and> in_fmt f64 (ax_last_target ax)
     \<and> (\<forall>v \<in> {ac_minimum (ax_config ax), ac_maximum (ax_config ax)}. in_fmt f64 v)"

lemma axis_actual_fin: "\<exists>a. axis_actual ax pdo = Fin a \<and> representable f64 a"
  using actual_setpoint_finite [of "ax_config ax" pdo] representable_small [of f64 0]
  by (cases "actual_setpoint (ax_config ax) pdo") (auto simp: axis_actual_def in_fmt_def isfinite_iff)

lemma axis_reference_fin: "axis_inv ax \<Longrightarrow> \<exists>l. axis_reference ax pdo = Fin l \<and> representable f64 l"
  using axis_actual_fin [of ax pdo] by (auto simp: axis_reference_def axis_inv_def in_fmt_def isfinite_iff)

text \<open>The axis keeps its invariant: after every cycle, whatever the command and the process
  data, the remembered target is a finite double; and while the previous target lies in the configured
  range, an enabling cycle keeps the new target in that range.\<close>

lemma axis_target_in_range:
  assumes inv: "axis_inv ax" and cyc: "axis_cycle ax command pdo = (ax', pdo', fb)"
    and dbl: "in_fmt f64 (cmd_target command)"
  shows "axis_inv ax'
    \<and> (control_word pdo' \<in> {6, 7, 0xF} \<and> fle (ac_minimum (ax_config ax)) (axis_reference ax pdo)
         \<and> fle (axis_reference ax pdo) (ac_maximum (ax_config ax)) \<longrightarrow>
       fle (ac_minimum (ax_config ax)) (ax_last_target ax')
         \<and> fle (ax_last_target ax') (ac_maximum (ax_config ax)))"
proof -
  obtain l where l: "axis_reference ax pdo = Fin l" "representable f64 l"
    using axis_reference_fin [OF inv] by blast
  obtain a where a: "axis_actual ax pdo = Fin a" "representable f64 a" using axis_actual_fin by blast
  obtain request staged where
    cw: "control_word pdo' = out_control_word (snd (update (ax_state_machine ax) (status_word pdo) request))"
    and last: "ax_last_target ax' = (if request = enable then staged else axis_actual ax pdo)"
    and cfg: "ax_config ax' = ax_config ax"
    and en: "request = enable \<Longrightarrow> (\<exists>f f'. enable_target (ax_config ax) (axis_reference ax pdo) (cmd_target command)
                   (axis_actual ax pdo) (status_word pdo) f = (f', enable, staged))"
    using axis_cycle_cases [OF cyc] by metis
  show ?thesis
  proof (cases "request = enable")
    case False
    then have "control_word pdo' \<notin> {6, 7, 0xF}" using update_enabling_word cw by metis
    with False inv a last cfg show ?thesis by (auto simp: axis_inv_def in_fmt_def)
  next
    case True
    then obtain f f' where et: "enable_target (ax_config ax) (axis_reference ax pdo) (cmd_target command)
      (axis_actual ax pdo) (status_word pdo) f = (f', enable, staged)" using en by blast
    obtain tv mn mx sl where c: "cmd_target command = Fin tv" "ac_minimum (ax_config ax) = Fin mn"
      "ac_maximum (ax_config ax) = Fin mx" "mn \<le> mx" "ac_slew_limit (ax_config ax) = Fin sl" "0 < sl"
      using enable_target_enable(1) [OF et] by (rule limits_okD)
    define cl where "cl = (if tv < mn then mn else if mx < tv then mx else tv)"
    have cl: "mn \<le> cl" "cl \<le> mx" "representable f64 cl"
      using c dbl inv by (auto simp: cl_def axis_inv_def in_fmt_def)
    let ?lo = "fround f64 (l - sl)" and ?hi = "fround f64 (l + sl)"
    have st: "staged = fclamp (Fin cl) ?lo ?hi"
      using enable_target_enable(2) [OF et] by (simp add: c l fclamp_Fin cl_def fsub_def)
    note w = slew_window [OF l(2), of sl]
    have "in_fmt f64 (Fin cl)" using cl(3) by (simp add: in_fmt_def)
    then have "in_fmt f64 staged" unfolding st by (intro in_fmt_fclamp) simp_all
    moreover have "isfinite staged" unfolding st using fclamp_finite [OF w] c by simp
    moreover have "mn \<le> l \<Longrightarrow> l \<le> mx \<Longrightarrow> \<exists>v. staged = Fin v \<and> mn \<le> v \<and> v \<le> mx"
      using fclamp_between [of ?lo l ?hi mn cl mx] w c cl by (simp add: st)
    ultimately show ?thesis
      using True inv last cfg by (auto simp: axis_inv_def l c)
  qed
qed

text \<open>An axis command that does not request enable never powers the drive and holds the
  measured set point exactly: in the configured mode the written target equals the measured device
  count, and the targets of the other modes are zero.\<close>

lemma non_enable_holds_position:
  assumes cyc: "axis_cycle ax command pdo = (ax', pdo', fb)"
    and flags: "fst (requested_action (cmd_flags command)) \<noteq> enable"
    and scale: "ac_scale (ax_config ax) = Fin s" "representable f64 s"
    and valid: "actual_setpoint (ax_config ax) pdo = Some a"
  shows "control_word pdo' \<in> {0, 2, 0x80}
    \<and> target_position pdo' = (if ac_mode (ax_config ax) = csp then actual_position pdo else 0)
    \<and> target_velocity pdo' = (if ac_mode (ax_config ax) = csv then actual_velocity pdo else 0)
    \<and> target_torque pdo' = (if ac_mode (ax_config ax) = cst then actual_torque pdo else 0)"
proof -
  obtain request where
    cw: "control_word pdo' = out_control_word (snd (update (ax_state_machine ax) (status_word pdo) request))"
    and ne: "request \<noteq> enable"
    and hold: "\<And>p. stage_setpoint (ax_config ax) (axis_actual ax pdo) pdo = (p, True) \<Longrightarrow>
            pdo' = p\<lparr>control_word := control_word pdo'\<rparr>"
    using axis_cycle_cases [OF cyc] flags by metis
  have a: "axis_actual ax pdo = a" by (simp add: axis_actual_def valid)
  have cw': "control_word pdo' \<in> {0, 2, 0x80}"
    using ne unfolding cw update_control_word by (cases request) auto
  let ?p = "(clear_targets pdo)\<lparr>
     target_position := (if ac_mode (ax_config ax) = csp then actual_position pdo else 0),
     target_velocity := (if ac_mode (ax_config ax) = csv then actual_velocity pdo else 0),
     target_torque := (if ac_mode (ax_config ax) = cst then actual_torque pdo else 0)\<rparr>"
  have rt: "engineering_to_device_units a (Fin s) = Some w"
    if "device_units_to_engineering (sint w) (Fin s) = Some a" "LENGTH('a) \<le> 32" for w :: "'a::len word"
    using count_roundtrip [OF that(2) scale(2) that(1)] .
  have "stage_setpoint (ax_config ax) a pdo = (?p, True)"
  proof (cases "ac_mode (ax_config ax)")
    case csp
    then show ?thesis using valid rt [of "actual_position pdo"]
      by (simp add: stage_setpoint_def actual_setpoint_def scale position_to_device_units_def clear_targets_def)
  next
    case csv
    then show ?thesis using valid rt [of "actual_velocity pdo"]
      by (simp add: stage_setpoint_def actual_setpoint_def scale velocity_to_device_units_def clear_targets_def)
  next
    case cst
    then show ?thesis using valid rt [of "actual_torque pdo"]
      by (simp add: stage_setpoint_def actual_setpoint_def scale torque_to_device_units_def clear_targets_def)
  qed (use valid in \<open>simp add: actual_setpoint_def\<close>)
  from hold [unfolded a, OF this] obtain x where "pdo' = ?p\<lparr>control_word := x\<rparr>" by blast
  with cw' show ?thesis by simp
qed

section \<open>Agreement with the directional codecs\<close>

lemma engineering_valid: "engineering_to_device_units v s = Some w \<Longrightarrow> isfinite v \<and> \<not> fle s (Fin 0)"
  by (auto simp: engineering_to_device_units_def split: if_splits)

text \<open>Staging and encoding write the same process data.\<close>

lemma stage_encode:
  "fst (stage_setpoint config (cmd_target command) pdo) = fst (encode_setpoint config command pdo)"
  "snd (stage_setpoint config (cmd_target command) pdo) \<Longrightarrow> has_value (snd (encode_setpoint config command pdo))"
  by (auto simp: stage_setpoint_def encode_setpoint_def Let_def position_to_device_units_def velocity_to_device_units_def
      torque_to_device_units_def dest: engineering_valid split: option.splits cia402_mode.splits)

text \<open>Claim C12.  The axis cycle and the directional codecs agree.  The feedback of a cycle is the sensor's decoding of the
  same process data with the command's sequence and time stamp, except for the safety flags, which the sensor leaves zero.
  The targets that a cycle writes are what the actuator's encoding writes for the target the axis remembers, that is the
  command's target after the axis has limited it, or the measured value when the cycle does not enable; the one exception
  is a limited target that does not fit the drive's integer, where all targets are zero, the control word does not enable
  and the invalid-command flag is set.  When the control word enables, the encoding succeeds.\<close>

theorem axis_agrees_with_codecs:
  assumes "axis_cycle ax command pdo = (ax', pdo', fb)"
  shows "fb\<lparr>fb_flags := 0\<rparr> = sensor_decode (ax_config ax) pdo (cmd_sequence command) (cmd_timestamp_ns command)
    \<and> (pdo'\<lparr>control_word := control_word pdo\<rparr> = fst (encode_setpoint (ax_config ax) (command\<lparr>cmd_target := ax_last_target ax'\<rparr>) pdo)
       \<or> control_word pdo' \<notin> {6, 7, 0xF} \<and> fb_flags fb AND kAxisFeedbackInvalidCommand \<noteq> 0
         \<and> pdo'\<lparr>control_word := control_word pdo\<rparr> = clear_targets pdo)
    \<and> (control_word pdo' \<in> {6, 7, 0xF} \<longrightarrow>
        has_value (snd (encode_setpoint (ax_config ax) (command\<lparr>cmd_target := ax_last_target ax'\<rparr>) pdo)))"
proof -
  let ?command = "command\<lparr>cmd_target := ax_last_target ax'\<rparr>"
  note enc = stage_encode [of "ax_config ax" ?command pdo, simplified]
  have "fb\<lparr>fb_flags := 0\<rparr> = sensor_decode (ax_config ax) pdo (cmd_sequence command) (cmd_timestamp_ns command)"
    using assms unfolding axis_cycle_def Let_def
    by (auto simp: sensor_decode_def zero_feedback_def split: prod.splits)
  moreover obtain request staged where
    cw: "control_word pdo' = out_control_word (snd (update (ax_state_machine ax) (status_word pdo) request))"
    and last: "ax_last_target ax' = (if request = enable then staged else axis_actual ax pdo)"
    and en: "request = enable \<Longrightarrow> stage_setpoint (ax_config ax) staged pdo = (pdo'\<lparr>control_word := control_word pdo\<rparr>, True)"
    and written: "pdo'\<lparr>control_word := control_word pdo\<rparr> = fst (stage_setpoint (ax_config ax) (ax_last_target ax') pdo)
     \<or> request \<noteq> enable \<and> fb_flags fb AND kAxisFeedbackInvalidCommand \<noteq> 0
       \<and> pdo'\<lparr>control_word := control_word pdo\<rparr> = clear_targets pdo"
    using axis_cycle_cases [OF assms] by metis
  moreover have "request = enable" if "control_word pdo' \<in> {6, 7, 0xF}" using update_enabling_word that unfolding cw by blast
  ultimately show ?thesis using enc by (metis snd_conv)
qed

section \<open>Concrete cycles\<close>

definition example_axis :: cia402_axis where
  "example_axis = \<lparr>
     ax_config = \<lparr>ac_name = ''joint'', ac_alias = 0, ac_position = 0, ac_vendor_id = 1, ac_product_code = 2,
       ac_revision = 3, ac_mode = csp, ac_scale = Fin 1000, ac_minimum = Fin (- 10), ac_maximum = Fin 10,
       ac_command_timeout = 1000, ac_safety_group = [], ac_slew_limit = Fin 1,
       ac_following_error_limit = Fin 5\<rparr>,
     ax_state_machine = \<lparr>fault_reset_latched = False\<rparr>, ax_last_target = Fin 2, ax_has_last_target = True\<rparr>"

definition example_pdo :: cia402_pdo_view where
  "example_pdo = \<lparr>status_word = 0x27, mode_display = 8, actual_position = 2000, actual_velocity = 0,
     actual_torque = 0, control_word = 0, target_position = 0, target_velocity = 0, target_torque = 0\<rparr>"

definition example_command :: "u32 \<Rightarrow> axis_command" where
  "example_command f = \<lparr>cmd_sequence = 4, cmd_timestamp_ns = 1000, cmd_target = Fin 7, cmd_flags = f, cmd_reserved = 0\<rparr>"

lemma example_device_units [simp]:
  "device_units_to_engineering 2000 (Fin 1000) = Some (Fin 2)"
  "device_units_to_engineering 0 (Fin 1000) = Some (Fin 0)"
  "engineering_to_device_units (Fin 2) (Fin 1000) = Some (2000 :: u32)"
  "engineering_to_device_units (Fin 3) (Fin 1000) = Some (3000 :: u32)"
  by (simp_all add: device_units_to_engineering_def engineering_to_device_units_def fdiv_def fmul_def
      fp_eval dbl_max_def)

lemmas example_simps = example_axis_def example_pdo_def example_command_def

lemma example_enable_cycle:
  "axis_cycle example_axis (example_command kAxisCommandEnable) example_pdo
   = (example_axis\<lparr>ax_last_target := Fin 3\<rparr>,
      example_pdo\<lparr>target_position := 3000, control_word := 0xF\<rparr>,
      zero_feedback\<lparr>fb_sequence := 4, fb_timestamp_ns := 1000, fb_position := Fin 2, fb_status_word := 0x27,
        fb_flags := kAxisFeedbackSlewLimited, fb_mode_display := 8\<rparr>)"
proof -
  have ra: "requested_action kAxisCommandEnable = (enable, False)"
    by (simp add: requested_action_def Let_def command_flag_defs known_flags flag_count.simps)
  have d: "decode 0x27 = operation_enabled" by (simp add: decode_def)
  show ?thesis
    by (simp add: axis_cycle_def ra example_simps actual_setpoint_def enable_target_def limits_ok_def
        valid_positive_limit_def d feq_def fclamp_def fsub_def fp_eval stage_setpoint_def clear_targets_def
        position_to_device_units_def update_def zero_feedback_def Let_def)
qed

lemma example_quick_stop_cycle:
  "axis_cycle example_axis (example_command kAxisCommandQuickStop) example_pdo
   = (example_axis,
      example_pdo\<lparr>target_position := 2000, control_word := 2\<rparr>,
      zero_feedback\<lparr>fb_sequence := 4, fb_timestamp_ns := 1000, fb_position := Fin 2, fb_status_word := 0x27,
        fb_mode_display := 8\<rparr>)"
proof -
  have ra: "requested_action kAxisCommandQuickStop = (quick_stop, False)"
    by (simp add: requested_action_def Let_def command_flag_defs known_flags flag_count.simps)
  have d: "decode 0x27 = operation_enabled" by (simp add: decode_def)
  show ?thesis
    by (simp add: axis_cycle_def ra example_simps actual_setpoint_def d stage_setpoint_def clear_targets_def
        position_to_device_units_def update_def zero_feedback_def Let_def)
qed

lemma example_reference [simp]: "axis_reference example_axis example_pdo = Fin 2"
  by (simp add: axis_reference_def example_axis_def)

theorem enabling_control_word_safe_witness:
  "ax_last_target (fst (axis_cycle example_axis (example_command kAxisCommandEnable) example_pdo)) =
     fclamp (fclamp (Fin 7) (Fin (- 10)) (Fin 10)) (fsub f64 (Fin 2) (Fin 1)) (fadd f64 (Fin 2) (Fin 1))"
  using enabling_control_word_safe [OF example_enable_cycle]
  by (simp add: example_enable_cycle) (simp add: example_simps)

theorem axis_target_in_range_witness:
  "axis_inv (fst (axis_cycle example_axis (example_command kAxisCommandEnable) example_pdo))"
proof -
  have r: "in_fmt f64 (Fin (of_int n))" if "\<bar>n\<bar> \<le> 10" for n
    using that representable_small [of f64 n] by (simp add: in_fmt_def)
  have "axis_inv example_axis" "in_fmt f64 (cmd_target (example_command kAxisCommandEnable))"
    using r [of 2] r [of "-10"] r [of 10] r [of 7] by (simp_all add: axis_inv_def example_simps)
  from axis_target_in_range [OF this(1) example_enable_cycle this(2)]
  show ?thesis by (simp add: example_enable_cycle)
qed

theorem non_enable_holds_position_witness:
  "target_position (fst (snd (axis_cycle example_axis (example_command kAxisCommandQuickStop) example_pdo)))
   = actual_position example_pdo"
proof -
  have "fst (requested_action kAxisCommandQuickStop) \<noteq> enable"
    by (simp add: requested_action_def Let_def command_flag_defs known_flags flag_count.simps)
  moreover have "representable f64 1000" using representable_small [of f64 1000] by simp
  moreover have "ac_scale (ax_config example_axis) = Fin 1000" by (simp add: example_simps)
  moreover have "actual_setpoint (ax_config example_axis) example_pdo = Some (Fin 2)"
    by (simp add: example_simps actual_setpoint_def)
  moreover have "cmd_flags (example_command f) = f" for f by (simp add: example_command_def)
  ultimately show ?thesis
    using non_enable_holds_position [OF example_quick_stop_cycle, of 1000 "Fin 2"]
    by (simp add: example_quick_stop_cycle) (simp add: example_simps)
qed

theorem axis_agrees_with_codecs_witness:
  "(snd (snd (axis_cycle example_axis (example_command kAxisCommandEnable) example_pdo)))\<lparr>fb_flags := 0\<rparr>
     = sensor_decode (ax_config example_axis) example_pdo 4 1000
   \<and> (fst (snd (axis_cycle example_axis (example_command kAxisCommandEnable) example_pdo)))\<lparr>control_word := 0\<rparr>
     = fst (encode_setpoint (ax_config example_axis) ((example_command kAxisCommandEnable)\<lparr>cmd_target := Fin 3\<rparr>) example_pdo)"
proof -
  have "cmd_sequence (example_command f) = 4" "cmd_timestamp_ns (example_command f) = 1000" "control_word example_pdo = 0" for f
    by (simp_all add: example_simps)
  then show ?thesis using axis_agrees_with_codecs [OF example_enable_cycle] by (simp add: example_enable_cycle)
qed

end
