(* ===== verification/Safety.thy ===== *)
theory Safety
  imports Cia402_Control Interfaces
begin

text \<open>
  The safety supervisor of \<^verbatim>\<open>src/robot_io/daemon/safety_supervisor.cpp\<close>: configuration of the axes and
  their safety groups, admission of command snapshots, and the per-cycle evaluation that turns the
  admitted commands, the bus state and the process data into one decision per axis.  The evaluation is
  split the way the source runs it: the counters, a first loop that assesses every axis, two loops that
  spread triggers and reset candidates through the safety groups, and a last loop that decides.  Arrays
  are lists of the array's length; \<open>fill_prefix\<close> is a loop over the configured axes.
\<close>

section \<open>Data\<close>

definition kRobotIoMaximumAxes :: nat where "kRobotIoMaximumAxes = 12"

definition kAxisFeedbackSafetyTimeout :: u32 where "kAxisFeedbackSafetyTimeout = push_bit 16 1"
definition kAxisFeedbackSafetyWkc :: u32 where "kAxisFeedbackSafetyWkc = push_bit 17 1"
definition kAxisFeedbackSafetyLink :: u32 where "kAxisFeedbackSafetyLink = push_bit 18 1"
definition kAxisFeedbackSafetySlave :: u32 where "kAxisFeedbackSafetySlave = push_bit 19 1"
definition kAxisFeedbackSafetyModeMismatch :: u32 where "kAxisFeedbackSafetyModeMismatch = push_bit 20 1"
definition kAxisFeedbackSafetyFollowingError :: u32 where "kAxisFeedbackSafetyFollowingError = push_bit 21 1"
definition kAxisFeedbackSafetyInvalidCommand :: u32 where "kAxisFeedbackSafetyInvalidCommand = push_bit 22 1"
definition kAxisFeedbackSafetyFaultResetLimit :: u32 where "kAxisFeedbackSafetyFaultResetLimit = push_bit 23 1"
definition kAxisFeedbackSafetyGroup :: u32 where "kAxisFeedbackSafetyGroup = push_bit 24 1"
definition kAxisFeedbackSafetyShutdown :: u32 where "kAxisFeedbackSafetyShutdown = push_bit 25 1"
definition kAxisFeedbackSafetyProcessData :: u32 where "kAxisFeedbackSafetyProcessData = push_bit 26 1"
definition kAxisFeedbackSafetyDriveFault :: u32 where "kAxisFeedbackSafetyDriveFault = push_bit 27 1"
definition kAxisFeedbackSafetySerial :: u32 where "kAxisFeedbackSafetySerial = push_bit 28 1"

lemmas safety_flag_defs =
  kAxisFeedbackSafetyTimeout_def kAxisFeedbackSafetyWkc_def kAxisFeedbackSafetyLink_def
  kAxisFeedbackSafetySlave_def kAxisFeedbackSafetyModeMismatch_def kAxisFeedbackSafetyFollowingError_def
  kAxisFeedbackSafetyInvalidCommand_def kAxisFeedbackSafetyFaultResetLimit_def kAxisFeedbackSafetyGroup_def
  kAxisFeedbackSafetyShutdown_def kAxisFeedbackSafetyProcessData_def kAxisFeedbackSafetyDriveFault_def
  kAxisFeedbackSafetySerial_def

record safety_options =
  consecutive_wkc_limit :: u32
  maximum_fault_resets :: u32
  safe_stop_timeout :: int
  zero_velocity_threshold_counts :: int
  zero_velocity_confirmation_cycles :: u32

datatype command_acceptance = accepted | duplicate | rejected

record safety_bus_state =
  working_counter :: u32
  expected_working_counter :: u32
  expected_working_counter_known :: bool
  working_counter_complete :: bool
  link_up :: bool
  all_slaves_operational :: bool
  process_data_valid :: bool
  operational_axes_mask :: u16
  external_stop_axes_mask :: u16
  dc_deviation_ns :: int

record safety_evaluation =
  ev_commands :: "axis_command list"
  ev_requests :: "axis_request list"
  ev_feedback_flags :: "u32 list"
  ev_axis_count :: nat
  ev_shutdown_complete :: bool

record axis_safety_config =
  sc_command_timeout_ns :: int
  sc_mode :: cia402_mode
  sc_scale :: fp
  sc_minimum :: fp
  sc_maximum :: fp
  sc_slew_limit :: fp
  sc_following_error_limit :: fp
  sc_group :: u8

datatype stop_phase = running | stopping | disabled

record axis_safety_state =
  phase :: stop_phase
  stop_started_ns :: int
  zero_velocity_cycles :: u32
  fault_reset_edges :: u32
  stopped_command_sequence :: u64
  last_target :: fp
  has_last_target :: bool
  fault_episode_active :: bool
  fault_reset_output_active :: bool

record target_evaluation =
  te_actual :: fp
  te_staged :: fp
  te_following_error :: bool

record 't snapshot =
  sn_sequence :: u64
  sn_timestamp_ns :: int
  sn_axis_count :: nat
  sn_axes :: "'t list"

record safety_supervisor =
  options :: safety_options
  configs :: "axis_safety_config list"
  states :: "axis_safety_state list"
  commands :: "axis_command list"
  last_requests :: "axis_request list"
  axis_count :: nat
  consecutive_wkc_failures :: u32
  last_command_sequence :: u64
  last_command_timestamp_ns :: int
  configured :: bool
  has_command :: bool
  commands_valid :: bool
  shutdown_requested :: bool
  shutdown_complete :: bool

definition zero_command :: axis_command where
  "zero_command = \<lparr>cmd_sequence = 0, cmd_timestamp_ns = 0, cmd_target = Fin 0, cmd_flags = 0, cmd_reserved = 0\<rparr>"

definition zero_axis_safety_config :: axis_safety_config where
  "zero_axis_safety_config = \<lparr>sc_command_timeout_ns = 0, sc_mode = raw_mode 0, sc_scale = Fin 0, sc_minimum = Fin 0,
     sc_maximum = Fin 0, sc_slew_limit = Fin 0, sc_following_error_limit = Fin 0, sc_group = 0\<rparr>"

definition initial_axis_safety_state :: axis_safety_state where
  "initial_axis_safety_state = \<lparr>phase = running, stop_started_ns = 0, zero_velocity_cycles = 0, fault_reset_edges = 0,
     stopped_command_sequence = 0, last_target = Fin 0, has_last_target = False, fault_episode_active = False,
     fault_reset_output_active = False\<rparr>"

definition make_supervisor :: "safety_options \<Rightarrow> safety_supervisor" where
  "make_supervisor opts = \<lparr>options = opts,
     configs = replicate kRobotIoMaximumAxes zero_axis_safety_config,
     states = replicate kRobotIoMaximumAxes initial_axis_safety_state,
     commands = replicate kRobotIoMaximumAxes zero_command,
     last_requests = replicate kRobotIoMaximumAxes disable,
     axis_count = 0, consecutive_wkc_failures = 0, last_command_sequence = 0, last_command_timestamp_ns = 0,
     configured = False, has_command = False, commands_valid = False, shutdown_requested = False,
     shutdown_complete = False\<rparr>"

definition valid_options :: "safety_options \<Rightarrow> bool" where
  "valid_options opts \<longleftrightarrow>
     consecutive_wkc_limit opts > 0 \<and> maximum_fault_resets opts > 0 \<and> safe_stop_timeout opts > 0
     \<and> zero_velocity_threshold_counts opts \<ge> 0 \<and> zero_velocity_confirmation_cycles opts > 0"

section \<open>Configuration\<close>

definition int64_max :: int where "int64_max = 2 ^ 63 - 1"

definition axis_limits_bad :: "axis_config \<Rightarrow> bool" where
  "axis_limits_bad a \<longleftrightarrow>
     ac_command_timeout a \<le> 0 \<or> ac_command_timeout a > int64_max div 1000000
     \<or> \<not> isfinite (ac_scale a) \<or> fle (ac_scale a) (Fin 0)
     \<or> \<not> isfinite (ac_minimum a) \<or> \<not> isfinite (ac_maximum a) \<or> flt (ac_maximum a) (ac_minimum a)
     \<or> \<not> isfinite (ac_slew_limit a) \<or> fle (ac_slew_limit a) (Fin 0)
     \<or> \<not> isfinite (ac_following_error_limit a) \<or> fle (ac_following_error_limit a) (Fin 0)"

definition safety_config_of :: "axis_config \<Rightarrow> u8 \<Rightarrow> axis_safety_config" where
  "safety_config_of a group_id = \<lparr>
     sc_command_timeout_ns = ac_command_timeout a * 1000000, sc_mode = ac_mode a, sc_scale = ac_scale a,
     sc_minimum = ac_minimum a, sc_maximum = ac_maximum a, sc_slew_limit = ac_slew_limit a,
     sc_following_error_limit = ac_following_error_limit a, sc_group = group_id\<rparr>"

text \<open>The group of the axis at index \<open>axis\<close> and the counter after it: the first earlier axis with the
  same non-empty name shares its group, any other axis opens a new one.\<close>

definition assign_group :: "axis_config list \<Rightarrow> nat \<Rightarrow> u8 list \<Rightarrow> u8 \<Rightarrow> u8 \<times> u8" where
  "assign_group axes axis group_ids next_group =
     (if ac_safety_group (axes ! axis) \<noteq> []
      then case find (\<lambda>previous. ac_safety_group (axes ! previous) = ac_safety_group (axes ! axis)) [0..<axis] of
             Some previous \<Rightarrow> (group_ids ! previous, next_group + 1 - 1)
           | None \<Rightarrow> (next_group, next_group + 1)
      else (next_group, next_group + 1))"

function configure_loop ::
  "axis_config list \<Rightarrow> nat \<Rightarrow> u8 list \<Rightarrow> u8 \<Rightarrow> safety_supervisor \<Rightarrow> safety_supervisor \<times> unit result" where
  "configure_loop axes axis group_ids next_group spv =
     (if axis < length axes
      then if axis_limits_bad (axes ! axis)
           then (spv, failure invalid_argument ''axis has invalid daemon safety limits'')
           else if ac_mode (axes ! axis) \<noteq> csp \<and> ac_mode (axes ! axis) \<noteq> csv \<and> ac_mode (axes ! axis) \<noteq> cst
           then (spv, failure invalid_argument ''axis has invalid static CiA 402 mode'')
           else let (group_id, next_group') = assign_group axes axis group_ids next_group
                in configure_loop axes (axis + 1) (group_ids[axis := group_id]) next_group'
                     (spv\<lparr>configs := (configs spv)[axis := safety_config_of (axes ! axis) group_id],
                          last_requests := (last_requests spv)[axis := disable]\<rparr>)
      else (spv, success ()))"
  by pat_completeness auto
termination by (relation "measure (\<lambda>(axes, axis, _). length axes - axis)") auto

declare configure_loop.simps [simp del]

definition configure :: "safety_supervisor \<Rightarrow> axis_config list \<Rightarrow> safety_supervisor \<times> unit result" where
  "configure spv axes =
     (if configured spv then (spv, failure invalid_argument ''safety supervisor is already configured'')
      else if length axes > kRobotIoMaximumAxes \<or> \<not> valid_options (options spv)
      then (spv, failure invalid_argument ''invalid axis count or safety options'')
      else case configure_loop axes 0 (replicate kRobotIoMaximumAxes 0) 0 spv of
             (spv', Inl e) \<Rightarrow> (spv', Inl e)
           | (spv', Inr _) \<Rightarrow> (spv'\<lparr>axis_count := length axes, configured := True\<rparr>, success ()))"

section \<open>Command admission\<close>

definition command_equals :: "axis_command \<Rightarrow> axis_command \<Rightarrow> bool" where
  "command_equals lhs rhs \<longleftrightarrow>
     cmd_sequence lhs = cmd_sequence rhs \<and> cmd_timestamp_ns lhs = cmd_timestamp_ns rhs
     \<and> feq (cmd_target lhs) (cmd_target rhs) \<and> cmd_flags lhs = cmd_flags rhs \<and> cmd_reserved lhs = cmd_reserved rhs"

definition valid_snapshot :: "safety_supervisor \<Rightarrow> axis_command snapshot \<Rightarrow> int \<Rightarrow> bool" where
  "valid_snapshot spv snap now_ns \<longleftrightarrow>
     configured spv \<and> sn_axis_count snap = axis_count spv \<and> 0 \<le> sn_timestamp_ns snap \<and> sn_timestamp_ns snap \<le> now_ns
     \<and> list_all (\<lambda>axis. let command = sn_axes snap ! axis in
          cmd_sequence command = sn_sequence snap \<and> cmd_timestamp_ns command = sn_timestamp_ns snap
          \<and> cmd_reserved command = 0 \<and> isfinite (cmd_target command)
          \<and> cmd_flags command AND NOT kKnownCommandFlags = 0
          \<and> flag_count (cmd_flags command AND kKnownCommandFlags) \<le> 1) [0..<axis_count spv]"

definition store_commands :: "safety_supervisor \<Rightarrow> axis_command snapshot \<Rightarrow> safety_supervisor" where
  "store_commands spv snap = spv\<lparr>
     commands := fill_prefix (axis_count spv) (\<lambda>axis. sn_axes snap ! axis) (commands spv),
     last_command_sequence := sn_sequence snap,
     last_command_timestamp_ns := sn_timestamp_ns snap,
     has_command := True,
     commands_valid := True\<rparr>"

definition accept_commands ::
  "safety_supervisor \<Rightarrow> axis_command snapshot \<Rightarrow> int \<Rightarrow> safety_supervisor \<times> command_acceptance" where
  "accept_commands spv snap now_ns =
     (if \<not> valid_snapshot spv snap now_ns then (spv\<lparr>commands_valid := False\<rparr>, rejected)
      else if has_command spv then
        if sn_sequence snap < last_command_sequence spv \<or> sn_timestamp_ns snap < last_command_timestamp_ns spv
        then (spv\<lparr>commands_valid := False\<rparr>, rejected)
        else if sn_sequence snap = last_command_sequence spv
        then if sn_timestamp_ns snap = last_command_timestamp_ns spv
                \<and> list_all (\<lambda>axis. command_equals (sn_axes snap ! axis) (commands spv ! axis)) [0..<axis_count spv]
             then (spv, duplicate)
             else (spv\<lparr>commands_valid := False\<rparr>, rejected)
        else (store_commands spv snap, accepted)
      else (store_commands spv snap, accepted))"

definition request_shutdown :: "safety_supervisor \<Rightarrow> int \<Rightarrow> safety_supervisor" where
  "request_shutdown spv now_ns = (if \<not> shutdown_requested spv then spv\<lparr>shutdown_requested := True\<rparr> else spv)"

section \<open>Evaluation\<close>

definition request_from_flags :: "u32 \<Rightarrow> axis_request" where
  "request_from_flags flags =
     (if flags AND kAxisCommandQuickStop \<noteq> 0 then quick_stop
      else if flags AND kAxisCommandFaultReset \<noteq> 0 then fault_reset
      else if flags AND kAxisCommandEnable \<noteq> 0 then enable
      else disable)"

fun flags_for_request :: "axis_request \<Rightarrow> u32" where
  "flags_for_request enable = kAxisCommandEnable"
| "flags_for_request disable = kAxisCommandDisable"
| "flags_for_request quick_stop = kAxisCommandQuickStop"
| "flags_for_request fault_reset = kAxisCommandFaultReset"

definition mask_selects :: "u16 \<Rightarrow> nat \<Rightarrow> bool" where
  "mask_selects axes_mask axis \<longleftrightarrow> axes_mask AND push_bit axis 1 \<noteq> 0"

definition axis_operational :: "safety_bus_state \<Rightarrow> nat \<Rightarrow> bool" where
  "axis_operational bus axis_index \<longleftrightarrow>
     all_slaves_operational bus \<or> (axis_index < 16 \<and> mask_selects (operational_axes_mask bus) axis_index)"

definition evaluate_target ::
  "axis_safety_config \<Rightarrow> axis_safety_state \<Rightarrow> axis_command \<Rightarrow> cia402_pdo_view \<Rightarrow> axis_safety_state \<times> target_evaluation" where
  "evaluate_target config state0 command pdo =
     (let actual = (case sc_mode config of
                      csp \<Rightarrow> device_units_to_engineering (sint (actual_position pdo)) (sc_scale config)
                    | csv \<Rightarrow> device_units_to_engineering (sint (actual_velocity pdo)) (sc_scale config)
                    | cst \<Rightarrow> device_units_to_engineering (sint (actual_torque pdo)) (sc_scale config)
                    | raw_mode _ \<Rightarrow> None);
          a = value_or actual (Fin 0);
          state = (if \<not> has_last_target state0 then state0\<lparr>last_target := a, has_last_target := True\<rparr> else state0)
      in if request_from_flags (cmd_flags command) \<noteq> enable \<or> actual = None
         then (state, \<lparr>te_actual = a, te_staged = a, te_following_error = False\<rparr>)
         else
           let staged0 = fclamp (cmd_target command) (sc_minimum config) (sc_maximum config);
               staged = fclamp staged0 (fsub f64 (last_target state) (sc_slew_limit config))
                                       (fadd f64 (last_target state) (sc_slew_limit config));
               following_error_active = (decode (status_word pdo) \<in> {switched_on, operation_enabled, quick_stop_active})
           in (state, \<lparr>te_actual = a, te_staged = staged,
                 te_following_error =
                   (following_error_active \<and> flt (sc_following_error_limit config) (fabs (fsub f64 staged a)))\<rparr>))"

text \<open>What the first loop leaves for one axis: the reason bits, the trigger, whether it is a
  fault-reset candidate, the evaluated target and the axis state.\<close>

record axis_assessment =
  as_reasons :: u32
  as_trigger :: bool
  as_reset_candidate :: bool
  as_target :: target_evaluation
  as_state :: axis_safety_state

definition counter_bad :: "safety_bus_state \<Rightarrow> bool" where
  "counter_bad bus \<longleftrightarrow>
     \<not> working_counter_complete bus
     \<or> (expected_working_counter_known bus \<and> working_counter bus \<noteq> expected_working_counter bus)"

definition next_wkc_failures :: "safety_bus_state \<Rightarrow> u32 \<Rightarrow> u32" where
  "next_wkc_failures bus n = (if counter_bad bus then if n < - 1 then n + 1 else n else 0)"

definition axis_requested :: "safety_supervisor \<Rightarrow> nat \<Rightarrow> axis_request" where
  "axis_requested spv axis =
     (if has_command spv then request_from_flags (cmd_flags (commands spv ! axis)) else disable)"

definition command_expired :: "safety_supervisor \<Rightarrow> int \<Rightarrow> nat \<Rightarrow> bool" where
  "command_expired spv now_ns axis \<longleftrightarrow>
     \<not> has_command spv \<or> now_ns < last_command_timestamp_ns spv
     \<or> now_ns - last_command_timestamp_ns spv > sc_command_timeout_ns (configs spv ! axis)"

definition update_fault_episode :: "axis_safety_state \<Rightarrow> bool \<Rightarrow> axis_safety_state" where
  "update_fault_episode state fault_clear_observed =
     (if fault_clear_observed
      then state\<lparr>fault_episode_active := False, fault_reset_edges := 0, fault_reset_output_active := False\<rparr>
      else if \<not> fault_episode_active state
      then state\<lparr>fault_episode_active := True, fault_reset_edges := 0, fault_reset_output_active := False\<rparr>
      else state)"

definition or_if :: "bool \<Rightarrow> u32 \<Rightarrow> u32 \<Rightarrow> u32" where
  "or_if b flag reasons = (if b then reasons OR flag else reasons)"

definition assess_axis ::
  "safety_supervisor \<Rightarrow> safety_bus_state \<Rightarrow> bool \<Rightarrow> bool \<Rightarrow> cia402_pdo_view list \<Rightarrow> int \<Rightarrow> nat \<Rightarrow> axis_assessment" where
  "assess_axis spv bus wkc_limit_reached invalid_process_data pdos now_ns axis =
     (let config = configs spv ! axis;
          pdo = pdos ! axis;
          request = axis_requested spv axis;
          r1 = or_if (command_expired spv now_ns axis) kAxisFeedbackSafetyTimeout 0;
          r2 = or_if (\<not> commands_valid spv) kAxisFeedbackSafetyInvalidCommand r1;
          r3 = or_if (mask_selects (external_stop_axes_mask bus) axis) kAxisFeedbackSafetySerial r2;
          r4 = or_if (\<not> link_up bus) kAxisFeedbackSafetyLink r3;
          r5 = or_if wkc_limit_reached kAxisFeedbackSafetyWkc r4;
          r6 = or_if invalid_process_data kAxisFeedbackSafetyProcessData r5;
          r7 = or_if (\<not> axis_operational bus axis) kAxisFeedbackSafetySlave r6;
          r8 = or_if (mode_display pdo \<noteq> mode_code (sc_mode config)) kAxisFeedbackSafetyModeMismatch r7;
          (state1, target) = evaluate_target config (states spv ! axis) (commands spv ! axis) pdo;
          r9 = or_if (te_following_error target) kAxisFeedbackSafetyFollowingError r8;
          drive_state = decode (status_word pdo);
          drive_fault = (drive_state = fault \<or> drive_state = fault_reaction_active);
          resettable_fault = (drive_state = fault);
          fault_clear_observed =
            (\<not> drive_fault \<and> drive_state \<noteq> unknown \<and> link_up bus \<and> process_data_valid bus \<and> axis_operational bus axis);
          state2 = update_fault_episode state1 fault_clear_observed;
          new_reset_edge = (resettable_fault \<and> request = fault_reset \<and> \<not> fault_reset_output_active state2);
          reset_budget_available =
            (\<not> new_reset_edge \<or> fault_reset_edges state2 < maximum_fault_resets (options spv));
          fault_reason = (drive_fault \<and> (\<not> resettable_fault \<or> request \<noteq> fault_reset \<or> \<not> reset_budget_available));
          r10 = or_if fault_reason kAxisFeedbackSafetyDriveFault r9;
          r11 = or_if (fault_reason \<and> request = fault_reset \<and> \<not> reset_budget_available)
                  kAxisFeedbackSafetyFaultResetLimit r10;
          r12 = or_if (shutdown_requested spv) kAxisFeedbackSafetyShutdown r11
      in \<lparr>as_reasons = r12,
          as_trigger = (request = quick_stop \<or> r12 \<noteq> 0),
          as_reset_candidate = (resettable_fault \<and> request = fault_reset \<and> reset_budget_available \<and> r12 = 0),
          as_target = target,
          as_state = state2\<rparr>)"

text \<open>One source axis marks every other member of its group that \<open>eligible\<close> admits.\<close>

definition mark_group ::
  "safety_supervisor \<Rightarrow> (nat \<Rightarrow> bool) \<Rightarrow> nat \<Rightarrow> bool list \<times> u32 list \<Rightarrow> bool list \<times> u32 list" where
  "mark_group spv eligible source tr =
     foldl (\<lambda>(triggers, reasons) member.
         if member \<noteq> source \<and> eligible member \<and> sc_group (configs spv ! member) = sc_group (configs spv ! source)
         then (triggers[member := True], reasons[member := reasons ! member OR kAxisFeedbackSafetyGroup])
         else (triggers, reasons))
       tr [0..<axis_count spv]"

definition propagate_triggers ::
  "safety_supervisor \<Rightarrow> bool list \<times> u32 list \<Rightarrow> bool list \<times> u32 list" where
  "propagate_triggers spv tr =
     foldl (\<lambda>(triggers, reasons) source.
         if triggers ! source then mark_group spv (\<lambda>_. True) source (triggers, reasons) else (triggers, reasons))
       tr [0..<axis_count spv]"

definition propagate_resets ::
  "safety_supervisor \<Rightarrow> bool list \<Rightarrow> bool list \<times> u32 list \<Rightarrow> bool list \<times> u32 list" where
  "propagate_resets spv candidates tr =
     foldl (\<lambda>tr source.
         if candidates ! source then mark_group spv (\<lambda>member. \<not> candidates ! member) source tr else tr)
       tr [0..<axis_count spv]"

text \<open>The last loop's body for one axis: the new state and the decision.\<close>

definition decide_axis ::
  "safety_supervisor \<Rightarrow> int \<Rightarrow> cia402_pdo_view \<Rightarrow> axis_request \<Rightarrow> bool \<Rightarrow> u32 \<Rightarrow> target_evaluation
     \<Rightarrow> axis_safety_state \<Rightarrow> axis_safety_state \<times> axis_request" where
  "decide_axis spv now_ns pdo requested trigger reasons target state0 =
     (let resettable_fault = (decode (status_word pdo) = fault);
          reset_edge = (resettable_fault \<and> requested = fault_reset \<and> \<not> fault_reset_output_active state0);
          fault_reset_allowed =
            (resettable_fault \<and> requested = fault_reset \<and> reasons = 0
             \<and> (\<not> reset_edge \<or> fault_reset_edges state0 < maximum_fault_resets (options spv)));
          entered_quick_stop = (trigger \<and> phase state0 = running);
          state1 = (if entered_quick_stop
                    then state0\<lparr>phase := stopping, stop_started_ns := now_ns, zero_velocity_cycles := 0,
                                stopped_command_sequence := last_command_sequence spv\<rparr>
                    else state0);
          state2 = (if \<not> trigger \<and> phase state1 = disabled \<and> has_command spv
                       \<and> last_command_sequence spv > stopped_command_sequence state1 \<and> requested = enable
                    then state1\<lparr>phase := running\<rparr> else state1);
          (state3, decision) =
            (if fault_reset_allowed
             then (state2\<lparr>fault_reset_edges :=
                            (if reset_edge \<and> fault_reset_edges state2 < - 1
                             then fault_reset_edges state2 + 1 else fault_reset_edges state2),
                          fault_reset_output_active := True\<rparr>, fault_reset)
             else if phase state2 = stopping
             then let s = state2\<lparr>fault_reset_output_active := False\<rparr>
                  in if entered_quick_stop then (s, quick_stop)
                     else let magnitude = \<bar>sint (actual_velocity pdo)\<bar>;
                              s' = (if magnitude \<le> zero_velocity_threshold_counts (options spv)
                                    then s\<lparr>zero_velocity_cycles := zero_velocity_cycles s + 1\<rparr>
                                    else s\<lparr>zero_velocity_cycles := 0\<rparr>);
                              confirmed_zero =
                                (zero_velocity_cycles s' \<ge> zero_velocity_confirmation_cycles (options spv));
                              timed_out = (now_ns \<ge> stop_started_ns s'
                                \<and> now_ns - stop_started_ns s' \<ge> safe_stop_timeout (options spv))
                          in if confirmed_zero \<or> timed_out then (s'\<lparr>phase := disabled\<rparr>, disable) else (s', quick_stop)
             else if phase state2 = disabled
             then (state2\<lparr>fault_reset_output_active := False\<rparr>, disable)
             else (state2\<lparr>fault_reset_output_active := False\<rparr>,
                   if requested = fault_reset then disable else requested))
      in (state3\<lparr>last_target := (if decision = enable then te_staged target else te_actual target)\<rparr>, decision))"

definition output_command :: "safety_supervisor \<Rightarrow> nat \<Rightarrow> axis_request \<Rightarrow> axis_command" where
  "output_command spv axis decision =
     (commands spv ! axis)\<lparr>cmd_sequence := last_command_sequence spv,
        cmd_timestamp_ns := last_command_timestamp_ns spv,
        cmd_flags := flags_for_request decision, cmd_reserved := 0\<rparr>"

definition empty_evaluation :: "nat \<Rightarrow> safety_evaluation" where
  "empty_evaluation n = \<lparr>ev_commands = replicate kRobotIoMaximumAxes zero_command,
     ev_requests = replicate kRobotIoMaximumAxes disable,
     ev_feedback_flags = replicate kRobotIoMaximumAxes 0, ev_axis_count = n, ev_shutdown_complete = False\<rparr>"

text \<open>The first loop and both propagation loops: assessments, triggers and reasons of every axis.\<close>

definition assess_all ::
  "safety_supervisor \<Rightarrow> safety_bus_state \<Rightarrow> cia402_pdo_view list \<Rightarrow> int \<Rightarrow> nat \<Rightarrow> axis_assessment" where
  "assess_all spv bus pdos now_ns =
     assess_axis spv bus (consecutive_wkc_failures spv \<ge> consecutive_wkc_limit (options spv))
       (\<not> process_data_valid bus \<and> \<not> counter_bad bus \<and> link_up bus) pdos now_ns"

definition group_outcome ::
  "safety_supervisor \<Rightarrow> (nat \<Rightarrow> axis_assessment) \<Rightarrow> bool list \<times> u32 list" where
  "group_outcome spv assessed =
     (let n = axis_count spv;
          triggers = fill_prefix n (\<lambda>axis. as_trigger (assessed axis)) (replicate kRobotIoMaximumAxes False);
          reasons = fill_prefix n (\<lambda>axis. as_reasons (assessed axis)) (replicate kRobotIoMaximumAxes 0);
          candidates = fill_prefix n (\<lambda>axis. as_reset_candidate (assessed axis)) (replicate kRobotIoMaximumAxes False)
      in propagate_resets spv candidates (propagate_triggers spv (triggers, reasons)))"

definition evaluate ::
  "safety_supervisor \<Rightarrow> safety_bus_state \<Rightarrow> cia402_pdo_view list \<Rightarrow> int \<Rightarrow> safety_supervisor \<times> safety_evaluation" where
  "evaluate spv0 bus pdos now_ns =
     (let n = axis_count spv0; output = empty_evaluation n
      in if \<not> configured spv0 \<or> length pdos \<noteq> n
         then (spv0\<lparr>last_requests := fill_prefix n (\<lambda>_. quick_stop) (last_requests spv0)\<rparr>,
               output\<lparr>
                 ev_requests := fill_prefix n (\<lambda>_. quick_stop) (ev_requests output),
                 ev_commands := fill_prefix n (\<lambda>axis. (ev_commands output ! axis)\<lparr>cmd_flags := kAxisCommandQuickStop\<rparr>)
                                  (ev_commands output),
                 ev_feedback_flags := fill_prefix n (\<lambda>_. kAxisFeedbackSafetyProcessData) (ev_feedback_flags output)\<rparr>)
         else
           let spv = spv0\<lparr>consecutive_wkc_failures := next_wkc_failures bus (consecutive_wkc_failures spv0)\<rparr>;
               assessed = assess_all spv bus pdos now_ns;
               (triggers, reasons) = group_outcome spv assessed;
               decided = (\<lambda>axis. decide_axis spv now_ns (pdos ! axis) (axis_requested spv axis) (triggers ! axis)
                                   (reasons ! axis) (as_target (assessed axis)) (as_state (assessed axis)));
               all_shutdown_axes_disabled = list_all (\<lambda>axis. snd (decided axis) = disable) [0..<n];
               complete = (shutdown_requested spv \<and> all_shutdown_axes_disabled)
           in (spv\<lparr>states := fill_prefix n (\<lambda>axis. fst (decided axis)) (states spv),
                   last_requests := fill_prefix n (\<lambda>axis. snd (decided axis)) (last_requests spv),
                   shutdown_complete := complete\<rparr>,
               output\<lparr>
                 ev_commands := fill_prefix n (\<lambda>axis. output_command spv axis (snd (decided axis))) (ev_commands output),
                 ev_requests := fill_prefix n (\<lambda>axis. snd (decided axis)) (ev_requests output),
                 ev_feedback_flags := fill_prefix n (\<lambda>axis. reasons ! axis) (ev_feedback_flags output),
                 ev_shutdown_complete := complete\<rparr>))"

definition axis_request_of :: "safety_supervisor \<Rightarrow> nat \<Rightarrow> axis_request" where
  "axis_request_of spv axis_index = (if axis_index < axis_count spv then last_requests spv ! axis_index else disable)"

end
