(* ===== verification/Profile.thy ===== *)
theory Profile
  imports Topology Damiao St3215_Registry Safety "HOL-Library.Char_ord" "HOL-Library.List_Lexorder"
begin

text \<open>
  The compiled robot profile of \<^verbatim>\<open>include/policy_runtime/profiles/robot_profile.hpp\<close>, the value from which the daemon and
  both DDS endpoints are configured.  Its device and axis entries are those of the components that use them.  Strings
  are ordered lexicographically by their bytes, the order in which the code's maps iterate.
\<close>

definition kRobotIoMaximumServos :: nat where "kRobotIoMaximumServos = 32"

datatype damiao_transport = dt_socketcan | dt_virtual_serial

datatype robot_io_backend = unix_shm | dds_backend

record dds_external_config =
  dx_enabled :: bool
  dx_domain_id :: u32
  dx_topics :: "string list"

record dds_config =
  dc_backend :: robot_io_backend
  dc_robot_id :: string
  dc_local_domain_id :: u32
  dc_cyclone_config :: string
  dc_sensor_queue_capacity :: nat
  dc_external :: dds_external_config

definition default_dds_config :: dds_config where
  "default_dds_config = \<lparr>dc_backend = unix_shm, dc_robot_id = [], dc_local_domain_id = 0,
     dc_cyclone_config = ''configs/cyclonedds-loopback.xml'', dc_sensor_queue_capacity = 64,
     dc_external = \<lparr>dx_enabled = False, dx_domain_id = 0, dx_topics = []\<rparr>\<rparr>"

record damiao_profile =
  dp_sensor_name :: string
  dp_actuator_name :: string
  dp_path :: string
  dp_transport :: damiao_transport
  dp_motor_id :: u8
  dp_limits :: damiao_limits
  dp_feedback_timeout_ms :: int
  dp_safety_group :: string

record robot_profile =
  rp_sensors :: "device_config list"
  rp_actuators :: "device_config list"
  rp_axes :: "axis_config list"
  rp_st3215_servos :: "servo_profile list"
  rp_damiao_motors :: "damiao_profile list"
  rp_dds :: dds_config

end
