(* ===== verification/Mailbox.thy ===== *)
theory Mailbox
  imports Interfaces
begin

text \<open>
  The mailboxes between the DDS endpoint and the real-time threads,
  \<^verbatim>\<open>include/policy_runtime/robot_io/dds/realtime_mailbox.hpp\<close>.  The model takes each operation of an \<open>AtomicValue\<close> as
  one step, which is what its version check is for; the relaxed memory orders of its bytes are outside the model.
  Counters keep their 64 bits.
\<close>

section \<open>Versioned values\<close>

record 'a atomic_value =
  av_version :: u64
  av_value :: 'a

definition make_atomic :: "'a \<Rightarrow> 'a atomic_value" where
  "make_atomic zero = \<lparr>av_version = 0, av_value = zero\<rparr>"

definition av_store :: "'a atomic_value \<Rightarrow> 'a \<Rightarrow> 'a atomic_value" where
  "av_store a v = (let next_version = av_version a + 1 in \<lparr>av_version = next_version + 1, av_value = v\<rparr>)"

definition av_load :: "'a atomic_value \<Rightarrow> 'a option" where
  "av_load a = (if av_version a AND 1 \<noteq> 0 \<or> av_version a = 0 then None else Some (av_value a))"

section \<open>The queue of sensor events\<close>

record 'a event_queue =
  eq_slots :: "(u64 \<times> 'a) atomic_value list"
  eq_published :: u64
  eq_consumed :: u64
  eq_dropped :: u64

definition make_event_queue :: "nat \<Rightarrow> 'a \<Rightarrow> 'a event_queue" where
  "make_event_queue capacity zero =
     \<lparr>eq_slots = replicate capacity (make_atomic (0, zero)), eq_published = 0, eq_consumed = 0, eq_dropped = 0\<rparr>"

abbreviation eq_capacity :: "'a event_queue \<Rightarrow> nat" where
  "eq_capacity q \<equiv> length (eq_slots q)"

definition push_realtime :: "'a event_queue \<Rightarrow> 'a \<Rightarrow> 'a event_queue \<times> bool" where
  "push_realtime q v =
     (let published = eq_published q; consumed = eq_consumed q;
          q1 = (if published - consumed \<ge> of_nat (eq_capacity q) then q\<lparr>eq_dropped := eq_dropped q + 1\<rparr> else q);
          j = unat published mod eq_capacity q
      in (q1\<lparr>eq_slots := (eq_slots q)[j := av_store (eq_slots q ! j) (published + 1, v)], eq_published := published + 1\<rparr>, True))"

definition pop_event :: "'a event_queue \<Rightarrow> 'a event_queue \<times> 'a option" where
  "pop_event q =
     (let published = eq_published q
      in if eq_consumed q \<ge> published then (q, None)
         else let oldest = (if published > of_nat (eq_capacity q) then published - of_nat (eq_capacity q) else 0);
                  consumed = (if eq_consumed q < oldest then oldest else eq_consumed q)
              in case av_load (eq_slots q ! (unat consumed mod eq_capacity q)) of
                   None \<Rightarrow> (q, None)
                 | Some (ticket, v) \<Rightarrow>
                     if ticket \<noteq> consumed + 1 then (q, None) else (q\<lparr>eq_consumed := consumed + 1\<rparr>, Some v))"

section \<open>The mailbox of the latest command\<close>

type_synonym 'a command_mailbox = "'a atomic_value"

definition mailbox_publish :: "'a command_mailbox \<Rightarrow> 'a \<Rightarrow> 'a command_mailbox" where
  "mailbox_publish m v = av_store m v"

definition read_latest :: "('a \<Rightarrow> u64) \<Rightarrow> 'a command_mailbox \<Rightarrow> u64 \<Rightarrow> 'a option" where
  "read_latest sequence m after_sequence =
     (case av_load m of None \<Rightarrow> None | Some v \<Rightarrow> if sequence v \<le> after_sequence then None else Some v)"

section \<open>The mailbox of complete epochs\<close>

record 'a epoch_batch =
  eb_epoch :: u64
  eb_count :: nat
  eb_commands :: "'a list"

record 'a epoch_mailbox =
  em_size :: nat
  em_staging_epoch :: u64
  em_commands :: "'a list"
  em_staged :: "bool list"
  em_committed :: "'a epoch_batch atomic_value"

definition make_epoch_mailbox :: "nat \<Rightarrow> 'a \<Rightarrow> nat \<Rightarrow> 'a epoch_mailbox" where
  "make_epoch_mailbox maximum_members zero member_count =
     \<lparr>em_size = (if member_count \<le> maximum_members then member_count else 0), em_staging_epoch = 0,
      em_commands = replicate maximum_members zero, em_staged = replicate maximum_members False,
      em_committed = make_atomic \<lparr>eb_epoch = 0, eb_count = 0, eb_commands = replicate maximum_members zero\<rparr>\<rparr>"

definition epoch_stage :: "'a epoch_mailbox \<Rightarrow> nat \<Rightarrow> u64 \<Rightarrow> 'a \<Rightarrow> 'a epoch_mailbox \<times> bool" where
  "epoch_stage m index epoch command =
     (if em_size m = 0 \<or> index \<ge> em_size m \<or> epoch = 0 \<or> epoch < em_staging_epoch m then (m, False)
      else let m1 = (if epoch \<noteq> em_staging_epoch m
                     then m\<lparr>em_staging_epoch := epoch, em_staged := replicate (length (em_staged m)) False\<rparr> else m)
           in (m1\<lparr>em_commands := (em_commands m1)[index := command], em_staged := (em_staged m1)[index := True]\<rparr>, True))"

definition epoch_commit :: "'a epoch_mailbox \<Rightarrow> u64 \<Rightarrow> 'a epoch_mailbox \<times> bool" where
  "epoch_commit m epoch =
     (if em_size m = 0 \<or> epoch = 0 \<or> epoch \<noteq> em_staging_epoch m then (m, False)
      else if \<not> (\<forall>b \<in> set (take (em_size m) (em_staged m)). b) then (m, False)
      else (m\<lparr>em_committed := av_store (em_committed m) \<lparr>eb_epoch = epoch, eb_count = em_size m, eb_commands = em_commands m\<rparr>,
              em_staged := replicate (length (em_staged m)) False\<rparr>, True))"

definition consume_complete :: "'a epoch_mailbox \<Rightarrow> u64 \<Rightarrow> 'a epoch_batch option" where
  "consume_complete m after_epoch =
     (case av_load (em_committed m) of None \<Rightarrow> None | Some b \<Rightarrow> if eb_epoch b \<le> after_epoch then None else Some b)"

end
