(* ===== verification/Can_Props.thy ===== *)
theory Can_Props
  imports Can_Transport
begin

text \<open>
  Properties of the CAN transports: a stream of frames survives the serial adapter however its bytes are cut into
  reads, a protocol error of the adapter is permanent, no descriptor is leaked, and both transports are wires that
  deliver the frames they accept.
\<close>

section \<open>Encoding\<close>

definition vc_body :: "can_frame \<Rightarrow> bytes" where
  "vc_body f = kHeader # le_bytes 4 (can_id f) @ [can_dlc f] @ take (unat (can_dlc f)) (can_data f)"

lemma vc_encode_body: "vc_encode f = vc_body f @ [vc_checksum (vc_body f)]"
  by (simp add: vc_encode_def vc_body_def Let_def)

lemma dlc_le: "can_ok f \<Longrightarrow> unat (can_dlc f) \<le> 8"
  by (simp add: can_ok_def word_le_nat_alt)

lemma length_vc_body: "can_ok f \<Longrightarrow> length (vc_body f) = 6 + unat (can_dlc f)"
  using dlc_le [of f] by (simp add: vc_body_def can_ok_def)

lemma length_vc_encode: "can_ok f \<Longrightarrow> length (vc_encode f) = 7 + unat (can_dlc f)"
  by (simp add: vc_encode_body length_vc_body)

lemma le_bytes_4: "\<exists>a b c d. le_bytes 4 (i :: u32) = [a, b, c, d]"
  by (simp add: le_bytes_def numeral_eq_Suc)

lemma vc_body_fields:
  assumes "can_ok f"
  shows "vc_body f ! 0 = kHeader" "vc_body f ! 5 = can_dlc f" "take 4 (drop 1 (vc_body f)) = le_bytes 4 (can_id f)"
    "drop 6 (vc_body f) = take (unat (can_dlc f)) (can_data f)"
proof -
  obtain a b c d where "le_bytes 4 (can_id f) = [a, b, c, d]" using le_bytes_4 by blast
  then show "vc_body f ! 0 = kHeader" "vc_body f ! 5 = can_dlc f" "take 4 (drop 1 (vc_body f)) = le_bytes 4 (can_id f)"
    "drop 6 (vc_body f) = take (unat (can_dlc f)) (can_data f)"
    by (simp_all add: vc_body_def)
qed

section \<open>Parsing\<close>

text \<open>A complete frame is taken off the front; what is shorter than the frame it starts is left.\<close>

lemma vc_parse_complete:
  assumes f: "can_ok f"
  shows "vc_parse (vc_encode f @ q) c frame =
    vc_parse q (c + length (vc_encode f)) (if frame = None then Some (trimmed f) else frame)"
proof -
  let ?d = "vc_encode f @ q"
  have l: "length (vc_body f) = 6 + unat (can_dlc f)" by (rule length_vc_body [OF f])
  have n: "?d ! 0 = kHeader" "?d ! 5 = can_dlc f"
    using vc_body_fields(1,2) [OF f] l by (simp_all add: vc_encode_body nth_append)
  have t: "take (6 + unat (can_dlc f)) ?d = vc_body f" "?d ! (6 + unat (can_dlc f)) = vc_checksum (vc_body f)"
    "drop (7 + unat (can_dlc f)) ?d = q"
    using l by (simp_all add: vc_encode_body nth_append)
  have i: "take 4 (drop 1 ?d) = le_bytes 4 (can_id f)"
    using vc_body_fields(3) [OF f] l by (simp add: vc_encode_body)
  have p: "take (unat (can_dlc f)) (drop 6 ?d) = take (unat (can_dlc f)) (can_data f)"
    using vc_body_fields(4) [OF f] l dlc_le [OF f] f by (simp add: vc_encode_body can_ok_def)
  have r: "received_frame (le_word (take 4 (drop 1 ?d))) (?d ! 5) (drop 6 ?d) = trimmed f"
    unfolding i n received_frame_def trimmed_def p by (simp add: le_word_le_bytes)
  have len: "kHeaderSize + unat (?d ! 5) + 1 = 7 + unat (can_dlc f)" by (simp add: kHeaderSize_def n)
  have ge: "7 + unat (can_dlc f) \<le> length ?d" using l by (simp add: vc_encode_body)
  have ok: "\<not> (?d ! 0 \<noteq> kHeader \<or> ?d ! 5 > 8)" using n f by (simp add: can_ok_def not_less)
  have sum: "vc_checksum (take (7 + unat (can_dlc f) - 1) ?d) = ?d ! (7 + unat (can_dlc f) - 1)"
    using t(1,2) by simp
  have six: "drop kHeaderSize ?d = drop 6 ?d" by (simp only: kHeaderSize_def)
  have "vc_parse ?d c frame = vc_parse (drop (7 + unat (can_dlc f)) ?d) (c + (7 + unat (can_dlc f)))
      (if frame = None then Some (received_frame (le_word (take 4 (drop 1 ?d))) (?d ! 5) (drop 6 ?d)) else frame)"
    using ge ok sum by (subst vc_parse.simps) (simp only: Let_def len six, simp add: kHeaderSize_def)
  then show ?thesis unfolding r t(3) length_vc_encode [OF f] .
qed

lemma vc_parse_partial:
  assumes f: "can_ok f" and d: "vc_encode f = d @ suf" "suf \<noteq> []"
  shows "vc_parse d c frame = success (c, frame)"
proof (cases "length d \<ge> 7")
  case True
  have l: "length (vc_body f) = 6 + unat (can_dlc f)" by (rule length_vc_body [OF f])
  have short: "length d < 7 + unat (can_dlc f)" using arg_cong [OF d(1), of length] d(2) length_vc_encode [OF f] by (cases suf) auto
  have "d ! 0 = vc_encode f ! 0" "d ! 5 = vc_encode f ! 5" unfolding d(1) using True by (auto simp: nth_append)
  then have n: "d ! 0 = kHeader" "d ! 5 = can_dlc f"
    using vc_body_fields(1,2) [OF f] l by (simp_all add: vc_encode_body nth_append)
  have "\<not> d ! 5 > 8" using n f by (simp add: can_ok_def not_less)
  then show ?thesis using n short by (subst vc_parse.simps) (simp add: kHeaderSize_def Let_def)
qed (subst vc_parse.simps, simp add: kHeaderSize_def)

lemma vc_parse_short: "length d < 7 \<Longrightarrow> vc_parse d c frame = success (c, frame)"
  by (subst vc_parse.simps) (simp add: kHeaderSize_def)

lemma prefix_of_frames:
  assumes "b @ rest = vc_encode f @ others"
  obtains (complete) q where "b = vc_encode f @ q" "q @ rest = others"
  | (partial) suf where "vc_encode f = b @ suf" "suf \<noteq> []" "rest = suf @ others"
proof -
  obtain us where "b = vc_encode f @ us \<and> us @ rest = others \<or> b @ us = vc_encode f \<and> rest = us @ others"
    using assms by (auto simp: append_eq_append_conv2)
  then show thesis using complete [of us] complete [of "[]"] partial [of us] by (cases "us = []") auto
qed

section \<open>One read\<close>

text \<open>The bytes pending are always a proper prefix of the next frame.\<close>

definition awaiting :: "bytes \<Rightarrow> can_frame list \<Rightarrow> bool" where
  "awaiting b fs \<longleftrightarrow> (case fs of [] \<Rightarrow> b = [] | f # _ \<Rightarrow> length b < length (vc_encode f))"

definition stream_ok :: "can_frame list \<Rightarrow> bool" where
  "stream_ok fs \<longleftrightarrow> (\<forall>f \<in> set fs. can_ok f \<and> 1 \<le> can_dlc f)"

lemma stream_length: "stream_ok (f # fs) \<Longrightarrow> 8 \<le> length (vc_encode f)"
  by (auto simp: stream_ok_def length_vc_encode word_le_nat_alt)

lemma parse_rest:
  assumes ok: "stream_ok fs" and q: "q @ rest = concat (map vc_encode fs)" "length q \<le> 7"
  shows "vc_parse q c frame = success (c, frame) \<and> awaiting q fs"
proof (cases fs)
  case Nil
  then show ?thesis using q by (simp add: awaiting_def vc_parse_short)
next
  case (Cons f fs')
  have l: "8 \<le> length (vc_encode f)" using stream_length ok Cons by simp
  have f: "can_ok f" using ok Cons by (simp add: stream_ok_def)
  have "q @ rest = vc_encode f @ concat (map vc_encode fs')" using q Cons by simp
  then show ?thesis
  proof (cases rule: prefix_of_frames)
    case (complete q')
    then show ?thesis using l q(2) by simp
  next
    case (partial suf)
    then show ?thesis using vc_parse_partial [OF f partial(1,2)] Cons l q(2) by (simp add: awaiting_def)
  qed
qed

lemma vc_receive_stream:
  assumes fd: "vc_fd t \<ge> 0" and ok: "stream_ok fs" and wait: "awaiting (vc_buffer t) fs"
    and bs: "vc_buffer t @ r @ rest = concat (map vc_encode fs)"
    and fit: "length r \<le> kEncodedFrameSize - length (vc_buffer t)"
  shows "\<exists>b x fs1 fs2. vc_receive t (os_value r) = (t\<lparr>vc_buffer := b\<rparr>, success x) \<and> fs = fs1 @ fs2 \<and> frames_of [success x] = map trimmed fs1
     \<and> b @ rest = concat (map vc_encode fs2) \<and> awaiting b fs2"
proof (cases fs)
  case Nil
  then have "vc_buffer t = []" "r = []" "rest = []" using bs by auto
  then have "vc_receive t (os_value r) = (t\<lparr>vc_buffer := []\<rparr>, success None)"
    using fd by (simp add: vc_receive_def kEncodedFrameSize_def vc_parse_short Let_def success_def)
  then show ?thesis using Nil \<open>rest = []\<close> by (auto simp: awaiting_def success_def intro!: exI [of _ "[]"])
next
  case (Cons f fs')
  have f: "can_ok f" "stream_ok fs'" using ok Cons by (simp_all add: stream_ok_def)
  have l: "8 \<le> length (vc_encode f)" using stream_length [of f fs'] ok Cons by simp
  have l15: "length (vc_encode f) \<le> 15" using length_vc_encode [OF f(1)] dlc_le [OF f(1)] by simp
  have short: "length (vc_buffer t) < length (vc_encode f)" using wait Cons by (simp add: awaiting_def)
  then have rcv: "vc_receive t (os_value r) = (case vc_parse (vc_buffer t @ r) 0 None of
       Inl e \<Rightarrow> (t\<lparr>vc_buffer := vc_buffer t @ r\<rparr>, Inl e)
     | Inr (consumed, frame) \<Rightarrow> (t\<lparr>vc_buffer := drop consumed (vc_buffer t @ r)\<rparr>, success frame))"
    using fd l15 by (simp add: vc_receive_def kEncodedFrameSize_def Let_def)
  have total: "length (vc_buffer t @ r) \<le> 15" using fit short l15 by (simp add: kEncodedFrameSize_def)
  have "(vc_buffer t @ r) @ rest = vc_encode f @ concat (map vc_encode fs')" using bs Cons by simp
  then show ?thesis
  proof (cases rule: prefix_of_frames)
    case (complete q)
    have "length q \<le> 7" using total l arg_cong [OF complete(1), of length] by simp
    from parse_rest [OF f(2) complete(2) this] have p: "vc_parse (vc_buffer t @ r) 0 None = success (length (vc_encode f), Some (trimmed f))"
      "awaiting q fs'"
      unfolding complete(1) vc_parse_complete [OF f(1)] by auto
    have "vc_receive t (os_value r) = (t\<lparr>vc_buffer := q\<rparr>, success (Some (trimmed f)))"
      unfolding rcv p(1) by (simp add: success_def complete(1))
    then show ?thesis using p(2) complete(2) Cons
      by (intro exI [of _ q] exI [of _ "Some (trimmed f)"] exI [of _ "[f]"] exI [of _ fs']) (simp add: success_def)
  next
    case (partial suf)
    have "vc_receive t (os_value r) = (t\<lparr>vc_buffer := vc_buffer t @ r\<rparr>, success None)"
      unfolding rcv vc_parse_partial [OF f(1) partial(1,2)] by (simp add: success_def)
    moreover have "awaiting (vc_buffer t @ r) fs" using Cons arg_cong [OF partial(1), of length] partial(2) by (simp add: awaiting_def)
    ultimately show ?thesis using bs
      by (intro exI [of _ "vc_buffer t @ r"] exI [of _ None] exI [of _ "[]"] exI [of _ fs]) (simp add: success_def)
  qed
qed

section \<open>Streams\<close>

lemma frames_of_Cons: "frames_of (success x # xs) = frames_of [success x] @ frames_of xs"
  by (cases x) (simp_all add: success_def)

lemma vc_run_stream:
  assumes "vc_fd t \<ge> 0" "stream_ok fs" "awaiting (vc_buffer t) fs" "vc_buffer t @ concat rs = concat (map vc_encode fs)" "reads_fit t rs"
  shows "\<exists>xs. vc_run t (map os_value rs) = (t\<lparr>vc_buffer := []\<rparr>, xs) \<and> (\<forall>x \<in> set xs. has_value x) \<and> frames_of xs = map trimmed fs"
  using assms
proof (induction rs arbitrary: t fs)
  case Nil
  have "fs = []"
  proof (cases fs)
    case (Cons f fs')
    then show ?thesis using Nil.prems(3,4) by (simp add: awaiting_def)
  qed
  then show ?case using Nil.prems by (cases t) (simp add: awaiting_def)
next
  case (Cons r rs)
  have "\<exists>b x fs1 fs2. vc_receive t (os_value r) = (t\<lparr>vc_buffer := b\<rparr>, success x) \<and> fs = fs1 @ fs2 \<and> frames_of [success x] = map trimmed fs1
     \<and> b @ concat rs = concat (map vc_encode fs2) \<and> awaiting b fs2"
    using Cons.prems by (intro vc_receive_stream) (simp_all add: vc_pending_bytes_def)
  then obtain b x fs1 fs2 where s: "vc_receive t (os_value r) = (t\<lparr>vc_buffer := b\<rparr>, success x)" "fs = fs1 @ fs2"
    "frames_of [success x] = map trimmed fs1" "b @ concat rs = concat (map vc_encode fs2)" "awaiting b fs2" by blast
  have "\<exists>xs. vc_run (t\<lparr>vc_buffer := b\<rparr>) (map os_value rs) = (t\<lparr>vc_buffer := b\<rparr>\<lparr>vc_buffer := []\<rparr>, xs) \<and> (\<forall>x \<in> set xs. has_value x)
      \<and> frames_of xs = map trimmed fs2"
    using Cons.prems(1,2,5) s by (intro Cons.IH) (simp_all add: stream_ok_def)
  then obtain xs where "vc_run (t\<lparr>vc_buffer := b\<rparr>) (map os_value rs) = (t\<lparr>vc_buffer := []\<rparr>, xs)" "\<forall>x \<in> set xs. has_value x"
    "frames_of xs = map trimmed fs2" by auto
  then show ?case using s(1-3) frames_of_Cons [of x xs] by simp
qed

text \<open>Claim C33.
  The serial CAN adapter loses, duplicates and alters nothing.  When the bytes of any sequence of valid frames with at
  least one payload byte each arrive cut into reads in any way (each read delivering at most what was asked for),
  every receive succeeds, the frames received are exactly the frames sent, in order, with their payloads, and nothing
  is left pending.  The payload condition is needed: two complete empty frames fit in the buffer together and the
  second is then discarded.\<close>

theorem vc_stream_recovered:
  assumes "vc_fd t \<ge> 0" "vc_buffer t = []" "\<forall>f \<in> set fs. can_ok f \<and> 1 \<le> can_dlc f" "concat rs = concat (map vc_encode fs)"
    "reads_fit t rs"
  shows "\<exists>xs. vc_run t (map os_value rs) = (t, xs) \<and> (\<forall>x \<in> set xs. has_value x) \<and> frames_of xs = map trimmed fs"
proof -
  have a: "awaiting (vc_buffer t) fs" using assms(2,3)
    by (cases fs) (auto simp: awaiting_def length_vc_encode intro: length_vc_encode)
  have "\<exists>xs. vc_run t (map os_value rs) = (t\<lparr>vc_buffer := []\<rparr>, xs) \<and> (\<forall>x \<in> set xs. has_value x) \<and> frames_of xs = map trimmed fs"
    using assms a by (intro vc_run_stream) (simp_all add: stream_ok_def)
  moreover have "t\<lparr>vc_buffer := []\<rparr> = t" using assms(2) by (cases t) simp
  ultimately show ?thesis by simp
qed

definition frame_a :: can_frame where "frame_a = \<lparr>can_id = 0x11, can_data = [1, 2, 0, 0, 0, 0, 0, 0], can_dlc = 2\<rparr>"
definition frame_b :: can_frame where "frame_b = \<lparr>can_id = 0x7FF, can_data = [9, 0, 0, 0, 0, 0, 0, 0], can_dlc = 1\<rparr>"

theorem vc_stream_recovered_witness:
  "\<exists>xs. vc_run (make_virtual_can 3) (map os_value [take 5 (vc_encode frame_a), drop 5 (vc_encode frame_a) @ take 6 (vc_encode frame_b),
       drop 6 (vc_encode frame_b)]) = (make_virtual_can 3, xs) \<and> (\<forall>x \<in> set xs. has_value x) \<and> frames_of xs = [frame_a, frame_b]"
proof -
  let ?rs = "[take 5 (vc_encode frame_a), drop 5 (vc_encode frame_a) @ take 6 (vc_encode frame_b), drop 6 (vc_encode frame_b)]"
  have "reads_fit (make_virtual_can 3) ?rs" by code_simp
  moreover have "\<forall>f \<in> set [frame_a, frame_b]. can_ok f \<and> 1 \<le> can_dlc f" by code_simp
  moreover have "concat ?rs = concat (map vc_encode [frame_a, frame_b])" by simp
  moreover have "vc_fd (make_virtual_can 3) \<ge> 0" "vc_buffer (make_virtual_can 3) = []" by (simp_all add: make_virtual_can_def)
  moreover have "map trimmed [frame_a, frame_b] = [frame_a, frame_b]" by code_simp
  ultimately show ?thesis using vc_stream_recovered [of "make_virtual_can 3" "[frame_a, frame_b]" ?rs] by metis
qed

text \<open>Two empty frames in one read: only the first is returned, and the second is gone.\<close>

lemma empty_frame_dropped:
  fixes a b :: can_frame
  defines "a \<equiv> \<lparr>can_id = 1, can_data = replicate 8 0, can_dlc = 0\<rparr>" and "b \<equiv> \<lparr>can_id = 2, can_data = replicate 8 0, can_dlc = 0\<rparr>"
  shows "vc_run (make_virtual_can 3) [os_value (vc_encode a @ vc_encode b), os_value []] = (make_virtual_can 3, [success (Some a), success None])"
  unfolding a_def b_def by code_simp

section \<open>Errors\<close>

lemma vc_parse_error_stays: "vc_parse d c frame = Inl e \<Longrightarrow> vc_parse (d @ x) c' frame' = Inl e"
proof (induction d c frame arbitrary: c' frame' rule: vc_parse.induct)
  case (1 d c frame)
  show ?case
  proof (cases "length d \<ge> 7")
    case False
    then show ?thesis using 1(2) by (simp add: vc_parse_short)
  next
    case True
    then have long: "length (d @ x) \<ge> 7" by simp
    have n: "(d @ x) ! 0 = d ! 0" "(d @ x) ! 5 = d ! 5" using True by (auto simp: nth_append)
    let ?len = "kHeaderSize + unat (d ! 5) + 1"
    show ?thesis
    proof (cases "d ! 0 \<noteq> kHeader \<or> d ! 5 > 8")
      case True
      then show ?thesis using 1(2) \<open>length d \<ge> 7\<close> long n
        by (subst vc_parse.simps, subst (asm) vc_parse.simps) (simp add: kHeaderSize_def)
    next
      case head: False
      show ?thesis
      proof (cases "length d \<ge> ?len")
        case False
        then show ?thesis using 1(2) \<open>length d \<ge> 7\<close> head by (subst (asm) vc_parse.simps) (simp add: kHeaderSize_def)
      next
        case len: True
        then have t: "take (?len - 1) (d @ x) = take (?len - 1) d" "(d @ x) ! (?len - 1) = d ! (?len - 1)" "drop ?len (d @ x) = drop ?len d @ x"
          "length (d @ x) \<ge> ?len"
          by (auto simp: nth_append)
        have more: "7 \<le> length d" "kHeaderSize + 1 \<le> length d" "kHeaderSize + 1 \<le> length (d @ x)" using True by (simp_all add: kHeaderSize_def)
        show ?thesis
        proof (cases "vc_checksum (take (?len - 1) d) \<noteq> d ! (?len - 1)")
          case True
          then show ?thesis using 1(2) more head len t n
            by (subst vc_parse.simps, subst (asm) vc_parse.simps) (simp only: Let_def if_True if_False not_False_eq_True n t)
        next
          case sum: False
          have "vc_parse (drop ?len d) (c + ?len) (if frame = None then Some (received_frame (le_word (take 4 (drop 1 d))) (d ! 5) (drop kHeaderSize d)) else frame)
              = Inl e"
            using 1(2) more head len sum by (subst (asm) vc_parse.simps) (simp only: Let_def if_True if_False not_False_eq_True)
          from 1(1) [OF more(2) head refl len sum this] show ?thesis using more head len sum t n
            by (subst vc_parse.simps) (simp only: Let_def if_True if_False not_False_eq_True n t)
        qed
      qed
    qed
  qed
qed

definition vc_broken :: "virtual_can \<Rightarrow> bool" where
  "vc_broken t \<longleftrightarrow> vc_fd t < 0 \<or> (\<exists>e. vc_parse (vc_buffer t) 0 None = Inl e)"

lemma vc_broken_receive: "vc_broken t \<Longrightarrow> vc_broken (fst (vc_receive t r)) \<and> \<not> has_value (snd (vc_receive t r))"
  using vc_parse_error_stays [of "vc_buffer t" 0 None]
  by (auto simp: vc_broken_def vc_receive_def Let_def has_value_def failure_def split: os_outcome.split)

lemma vc_broken_run: "vc_broken t \<Longrightarrow> x \<in> set (snd (vc_run t rs)) \<Longrightarrow> \<not> has_value x"
proof (induction rs arbitrary: t)
  case (Cons r rs)
  then show ?case using vc_broken_receive [OF Cons.prems(1), of r] by (fastforce simp: Let_def split: prod.splits)
qed simp

lemma vc_error_broken: "vc_receive t (os_value r) = (t', Inl e) \<Longrightarrow> length (vc_buffer t) < kEncodedFrameSize \<Longrightarrow> vc_broken t'"
  by (auto simp: vc_receive_def vc_broken_def Let_def success_def split: if_splits sum.splits prod.splits)

text \<open>Every receive after one that failed on bytes it read fails too.\<close>

lemma vc_error_permanent:
  assumes "vc_receive t (os_value r) = (t', Inl e)" "length (vc_buffer t) < kEncodedFrameSize" "x \<in> set (snd (vc_run t' rs))"
  shows "\<not> has_value x"
  by (rule vc_broken_run [OF vc_error_broken [OF assms(1,2)] assms(3)])

section \<open>SocketCAN\<close>

lemma socketcan_open_no_leak:
  assumes "socketcan_open name (os_value fd) i b = (r, shut)" "0 \<le> fd" "name \<noteq> []" "length name < IFNAMSIZ"
  shows "(\<exists>t. r = success t \<and> sc_fd t = fd \<and> socketcan_close t = (\<lparr>sc_fd = -1, sc_owns_fd = False, sc_has_handler = False\<rparr>, [fd]) \<and> shut = [])
     \<or> \<not> has_value r \<and> shut = [fd]"
  using assms by (auto simp: socketcan_open_def socketcan_close_def split: os_outcome.splits)

lemma socketcan_close_once: "snd (socketcan_close (fst (socketcan_close t))) = []"
  by (simp add: socketcan_close_def)

lemma socketcan_move_closes_once:
  "socketcan_move t = (u, left) \<Longrightarrow> snd (socketcan_close left) = [] \<and> snd (socketcan_close u) = snd (socketcan_close t)"
  by (auto simp: socketcan_move_def socketcan_close_def)

section \<open>Both transports are wires\<close>

definition sc_accepts :: "can_frame \<Rightarrow> bool" where
  "sc_accepts f \<longleftrightarrow> can_id f \<le> CAN_SFF_MASK \<and> valid_dlc (can_dlc f)"

lemma sff_id: "(i :: u32) \<le> CAN_SFF_MASK \<Longrightarrow> i AND CAN_SFF_MASK = i \<and> i AND CAN_NON_DATA = 0"
proof -
  assume "i \<le> CAN_SFF_MASK"
  then have "unat i < 2 ^ 11" by (simp add: CAN_SFF_MASK_def word_le_nat_alt)
  then have "unat (take_bit 11 i) = unat i" by (simp add: unsigned_take_bit_eq take_bit_nat_eq_self)
  then have i: "take_bit 11 i = i" by (rule unsigned_word_eqI)
  have m: "CAN_SFF_MASK = mask 11" by (simp add: CAN_SFF_MASK_def mask_eq_exp_minus_1)
  have "i AND CAN_SFF_MASK = i" unfolding m by (simp add: i flip: take_bit_eq_mask)
  moreover have "i AND CAN_NON_DATA = (i AND CAN_SFF_MASK) AND CAN_NON_DATA" using calculation by simp
  moreover have "CAN_SFF_MASK AND CAN_NON_DATA = 0" by (simp add: CAN_SFF_MASK_def CAN_NON_DATA_def)
  ultimately show ?thesis by (metis and.assoc and_zero_eq)
qed

definition open_socketcan :: "nat \<Rightarrow> socketcan" where
  "open_socketcan n = \<lparr>sc_fd = int n, sc_owns_fd = True, sc_has_handler = True\<rparr>"

interpretation sc: can_wire sc_accepts "\<lambda>f. socketcan_send (open_socketcan n) f (os_value raw_frame_size)"
  "\<lambda>raw. socketcan_receive (open_socketcan m) (os_value (raw_frame_size, raw))" for n m
proof unfold_locales
  fix f assume "length (can_data f) = 8" "sc_accepts f"
  then show "\<exists>w. socketcan_send (open_socketcan n) f (os_value raw_frame_size) = (Some w, success ())
      \<and> socketcan_receive (open_socketcan m) (os_value (raw_frame_size, w)) = success (Some (trimmed f))"
    using sff_id [of "can_id f"]
    by (simp add: open_socketcan_def socketcan_send_def socketcan_receive_def sc_accepts_def not_less received_frame_def trimmed_def min_def valid_dlc_def word_le_nat_alt)
next
  fix f assume "\<not> sc_accepts f"
  then show "fst (socketcan_send (open_socketcan n) f (os_value raw_frame_size)) = None
      \<and> \<not> has_value (snd (socketcan_send (open_socketcan n) f (os_value raw_frame_size)))"
    by (simp add: open_socketcan_def socketcan_send_def sc_accepts_def not_less)
qed

definition vc_accepts :: "can_frame \<Rightarrow> bool" where
  "vc_accepts f \<longleftrightarrow> can_id f \<le> 0x1FFFFFFF \<and> can_dlc f \<le> 8"

interpretation vc: can_wire vc_accepts
  "\<lambda>f. vc_send (make_virtual_can (int n)) f (os_value (kHeaderSize + unat (can_dlc f) + 1))"
  "\<lambda>w. snd (vc_receive (make_virtual_can (int m)) (os_value w))" for n m
proof unfold_locales
  fix f :: can_frame assume l: "length (can_data f) = 8" and a: "vc_accepts f"
  then have ok: "can_ok f" using l by (simp add: vc_accepts_def can_ok_def)
  have "vc_parse (vc_encode f @ []) 0 None = success (length (vc_encode f), Some (trimmed f))"
    unfolding vc_parse_complete [OF ok] by (simp add: vc_parse_short)
  then have "snd (vc_receive (make_virtual_can (int m)) (os_value (vc_encode f))) = success (Some (trimmed f))"
    by (simp add: vc_receive_def make_virtual_can_def kEncodedFrameSize_def Let_def)
  then show "\<exists>w. (vc_send (make_virtual_can (int n)) f (os_value (kHeaderSize + unat (can_dlc f) + 1))) = (Some w, success ())
      \<and> snd (vc_receive (make_virtual_can (int m)) (os_value w)) = success (Some (trimmed f))"
    using a by (simp add: vc_send_def vc_accepts_def make_virtual_can_def not_less)
next
  fix f assume "\<not> vc_accepts f"
  then show "fst (vc_send (make_virtual_can (int n)) f (os_value (kHeaderSize + unat (can_dlc f) + 1))) = None
      \<and> \<not> has_value (snd (vc_send (make_virtual_can (int n)) f (os_value (kHeaderSize + unat (can_dlc f) + 1))))"
    by (auto simp: vc_send_def vc_accepts_def make_virtual_can_def not_less)
qed

end
