(* ===== verification/Transport_Runtime.thy ===== *)
theory Transport_Runtime
  imports Damiao Mailbox Can_Props Topology
begin

text \<open>
  The runtime that drives a transport, \<^verbatim>\<open>src/robot_io/daemon/transport_runtime.cpp\<close>, the construction of a SocketCAN
  runtime in the transport factory, and the callback of the daemon that stages a Damiao command.  One iteration of a
  worker loop is one definition; the threads themselves are two flags.
\<close>

section \<open>State\<close>

datatype runtime_mode = generic_mode | can_mode

record runtime_slot =
  rs_mailbox :: "device_frame command_mailbox"
  rs_consumed_sequence :: u64

record transport_runtime =
  tr_mode :: runtime_mode
  tr_has_transport :: bool
  tr_transport_open :: bool
  tr_can :: "socketcan option"
  tr_asynchronous :: bool
  tr_period :: int
  tr_slots :: "runtime_slot list"
  tr_running :: bool
  tr_worker :: bool
  tr_receive_worker :: bool
  tr_receive_sequence :: u64

definition make_slot :: runtime_slot where
  "make_slot = \<lparr>rs_mailbox = make_atomic empty_frame, rs_consumed_sequence = 0\<rparr>"

definition create_generic :: "bool \<Rightarrow> int \<Rightarrow> transport_runtime result" where
  "create_generic asynchronous_transport period =
     (if period \<le> 0 then failure invalid_argument ''transport runtime period must be positive''
      else success \<lparr>tr_mode = generic_mode, tr_has_transport = True, tr_transport_open = False, tr_can = None,
        tr_asynchronous = asynchronous_transport, tr_period = period, tr_slots = [], tr_running = False, tr_worker = False,
        tr_receive_worker = False, tr_receive_sequence = 0\<rparr>)"

definition create_can :: "socketcan \<Rightarrow> bool \<Rightarrow> nat \<Rightarrow> transport_runtime result" where
  "create_can transport callback actuator_slots =
     (if \<not> socketcan_valid transport \<or> \<not> callback \<or> actuator_slots = 0
      then failure invalid_argument ''transport runtime requires an open transport and callback''
      else success \<lparr>tr_mode = can_mode, tr_has_transport = False, tr_transport_open = False,
        tr_can = Some (socketcan_set_handler transport True), tr_asynchronous = True, tr_period = 1000000,
        tr_slots = replicate actuator_slots make_slot, tr_running = False, tr_worker = False, tr_receive_worker = False,
        tr_receive_sequence = 0\<rparr>)"

definition create_socketcan ::
  "transport_key \<Rightarrow> bool \<Rightarrow> nat \<Rightarrow> int os_outcome \<Rightarrow> unit os_outcome \<Rightarrow> unit os_outcome \<Rightarrow> transport_runtime result" where
  "create_socketcan key callback actuator_slots socket_r ioctl_r bind_r =
     (case factory_validate key of
        Inl e \<Rightarrow> Inl e
      | Inr _ \<Rightarrow>
          if fst key \<noteq> socketcan_kind then failure invalid_argument ''SocketCAN factory requires a socketcan transport key''
          else case fst (socketcan_open (snd key) socket_r ioctl_r bind_r) of
                 Inl e \<Rightarrow> Inl e
               | Inr t \<Rightarrow> create_can t callback actuator_slots)"

section \<open>Starting and stopping\<close>

definition runtime_stop :: "transport_runtime \<Rightarrow> transport_runtime" where
  "runtime_stop r = r\<lparr>tr_running := False, tr_worker := False, tr_receive_worker := False,
     tr_transport_open := (if tr_mode r = generic_mode \<and> tr_has_transport r then False else tr_transport_open r)\<rparr>"

text \<open>\<open>opened\<close> is the result of opening the transport, \<open>threads\<close> whether the workers could be created.\<close>

definition runtime_start :: "transport_runtime \<Rightarrow> unit result \<Rightarrow> bool \<Rightarrow> transport_runtime \<times> unit result" where
  "runtime_start r opened threads =
     (if tr_running r then (r, failure invalid_argument ''transport runtime is already running'')
      else
        let r1 = r\<lparr>tr_running := True\<rparr>; broken = failure internal ''failed to start transport runtime workers''
        in if tr_mode r = generic_mode
           then if \<not> tr_has_transport r
                then (r1\<lparr>tr_running := False\<rparr>, failure invalid_argument ''generic transport is missing'')
                else case opened of
                       Inl e \<Rightarrow> (r1\<lparr>tr_running := False\<rparr>, Inl e)
                     | Inr _ \<Rightarrow>
                         let r2 = r1\<lparr>tr_transport_open := True\<rparr>
                         in if \<not> threads then (runtime_stop r2, broken)
                            else (r2\<lparr>tr_worker := True, tr_receive_worker := tr_asynchronous r\<rparr>, success ())
           else if \<not> threads then (runtime_stop r1, broken)
                else (r1\<lparr>tr_worker := True, tr_receive_worker := True\<rparr>, success ()))"

section \<open>Frames\<close>

definition stage_frame :: "transport_runtime \<Rightarrow> nat \<Rightarrow> device_frame \<Rightarrow> transport_runtime \<times> unit result" where
  "stage_frame r slot frame =
     (if tr_mode r \<noteq> can_mode \<or> slot \<ge> length (tr_slots r) \<or> unat (fm_size frame) > 256
      then (r, failure invalid_argument ''transport frame slot or size is invalid'')
      else let s = tr_slots r ! slot
           in (r\<lparr>tr_slots := (tr_slots r)[slot := s\<lparr>rs_mailbox := mailbox_publish (rs_mailbox s) frame\<rparr>]\<rparr>, success ()))"

text \<open>The CAN frame of a device frame; \<open>None\<close> when the copy would write past the eight bytes of the CAN frame, which is
  undefined behaviour.\<close>

definition to_can :: "device_frame \<Rightarrow> can_frame option" where
  "to_can frame =
     (let dlc = (ucast (fm_size frame) :: u8)
      in if dlc > 8 then None
         else Some \<lparr>can_id = fm_address frame, can_data = take (unat dlc) (fm_bytes frame) @ replicate (8 - unat dlc) 0, can_dlc = dlc\<rparr>)"

text \<open>The device frame the receive handler builds.\<close>

definition from_can :: "can_frame \<Rightarrow> device_frame" where
  "from_can f = empty_frame\<lparr>fm_address := can_id f, fm_size := ucast (can_dlc f),
     fm_bytes := take (unat (can_dlc f)) (can_data f) @ drop (unat (can_dlc f)) (fm_bytes empty_frame)\<rparr>"

text \<open>One slot of one iteration of \<open>cycle_loop\<close>: the frame that reached the socket, if any.  The code records the sequence of
  the frame before it sends it and discards the result of sending, so a frame that could not be written whole is lost.\<close>

definition cycle_slot :: "socketcan \<Rightarrow> runtime_slot \<Rightarrow> nat os_outcome \<Rightarrow> (runtime_slot \<times> raw_can_frame option) option" where
  "cycle_slot t s w =
     (case read_latest fm_sequence (rs_mailbox s) (rs_consumed_sequence s) of
        None \<Rightarrow> Some (s, None)
      | Some frame \<Rightarrow>
          (case to_can frame of
             None \<Rightarrow> None
           | Some f \<Rightarrow>
               let (raw, sent) = socketcan_send t f w
               in Some (s\<lparr>rs_consumed_sequence := fm_sequence frame\<rparr>, if has_value sent then raw else None)))"

fun cycle_slots :: "socketcan \<Rightarrow> runtime_slot list \<Rightarrow> nat os_outcome list \<Rightarrow> (runtime_slot list \<times> raw_can_frame list) option" where
  "cycle_slots t [] ws = Some ([], [])"
| "cycle_slots t (s # ss) ws =
     (case cycle_slot t s (case ws of [] \<Rightarrow> os_would_block | w # _ \<Rightarrow> w) of
        None \<Rightarrow> None
      | Some (s', sent) \<Rightarrow>
          (case cycle_slots t ss (tl ws) of
             None \<Rightarrow> None
           | Some (ss', raws) \<Rightarrow> Some (s' # ss', (case sent of None \<Rightarrow> [] | Some raw \<Rightarrow> [raw]) @ raws)))"

definition can_cycle :: "transport_runtime \<Rightarrow> nat os_outcome list \<Rightarrow> (transport_runtime \<times> raw_can_frame list) option" where
  "can_cycle r ws =
     (case tr_can r of
        None \<Rightarrow> None
      | Some t \<Rightarrow> (case cycle_slots t (tr_slots r) ws of None \<Rightarrow> None | Some (ss, raws) \<Rightarrow> Some (r\<lparr>tr_slots := ss\<rparr>, raws)))"

text \<open>One iteration of the receive worker: the callback is given the frame and its number.\<close>

definition receive_worker_step :: "transport_runtime \<Rightarrow> (nat \<times> raw_can_frame) os_outcome \<Rightarrow> transport_runtime \<times> (device_frame \<times> u64) option" where
  "receive_worker_step r outcome =
     (case tr_can r of
        None \<Rightarrow> (r, None)
      | Some t \<Rightarrow>
          (case socketcan_receive_once t outcome of
             None \<Rightarrow> (r, None)
           | Some f \<Rightarrow> let n = tr_receive_sequence r + 1 in (r\<lparr>tr_receive_sequence := n\<rparr>, Some (from_can f, n))))"

section \<open>Staging a motor command\<close>

record damiao_command_value =
  cv_enabled :: bool
  cv_fault_reset :: bool
  cv_command :: mit_command
  cv_sequence :: u64
  cv_source_timestamp_ns :: int

definition stage_damiao_command ::
  "int \<Rightarrow> damiao_actuator list \<Rightarrow> device_binding option list \<Rightarrow> transport_runtime list \<Rightarrow> nat \<Rightarrow> damiao_command_value \<Rightarrow>
    damiao_actuator list \<times> transport_runtime list" where
  "stage_damiao_command unspecified actuators bindings runtimes index v =
     (if index \<ge> length bindings \<or> bindings ! index = None \<or> index \<ge> length actuators then (actuators, runtimes)
      else
        let a = actuators ! index;
            a1 = set_command (if cv_enabled v then set_enable a else set_disable a) (cv_command v);
            a2 = (if cv_fault_reset v then request_zero_position a1 else a1);
            actuators1 = actuators[index := clear_zero_position a2]
        in case encode_frame unspecified a2 of
             Inl _ \<Rightarrow> (actuators1, runtimes)
           | Inr frame \<Rightarrow>
               let route = the (bindings ! index); t = db_transport_index route
               in if t < length runtimes
                  then (actuators1, runtimes[t := fst (stage_frame (runtimes ! t) (db_transmit_slot route) (frame\<lparr>fm_sequence := cv_sequence v\<rparr>))])
                  else (actuators1, runtimes))"

end
