(* ===== verification/Dds_Endpoint.thy ===== *)
theory Dds_Endpoint
  imports Dds_Topics Mailbox Transport_Runtime
begin

text \<open>
  The DDS endpoint of the daemon, \<^verbatim>\<open>src/robot_io/dds/daemon_endpoint.cpp\<close>, with the message types of
  \<^verbatim>\<open>idl/policy_runtime/robot_io.idl\<close>.  The DDS middleware is a parameter: what a reader takes is an argument, a sample
  without valid data being \<open>None\<close>, and what a writer is given is a result.  One iteration of the worker loop is one
  definition per group of channels, over a state of type \<open>'s\<close> that stands for whatever the callbacks change.
\<close>

section \<open>Messages\<close>

definition DDS_SCHEMA_VERSION :: u32 where "DDS_SCHEMA_VERSION = 1"

record message_header =
  mh_schema_version :: u32
  mh_robot_id :: string
  mh_device_id :: string
  mh_session_id :: string
  mh_sequence_number :: u64
  mh_source_timestamp_ns :: int
  mh_bus_cycle :: u64
  mh_flags :: u32

record cia402_actuator_command =
  xa_header :: message_header
  xa_target :: fp
  xa_mode :: int
  xa_command_flags :: u32
  xa_command_epoch :: u64

record cia402_sensor_state =
  xs_header :: message_header
  xs_position :: fp
  xs_velocity :: fp
  xs_torque :: fp
  xs_status_word :: u16
  xs_mode_display :: int

record damiao_actuator_command =
  ya_header :: message_header
  ya_enabled :: bool
  ya_fault_reset :: bool
  ya_position :: fp
  ya_velocity :: fp
  ya_kp :: fp
  ya_kd :: fp
  ya_torque :: fp

record damiao_sensor_state =
  ys_header :: message_header
  ys_position :: fp
  ys_velocity :: fp
  ys_torque :: fp
  ys_motor_id :: u8
  ys_error_code :: u8
  ys_mos_temperature_c :: int
  ys_rotor_temperature_c :: int

record st3215_actuator_command =
  za_header :: message_header
  za_target_radians :: fp
  za_enabled :: bool
  za_fault_reset :: bool

record st3215_sensor_state =
  zs_header :: message_header
  zs_position_radians :: fp
  zs_position_units :: u16
  zs_error_flags :: u16

record ethercat_command_commit =
  ec_header :: message_header
  ec_execution_group :: string
  ec_command_epoch :: u64

record robot_io_health =
  rh_header :: message_header
  rh_health_flags :: u32
  rh_dropped_samples :: u32
  rh_diagnostic :: string

type_synonym 'a sample = "'a option"

definition empty_header :: message_header where
  "empty_header = \<lparr>mh_schema_version = 0, mh_robot_id = [], mh_device_id = [], mh_session_id = [], mh_sequence_number = 0,
     mh_source_timestamp_ns = 0, mh_bus_cycle = 0, mh_flags = 0\<rparr>"

section \<open>Values and events\<close>

record cia402_command_value =
  cvx_target :: fp
  cvx_mode :: int
  cvx_flags :: u32
  cvx_sequence :: u64
  cvx_source_timestamp_ns :: int

record st3215_command_value =
  cvz_target_radians :: fp
  cvz_enabled :: bool
  cvz_fault_reset :: bool
  cvz_sequence :: u64
  cvz_source_timestamp_ns :: int

record event_stamp =
  es_sequence :: u64
  es_source_timestamp_ns :: int
  es_bus_cycle :: u64
  es_flags :: u32

record cia402_sensor_event = event_stamp +
  xe_position :: fp
  xe_velocity :: fp
  xe_torque :: fp
  xe_status_word :: u16
  xe_mode_display :: int

record damiao_sensor_event = event_stamp +
  ye_position :: fp
  ye_velocity :: fp
  ye_torque :: fp
  ye_motor_id :: u8
  ye_error_code :: u8
  ye_mos_temperature_c :: int
  ye_rotor_temperature_c :: int

record st3215_sensor_event = event_stamp +
  ze_position_radians :: fp
  ze_position_units :: u16
  ze_error_flags :: u16

record robot_io_health_event =
  he_sequence :: u64
  he_source_timestamp_ns :: int
  he_health_flags :: u32
  he_dropped_samples :: u32

definition zero_value :: cia402_command_value where
  "zero_value = \<lparr>cvx_target = Fin 0, cvx_mode = 0, cvx_flags = 0, cvx_sequence = 0, cvx_source_timestamp_ns = 0\<rparr>"

definition zero_cia402_event :: cia402_sensor_event where
  "zero_cia402_event = \<lparr>es_sequence = 0, es_source_timestamp_ns = 0, es_bus_cycle = 0, es_flags = 0, xe_position = Fin 0,
     xe_velocity = Fin 0, xe_torque = Fin 0, xe_status_word = 0, xe_mode_display = 0\<rparr>"

definition zero_damiao_event :: damiao_sensor_event where
  "zero_damiao_event = \<lparr>es_sequence = 0, es_source_timestamp_ns = 0, es_bus_cycle = 0, es_flags = 0, ye_position = Fin 0,
     ye_velocity = Fin 0, ye_torque = Fin 0, ye_motor_id = 0, ye_error_code = 0, ye_mos_temperature_c = 0,
     ye_rotor_temperature_c = 0\<rparr>"

definition zero_st3215_event :: st3215_sensor_event where
  "zero_st3215_event = \<lparr>es_sequence = 0, es_source_timestamp_ns = 0, es_bus_cycle = 0, es_flags = 0,
     ze_position_radians = Fin 0, ze_position_units = 0, ze_error_flags = 0\<rparr>"

definition zero_health_event :: robot_io_health_event where
  "zero_health_event = \<lparr>he_sequence = 0, he_source_timestamp_ns = 0, he_health_flags = 0, he_dropped_samples = 0\<rparr>"

section \<open>State\<close>

record 'e state_channel =
  ch_device_id :: string
  ch_queue :: "'e event_queue"

record ethercat_group =
  eg_name :: string
  eg_epoch :: u64
  eg_commands :: "cia402_command_value list"
  eg_staged :: "bool list"

record group_channel =
  gc_group_index :: nat
  gc_member_index :: nat
  gc_device_id :: string

record command_channel =
  kc_actuator_index :: nat
  kc_device_id :: string

record dds_endpoint =
  de_robot_id :: string
  de_cia402_channels :: "cia402_sensor_event state_channel list"
  de_damiao_channels :: "damiao_sensor_event state_channel list"
  de_st3215_channels :: "st3215_sensor_event state_channel list"
  de_ethercat_groups :: "ethercat_group list"
  de_cia402_command_channels :: "group_channel list"
  de_commit_channels :: "nat list"
  de_damiao_command_channels :: "command_channel list"
  de_st3215_command_channels :: "command_channel list"
  de_health_queue :: "robot_io_health_event event_queue"
  de_has_health_channel :: bool
  de_running :: bool
  de_worker_failed :: bool
  de_worker :: bool

record 's dds_callbacks =
  cb_stage_ethercat_epoch :: "(string \<Rightarrow> u64 \<Rightarrow> cia402_command_value list \<Rightarrow> 's \<Rightarrow> 's) option"
  cb_stage_damiao_command :: "(nat \<Rightarrow> damiao_command_value \<Rightarrow> 's \<Rightarrow> 's) option"
  cb_stage_st3215_command :: "(nat \<Rightarrow> st3215_command_value \<Rightarrow> 's \<Rightarrow> 's) option"

section \<open>Construction\<close>

definition select_queue_capacity :: "nat \<Rightarrow> nat" where
  "select_queue_capacity capacity = (if capacity \<in> {32, 64, 128, 256} then capacity else 16)"

definition descriptors_of :: "topic_kind \<Rightarrow> device_kind \<Rightarrow> topic_descriptor list \<Rightarrow> topic_descriptor list" where
  "descriptors_of kind device ds = filter (\<lambda>d. td_kind d = kind \<and> td_device_kind d = device) ds"

definition make_channel :: "'e \<Rightarrow> nat \<Rightarrow> topic_descriptor \<Rightarrow> 'e state_channel" where
  "make_channel zero capacity d =
     \<lparr>ch_device_id = td_device_id d, ch_queue = make_event_queue (select_queue_capacity capacity) zero\<rparr>"

text \<open>One command descriptor of a CiA 402 device joins its group, which is created when its name is new.\<close>

definition add_group_member ::
  "topic_descriptor \<Rightarrow> ethercat_group list \<times> (string \<rightharpoonup> nat) \<times> group_channel list
     \<Rightarrow> ethercat_group list \<times> (string \<rightharpoonup> nat) \<times> group_channel list" where
  "add_group_member d st =
     (let (groups, indices, channels) = st; name = td_execution_group d;
          (groups1, indices1) =
            (case indices name of
               Some _ \<Rightarrow> (groups, indices)
             | None \<Rightarrow> (groups @ [\<lparr>eg_name = name, eg_epoch = 0, eg_commands = [], eg_staged = []\<rparr>],
                        indices(name \<mapsto> length groups)));
          entry = the (indices1 name); g = groups1 ! entry; member = length (eg_commands g)
      in (groups1[entry := g\<lparr>eg_commands := eg_commands g @ [zero_value], eg_staged := eg_staged g @ [False]\<rparr>], indices1,
          channels @ [\<lparr>gc_group_index = entry, gc_member_index = member, gc_device_id = td_device_id d\<rparr>]))"

definition build_groups ::
  "topic_descriptor list \<Rightarrow> ethercat_group list \<times> (string \<rightharpoonup> nat) \<times> group_channel list" where
  "build_groups ds = fold add_group_member (descriptors_of command_topic cia402_device ds) ([], Map.empty, [])"

definition command_channels :: "device_kind \<Rightarrow> topic_descriptor list \<Rightarrow> command_channel list" where
  "command_channels device ds =
     map (\<lambda>(i, d). \<lparr>kc_actuator_index = i, kc_device_id = td_device_id d\<rparr>) (enumerate 0 (descriptors_of command_topic device ds))"

definition make_endpoint :: "string \<Rightarrow> nat \<Rightarrow> topic_descriptor list \<Rightarrow> dds_endpoint" where
  "make_endpoint robot_id queue_capacity ds =
     (let (groups, indices, channels) = build_groups ds
      in \<lparr>de_robot_id = robot_id,
          de_cia402_channels = map (make_channel zero_cia402_event queue_capacity) (descriptors_of state_topic cia402_device ds),
          de_damiao_channels = map (make_channel zero_damiao_event queue_capacity) (descriptors_of state_topic damiao_device ds),
          de_st3215_channels = map (make_channel zero_st3215_event queue_capacity) (descriptors_of state_topic st3215_device ds),
          de_ethercat_groups = groups, de_cia402_command_channels = channels,
          de_commit_channels =
            List.map_filter (\<lambda>d. if td_kind d = commit_topic then indices (td_execution_group d) else None) ds,
          de_damiao_command_channels = command_channels damiao_device ds,
          de_st3215_command_channels = command_channels st3215_device ds,
          de_health_queue = make_event_queue (select_queue_capacity queue_capacity) zero_health_event,
          de_has_health_channel = list_ex (\<lambda>d. td_kind d = health_topic) ds,
          de_running = False, de_worker_failed = False, de_worker = False\<rparr>)"

text \<open>
  The CycloneDDS configuration is searched from the working directory upwards, at most six levels.  A directory is the
  list of its names with the innermost first; \<open>exists\<close> and \<open>read_file\<close> are the file system.
\<close>

definition directory_path :: "string list \<Rightarrow> string" where
  "directory_path names = ''/'' @ join_names (rev names)"

definition append_path :: "string list \<Rightarrow> string \<Rightarrow> string" where
  "append_path names p = (if names = [] then ''/'' @ p else directory_path names @ ''/'' @ p)"

fun resolve_config :: "nat \<Rightarrow> (string \<Rightarrow> bool) \<Rightarrow> string \<Rightarrow> string list \<Rightarrow> string" where
  "resolve_config 0 exists configured_path candidate = configured_path"
| "resolve_config (Suc depth) exists configured_path candidate =
     (if exists (append_path candidate configured_path) then append_path candidate configured_path
      else if candidate = [] then configured_path
      else resolve_config depth exists configured_path (tl candidate))"

definition load_cyclone_config ::
  "(string \<Rightarrow> bool) \<Rightarrow> (string \<Rightarrow> string) \<Rightarrow> string list \<Rightarrow> string \<Rightarrow> string result" where
  "load_cyclone_config exists read_file cwd configured_path =
     (if configured_path = [] then success []
      else
        let path = (if hd configured_path = CHR ''/'' then configured_path else resolve_config 6 exists configured_path cwd)
        in if \<not> exists path
           then failure unavailable (''CycloneDDS configuration file does not exist: '' @ configured_path)
           else if read_file path = [] then failure io (''CycloneDDS configuration file is empty: '' @ path)
           else success (read_file path))"

definition DDS_RETCODE_PRECONDITION_NOT_MET :: int where "DDS_RETCODE_PRECONDITION_NOT_MET = - 4"

text \<open>\<open>domain\<close> is the result of creating the configured domain, \<open>participant\<close> the message of an exception of the
  middleware while the participant and its entities are created.\<close>

definition endpoint_create ::
  "robot_profile \<Rightarrow> (string \<Rightarrow> bool) \<Rightarrow> (string \<Rightarrow> string) \<Rightarrow> string list \<Rightarrow> int \<Rightarrow> string option \<Rightarrow> dds_endpoint result" where
  "endpoint_create profile exists read_file cwd domain participant =
     (let dds = rp_dds profile
      in if dc_backend dds \<noteq> dds_backend then failure invalid_argument ''DDS daemon endpoint requires DDS backend''
         else case load_cyclone_config exists read_file cwd (dc_cyclone_config dds) of
           Inl e \<Rightarrow> Inl e
         | Inr configuration \<Rightarrow>
             if configuration \<noteq> [] \<and> domain \<le> 0 \<and> domain \<noteq> DDS_RETCODE_PRECONDITION_NOT_MET
             then failure io ''failed to create configured CycloneDDS domain''
             else case build_dds_topic_registry profile (dc_robot_id dds) of
               Inl e \<Rightarrow> Inl e
             | Inr ds \<Rightarrow>
                 (case participant of
                    Some what \<Rightarrow> failure io (''failed to create DDS participant: '' @ what)
                  | None \<Rightarrow> success (make_endpoint (dc_robot_id dds) (dc_sensor_queue_capacity dds) ds)))"

section \<open>Starting, stopping and queueing\<close>

definition endpoint_start :: "dds_endpoint \<Rightarrow> dds_endpoint \<times> unit result" where
  "endpoint_start e =
     (if de_running e then (e, failure invalid_argument ''DDS daemon endpoint is not startable'')
      else (e\<lparr>de_running := True, de_worker := True\<rparr>, success ()))"

definition endpoint_stop :: "dds_endpoint \<Rightarrow> dds_endpoint" where
  "endpoint_stop e = e\<lparr>de_worker := False, de_running := False\<rparr>"

definition poll_health :: "dds_endpoint \<Rightarrow> unit result" where
  "poll_health e = (if de_worker_failed e then failure io ''DDS daemon worker failed'' else success ())"

text \<open>An exception of the middleware ends the worker.\<close>

definition worker_exception :: "dds_endpoint \<Rightarrow> dds_endpoint" where
  "worker_exception e = e\<lparr>de_worker_failed := True, de_worker := False\<rparr>"

definition enqueue_event :: "'e state_channel list \<Rightarrow> nat \<Rightarrow> 'e \<Rightarrow> 'e state_channel list \<times> bool" where
  "enqueue_event channels sensor_index event =
     (if sensor_index \<ge> length channels then (channels, False)
      else let c = channels ! sensor_index; (q, ok) = push_realtime (ch_queue c) event
           in (channels[sensor_index := c\<lparr>ch_queue := q\<rparr>], ok))"

definition enqueue_cia402_sensor_realtime :: "dds_endpoint \<Rightarrow> nat \<Rightarrow> cia402_sensor_event \<Rightarrow> dds_endpoint \<times> bool" where
  "enqueue_cia402_sensor_realtime e i event =
     (let (cs, ok) = enqueue_event (de_cia402_channels e) i event in (e\<lparr>de_cia402_channels := cs\<rparr>, ok))"

definition enqueue_damiao_sensor_realtime :: "dds_endpoint \<Rightarrow> nat \<Rightarrow> damiao_sensor_event \<Rightarrow> dds_endpoint \<times> bool" where
  "enqueue_damiao_sensor_realtime e i event =
     (let (cs, ok) = enqueue_event (de_damiao_channels e) i event in (e\<lparr>de_damiao_channels := cs\<rparr>, ok))"

definition enqueue_st3215_sensor_realtime :: "dds_endpoint \<Rightarrow> nat \<Rightarrow> st3215_sensor_event \<Rightarrow> dds_endpoint \<times> bool" where
  "enqueue_st3215_sensor_realtime e i event =
     (let (cs, ok) = enqueue_event (de_st3215_channels e) i event in (e\<lparr>de_st3215_channels := cs\<rparr>, ok))"

definition enqueue_health_realtime :: "dds_endpoint \<Rightarrow> robot_io_health_event \<Rightarrow> dds_endpoint \<times> bool" where
  "enqueue_health_realtime e event = (let (q, ok) = push_realtime (de_health_queue e) event in (e\<lparr>de_health_queue := q\<rparr>, ok))"

definition dropped_cia402_sensor_samples :: "dds_endpoint \<Rightarrow> nat \<Rightarrow> u64" where
  "dropped_cia402_sensor_samples e i =
     (if i \<ge> length (de_cia402_channels e) then 0 else eq_dropped (ch_queue (de_cia402_channels e ! i)))"

section \<open>The worker: commands\<close>

definition header_matches :: "string \<Rightarrow> string \<Rightarrow> message_header \<Rightarrow> bool" where
  "header_matches robot_id device_id h \<longleftrightarrow>
     mh_schema_version h = DDS_SCHEMA_VERSION \<and> mh_robot_id h = robot_id \<and> mh_device_id h = device_id"

definition value_of_command :: "cia402_actuator_command \<Rightarrow> cia402_command_value" where
  "value_of_command v = \<lparr>cvx_target = xa_target v, cvx_mode = xa_mode v, cvx_flags = xa_command_flags v,
     cvx_sequence = mh_sequence_number (xa_header v), cvx_source_timestamp_ns = mh_source_timestamp_ns (xa_header v)\<rparr>"

definition stage_member ::
  "string \<Rightarrow> group_channel \<Rightarrow> cia402_actuator_command sample \<Rightarrow> ethercat_group list \<times> bool \<Rightarrow> ethercat_group list \<times> bool" where
  "stage_member robot_id channel sample st =
     (case sample of
        None \<Rightarrow> st
      | Some v \<Rightarrow>
          if \<not> header_matches robot_id (gc_device_id channel) (xa_header v) \<or> xa_command_epoch v = 0 \<or> \<not> isfinite (xa_target v)
          then st
          else let groups = fst st; k = gc_group_index channel; g = groups ! k;
                   g1 = (if eg_epoch g \<noteq> xa_command_epoch v
                         then g\<lparr>eg_epoch := xa_command_epoch v, eg_staged := map (\<lambda>_. False) (eg_staged g)\<rparr> else g);
                   g2 = g1\<lparr>eg_commands := (eg_commands g1)[gc_member_index channel := value_of_command v],
                           eg_staged := (eg_staged g1)[gc_member_index channel := True]\<rparr>
               in (groups[k := g2], True))"

definition commit_group ::
  "'s dds_callbacks \<Rightarrow> string \<Rightarrow> nat \<Rightarrow> ethercat_command_commit sample \<Rightarrow> ethercat_group list \<times> 's \<times> bool
     \<Rightarrow> ethercat_group list \<times> 's \<times> bool" where
  "commit_group cbs robot_id k sample st =
     (case sample of
        None \<Rightarrow> st
      | Some v \<Rightarrow>
          let (groups, s, consumed) = st; g = groups ! k; h = ec_header v
          in if mh_schema_version h \<noteq> DDS_SCHEMA_VERSION \<or> mh_robot_id h \<noteq> robot_id \<or> ec_execution_group v \<noteq> eg_name g
                \<or> ec_command_epoch v = 0 \<or> ec_command_epoch v \<noteq> eg_epoch g \<or> \<not> list_all id (eg_staged g)
             then st
             else let s1 = (case cb_stage_ethercat_epoch cbs of None \<Rightarrow> s | Some f \<Rightarrow> f (eg_name g) (eg_epoch g) (eg_commands g) s)
                  in (groups[k := g\<lparr>eg_staged := map (\<lambda>_. False) (eg_staged g)\<rparr>], s1, True))"

definition stage_damiao_sample ::
  "'s dds_callbacks \<Rightarrow> string \<Rightarrow> command_channel \<Rightarrow> damiao_actuator_command sample \<Rightarrow> 's \<times> bool \<Rightarrow> 's \<times> bool" where
  "stage_damiao_sample cbs robot_id channel sample st =
     (case sample of
        None \<Rightarrow> st
      | Some v \<Rightarrow>
          if \<not> header_matches robot_id (kc_device_id channel) (ya_header v) \<or> \<not> isfinite (ya_position v)
             \<or> \<not> isfinite (ya_velocity v) \<or> \<not> isfinite (ya_kp v) \<or> \<not> isfinite (ya_kd v) \<or> \<not> isfinite (ya_torque v)
          then st
          else (case cb_stage_damiao_command cbs of
                  None \<Rightarrow> fst st
                | Some f \<Rightarrow> f (kc_actuator_index channel)
                    \<lparr>cv_enabled = ya_enabled v, cv_fault_reset = ya_fault_reset v,
                     cv_command = \<lparr>mc_position = ya_position v, mc_velocity = ya_velocity v, mc_kp = ya_kp v, mc_kd = ya_kd v,
                                   mc_torque = ya_torque v\<rparr>,
                     cv_sequence = mh_sequence_number (ya_header v),
                     cv_source_timestamp_ns = mh_source_timestamp_ns (ya_header v)\<rparr> (fst st), True))"

definition stage_st3215_sample ::
  "'s dds_callbacks \<Rightarrow> string \<Rightarrow> command_channel \<Rightarrow> st3215_actuator_command sample \<Rightarrow> 's \<times> bool \<Rightarrow> 's \<times> bool" where
  "stage_st3215_sample cbs robot_id channel sample st =
     (case sample of
        None \<Rightarrow> st
      | Some v \<Rightarrow>
          if \<not> header_matches robot_id (kc_device_id channel) (za_header v) \<or> \<not> isfinite (za_target_radians v)
          then st
          else (case cb_stage_st3215_command cbs of
                  None \<Rightarrow> fst st
                | Some f \<Rightarrow> f (kc_actuator_index channel)
                    \<lparr>cvz_target_radians = za_target_radians v, cvz_enabled = za_enabled v, cvz_fault_reset = za_fault_reset v,
                     cvz_sequence = mh_sequence_number (za_header v),
                     cvz_source_timestamp_ns = mh_source_timestamp_ns (za_header v)\<rparr> (fst st), True))"

text \<open>What the readers of one iteration take, by channel.\<close>

record dds_inputs =
  in_cia402 :: "nat \<Rightarrow> cia402_actuator_command sample list"
  in_commit :: "nat \<Rightarrow> ethercat_command_commit sample list"
  in_damiao :: "nat \<Rightarrow> damiao_actuator_command sample list"
  in_st3215 :: "nat \<Rightarrow> st3215_actuator_command sample list"

definition take_all :: "('c \<Rightarrow> 'm sample \<Rightarrow> 'a \<Rightarrow> 'a) \<Rightarrow> 'c list \<Rightarrow> (nat \<Rightarrow> 'm sample list) \<Rightarrow> 'a \<Rightarrow> 'a" where
  "take_all f channels input = fold (\<lambda>(i, c). fold (f c) (input i)) (enumerate 0 channels)"

definition take_commands :: "'s dds_callbacks \<Rightarrow> dds_inputs \<Rightarrow> dds_endpoint \<Rightarrow> 's \<Rightarrow> dds_endpoint \<times> 's \<times> bool" where
  "take_commands cbs inputs e s =
     (let id = de_robot_id e;
          (groups1, c1) = take_all (stage_member id) (de_cia402_command_channels e) (in_cia402 inputs) (de_ethercat_groups e, False);
          (groups2, s2, c2) = take_all (commit_group cbs id) (de_commit_channels e) (in_commit inputs) (groups1, s, c1);
          (s3, c3) = take_all (stage_damiao_sample cbs id) (de_damiao_command_channels e) (in_damiao inputs) (s2, c2);
          (s4, c4) = take_all (stage_st3215_sample cbs id) (de_st3215_command_channels e) (in_st3215 inputs) (s3, c3)
      in (e\<lparr>de_ethercat_groups := groups2\<rparr>, s4, c4))"

section \<open>The worker: states\<close>

definition state_header :: "string \<Rightarrow> string \<Rightarrow> 'z event_stamp_scheme \<Rightarrow> message_header" where
  "state_header robot_id device_id event =
     empty_header\<lparr>mh_schema_version := DDS_SCHEMA_VERSION, mh_robot_id := robot_id, mh_device_id := device_id,
       mh_sequence_number := es_sequence event, mh_source_timestamp_ns := es_source_timestamp_ns event,
       mh_bus_cycle := es_bus_cycle event, mh_flags := es_flags event\<rparr>"

definition cia402_state :: "string \<Rightarrow> string \<Rightarrow> cia402_sensor_event \<Rightarrow> cia402_sensor_state" where
  "cia402_state robot_id device_id event = \<lparr>xs_header = state_header robot_id device_id event, xs_position = xe_position event,
     xs_velocity = xe_velocity event, xs_torque = xe_torque event, xs_status_word = xe_status_word event,
     xs_mode_display = xe_mode_display event\<rparr>"

definition damiao_state :: "string \<Rightarrow> string \<Rightarrow> damiao_sensor_event \<Rightarrow> damiao_sensor_state" where
  "damiao_state robot_id device_id event = \<lparr>ys_header = state_header robot_id device_id event, ys_position = ye_position event,
     ys_velocity = ye_velocity event, ys_torque = ye_torque event, ys_motor_id = ye_motor_id event,
     ys_error_code = ye_error_code event, ys_mos_temperature_c = ye_mos_temperature_c event,
     ys_rotor_temperature_c = ye_rotor_temperature_c event\<rparr>"

definition st3215_state :: "string \<Rightarrow> string \<Rightarrow> st3215_sensor_event \<Rightarrow> st3215_sensor_state" where
  "st3215_state robot_id device_id event = \<lparr>zs_header = state_header robot_id device_id event,
     zs_position_radians = ze_position_radians event, zs_position_units = ze_position_units event,
     zs_error_flags = ze_error_flags event\<rparr>"

definition health_state :: "string \<Rightarrow> robot_io_health_event \<Rightarrow> robot_io_health" where
  "health_state robot_id event = \<lparr>rh_header = empty_header\<lparr>mh_schema_version := DDS_SCHEMA_VERSION, mh_robot_id := robot_id,
       mh_device_id := ''health'', mh_sequence_number := he_sequence event,
       mh_source_timestamp_ns := he_source_timestamp_ns event\<rparr>,
     rh_health_flags = he_health_flags event, rh_dropped_samples = he_dropped_samples event, rh_diagnostic = []\<rparr>"

text \<open>One event at most is taken from every channel; a written state carries the index of its channel.\<close>

definition publish_channel ::
  "(string \<Rightarrow> 'e \<Rightarrow> 'm) \<Rightarrow> nat \<times> 'e state_channel \<Rightarrow> 'e state_channel list \<times> (nat \<times> 'm) list
     \<Rightarrow> 'e state_channel list \<times> (nat \<times> 'm) list" where
  "publish_channel f ic st =
     (let (q, event) = pop_event (ch_queue (snd ic)); c = (snd ic)\<lparr>ch_queue := q\<rparr>
      in (fst st @ [c], snd st @ (case event of None \<Rightarrow> [] | Some v \<Rightarrow> [(fst ic, f (ch_device_id c) v)])))"

definition publish_channels ::
  "(string \<Rightarrow> 'e \<Rightarrow> 'm) \<Rightarrow> 'e state_channel list \<Rightarrow> 'e state_channel list \<times> (nat \<times> 'm) list" where
  "publish_channels f channels = fold (publish_channel f) (enumerate 0 channels) ([], [])"

record dds_outputs =
  out_cia402 :: "(nat \<times> cia402_sensor_state) list"
  out_damiao :: "(nat \<times> damiao_sensor_state) list"
  out_st3215 :: "(nat \<times> st3215_sensor_state) list"
  out_health :: "robot_io_health option"

definition publish_states :: "dds_endpoint \<Rightarrow> dds_endpoint \<times> dds_outputs" where
  "publish_states e =
     (let id = de_robot_id e;
          (xs, xo) = publish_channels (cia402_state id) (de_cia402_channels e);
          (ys, yo) = publish_channels (damiao_state id) (de_damiao_channels e);
          (zs, zo) = publish_channels (st3215_state id) (de_st3215_channels e);
          (q, health) = pop_event (de_health_queue e)
      in (e\<lparr>de_cia402_channels := xs, de_damiao_channels := ys, de_st3215_channels := zs, de_health_queue := q\<rparr>,
          \<lparr>out_cia402 = xo, out_damiao = yo, out_st3215 = zo,
           out_health = (if de_has_health_channel e then map_option (health_state id) health else None)\<rparr>))"

text \<open>One iteration: the new endpoint and state, what is written, and whether the worker goes on without sleeping.\<close>

definition worker_iteration ::
  "'s dds_callbacks \<Rightarrow> dds_inputs \<Rightarrow> dds_endpoint \<Rightarrow> 's \<Rightarrow> dds_endpoint \<times> 's \<times> dds_outputs \<times> bool" where
  "worker_iteration cbs inputs e s =
     (let (e1, s1, consumed) = take_commands cbs inputs e s;
          (e2, outs) = publish_states e1
      in (e2, s1, outs, consumed \<or> out_cia402 outs \<noteq> [] \<or> out_damiao outs \<noteq> [] \<or> out_st3215 outs \<noteq> [] \<or> out_health outs \<noteq> None))"

end
