(* ===== verification/Pdo_Binding.thy ===== *)
theory Pdo_Binding
  imports Cia402_Axis
begin

text \<open>
  Typed fields of an EtherCAT process image (\<^verbatim>\<open>include/policy_runtime/transport/ethercat/backend.hpp\<close>), the description
  of the supported drive (\<^verbatim>\<open>src/devices/cia402/elmo_gold.cpp\<close>) and the binding of CiA 402 objects to fields
  (\<^verbatim>\<open>src/devices/cia402/ethercat_binding.cpp\<close>).  The backend is a parameter: what it answers when a slave is configured
  and where it places each object.
\<close>

section \<open>Typed fields\<close>

record pdo_location =
  pl_byte_offset :: nat
  pl_bit_position :: u8
  pl_bit_length :: u8

record pdo_field =
  pf_location :: pdo_location
  pf_bound :: bool

definition unbound_field :: pdo_field where
  "unbound_field = \<lparr>pf_location = \<lparr>pl_byte_offset = 0, pl_bit_position = 0, pl_bit_length = 0\<rparr>, pf_bound = False\<rparr>"

text \<open>Binding a field of \<open>width\<close> bytes.\<close>

definition field_bind :: "nat \<Rightarrow> pdo_field \<Rightarrow> pdo_location \<Rightarrow> pdo_field result" where
  "field_bind width f location =
     (if pf_bound f then failure invalid_argument ''PDO field is already bound''
      else if pl_bit_position location \<noteq> 0 \<or> pl_bit_length location \<noteq> of_nat (width * 8)
      then failure invalid_argument ''PDO field alignment or width is incompatible''
      else success \<lparr>pf_location = location, pf_bound = True\<rparr>)"

definition field_contains :: "nat \<Rightarrow> pdo_field \<Rightarrow> nat \<Rightarrow> bool" where
  "field_contains width f img_size \<longleftrightarrow>
     pf_bound f \<and> pl_byte_offset (pf_location f) \<le> img_size \<and> width \<le> img_size - pl_byte_offset (pf_location f)"

definition field_read :: "pdo_field \<Rightarrow> bytes \<Rightarrow> 'a::len word option" where
  "field_read f img =
     (let width = LENGTH('a) div 8
      in if \<not> field_contains width f (length img) then None
         else Some (le_word (take width (drop (pl_byte_offset (pf_location f)) img))))"

definition field_write :: "pdo_field \<Rightarrow> bytes \<Rightarrow> 'a::len word \<Rightarrow> bytes \<times> bool" where
  "field_write f img v =
     (let width = LENGTH('a) div 8; offset = pl_byte_offset (pf_location f)
      in if \<not> field_contains width f (length img) then (img, False)
         else (take offset img @ le_bytes width v @ drop (offset + width) img, True))"

section \<open>The drive\<close>

fun valid_static_mode :: "cia402_mode \<Rightarrow> bool" where
  "valid_static_mode (raw_mode _) = False"
| "valid_static_mode _ = True"

type_synonym object_address = "u16 \<times> u8"

record pdo_definition =
  pd_index :: u16
  pd_entries :: "(object_address \<times> u8) list"

record sdo_download =
  sd_address :: object_address
  sd_data :: bytes

definition elmo_vendor_id :: u32 where "elmo_vendor_id = 0x9A"
definition elmo_product_code :: u32 where "elmo_product_code = 0x30924"
definition elmo_revision :: u32 where "elmo_revision = 0x10420"
definition elmo_assign_activate :: u16 where "elmo_assign_activate = 0x0300"
definition elmo_sync0_cycle_ns :: u32 where "elmo_sync0_cycle_ns = 1000000"

definition kCspPdo :: pdo_definition where
  "kCspPdo = \<lparr>pd_index = 0x1600, pd_entries = [((0x607A, 0), 32), ((0x60FE, 1), 32), ((0x6040, 0), 16)]\<rparr>"
definition kCsvPdo :: pdo_definition where
  "kCsvPdo = \<lparr>pd_index = 0x1601, pd_entries = [((0x60FF, 0), 32), ((0x6040, 0), 16)]\<rparr>"
definition kCstPdo :: pdo_definition where
  "kCstPdo = \<lparr>pd_index = 0x1602, pd_entries = [((0x6071, 0), 16), ((0x6040, 0), 16)]\<rparr>"

definition kFeedbackPdos :: "pdo_definition list" where
  "kFeedbackPdos =
     [\<lparr>pd_index = 0x1A02, pd_entries = [((0x6064, 0), 32), ((0x6077, 0), 16), ((0x6041, 0), 16), ((0x6061, 0), 8), ((0, 0), 8)]\<rparr>,
      \<lparr>pd_index = 0x1A11, pd_entries = [((0x606C, 0), 32)]\<rparr>]"

datatype pdo_direction = output_direction | input_direction

datatype watchdog_mode = device_default | watchdog_disabled | watchdog_enabled

record sync_manager =
  sm_index :: u8
  sm_minimum_size :: u16
  sm_maximum_size :: u16
  sm_default_size :: u16
  sm_start_address :: u16
  sm_control_byte :: u8
  sm_enabled :: bool
  sm_watchdog :: watchdog_mode
  sm_direction :: pdo_direction

definition kSyncManagers :: "sync_manager list" where
  "kSyncManagers =
     [\<lparr>sm_index = 0, sm_minimum_size = 0x008C, sm_maximum_size = 0x008C, sm_default_size = 0x008C, sm_start_address = 0x1800,
       sm_control_byte = 0x26, sm_enabled = True, sm_watchdog = device_default, sm_direction = output_direction\<rparr>,
      \<lparr>sm_index = 1, sm_minimum_size = 0x008C, sm_maximum_size = 0x008C, sm_default_size = 0x008C, sm_start_address = 0x1900,
       sm_control_byte = 0x22, sm_enabled = True, sm_watchdog = device_default, sm_direction = input_direction\<rparr>,
      \<lparr>sm_index = 2, sm_minimum_size = 0, sm_maximum_size = 0x0020, sm_default_size = 0x0020, sm_start_address = 0x1100,
       sm_control_byte = 0x64, sm_enabled = True, sm_watchdog = device_default, sm_direction = output_direction\<rparr>,
      \<lparr>sm_index = 3, sm_minimum_size = 0, sm_maximum_size = 0x0020, sm_default_size = 0x0020, sm_start_address = 0x1180,
       sm_control_byte = 0x20, sm_enabled = True, sm_watchdog = device_default, sm_direction = input_direction\<rparr>]"

fun rx_pdo :: "cia402_mode \<Rightarrow> u16" where
  "rx_pdo csp = 0x1600"
| "rx_pdo csv = 0x1601"
| "rx_pdo cst = 0x1602"
| "rx_pdo (raw_mode _) = 0"

fun rx_pdo_definition :: "cia402_mode \<Rightarrow> pdo_definition" where
  "rx_pdo_definition csp = kCspPdo"
| "rx_pdo_definition csv = kCsvPdo"
| "rx_pdo_definition cst = kCstPdo"
| "rx_pdo_definition (raw_mode _) = kCspPdo"

definition startup_sdos :: "cia402_mode \<Rightarrow> sdo_download list" where
  "startup_sdos mode = [\<lparr>sd_address = (0x6060, 0), sd_data = [mode_code mode]\<rparr>, \<lparr>sd_address = (0x60C2, 1), sd_data = [0x02]\<rparr>]"

section \<open>The binding\<close>

type_synonym slave_address = "u16 \<times> u16"

record axis_configuration =
  xc_axis :: axis_config
  xc_startup_parameters :: "sdo_download list"

record slave_configuration =
  sl_address :: slave_address
  sl_identity :: "u32 \<times> u32 \<times> u32"
  sl_rx_pdo :: pdo_definition
  sl_tx_pdos :: "pdo_definition list"
  sl_dc :: "u16 \<times> u32 \<times> int"
  sl_startup_sdos :: "sdo_download list"

record backend =
  bk_initialize :: "unit result"
  bk_activate :: "unit result"
  bk_configure_slave :: "slave_configuration \<Rightarrow> unit result"
  bk_bind_pdo_entry :: "slave_address \<Rightarrow> object_address \<Rightarrow> u8 \<Rightarrow> pdo_location result"

record pdo_handles =
  ph_status_word :: pdo_field
  ph_mode_display :: pdo_field
  ph_actual_position :: pdo_field
  ph_actual_velocity :: pdo_field
  ph_actual_torque :: pdo_field
  ph_control_word :: pdo_field
  ph_target_position :: pdo_field
  ph_target_velocity :: pdo_field
  ph_target_torque :: pdo_field

definition unbound_handles :: pdo_handles where
  "unbound_handles = \<lparr>ph_status_word = unbound_field, ph_mode_display = unbound_field, ph_actual_position = unbound_field,
     ph_actual_velocity = unbound_field, ph_actual_torque = unbound_field, ph_control_word = unbound_field,
     ph_target_position = unbound_field, ph_target_velocity = unbound_field, ph_target_torque = unbound_field\<rparr>"

definition axis_slave :: "axis_configuration \<Rightarrow> slave_address" where
  "axis_slave c = (ac_alias (xc_axis c), ac_position (xc_axis c))"

definition slave_configuration_of :: "axis_configuration \<Rightarrow> slave_configuration" where
  "slave_configuration_of c =
     \<lparr>sl_address = axis_slave c, sl_identity = (ac_vendor_id (xc_axis c), ac_product_code (xc_axis c), ac_revision (xc_axis c)),
      sl_rx_pdo = rx_pdo_definition (ac_mode (xc_axis c)), sl_tx_pdos = kFeedbackPdos,
      sl_dc = (elmo_assign_activate, elmo_sync0_cycle_ns, 0),
      sl_startup_sdos = startup_sdos (ac_mode (xc_axis c)) @ xc_startup_parameters c\<rparr>"

text \<open>\<open>width\<close> is the size of the field's type in bytes.\<close>

definition bind_input ::
  "backend \<Rightarrow> slave_address \<Rightarrow> object_address \<Rightarrow> u8 \<Rightarrow> nat \<Rightarrow> pdo_field \<Rightarrow> pdo_field result" where
  "bind_input b slave address bits width f =
     (case bk_bind_pdo_entry b slave address bits of Inl e \<Rightarrow> Inl e | Inr location \<Rightarrow> field_bind width f location)"

text \<open>Binding the feedback objects and the control word, in the order of the code; the first failure ends it.\<close>

definition bind_common :: "backend \<Rightarrow> slave_address \<Rightarrow> pdo_handles result" where
  "bind_common b slave =
     (let h = unbound_handles
      in case bind_input b slave (0x6041, 0) 16 2 (ph_status_word h) of Inl e \<Rightarrow> Inl e
       | Inr status \<Rightarrow> (case bind_input b slave (0x6061, 0) 8 1 (ph_mode_display h) of Inl e \<Rightarrow> Inl e
       | Inr mode \<Rightarrow> (case bind_input b slave (0x6064, 0) 32 4 (ph_actual_position h) of Inl e \<Rightarrow> Inl e
       | Inr position \<Rightarrow> (case bind_input b slave (0x606C, 0) 32 4 (ph_actual_velocity h) of Inl e \<Rightarrow> Inl e
       | Inr velocity \<Rightarrow> (case bind_input b slave (0x6077, 0) 16 2 (ph_actual_torque h) of Inl e \<Rightarrow> Inl e
       | Inr torque \<Rightarrow> (case bind_input b slave (0x6040, 0) 16 2 (ph_control_word h) of Inl e \<Rightarrow> Inl e
       | Inr control \<Rightarrow> success (h\<lparr>ph_status_word := status, ph_mode_display := mode, ph_actual_position := position,
           ph_actual_velocity := velocity, ph_actual_torque := torque, ph_control_word := control\<rparr>)))))))"

definition bind_target :: "backend \<Rightarrow> slave_address \<Rightarrow> cia402_mode \<Rightarrow> pdo_handles \<Rightarrow> pdo_handles result" where
  "bind_target b slave mode h =
     (case mode of
        csp \<Rightarrow> (case bind_input b slave (0x607A, 0) 32 4 (ph_target_position h) of Inl e \<Rightarrow> Inl e | Inr f \<Rightarrow> success (h\<lparr>ph_target_position := f\<rparr>))
      | csv \<Rightarrow> (case bind_input b slave (0x60FF, 0) 32 4 (ph_target_velocity h) of Inl e \<Rightarrow> Inl e | Inr f \<Rightarrow> success (h\<lparr>ph_target_velocity := f\<rparr>))
      | cst \<Rightarrow> (case bind_input b slave (0x6071, 0) 16 2 (ph_target_torque h) of Inl e \<Rightarrow> Inl e | Inr f \<Rightarrow> success (h\<lparr>ph_target_torque := f\<rparr>))
      | raw_mode _ \<Rightarrow> failure internal ''unreachable static CiA 402 mode'')"

definition configure_axis :: "backend \<Rightarrow> axis_configuration \<Rightarrow> pdo_handles result" where
  "configure_axis b c =
     (case bk_configure_slave b (slave_configuration_of c) of Inl e \<Rightarrow> Inl e
      | Inr _ \<Rightarrow> (case bind_common b (axis_slave c) of Inl e \<Rightarrow> Inl e
                  | Inr h \<Rightarrow> bind_target b (axis_slave c) (ac_mode (xc_axis c)) h))"

definition read_inputs :: "pdo_handles \<Rightarrow> bytes \<Rightarrow> cia402_pdo_view \<Rightarrow> cia402_pdo_view \<times> bool" where
  "read_inputs h img pdo =
     (case (field_read (ph_status_word h) img, field_read (ph_mode_display h) img, field_read (ph_actual_position h) img,
            field_read (ph_actual_velocity h) img, field_read (ph_actual_torque h) img) of
        (Some s, Some m, Some p, Some v, Some t) \<Rightarrow>
          (pdo\<lparr>status_word := s, mode_display := m, actual_position := p, actual_velocity := v, actual_torque := t\<rparr>, True)
      | _ \<Rightarrow> (pdo, False))"

definition write_outputs :: "pdo_handles \<Rightarrow> bytes \<Rightarrow> cia402_pdo_view \<Rightarrow> cia402_mode \<Rightarrow> bool \<Rightarrow> bytes \<times> bool" where
  "write_outputs h img pdo mode enabled =
     (let (img1, w1) = field_write (ph_control_word h) img (if enabled then control_word pdo else 0)
      in case mode of
           csp \<Rightarrow> (let (img2, w2) = field_write (ph_target_position h) img1 (if enabled then target_position pdo else 0) in (img2, w2 \<and> w1))
         | csv \<Rightarrow> (let (img2, w2) = field_write (ph_target_velocity h) img1 (if enabled then target_velocity pdo else 0) in (img2, w2 \<and> w1))
         | cst \<Rightarrow> (let (img2, w2) = field_write (ph_target_torque h) img1 (if enabled then target_torque pdo else 0) in (img2, w2 \<and> w1))
         | raw_mode _ \<Rightarrow> (img1, w1))"

end
