(* ===== verification/Ethercat_Mailbox.thy ===== *)
theory Ethercat_Mailbox
  imports Pdo_Binding Serial_Transport Transport_Scheduler
begin

text \<open>
  The SDO mailbox of one EtherCAT slave, class \<open>EthercatMailbox\<close> of \<^verbatim>\<open>src/transport/ethercat/master.cpp\<close>.  Clients queue
  requests, an executor stages one at a time, and the master's cycle moves the staged request one step.  A request is
  known by its identifier, which also stands for the pointer to it: the code never removes a request from its map.
  Where an operation runs unlocked against another thread it is cut at its atomic operations, so that the sequential
  operations and the interleavings of \<^verbatim>\<open>Ethercat_Mailbox_Props\<close> are built from the same pieces.
\<close>

section \<open>Data\<close>

definition kMaximumSdoUploadBytes :: nat where "kMaximumSdoUploadBytes = 4096"

datatype mailbox_request_state = state_queued | state_completed | state_failed

record mailbox_request_status =
  ms_state :: mailbox_request_state
  ms_error :: "error option"
  ms_uploaded_bytes :: bytes

datatype sdo_transfer_state = transfer_pending | transfer_completed | transfer_failed

datatype sdo_failure_reason =
    no_reason | backend_exception | endpoint_unavailable | unsupported_download_size | exact_size_request_unavailable
  | object_selection_failed | download_schedule_failed | conflicting_request | invalid_upload_capacity
  | upload_schedule_failed | upload_capacity_exceeded | reason_transfer_failed | unknown_request_state

record sdo_progress =
  sp_state :: sdo_transfer_state
  sp_error_code :: error_code
  sp_failure_reason :: sdo_failure_reason
  sp_uploaded_size :: nat

definition sdo_pending :: sdo_progress where
  "sdo_pending = \<lparr>sp_state = transfer_pending, sp_error_code = io, sp_failure_reason = no_reason, sp_uploaded_size = 0\<rparr>"
definition sdo_completed :: "nat \<Rightarrow> sdo_progress" where
  "sdo_completed n = \<lparr>sp_state = transfer_completed, sp_error_code = io, sp_failure_reason = no_reason, sp_uploaded_size = n\<rparr>"
definition sdo_failed :: "error_code \<Rightarrow> sdo_failure_reason \<Rightarrow> sdo_progress" where
  "sdo_failed c r = \<lparr>sp_state = transfer_failed, sp_error_code = c, sp_failure_reason = r, sp_uploaded_size = 0\<rparr>"

fun sdo_failure_message :: "sdo_failure_reason \<Rightarrow> string" where
  "sdo_failure_message no_reason = ''EtherCAT SDO transfer failed''"
| "sdo_failure_message backend_exception = ''EtherCAT SDO backend raised an exception''"
| "sdo_failure_message endpoint_unavailable = ''EtherCAT SDO endpoint is unavailable''"
| "sdo_failure_message unsupported_download_size = ''EtherCAT SDO download size is unsupported''"
| "sdo_failure_message exact_size_request_unavailable = ''EtherCAT exact-size SDO request is unavailable''"
| "sdo_failure_message object_selection_failed = ''EtherCAT SDO object selection failed''"
| "sdo_failure_message download_schedule_failed = ''EtherCAT SDO download scheduling failed''"
| "sdo_failure_message conflicting_request = ''A different EtherCAT SDO request is active''"
| "sdo_failure_message invalid_upload_capacity = ''EtherCAT SDO upload capacity is invalid''"
| "sdo_failure_message upload_schedule_failed = ''EtherCAT SDO upload scheduling failed''"
| "sdo_failure_message upload_capacity_exceeded = ''EtherCAT SDO upload exceeded its capacity''"
| "sdo_failure_message reason_transfer_failed = ''EtherCAT SDO transfer failed''"
| "sdo_failure_message unknown_request_state = ''EtherCAT SDO request entered an unknown state''"

datatype request_phase = queued | staged | active | terminalizing | completed | request_failed

datatype failure_kind = no_failure | closed_failure | backend_failure

record sdo_request =
  rq_generation :: u64
  rq_upload :: bool
  rq_transfer :: sdo_download
  rq_phase :: request_phase
  rq_failure_kind :: failure_kind
  rq_backend_error_code :: error_code
  rq_backend_failure_reason :: sdo_failure_reason
  rq_uploaded_size :: nat

record ethercat_mailbox =
  em_has_backend :: bool
  em_has_owner :: bool
  em_slave :: slave_address
  em_requests :: "(u64 \<times> sdo_request) list"
  em_staged_request :: "u64 option"
  em_next_request_id :: u64
  em_open_generation :: u64
  em_cancel_requested_generation :: u64
  em_health :: transport_health

definition make_mailbox :: "bool \<Rightarrow> slave_address \<Rightarrow> ethercat_mailbox" where
  "make_mailbox has_backend slave = \<lparr>em_has_backend = has_backend, em_has_owner = True, em_slave = slave, em_requests = [],
     em_staged_request = None, em_next_request_id = 1, em_open_generation = 0, em_cancel_requested_generation = 0,
     em_health = failed\<rparr>"

text \<open>The request map keeps its entries in the order of their identifiers.\<close>

definition insert_request :: "u64 \<Rightarrow> sdo_request \<Rightarrow> (u64 \<times> sdo_request) list \<Rightarrow> (u64 \<times> sdo_request) list" where
  "insert_request i r rs = takeWhile (\<lambda>e. fst e < i) rs @ (i, r) # dropWhile (\<lambda>e. fst e < i) rs"

definition update_request ::
  "u64 \<Rightarrow> (sdo_request \<Rightarrow> sdo_request) \<Rightarrow> (u64 \<times> sdo_request) list \<Rightarrow> (u64 \<times> sdo_request) list" where
  "update_request i f rs = map (\<lambda>(k, r). if k = i then (k, f r) else (k, r)) rs"

section \<open>Client operations\<close>

definition static_mode_object :: "object_address \<Rightarrow> bool" where
  "static_mode_object address \<longleftrightarrow> fst address = 0x6060 \<or> fst address = 0x60C2"

text \<open>\<open>parent\<close> and \<open>parent'\<close> are the two values of the owner's active generation that the operation loads.\<close>

definition mailbox_open :: "ethercat_mailbox \<Rightarrow> u64 \<Rightarrow> u64 \<Rightarrow> ethercat_mailbox \<times> unit result" where
  "mailbox_open m parent parent' =
     (if \<not> em_has_backend m \<or> \<not> em_has_owner m then (m, failure unavailable ''EtherCAT mailbox has no backend'')
      else if parent = 0 then (m, failure unavailable ''EtherCAT mailbox parent is closed'')
      else if em_open_generation m \<noteq> 0 then (m, failure invalid_argument ''EtherCAT mailbox is already open'')
      else if em_cancel_requested_generation m \<noteq> 0 \<or> em_staged_request m \<noteq> None
      then (m, failure unavailable ''EtherCAT mailbox cancellation is awaiting an owner cycle'')
      else if parent' \<noteq> parent then (m, failure unavailable ''EtherCAT mailbox parent generation changed'')
      else (m\<lparr>em_open_generation := parent, em_health := healthy\<rparr>, success ()))"

text \<open>Queueing a request: the checks before the lock, then the insertion under it.\<close>

definition enqueue_admit :: "ethercat_mailbox \<Rightarrow> u64 \<Rightarrow> bool \<Rightarrow> object_address \<Rightarrow> bytes \<Rightarrow> u64 result" where
  "enqueue_admit m parent upload address data =
     (let generation = em_open_generation m
      in if generation = 0 \<or> \<not> em_has_owner m \<or> parent \<noteq> generation
         then failure unavailable ''EtherCAT mailbox is closed''
         else if fst address = 0 \<or> (\<not> upload \<and> data = []) then failure invalid_argument ''invalid EtherCAT mailbox request''
         else if \<not> upload \<and> static_mode_object address
         then failure invalid_argument ''runtime writes to static CiA 402 mode objects are forbidden''
         else success generation)"

definition new_request :: "u64 \<Rightarrow> bool \<Rightarrow> object_address \<Rightarrow> bytes \<Rightarrow> sdo_request" where
  "new_request generation upload address data =
     \<lparr>rq_generation = generation, rq_upload = upload,
      rq_transfer = \<lparr>sd_address = address, sd_data = (if upload then replicate kMaximumSdoUploadBytes 0 else data)\<rparr>,
      rq_phase = queued, rq_failure_kind = no_failure, rq_backend_error_code = io, rq_backend_failure_reason = no_reason,
      rq_uploaded_size = 0\<rparr>"

definition enqueue_locked ::
  "ethercat_mailbox \<Rightarrow> u64 \<Rightarrow> u64 \<Rightarrow> bool \<Rightarrow> object_address \<Rightarrow> bytes \<Rightarrow> ethercat_mailbox \<times> u64 result" where
  "enqueue_locked m parent generation upload address data =
     (if em_open_generation m \<noteq> generation \<or> parent \<noteq> generation then (m, failure unavailable ''EtherCAT mailbox is closed'')
      else
        let request_id = em_next_request_id m; m' = m\<lparr>em_next_request_id := request_id + 1\<rparr>
        in if map_of (em_requests m) request_id \<noteq> None
           then (m', failure internal ''EtherCAT mailbox request ID collision'')
           else (m'\<lparr>em_requests := insert_request request_id (new_request generation upload address data) (em_requests m)\<rparr>,
                 success request_id))"

definition enqueue ::
  "ethercat_mailbox \<Rightarrow> u64 \<Rightarrow> bool \<Rightarrow> object_address \<Rightarrow> bytes \<Rightarrow> ethercat_mailbox \<times> u64 result" where
  "enqueue m parent upload address data =
     (case enqueue_admit m parent upload address data of
        Inl e \<Rightarrow> (m, Inl e)
      | Inr generation \<Rightarrow> enqueue_locked m parent generation upload address data)"

definition queue_download :: "ethercat_mailbox \<Rightarrow> u64 \<Rightarrow> object_address \<Rightarrow> bytes \<Rightarrow> ethercat_mailbox \<times> u64 result" where
  "queue_download m parent address data = enqueue m parent False address data"

definition queue_upload :: "ethercat_mailbox \<Rightarrow> u64 \<Rightarrow> object_address \<Rightarrow> ethercat_mailbox \<times> u64 result" where
  "queue_upload m parent address = enqueue m parent True address []"

definition mailbox_status :: "ethercat_mailbox \<Rightarrow> u64 \<Rightarrow> mailbox_request_status option" where
  "mailbox_status m request_id =
     (case map_of (em_requests m) request_id of
        None \<Rightarrow> None
      | Some r \<Rightarrow>
          if rq_phase r = completed
          then let size = min (rq_uploaded_size r) (length (sd_data (rq_transfer r)))
               in Some \<lparr>ms_state = state_completed, ms_error = None,
                        ms_uploaded_bytes = (if rq_upload r then take size (sd_data (rq_transfer r)) else [])\<rparr>
          else if rq_phase r = request_failed \<or> (rq_phase r = terminalizing \<and> em_open_generation m \<noteq> rq_generation r)
          then Some \<lparr>ms_state = state_failed,
                     ms_error = Some (if rq_failure_kind r = backend_failure
                                      then Error (rq_backend_error_code r) (sdo_failure_message (rq_backend_failure_reason r))
                                      else Error unavailable ''EtherCAT mailbox closed before completion''),
                     ms_uploaded_bytes = []\<rparr>
          else Some \<lparr>ms_state = state_queued, ms_error = None, ms_uploaded_bytes = []\<rparr>)"

section \<open>Staging\<close>

text \<open>
  A queued request changes phase only under the request lock and the staged pointer becomes non-null only there, so the
  two exchanges of \<open>stage_one\<close> find the values they expect.
\<close>

definition stage_one :: "ethercat_mailbox \<Rightarrow> u64 \<Rightarrow> ethercat_mailbox" where
  "stage_one m parent =
     (let generation = em_open_generation m
      in if em_staged_request m \<noteq> None \<or> generation = 0 \<or> \<not> em_has_owner m \<or> parent \<noteq> generation then m
         else case find (\<lambda>(i, r). rq_generation r = generation \<and> rq_phase r = queued) (em_requests m) of
                None \<Rightarrow> m
              | Some (i, _) \<Rightarrow> m\<lparr>em_requests := update_request i (\<lambda>r. r\<lparr>rq_phase := staged\<rparr>) (em_requests m),
                                em_staged_request := Some i\<rparr>)"

definition mailbox_cycle :: "ethercat_mailbox \<Rightarrow> u64 \<Rightarrow> ethercat_mailbox" where
  "mailbox_cycle m parent =
     (if em_open_generation m = 0 \<or> \<not> em_has_owner m \<or> parent \<noteq> em_open_generation m then m\<lparr>em_health := failed\<rparr>
      else stage_one m parent)"

section \<open>Closing\<close>

text \<open>
  \<open>settled\<close> is the request as it is read after the wait when its owner is about to publish it: the closing thread then
  leaves a failed request alone and fails any other.
\<close>

definition mark_failed :: "failure_kind \<Rightarrow> sdo_request \<Rightarrow> sdo_request" where
  "mark_failed kind r = r\<lparr>rq_failure_kind := kind, rq_phase := request_failed\<rparr>"

definition fail_settled :: "failure_kind \<Rightarrow> sdo_request \<Rightarrow> sdo_request" where
  "fail_settled kind settled = (if rq_phase settled = request_failed then settled else mark_failed kind settled)"

definition fail_request :: "failure_kind \<Rightarrow> (sdo_request \<Rightarrow> sdo_request) \<Rightarrow> sdo_request \<Rightarrow> sdo_request" where
  "fail_request kind settle r =
     (if rq_phase r = completed \<or> rq_phase r = request_failed then r
      else if rq_phase r = terminalizing then fail_settled kind (settle r)
      else mark_failed kind r)"

definition close_generation ::
  "(sdo_request \<Rightarrow> sdo_request) \<Rightarrow> u64 \<Rightarrow> bool \<Rightarrow> ethercat_mailbox \<Rightarrow> ethercat_mailbox" where
  "close_generation settle generation request_cancel m =
     (let m' = m\<lparr>em_requests := map (\<lambda>(i, r). (i, if rq_generation r = generation then fail_request closed_failure settle r else r))
                                   (em_requests m)\<rparr>
      in if request_cancel then m'\<lparr>em_cancel_requested_generation := generation\<rparr> else m')"

definition mailbox_close :: "(sdo_request \<Rightarrow> sdo_request) \<Rightarrow> ethercat_mailbox \<Rightarrow> ethercat_mailbox" where
  "mailbox_close settle m =
     (let generation = em_open_generation m; m1 = m\<lparr>em_open_generation := 0\<rparr>;
          m2 = (if generation \<noteq> 0 then close_generation settle generation True m1 else m1)
      in m2\<lparr>em_health := failed\<rparr>)"

definition open_for_parent :: "ethercat_mailbox \<Rightarrow> u64 \<Rightarrow> ethercat_mailbox \<times> unit result" where
  "open_for_parent m parent =
     (if parent = 0 \<or> em_open_generation m \<noteq> 0 \<or> em_cancel_requested_generation m \<noteq> 0 \<or> em_staged_request m \<noteq> None
      then (m, failure unavailable ''EtherCAT mailbox has stale lifecycle state'')
      else (m\<lparr>em_open_generation := parent, em_health := healthy\<rparr>, success ()))"

definition close_for_parent :: "(sdo_request \<Rightarrow> sdo_request) \<Rightarrow> u64 \<Rightarrow> ethercat_mailbox \<Rightarrow> ethercat_mailbox" where
  "close_for_parent settle parent m =
     (let m1 = (if em_open_generation m = parent then m\<lparr>em_open_generation := 0\<rparr> else m)
      in (close_generation settle parent False m1)\<lparr>em_health := failed\<rparr>)"

definition reset_after_parent_deactivate :: "ethercat_mailbox \<Rightarrow> ethercat_mailbox" where
  "reset_after_parent_deactivate m =
     m\<lparr>em_staged_request := None, em_cancel_requested_generation := 0, em_open_generation := 0, em_health := failed\<rparr>"

section \<open>The owner's step\<close>

text \<open>
  \<open>owner_step\<close> in its pieces.  A pending cancellation comes first: \<open>answer\<close> is what the backend answers, \<open>None\<close> an exception.
\<close>

definition owner_cancel :: "ethercat_mailbox \<Rightarrow> sdo_progress option \<Rightarrow> ethercat_mailbox" where
  "owner_cancel m answer =
     (case answer of
        None \<Rightarrow> m\<lparr>em_health := degraded\<rparr>
      | Some c \<Rightarrow>
          let m1 = (if sp_state c = transfer_completed
                    then m\<lparr>em_staged_request := None, em_cancel_requested_generation := 0\<rparr> else m)
          in if sp_state c = transfer_failed then m1\<lparr>em_health := failed\<rparr> else m1)"

text \<open>Taking the staged request: the identifier when the backend is to be called.\<close>

definition owner_begin :: "ethercat_mailbox \<Rightarrow> u64 \<Rightarrow> u64 \<Rightarrow> ethercat_mailbox \<times> u64 option" where
  "owner_begin m parent parent_generation =
     (case em_staged_request m of
        None \<Rightarrow> (m, None)
      | Some i \<Rightarrow>
          (case map_of (em_requests m) i of
             None \<Rightarrow> (m, None)
           | Some r \<Rightarrow>
               if rq_generation r \<noteq> parent_generation \<or> \<not> em_has_owner m \<or> parent \<noteq> parent_generation
                  \<or> em_open_generation m \<noteq> parent_generation
               then (m, None)
               else if rq_phase r = staged
               then (m\<lparr>em_requests := update_request i (\<lambda>r. r\<lparr>rq_phase := active\<rparr>) (em_requests m)\<rparr>, Some i)
               else if rq_phase r = active then (m, Some i)
               else (m, None)))"

text \<open>The backend's step on the request: the progress and the contents of the transfer buffer after it.\<close>

definition transfer_outcome :: "(sdo_progress \<times> bytes) option \<Rightarrow> sdo_request \<Rightarrow> sdo_progress \<times> sdo_request" where
  "transfer_outcome answer r =
     (case answer of
        None \<Rightarrow> (sdo_failed internal backend_exception, r)
      | Some (p, buffer) \<Rightarrow> (p, if rq_upload r then r\<lparr>rq_transfer := (rq_transfer r)\<lparr>sd_data := buffer\<rparr>\<rparr> else r))"

definition owner_terminalize :: "ethercat_mailbox \<Rightarrow> u64 \<Rightarrow> ethercat_mailbox \<times> bool" where
  "owner_terminalize m i =
     (case map_of (em_requests m) i of
        Some r \<Rightarrow>
          if rq_phase r = active
          then (m\<lparr>em_requests := update_request i (\<lambda>r. r\<lparr>rq_phase := terminalizing\<rparr>) (em_requests m)\<rparr>, True)
          else (m, False)
      | None \<Rightarrow> (m, False))"

definition settle_request :: "sdo_progress \<Rightarrow> bool \<Rightarrow> sdo_request \<Rightarrow> sdo_request" where
  "settle_request p still_current r =
     (if sp_state p = transfer_completed \<and> still_current
         \<and> (\<not> rq_upload r \<or> sp_uploaded_size p \<le> length (sd_data (rq_transfer r)))
      then r\<lparr>rq_uploaded_size := sp_uploaded_size p, rq_phase := completed\<rparr>
      else if still_current
      then r\<lparr>rq_failure_kind := backend_failure, rq_backend_error_code := sp_error_code p,
             rq_backend_failure_reason := sp_failure_reason p, rq_phase := request_failed\<rparr>
      else r\<lparr>rq_failure_kind := closed_failure, rq_phase := request_failed\<rparr>)"

definition owner_publish :: "ethercat_mailbox \<Rightarrow> u64 \<Rightarrow> sdo_progress \<Rightarrow> bool \<Rightarrow> ethercat_mailbox" where
  "owner_publish m i p still_current =
     (let rs = update_request i (settle_request p still_current) (em_requests m);
          new_health = (case map_of rs i of
                          Some r \<Rightarrow> if rq_phase r = completed then healthy
                                    else if still_current then degraded else failed
                        | None \<Rightarrow> em_health m)
      in m\<lparr>em_requests := rs, em_health := new_health,
           em_staged_request := (if em_staged_request m = Some i then None else em_staged_request m)\<rparr>)"

text \<open>The whole step when no other thread runs in between; the result says whether the backend was called.\<close>

definition owner_step ::
  "ethercat_mailbox \<Rightarrow> u64 \<Rightarrow> u64 \<Rightarrow> (slave_address \<Rightarrow> sdo_progress option)
     \<Rightarrow> (slave_address \<Rightarrow> sdo_request \<Rightarrow> (sdo_progress \<times> bytes) option) \<Rightarrow> ethercat_mailbox \<times> bool" where
  "owner_step m parent parent_generation cancel transfer =
     (if em_cancel_requested_generation m \<noteq> 0 then (owner_cancel m (cancel (em_slave m)), True)
      else case owner_begin m parent parent_generation of
             (m1, None) \<Rightarrow> (m1, False)
           | (m1, Some i) \<Rightarrow>
               (case map_of (em_requests m1) i of
                  None \<Rightarrow> (m1, False)
                | Some r \<Rightarrow>
                    let (p, r') = transfer_outcome (transfer (em_slave m) r) r;
                        m2 = m1\<lparr>em_requests := update_request i (\<lambda>_. r') (em_requests m1)\<rparr>
                    in if sp_state p = transfer_pending then (m2, True)
                       else case owner_terminalize m2 i of
                              (m3, False) \<Rightarrow> (m3, True)
                            | (m3, True) \<Rightarrow>
                                (owner_publish m3 i p (parent = parent_generation \<and> em_open_generation m3 = parent_generation), True)))"

end
