(* ===== verification/Pdo_Props.thy ===== *)
theory Pdo_Props
  imports Pdo_Binding
begin

text \<open>
  Laws of the typed fields and of the binding: what a configured axis may read and write.
\<close>

section \<open>Fields as memory cells\<close>

text \<open>
  What the owner of a process image relies on: a write changes the field's own cell and no cell apart from it,
  whatever the widths.
\<close>

definition fields_apart :: "nat \<Rightarrow> pdo_field \<Rightarrow> nat \<Rightarrow> pdo_field \<Rightarrow> bool" where
  "fields_apart w1 f w2 g \<longleftrightarrow>
     pl_byte_offset (pf_location f) + w1 \<le> pl_byte_offset (pf_location g)
     \<or> pl_byte_offset (pf_location g) + w2 \<le> pl_byte_offset (pf_location f)"

lemma fields_apart_sym: "fields_apart w1 f w2 g \<longleftrightarrow> fields_apart w2 g w1 f"
  by (auto simp: fields_apart_def)

lemma length_field_write [simp]: "length (fst (field_write f img (v :: 'a::len word))) = length img"
  by (auto simp: field_write_def Let_def field_contains_def)

lemma field_write_ok: "snd (field_write f img (v :: 'a::len word)) \<longleftrightarrow> field_contains (LENGTH('a) div 8) f (length img)"
  by (simp add: field_write_def Let_def)

lemma field_write_fails: "\<not> snd (field_write f img v) \<Longrightarrow> fst (field_write f img v) = img"
  by (auto simp: field_write_def Let_def split: if_splits)

lemma field_read_ok: "field_read f img = (None :: 'a::len word option) \<longleftrightarrow> \<not> field_contains (LENGTH('a) div 8) f (length img)"
  by (simp add: field_read_def Let_def)

lemma field_read_write:
  fixes v :: "'a::len word"
  assumes "8 dvd LENGTH('a)" and "field_contains (LENGTH('a) div 8) f (length img)"
  shows "field_read f (fst (field_write f img v)) = Some v"
proof -
  define w where "w = LENGTH('a) div 8"
  have len: "LENGTH('a) = 8 * w" using assms(1) by (simp add: w_def)
  have "pl_byte_offset (pf_location f) \<le> length img" using assms(2) by (simp add: field_contains_def)
  then have "take w (drop (pl_byte_offset (pf_location f)) (fst (field_write f img v))) = le_bytes w v"
    using assms(2) by (simp add: field_write_def Let_def w_def)
  then show ?thesis
    using assms(2) by (simp add: field_read_def Let_def flip: w_def) (simp add: le_word_le_bytes len)
qed

lemma take_drop_splice:
  assumes "p + n \<le> length xs" and "length ys = n" and "q + m \<le> p \<or> p + n \<le> q"
  shows "take m (drop q (take p xs @ ys @ drop (p + n) xs)) = take m (drop q xs)"
  using assms(3)
proof
  assume le: "q + m \<le> p"
  have "take m (drop q (take p xs @ ys @ drop (p + n) xs)) = take m (drop q (take p xs))"
    using le assms(1) by simp
  also have "\<dots> = take m (drop q xs)"
    using le by (simp add: drop_take)
  finally show ?thesis .
next
  assume "p + n \<le> q"
  then show ?thesis using assms(1,2) by (simp add: drop_take)
qed

lemma field_read_write_apart:
  fixes v :: "'a::len word"
  assumes "fields_apart (LENGTH('a) div 8) f (LENGTH('b) div 8) g"
  shows "field_read g (fst (field_write f img v)) = (field_read g img :: 'b::len word option)"
proof (cases "field_contains (LENGTH('a) div 8) f (length img)")
  case True
  let ?p = "pl_byte_offset (pf_location f)" and ?q = "pl_byte_offset (pf_location g)"
  have "?p + LENGTH('a) div 8 \<le> length img" using True unfolding field_contains_def by linarith
  then have "take (LENGTH('b) div 8) (drop ?q (fst (field_write f img v))) = take (LENGTH('b) div 8) (drop ?q img)"
    using assms take_drop_splice [of ?p "LENGTH('a) div 8" img "le_bytes (LENGTH('a) div 8) v" ?q "LENGTH('b) div 8"] True
    unfolding field_write_def Let_def fields_apart_def by auto
  then show ?thesis by (simp add: field_read_def Let_def)
qed (simp add: field_write_def Let_def)

section \<open>Reading and writing an axis\<close>

text \<open>The target object of a mode: its field, its width in bytes and its address.\<close>

fun target_field :: "cia402_mode \<Rightarrow> pdo_handles \<Rightarrow> pdo_field" where
  "target_field csp h = ph_target_position h"
| "target_field csv h = ph_target_velocity h"
| "target_field cst h = ph_target_torque h"
| "target_field (raw_mode _) h = unbound_field"

fun target_width :: "cia402_mode \<Rightarrow> nat" where
  "target_width csp = 4"
| "target_width csv = 4"
| "target_width cst = 2"
| "target_width (raw_mode _) = 0"

text \<open>The cells an axis reads and writes, each with its width.\<close>

definition input_cells :: "pdo_handles \<Rightarrow> (nat \<times> pdo_field) list" where
  "input_cells h = [(2, ph_status_word h), (1, ph_mode_display h), (4, ph_actual_position h), (4, ph_actual_velocity h),
     (2, ph_actual_torque h)]"

definition output_cells :: "cia402_mode \<Rightarrow> pdo_handles \<Rightarrow> (nat \<times> pdo_field) list" where
  "output_cells mode h = [(2, ph_control_word h), (target_width mode, target_field mode h)]"

definition cells_apart :: "(nat \<times> pdo_field) list \<Rightarrow> (nat \<times> pdo_field) list \<Rightarrow> bool" where
  "cells_apart xs ys \<longleftrightarrow> list_all (\<lambda>(w, f). list_all (\<lambda>(w', g). fields_apart w f w' g) ys) xs"

definition cells_fit :: "(nat \<times> pdo_field) list \<Rightarrow> nat \<Rightarrow> bool" where
  "cells_fit xs n \<longleftrightarrow> list_all (\<lambda>(w, f). field_contains w f n) xs"

text \<open>The target value of a mode, as a 32-bit word or as a 16-bit word.\<close>

fun target_matches :: "cia402_mode \<Rightarrow> pdo_handles \<Rightarrow> bytes \<Rightarrow> cia402_pdo_view \<Rightarrow> bool" where
  "target_matches csp h img v \<longleftrightarrow> field_read (ph_target_position h) img = Some (target_position v)"
| "target_matches csv h img v \<longleftrightarrow> field_read (ph_target_velocity h) img = Some (target_velocity v)"
| "target_matches cst h img v \<longleftrightarrow> field_read (ph_target_torque h) img = Some (target_torque v)"
| "target_matches (raw_mode _) h img v \<longleftrightarrow> True"

text \<open>The outputs of a view that is not enabled.\<close>

definition zero_outputs :: "cia402_pdo_view \<Rightarrow> cia402_pdo_view" where
  "zero_outputs v = v\<lparr>control_word := 0, target_position := 0, target_velocity := 0, target_torque := 0\<rparr>"

lemma write_outputs_disabled: "write_outputs h img v mode False = write_outputs h img (zero_outputs v) mode True"
  by (cases mode) (simp_all add: write_outputs_def zero_outputs_def)

lemma length_write_outputs [simp]: "length (fst (write_outputs h img v mode enabled)) = length img"
  by (cases mode) (simp_all add: write_outputs_def Let_def split_beta)

lemma cells_apart_nil [simp]: "cells_apart [] ys" "cells_apart xs []"
  by (simp_all add: cells_apart_def list_all_iff split_beta)

lemma cells_apart_cons [simp]:
  "cells_apart ((w, f) # xs) ys \<longleftrightarrow> list_all (\<lambda>(w', g). fields_apart w f w' g) ys \<and> cells_apart xs ys"
  by (simp add: cells_apart_def)

text \<open>A cell apart from an axis's outputs keeps its value.\<close>

lemma write_outputs_apart:
  assumes "cells_apart (output_cells mode h) [(LENGTH('b) div 8, g)]"
  shows "field_read g (fst (write_outputs h img v mode enabled)) = (field_read g img :: 'b::len word option)"
  using assms
  by (cases mode) (simp_all add: write_outputs_def Let_def split_beta output_cells_def field_read_write_apart)

lemma write_outputs_read:
  assumes "cells_fit (output_cells mode h) (length img)" and "fields_apart 2 (ph_control_word h) (target_width mode) (target_field mode h)"
  shows "snd (write_outputs h img v mode True)"
    and "field_read (ph_control_word h) (fst (write_outputs h img v mode True)) = Some (control_word v)"
    and "target_matches mode h (fst (write_outputs h img v mode True)) v"
proof -
  have cw: "field_contains 2 (ph_control_word h) (length img)"
    and tg: "field_contains (target_width mode) (target_field mode h) (length img)"
    using assms(1) by (simp_all add: output_cells_def cells_fit_def)
  have rev: "fields_apart (target_width mode) (target_field mode h) 2 (ph_control_word h)"
    using assms(2) by (simp add: fields_apart_sym)
  show "snd (write_outputs h img v mode True)"
    using cw tg by (cases mode) (simp_all add: write_outputs_def Let_def split_beta field_write_ok)
  show "field_read (ph_control_word h) (fst (write_outputs h img v mode True)) = Some (control_word v)"
    using cw rev by (cases mode) (simp_all add: write_outputs_def Let_def split_beta field_read_write_apart field_read_write)
  show "target_matches mode h (fst (write_outputs h img v mode True)) v"
    using tg by (cases mode) (simp_all add: write_outputs_def Let_def split_beta field_read_write)
qed

lemma write_outputs_inputs:
  assumes "cells_apart (output_cells mode h) (input_cells g)"
  shows "read_inputs g (fst (write_outputs h img v mode enabled)) w = read_inputs g img w"
  unfolding read_inputs_def
  by (subst (1 2 3 4 5) write_outputs_apart;
      use assms in \<open>simp add: cells_apart_def input_cells_def output_cells_def\<close>)

lemma field_read_some:
  "(\<exists>v. field_read f img = Some (v :: 'a::len word)) \<longleftrightarrow> field_contains (LENGTH('a) div 8) f (length img)"
  using field_read_ok [of f img] by (metis not_None_eq)

lemma read_inputs_total:
  "snd (read_inputs h img v) \<longleftrightarrow> cells_fit (input_cells h) (length img)"
proof -
  have "snd (read_inputs h img v) \<longleftrightarrow>
      (\<exists>x. field_read (ph_status_word h) img = Some (x :: u16)) \<and> (\<exists>x. field_read (ph_mode_display h) img = Some (x :: u8))
    \<and> (\<exists>x. field_read (ph_actual_position h) img = Some (x :: u32)) \<and> (\<exists>x. field_read (ph_actual_velocity h) img = Some (x :: u32))
    \<and> (\<exists>x. field_read (ph_actual_torque h) img = Some (x :: u16))"
    unfolding read_inputs_def by (auto split: option.splits)
  then show ?thesis by (simp add: field_read_some cells_fit_def input_cells_def)
qed

section \<open>Binding an axis\<close>

text \<open>
  What a backend promises for a slave it has configured: every object of the PDO mapping it was given can be bound, byte
  aligned and with the mapped length, and the cells of distinct objects of the slave do not overlap.
\<close>

definition mapped_entries :: "slave_configuration \<Rightarrow> (object_address \<times> u8) list" where
  "mapped_entries sc = pd_entries (sl_rx_pdo sc) @ concat (map pd_entries (sl_tx_pdos sc))"

definition binds_mapping :: "backend \<Rightarrow> slave_configuration \<Rightarrow> bool" where
  "binds_mapping b sc \<longleftrightarrow>
     list_all (\<lambda>(address, bits). fst address = 0 \<or>
       (case bk_bind_pdo_entry b (sl_address sc) address bits of
          Inl _ \<Rightarrow> False | Inr l \<Rightarrow> pl_bit_position l = 0 \<and> pl_bit_length l = bits)) (mapped_entries sc)"

definition located_apart :: "backend \<Rightarrow> slave_address \<Rightarrow> object_address \<times> u8 \<Rightarrow> object_address \<times> u8 \<Rightarrow> bool" where
  "located_apart b slave x y \<longleftrightarrow>
     (case (bk_bind_pdo_entry b slave (fst x) (snd x), bk_bind_pdo_entry b slave (fst y) (snd y)) of
        (Inr l, Inr k) \<Rightarrow> pl_byte_offset l + unat (snd x) div 8 \<le> pl_byte_offset k
                          \<or> pl_byte_offset k + unat (snd y) div 8 \<le> pl_byte_offset l
      | _ \<Rightarrow> True)"

definition mapping_disjoint :: "backend \<Rightarrow> slave_configuration \<Rightarrow> bool" where
  "mapping_disjoint b sc \<longleftrightarrow>
     list_all (\<lambda>x. list_all (\<lambda>y. fst x = fst y \<or> located_apart b (sl_address sc) x y) (mapped_entries sc)) (mapped_entries sc)"

text \<open>What a configured axis is: its cells are bound where the backend put the objects of its mode, and do not overlap.\<close>

definition bound_to :: "backend \<Rightarrow> slave_address \<Rightarrow> object_address \<Rightarrow> u8 \<Rightarrow> pdo_field \<Rightarrow> bool" where
  "bound_to b slave address bits f \<longleftrightarrow> pf_bound f \<and> bk_bind_pdo_entry b slave address bits = Inr (pf_location f)"

fun target_object :: "cia402_mode \<Rightarrow> object_address \<times> u8" where
  "target_object csp = ((0x607A, 0), 32)"
| "target_object csv = ((0x60FF, 0), 32)"
| "target_object cst = ((0x6071, 0), 16)"
| "target_object (raw_mode _) = ((0, 0), 0)"

definition handles_bound :: "backend \<Rightarrow> axis_configuration \<Rightarrow> pdo_handles \<Rightarrow> bool" where
  "handles_bound b c h \<longleftrightarrow>
     (let slave = axis_slave c; mode = ac_mode (xc_axis c)
      in bound_to b slave (0x6041, 0) 16 (ph_status_word h) \<and> bound_to b slave (0x6061, 0) 8 (ph_mode_display h)
       \<and> bound_to b slave (0x6064, 0) 32 (ph_actual_position h) \<and> bound_to b slave (0x606C, 0) 32 (ph_actual_velocity h)
       \<and> bound_to b slave (0x6077, 0) 16 (ph_actual_torque h) \<and> bound_to b slave (0x6040, 0) 16 (ph_control_word h)
       \<and> bound_to b slave (fst (target_object mode)) (snd (target_object mode)) (target_field mode h))"

lemma field_bind_unbound:
  "field_bind width unbound_field l =
     (if pl_bit_position l \<noteq> 0 \<or> pl_bit_length l \<noteq> of_nat (width * 8)
      then failure invalid_argument ''PDO field alignment or width is incompatible'' else success \<lparr>pf_location = l, pf_bound = True\<rparr>)"
  by (simp add: field_bind_def unbound_field_def)

lemma bind_input_success:
  "bind_input b slave address bits width unbound_field = Inr f \<Longrightarrow> bound_to b slave address bits f"
  by (auto simp: bind_input_def bound_to_def field_bind_unbound failure_def success_def split: sum.splits if_splits)

lemma bind_input_mapped:
  assumes "bk_bind_pdo_entry b slave address bits = Inr l" and "pl_bit_position l = 0" and "pl_bit_length l = of_nat (width * 8)"
  shows "bind_input b slave address bits width unbound_field = success \<lparr>pf_location = l, pf_bound = True\<rparr>"
  using assms by (simp add: bind_input_def field_bind_unbound)

lemma unbound_handles_fields [simp]:
  "ph_status_word unbound_handles = unbound_field" "ph_mode_display unbound_handles = unbound_field"
  "ph_actual_position unbound_handles = unbound_field" "ph_actual_velocity unbound_handles = unbound_field"
  "ph_actual_torque unbound_handles = unbound_field" "ph_control_word unbound_handles = unbound_field"
  "ph_target_position unbound_handles = unbound_field" "ph_target_velocity unbound_handles = unbound_field"
  "ph_target_torque unbound_handles = unbound_field"
  by (simp_all add: unbound_handles_def)

lemma bind_common_success:
  assumes "bind_common b slave = Inr h"
  shows "bound_to b slave (0x6041, 0) 16 (ph_status_word h) \<and> bound_to b slave (0x6061, 0) 8 (ph_mode_display h)
       \<and> bound_to b slave (0x6064, 0) 32 (ph_actual_position h) \<and> bound_to b slave (0x606C, 0) 32 (ph_actual_velocity h)
       \<and> bound_to b slave (0x6077, 0) 16 (ph_actual_torque h) \<and> bound_to b slave (0x6040, 0) 16 (ph_control_word h)
       \<and> ph_target_position h = unbound_field \<and> ph_target_velocity h = unbound_field \<and> ph_target_torque h = unbound_field"
  using assms by (auto simp: bind_common_def Let_def success_def split: sum.splits dest!: bind_input_success)

lemma configure_axis_bound: "configure_axis b c = Inr h \<Longrightarrow> handles_bound b c h"
  unfolding configure_axis_def handles_bound_def Let_def
  by (cases "ac_mode (xc_axis c)")
     (auto simp: bind_target_def success_def failure_def split: sum.splits dest!: bind_common_success bind_input_success)

text \<open>No cell of the axis overlaps one of its output cells.\<close>

definition handles_separate :: "cia402_mode \<Rightarrow> pdo_handles \<Rightarrow> bool" where
  "handles_separate mode h \<longleftrightarrow>
     cells_apart (output_cells mode h) (input_cells h)
     \<and> fields_apart 2 (ph_control_word h) (target_width mode) (target_field mode h)"

lemma bound_apart:
  assumes "mapping_disjoint b sc" and "(a, n) \<in> set (mapped_entries sc)" and "(a', n') \<in> set (mapped_entries sc)" and "a \<noteq> a'"
    and "bound_to b (sl_address sc) a n f" and "bound_to b (sl_address sc) a' n' g"
  shows "fields_apart (unat n div 8) f (unat n' div 8) g"
proof -
  have "located_apart b (sl_address sc) (a, n) (a', n')"
    using assms(1-4) unfolding mapping_disjoint_def list_all_iff by fastforce
  then show ?thesis using assms(5,6) by (simp add: located_apart_def bound_to_def fields_apart_def)
qed

lemma entry_bound:
  assumes "binds_mapping b sc" and "(a, n) \<in> set (mapped_entries sc)" and "fst a \<noteq> 0" and "n = of_nat (width * 8)"
  shows "\<exists>f. bind_input b (sl_address sc) a n width unbound_field = Inr f"
proof -
  have "case bk_bind_pdo_entry b (sl_address sc) a n of Inl _ \<Rightarrow> False | Inr l \<Rightarrow> pl_bit_position l = 0 \<and> pl_bit_length l = n"
    using assms(1-3) unfolding binds_mapping_def list_all_iff by fastforce
  then obtain l where "bk_bind_pdo_entry b (sl_address sc) a n = Inr l" "pl_bit_position l = 0" "pl_bit_length l = n"
    by (auto split: sum.splits)
  then show ?thesis using bind_input_mapped assms(4) by (auto simp: success_def)
qed

lemmas mapping_defs = mapped_entries_def slave_configuration_of_def kFeedbackPdos_def kCspPdo_def kCsvPdo_def kCstPdo_def

lemma mapped_common:
  "{((0x6041, 0), 16), ((0x6061, 0), 8), ((0x6064, 0), 32), ((0x606C, 0), 32), ((0x6077, 0), 16), ((0x6040, 0), 16)}
     \<subseteq> set (mapped_entries (slave_configuration_of c))"
  by (cases "ac_mode (xc_axis c)") (simp_all add: mapping_defs)

lemma mapped_target:
  "valid_static_mode (ac_mode (xc_axis c)) \<Longrightarrow>
     target_object (ac_mode (xc_axis c)) \<in> set (mapped_entries (slave_configuration_of c))"
  by (cases "ac_mode (xc_axis c)") (simp_all add: mapping_defs)

lemma slave_address_of [simp]: "sl_address (slave_configuration_of c) = axis_slave c"
  by (simp add: slave_configuration_of_def)

lemma configure_axis_succeeds:
  assumes "valid_static_mode (ac_mode (xc_axis c))" and "bk_configure_slave b (slave_configuration_of c) = Inr ()"
    and "binds_mapping b (slave_configuration_of c)"
  shows "\<exists>h. configure_axis b c = Inr h"
proof -
  note entry = entry_bound [OF assms(3), unfolded slave_address_of]
  have common: "x \<in> set (mapped_entries (slave_configuration_of c))"
    if "x \<in> {((0x6041, 0), 16), ((0x6061, 0), 8), ((0x6064, 0), 32), ((0x606C, 0), 32), ((0x6077, 0), 16), ((0x6040, 0), 16)}" for x
    using that mapped_common by blast
  have "\<exists>f. bind_input b (axis_slave c) (0x6041, 0) 16 2 unbound_field = Inr f"
    "\<exists>f. bind_input b (axis_slave c) (0x6061, 0) 8 1 unbound_field = Inr f"
    "\<exists>f. bind_input b (axis_slave c) (0x6064, 0) 32 4 unbound_field = Inr f"
    "\<exists>f. bind_input b (axis_slave c) (0x606C, 0) 32 4 unbound_field = Inr f"
    "\<exists>f. bind_input b (axis_slave c) (0x6077, 0) 16 2 unbound_field = Inr f"
    "\<exists>f. bind_input b (axis_slave c) (0x6040, 0) 16 2 unbound_field = Inr f"
    by (rule entry [OF common]; simp)+
  then obtain h where h: "bind_common b (axis_slave c) = Inr h" "ph_target_position h = unbound_field"
      "ph_target_velocity h = unbound_field" "ph_target_torque h = unbound_field"
    by (auto simp: bind_common_def Let_def success_def)
  have "\<exists>f. bind_input b (axis_slave c) (fst (target_object (ac_mode (xc_axis c)))) (snd (target_object (ac_mode (xc_axis c))))
      (target_width (ac_mode (xc_axis c))) unbound_field = Inr f"
    using mapped_target [OF assms(1)] assms(1) by (intro entry; cases "ac_mode (xc_axis c)") simp_all
  then show ?thesis
    using h assms(1,2) by (cases "ac_mode (xc_axis c)") (auto simp: configure_axis_def bind_target_def success_def)
qed

lemma configure_axis_separate:
  assumes "configure_axis b c = Inr h" and "mapping_disjoint b (slave_configuration_of c)"
    and "valid_static_mode (ac_mode (xc_axis c))"
  shows "handles_separate (ac_mode (xc_axis c)) h"
proof -
  note apart = bound_apart [OF assms(2), unfolded slave_address_of]
  note bound = configure_axis_bound [OF assms(1), unfolded handles_bound_def Let_def]
  define inputs where "inputs = [((0x6041 :: u16, 0 :: u8), 16 :: u8, ph_status_word h), ((0x6061, 0), 8, ph_mode_display h),
    ((0x6064, 0), 32, ph_actual_position h), ((0x606C, 0), 32, ph_actual_velocity h), ((0x6077, 0), 16, ph_actual_torque h)]"
  define outputs where "outputs = [((0x6040 :: u16, 0 :: u8), 16 :: u8, ph_control_word h),
    (fst (target_object (ac_mode (xc_axis c))), snd (target_object (ac_mode (xc_axis c))), target_field (ac_mode (xc_axis c)) h)]"
  have cells: "\<forall>(a, n, f) \<in> set (inputs @ outputs).
      (a, n) \<in> set (mapped_entries (slave_configuration_of c)) \<and> bound_to b (axis_slave c) a n f"
    using bound mapped_common [of c] mapped_target [OF assms(3)] by (simp add: inputs_def outputs_def)
  have pairs: "fields_apart (unat n div 8) f (unat n' div 8) g"
    if "(a, n, f) \<in> set outputs" "(a', n', g) \<in> set (inputs @ outputs)" "a \<noteq> a'" for a n f a' n' g
  proof -
    have "(a, n, f) \<in> set (inputs @ outputs)" using that(1) by simp
    then show ?thesis using bspec [OF cells] that(2,3) by (intro apart [of a n a' n']) blast+
  qed
  have "list_all (\<lambda>(a, n, f). list_all (\<lambda>(a', n', g). a \<noteq> a' \<longrightarrow> fields_apart (unat n div 8) f (unat n' div 8) g)
      (inputs @ outputs)) outputs"
    unfolding list_all_iff using pairs by blast
  then show ?thesis
    using assms(3) unfolding handles_separate_def cells_apart_def input_cells_def output_cells_def inputs_def outputs_def
    by (cases "ac_mode (xc_axis c)") simp_all
qed

section \<open>A backend with a fixed layout\<close>

text \<open>Each slave owns 24 bytes of the image, in the order of its position; unmapped objects cannot be bound.\<close>

definition layout_offset :: "object_address \<Rightarrow> nat option" where
  "layout_offset a = map_of [((0x607A, 0), 0), ((0x60FF, 0), 0), ((0x6071, 0), 0), ((0x6040, 0), 4), ((0x60FE, 1), 6),
     ((0x6064, 0), 10), ((0x6077, 0), 14), ((0x6041, 0), 16), ((0x6061, 0), 18), ((0x606C, 0), 20)] a"

definition layout_backend :: backend where
  "layout_backend = \<lparr>bk_initialize = success (), bk_activate = success (), bk_configure_slave = (\<lambda>_. success ()),
     bk_bind_pdo_entry = (\<lambda>slave a bits. case layout_offset a of
        None \<Rightarrow> failure io ''object is not mapped''
      | Some k \<Rightarrow> success \<lparr>pl_byte_offset = 24 * unat (snd slave) + k, pl_bit_position = 0, pl_bit_length = bits\<rparr>)\<rparr>"

definition elmo_axis :: "u16 \<Rightarrow> cia402_mode \<Rightarrow> axis_configuration" where
  "elmo_axis position mode = \<lparr>xc_axis = \<lparr>ac_name = ''axis'', ac_alias = 0, ac_position = position, ac_vendor_id = 0x9A,
     ac_product_code = 0x30924, ac_revision = 0x10420, ac_mode = mode, ac_scale = Fin 1, ac_minimum = Fin (- 100),
     ac_maximum = Fin 100, ac_command_timeout = 20, ac_safety_group = ''arm'', ac_slew_limit = Fin 10,
     ac_following_error_limit = Fin 50\<rparr>, xc_startup_parameters = []\<rparr>"

text \<open>Claim C20.  Binding an axis never fails on its own account: for a backend that binds the objects of the mapping it is
  given, byte aligned, with the mapped lengths and without overlaps, configuring an axis with a CiA 402 mode succeeds,
  every cell is bound to the object of its name with the width of its type, and no cell of the axis overlaps one that
  the axis writes.
\<close>

theorem configured_axis_typed:
  assumes "valid_static_mode (ac_mode (xc_axis c))" and "bk_configure_slave b (slave_configuration_of c) = success ()"
    and "binds_mapping b (slave_configuration_of c)" and "mapping_disjoint b (slave_configuration_of c)"
  shows "\<exists>h. configure_axis b c = success h \<and> handles_bound b c h \<and> handles_separate (ac_mode (xc_axis c)) h"
  using configure_axis_succeeds [OF assms(1) _ assms(3)] configure_axis_bound configure_axis_separate [OF _ assms(4,1)] assms(2)
  by (auto simp: success_def)

theorem configured_axis_typed_witness:
  "\<exists>h. configure_axis layout_backend (elmo_axis 1 csp) = success h \<and> handles_bound layout_backend (elmo_axis 1 csp) h
     \<and> handles_separate csp h"
proof -
  have "ac_mode (xc_axis (elmo_axis 1 csp)) = csp" by (simp add: elmo_axis_def)
  moreover have "bk_configure_slave layout_backend (slave_configuration_of (elmo_axis 1 csp)) = success ()" by (simp add: layout_backend_def)
  moreover have "binds_mapping layout_backend (slave_configuration_of (elmo_axis 1 csp))" by code_simp
  moreover have "mapping_disjoint layout_backend (slave_configuration_of (elmo_axis 1 csp))" by code_simp
  ultimately show ?thesis using configured_axis_typed [of "elmo_axis 1 csp" layout_backend] by simp
qed

end
