(* ===== verification/Realtime_Loop.thy ===== *)
theory Realtime_Loop
  imports Prelude
begin

text \<open>
  The periodic real-time loop of \<^verbatim>\<open>src/robot_io/daemon/realtime_loop.cpp\<close>: setting up and restoring the scheduling of
  its thread, and the release schedule.  Times are nanoseconds of the monotonic clock.  The operating system is a
  parameter: the outcome of every call is an argument, and the part of its state the code changes (the policy and the
  affinity of the thread, whether memory is locked) is a record.  The atomics are read and written by the loop's own
  thread in program order, so they are plain fields.
\<close>

section \<open>The clock\<close>

definition kNanosecondsPerSecond :: int where "kNanosecondsPerSecond = 1000000000"
definition INT64_MAX :: int where "INT64_MAX = 9223372036854775807"
definition EINTR :: int where "EINTR = 4"

type_synonym timespec = "int \<times> int"

definition to_timespec :: "int \<Rightarrow> timespec" where
  "to_timespec absolute_ns =
     (let t = (if absolute_ns < 0 then 0 else absolute_ns) in (t div kNanosecondsPerSecond, t mod kNanosecondsPerSecond))"

definition clock_now_ns :: "timespec option \<Rightarrow> int" where
  "clock_now_ns r = (case r of None \<Rightarrow> 0 | Some (sec, nsec) \<Rightarrow> sec * kNanosecondsPerSecond + nsec)"

text \<open>A sleep is repeated while it is interrupted; the argument lists the results of the calls.\<close>

fun sleep_until :: "int list \<Rightarrow> (int \<times> int list) option" where
  "sleep_until [] = None"
| "sleep_until (r # rs) = (if r = EINTR then sleep_until rs else Some (r, rs))"

fun contains_text :: "string \<Rightarrow> string \<Rightarrow> bool" where
  "contains_text [] pat = (pat = [])"
| "contains_text (c # cs) pat = (take (length pat) (c # cs) = pat \<or> contains_text cs pat)"

definition contains_preempt_rt :: "string \<Rightarrow> bool" where
  "contains_preempt_rt text \<longleftrightarrow> contains_text text ''PREEMPT_RT'' \<or> contains_text text ''PREEMPT RT''"

definition saturating_add :: "int \<Rightarrow> int \<Rightarrow> int" where
  "saturating_add v increment = (if increment > 0 \<and> v > INT64_MAX - increment then INT64_MAX else v + increment)"

definition update_maximum :: "int \<Rightarrow> int \<Rightarrow> int" where
  "update_maximum maximum v = (if v > maximum then v else maximum)"

section \<open>The thread and its process\<close>

record os_thread =
  th_policy :: "int \<times> int"
  th_affinity :: "int list"
  th_memory_locked :: bool

record linux_system =
  lx_original_affinity :: "int list"
  lx_original_sched :: "int \<times> int"
  lx_thread_state_captured :: bool
  lx_memory_locked :: bool

definition make_linux_system :: linux_system where
  "make_linux_system = \<lparr>lx_original_affinity = [], lx_original_sched = (0, 0), lx_thread_state_captured = False, lx_memory_locked = False\<rparr>"

text \<open>The outcomes of the calls of one preparation.\<close>

record setup_calls =
  su_getaffinity :: bool
  su_getschedparam :: bool
  su_realtime_file :: "string option"
  su_uname :: "(string \<times> string) option"
  su_mlockall :: bool
  su_setaffinity :: bool
  su_setschedparam :: bool

text \<open>The outcomes of the calls that put the thread and the memory lock back; the code discards them.\<close>

record release_calls =
  un_setschedparam :: bool
  un_setaffinity :: bool
  un_munlockall :: bool

definition CPU_SETSIZE :: int where "CPU_SETSIZE = 1024"
definition SCHED_FIFO :: int where "SCHED_FIFO = 1"
definition fifo_min :: int where "fifo_min = 1"
definition fifo_max :: int where "fifo_max = 99"

definition preempt_rt_kernel :: "setup_calls \<Rightarrow> bool" where
  "preempt_rt_kernel c =
     (case su_realtime_file c of
        Some (x # _) \<Rightarrow> x = CHR ''1''
      | _ \<Rightarrow> (case su_uname c of Some (release, version) \<Rightarrow> contains_preempt_rt release \<or> contains_preempt_rt version
               | None \<Rightarrow> False))"

definition capture_current_thread_state :: "linux_system \<Rightarrow> os_thread \<Rightarrow> setup_calls \<Rightarrow> linux_system \<times> bool" where
  "capture_current_thread_state s th c =
     (if lx_thread_state_captured s then (s, False)
      else if \<not> su_getaffinity c then (s, False)
      else let s1 = s\<lparr>lx_original_affinity := th_affinity th\<rparr>
           in if \<not> su_getschedparam c then (s1, False)
              else (s1\<lparr>lx_original_sched := th_policy th, lx_thread_state_captured := True\<rparr>, True))"

definition lock_process_memory :: "linux_system \<Rightarrow> os_thread \<Rightarrow> setup_calls \<Rightarrow> linux_system \<times> os_thread \<times> bool" where
  "lock_process_memory s th c =
     (s\<lparr>lx_memory_locked := su_mlockall c\<rparr>, th\<lparr>th_memory_locked := su_mlockall c \<or> th_memory_locked th\<rparr>, su_mlockall c)"

definition pin_current_thread :: "int \<Rightarrow> os_thread \<Rightarrow> setup_calls \<Rightarrow> os_thread \<times> bool" where
  "pin_current_thread cpu th c =
     (if cpu < 0 \<or> cpu \<ge> CPU_SETSIZE then (th, False)
      else if su_setaffinity c then (th\<lparr>th_affinity := [cpu]\<rparr>, True) else (th, False))"

definition set_current_thread_fifo :: "int \<Rightarrow> os_thread \<Rightarrow> setup_calls \<Rightarrow> os_thread \<times> bool" where
  "set_current_thread_fifo priority th c =
     (if priority < fifo_min \<or> priority > fifo_max then (th, False)
      else if su_setschedparam c then (th\<lparr>th_policy := (SCHED_FIFO, priority)\<rparr>, True) else (th, False))"

text \<open>A call that fails leaves the thread as it is; the recorded state is forgotten in any case.\<close>

definition restore_current_thread_state :: "release_calls \<Rightarrow> linux_system \<Rightarrow> os_thread \<Rightarrow> linux_system \<times> os_thread" where
  "restore_current_thread_state c s th =
     (if \<not> lx_thread_state_captured s then (s, th)
      else let th1 = (if un_setschedparam c then th\<lparr>th_policy := lx_original_sched s\<rparr> else th);
               th2 = (if un_setaffinity c then th1\<lparr>th_affinity := lx_original_affinity s\<rparr> else th1)
           in (s\<lparr>lx_thread_state_captured := False\<rparr>, th2))"

definition unlock_process_memory :: "release_calls \<Rightarrow> linux_system \<Rightarrow> os_thread \<Rightarrow> linux_system \<times> os_thread" where
  "unlock_process_memory c s th =
     (if lx_memory_locked s
      then (s\<lparr>lx_memory_locked := False\<rparr>, if un_munlockall c then th\<lparr>th_memory_locked := False\<rparr> else th)
      else (s, th))"

section \<open>The loop\<close>

record loop_config =
  lc_period :: int
  lc_cpu :: int
  lc_priority :: int

record setup_status =
  rs_thread_state_captured :: bool
  rs_preempt_rt :: bool
  rs_memory_locked :: bool
  rs_affinity_set :: bool
  rs_sched_fifo :: bool
  rs_realtime_guarantee :: bool

record loop_metrics =
  lm_cycle_count :: u64
  lm_deadline_misses :: u64
  lm_skipped_releases :: u64
  lm_sleep_failures :: u64
  lm_actual_period_ns :: int
  lm_wake_latency_ns :: int
  lm_maximum_wake_latency_ns :: int
  lm_execution_time_ns :: int
  lm_maximum_execution_time_ns :: int

record realtime_loop =
  rl_config :: loop_config
  rl_metrics :: loop_metrics
  rl_next_deadline_ns :: int
  rl_previous_start_ns :: int
  rl_current_start_ns :: int
  rl_schedule_started :: bool
  rl_setup_active :: bool
  rl_captured_thread_state :: bool
  rl_locked_memory :: bool

definition zero_metrics :: loop_metrics where
  "zero_metrics = \<lparr>lm_cycle_count = 0, lm_deadline_misses = 0, lm_skipped_releases = 0, lm_sleep_failures = 0,
     lm_actual_period_ns = 0, lm_wake_latency_ns = 0, lm_maximum_wake_latency_ns = 0, lm_execution_time_ns = 0,
     lm_maximum_execution_time_ns = 0\<rparr>"

definition make_loop :: "loop_config \<Rightarrow> realtime_loop" where
  "make_loop config = \<lparr>rl_config = config, rl_metrics = zero_metrics, rl_next_deadline_ns = 0, rl_previous_start_ns = 0,
     rl_current_start_ns = 0, rl_schedule_started = False, rl_setup_active = False, rl_captured_thread_state = False,
     rl_locked_memory = False\<rparr>"

definition validate_loop_config :: "loop_config \<Rightarrow> unit result" where
  "validate_loop_config c =
     (if lc_period c \<le> 0 \<or> lc_cpu c < 0 \<or> lc_priority c < fifo_min \<or> lc_priority c > fifo_max
      then failure invalid_argument ''invalid real-time loop configuration'' else success ())"

definition reset_schedule :: "realtime_loop \<Rightarrow> realtime_loop" where
  "reset_schedule l = l\<lparr>rl_metrics := zero_metrics, rl_next_deadline_ns := 0, rl_previous_start_ns := 0, rl_current_start_ns := 0,
     rl_schedule_started := False\<rparr>"

definition loop_release ::
  "release_calls \<Rightarrow> realtime_loop \<Rightarrow> linux_system \<Rightarrow> os_thread \<Rightarrow> realtime_loop \<times> linux_system \<times> os_thread" where
  "loop_release rc l s th =
     (let (s1, th1) = (if rl_captured_thread_state l then restore_current_thread_state rc s th else (s, th));
          (s2, th2) = (if rl_locked_memory l then unlock_process_memory rc s1 th1 else (s1, th1))
      in (l\<lparr>rl_captured_thread_state := False, rl_locked_memory := False, rl_setup_active := False\<rparr>, s2, th2))"

definition loop_prepare ::
  "realtime_loop \<Rightarrow> linux_system \<Rightarrow> os_thread \<Rightarrow> setup_calls \<Rightarrow> release_calls \<Rightarrow>
     (realtime_loop \<times> linux_system \<times> os_thread) \<times> setup_status result" where
  "loop_prepare l s th c rc =
     (case validate_loop_config (rl_config l) of
        Inl e \<Rightarrow> ((l, s, th), Inl e)
      | Inr _ \<Rightarrow>
          if rl_setup_active l \<or> rl_captured_thread_state l \<or> rl_locked_memory l
          then ((l, s, th), failure invalid_argument ''real-time loop setup is already active'')
          else
            let (s1, captured) = capture_current_thread_state s th c;
                preempt = preempt_rt_kernel c;
                (s2, th2, locked) = (if captured then lock_process_memory s1 th c else (s1, th, False));
                (th3, pinned) = (if captured then pin_current_thread (lc_cpu (rl_config l)) th2 c else (th2, False));
                (th4, fifo) = (if captured then set_current_thread_fifo (lc_priority (rl_config l)) th3 c else (th3, False));
                guarantee = (captured \<and> preempt \<and> locked \<and> pinned \<and> fifo);
                l1 = reset_schedule (l\<lparr>rl_captured_thread_state := captured, rl_locked_memory := locked, rl_setup_active := guarantee\<rparr>);
                status = \<lparr>rs_thread_state_captured = captured, rs_preempt_rt = preempt, rs_memory_locked = locked,
                  rs_affinity_set = pinned, rs_sched_fifo = fifo, rs_realtime_guarantee = guarantee\<rparr>
            in ((if guarantee then (l1, s2, th4) else loop_release rc l1 s2 th4), success status))"

section \<open>The schedule\<close>

record cycle_context =
  cx_sequence :: u64
  cx_scheduled_start :: int
  cx_period :: int

record wait_result =
  wr_context :: cycle_context
  wr_sleep_error :: int

text \<open>Choosing the next deadline when the clock reads \<open>now\<close>.\<close>

definition next_release :: "realtime_loop \<Rightarrow> int \<Rightarrow> realtime_loop" where
  "next_release l now =
     (let period = lc_period (rl_config l);
          deadline = saturating_add (if rl_schedule_started l then rl_next_deadline_ns l else now) period;
          l1 = l\<lparr>rl_next_deadline_ns := deadline, rl_schedule_started := True\<rparr>
      in if deadline \<le> now
         then let behind = now - deadline;
                  skipped = (of_int (behind div period) + 1 :: u64);
                  maximum_increment = (of_int ((INT64_MAX - deadline) div period) :: u64);
                  increment_periods = min skipped maximum_increment
              in l1\<lparr>rl_next_deadline_ns := deadline + uint increment_periods * period,
                    rl_metrics := (rl_metrics l1)\<lparr>lm_skipped_releases := lm_skipped_releases (rl_metrics l1) + skipped\<rparr>\<rparr>
         else l1)"

text \<open>\<open>wait_next\<close>: the clock reads \<open>now\<close> at entry and \<open>started\<close> after waking; \<open>sleeps\<close> are the results of the sleeps.\<close>

definition wait_next :: "realtime_loop \<Rightarrow> int \<Rightarrow> int list \<Rightarrow> int \<Rightarrow> (realtime_loop \<times> wait_result) option" where
  "wait_next l now sleeps started =
     (let l1 = next_release l now; m = rl_metrics l1; deadline = rl_next_deadline_ns l1;
          context = \<lparr>cx_sequence = lm_cycle_count m + 1, cx_scheduled_start = deadline, cx_period = lc_period (rl_config l)\<rparr>
      in case sleep_until sleeps of
           None \<Rightarrow> None
         | Some (sleep_error, _) \<Rightarrow>
             if sleep_error \<noteq> 0
             then Some (l1\<lparr>rl_metrics := m\<lparr>lm_sleep_failures := lm_sleep_failures m + 1\<rparr>\<rparr>,
                        \<lparr>wr_context = context, wr_sleep_error = sleep_error\<rparr>)
             else
               let actual = (if lm_cycle_count m \<noteq> 0 then started - rl_previous_start_ns l1 else lm_actual_period_ns m);
                   wake_latency = (if started > deadline then started - deadline else 0);
                   cycle = lm_cycle_count m + 1
               in Some (l1\<lparr>rl_previous_start_ns := started, rl_current_start_ns := started,
                          rl_metrics := m\<lparr>lm_actual_period_ns := actual, lm_wake_latency_ns := wake_latency,
                            lm_maximum_wake_latency_ns := update_maximum (lm_maximum_wake_latency_ns m) wake_latency,
                            lm_cycle_count := cycle\<rparr>\<rparr>,
                        \<lparr>wr_context = context\<lparr>cx_sequence := cycle\<rparr>, wr_sleep_error = 0\<rparr>))"

definition observe_finish :: "realtime_loop \<Rightarrow> int \<Rightarrow> realtime_loop" where
  "observe_finish l finish_ns =
     (if \<not> rl_schedule_started l then l
      else let m = rl_metrics l;
               execution_time = (if finish_ns > rl_current_start_ns l then finish_ns - rl_current_start_ns l else 0);
               release = saturating_add (rl_next_deadline_ns l) (lc_period (rl_config l));
               misses = (if finish_ns > release then of_int ((finish_ns - release) div lc_period (rl_config l)) + 1 else 0)
           in l\<lparr>rl_metrics := m\<lparr>lm_execution_time_ns := execution_time,
                  lm_maximum_execution_time_ns := update_maximum (lm_maximum_execution_time_ns m) execution_time,
                  lm_deadline_misses := lm_deadline_misses m + misses\<rparr>\<rparr>)"

definition loop_metrics_of :: "realtime_loop \<Rightarrow> loop_metrics" where
  "loop_metrics_of l = rl_metrics l"

end
