(* ===== verification/Ethercat_Master.thy ===== *)
theory Ethercat_Master
  imports Ethercat_Mailbox Pdo_Props Realtime_Loop
begin

text \<open>
  The EtherCAT master, class \<open>EthercatMaster\<close> of \<^verbatim>\<open>src/transport/ethercat/master.cpp\<close>.  The backend is a parameter: its
  answers when a master is opened, the process image and the domain health that a cycle receives, and the answers of its
  SDO calls.  The record also tracks which backend calls are outstanding.  Handlers are known by an address; what they do
  is an argument of \<open>master_cycle\<close>, over a state of type \<open>'s\<close> that stands for whatever their context points to.
\<close>

section \<open>Data\<close>

definition kMaximumAxes :: nat where "kMaximumAxes = 12"

record domain_health =
  dh_working_counter :: u32
  dh_expected_working_counter :: "u32 option"
  dh_working_counter_complete :: bool
  dh_link_up :: bool
  dh_all_slaves_operational :: bool
  dh_dc_deviation_ns :: int
  dh_operational_axes_mask :: u16

definition healthy_domain :: "domain_health \<Rightarrow> bool" where
  "healthy_domain d \<longleftrightarrow>
     dh_link_up d \<and> dh_working_counter_complete d \<and> dh_all_slaves_operational d
     \<and> (case dh_expected_working_counter d of None \<Rightarrow> True | Some e \<Rightarrow> dh_working_counter d = e)"

record cyclic_field =
  cf_id :: u32
  cf_size_bytes :: nat

record process_image_field =
  if_slave :: slave_address
  if_address :: object_address
  if_direction :: pdo_direction
  if_bit_length :: u8
  if_id :: u32
  if_location :: pdo_location
  if_bound :: bool

datatype backend_phase = backend_released | backend_initialized | backend_activated

record ethercat_master =
  xm_has_backend :: bool
  xm_backend :: backend_phase
  xm_active_generation :: u64
  xm_axes :: "axis_configuration list"
  xm_pdo_views :: "cia402_pdo_view list"
  xm_pdo_handles :: "pdo_handles list"
  xm_mailboxes :: "ethercat_mailbox list"
  xm_registered_inputs :: "cyclic_field list"
  xm_registered_outputs :: "cyclic_field list"
  xm_process_image_fields :: "process_image_field list"
  xm_cycle_handler :: "nat option"
  xm_process_image_handler :: "nat option"
  xm_process_image_handler_context :: nat
  xm_supervised_cycle_handler :: "nat option"
  xm_cycle_handler_context :: nat
  xm_cycle_admission :: u64
  xm_health :: transport_health
  xm_generation :: u64
  xm_next_generation :: u64
  xm_mailbox_cursor :: nat

definition zero_pdo_view :: cia402_pdo_view where
  "zero_pdo_view = \<lparr>status_word = 0, mode_display = 0, actual_position = 0, actual_velocity = 0, actual_torque = 0,
     control_word = 0, target_position = 0, target_velocity = 0, target_torque = 0\<rparr>"

definition make_master :: "bool \<Rightarrow> axis_configuration list \<Rightarrow> ethercat_master" where
  "make_master has_backend axes = \<lparr>xm_has_backend = has_backend, xm_backend = backend_released, xm_active_generation = 0,
     xm_axes = axes, xm_pdo_views = replicate (length axes) zero_pdo_view, xm_pdo_handles = [],
     xm_mailboxes = map (\<lambda>c. make_mailbox has_backend (axis_slave c)) axes, xm_registered_inputs = [],
     xm_registered_outputs = [], xm_process_image_fields = [], xm_cycle_handler = None, xm_process_image_handler = None,
     xm_process_image_handler_context = 0, xm_supervised_cycle_handler = None, xm_cycle_handler_context = 0,
     xm_cycle_admission = 0, xm_health = failed, xm_generation = 0, xm_next_generation = 1, xm_mailbox_cursor = 0\<rparr>"

section \<open>Cycle admission\<close>

definition kCycleOpenBit :: u64 where "kCycleOpenBit = push_bit 63 1"
definition kCycleCountMask :: u64 where "kCycleCountMask = kCycleOpenBit - 1"

definition admission_successor :: "u64 \<Rightarrow> u64 option" where
  "admission_successor observed =
     (if observed AND kCycleOpenBit = 0 \<or> observed AND kCycleCountMask = kCycleCountMask then None else Some (observed + 1))"

definition admission_is_open :: "ethercat_master \<Rightarrow> bool" where
  "admission_is_open m \<longleftrightarrow> xm_cycle_admission m AND kCycleOpenBit \<noteq> 0"

text \<open>Entering when no other thread changes the word between the load and the exchange.\<close>

definition try_enter_cycle :: "ethercat_master \<Rightarrow> ethercat_master \<times> bool" where
  "try_enter_cycle m =
     (case admission_successor (xm_cycle_admission m) of
        None \<Rightarrow> (m, False)
      | Some desired \<Rightarrow> (m\<lparr>xm_cycle_admission := desired\<rparr>, True))"

definition leave_cycle :: "ethercat_master \<Rightarrow> ethercat_master" where
  "leave_cycle m = m\<lparr>xm_cycle_admission := xm_cycle_admission m - 1\<rparr>"

section \<open>Opening and closing\<close>

function validate_axes :: "axis_configuration list \<Rightarrow> slave_address list \<Rightarrow> unit result" where
  "validate_axes [] addresses = success ()"
| "validate_axes (c # cs) addresses =
     (let axis = xc_axis c
      in if ac_vendor_id axis \<noteq> elmo_vendor_id \<or> ac_product_code axis \<noteq> elmo_product_code \<or> ac_revision axis \<noteq> elmo_revision
         then failure invalid_argument ''axis identity is not the supported Elmo Gold ESI''
         else if \<not> valid_static_mode (ac_mode axis)
         then failure invalid_argument ''axis has an unknown static CiA 402 mode''
         else if axis_slave c \<in> set addresses then failure invalid_argument ''duplicate EtherCAT slave address''
         else if list_ex (\<lambda>p. sd_data p = [] \<or> static_mode_object (sd_address p)) (xc_startup_parameters c)
         then failure invalid_argument ''startup parameter is empty or overrides the static mode/cycle time''
         else validate_axes cs (axis_slave c # addresses))"
  by pat_completeness auto
termination by (relation "measure (\<lambda>(cs, _). length cs)") auto

definition validate_configuration :: "ethercat_master \<Rightarrow> unit result" where
  "validate_configuration m =
     (if \<not> xm_has_backend m then failure unavailable ''EtherCAT master has no backend''
      else if xm_axes m = [] \<or> length (xm_axes m) > kMaximumAxes
      then failure invalid_argument ''EtherCAT master requires between one and 12 axes''
      else validate_axes (xm_axes m) [])"

fun configure_axes :: "backend \<Rightarrow> axis_configuration list \<Rightarrow> pdo_handles list result" where
  "configure_axes b [] = success []"
| "configure_axes b (c # cs) =
     (case configure_axis b c of
        Inl e \<Rightarrow> Inl e
      | Inr h \<Rightarrow> (case configure_axes b cs of Inl e \<Rightarrow> Inl e | Inr hs \<Rightarrow> success (h # hs)))"

text \<open>The fields bound before a failure stay bound.\<close>

fun bind_fields :: "backend \<Rightarrow> process_image_field list \<Rightarrow> process_image_field list \<times> unit result" where
  "bind_fields b [] = ([], success ())"
| "bind_fields b (f # fs) =
     (case bk_bind_pdo_entry b (if_slave f) (if_address f) (if_bit_length f) of
        Inl e \<Rightarrow> (f # fs, Inl e)
      | Inr location \<Rightarrow>
          let (fs', r) = bind_fields b fs in (f\<lparr>if_location := location, if_bound := True\<rparr> # fs', r))"

fun open_mailboxes :: "u64 \<Rightarrow> ethercat_mailbox list \<Rightarrow> ethercat_mailbox list \<times> nat \<times> unit result" where
  "open_mailboxes g [] = ([], 0, success ())"
| "open_mailboxes g (m # ms) =
     (case open_for_parent m g of
        (m', Inl e) \<Rightarrow> (m' # ms, 0, Inl e)
      | (m', Inr _) \<Rightarrow> let (ms', n, r) = open_mailboxes g ms in (m' # ms', Suc n, r))"

definition next_parent_generation :: "u64 \<Rightarrow> u64 \<times> u64" where
  "next_parent_generation n = (if n = 0 then (n + 1, n + 2) else (n, n + 1))"

definition master_open :: "ethercat_master \<Rightarrow> backend \<Rightarrow> ethercat_master \<times> unit result" where
  "master_open m b =
     (if admission_is_open m then (m, failure invalid_argument ''EtherCAT master is already open'')
      else case validate_configuration m of
        Inl e \<Rightarrow> (m, Inl e)
      | Inr _ \<Rightarrow>
      (case bk_initialize b of
        Inl e \<Rightarrow> (m\<lparr>xm_health := failed\<rparr>, Inl e)
      | Inr _ \<Rightarrow>
      (case configure_axes b (xm_axes m) of
        Inl e \<Rightarrow> (m\<lparr>xm_backend := backend_released\<rparr>, Inl e)
      | Inr handles \<Rightarrow>
      (case bind_fields b (xm_process_image_fields m) of
        (located, Inl e) \<Rightarrow> (m\<lparr>xm_process_image_fields := located, xm_backend := backend_released\<rparr>, Inl e)
      | (located, Inr _) \<Rightarrow>
      (let m1 = m\<lparr>xm_process_image_fields := located, xm_backend := backend_initialized\<rparr>
       in case bk_activate b of
        Inl e \<Rightarrow> (m1\<lparr>xm_backend := backend_released\<rparr>, Inl e)
      | Inr _ \<Rightarrow>
      (let (parent, following) = next_parent_generation (xm_next_generation m);
           m2 = m1\<lparr>xm_backend := backend_activated, xm_next_generation := following\<rparr>
       in case open_mailboxes parent (xm_mailboxes m) of
        (boxes, opened, Inl e) \<Rightarrow>
          (m2\<lparr>xm_mailboxes := map reset_after_parent_deactivate
                (map (close_for_parent id parent) (take opened boxes) @ drop opened boxes),
              xm_backend := backend_released\<rparr>, Inl e)
      | (boxes, opened, Inr _) \<Rightarrow>
          (m2\<lparr>xm_mailboxes := boxes, xm_pdo_handles := handles,
              xm_pdo_views := map (\<lambda>_. zero_pdo_view) (xm_pdo_views m), xm_generation := parent, xm_mailbox_cursor := 0,
              xm_active_generation := parent, xm_cycle_admission := kCycleOpenBit, xm_health := healthy\<rparr>,
           success ())))))))"

text \<open>
  Closing in its pieces: the gate, the mailboxes, and what follows once the cycles inside have left.  The wait in between
  is part of the interleavings of \<^verbatim>\<open>Ethercat_Admission\<close>; \<open>master_close\<close> is the whole when no cycle is inside.
\<close>

definition close_gate :: "ethercat_master \<Rightarrow> ethercat_master" where
  "close_gate m = m\<lparr>xm_cycle_admission := xm_cycle_admission m AND kCycleCountMask\<rparr>"

definition close_mailboxes :: "ethercat_master \<Rightarrow> (sdo_request \<Rightarrow> sdo_request) \<Rightarrow> ethercat_master" where
  "close_mailboxes m settle =
     m\<lparr>xm_active_generation := 0, xm_mailboxes := map (close_for_parent settle (xm_generation m)) (xm_mailboxes m)\<rparr>"

definition close_backend :: "ethercat_master \<Rightarrow> ethercat_master" where
  "close_backend m =
     m\<lparr>xm_backend := backend_released, xm_mailboxes := map reset_after_parent_deactivate (xm_mailboxes m), xm_generation := 0,
       xm_health := failed\<rparr>"

definition master_close :: "ethercat_master \<Rightarrow> (sdo_request \<Rightarrow> sdo_request) \<Rightarrow> ethercat_master" where
  "master_close m settle =
     (if \<not> admission_is_open m then close_gate m else close_backend (close_mailboxes (close_gate m) settle))"

definition master_scheduling_class :: "ethercat_master \<Rightarrow> scheduling_class" where
  "master_scheduling_class m = hard_realtime_periodic"

section \<open>The cycle\<close>

record 's handlers =
  hd_process_image :: "bytes \<Rightarrow> domain_health \<Rightarrow> bool \<Rightarrow> 's \<Rightarrow> bytes \<times> 's"
  hd_cycle :: "cia402_pdo_view list \<Rightarrow> 's \<Rightarrow> cia402_pdo_view list \<times> 's"
  hd_supervised :: "cia402_pdo_view list \<Rightarrow> domain_health \<Rightarrow> bool \<Rightarrow> 's \<Rightarrow> cia402_pdo_view list \<times> 's"

fun read_all_inputs :: "pdo_handles list \<Rightarrow> bytes \<Rightarrow> cia402_pdo_view list \<Rightarrow> cia402_pdo_view list \<times> bool" where
  "read_all_inputs (h # hs) img (v # vs) =
     (let (v', r) = read_inputs h img v; (vs', ok) = read_all_inputs hs img vs in (v' # vs', r \<and> ok))"
| "read_all_inputs _ img vs = (vs, True)"

fun write_all_outputs ::
  "pdo_handles list \<Rightarrow> cia402_pdo_view list \<Rightarrow> axis_configuration list \<Rightarrow> bool \<Rightarrow> bytes \<Rightarrow> bytes \<times> bool" where
  "write_all_outputs (h # hs) (v # vs) (c # cs) enabled img =
     (let (img', w) = write_outputs h img v (ac_mode (xc_axis c)) enabled;
          (img'', ok) = write_all_outputs hs vs cs enabled img'
      in (img'', w \<and> ok))"
| "write_all_outputs _ _ _ enabled img = (img, True)"

text \<open>The mailboxes are asked from the cursor on until one of them used the backend.\<close>

function serve_mailboxes ::
  "nat \<Rightarrow> nat \<Rightarrow> u64 \<Rightarrow> u64 \<Rightarrow> (slave_address \<Rightarrow> sdo_progress option)
     \<Rightarrow> (slave_address \<Rightarrow> sdo_request \<Rightarrow> (sdo_progress \<times> bytes) option) \<Rightarrow> ethercat_mailbox list \<Rightarrow> ethercat_mailbox list \<times> nat" where
  "serve_mailboxes offset cursor active_gen generation cancel transfer boxes =
     (if offset < length boxes
      then let k = (cursor + offset) mod length boxes;
               (m', used) = owner_step (boxes ! k) active_gen generation cancel transfer;
               boxes' = boxes[k := m']
           in if used then (boxes', (k + 1) mod length boxes)
              else serve_mailboxes (offset + 1) cursor active_gen generation cancel transfer boxes'
      else (boxes, cursor))"
  by pat_completeness auto
termination by (relation "measure (\<lambda>(offset, _, _, _, _, _, boxes). length boxes - offset)") auto

declare serve_mailboxes.simps [simp del]

text \<open>The inputs of a cycle: the views and whether the image is valid.\<close>

definition cycle_inputs :: "ethercat_master \<Rightarrow> domain_health \<Rightarrow> bytes \<Rightarrow> cia402_pdo_view list \<times> bool" where
  "cycle_inputs m domain img =
     (let supervised_input_available = (xm_supervised_cycle_handler m \<noteq> None \<and> dh_link_up domain);
          input_available = (healthy_domain domain \<or> supervised_input_available)
      in if input_available then read_all_inputs (xm_pdo_handles m) img (xm_pdo_views m)
         else (xm_pdo_views m, False))"

text \<open>The handlers in their order: process image, views, supervised views.\<close>

definition run_handlers ::
  "'s handlers \<Rightarrow> ethercat_master \<Rightarrow> domain_health \<Rightarrow> bytes \<Rightarrow> cia402_pdo_view list \<Rightarrow> bool \<Rightarrow> 's
     \<Rightarrow> bytes \<times> cia402_pdo_view list \<times> 's" where
  "run_handlers hs m domain img views valid_image s =
     (let (img1, s1) =
            (if xm_process_image_handler m \<noteq> None then hd_process_image hs img domain valid_image s else (img, s));
          (views2, s2) = (if valid_image \<and> xm_cycle_handler m \<noteq> None then hd_cycle hs views s1 else (views, s1));
          (views3, s3) =
            (if xm_supervised_cycle_handler m \<noteq> None then hd_supervised hs views2 domain valid_image s2 else (views2, s2))
      in (img1, views3, s3))"

definition cycle_mailboxes ::
  "(slave_address \<Rightarrow> sdo_progress option) \<Rightarrow> (slave_address \<Rightarrow> sdo_request \<Rightarrow> (sdo_progress \<times> bytes) option)
     \<Rightarrow> ethercat_master \<Rightarrow> ethercat_mailbox list \<times> nat" where
  "cycle_mailboxes cancel transfer m =
     (if xm_mailboxes m \<noteq> []
      then serve_mailboxes 0 (xm_mailbox_cursor m) (xm_active_generation m) (xm_generation m) cancel transfer (xm_mailboxes m)
      else (xm_mailboxes m, xm_mailbox_cursor m))"

text \<open>
  A cycle on the image \<open>img\<close> that the backend received: the new master, the image that is sent and the handlers' state.
  A refused cycle sends nothing.
\<close>

definition master_cycle ::
  "'s handlers \<Rightarrow> (slave_address \<Rightarrow> sdo_progress option)
     \<Rightarrow> (slave_address \<Rightarrow> sdo_request \<Rightarrow> (sdo_progress \<times> bytes) option) \<Rightarrow> domain_health \<Rightarrow> bytes
     \<Rightarrow> ethercat_master \<Rightarrow> 's \<Rightarrow> ethercat_master \<times> bytes option \<times> 's" where
  "master_cycle hs cancel transfer domain img m s =
     (let (m0, entered) = try_enter_cycle m
      in if \<not> entered then (m0\<lparr>xm_health := failed\<rparr>, None, s)
         else if \<not> xm_has_backend m0 then (leave_cycle (m0\<lparr>xm_health := failed\<rparr>), None, s)
         else
           let (views1, valid_image) = cycle_inputs m0 domain img;
               (img1, views3, s3) = run_handlers hs m0 domain img views1 valid_image s;
               supervised_outputs = (xm_supervised_cycle_handler m0 \<noteq> None \<and> valid_image);
               outputs_enabled = ((healthy_domain domain \<and> valid_image) \<or> supervised_outputs);
               (img2, outputs_written) = write_all_outputs (xm_pdo_handles m0) views3 (xm_axes m0) outputs_enabled img1;
               (boxes, cursor) = cycle_mailboxes cancel transfer m0
           in (leave_cycle (m0\<lparr>xm_pdo_views := views3, xm_mailboxes := boxes, xm_mailbox_cursor := cursor,
                   xm_health := (if healthy_domain domain \<and> valid_image \<and> outputs_written then healthy else degraded)\<rparr>),
               Some img2, s3))"

section \<open>Registration and handlers\<close>

definition register_field :: "ethercat_master \<Rightarrow> cyclic_field \<Rightarrow> bool \<Rightarrow> ethercat_master \<times> unit result" where
  "register_field m f input =
     (if admission_is_open m \<or> cf_size_bytes f = 0
      then (m, failure invalid_argument ''cyclic fields must be registered before open'')
      else if list_ex (\<lambda>g. cf_id g = cf_id f) (xm_registered_inputs m) \<or> list_ex (\<lambda>g. cf_id g = cf_id f) (xm_registered_outputs m)
      then (m, failure invalid_argument ''cyclic field ID is already registered'')
      else (if input then m\<lparr>xm_registered_inputs := xm_registered_inputs m @ [f]\<rparr>
            else m\<lparr>xm_registered_outputs := xm_registered_outputs m @ [f]\<rparr>, success ()))"

definition register_process_image_field ::
  "ethercat_master \<Rightarrow> slave_address \<Rightarrow> object_address \<Rightarrow> pdo_direction \<Rightarrow> u8 \<Rightarrow> u32 \<Rightarrow> ethercat_master \<times> unit result" where
  "register_process_image_field m slave address direction bit_length field_id =
     (if admission_is_open m \<or> field_id = 0 \<or> (bit_length \<noteq> 8 \<and> bit_length \<noteq> 16 \<and> bit_length \<noteq> 32)
      then (m, failure invalid_argument ''process-image fields require a unique id and 8/16/32-bit width'')
      else if list_ex (\<lambda>f. if_id f = field_id) (xm_process_image_fields m)
      then (m, failure invalid_argument ''process-image field id is already registered'')
      else (m\<lparr>xm_process_image_fields := xm_process_image_fields m @
                [\<lparr>if_slave = slave, if_address = address, if_direction = direction, if_bit_length = bit_length, if_id = field_id,
                  if_location = \<lparr>pl_byte_offset = 0, pl_bit_position = 0, pl_bit_length = 0\<rparr>, if_bound = False\<rparr>]\<rparr>, success ()))"

definition image_field_fits :: "process_image_field \<Rightarrow> nat \<Rightarrow> bool" where
  "image_field_fits f img_size \<longleftrightarrow>
     pl_byte_offset (if_location f) \<le> img_size \<and> unat (if_bit_length f div 8) \<le> img_size - pl_byte_offset (if_location f)"

definition read_process_image_field :: "ethercat_master \<Rightarrow> bytes \<Rightarrow> u32 \<Rightarrow> u32 option" where
  "read_process_image_field m img field_id =
     (case find (\<lambda>f. if_id f = field_id) (xm_process_image_fields m) of
        None \<Rightarrow> None
      | Some f \<Rightarrow>
          if \<not> if_bound f \<or> if_direction f \<noteq> input_direction \<or> \<not> image_field_fits f (length img) then None
          else Some (le_word (take (unat (if_bit_length f div 8)) (drop (pl_byte_offset (if_location f)) img))))"

definition write_process_image_field :: "ethercat_master \<Rightarrow> bytes \<Rightarrow> u32 \<Rightarrow> u32 \<Rightarrow> bytes \<times> bool" where
  "write_process_image_field m img field_id v =
     (case find (\<lambda>f. if_id f = field_id) (xm_process_image_fields m) of
        None \<Rightarrow> (img, False)
      | Some f \<Rightarrow>
          if \<not> if_bound f \<or> if_direction f \<noteq> output_direction \<or> \<not> image_field_fits f (length img) then (img, False)
          else let offset = pl_byte_offset (if_location f); width = unat (if_bit_length f div 8)
               in (take offset img @ le_bytes width v @ drop (offset + width) img, True))"

definition set_cycle_handler :: "ethercat_master \<Rightarrow> nat option \<Rightarrow> nat \<Rightarrow> ethercat_master \<times> unit result" where
  "set_cycle_handler m handler context =
     (if admission_is_open m \<or> handler = None \<or> xm_supervised_cycle_handler m \<noteq> None
      then (m, failure invalid_argument ''cycle handler must be bound before open'')
      else (m\<lparr>xm_cycle_handler := handler, xm_cycle_handler_context := context\<rparr>, success ()))"

definition set_process_image_handler :: "ethercat_master \<Rightarrow> nat option \<Rightarrow> nat \<Rightarrow> ethercat_master \<times> unit result" where
  "set_process_image_handler m handler context =
     (if admission_is_open m \<or> handler = None \<or> (xm_cycle_handler m \<noteq> None \<and> xm_cycle_handler_context m \<noteq> context)
      then (m, failure invalid_argument ''process-image handler must be installed before open'')
      else (m\<lparr>xm_process_image_handler := handler, xm_process_image_handler_context := context\<rparr>, success ()))"

definition set_supervised_cycle_handler :: "ethercat_master \<Rightarrow> nat option \<Rightarrow> nat \<Rightarrow> ethercat_master \<times> unit result" where
  "set_supervised_cycle_handler m handler context =
     (if admission_is_open m \<or> handler = None \<or> xm_cycle_handler m \<noteq> None \<or> xm_supervised_cycle_handler m \<noteq> None
      then (m, failure invalid_argument ''supervised cycle handler must be exclusively bound before open'')
      else (m\<lparr>xm_supervised_cycle_handler := handler, xm_cycle_handler_context := context\<rparr>, success ()))"

definition clear_supervised_cycle_handler :: "ethercat_master \<Rightarrow> nat \<Rightarrow> ethercat_master \<times> unit result" where
  "clear_supervised_cycle_handler m context =
     (if admission_is_open m \<or> xm_supervised_cycle_handler m = None \<or> xm_cycle_handler_context m \<noteq> context
      then (m, failure invalid_argument ''supervised cycle handler can only be cleared by its inactive owner'')
      else (m\<lparr>xm_supervised_cycle_handler := None, xm_cycle_handler_context := 0\<rparr>, success ()))"

end
