(* ===== verification/Safety_Groups.thy ===== *)
theory Safety_Groups
  imports Safety
begin

text \<open>
  Safety groups.  The group numbers that \<open>configure\<close> assigns are equal exactly for axes that share a
  non-empty group name, and the in-place propagation loops of \<open>evaluate\<close> compute the closure of the
  triggers under group membership, whatever the order in which sources are visited.
\<close>

section \<open>Marking one group\<close>

definition same_group :: "safety_supervisor \<Rightarrow> nat \<Rightarrow> nat \<Rightarrow> bool" where
  "same_group spv a b \<longleftrightarrow> sc_group (configs spv ! a) = sc_group (configs spv ! b)"

lemma same_group_refl [simp]: "same_group spv a a"
  by (simp add: same_group_def)

lemma same_group_sym: "same_group spv a b \<Longrightarrow> same_group spv b a"
  by (simp add: same_group_def)

lemma same_group_trans: "same_group spv a b \<Longrightarrow> same_group spv b c \<Longrightarrow> same_group spv a c"
  by (simp add: same_group_def)

lemma mark_fold:
  fixes triggers :: "bool list" and reasons :: "u32 list"
  assumes "foldl (\<lambda>(triggers, reasons) m. if c m then (triggers[m := True], reasons[m := reasons ! m OR f])
      else (triggers, reasons)) (triggers, reasons) xs = (triggers', reasons')"
  shows "length triggers' = length triggers" "length reasons' = length reasons"
    "m < length triggers \<Longrightarrow> triggers' ! m = (triggers ! m \<or> (m \<in> set xs \<and> c m))"
    "m < length reasons \<Longrightarrow> reasons' ! m = (if m \<in> set xs \<and> c m then reasons ! m OR f else reasons ! m)"
  using assms
proof (induction xs arbitrary: triggers reasons)
  case (Cons x xs)
  {
    case 1 then show ?case using Cons.IH(1) by (auto split: if_splits)
  next
    case 2 then show ?case using Cons.IH(2) by (auto split: if_splits)
  next
    case 3 then show ?case
      using Cons.IH(3) [of "if c x then triggers[x := True] else triggers"
          "if c x then reasons[x := reasons ! x OR f] else reasons"]
      by (auto simp: nth_list_update_at split: if_splits)
  next
    case 4 then show ?case
      using Cons.IH(4) [of "if c x then reasons[x := reasons ! x OR f] else reasons"
          "if c x then triggers[x := True] else triggers"]
      by (auto simp: nth_list_update_at or.assoc split: if_splits)
  }
qed auto

lemma mark_group:
  assumes "mark_group spv eligible source (triggers, reasons) = (triggers', reasons')"
  shows "length triggers' = length triggers" "length reasons' = length reasons"
    "m < length triggers \<Longrightarrow> triggers' ! m =
       (triggers ! m \<or> (m < axis_count spv \<and> m \<noteq> source \<and> eligible m \<and> same_group spv m source))"
    "m < length reasons \<Longrightarrow> reasons' ! m =
       (if m < axis_count spv \<and> m \<noteq> source \<and> eligible m \<and> same_group spv m source
        then reasons ! m OR kAxisFeedbackSafetyGroup else reasons ! m)"
  using mark_fold [OF assms [unfolded mark_group_def]] by (auto simp: same_group_def)

section \<open>Closure under the groups\<close>

text \<open>What any sequence of markings keeps: lengths, triggers already set, and reasons up to the group
  flag; a newly marked axis has both its trigger and the group flag.\<close>

definition marks_only :: "bool list \<times> u32 list \<Rightarrow> bool list \<times> u32 list \<Rightarrow> bool" where
  "marks_only tr tr' \<longleftrightarrow>
     length (fst tr') = length (fst tr) \<and> length (snd tr') = length (snd tr)
     \<and> (\<forall>m. m < length (fst tr) \<and> m < length (snd tr) \<longrightarrow>
          (fst tr ! m \<longrightarrow> fst tr' ! m)
          \<and> (snd tr' ! m = snd tr ! m \<or> snd tr' ! m = snd tr ! m OR kAxisFeedbackSafetyGroup \<and> fst tr' ! m)
          \<and> (fst tr' ! m \<longrightarrow> fst tr ! m \<or> snd tr' ! m = snd tr ! m OR kAxisFeedbackSafetyGroup))"

lemma marks_only_refl [simp]: "marks_only tr tr"
  by (simp add: marks_only_def)

lemma marks_only_trans:
  assumes ab: "marks_only a b" and bc: "marks_only b c"
  shows "marks_only a c"
  unfolding marks_only_def
proof (intro conjI allI impI)
  show "length (fst c) = length (fst a)" "length (snd c) = length (snd a)"
    using ab bc by (simp_all add: marks_only_def)
next
  fix m assume m: "m < length (fst a) \<and> m < length (snd a)"
  have 1: "fst a ! m \<longrightarrow> fst b ! m" "snd b ! m = snd a ! m \<or> snd b ! m = snd a ! m OR kAxisFeedbackSafetyGroup \<and> fst b ! m"
    "fst b ! m \<longrightarrow> fst a ! m \<or> snd b ! m = snd a ! m OR kAxisFeedbackSafetyGroup"
    using ab m unfolding marks_only_def by blast+
  have 2: "fst b ! m \<longrightarrow> fst c ! m" "snd c ! m = snd b ! m \<or> snd c ! m = snd b ! m OR kAxisFeedbackSafetyGroup \<and> fst c ! m"
    "fst c ! m \<longrightarrow> fst b ! m \<or> snd c ! m = snd b ! m OR kAxisFeedbackSafetyGroup"
    using ab bc m unfolding marks_only_def by simp_all
  show "fst c ! m" if "fst a ! m" using that 1(1) 2(1) by blast
  show "snd c ! m = snd a ! m \<or> snd c ! m = snd a ! m OR kAxisFeedbackSafetyGroup \<and> fst c ! m"
    using 1(2) 2(1,2) by (elim disjE conjE) (simp_all add: or.assoc)
  have "snd c ! m = snd a ! m OR kAxisFeedbackSafetyGroup" if "snd b ! m = snd a ! m OR kAxisFeedbackSafetyGroup"
    using that 2(2) by (elim disjE conjE) (simp_all add: or.assoc)
  moreover have "snd c ! m = snd a ! m OR kAxisFeedbackSafetyGroup" if "snd c ! m = snd b ! m OR kAxisFeedbackSafetyGroup"
    using that 1(2) by (elim disjE conjE) (simp_all add: or.assoc)
  ultimately show "fst a ! m \<or> snd c ! m = snd a ! m OR kAxisFeedbackSafetyGroup" if "fst c ! m"
    using that 1(3) 2(3) by blast
qed

lemma marks_only_mark_group: "marks_only tr (mark_group spv e s tr)"
proof -
  obtain t r where tr: "tr = (t, r)" by fastforce
  obtain t' r' where m: "mark_group spv e s (t, r) = (t', r')" by fastforce
  show ?thesis unfolding tr m marks_only_def using mark_group [OF m] by (auto split: if_splits)
qed

lemma propagate_triggers_prefix:
  assumes len: "axis_count spv \<le> length T" "axis_count spv \<le> length R"
    and bound: "\<forall>s \<in> set xs. s < axis_count spv"
  defines "P \<equiv> foldl (\<lambda>(triggers, reasons) source.
      if triggers ! source then mark_group spv (\<lambda>_. True) source (triggers, reasons) else (triggers, reasons)) (T, R)"
  shows "marks_only (T, R) (P xs)"
    and "\<forall>m < axis_count spv. fst (P xs) ! m \<longrightarrow> (\<exists>s < axis_count spv. same_group spv m s \<and> T ! s)"
    and "\<forall>m < axis_count spv. \<forall>s \<in> set xs. T ! s \<and> same_group spv m s \<longrightarrow> fst (P xs) ! m"
  using bound
proof (induction xs rule: rev_induct)
  case Nil
  { case 1 show ?case by (simp add: P_def) next case 2 show ?case by (auto simp: P_def) next case 3 show ?case by simp }
next
  case (snoc x xs)
  obtain t r where tr: "P xs = (t, r)" by fastforce
  have px: "P (xs @ [x]) = (if t ! x then mark_group spv (\<lambda>_. True) x (t, r) else (t, r))"
    using tr by (simp add: P_def)
  obtain t' r' where mg: "mark_group spv (\<lambda>_. True) x (t, r) = (t', r')" by fastforce
  {
    case 1
    then show ?case using snoc.IH(1) marks_only_mark_group [of "(t, r)" spv "\<lambda>_. True" x] tr
      by (auto simp: px intro: marks_only_trans)
  next
    case 2
    then have b: "\<forall>s \<in> set xs. s < axis_count spv" "x < axis_count spv" by auto
    have l: "axis_count spv \<le> length t" using snoc.IH(1) [OF b(1)] len tr by (auto simp: marks_only_def)
    show ?case
    proof (intro allI impI)
      fix m assume m: "m < axis_count spv" and f: "fst (P (xs @ [x])) ! m"
      show "\<exists>s < axis_count spv. same_group spv m s \<and> T ! s"
      proof (cases "t ! m")
        case True
        then show ?thesis using snoc.IH(2) [OF b(1)] m tr by auto
      next
        case False
        then have "t ! x" "same_group spv m x" using f mg l m mark_group(3) [OF mg, of m] by (auto simp: px split: if_splits)
        then show ?thesis using snoc.IH(2) [OF b(1)] b(2) tr by (auto intro: same_group_trans)
      qed
    qed
  next
    case 3
    then have b: "\<forall>s \<in> set xs. s < axis_count spv" "x < axis_count spv" by auto
    have mo: "marks_only (T, R) (t, r)" using snoc.IH(1) [OF b(1)] tr by simp
    then have l: "axis_count spv \<le> length t" using len by (auto simp: marks_only_def)
    show ?case
    proof (intro allI impI ballI)
      fix m s assume m: "m < axis_count spv" and s: "s \<in> set (xs @ [x])" and h: "T ! s \<and> same_group spv m s"
      show "fst (P (xs @ [x])) ! m"
      proof (cases "s \<in> set xs")
        case True
        then have "t ! m" using snoc.IH(3) [OF b(1)] m h tr by auto
        then show ?thesis using mg mark_group(3) [OF mg, of m] m l by (auto simp: px)
      next
        case False
        then have "s = x" using s by simp
        then have "t ! x" using h mo b(2) len by (auto simp: marks_only_def)
        then show ?thesis using mg mark_group(3) [OF mg, of m] m l h \<open>s = x\<close> by (auto simp: px)
      qed
    qed
  }
qed

lemma propagate_triggers:
  assumes "axis_count spv \<le> length T" "axis_count spv \<le> length R" "propagate_triggers spv (T, R) = (T', R')"
  shows "marks_only (T, R) (T', R')"
    and "m < axis_count spv \<Longrightarrow> T' ! m \<longleftrightarrow> (\<exists>s < axis_count spv. same_group spv m s \<and> T ! s)"
  using propagate_triggers_prefix [OF assms(1,2), of "[0..<axis_count spv]"] assms(3)
  unfolding propagate_triggers_def by auto

lemma propagate_resets_prefix:
  fixes C :: "bool list"
  assumes len: "axis_count spv \<le> length T" "axis_count spv \<le> length R"
    and bound: "\<forall>s \<in> set xs. s < axis_count spv"
  defines "P \<equiv> foldl (\<lambda>tr source.
      if C ! source then mark_group spv (\<lambda>member. \<not> C ! member) source tr else tr) (T, R)"
  shows "marks_only (T, R) (P xs)"
    and "\<forall>m < axis_count spv. fst (P xs) ! m \<longleftrightarrow> T ! m \<or> (\<not> C ! m \<and> (\<exists>s \<in> set xs. C ! s \<and> same_group spv m s))"
    and "\<forall>m < axis_count spv. C ! m \<longrightarrow> snd (P xs) ! m = R ! m"
  using bound
proof (induction xs rule: rev_induct)
  case Nil
  { case 1 show ?case by (simp add: P_def) next case 2 show ?case by (auto simp: P_def) next case 3 show ?case by (simp add: P_def) }
next
  case (snoc x xs)
  obtain t r where tr: "P xs = (t, r)" by fastforce
  have px: "P (xs @ [x]) = (if C ! x then mark_group spv (\<lambda>m. \<not> C ! m) x (t, r) else (t, r))"
    using tr by (simp add: P_def)
  obtain t' r' where mg: "mark_group spv (\<lambda>m. \<not> C ! m) x (t, r) = (t', r')" by fastforce
  {
    case 1
    then show ?case using snoc.IH(1) marks_only_mark_group [of "(t, r)" spv "\<lambda>m. \<not> C ! m" x] tr
      by (auto simp: px intro: marks_only_trans)
  next
    case 2
    then have b: "\<forall>s \<in> set xs. s < axis_count spv" by auto
    have l: "axis_count spv \<le> length t" using snoc.IH(1) [OF b] len tr by (auto simp: marks_only_def)
    show ?case using snoc.IH(2) [OF b] tr mg mark_group(3) [OF mg] l by (auto simp: px)
  next
    case 3
    then have b: "\<forall>s \<in> set xs. s < axis_count spv" by auto
    have l: "axis_count spv \<le> length r" using snoc.IH(1) [OF b] len tr by (auto simp: marks_only_def)
    show ?case using snoc.IH(3) [OF b] tr mg mark_group(4) [OF mg] l by (auto simp: px)
  }
qed

lemma propagate_resets:
  assumes "axis_count spv \<le> length T" "axis_count spv \<le> length R" "propagate_resets spv C (T, R) = (T', R')"
  shows "marks_only (T, R) (T', R')"
    and "m < axis_count spv \<Longrightarrow>
       T' ! m \<longleftrightarrow> T ! m \<or> (\<not> C ! m \<and> (\<exists>s < axis_count spv. C ! s \<and> same_group spv m s))"
  using propagate_resets_prefix [OF assms(1,2), of "[0..<axis_count spv]" C] assms(3)
  unfolding propagate_resets_def by auto

lemma group_outcome:
  assumes n: "axis_count spv \<le> kRobotIoMaximumAxes" and g: "group_outcome spv assessed = (T, R)"
    and m: "m < axis_count spv"
  shows "T ! m \<longleftrightarrow>
      (\<exists>s < axis_count spv. same_group spv m s \<and> as_trigger (assessed s))
      \<or> (\<not> as_reset_candidate (assessed m)
         \<and> (\<exists>s < axis_count spv. same_group spv m s \<and> as_reset_candidate (assessed s)))"
    and "R ! m = as_reasons (assessed m) \<or> (R ! m = as_reasons (assessed m) OR kAxisFeedbackSafetyGroup \<and> T ! m)"
    and "T ! m \<Longrightarrow> as_trigger (assessed m) \<or> R ! m = as_reasons (assessed m) OR kAxisFeedbackSafetyGroup"
proof -
  let ?n = "axis_count spv"
  define T0 where "T0 = fill_prefix ?n (\<lambda>axis. as_trigger (assessed axis)) (replicate kRobotIoMaximumAxes False)"
  define R0 where "R0 = fill_prefix ?n (\<lambda>axis. as_reasons (assessed axis)) (replicate kRobotIoMaximumAxes 0)"
  define C where "C = fill_prefix ?n (\<lambda>axis. as_reset_candidate (assessed axis)) (replicate kRobotIoMaximumAxes False)"
  obtain T1 R1 where p1: "propagate_triggers spv (T0, R0) = (T1, R1)" by fastforce
  have p2: "propagate_resets spv C (T1, R1) = (T, R)"
    using g p1 by (simp add: group_outcome_def Let_def T0_def R0_def C_def)
  have len: "?n \<le> length T0" "?n \<le> length R0" using n by (simp_all add: T0_def R0_def)
  note one = propagate_triggers [OF len p1]
  have len1: "?n \<le> length T1" "?n \<le> length R1" using one(1) len by (auto simp: marks_only_def)
  note two = propagate_resets [OF len1 p2]
  have at: "T0 ! i = as_trigger (assessed i)" "R0 ! i = as_reasons (assessed i)" "C ! i = as_reset_candidate (assessed i)"
    if "i < ?n" for i using that n by (simp_all add: T0_def R0_def C_def)
  show "T ! m \<longleftrightarrow>
      (\<exists>s < ?n. same_group spv m s \<and> as_trigger (assessed s))
      \<or> (\<not> as_reset_candidate (assessed m) \<and> (\<exists>s < ?n. same_group spv m s \<and> as_reset_candidate (assessed s)))"
    unfolding two(2) [OF m] one(2) [OF m] using m by (simp add: at conj_commute cong: conj_cong)
  have "marks_only (T0, R0) (T, R)" using one(1) two(1) by (rule marks_only_trans)
  then show "R ! m = as_reasons (assessed m) \<or> (R ! m = as_reasons (assessed m) OR kAxisFeedbackSafetyGroup \<and> T ! m)"
    "T ! m \<Longrightarrow> as_trigger (assessed m) \<or> R ! m = as_reasons (assessed m) OR kAxisFeedbackSafetyGroup"
    unfolding marks_only_def fst_conv snd_conv at(1) [OF m, symmetric] at(2) [OF m, symmetric]
    using less_le_trans [OF m len(1)] less_le_trans [OF m len(2)] by blast+
qed

section \<open>Group assignment\<close>

definition joined :: "axis_config list \<Rightarrow> nat \<Rightarrow> nat \<Rightarrow> bool" where
  "joined axes i j \<longleftrightarrow> i = j \<or> (ac_safety_group (axes ! i) \<noteq> [] \<and> ac_safety_group (axes ! i) = ac_safety_group (axes ! j))"

definition groups_inv :: "axis_config list \<Rightarrow> nat \<Rightarrow> u8 list \<Rightarrow> u8 \<Rightarrow> safety_supervisor \<Rightarrow> bool" where
  "groups_inv axes axis ids next spv \<longleftrightarrow>
     length ids = kRobotIoMaximumAxes \<and> length (configs spv) = kRobotIoMaximumAxes
     \<and> axis \<le> kRobotIoMaximumAxes \<and> unat next \<le> axis
     \<and> (\<forall>i < axis. unat (ids ! i) < unat next \<and> configs spv ! i = safety_config_of (axes ! i) (ids ! i)
          \<and> \<not> axis_limits_bad (axes ! i) \<and> known_mode (ac_mode (axes ! i)))
     \<and> (\<forall>i < axis. \<forall>j < axis. ids ! i = ids ! j \<longleftrightarrow> joined axes i j)"

lemma unat_Suc_small: "unat (n :: u8) < 255 \<Longrightarrow> unat (n + 1) = unat n + 1"
  by (simp add: unat_plus_if')

lemma assign_group_spec:
  assumes inv: "groups_inv axes axis ids next spv" and ax: "axis < kRobotIoMaximumAxes"
    and g: "assign_group axes axis ids next = (gid, next')"
  shows "unat next' \<le> axis + 1 \<and> unat next \<le> unat next' \<and> unat gid < unat next'
    \<and> (\<forall>i < axis. ids ! i = gid \<longleftrightarrow> joined axes i axis)"
proof -
  let ?found = "find (\<lambda>previous. ac_safety_group (axes ! previous) = ac_safety_group (axes ! axis)) [0..<axis]"
  have n: "unat next \<le> axis" using inv by (simp add: groups_inv_def)
  then have n': "unat (next + 1) = unat next + 1" using ax by (intro unat_Suc_small) (simp add: kRobotIoMaximumAxes_def)
  have old: "unat (ids ! i) < unat next" if "i < axis" for i using inv that by (simp add: groups_inv_def)
  have ids: "ids ! i = ids ! j \<longleftrightarrow> joined axes i j" if "i < axis" "j < axis" for i j
    using inv that by (simp add: groups_inv_def)
  consider (new) "gid = next" "next' = next + 1" "\<forall>i < axis. \<not> joined axes i axis"
    | (shared) p where "gid = ids ! p" "next' = next" "p < axis" "ac_safety_group (axes ! axis) \<noteq> []"
        "ac_safety_group (axes ! p) = ac_safety_group (axes ! axis)"
  proof (cases "ac_safety_group (axes ! axis) \<noteq> [] \<and> ?found \<noteq> None")
    case True
    then obtain p where p: "?found = Some p" by auto
    then have "p < axis" "ac_safety_group (axes ! p) = ac_safety_group (axes ! axis)"
      by (auto simp: find_Some_iff)
    then show ?thesis using shared [of p] True p g by (auto simp: assign_group_def)
  next
    case False
    then have "\<forall>i < axis. \<not> joined axes i axis" by (auto simp: joined_def find_None_iff)
    then show ?thesis using new False g by (auto simp: assign_group_def split: if_splits)
  qed
  then show ?thesis
  proof cases
    case new
    then show ?thesis using n n' old by fastforce
  next
    case shared
    then show ?thesis using n n' old ids by (fastforce simp: joined_def)
  qed
qed

lemma groups_inv_step:
  assumes inv: "groups_inv axes axis ids next spv" and ax: "axis < kRobotIoMaximumAxes"
    and g: "assign_group axes axis ids next = (gid, next')"
    and ok: "\<not> axis_limits_bad (axes ! axis)" "known_mode (ac_mode (axes ! axis))"
  shows "groups_inv axes (axis + 1) (ids[axis := gid]) next'
    (spv\<lparr>configs := (configs spv)[axis := safety_config_of (axes ! axis) gid], last_requests := lr\<rparr>)"
proof -
  note a = assign_group_spec [OF inv ax g]
  have l: "length ids = kRobotIoMaximumAxes" "length (configs spv) = kRobotIoMaximumAxes"
    using inv by (simp_all add: groups_inv_def)
  have old: "unat (ids ! i) < unat next \<and> configs spv ! i = safety_config_of (axes ! i) (ids ! i)
          \<and> \<not> axis_limits_bad (axes ! i) \<and> known_mode (ac_mode (axes ! i))" if "i < axis" for i
    using inv that by (simp add: groups_inv_def)
  have ids: "ids ! i = ids ! j \<longleftrightarrow> joined axes i j" if "i < axis" "j < axis" for i j
    using inv that by (simp add: groups_inv_def)
  have sym: "joined axes i j \<longleftrightarrow> joined axes j i" for i j by (auto simp: joined_def)
  show ?thesis
    unfolding groups_inv_def
  proof (intro conjI allI impI)
    fix i assume i: "i < axis + 1"
    let ?c = "configs (spv\<lparr>configs := (configs spv)[axis := safety_config_of (axes ! axis) gid], last_requests := lr\<rparr>)"
    show "unat (ids[axis := gid] ! i) < unat next'" "?c ! i = safety_config_of (axes ! i) (ids[axis := gid] ! i)"
      "\<not> axis_limits_bad (axes ! i)" "known_mode (ac_mode (axes ! i))"
      using i a old [of i] ok l ax by (cases "i = axis"; simp add: less_Suc_eq)+
    fix j assume j: "j < axis + 1"
    show "ids[axis := gid] ! i = ids[axis := gid] ! j \<longleftrightarrow> joined axes i j"
      using i j a ids [of i j] l ax sym [of i j] by (cases "i = axis"; cases "j = axis") (auto simp: less_Suc_eq joined_def)
  qed (use a l ax in auto)
qed

lemma configure_loop_groups:
  assumes "groups_inv axes axis ids next spv" "length axes \<le> kRobotIoMaximumAxes"
    "configure_loop axes axis ids next spv = (spv', success ())" "axis \<le> length axes"
  shows "\<exists>ids' next'. groups_inv axes (length axes) ids' next' spv'"
  using assms
proof (induction axes axis ids "next" spv rule: configure_loop.induct)
  case (1 axes axis ids "next" spv)
  show ?case
  proof (cases "axis < length axes")
    case False
    then show ?thesis using "1.prems" configure_loop.simps [of axes axis ids "next" spv] by auto
  next
    case True
    obtain gid next' where g: "assign_group axes axis ids next = (gid, next')" by fastforce
    have ok: "\<not> axis_limits_bad (axes ! axis)" "known_mode (ac_mode (axes ! axis))"
      using "1.prems"(3) True
      by (auto simp: configure_loop.simps [of axes axis] known_mode_def split: if_splits)
    have m: "\<not> (ac_mode (axes ! axis) \<noteq> csp \<and> ac_mode (axes ! axis) \<noteq> csv \<and> ac_mode (axes ! axis) \<noteq> cst)"
      using ok(2) by (auto simp: known_mode_def)
    have "axis < kRobotIoMaximumAxes" using True "1.prems"(2) by simp
    from groups_inv_step [OF "1.prems"(1) this g ok]
    show ?thesis
      using "1.IH" [OF True ok(1) m g [symmetric] refl] "1.prems" True ok m g
      by (simp add: configure_loop.simps [of axes axis])
  qed
qed

text \<open>A successful configuration puts two axes in the same safety group exactly when they are
  the same axis or share a non-empty group name; every axis has its own configuration with finite, positive
  limits, an ordered range and one of the three cyclic modes.\<close>

theorem configure_groups:
  assumes "configure spv axes = (spv', success ())" "length (configs spv) = kRobotIoMaximumAxes"
  shows "length axes \<le> kRobotIoMaximumAxes \<and> axis_count spv' = length axes
    \<and> (\<forall>i < length axes. \<forall>j < length axes. same_group spv' i j \<longleftrightarrow>
         i = j \<or> (ac_safety_group (axes ! i) \<noteq> [] \<and> ac_safety_group (axes ! i) = ac_safety_group (axes ! j)))
    \<and> (\<forall>i < length axes. \<exists>gid. configs spv' ! i = safety_config_of (axes ! i) gid
         \<and> \<not> axis_limits_bad (axes ! i) \<and> known_mode (ac_mode (axes ! i)))"
proof -
  let ?ids = "replicate kRobotIoMaximumAxes 0 :: u8 list"
  have le: "length axes \<le> kRobotIoMaximumAxes" using assms(1) by (auto simp: configure_def split: if_splits)
  obtain s r where l: "configure_loop axes 0 ?ids 0 spv = (s, r)" by fastforce
  have r: "r = success ()" and s: "spv' = s\<lparr>axis_count := length axes, configured := True\<rparr>"
    using assms(1) l by (auto simp: configure_def success_def failure_def split: if_splits sum.splits)
  have "groups_inv axes 0 ?ids 0 spv" using assms(2) by (simp add: groups_inv_def)
  then obtain ids' next' where g: "groups_inv axes (length axes) ids' next' s"
    using configure_loop_groups [OF _ le, of 0 ?ids 0 spv s] l r by auto
  then have "same_group spv' i j \<longleftrightarrow> joined axes i j" if "i < length axes" "j < length axes" for i j
    using that by (simp add: groups_inv_def same_group_def s safety_config_of_def)
  then show ?thesis
    using g le by (auto simp: s groups_inv_def joined_def)
qed

definition example_axes :: "axis_config list" where
  "example_axes =
     [(ax_config example_axis)\<lparr>ac_safety_group := ''arm''\<rparr>, ax_config example_axis,
      (ax_config example_axis)\<lparr>ac_safety_group := ''arm''\<rparr>]"

definition default_options :: safety_options where
  "default_options = \<lparr>consecutive_wkc_limit = 3, maximum_fault_resets = 3, safe_stop_timeout = 250000000,
     zero_velocity_threshold_counts = 1, zero_velocity_confirmation_cycles = 1\<rparr>"

lemma example_configured: "snd (configure (make_supervisor default_options) example_axes) = success ()"
  by (simp add: configure_def configure_loop.simps make_supervisor_def example_axes_def default_options_def
      example_axis_def kRobotIoMaximumAxes_def valid_options_def axis_limits_bad_def int64_max_def
      assign_group_def success_def upt_rec)

theorem configure_groups_witness:
  "same_group (fst (configure (make_supervisor default_options) example_axes)) 0 2
   \<and> \<not> same_group (fst (configure (make_supervisor default_options) example_axes)) 0 1"
  using configure_groups [of "make_supervisor default_options" example_axes] example_configured
  by (auto simp: make_supervisor_def example_axes_def example_axis_def prod_eq_iff)

end
