(* ===== verification/Daemon.thy ===== *)
theory Daemon
  imports Dds_Endpoint Ethercat_Master Safety_Groups
begin

text \<open>
  The robot I/O daemon, class \<open>RobotIoDaemon\<close> of \<^verbatim>\<open>src/robot_io/daemon/daemon.cpp\<close>: its state, configuration from a
  profile, attaching an EtherCAT master and a DDS endpoint, starting and stopping.  The components are those of the
  other theories.  The latest values of the two \<open>LocalSnapshot\<close>s are options, each operation on them being one step
  (\<^verbatim>\<open>Local_Snapshot_Props\<close> shows that a read returns a whole publication).  What the process and the operating system
  answer is an argument.
\<close>

section \<open>State\<close>

record daemon_axis_snapshot =
  pa_cycle_sequence :: u64
  pa_timestamp_ns :: int
  pa_axis_count :: nat
  pa_requests :: "axis_request list"
  pa_feedback :: "axis_feedback list"

record staged_command_event =
  sv_publication :: u64
  sv_snapshot :: "axis_command snapshot"

record robot_daemon =
  dm_address :: nat
  dm_scheduler :: address
  dm_loop :: realtime_loop
  dm_safety :: safety_supervisor
  dm_command_ingress :: safety_supervisor
  dm_registry :: registry
  dm_runtimes :: "transport_runtime list"
  dm_bus_members :: "nat list list"
  dm_axis_configurations :: "axis_config list"
  dm_damiao_sensors :: "damiao_config list"
  dm_damiao_actuators :: "damiao_actuator list"
  dm_actuator_bindings :: "device_binding option list"
  dm_master :: "ethercat_master option"
  dm_master_address :: address
  dm_dds :: "dds_endpoint option"
  dm_axes :: "cia402_axis option list"
  dm_standalone_pdos :: "cia402_pdo_view list"
  dm_cycle_feedback :: "axis_feedback list"
  dm_axis_count :: nat
  dm_configured :: bool
  dm_master_registered :: bool
  dm_master_handler_bound :: bool
  dm_serial_axis_stop_masks :: "u16 list"
  dm_st3215_dds_sensor_indices :: "nat option list"
  dm_command_handoff :: "staged_command_event option"
  dm_axis_publication :: "daemon_axis_snapshot option"
  dm_command_publication :: u64
  dm_consumed_publication :: u64
  dm_acknowledged_rejection :: u64
  dm_rejected_publication :: u64
  dm_running :: bool
  dm_accepting_commands :: bool
  dm_realtime_guarantee :: bool
  dm_stop_requested :: bool
  dm_shutdown_complete :: bool
  dm_process_data_valid :: bool
  dm_working_counter :: u32
  dm_expected_working_counter :: u32
  dm_consecutive_wkc_failures :: u32
  dm_safety_flags :: u32
  dm_cycle_sequence :: u64
  dm_last_command_sequence :: u64
  dm_last_command_timestamp_ns :: int
  dm_feedback_timestamp_ns :: int
  dm_dc_deviation_ns :: int
  dm_timing_fault :: bool
  dm_sleep_error :: int
  dm_serial_servo_count :: u32
  dm_serial_fault_count :: u32
  dm_serial_safety_flags :: u32
  dm_cycle_owner_token :: u64

text \<open>An index of the DDS sensor table is \<open>None\<close> where the code has the largest \<open>size_t\<close>.\<close>

definition make_daemon :: "nat \<Rightarrow> address \<Rightarrow> safety_options \<Rightarrow> loop_config \<Rightarrow> robot_daemon" where
  "make_daemon address scheduler safety_opts loop_cfg = \<lparr>
     dm_address = address, dm_scheduler = scheduler, dm_loop = make_loop loop_cfg, dm_safety = make_supervisor safety_opts,
     dm_command_ingress = make_supervisor safety_opts, dm_registry = make_registry, dm_runtimes = [], dm_bus_members = [],
     dm_axis_configurations = [], dm_damiao_sensors = [], dm_damiao_actuators = [],
     dm_actuator_bindings = replicate kRobotIoMaximumServos None, dm_master = None, dm_master_address = 0, dm_dds = None,
     dm_axes = replicate kRobotIoMaximumAxes None, dm_standalone_pdos = replicate kRobotIoMaximumAxes zero_pdo_view,
     dm_cycle_feedback = replicate kRobotIoMaximumAxes zero_feedback, dm_axis_count = 0, dm_configured = False,
     dm_master_registered = False, dm_master_handler_bound = False,
     dm_serial_axis_stop_masks = replicate kMaximumSt3215Servos 0,
     dm_st3215_dds_sensor_indices = replicate kMaximumSt3215Servos (Some 0), dm_command_handoff = None,
     dm_axis_publication = None, dm_command_publication = 0, dm_consumed_publication = 0, dm_acknowledged_rejection = 0,
     dm_rejected_publication = 0, dm_running = False, dm_accepting_commands = False, dm_realtime_guarantee = False,
     dm_stop_requested = False, dm_shutdown_complete = False, dm_process_data_valid = False, dm_working_counter = 0,
     dm_expected_working_counter = 0, dm_consecutive_wkc_failures = 0, dm_safety_flags = 0, dm_cycle_sequence = 0,
     dm_last_command_sequence = 0, dm_last_command_timestamp_ns = 0, dm_feedback_timestamp_ns = 0, dm_dc_deviation_ns = 0,
     dm_timing_fault = False, dm_sleep_error = 0, dm_serial_servo_count = 0, dm_serial_fault_count = 0,
     dm_serial_safety_flags = 0, dm_cycle_owner_token = 0\<rparr>"

section \<open>Configuration\<close>

definition bus_paths :: "damiao_profile list \<Rightarrow> string list" where
  "bus_paths motors = sort (remdups (map dp_path motors))"

definition members_of :: "damiao_profile list \<Rightarrow> string \<Rightarrow> nat list" where
  "members_of motors path = filter (\<lambda>i. dp_path (motors ! i) = path) [0..<length motors]"

definition route_matches :: "robot_profile \<Rightarrow> compiled_topology \<Rightarrow> string \<Rightarrow> damiao_profile \<Rightarrow> device_binding \<Rightarrow> bool" where
  "route_matches profile topology path motor b \<longleftrightarrow>
     (case db_actuator_profile_index b of
        None \<Rightarrow> False
      | Some a \<Rightarrow> a < length (rp_actuators profile) \<and> dv_name (rp_actuators profile ! a) = dp_actuator_name motor
          \<and> db_transport_index b < length (ct_transports topology)
          \<and> snd (ct_transports topology ! db_transport_index b) = path)"

definition motor_route ::
  "robot_profile \<Rightarrow> compiled_topology \<Rightarrow> string \<Rightarrow> damiao_profile \<Rightarrow> nat \<Rightarrow> nat \<Rightarrow> device_binding" where
  "motor_route profile topology path motor transport_index local_index =
     (let found = find (route_matches profile topology path motor) (ct_devices topology)
      in \<lparr>db_sensor_profile_index = None,
          db_actuator_profile_index = (case found of None \<Rightarrow> None | Some b \<Rightarrow> db_actuator_profile_index b),
          db_transport_index = transport_index, db_receive_slot = 0,
          db_transmit_slot = (case found of None \<Rightarrow> local_index | Some b \<Rightarrow> db_transmit_slot b)\<rparr>)"

text \<open>The loop over the buses: one SocketCAN runtime per path and the routes of its motors.  \<open>can\<close> answers the calls
  that open an interface.\<close>

type_synonym can_calls = "string \<Rightarrow> int os_outcome \<times> unit os_outcome \<times> unit os_outcome"

fun create_buses ::
  "robot_profile \<Rightarrow> compiled_topology \<Rightarrow> can_calls \<Rightarrow> string list \<Rightarrow> transport_runtime list \<Rightarrow> device_binding option list
     \<Rightarrow> (transport_runtime list \<times> device_binding option list) result" where
  "create_buses profile topology can [] runtimes bindings = success (runtimes, bindings)"
| "create_buses profile topology can (path # paths) runtimes bindings =
     (let (socket_r, ioctl_r, bind_r) = can path; motors = rp_damiao_motors profile
      in case create_socketcan (socketcan_kind, path) True 32 socket_r ioctl_r bind_r of
           Inl e \<Rightarrow> Inl e
         | Inr r \<Rightarrow>
             create_buses profile topology can paths (runtimes @ [r])
               (fold (\<lambda>(local_index, i) bs.
                    bs[i := Some (motor_route profile topology path (motors ! i) (length runtimes) local_index)])
                  (enumerate 0 (members_of motors path)) bindings))"

fun construct_axes :: "axis_config list \<Rightarrow> cia402_axis list result" where
  "construct_axes [] = success []"
| "construct_axes (c # cs) =
     (case make_axis c of
        Inl e \<Rightarrow> failure invalid_argument (''failed to construct configured CiA 402 axis: '' @ message e)
      | Inr a \<Rightarrow> (case construct_axes cs of Inl e \<Rightarrow> Inl e | Inr as \<Rightarrow> success (a # as)))"

text \<open>How many axes the loop constructs before it stops: their mode displays are already stored.\<close>

fun constructed_count :: "axis_config list \<Rightarrow> nat" where
  "constructed_count [] = 0"
| "constructed_count (c # cs) = (case make_axis c of Inl e \<Rightarrow> 0 | Inr a \<Rightarrow> Suc (constructed_count cs))"

definition store_modes :: "axis_config list \<Rightarrow> cia402_pdo_view list \<Rightarrow> cia402_pdo_view list" where
  "store_modes axes pdos =
     fill_prefix (constructed_count axes) (\<lambda>i. (pdos ! i)\<lparr>mode_display := mode_code (ac_mode (axes ! i))\<rparr>) pdos"

definition dds_sensor_indices :: "robot_profile \<Rightarrow> nat option list" where
  "dds_sensor_indices profile =
     (let servos = rp_st3215_servos profile
      in fold (\<lambda>(index, sensor) table.
             case find (\<lambda>k. pf_sensor_name (servos ! k) = dv_name sensor) [0..<length servos] of
               None \<Rightarrow> table
             | Some k \<Rightarrow> table[k := Some index])
           (enumerate 0 (filter (\<lambda>s. dv_type s = ''st3215'') (rp_sensors profile)))
           (replicate kMaximumSt3215Servos None))"

definition group_axis_mask :: "axis_config list \<Rightarrow> string \<Rightarrow> u16 \<Rightarrow> u16" where
  "group_axis_mask axes safety_group mask0 =
     fold (\<lambda>axis m. if ac_safety_group (axes ! axis) = safety_group then m OR push_bit axis 1 else m) [0..<length axes] mask0"

definition serial_stop_masks :: "robot_profile \<Rightarrow> u16 list \<Rightarrow> u16 list" where
  "serial_stop_masks profile masks =
     fill_prefix (length (rp_st3215_servos profile))
       (\<lambda>k. group_axis_mask (rp_axes profile) (pf_safety_group (rp_st3215_servos profile ! k)) (masks ! k)) masks"

text \<open>The checks that precede any change of the daemon: the topology on success.\<close>

definition preflight :: "(nat \<Rightarrow> address) \<Rightarrow> robot_profile \<Rightarrow> compiled_topology result" where
  "preflight addr profile =
     (if length (rp_axes profile) > kRobotIoMaximumAxes
      then failure invalid_argument ''robot I/O daemon supports at most 12 axes''
      else case snd (configure (make_supervisor default_options) (rp_axes profile)) of
        Inl e \<Rightarrow> Inl e
      | Inr _ \<Rightarrow>
      (case snd (registry_configure addr make_registry (rp_st3215_servos profile)) of
        Inl e \<Rightarrow> Inl e
      | Inr _ \<Rightarrow>
      (case compile_physical_topology (rp_sensors profile) (rp_actuators profile) of
        Inl e \<Rightarrow> Inl e
      | Inr topology \<Rightarrow>
          if length (rp_damiao_motors profile) > kRobotIoMaximumServos
          then failure invalid_argument ''robot I/O daemon supports at most 32 Damiao motors''
          else if list_ex (\<lambda>m. dp_transport m \<noteq> dt_socketcan) (rp_damiao_motors profile)
          then failure invalid_argument ''Damiao daemon currently supports SocketCAN transport only''
          else success topology)))"

definition initial_axis_snapshot :: "nat \<Rightarrow> daemon_axis_snapshot" where
  "initial_axis_snapshot n = \<lparr>pa_cycle_sequence = 0, pa_timestamp_ns = 0, pa_axis_count = n,
     pa_requests = replicate kRobotIoMaximumAxes disable, pa_feedback = replicate kRobotIoMaximumAxes zero_feedback\<rparr>"

definition motor_configs :: "robot_profile \<Rightarrow> damiao_config list" where
  "motor_configs profile = map (\<lambda>m. \<lparr>cg_motor_id = dp_motor_id m, cg_limits = dp_limits m\<rparr>) (rp_damiao_motors profile)"

definition daemon_configure ::
  "(nat \<Rightarrow> address) \<Rightarrow> can_calls \<Rightarrow> robot_daemon \<Rightarrow> robot_profile \<Rightarrow> robot_daemon \<times> unit result" where
  "daemon_configure addr can d profile =
     (if dm_configured d \<or> dm_running d
      then (d, failure invalid_argument ''robot I/O daemon is already configured'')
      else case preflight addr profile of
        Inl e \<Rightarrow> (d, Inl e)
      | Inr topology \<Rightarrow>
      (case create_buses profile topology can (bus_paths (rp_damiao_motors profile)) [] (replicate kRobotIoMaximumServos None) of
        Inl e \<Rightarrow> (d, Inl e)
      | Inr (runtimes, bindings) \<Rightarrow>
      (let d1 = d\<lparr>dm_standalone_pdos := store_modes (rp_axes profile) (dm_standalone_pdos d)\<rparr>
       in case construct_axes (rp_axes profile) of
        Inl e \<Rightarrow> (d1, Inl e)
      | Inr axes \<Rightarrow>
      (case configure (dm_safety d) (rp_axes profile) of
        (safety, Inl e) \<Rightarrow> (d1\<lparr>dm_safety := safety\<rparr>, Inl e)
      | (safety, Inr _) \<Rightarrow>
      (case configure (dm_command_ingress d) (rp_axes profile) of
        (ingress, Inl e) \<Rightarrow> (d1\<lparr>dm_safety := safety, dm_command_ingress := ingress\<rparr>, Inl e)
      | (ingress, Inr _) \<Rightarrow>
      (case registry_configure addr (dm_registry d) (rp_st3215_servos profile) of
        (g, Inl e) \<Rightarrow> (d1\<lparr>dm_safety := safety, dm_command_ingress := ingress, dm_registry := g\<rparr>, Inl e)
      | (g, Inr _) \<Rightarrow>
          (d1\<lparr>dm_safety := safety, dm_command_ingress := ingress, dm_registry := g,
              dm_st3215_dds_sensor_indices := dds_sensor_indices profile,
              dm_serial_axis_stop_masks := serial_stop_masks profile (dm_serial_axis_stop_masks d),
              dm_axes := map Some axes @ replicate (kRobotIoMaximumAxes - length axes) None,
              dm_axis_configurations := rp_axes profile, dm_runtimes := runtimes,
              dm_bus_members := map (members_of (rp_damiao_motors profile)) (bus_paths (rp_damiao_motors profile)),
              dm_actuator_bindings := bindings, dm_damiao_sensors := motor_configs profile,
              dm_damiao_actuators := map make_actuator (motor_configs profile), dm_axis_count := length (rp_axes profile),
              dm_axis_publication := Some (initial_axis_snapshot (length (rp_axes profile))), dm_configured := True\<rparr>,
           success ())))))))"

section \<open>Attaching\<close>

definition attach_ethercat :: "robot_daemon \<Rightarrow> ethercat_master \<Rightarrow> address \<Rightarrow> robot_daemon \<times> unit result" where
  "attach_ethercat d m address =
     (if \<not> dm_configured d \<or> dm_running d \<or> dm_master d \<noteq> None \<or> length (xm_pdo_views m) \<noteq> dm_axis_count d
      then (d, failure invalid_argument ''EtherCAT master must match the configured inactive daemon'')
      else (d\<lparr>dm_master := Some m, dm_master_address := address\<rparr>, success ()))"

text \<open>\<open>endpoint\<close> is the result of creating the endpoint; its callbacks are those of \<^verbatim>\<open>Daemon_Cycle\<close>.\<close>

definition attach_dds :: "robot_daemon \<Rightarrow> dds_endpoint result \<Rightarrow> robot_daemon \<times> unit result" where
  "attach_dds d endpoint =
     (if \<not> dm_configured d \<or> dm_running d \<or> dm_dds d \<noteq> None
      then (d, failure invalid_argument ''DDS endpoint requires a configured inactive daemon'')
      else case endpoint of Inl e \<Rightarrow> (d, Inl e) | Inr x \<Rightarrow> (d\<lparr>dm_dds := Some x\<rparr>, success ()))"

section \<open>Starting\<close>

text \<open>What the environment answers while the daemon starts: whether its atomics are lock-free, the exceptions of preparing
  an EtherCAT transport and of its factory, the address of the prepared master, the backend, and the outcomes for each serial bus and each
  CAN runtime.\<close>

record start_env =
  se_lock_free :: bool
  se_prepare_exception :: "string option"
  se_exception :: "string option"
  se_master_address :: address
  se_backend :: backend
  se_serial :: "nat \<Rightarrow> open_calls \<times> int"
  se_runtime :: "nat \<Rightarrow> unit result \<times> bool"

definition create_ethercat :: "bool \<Rightarrow> string option \<Rightarrow> axis_configuration list \<Rightarrow> ethercat_master result" where
  "create_ethercat has_backend exception configurations =
     (if \<not> has_backend then failure invalid_argument ''EtherCAT factory requires a backend''
      else case exception of
             Some what \<Rightarrow> failure internal (''failed to create EtherCAT transport: '' @ what)
           | None \<Rightarrow> success (make_master has_backend configurations))"

definition start_dds :: "robot_daemon \<Rightarrow> robot_daemon \<times> unit result" where
  "start_dds d =
     (case dm_dds d of
        None \<Rightarrow> (d, success ())
      | Some e \<Rightarrow> let (e', r) = endpoint_start e in (d\<lparr>dm_dds := Some e'\<rparr>, r))"

definition prepare_master :: "robot_daemon \<Rightarrow> start_env \<Rightarrow> robot_daemon \<times> unit result" where
  "prepare_master d env =
     (if dm_master d = None \<and> dm_axis_count d > 0
      then case se_prepare_exception env of
        Some what \<Rightarrow> (d, failure internal (''failed to prepare EtherCAT transport: '' @ what))
      | None \<Rightarrow>
          (case create_ethercat True (se_exception env)
                  (map (\<lambda>a. \<lparr>xc_axis = a, xc_startup_parameters = []\<rparr>) (dm_axis_configurations d)) of
             Inl e \<Rightarrow> (d, Inl e)
           | Inr m \<Rightarrow> (d\<lparr>dm_master := Some m, dm_master_address := se_master_address env\<rparr>, success ()))
      else (d, success ()))"

definition schedule_add :: "process \<Rightarrow> address \<Rightarrow> address \<Rightarrow> scheduling_class \<Rightarrow> process \<times> unit result" where
  "schedule_add p scheduler transport cls =
     (let (s, r) = scheduler_add (pr_schedulers p scheduler) transport cls
      in (p\<lparr>pr_schedulers := (pr_schedulers p)(scheduler := s)\<rparr>, r))"

definition schedule_remove :: "process \<Rightarrow> address \<Rightarrow> address \<Rightarrow> process" where
  "schedule_remove p scheduler transport =
     p\<lparr>pr_schedulers := (pr_schedulers p)(scheduler := fst (scheduler_remove (pr_schedulers p scheduler) transport))\<rparr>"

definition kEthercatCycleHandler :: "nat option" where "kEthercatCycleHandler = Some 1"

text \<open>Registering, binding and opening the master, each undone when a later one fails.\<close>

definition start_master :: "robot_daemon \<Rightarrow> start_env \<Rightarrow> process \<Rightarrow> robot_daemon \<times> process \<times> unit result" where
  "start_master d env p =
     (case dm_master d of
        None \<Rightarrow> (d, p, success ())
      | Some m \<Rightarrow>
          let sched = dm_scheduler d; a = dm_master_address d
          in case schedule_add p sched a (master_scheduling_class m) of
               (p1, Inl e) \<Rightarrow> (d, p1, Inl e)
             | (p1, Inr _) \<Rightarrow>
                 (case set_supervised_cycle_handler m kEthercatCycleHandler (dm_address d) of
                    (m1, Inl e) \<Rightarrow> (d\<lparr>dm_master := Some m1, dm_master_registered := False\<rparr>, schedule_remove p1 sched a, Inl e)
                  | (m1, Inr _) \<Rightarrow>
                      (case master_open m1 (se_backend env) of
                         (m2, Inl e) \<Rightarrow>
                           (d\<lparr>dm_master := Some (fst (clear_supervised_cycle_handler m2 (dm_address d))),
                              dm_master_handler_bound := False, dm_master_registered := False\<rparr>,
                            schedule_remove p1 sched a, Inl e)
                       | (m2, Inr _) \<Rightarrow>
                           (d\<lparr>dm_master := Some m2, dm_master_registered := True, dm_master_handler_bound := True\<rparr>, p1, success ()))))"

text \<open>\<open>settle\<close> is what closing does to the requests in flight of the mailboxes.\<close>

definition close_bound_master :: "(sdo_request \<Rightarrow> sdo_request) \<Rightarrow> robot_daemon \<Rightarrow> robot_daemon" where
  "close_bound_master settle d =
     (case dm_master d of
        Some m \<Rightarrow>
          if dm_master_handler_bound d
          then d\<lparr>dm_master := Some (fst (clear_supervised_cycle_handler (master_close m settle) (dm_address d))),
                 dm_master_handler_bound := False\<rparr>
          else d
      | None \<Rightarrow> d)"

definition unregister_master :: "robot_daemon \<Rightarrow> process \<Rightarrow> robot_daemon \<times> process" where
  "unregister_master d p =
     (if dm_master d \<noteq> None \<and> dm_master_registered d
      then (d\<lparr>dm_master_registered := False\<rparr>, schedule_remove p (dm_scheduler d) (dm_master_address d)) else (d, p))"

fun start_runtimes :: "(nat \<Rightarrow> unit result \<times> bool) \<Rightarrow> nat \<Rightarrow> transport_runtime list \<Rightarrow> transport_runtime list \<times> unit result" where
  "start_runtimes env i [] = ([], success ())"
| "start_runtimes env i (r # rs) =
     (case runtime_start r (fst (env i)) (snd (env i)) of
        (r', Inl e) \<Rightarrow> (r' # rs, Inl e)
      | (r', Inr _) \<Rightarrow> let (rs', x) = start_runtimes env (i + 1) rs in (r' # rs', x))"

definition startable :: "robot_daemon \<Rightarrow> bool" where
  "startable d \<longleftrightarrow> dm_configured d \<and> \<not> dm_running d \<and> \<not> dm_stop_requested d \<and> \<not> dm_shutdown_complete d"

definition daemon_start ::
  "(sdo_request \<Rightarrow> sdo_request) \<Rightarrow> start_env \<Rightarrow> robot_daemon \<Rightarrow> process \<Rightarrow> robot_daemon \<times> process \<times> unit result" where
  "daemon_start settle env d p =
     (if \<not> startable d then (d, p, failure invalid_argument ''robot I/O daemon is not startable'')
      else if \<not> se_lock_free env then (d, p, failure unavailable ''daemon health atomics are not lock-free'')
      else case validate_loop_config (rl_config (dm_loop d)) of
        Inl e \<Rightarrow> (d, p, Inl e)
      | Inr _ \<Rightarrow>
      (case start_dds d of
        (d1, Inl e) \<Rightarrow> (d1, p, Inl e)
      | (d1, Inr _) \<Rightarrow>
      (case prepare_master d1 env of
        (d2, Inl e) \<Rightarrow> (d2, p, Inl e)
      | (d2, Inr _) \<Rightarrow>
      (case start_master d2 env p of
        (d3, p3, Inl e) \<Rightarrow> (d3, p3, Inl e)
      | (d3, p3, Inr _) \<Rightarrow>
      (case registry_start (dm_registry d3) (se_lock_free env) (dm_scheduler d3) (se_serial env) p3 of
        (g, p4, Inl e) \<Rightarrow>
          let (d5, p5) = unregister_master (close_bound_master settle (d3\<lparr>dm_registry := g\<rparr>)) p4 in (d5, p5, Inl e)
      | (g, p4, Inr _) \<Rightarrow>
      (case start_runtimes (se_runtime env) 0 (dm_runtimes d3) of
        (rs, Inl e) \<Rightarrow> (d3\<lparr>dm_registry := g, dm_runtimes := rs\<rparr>, p4, Inl e)
      | (rs, Inr _) \<Rightarrow>
          (d3\<lparr>dm_registry := g, dm_runtimes := rs, dm_accepting_commands := True, dm_running := True\<rparr>, p4, success ())))))))"

section \<open>Stopping\<close>

definition request_stop :: "robot_daemon \<Rightarrow> robot_daemon \<times> unit result" where
  "request_stop d =
     (if \<not> dm_configured d then (d, failure invalid_argument ''robot I/O daemon is not configured'')
      else (d\<lparr>dm_stop_requested := True, dm_accepting_commands := False\<rparr>, success ()))"

definition stop_transports :: "(sdo_request \<Rightarrow> sdo_request) \<Rightarrow> robot_daemon \<Rightarrow> process \<Rightarrow> robot_daemon \<times> process" where
  "stop_transports settle d p =
     (let d1 = d\<lparr>dm_dds := map_option endpoint_stop (dm_dds d)\<rparr>;
          (g, p1) = registry_stop_on (dm_registry d1) (dm_scheduler d1) p;
          d2 = d1\<lparr>dm_registry := g, dm_runtimes := map runtime_stop (dm_runtimes d1)\<rparr>;
          (d3, p2) = unregister_master (close_bound_master settle d2) p1
      in (d3\<lparr>dm_running := False\<rparr>, p2))"

end
