(* ===== verification/Daemon_Cycle.thy ===== *)
theory Daemon_Cycle
  imports Daemon
begin

text \<open>
  The work of the running daemon, \<^verbatim>\<open>src/robot_io/daemon/daemon.cpp\<close>: staging commands, handing them to the safety
  supervisor, the device cycle, the cycle of all transports, the loop of \<open>run\<close>, and what the daemon reports.  Every
  reading of the clock is an argument.
\<close>

section \<open>Staging commands\<close>

text \<open>One call under the ingress gate.\<close>

definition daemon_stage_commands ::
  "int \<Rightarrow> axis_command snapshot \<Rightarrow> robot_daemon \<Rightarrow> robot_daemon \<times> command_acceptance" where
  "daemon_stage_commands now_ns snap d =
     (if \<not> dm_accepting_commands d then (d, command_acceptance.rejected)
      else
        let (ingress, result) = accept_commands (dm_command_ingress d) snap now_ns;
            publication = dm_command_publication d + 1; d1 = d\<lparr>dm_command_ingress := ingress\<rparr>
        in case result of
             command_acceptance.accepted \<Rightarrow>
               (d1\<lparr>dm_command_publication := publication,
                   dm_command_handoff := Some \<lparr>sv_publication = publication, sv_snapshot = snap\<rparr>,
                   dm_last_command_sequence := snapshot.sn_sequence snap,
                   dm_last_command_timestamp_ns := snapshot.sn_timestamp_ns snap\<rparr>, result)
           | command_acceptance.rejected \<Rightarrow>
               (d1\<lparr>dm_command_publication := publication, dm_rejected_publication := publication\<rparr>, result)
           | command_acceptance.duplicate \<Rightarrow> (d1, result))"

definition invalid_snapshot :: "axis_command snapshot" where
  "invalid_snapshot = snapshot.make 0 0 (kRobotIoMaximumAxes + 1) (replicate kRobotIoMaximumAxes zero_command)"

text \<open>What the cycle owner does with the rejection counter and the handed-over command it has read.\<close>

definition consume_observed ::
  "u64 \<Rightarrow> staged_command_event option \<Rightarrow> int \<Rightarrow> robot_daemon \<Rightarrow> robot_daemon \<times> command_acceptance" where
  "consume_observed rejected_publication event now_ns d =
     (if rejected_publication \<noteq> dm_acknowledged_rejection d
      then
        let d1 = d\<lparr>dm_acknowledged_rejection := rejected_publication,
                   dm_consumed_publication :=
                     (if dm_consumed_publication d > rejected_publication then rejected_publication else dm_consumed_publication d)\<rparr>;
            (safety, result) = accept_commands (dm_safety d1) invalid_snapshot now_ns
        in (d1\<lparr>dm_safety := safety\<rparr>, result)
      else
        case event of
          None \<Rightarrow> (d, command_acceptance.duplicate)
        | Some ev \<Rightarrow>
            if sv_publication ev \<le> dm_acknowledged_rejection d \<or> sv_publication ev = dm_consumed_publication d
            then (d, command_acceptance.duplicate)
            else let (safety, result) = accept_commands (dm_safety d) (sv_snapshot ev) now_ns
                 in (d\<lparr>dm_consumed_publication := sv_publication ev, dm_safety := safety\<rparr>, result))"

definition consume_staged_commands :: "int \<Rightarrow> robot_daemon \<Rightarrow> robot_daemon \<times> command_acceptance" where
  "consume_staged_commands now_ns d = consume_observed (dm_rejected_publication d) (dm_command_handoff d) now_ns d"

definition refresh_commands_owned :: "int \<Rightarrow> robot_daemon \<Rightarrow> robot_daemon \<times> command_acceptance" where
  "refresh_commands_owned now_ns d = consume_staged_commands now_ns d"

text \<open>\<open>CycleOwnerGuard\<close>: only one thread at a time owns the cycle.\<close>

definition acquire_cycle :: "u64 \<Rightarrow> robot_daemon \<Rightarrow> robot_daemon \<times> bool" where
  "acquire_cycle thread d =
     (if dm_cycle_owner_token d = 0 then (d\<lparr>dm_cycle_owner_token := thread\<rparr>, True) else (d, False))"

definition release_cycle :: "robot_daemon \<Rightarrow> robot_daemon" where
  "release_cycle d = d\<lparr>dm_cycle_owner_token := 0\<rparr>"

definition owns_cycle :: "u64 \<Rightarrow> robot_daemon \<Rightarrow> bool" where
  "owns_cycle thread d \<longleftrightarrow> dm_cycle_owner_token d = thread"

definition refresh_commands :: "u64 \<Rightarrow> int \<Rightarrow> robot_daemon \<Rightarrow> robot_daemon \<times> command_acceptance" where
  "refresh_commands thread now_ns d =
     (let (d1, acquired) = acquire_cycle thread d
      in if \<not> acquired then (d1, command_acceptance.rejected)
         else let (d2, result) = refresh_commands_owned now_ns d1 in (release_cycle d2, result))"

section \<open>The device cycle\<close>

definition safety_bus_state_of :: "domain_health \<Rightarrow> bool \<Rightarrow> safety_bus_state" where
  "safety_bus_state_of domain valid = \<lparr>
     working_counter = dh_working_counter domain,
     expected_working_counter = value_or (dh_expected_working_counter domain) 0,
     expected_working_counter_known = (dh_expected_working_counter domain \<noteq> None),
     working_counter_complete = dh_working_counter_complete domain, link_up = dh_link_up domain,
     all_slaves_operational = dh_all_slaves_operational domain, process_data_valid = valid,
     operational_axes_mask = dh_operational_axes_mask domain, external_stop_axes_mask = 0,
     dc_deviation_ns = dh_dc_deviation_ns domain\<rparr>"

definition serial_stop_mask :: "robot_daemon \<Rightarrow> registry_safety \<Rightarrow> u16" where
  "serial_stop_mask d s =
     fold (\<lambda>k m. if rs_fault_mask s AND push_bit k 1 \<noteq> 0 then m OR dm_serial_axis_stop_masks d ! k else m)
       [0..<unat (rs_servo_count s)] 0"

definition axis_feedback_of :: "safety_supervisor \<Rightarrow> safety_evaluation \<Rightarrow> int \<Rightarrow> nat \<Rightarrow> axis_feedback \<Rightarrow> axis_feedback" where
  "axis_feedback_of spv decisions now_ns axis v =
     v\<lparr>fb_sequence := last_command_sequence spv, fb_timestamp_ns := now_ns,
       fb_flags := fb_flags v OR ev_feedback_flags decisions ! axis\<rparr>"

definition cia402_event :: "u64 \<Rightarrow> int \<Rightarrow> axis_feedback \<Rightarrow> cia402_sensor_event" where
  "cia402_event sequence now_ns v = \<lparr>es_sequence = sequence, es_source_timestamp_ns = now_ns, es_bus_cycle = sequence,
     es_flags = fb_flags v, xe_position = fb_position v, xe_velocity = fb_velocity v, xe_torque = fb_effort v,
     xe_status_word = ucast (fb_status_word v), xe_mode_display = sint (fb_mode_display v)\<rparr>"

definition enqueue_axes :: "nat \<Rightarrow> (nat \<Rightarrow> cia402_sensor_event) \<Rightarrow> dds_endpoint option \<Rightarrow> dds_endpoint option" where
  "enqueue_axes n event dds =
     map_option (fold (\<lambda>axis e. fst (enqueue_cia402_sensor_realtime e axis (event axis))) [0..<n]) dds"

text \<open>The supervisor's evaluation with the stop requests of the daemon and of the serial devices.\<close>

definition evaluate_devices ::
  "int \<Rightarrow> cia402_pdo_view list \<Rightarrow> domain_health \<Rightarrow> bool \<Rightarrow> robot_daemon \<Rightarrow> robot_daemon \<times> safety_evaluation" where
  "evaluate_devices now_ns pdos domain valid d =
     (let d1 = (if dm_stop_requested d
                then d\<lparr>dm_accepting_commands := False, dm_safety := request_shutdown (dm_safety d) now_ns\<rparr> else d);
          serial_safety = safety_snapshot (dm_registry d1) now_ns;
          bus = (safety_bus_state_of domain valid)\<lparr>external_stop_axes_mask := serial_stop_mask d1 serial_safety\<rparr>;
          (safety, decisions) = evaluate (dm_safety d1) bus pdos now_ns
      in (d1\<lparr>dm_serial_servo_count := rs_servo_count serial_safety, dm_serial_fault_count := rs_fault_count serial_safety,
             dm_serial_safety_flags := rs_aggregate_flags serial_safety, dm_safety := safety\<rparr>, decisions))"

text \<open>The axes run their cycles on the decisions; an axis below the count is always present.\<close>

definition run_axes ::
  "int \<Rightarrow> safety_evaluation \<Rightarrow> cia402_pdo_view list \<Rightarrow> bool \<Rightarrow> robot_daemon \<Rightarrow> cia402_pdo_view list \<times> robot_daemon" where
  "run_axes now_ns decisions pdos valid d =
     (let n = dm_axis_count d;
          ran = (\<lambda>axis. axis_cycle (the (dm_axes d ! axis)) (ev_commands decisions ! axis) (pdos ! axis));
          feedback = (\<lambda>axis. axis_feedback_of (dm_safety d) decisions now_ns axis (snd (snd (ran axis))));
          event = (\<lambda>axis. cia402_event (dm_cycle_sequence d + 1) now_ns (feedback axis))
      in (map (\<lambda>axis. fst (snd (ran axis))) [0..<n],
          d\<lparr>dm_axes := fill_prefix n (\<lambda>axis. Some (fst (ran axis))) (dm_axes d),
            dm_cycle_feedback := fill_prefix n feedback (dm_cycle_feedback d),
            dm_safety_flags := fold (\<lambda>axis flags. flags OR ev_feedback_flags decisions ! axis) [0..<n] 0,
            dm_dds := (if valid then enqueue_axes n event (dm_dds d) else dm_dds d)\<rparr>))"

definition publish_cycle ::
  "int \<Rightarrow> safety_evaluation \<Rightarrow> domain_health \<Rightarrow> bool \<Rightarrow> robot_daemon \<Rightarrow> robot_daemon" where
  "publish_cycle now_ns decisions domain valid d =
     (let sequence = dm_cycle_sequence d + 1; n = dm_axis_count d; fresh = initial_axis_snapshot n
      in d\<lparr>dm_cycle_sequence := sequence, dm_working_counter := dh_working_counter domain,
           dm_expected_working_counter := value_or (dh_expected_working_counter domain) 0,
           dm_consecutive_wkc_failures := consecutive_wkc_failures (dm_safety d), dm_process_data_valid := valid,
           dm_dc_deviation_ns := dh_dc_deviation_ns domain, dm_feedback_timestamp_ns := now_ns,
           dm_shutdown_complete := ev_shutdown_complete decisions,
           dm_axis_publication := Some (fresh\<lparr>pa_cycle_sequence := sequence, pa_timestamp_ns := now_ns,
             pa_requests := fill_prefix n (\<lambda>axis. ev_requests decisions ! axis) (pa_requests fresh),
             pa_feedback := fill_prefix n (\<lambda>axis. dm_cycle_feedback d ! axis) (pa_feedback fresh)\<rparr>)\<rparr>)"

definition process_device_cycle_owned ::
  "int \<Rightarrow> int \<Rightarrow> cia402_pdo_view list \<Rightarrow> domain_health \<Rightarrow> bool \<Rightarrow> robot_daemon \<Rightarrow> cia402_pdo_view list \<times> robot_daemon" where
  "process_device_cycle_owned consume_ns now_ns pdos domain valid d =
     (if \<not> dm_running d \<or> length pdos \<noteq> dm_axis_count d then (pdos, d\<lparr>dm_process_data_valid := False\<rparr>)
      else
        let d1 = fst (consume_staged_commands consume_ns d);
            (d2, decisions) = evaluate_devices now_ns pdos domain valid d1;
            (pdos', d3) = run_axes now_ns decisions pdos valid d2
        in (pdos', publish_cycle now_ns decisions domain valid d3))"

definition process_device_cycle ::
  "u64 \<Rightarrow> int \<Rightarrow> int \<Rightarrow> cia402_pdo_view list \<Rightarrow> domain_health \<Rightarrow> bool \<Rightarrow> robot_daemon \<Rightarrow> cia402_pdo_view list \<times> robot_daemon" where
  "process_device_cycle thread consume_ns now_ns pdos domain valid d =
     (let (d1, acquired) = acquire_cycle thread d
      in if \<not> acquired then (pdos, d1)
         else let (pdos', d2) = process_device_cycle_owned consume_ns now_ns pdos domain valid d1 in (pdos', release_cycle d2))"

definition ethercat_cycle_handler ::
  "u64 \<Rightarrow> int \<Rightarrow> int \<Rightarrow> cia402_pdo_view list \<Rightarrow> domain_health \<Rightarrow> bool \<Rightarrow> robot_daemon \<Rightarrow> cia402_pdo_view list \<times> robot_daemon" where
  "ethercat_cycle_handler thread consume_ns now_ns pdos domain valid d =
     (if owns_cycle thread d then process_device_cycle_owned consume_ns now_ns pdos domain valid d else (pdos, d))"

section \<open>The cycle of all transports\<close>

text \<open>The environment of one cycle: the clock readings in their order, the serial ports, and the EtherCAT backend.\<close>

record cycle_env =
  ce_refresh_ns :: int
  ce_serial :: "(int \<times> kernel) list"
  ce_dds_ns :: int
  ce_consume_ns :: int
  ce_now_ns :: int
  ce_finish_ns :: int
  ce_domain :: domain_health
  ce_image :: bytes
  ce_cancel :: "slave_address \<Rightarrow> sdo_progress option"
  ce_transfer :: "slave_address \<Rightarrow> sdo_request \<Rightarrow> (sdo_progress \<times> bytes) option"

definition st3215_event :: "u64 \<Rightarrow> servo_feedback \<Rightarrow> st3215_sensor_event" where
  "st3215_event cycle_number v = \<lparr>es_sequence = vf_feedback_sequence v, es_source_timestamp_ns = vf_timestamp_ns v,
     es_bus_cycle = cycle_number, es_flags = vf_flags v, ze_position_radians = vf_position_rad v,
     ze_position_units = ucast (vf_raw_position v), ze_error_flags = ucast (vf_status_error v)\<rparr>"

definition enqueue_servos :: "int \<Rightarrow> u64 \<Rightarrow> robot_daemon \<Rightarrow> robot_daemon" where
  "enqueue_servos now_ns cycle_number d =
     d\<lparr>dm_dds := map_option
       (fold (\<lambda>k e.
          case dm_st3215_dds_sensor_indices d ! k of
            None \<Rightarrow> e
          | Some index \<Rightarrow>
              let v = registry_feedback (dm_registry d) k now_ns
              in if vf_flags v AND kSt3215FeedbackValid = 0 \<or> vf_flags v AND kSt3215FeedbackStale \<noteq> 0 then e
                 else fst (enqueue_st3215_sensor_realtime e index (st3215_event cycle_number v)))
         [0..<length (rg_servos (dm_registry d))]) (dm_dds d)\<rparr>"

definition standalone_health :: "nat \<Rightarrow> domain_health" where
  "standalone_health n = \<lparr>dh_working_counter = 1, dh_expected_working_counter = Some 1, dh_working_counter_complete = True,
     dh_link_up = True, dh_all_slaves_operational = True, dh_dc_deviation_ns = 0,
     dh_operational_axes_mask = (if n = 0 then 0 else push_bit n 1 - 1)\<rparr>"

text \<open>\<open>hs\<close> are the handlers that others may have installed at an attached master.\<close>

definition daemon_handlers :: "robot_daemon handlers \<Rightarrow> u64 \<Rightarrow> cycle_env \<Rightarrow> robot_daemon handlers" where
  "daemon_handlers hs thread env = hs\<lparr>hd_supervised := ethercat_cycle_handler thread (ce_consume_ns env) (ce_now_ns env)\<rparr>"

definition cycle_devices :: "robot_daemon handlers \<Rightarrow> u64 \<Rightarrow> cycle_env \<Rightarrow> robot_daemon \<Rightarrow> robot_daemon \<times> bytes option" where
  "cycle_devices hs thread env d =
     (case dm_master d of
        Some m \<Rightarrow>
          let (m', sent, d') =
            master_cycle (daemon_handlers hs thread env) (ce_cancel env) (ce_transfer env) (ce_domain env) (ce_image env) m d
          in (d'\<lparr>dm_master := Some m'\<rparr>, sent)
      | None \<Rightarrow>
          let n = dm_axis_count d;
              (pdos, d') = process_device_cycle_owned (ce_consume_ns env) (ce_now_ns env) (take n (dm_standalone_pdos d))
                             (standalone_health n) True d
          in (d'\<lparr>dm_standalone_pdos := pdos @ drop n (dm_standalone_pdos d)\<rparr>, None))"

text \<open>The result carries the process image sent, if any, and the bytes written to each serial port; it is \<open>None\<close> when the
  listed outcomes of the serial ports do not suffice.\<close>

definition cycle_owned ::
  "robot_daemon handlers \<Rightarrow> u64 \<Rightarrow> cycle_env \<Rightarrow> cycle_context \<Rightarrow> robot_daemon \<Rightarrow> (robot_daemon \<times> bytes option \<times> bytes list) option" where
  "cycle_owned hs thread env context d =
     (let d1 = fst (refresh_commands_owned (ce_refresh_ns env) d)
      in case registry_cycle (dm_registry d1) (ce_serial env) of
           None \<Rightarrow> None
         | Some (g, written) \<Rightarrow>
             let d2 = enqueue_servos (ce_dds_ns env) (cx_sequence context) (d1\<lparr>dm_registry := g\<rparr>);
                 (d3, sent) = cycle_devices hs thread env d2
             in Some (d3\<lparr>dm_loop := observe_finish (dm_loop d3) (ce_finish_ns env)\<rparr>, sent, written))"

definition immediate_context :: "robot_daemon \<Rightarrow> int \<Rightarrow> cycle_context" where
  "immediate_context d now_ns =
     \<lparr>cx_sequence = dm_cycle_sequence d + 1, cx_scheduled_start = now_ns, cx_period = lc_period (rl_config (dm_loop d))\<rparr>"

definition daemon_cycle ::
  "robot_daemon handlers \<Rightarrow> u64 \<Rightarrow> int \<Rightarrow> cycle_env \<Rightarrow> robot_daemon \<Rightarrow> (robot_daemon \<times> bytes option \<times> bytes list) option" where
  "daemon_cycle hs thread now_ns env d =
     (let (d1, acquired) = acquire_cycle thread d
      in if \<not> acquired then Some (d1, None, [])
         else map_option (\<lambda>(d2, out). (release_cycle d2, out)) (cycle_owned hs thread env (immediate_context d1 now_ns) d1))"

section \<open>The loop\<close>

text \<open>The environment of one iteration: whether the termination signal has arrived, the clock and the sleep of
  \<open>wait_next\<close>, the clock of an unscheduled cycle, and the cycle itself.\<close>

record run_env =
  re_signal :: bool
  re_wait_ns :: int
  re_sleeps :: "int list"
  re_started_ns :: int
  re_unscheduled_ns :: int
  re_cycle :: cycle_env

definition observe_signal :: "bool \<Rightarrow> robot_daemon \<Rightarrow> robot_daemon" where
  "observe_signal signal d = (if signal then d\<lparr>dm_stop_requested := True, dm_accepting_commands := False\<rparr> else d)"

definition timing_failure :: "int \<Rightarrow> robot_daemon \<Rightarrow> robot_daemon" where
  "timing_failure sleep_error d =
     fst (request_stop (d\<lparr>dm_timing_fault := True, dm_sleep_error := sleep_error, dm_realtime_guarantee := False\<rparr>))"

text \<open>One iteration: the daemon, and whether sleeping has failed.\<close>

definition run_iteration :: "robot_daemon handlers \<Rightarrow> u64 \<Rightarrow> run_env \<Rightarrow> bool \<Rightarrow> robot_daemon \<Rightarrow> (robot_daemon \<times> bool) option" where
  "run_iteration hs thread env sleep_failed d0 =
     (let d = observe_signal (re_signal env) d0;
          unscheduled = (\<lambda>d. map_option (\<lambda>(d', _). (d', True))
            (cycle_owned hs thread (re_cycle env) (immediate_context d (re_unscheduled_ns env)) d))
      in if sleep_failed then unscheduled d
         else case wait_next (dm_loop d) (re_wait_ns env) (re_sleeps env) (re_started_ns env) of
                None \<Rightarrow> None
              | Some (l, release) \<Rightarrow>
                  let d1 = d\<lparr>dm_loop := l\<rparr>
                  in if wr_sleep_error release = 0
                     then map_option (\<lambda>(d', _). (d', False)) (cycle_owned hs thread (re_cycle env) (wr_context release) d1)
                     else unscheduled (timing_failure (wr_sleep_error release) d1))"

text \<open>The loop over the iterations the environment provides; \<open>None\<close> when it needs more of them.\<close>

fun run_loop :: "robot_daemon handlers \<Rightarrow> u64 \<Rightarrow> run_env list \<Rightarrow> bool \<Rightarrow> robot_daemon \<Rightarrow> robot_daemon option" where
  "run_loop hs thread envs sleep_failed d =
     (if \<not> (dm_running d \<and> \<not> dm_shutdown_complete d) then Some d
      else case envs of
             [] \<Rightarrow> None
           | env # rest \<Rightarrow>
               (case run_iteration hs thread env sleep_failed d of
                  None \<Rightarrow> None
                | Some (d', failed') \<Rightarrow> run_loop hs thread rest failed' d'))"

declare run_loop.simps [simp del]

definition prepare_run ::
  "robot_daemon \<Rightarrow> linux_system \<Rightarrow> os_thread \<Rightarrow> setup_calls \<Rightarrow> release_calls \<Rightarrow> robot_daemon \<times> linux_system \<times> os_thread \<times> bool" where
  "prepare_run d s th calls undo =
     (case loop_prepare (dm_loop d) s th calls undo of
        ((l, s1, th1), Inl e) \<Rightarrow>
          (fst (request_stop (d\<lparr>dm_loop := l, dm_realtime_guarantee := False, dm_timing_fault := True\<rparr>)), s1, th1, True)
      | ((l, s1, th1), Inr status) \<Rightarrow>
          (d\<lparr>dm_loop := l, dm_realtime_guarantee := rs_realtime_guarantee status\<rparr>, s1, th1, False))"

definition daemon_run ::
  "robot_daemon handlers \<Rightarrow> (sdo_request \<Rightarrow> sdo_request) \<Rightarrow> u64 \<Rightarrow> setup_calls \<Rightarrow> release_calls \<Rightarrow> run_env list \<Rightarrow> release_calls
     \<Rightarrow> robot_daemon \<Rightarrow> linux_system \<Rightarrow> os_thread \<Rightarrow> process \<Rightarrow> (robot_daemon \<times> linux_system \<times> os_thread \<times> process) option" where
  "daemon_run hs settle thread calls undo envs release d s th p =
     (if \<not> dm_running d then Some (d, s, th, p)
      else
        let (d1, acquired) = acquire_cycle thread d
        in if \<not> acquired then Some (d1, s, th, p)
           else
             let (d2, s2, th2, sleep_failed) = prepare_run d1 s th calls undo
             in case run_loop hs thread envs sleep_failed d2 of
                  None \<Rightarrow> None
                | Some d3 \<Rightarrow>
                    let (l, s4, th4) = loop_release release (dm_loop d3) s2 th2;
                        (d5, p5) = stop_transports settle (d3\<lparr>dm_loop := l\<rparr>) p
                    in Some (release_cycle d5, s4, th4, p5))"

section \<open>Callbacks of the transports\<close>

text \<open>The state of the DDS callbacks is the daemon with the clock readings that are still to come; a clock without a
  reading gives zero, as \<open>SystemMonotonicClock\<close> does when the call fails.\<close>

definition read_clock :: "int list \<Rightarrow> int \<times> int list" where
  "read_clock readings = (case readings of [] \<Rightarrow> (0, []) | t # ts \<Rightarrow> (t, ts))"

definition epoch_command :: "cia402_command_value \<Rightarrow> axis_command" where
  "epoch_command v = \<lparr>cmd_sequence = cvx_sequence v, cmd_timestamp_ns = cvx_source_timestamp_ns v, cmd_target = cvx_target v,
     cmd_flags = cvx_flags v, cmd_reserved = 0\<rparr>"

definition epoch_snapshot :: "u64 \<Rightarrow> cia402_command_value list \<Rightarrow> axis_command snapshot" where
  "epoch_snapshot epoch values =
     snapshot.make epoch (fold (\<lambda>v t. max t (cvx_source_timestamp_ns v)) values 0) (length values)
       (map epoch_command values @ replicate (kRobotIoMaximumAxes - length values) zero_command)"

definition stage_ethercat_epoch ::
  "string \<Rightarrow> u64 \<Rightarrow> cia402_command_value list \<Rightarrow> robot_daemon \<times> int list \<Rightarrow> robot_daemon \<times> int list" where
  "stage_ethercat_epoch execution_group epoch values st =
     (let (d, readings) = st
      in if length values \<noteq> dm_axis_count d \<or> \<not> dm_accepting_commands d then st
         else let (now_ns, rest) = read_clock readings in (fst (daemon_stage_commands now_ns (epoch_snapshot epoch values) d), rest))"

definition stage_servo_command :: "nat \<Rightarrow> servo_command \<Rightarrow> int \<Rightarrow> robot_daemon \<Rightarrow> robot_daemon \<times> acceptance" where
  "stage_servo_command servo_index command now_ns d =
     (if \<not> dm_accepting_commands d then (d, acceptance.rejected)
      else let (g, a) = registry_stage_command (dm_registry d) servo_index command now_ns in (d\<lparr>dm_registry := g\<rparr>, a))"

definition stage_st3215_value :: "nat \<Rightarrow> st3215_command_value \<Rightarrow> robot_daemon \<times> int list \<Rightarrow> robot_daemon \<times> int list" where
  "stage_st3215_value index v st =
     (let (d, readings) = st;
          command = zero_servo_command\<lparr>vc_sequence := cvz_sequence v, vc_timestamp_ns := cvz_source_timestamp_ns v,
            vc_target_position_rad := cvz_target_radians v, vc_enabled := cvz_enabled v, vc_emergency_stop := cvz_fault_reset v\<rparr>;
          (now_ns, rest) = read_clock readings
      in (fst (stage_servo_command index command now_ns d), rest))"

definition stage_damiao_value :: "int \<Rightarrow> nat \<Rightarrow> damiao_command_value \<Rightarrow> robot_daemon \<times> int list \<Rightarrow> robot_daemon \<times> int list" where
  "stage_damiao_value unspecified index v st =
     (let (d, readings) = st;
          (actuators, runtimes) =
            stage_damiao_command unspecified (dm_damiao_actuators d) (dm_actuator_bindings d) (dm_runtimes d) index v
      in (d\<lparr>dm_damiao_actuators := actuators, dm_runtimes := runtimes\<rparr>, readings))"

definition daemon_callbacks :: "int \<Rightarrow> (robot_daemon \<times> int list) dds_callbacks" where
  "daemon_callbacks unspecified = \<lparr>cb_stage_ethercat_epoch = Some stage_ethercat_epoch,
     cb_stage_damiao_command = Some (stage_damiao_value unspecified), cb_stage_st3215_command = Some stage_st3215_value\<rparr>"

text \<open>One iteration of the endpoint's worker, acting on the daemon that owns the endpoint.\<close>

definition daemon_dds_iteration ::
  "int \<Rightarrow> dds_inputs \<Rightarrow> int list \<Rightarrow> robot_daemon \<Rightarrow> robot_daemon \<times> dds_outputs option" where
  "daemon_dds_iteration unspecified inputs readings d =
     (case dm_dds d of
        None \<Rightarrow> (d, None)
      | Some e \<Rightarrow>
          let (e', (d', _), outs, _) = worker_iteration (daemon_callbacks unspecified) inputs e (d, readings)
          in (d'\<lparr>dm_dds := Some e'\<rparr>, Some outs))"

text \<open>What a CAN runtime does with a received frame: the first motor of its bus that accepts it reports a sensor event.\<close>

definition damiao_event :: "u64 \<Rightarrow> int \<Rightarrow> damiao_feedback \<Rightarrow> damiao_sensor_event" where
  "damiao_event sequence now_ns v = \<lparr>es_sequence = sequence, es_source_timestamp_ns = now_ns, es_bus_cycle = sequence,
     es_flags = 0, ye_position = df_position v, ye_velocity = df_velocity v, ye_torque = df_torque v,
     ye_motor_id = df_motor_id v, ye_error_code = df_error_code v, ye_mos_temperature_c = df_mos_temperature_c v,
     ye_rotor_temperature_c = df_rotor_temperature_c v\<rparr>"

definition receive_damiao_frame :: "nat \<Rightarrow> device_frame \<Rightarrow> u64 \<Rightarrow> int \<Rightarrow> robot_daemon \<Rightarrow> robot_daemon" where
  "receive_damiao_frame bus frame sequence now_ns d =
     (case dm_dds d of
        None \<Rightarrow> d
      | Some e \<Rightarrow>
          (case find (\<lambda>i. damiao_sensor_accepts (dm_damiao_sensors d ! i) frame) (dm_bus_members d ! bus) of
             None \<Rightarrow> d
           | Some i \<Rightarrow>
               (case damiao_sensor_decode (dm_damiao_sensors d ! i) frame of
                  Inl _ \<Rightarrow> d
                | Inr v \<Rightarrow> d\<lparr>dm_dds := Some (fst (enqueue_damiao_sensor_realtime e i (damiao_event sequence now_ns v)))\<rparr>)))"

section \<open>Reports\<close>

text \<open>The fields the code copies from the metrics of the loop are kept together in \<open>dg_metrics\<close>.\<close>

definition axis_snapshot_of :: "robot_daemon \<Rightarrow> daemon_axis_snapshot" where
  "axis_snapshot_of d = (case dm_axis_publication d of Some s \<Rightarrow> s | None \<Rightarrow> initial_axis_snapshot (dm_axis_count d))"

definition daemon_axis_request :: "robot_daemon \<Rightarrow> nat \<Rightarrow> axis_request" where
  "daemon_axis_request d i = (let s = axis_snapshot_of d in if i < pa_axis_count s then pa_requests s ! i else disable)"

definition daemon_feedback :: "robot_daemon \<Rightarrow> nat \<Rightarrow> axis_feedback" where
  "daemon_feedback d i = (let s = axis_snapshot_of d in if i < pa_axis_count s then pa_feedback s ! i else zero_feedback)"

definition daemon_servo_feedback :: "robot_daemon \<Rightarrow> nat \<Rightarrow> int \<Rightarrow> servo_feedback" where
  "daemon_servo_feedback d i now_ns = registry_feedback (dm_registry d) i now_ns"

definition serial_safety_snapshot :: "robot_daemon \<Rightarrow> int \<Rightarrow> registry_safety" where
  "serial_safety_snapshot d now_ns = safety_snapshot (dm_registry d) now_ns"

record daemon_health =
  dg_configured :: bool
  dg_running :: bool
  dg_accepting_commands :: bool
  dg_realtime_guarantee :: bool
  dg_shutdown_requested :: bool
  dg_shutdown_complete :: bool
  dg_process_data_valid :: bool
  dg_axis_count :: nat
  dg_working_counter :: u32
  dg_expected_working_counter :: u32
  dg_consecutive_wkc_failures :: u32
  dg_safety_flags :: u32
  dg_cycle_sequence :: u64
  dg_last_command_sequence :: u64
  dg_last_command_timestamp_ns :: int
  dg_feedback_timestamp_ns :: int
  dg_dc_deviation_ns :: int
  dg_metrics :: loop_metrics
  dg_timing_fault :: bool
  dg_sleep_error :: int
  dg_serial_servo_count :: u32
  dg_serial_fault_count :: u32
  dg_serial_safety_flags :: u32

definition daemon_health_of :: "robot_daemon \<Rightarrow> daemon_health" where
  "daemon_health_of d = \<lparr>dg_configured = dm_configured d, dg_running = dm_running d,
     dg_accepting_commands = dm_accepting_commands d, dg_realtime_guarantee = dm_realtime_guarantee d,
     dg_shutdown_requested = dm_stop_requested d, dg_shutdown_complete = dm_shutdown_complete d,
     dg_process_data_valid = dm_process_data_valid d, dg_axis_count = dm_axis_count d,
     dg_working_counter = dm_working_counter d, dg_expected_working_counter = dm_expected_working_counter d,
     dg_consecutive_wkc_failures = dm_consecutive_wkc_failures d, dg_safety_flags = dm_safety_flags d,
     dg_cycle_sequence = dm_cycle_sequence d, dg_last_command_sequence = dm_last_command_sequence d,
     dg_last_command_timestamp_ns = dm_last_command_timestamp_ns d, dg_feedback_timestamp_ns = dm_feedback_timestamp_ns d,
     dg_dc_deviation_ns = dm_dc_deviation_ns d, dg_metrics = loop_metrics_of (dm_loop d), dg_timing_fault = dm_timing_fault d,
     dg_sleep_error = dm_sleep_error d, dg_serial_servo_count = dm_serial_servo_count d,
     dg_serial_fault_count = dm_serial_fault_count d, dg_serial_safety_flags = dm_serial_safety_flags d\<rparr>"

section \<open>The signal latch\<close>

text \<open>The two flags are global; \<open>installed\<close> belongs to one latch.  \<open>sigaction_error\<close> is the text of a failed call.\<close>

record signal_flags =
  sf_stop_requested :: bool
  sf_latch_installed :: bool

definition latch_install :: "string option \<Rightarrow> bool \<Rightarrow> signal_flags \<Rightarrow> bool \<times> signal_flags \<times> unit result" where
  "latch_install sigaction_error installed f =
     (if installed \<or> sf_latch_installed f
      then (installed, f, failure invalid_argument ''SIGTERM latch is already installed'')
      else let f1 = f\<lparr>sf_stop_requested := False\<rparr>
           in case sigaction_error of
                Some text \<Rightarrow> (installed, f1, failure io (''sigaction(SIGTERM): '' @ text))
              | None \<Rightarrow> (True, f1\<lparr>sf_latch_installed := True\<rparr>, success ()))"

definition latch_destroy :: "bool \<Rightarrow> signal_flags \<Rightarrow> signal_flags" where
  "latch_destroy installed f = (if installed then \<lparr>sf_stop_requested = False, sf_latch_installed = False\<rparr> else f)"

definition daemon_signal_handler :: "signal_flags \<Rightarrow> signal_flags" where
  "daemon_signal_handler f = f\<lparr>sf_stop_requested := True\<rparr>"

end
