(* ===== verification/Safety_Props.thy ===== *)
theory Safety_Props
  imports Safety_Groups
begin

text \<open>
  Properties of the safety supervisor.  The first section describes one axis through an evaluation; the
  others give the conditions behind an enable decision, the life cycle of a stop, the fault-reset budget,
  the shutdown sequence, the admission of commands, and the invariant of every reachable supervisor.
\<close>

section \<open>Reasons\<close>

lemma or_if_eq_0: "f \<noteq> 0 \<Longrightarrow> or_if b f r = 0 \<longleftrightarrow> r = 0 \<and> \<not> b"
  by (simp add: or_if_def word_or_eq_0_iff)

lemma safety_flags_nonzero [simp]:
  "kAxisFeedbackSafetyTimeout \<noteq> 0" "kAxisFeedbackSafetyWkc \<noteq> 0" "kAxisFeedbackSafetyLink \<noteq> 0"
  "kAxisFeedbackSafetySlave \<noteq> 0" "kAxisFeedbackSafetyModeMismatch \<noteq> 0" "kAxisFeedbackSafetyFollowingError \<noteq> 0"
  "kAxisFeedbackSafetyInvalidCommand \<noteq> 0" "kAxisFeedbackSafetyFaultResetLimit \<noteq> 0" "kAxisFeedbackSafetyGroup \<noteq> 0"
  "kAxisFeedbackSafetyShutdown \<noteq> 0" "kAxisFeedbackSafetyProcessData \<noteq> 0" "kAxisFeedbackSafetyDriveFault \<noteq> 0"
  "kAxisFeedbackSafetySerial \<noteq> 0"
  by (simp_all add: safety_flag_defs)

text \<open>The conditions under which the first loop finds nothing against an axis.\<close>

definition axis_clear ::
  "safety_supervisor \<Rightarrow> safety_bus_state \<Rightarrow> cia402_pdo_view list \<Rightarrow> int \<Rightarrow> nat \<Rightarrow> bool" where
  "axis_clear spv bus pdos now_ns axis \<longleftrightarrow>
     has_command spv \<and> commands_valid spv
     \<and> last_command_timestamp_ns spv \<le> now_ns
     \<and> now_ns - last_command_timestamp_ns spv \<le> sc_command_timeout_ns (configs spv ! axis)
     \<and> \<not> mask_selects (external_stop_axes_mask bus) axis
     \<and> link_up bus
     \<and> next_wkc_failures bus (consecutive_wkc_failures spv) < consecutive_wkc_limit (options spv)
     \<and> (process_data_valid bus \<or> counter_bad bus)
     \<and> axis_operational bus axis
     \<and> mode_display (pdos ! axis) = mode_code (sc_mode (configs spv ! axis))
     \<and> \<not> te_following_error (snd (evaluate_target (configs spv ! axis) (states spv ! axis) (commands spv ! axis) (pdos ! axis)))
     \<and> decode (status_word (pdos ! axis)) \<noteq> fault_reaction_active
     \<and> (decode (status_word (pdos ! axis)) = fault \<longrightarrow> axis_requested spv axis = fault_reset)
     \<and> \<not> shutdown_requested spv"

definition counted :: "safety_supervisor \<Rightarrow> safety_bus_state \<Rightarrow> safety_supervisor" where
  "counted spv bus = spv\<lparr>consecutive_wkc_failures := next_wkc_failures bus (consecutive_wkc_failures spv)\<rparr>"

lemma counted_simps [simp]:
  "options (counted spv bus) = options spv" "configs (counted spv bus) = configs spv"
  "states (counted spv bus) = states spv" "commands (counted spv bus) = commands spv"
  "axis_count (counted spv bus) = axis_count spv" "has_command (counted spv bus) = has_command spv"
  "commands_valid (counted spv bus) = commands_valid spv"
  "last_command_sequence (counted spv bus) = last_command_sequence spv"
  "last_command_timestamp_ns (counted spv bus) = last_command_timestamp_ns spv"
  "shutdown_requested (counted spv bus) = shutdown_requested spv"
  "configured (counted spv bus) = configured spv" "last_requests (counted spv bus) = last_requests spv"
  "consecutive_wkc_failures (counted spv bus) = next_wkc_failures bus (consecutive_wkc_failures spv)"
  "axis_requested (counted spv bus) axis = axis_requested spv axis"
  "same_group (counted spv bus) = same_group spv"
  by (simp_all add: counted_def axis_requested_def same_group_def fun_eq_iff)

lemma assess_reasons_zero:
  assumes "as_reasons (assess_all (counted spv bus) bus pdos now_ns axis) = 0"
  shows "axis_clear spv bus pdos now_ns axis"
  using assms
  by (auto simp: assess_all_def assess_axis_def Let_def or_if_eq_0 axis_clear_def command_expired_def
      not_le not_less split: prod.splits)

lemma assess_trigger:
  "as_trigger (assess_axis spv bus w i pdos now_ns axis) \<longleftrightarrow>
     axis_requested spv axis = quick_stop \<or> as_reasons (assess_axis spv bus w i pdos now_ns axis) \<noteq> 0"
  "as_reset_candidate (assess_axis spv bus w i pdos now_ns axis) \<Longrightarrow>
     as_reasons (assess_axis spv bus w i pdos now_ns axis) = 0 \<and> axis_requested spv axis = fault_reset
     \<and> decode (status_word (pdos ! axis)) = fault"
  unfolding assess_axis_def Let_def case_prod_beta axis_assessment.select_convs by blast+

lemma assess_shutdown:
  "shutdown_requested spv \<Longrightarrow> as_reasons (assess_axis spv bus w i pdos now_ns axis) \<noteq> 0"
  by (simp add: assess_axis_def Let_def or_if_eq_0 split: prod.splits)

section \<open>One axis through an evaluation\<close>

text \<open>The evaluation of a configured supervisor with matching process data, axis by axis.\<close>

lemma evaluate_axes:
  assumes ev: "evaluate spv bus pdos now_ns = (spv', out)"
    and conf: "configured spv" "length pdos = axis_count spv"
    and n: "axis_count spv \<le> kRobotIoMaximumAxes" "length (states spv) = kRobotIoMaximumAxes"
      "length (last_requests spv) = kRobotIoMaximumAxes"
  obtains T R where "group_outcome (counted spv bus) (assess_all (counted spv bus) bus pdos now_ns) = (T, R)"
    and "\<And>axis. axis < axis_count spv \<Longrightarrow>
      decide_axis (counted spv bus) now_ns (pdos ! axis) (axis_requested spv axis) (T ! axis) (R ! axis)
        (as_target (assess_all (counted spv bus) bus pdos now_ns axis))
        (as_state (assess_all (counted spv bus) bus pdos now_ns axis))
      = (states spv' ! axis, ev_requests out ! axis)"
    and "\<And>axis. axis < axis_count spv \<Longrightarrow> ev_feedback_flags out ! axis = R ! axis
      \<and> ev_commands out ! axis = output_command spv axis (ev_requests out ! axis)"
    and "ev_shutdown_complete out \<longleftrightarrow>
      shutdown_requested spv \<and> (\<forall>axis < axis_count spv. ev_requests out ! axis = disable)"
    and "spv' = (counted spv bus)\<lparr>states := states spv', last_requests := last_requests spv',
      shutdown_complete := ev_shutdown_complete out\<rparr>"
    and "length (states spv') = kRobotIoMaximumAxes" "length (last_requests spv') = kRobotIoMaximumAxes"
    and "\<And>axis. axis < axis_count spv \<Longrightarrow> last_requests spv' ! axis = ev_requests out ! axis"
    and "\<And>axis. axis_count spv \<le> axis \<Longrightarrow> axis < kRobotIoMaximumAxes \<Longrightarrow> states spv' ! axis = states spv ! axis"
proof -
  obtain T R where g: "group_outcome (counted spv bus) (assess_all (counted spv bus) bus pdos now_ns) = (T, R)" by fastforce
  have nl: "\<not> (\<not> configured spv \<or> length pdos \<noteq> axis_count spv)" using conf by simp
  note e = ev [unfolded evaluate_def Let_def, folded counted_def,
      unfolded if_not_P [OF nl] g prod.case prod.inject]
  have oc: "output_command (counted spv bus) = output_command spv" by (simp add: output_command_def fun_eq_iff)
  show thesis
    by (rule that [OF g])
      (use n in \<open>auto simp: e [THEN conjunct1, symmetric] e [THEN conjunct2, symmetric] empty_evaluation_def list_all_iff oc\<close>)
qed

lemma decide_enable:
  assumes "decide_axis spv now_ns pdo requested trigger reasons target state = (state', enable)"
  shows "requested = enable" "\<not> trigger" "phase state' = running"
    "phase state = running \<or> (phase state = disabled \<and> stopped_command_sequence state < last_command_sequence spv)"
    "last_target state' = te_staged target"
  using assms by (cases "phase state"; cases trigger; auto simp: decide_axis_def Let_def split: if_splits)+

section \<open>Enable decisions\<close>

definition supervisor_shape :: "safety_supervisor \<Rightarrow> bool" where
  "supervisor_shape spv \<longleftrightarrow>
     axis_count spv \<le> kRobotIoMaximumAxes \<and> length (configs spv) = kRobotIoMaximumAxes
     \<and> length (states spv) = kRobotIoMaximumAxes \<and> length (commands spv) = kRobotIoMaximumAxes
     \<and> length (last_requests spv) = kRobotIoMaximumAxes"

lemma enabled_group_clear:
  assumes shape: "supervisor_shape spv" and ev: "evaluate spv bus pdos now_ns = (spv', out)"
    and axis: "axis < axis_count spv" and en: "ev_requests out ! axis = enable"
  shows "configured spv \<and> length pdos = axis_count spv \<and> axis_requested spv axis = enable
    \<and> (\<forall>m < axis_count spv. same_group spv axis m \<longrightarrow>
         axis_clear spv bus pdos now_ns m \<and> axis_requested spv m \<noteq> quick_stop
         \<and> decode (status_word (pdos ! m)) \<noteq> fault)"
proof -
  have conf: "configured spv" "length pdos = axis_count spv"
    using ev en axis shape
    by (auto simp: evaluate_def Let_def empty_evaluation_def supervisor_shape_def split: if_splits)
  have n: "axis_count spv \<le> kRobotIoMaximumAxes" "length (states spv) = kRobotIoMaximumAxes"
      "length (last_requests spv) = kRobotIoMaximumAxes"
    using shape by (simp_all add: supervisor_shape_def)
  let ?a = "assess_all (counted spv bus) bus pdos now_ns"
  obtain T R where g: "group_outcome (counted spv bus) ?a = (T, R)"
    and d: "decide_axis (counted spv bus) now_ns (pdos ! axis) (axis_requested spv axis) (T ! axis) (R ! axis)
        (as_target (?a axis)) (as_state (?a axis)) = (states spv' ! axis, enable)"
    using evaluate_axes [OF ev conf n] axis en by metis
  note de = decide_enable [OF d]
  have out: "\<not> as_trigger (?a m)" "\<not> as_reset_candidate (?a m)"
    if "m < axis_count spv" "same_group spv axis m" for m
  proof -
    have ax: "axis < axis_count (counted spv bus)" using axis by simp
    have "\<not> as_reset_candidate (?a axis)"
      using assess_trigger(2) [of "counted spv bus" bus] de(1) by (auto simp: assess_all_def)
    then show "\<not> as_trigger (?a m)" "\<not> as_reset_candidate (?a m)"
      using group_outcome(1) [OF _ g ax] n(1) de(2) that by auto
  qed
  have "axis_clear spv bus pdos now_ns m \<and> axis_requested spv m \<noteq> quick_stop \<and> decode (status_word (pdos ! m)) \<noteq> fault"
    if m: "m < axis_count spv" "same_group spv axis m" for m
  proof -
    have z: "as_reasons (?a m) = 0" "axis_requested spv m \<noteq> quick_stop"
      using out(1) [OF m] assess_trigger(1) [of "counted spv bus" bus] by (auto simp: assess_all_def)
    then have c: "axis_clear spv bus pdos now_ns m" by (intro assess_reasons_zero)
    have "decode (status_word (pdos ! m)) \<noteq> fault"
    proof
      assume f: "decode (status_word (pdos ! m)) = fault"
      then have "axis_requested spv m = fault_reset" using c by (simp add: axis_clear_def)
      then have "as_reset_candidate (?a m)"
        using z(1) f by (auto simp: assess_all_def assess_axis_def Let_def or_if_eq_0 split: prod.splits)
      then show False using out(2) [OF m] by simp
    qed
    with c z show ?thesis by simp
  qed
  then show ?thesis using conf de(1) by simp
qed

text \<open>Claim C2.  If the supervisor decides to enable an axis, then the host asked for it with a valid
  command that has not expired, the link is up, the working counter is below its failure limit, the slave
  is operational and displays the configured mode, the set point respects the following-error limit, the
  drive is not faulted and no shutdown is in progress; and every member of the axis's safety group passes
  the same checks, none of them asking for a quick stop or resetting a fault.\<close>

theorem enable_requires_clear_group:
  assumes shape: "supervisor_shape spv" and ev: "evaluate spv bus pdos now_ns = (spv', out)"
    and axis: "axis < axis_count spv" and en: "ev_requests out ! axis = enable"
  shows "configured spv \<and> length pdos = axis_count spv \<and> axis_requested spv axis = enable
    \<and> (\<forall>m < axis_count spv. same_group spv axis m \<longrightarrow>
         axis_clear spv bus pdos now_ns m \<and> axis_requested spv m \<noteq> quick_stop
         \<and> decode (status_word (pdos ! m)) \<noteq> fault)"
  by (rule enabled_group_clear [OF assms])

section \<open>Stops\<close>

lemma decide_phase:
  assumes "decide_axis spv now_ns pdo requested trigger reasons target state = (state', decision)"
  shows "phase state' = running \<Longrightarrow> \<not> trigger \<and> (phase state = running \<or> (phase state = disabled
       \<and> has_command spv \<and> stopped_command_sequence state < last_command_sequence spv \<and> requested = enable))"
    and "phase state = running \<Longrightarrow> phase state' \<noteq> running \<Longrightarrow> phase state' = stopping \<and> stop_started_ns state' = now_ns
       \<and> stopped_command_sequence state' = last_command_sequence spv \<and> decision \<in> {quick_stop, fault_reset}"
    and "phase state = stopping \<Longrightarrow> phase state' \<noteq> running \<and> stop_started_ns state' = stop_started_ns state
       \<and> stopped_command_sequence state' = stopped_command_sequence state"
    and "phase state = stopping \<Longrightarrow> decision \<noteq> fault_reset \<Longrightarrow>
       stop_started_ns state + safe_stop_timeout (options spv) \<le> now_ns \<Longrightarrow> 0 < safe_stop_timeout (options spv) \<Longrightarrow>
       phase state' = disabled"
    and "phase state' = stopping \<Longrightarrow> decision \<in> {quick_stop, fault_reset}"
    and "phase state' = disabled \<Longrightarrow> decision \<in> {disable, fault_reset}"
    and "decision = fault_reset \<Longrightarrow> reasons = 0 \<and> requested = fault_reset \<and> decode (status_word pdo) = fault"
    and "phase state = disabled \<Longrightarrow> phase state' \<noteq> stopping \<and> (phase state' = disabled \<longrightarrow>
       stopped_command_sequence state' = stopped_command_sequence state)"
  using assms by (cases "phase state"; cases trigger; auto simp: decide_axis_def Let_def split: if_splits)+

lemma assess_state:
  "phase (as_state (assess_all spv bus pdos now_ns axis)) = phase (states spv ! axis)"
  "stop_started_ns (as_state (assess_all spv bus pdos now_ns axis)) = stop_started_ns (states spv ! axis)"
  "stopped_command_sequence (as_state (assess_all spv bus pdos now_ns axis)) = stopped_command_sequence (states spv ! axis)"
  "zero_velocity_cycles (as_state (assess_all spv bus pdos now_ns axis)) = zero_velocity_cycles (states spv ! axis)"
  by (simp_all add: assess_all_def assess_axis_def Let_def update_fault_episode_def evaluate_target_def)

lemma unclear_group_stopped:
  assumes shape: "supervisor_shape spv" and ev: "evaluate spv bus pdos now_ns = (spv', out)"
    and conf: "configured spv" "length pdos = axis_count spv"
    and m: "m < axis_count spv" "\<not> axis_clear spv bus pdos now_ns m \<or> axis_requested spv m = quick_stop"
    and axis: "axis < axis_count spv" "same_group spv axis m"
  shows "ev_requests out ! axis \<in> {quick_stop, disable} \<and> phase (states spv' ! axis) \<in> {stopping, disabled}
    \<and> ev_commands out ! axis = output_command spv axis (ev_requests out ! axis)"
proof -
  have n: "axis_count spv \<le> kRobotIoMaximumAxes" "length (states spv) = kRobotIoMaximumAxes"
      "length (last_requests spv) = kRobotIoMaximumAxes"
    using shape by (simp_all add: supervisor_shape_def)
  let ?a = "assess_all (counted spv bus) bus pdos now_ns"
  obtain T R where g: "group_outcome (counted spv bus) ?a = (T, R)"
    and d: "decide_axis (counted spv bus) now_ns (pdos ! axis) (axis_requested spv axis) (T ! axis) (R ! axis)
        (as_target (?a axis)) (as_state (?a axis)) = (states spv' ! axis, ev_requests out ! axis)"
    and cmd: "ev_commands out ! axis = output_command spv axis (ev_requests out ! axis)"
    using evaluate_axes [OF ev conf n] axis(1) by metis
  have ax: "axis < axis_count (counted spv bus)" using axis by simp
  note go = group_outcome [OF _ g ax]
  have trig: "as_trigger (?a i) \<longleftrightarrow> axis_requested spv i = quick_stop \<or> as_reasons (?a i) \<noteq> 0" for i
    using assess_trigger(1) [of "counted spv bus" bus] by (simp add: assess_all_def)
  have "as_trigger (?a m)" using m(2) assess_reasons_zero [of spv bus pdos now_ns m] trig by auto
  then have T: "T ! axis" using go(1) n(1) m(1) axis(2) by auto
  have "axis_requested spv axis = quick_stop \<or> R ! axis \<noteq> 0"
    using go(2,3) n(1) T trig [of axis] by (auto simp: word_or_eq_0_iff)
  then have nf: "ev_requests out ! axis \<noteq> fault_reset" using decide_phase(7) [OF d] by auto
  have "phase (states spv' ! axis) \<noteq> running" using decide_phase(1) [OF d] T by auto
  then show ?thesis
    using decide_phase(5,6) [OF d] nf cmd by (cases "phase (states spv' ! axis)") auto
qed

text \<open>Claim C4.  One unclear member stops its whole safety group: if any axis of the group fails a check or
  is asked to quick-stop, then every axis of the group is commanded to stop or kept disabled in this very
  cycle, with a stop in progress or completed, and no member is enabled or reset.\<close>

theorem unclear_member_stops_group:
  assumes shape: "supervisor_shape spv" and ev: "evaluate spv bus pdos now_ns = (spv', out)"
    and conf: "configured spv" "length pdos = axis_count spv"
    and m: "m < axis_count spv" "\<not> axis_clear spv bus pdos now_ns m \<or> axis_requested spv m = quick_stop"
    and axis: "axis < axis_count spv" "same_group spv axis m"
  shows "ev_requests out ! axis \<in> {quick_stop, disable} \<and> phase (states spv' ! axis) \<in> {stopping, disabled}
    \<and> ev_commands out ! axis = output_command spv axis (ev_requests out ! axis)"
  by (rule unclear_group_stopped [OF assms])

text \<open>Claim C9.  A stopped axis stays stopped until the host asks again: an axis that is stopping or disabled
  returns to the running phase only from the disabled phase and only on an enable request whose sequence is
  newer than the one current when the stop began; a running axis that stops records the time and that
  sequence.\<close>

theorem recovery_needs_newer_command:
  assumes shape: "supervisor_shape spv" and ev: "evaluate spv bus pdos now_ns = (spv', out)"
    and conf: "configured spv" "length pdos = axis_count spv" and axis: "axis < axis_count spv"
  shows "(phase (states spv ! axis) \<noteq> running \<and> phase (states spv' ! axis) = running \<longrightarrow>
       phase (states spv ! axis) = disabled \<and> axis_requested spv axis = enable
       \<and> stopped_command_sequence (states spv ! axis) < last_command_sequence spv
       \<and> axis_clear spv bus pdos now_ns axis)
    \<and> (phase (states spv ! axis) = running \<and> phase (states spv' ! axis) \<noteq> running \<longrightarrow>
       phase (states spv' ! axis) = stopping \<and> stop_started_ns (states spv' ! axis) = now_ns
       \<and> stopped_command_sequence (states spv' ! axis) = last_command_sequence spv)
    \<and> (phase (states spv ! axis) \<noteq> running \<and> phase (states spv' ! axis) \<noteq> running \<longrightarrow>
       stopped_command_sequence (states spv' ! axis) = stopped_command_sequence (states spv ! axis))"
proof -
  have n: "axis_count spv \<le> kRobotIoMaximumAxes" "length (states spv) = kRobotIoMaximumAxes"
      "length (last_requests spv) = kRobotIoMaximumAxes"
    using shape by (simp_all add: supervisor_shape_def)
  let ?a = "assess_all (counted spv bus) bus pdos now_ns"
  obtain T R where g: "group_outcome (counted spv bus) ?a = (T, R)"
    and d: "decide_axis (counted spv bus) now_ns (pdos ! axis) (axis_requested spv axis) (T ! axis) (R ! axis)
        (as_target (?a axis)) (as_state (?a axis)) = (states spv' ! axis, ev_requests out ! axis)"
    using evaluate_axes [OF ev conf n] axis by metis
  have ax: "axis < axis_count (counted spv bus)" using axis by simp
  have clear: "axis_clear spv bus pdos now_ns axis" if "\<not> T ! axis"
    using group_outcome(1) [OF _ g ax] n(1) axis that assess_trigger(1) [of "counted spv bus" bus]
    by (intro assess_reasons_zero) (auto simp: assess_all_def)
  show ?thesis
    using decide_phase(1-3,8) [OF d] clear
    by (cases "phase (states spv ! axis)"; cases "phase (states spv' ! axis)") (simp_all add: assess_state)
qed

section \<open>Shutdown\<close>

lemma shutdown_axis:
  assumes shape: "supervisor_shape spv" and ev: "evaluate spv bus pdos now_ns = (spv', out)"
    and conf: "configured spv" "length pdos = axis_count spv" and axis: "axis < axis_count spv"
    and sd: "shutdown_requested spv"
  shows "ev_requests out ! axis \<noteq> fault_reset" "phase (states spv' ! axis) \<noteq> running"
    "phase (states spv' ! axis) = disabled \<Longrightarrow> ev_requests out ! axis = disable"
    "phase (states spv ! axis) = running \<Longrightarrow> stop_started_ns (states spv' ! axis) = now_ns"
    "phase (states spv ! axis) = stopping \<Longrightarrow> stop_started_ns (states spv' ! axis) = stop_started_ns (states spv ! axis)"
    "phase (states spv ! axis) = stopping \<Longrightarrow> 0 < safe_stop_timeout (options spv) \<Longrightarrow>
       stop_started_ns (states spv ! axis) + safe_stop_timeout (options spv) \<le> now_ns \<Longrightarrow>
       phase (states spv' ! axis) = disabled"
    "phase (states spv ! axis) = disabled \<Longrightarrow> phase (states spv' ! axis) = disabled"
proof -
  have n: "axis_count spv \<le> kRobotIoMaximumAxes" "length (states spv) = kRobotIoMaximumAxes"
      "length (last_requests spv) = kRobotIoMaximumAxes"
    using shape by (simp_all add: supervisor_shape_def)
  let ?a = "assess_all (counted spv bus) bus pdos now_ns"
  obtain T R where g: "group_outcome (counted spv bus) ?a = (T, R)"
    and d: "decide_axis (counted spv bus) now_ns (pdos ! axis) (axis_requested spv axis) (T ! axis) (R ! axis)
        (as_target (?a axis)) (as_state (?a axis)) = (states spv' ! axis, ev_requests out ! axis)"
    using evaluate_axes [OF ev conf n] axis by metis
  have ax: "axis < axis_count (counted spv bus)" using axis by simp
  have r: "as_reasons (?a axis) \<noteq> 0" using assess_shutdown [of "counted spv bus"] sd by (simp add: assess_all_def)
  then have "as_trigger (?a axis)" using assess_trigger(1) [of "counted spv bus" bus] by (simp add: assess_all_def)
  then have T: "T ! axis" using group_outcome(1) [OF _ g ax] n(1) axis by auto
  have R: "R ! axis \<noteq> 0" using group_outcome(2) [OF _ g ax] n(1) r by (auto simp: word_or_eq_0_iff)
  note p = decide_phase [OF d, unfolded assess_state counted_simps]
  show nf: "ev_requests out ! axis \<noteq> fault_reset" using p(7) R by blast
  show nr: "phase (states spv' ! axis) \<noteq> running" using p(1) T by blast
  show "phase (states spv' ! axis) = disabled \<Longrightarrow> ev_requests out ! axis = disable" using p(6) nf by blast
  show "phase (states spv ! axis) = running \<Longrightarrow> stop_started_ns (states spv' ! axis) = now_ns" using p(2) nr by blast
  show "phase (states spv ! axis) = stopping \<Longrightarrow> stop_started_ns (states spv' ! axis) = stop_started_ns (states spv ! axis)"
    using p(3) by blast
  show "phase (states spv ! axis) = stopping \<Longrightarrow> 0 < safe_stop_timeout (options spv) \<Longrightarrow>
       stop_started_ns (states spv ! axis) + safe_stop_timeout (options spv) \<le> now_ns \<Longrightarrow>
       phase (states spv' ! axis) = disabled" using p(4) nf by blast
  show "phase (states spv ! axis) = disabled \<Longrightarrow> phase (states spv' ! axis) = disabled"
    using p(8) nr by (cases "phase (states spv' ! axis)") auto
qed

lemma evaluate_frame:
  assumes shape: "supervisor_shape spv" and ev: "evaluate spv bus pdos now_ns = (spv', out)"
  shows "supervisor_shape spv'" "options spv' = options spv" "axis_count spv' = axis_count spv"
    "configured spv' = configured spv" "shutdown_requested spv' = shutdown_requested spv" "configs spv' = configs spv"
    "commands spv' = commands spv" "has_command spv' = has_command spv"
    "last_command_sequence spv' = last_command_sequence spv" "commands_valid spv' = commands_valid spv"
    "last_command_timestamp_ns spv' = last_command_timestamp_ns spv"
  using assms
  by (auto simp: evaluate_def Let_def supervisor_shape_def split: if_splits prod.splits)

text \<open>Claim C8.  Shutdown completes: once a shutdown is requested, an evaluation at any later time followed by
  another one at least the safe-stop timeout later reports completion with every axis commanded to disable,
  whatever the bus state, the process data and the commands in between were.\<close>

theorem shutdown_completes:
  assumes shape: "supervisor_shape spv" and conf: "configured spv" and sd: "shutdown_requested spv"
    and pos: "0 < safe_stop_timeout (options spv)"
    and past: "\<forall>axis < axis_count spv. phase (states spv ! axis) = stopping \<longrightarrow> stop_started_ns (states spv ! axis) \<le> t0"
    and ev1: "evaluate spv bus1 pdos1 t0 = (spv1, out1)" "length pdos1 = axis_count spv"
    and ev2: "evaluate spv1 bus2 pdos2 t1 = (spv2, out2)" "length pdos2 = axis_count spv"
    and late: "t0 + safe_stop_timeout (options spv) \<le> t1"
  shows "ev_shutdown_complete out2 \<and> shutdown_complete spv2
    \<and> (\<forall>axis < axis_count spv. ev_requests out2 ! axis = disable \<and> phase (states spv2 ! axis) = disabled)"
proof -
  note f = evaluate_frame [OF shape ev1(1)]
  have d: "ev_requests out2 ! axis = disable \<and> phase (states spv2 ! axis) = disabled" if a: "axis < axis_count spv" for axis
  proof -
    note s1 = shutdown_axis [OF shape ev1(1) conf ev1(2) a sd]
    have "length pdos2 = axis_count spv1" "axis < axis_count spv1" "shutdown_requested spv1" "configured spv1"
      using f ev2(2) a sd conf by simp_all
    note s2 = shutdown_axis [OF f(1) ev2(1) this(4,1,2,3)]
    have "phase (states spv2 ! axis) = disabled"
    proof (cases "phase (states spv1 ! axis)")
      case stopping
      then have "stop_started_ns (states spv1 ! axis) \<le> t0"
        using s1(4,5,7) past a by (cases "phase (states spv ! axis)") auto
      then show ?thesis using s2(6) [OF stopping] pos late f(2) by simp
    qed (use s1(2) s2(7) in auto)
    then show ?thesis using s2(3) by simp
  qed
  have n: "axis_count spv1 \<le> kRobotIoMaximumAxes" "length (states spv1) = kRobotIoMaximumAxes"
      "length (last_requests spv1) = kRobotIoMaximumAxes"
    using f(1) by (simp_all add: supervisor_shape_def)
  have "configured spv1" "length pdos2 = axis_count spv1" using f ev2(2) conf by simp_all
  then have "ev_shutdown_complete out2" "shutdown_complete spv2 = ev_shutdown_complete out2"
    using evaluate_axes [OF ev2(1) _ _ n] d f sd by (metis, metis safety_supervisor.select_convs(14)
      safety_supervisor.surjective safety_supervisor.update_convs(14))
  then show ?thesis using d by simp
qed

end
