(* ===== verification/Safety_Runs.thy ===== *)
theory Safety_Runs
  imports Safety_Props
begin

text \<open>
  Runs of the safety supervisor.  The operations the daemon performs on a configured supervisor are a
  datatype; the theory proves the invariant of every reachable supervisor, the budget of fault-reset edges
  over any run, and the interpretation of the command-admission interface on \<open>accept_commands\<close>.
\<close>

section \<open>Operations\<close>

datatype supervisor_op =
    accept_op "axis_command snapshot" int
  | shutdown_op int
  | evaluate_op safety_bus_state "cia402_pdo_view list" int

fun apply_op :: "safety_supervisor \<Rightarrow> supervisor_op \<Rightarrow> safety_supervisor" where
  "apply_op spv (accept_op snap now_ns) = fst (accept_commands spv snap now_ns)"
| "apply_op spv (shutdown_op now_ns) = request_shutdown spv now_ns"
| "apply_op spv (evaluate_op bus pdos now_ns) = fst (evaluate spv bus pdos now_ns)"

inductive reachable :: "safety_options \<Rightarrow> safety_supervisor \<Rightarrow> bool" for opts where
  reach_init: "reachable opts (make_supervisor opts)"
| reach_configure: "reachable opts spv \<Longrightarrow> reachable opts (fst (configure spv axes))"
| reach_op: "reachable opts spv \<Longrightarrow> reachable opts (apply_op spv op)"

section \<open>Fault-reset budget\<close>

lemma decide_reset:
  assumes "decide_axis spv now_ns pdo requested trigger reasons target state = (state', decision)"
  shows "fault_reset_output_active state' \<longleftrightarrow> decision = fault_reset"
    "fault_episode_active state' = fault_episode_active state"
    "decision = fault_reset \<and> \<not> fault_reset_output_active state \<Longrightarrow>
       fault_reset_edges state < maximum_fault_resets (options spv) \<and> fault_reset_edges state' = fault_reset_edges state + 1"
    "\<not> (decision = fault_reset \<and> \<not> fault_reset_output_active state) \<Longrightarrow> fault_reset_edges state' = fault_reset_edges state"
proof -
  have "fault_reset_edges state < - 1" if "fault_reset_edges state < maximum_fault_resets (options spv)"
    using less_le_trans [OF that, of "- 1"] word_order.extremum by simp
  with assms show "fault_reset_output_active state' \<longleftrightarrow> decision = fault_reset"
    "fault_episode_active state' = fault_episode_active state"
    "decision = fault_reset \<and> \<not> fault_reset_output_active state \<Longrightarrow>
       fault_reset_edges state < maximum_fault_resets (options spv) \<and> fault_reset_edges state' = fault_reset_edges state + 1"
    "\<not> (decision = fault_reset \<and> \<not> fault_reset_output_active state) \<Longrightarrow> fault_reset_edges state' = fault_reset_edges state"
    by (cases "phase state"; cases trigger; auto simp: decide_axis_def Let_def split: if_splits)+
qed

text \<open>The observation that ends a fault episode.\<close>

definition fault_clear :: "safety_bus_state \<Rightarrow> cia402_pdo_view \<Rightarrow> nat \<Rightarrow> bool" where
  "fault_clear bus pdo axis \<longleftrightarrow>
     decode (status_word pdo) \<notin> {fault, fault_reaction_active, unknown}
     \<and> link_up bus \<and> process_data_valid bus \<and> axis_operational bus axis"

lemma assess_fault_state:
  "\<exists>s. as_state (assess_all spv bus pdos now_ns axis) = update_fault_episode s (fault_clear bus (pdos ! axis) axis)
     \<and> fault_episode_active s = fault_episode_active (states spv ! axis)
     \<and> fault_reset_edges s = fault_reset_edges (states spv ! axis)
     \<and> fault_reset_output_active s = fault_reset_output_active (states spv ! axis)"
  by (rule exI [of _ "fst (evaluate_target (configs spv ! axis) (states spv ! axis) (commands spv ! axis) (pdos ! axis))"])
    (auto simp: assess_all_def assess_axis_def Let_def fault_clear_def evaluate_target_def conj_ac)

definition episode_edges :: "axis_safety_state \<Rightarrow> nat" where
  "episode_edges s = (if fault_episode_active s then unat (fault_reset_edges s) else 0)"

text \<open>The output flag of an axis mirrors its last decision, and a reset is only output during an episode.\<close>

definition reset_inv :: "safety_supervisor \<Rightarrow> nat \<Rightarrow> bool" where
  "reset_inv spv axis \<longleftrightarrow>
     (fault_reset_output_active (states spv ! axis) \<longleftrightarrow> last_requests spv ! axis = fault_reset)
     \<and> (fault_reset_output_active (states spv ! axis) \<longrightarrow> fault_episode_active (states spv ! axis))
     \<and> episode_edges (states spv ! axis) \<le> unat (maximum_fault_resets (options spv))"

definition reset_rises :: "safety_supervisor \<Rightarrow> supervisor_op \<Rightarrow> nat \<Rightarrow> bool" where
  "reset_rises spv op axis \<longleftrightarrow>
     axis_request_of (apply_op spv op) axis = fault_reset \<and> axis_request_of spv axis \<noteq> fault_reset"

fun count_rises :: "safety_supervisor \<Rightarrow> supervisor_op list \<Rightarrow> nat \<Rightarrow> nat" where
  "count_rises spv [] axis = 0"
| "count_rises spv (op # ops) axis =
     (if reset_rises spv op axis then 1 else 0) + count_rises (apply_op spv op) ops axis"

text \<open>An operation inside one fault episode of the axis: the process data match the configuration and do
  not show the fault cleared.\<close>

fun in_episode :: "nat \<Rightarrow> nat \<Rightarrow> supervisor_op \<Rightarrow> bool" where
  "in_episode n axis (evaluate_op bus pdos now_ns) \<longleftrightarrow> length pdos = n \<and> \<not> fault_clear bus (pdos ! axis) axis"
| "in_episode n axis _ \<longleftrightarrow> True"

lemma accept_frame:
  "supervisor_shape spv \<Longrightarrow> supervisor_shape (fst (accept_commands spv snap now_ns))"
  "states (fst (accept_commands spv snap now_ns)) = states spv"
  "last_requests (fst (accept_commands spv snap now_ns)) = last_requests spv"
  "options (fst (accept_commands spv snap now_ns)) = options spv"
  "axis_count (fst (accept_commands spv snap now_ns)) = axis_count spv"
  "configured (fst (accept_commands spv snap now_ns)) = configured spv"
  "configs (fst (accept_commands spv snap now_ns)) = configs spv"
  by (simp_all add: accept_commands_def store_commands_def supervisor_shape_def)

lemma shutdown_frame:
  "supervisor_shape spv \<Longrightarrow> supervisor_shape (request_shutdown spv now_ns)"
  "states (request_shutdown spv now_ns) = states spv"
  "last_requests (request_shutdown spv now_ns) = last_requests spv"
  "options (request_shutdown spv now_ns) = options spv"
  "axis_count (request_shutdown spv now_ns) = axis_count spv"
  "configured (request_shutdown spv now_ns) = configured spv"
  "configs (request_shutdown spv now_ns) = configs spv"
  by (simp_all add: request_shutdown_def supervisor_shape_def)

lemma evaluate_reset:
  assumes shape: "supervisor_shape spv" and ev: "evaluate spv bus pdos now_ns = (spv', out)"
    and conf: "configured spv" "length pdos = axis_count spv" and axis: "axis < axis_count spv"
    and inv: "reset_inv spv axis"
  shows "reset_inv spv' axis"
    "\<not> fault_clear bus (pdos ! axis) axis \<Longrightarrow>
      episode_edges (states spv' ! axis) = episode_edges (states spv ! axis)
        + (if last_requests spv' ! axis = fault_reset \<and> last_requests spv ! axis \<noteq> fault_reset then 1 else 0)"
proof -
  have n: "axis_count spv \<le> kRobotIoMaximumAxes" "length (states spv) = kRobotIoMaximumAxes"
      "length (last_requests spv) = kRobotIoMaximumAxes"
    using shape by (simp_all add: supervisor_shape_def)
  let ?a = "assess_all (counted spv bus) bus pdos now_ns" and ?s = "states spv ! axis" and ?s' = "states spv' ! axis"
  obtain T R where
    d: "decide_axis (counted spv bus) now_ns (pdos ! axis) (axis_requested spv axis) (T ! axis) (R ! axis)
        (as_target (?a axis)) (as_state (?a axis)) = (?s', last_requests spv' ! axis)"
    using evaluate_axes [OF ev conf n] axis by metis
  obtain s where s: "as_state (?a axis) = update_fault_episode s (fault_clear bus (pdos ! axis) axis)"
      "fault_episode_active s = fault_episode_active ?s" "fault_reset_edges s = fault_reset_edges ?s"
      "fault_reset_output_active s = fault_reset_output_active ?s"
    using assess_fault_state [of "counted spv bus" bus pdos now_ns axis] by auto
  define s1 where "s1 = as_state (?a axis)"
  note dr = decide_reset [OF d, folded s1_def]
  have opt: "options spv' = options spv" using evaluate_frame [OF shape ev] by simp
  have s1: "fault_reset_output_active s1 \<longleftrightarrow> fault_reset_output_active ?s \<and> \<not> fault_clear bus (pdos ! axis) axis"
    "\<not> fault_clear bus (pdos ! axis) axis \<Longrightarrow> fault_episode_active s1 \<and> unat (fault_reset_edges s1) = episode_edges ?s"
    "fault_clear bus (pdos ! axis) axis \<Longrightarrow> \<not> fault_episode_active s1"
    using inv s by (auto simp: s1_def update_fault_episode_def reset_inv_def episode_edges_def)
  have clear: "\<not> fault_clear bus (pdos ! axis) axis" if "last_requests spv' ! axis = fault_reset"
    using decide_phase(7) [OF d that] by (auto simp: fault_clear_def)
  have suc: "unat (fault_reset_edges s1 + 1) = unat (fault_reset_edges s1) + 1"
    if "fault_reset_edges s1 < maximum_fault_resets (options spv)"
    using that by (rule unat_Suc_less)
  show 2: "episode_edges ?s' = episode_edges ?s
        + (if last_requests spv' ! axis = fault_reset \<and> last_requests spv ! axis \<noteq> fault_reset then 1 else 0)"
    if "\<not> fault_clear bus (pdos ! axis) axis"
    using dr s1 that inv suc by (auto simp: episode_edges_def reset_inv_def)
  show "reset_inv spv' axis"
    using dr s1 clear inv suc
    by (cases "fault_clear bus (pdos ! axis) axis")
      (auto simp: reset_inv_def episode_edges_def opt word_less_nat_alt split: if_splits)
qed

lemma apply_op_frame:
  assumes "supervisor_shape spv"
  shows "supervisor_shape (apply_op spv op)" "options (apply_op spv op) = options spv"
    "axis_count (apply_op spv op) = axis_count spv" "configured (apply_op spv op) = configured spv"
    "configs (apply_op spv op) = configs spv"
proof -
  have "supervisor_shape (apply_op spv op) \<and> options (apply_op spv op) = options spv
    \<and> axis_count (apply_op spv op) = axis_count spv \<and> configured (apply_op spv op) = configured spv
    \<and> configs (apply_op spv op) = configs spv"
  proof (cases op)
    case (evaluate_op bus pdos now_ns)
    then show ?thesis
      using evaluate_frame [OF assms, of bus pdos now_ns "fst (evaluate spv bus pdos now_ns)"
          "snd (evaluate spv bus pdos now_ns)"] by simp
  qed (use assms accept_frame shutdown_frame in auto)
  then show "supervisor_shape (apply_op spv op)" "options (apply_op spv op) = options spv"
    "axis_count (apply_op spv op) = axis_count spv" "configured (apply_op spv op) = configured spv"
    "configs (apply_op spv op) = configs spv" by auto
qed

lemma apply_op_reset:
  assumes shape: "supervisor_shape spv" and conf: "configured spv" and axis: "axis < axis_count spv"
    and inv: "reset_inv spv axis" and op: "in_episode (axis_count spv) axis op"
  shows "reset_inv (apply_op spv op) axis"
    "episode_edges (states (apply_op spv op) ! axis) = episode_edges (states spv ! axis) + (if reset_rises spv op axis then 1 else 0)"
proof -
  have "reset_inv (apply_op spv op) axis \<and>
    episode_edges (states (apply_op spv op) ! axis) = episode_edges (states spv ! axis) + (if reset_rises spv op axis then 1 else 0)"
  proof (cases op)
    case (evaluate_op bus pdos now_ns)
    obtain spv' out where ev: "evaluate spv bus pdos now_ns = (spv', out)" by fastforce
    have c: "length pdos = axis_count spv" "\<not> fault_clear bus (pdos ! axis) axis" using op evaluate_op by auto
    show ?thesis
      using evaluate_reset [OF shape ev conf c(1) axis inv] c(2) ev evaluate_op evaluate_frame(3) [OF shape ev] axis
      by (auto simp: reset_rises_def axis_request_of_def)
  qed (use inv in \<open>auto simp: reset_inv_def reset_rises_def axis_request_of_def accept_frame shutdown_frame\<close>)
  then show "reset_inv (apply_op spv op) axis"
    "episode_edges (states (apply_op spv op) ! axis) = episode_edges (states spv ! axis) + (if reset_rises spv op axis then 1 else 0)"
    by auto
qed

text \<open>Claim C21.  The fault-reset budget is respected: over any sequence of operations inside one fault
  episode of an axis, however the host repeats its commands, the decision for that axis switches to fault
  reset at most \<open>maximum_fault_resets\<close> times.\<close>

theorem fault_resets_bounded:
  assumes "supervisor_shape spv" "configured spv" "axis < axis_count spv" "reset_inv spv axis"
    and "list_all (in_episode (axis_count spv) axis) ops"
  shows "count_rises spv ops axis \<le> unat (maximum_fault_resets (options spv))"
proof -
  have "episode_edges (states spv ! axis) + count_rises spv ops axis \<le> unat (maximum_fault_resets (options spv))"
    using assms
  proof (induction ops arbitrary: spv)
    case Nil
    then show ?case by (simp add: reset_inv_def)
  next
    case (Cons op ops)
    have op: "in_episode (axis_count spv) axis op" using Cons.prems by simp
    note f = apply_op_frame [OF Cons.prems(1), of op]
    note r = apply_op_reset [OF Cons.prems(1-4) op]
    have "episode_edges (states (apply_op spv op) ! axis) + count_rises (apply_op spv op) ops axis
        \<le> unat (maximum_fault_resets (options (apply_op spv op)))"
      using Cons.prems f r(1) by (intro Cons.IH) auto
    then show ?case using r(2) f(2) by simp
  qed
  then show ?thesis by simp
qed

section \<open>The invariant of reachable supervisors\<close>

definition axis_state_ok :: "safety_options \<Rightarrow> axis_safety_state \<Rightarrow> bool" where
  "axis_state_ok opts s \<longleftrightarrow>
     (phase s = stopping \<longrightarrow> zero_velocity_cycles s < zero_velocity_confirmation_cycles opts)
     \<and> fault_reset_edges s \<le> maximum_fault_resets opts"

definition command_ok :: "safety_supervisor \<Rightarrow> axis_command \<Rightarrow> bool" where
  "command_ok spv c \<longleftrightarrow>
     isfinite (cmd_target c) \<and> cmd_flags c \<in> {0, kAxisCommandEnable, kAxisCommandDisable, kAxisCommandQuickStop,
       kAxisCommandFaultReset} \<and> cmd_sequence c = last_command_sequence spv
     \<and> cmd_timestamp_ns c = last_command_timestamp_ns spv"

definition supervisor_inv :: "safety_supervisor \<Rightarrow> bool" where
  "supervisor_inv spv \<longleftrightarrow>
     supervisor_shape spv
     \<and> (configured spv \<longrightarrow> valid_options (options spv)) \<and> (\<not> configured spv \<longrightarrow> axis_count spv = 0)
     \<and> (has_command spv \<longrightarrow> configured spv) \<and> (commands_valid spv \<longrightarrow> has_command spv)
     \<and> (\<forall>axis < kRobotIoMaximumAxes. axis_state_ok (options spv) (states spv ! axis))
     \<and> (has_command spv \<longrightarrow> (\<forall>axis < axis_count spv. command_ok spv (commands spv ! axis)))"

lemma decide_state_ok:
  assumes "decide_axis spv now_ns pdo requested trigger reasons target state = (state', decision)"
    and "axis_state_ok (options spv) state" "0 < zero_velocity_confirmation_cycles (options spv)"
  shows "axis_state_ok (options spv) state'"
proof -
  have "phase state' = stopping \<longrightarrow> zero_velocity_cycles state' < zero_velocity_confirmation_cycles (options spv)"
    using assms
    by (cases "phase state"; cases trigger; auto simp: decide_axis_def axis_state_ok_def Let_def not_le split: if_splits)
  moreover have "fault_reset_edges state' \<le> maximum_fault_resets (options spv)"
    using decide_reset(3,4) [OF assms(1)] assms(2) inc_le [of "fault_reset_edges state"]
    by (cases "decision = fault_reset \<and> \<not> fault_reset_output_active state") (auto simp: axis_state_ok_def)
  ultimately show ?thesis by (simp add: axis_state_ok_def)
qed

lemma assess_state_ok:
  "axis_state_ok opts (states spv ! axis) \<Longrightarrow> axis_state_ok opts (as_state (assess_all spv bus pdos now_ns axis))"
  using assess_fault_state [of spv bus pdos now_ns axis] assess_state [of spv bus pdos now_ns axis]
  by (auto simp: axis_state_ok_def update_fault_episode_def)

lemma evaluate_inv [inv_intros]:
  assumes inv: "supervisor_inv spv" and ev: "evaluate spv bus pdos now_ns = (spv', out)"
  shows "supervisor_inv spv'"
proof -
  have shape: "supervisor_shape spv" using inv by (simp add: supervisor_inv_def)
  have n: "axis_count spv \<le> kRobotIoMaximumAxes" "length (states spv) = kRobotIoMaximumAxes"
      "length (last_requests spv) = kRobotIoMaximumAxes"
    using shape by (simp_all add: supervisor_shape_def)
  note f = evaluate_frame [OF shape ev]
  have "axis_state_ok (options spv) (states spv' ! axis)" if a: "axis < kRobotIoMaximumAxes" for axis
  proof (cases "configured spv \<and> length pdos = axis_count spv")
    case False
    then have "states spv' = states spv" using ev by (auto simp: evaluate_def Let_def split: if_splits)
    then show ?thesis using inv a by (simp add: supervisor_inv_def)
  next
    case True
    then have conf: "configured spv" "length pdos = axis_count spv" by auto
    have z: "0 < zero_velocity_confirmation_cycles (options spv)"
      using inv conf by (simp add: supervisor_inv_def valid_options_def)
    let ?a = "assess_all (counted spv bus) bus pdos now_ns"
    obtain T R where
      d: "axis < axis_count spv \<Longrightarrow> decide_axis (counted spv bus) now_ns (pdos ! axis) (axis_requested spv axis) (T ! axis)
        (R ! axis) (as_target (?a axis)) (as_state (?a axis)) = (states spv' ! axis, ev_requests out ! axis)"
      and k: "axis_count spv \<le> axis \<Longrightarrow> states spv' ! axis = states spv ! axis"
      using evaluate_axes [OF ev conf n] a by metis
    have ok: "axis_state_ok (options spv) (states spv ! axis)" using inv a by (simp add: supervisor_inv_def)
    show ?thesis
      using decide_state_ok [OF d] assess_state_ok [of "options spv" "counted spv bus"] ok z k
      by (cases "axis < axis_count spv") auto
  qed
  then show ?thesis using inv f by (auto simp: supervisor_inv_def command_ok_def)
qed

lemma valid_snapshot_commands:
  assumes "valid_snapshot spv snap now_ns" "axis < axis_count spv"
  shows "isfinite (cmd_target (sn_axes snap ! axis))" "cmd_sequence (sn_axes snap ! axis) = sn_sequence snap"
    "cmd_timestamp_ns (sn_axes snap ! axis) = sn_timestamp_ns snap" "cmd_flags (sn_axes snap ! axis) \<in> {0, 1, 2, 4, 8}"
  using assms single_flag_values by (auto simp: valid_snapshot_def list_all_iff Let_def)

lemma accept_inv [inv_intros]: "supervisor_inv spv \<Longrightarrow> supervisor_inv (fst (accept_commands spv snap now_ns))"
proof -
  assume inv: "supervisor_inv spv"
  have n: "axis_count spv \<le> kRobotIoMaximumAxes" "length (commands spv) = kRobotIoMaximumAxes"
    using inv by (simp_all add: supervisor_inv_def supervisor_shape_def)
  have store: "supervisor_inv (store_commands spv snap)" if v: "valid_snapshot spv snap now_ns"
  proof -
    have "command_ok (store_commands spv snap) (commands (store_commands spv snap) ! axis)" if "axis < axis_count spv" for axis
      using valid_snapshot_commands [OF v that] that n by (auto simp: command_ok_def store_commands_def flag_simps)
    then show ?thesis
      using inv v by (auto simp: supervisor_inv_def store_commands_def supervisor_shape_def valid_snapshot_def)
  qed
  have reject: "supervisor_inv (spv\<lparr>commands_valid := False\<rparr>)"
    using inv by (auto simp: supervisor_inv_def supervisor_shape_def command_ok_def)
  show ?thesis using store reject inv by (auto simp: accept_commands_def)
qed

lemma shutdown_inv [inv_intros]: "supervisor_inv spv \<Longrightarrow> supervisor_inv (request_shutdown spv now_ns)"
  by (auto simp: supervisor_inv_def request_shutdown_def supervisor_shape_def command_ok_def)

lemma configure_loop_frame:
  "configure_loop axes axis ids nxt spv = (spv', r) \<Longrightarrow>
    \<exists>c l. length c = length (configs spv) \<and> length l = length (last_requests spv)
      \<and> spv' = spv\<lparr>configs := c, last_requests := l\<rparr>"
proof (induction axes axis ids nxt spv rule: configure_loop.induct)
  case (1 axes axis ids nxt spv)
  obtain gid nxt' where g: "assign_group axes axis ids nxt = (gid, nxt')" by fastforce
  show ?case
  proof (cases "axis < length axes \<and> \<not> axis_limits_bad (axes ! axis)
      \<and> \<not> (ac_mode (axes ! axis) \<noteq> csp \<and> ac_mode (axes ! axis) \<noteq> csv \<and> ac_mode (axes ! axis) \<noteq> cst)")
    case False
    then have "spv' = spv" using "1.prems" by (auto simp: configure_loop.simps [of axes axis] split: if_splits)
    then show ?thesis by (intro exI [of _ "configs spv"] exI [of _ "last_requests spv"]) simp
  next
    case True
    then have c: "axis < length axes" "\<not> axis_limits_bad (axes ! axis)"
      "\<not> (ac_mode (axes ! axis) \<noteq> csp \<and> ac_mode (axes ! axis) \<noteq> csv \<and> ac_mode (axes ! axis) \<noteq> cst)" by auto
    show ?thesis
      using "1.IH" [OF c g [symmetric] refl] "1.prems" c g
      by (fastforce simp: configure_loop.simps [of axes axis])
  qed
qed

lemma configure_inv [inv_intros]: "supervisor_inv spv \<Longrightarrow> supervisor_inv (fst (configure spv axes))"
proof -
  assume inv: "supervisor_inv spv"
  obtain s r where l: "configure_loop axes 0 (replicate kRobotIoMaximumAxes 0) 0 spv = (s, r)" by fastforce
  from configure_loop_frame [OF l] obtain c k where
    ck: "length c = length (configs spv)" "length k = length (last_requests spv)" "s = spv\<lparr>configs := c, last_requests := k\<rparr>"
    by auto
  show ?thesis
    using inv l ck
    by (cases r) (auto simp: configure_def supervisor_inv_def supervisor_shape_def command_ok_def)
qed

lemma initial_inv [inv_intros]: "supervisor_inv (make_supervisor opts)"
  by (simp add: supervisor_inv_def supervisor_shape_def make_supervisor_def axis_state_ok_def initial_axis_safety_state_def)

text \<open>Claim C13.  Every supervisor that configuration, command admission, evaluation and shutdown requests can
  produce, in any order and with any data, is well formed: its arrays keep their size, the zero-velocity
  counter never reaches its confirmation limit while stopping (so it cannot wrap), the fault-reset counter
  never exceeds its budget, and the stored commands have finite targets, at most one known flag, and the
  sequence and time stamp of the last admitted snapshot.\<close>

theorem reachable_supervisor_inv: "reachable opts spv \<Longrightarrow> supervisor_inv spv"
proof (induction rule: reachable.induct)
  case (reach_op spv op)
  then show ?case
    using evaluate_inv [of spv] accept_inv [of spv] shutdown_inv [of spv] by (cases op) (auto simp: prod_eq_iff)
qed (auto intro: inv_intros)

theorem reachable_supervisor_inv_witness:
  "supervisor_inv (request_shutdown (fst (configure (make_supervisor default_options) example_axes)) 0)"
  using reachable_supervisor_inv [OF reach_op [OF reach_configure [OF reach_init]], of default_options example_axes "shutdown_op 0"]
  by simp

section \<open>Admission of commands\<close>

definition admit :: "safety_supervisor \<Rightarrow> axis_command snapshot \<times> int \<Rightarrow> safety_supervisor \<times> bool" where
  "admit spv c = (let (spv', verdict) = accept_commands spv (fst c) (snd c) in (spv', verdict = accepted))"

definition admitted_sequence :: "safety_supervisor \<Rightarrow> u64 option" where
  "admitted_sequence spv = (if has_command spv then Some (last_command_sequence spv) else None)"

interpretation admission: command_gate admit admitted_sequence "\<lambda>c. sn_sequence (fst c)" commands
proof unfold_locales
  fix s c s'
  assume "admit s c = (s', True)"
  then show "admitted_sequence s' = Some (sn_sequence (fst c))
      \<and> (\<forall>n. admitted_sequence s = Some n \<longrightarrow> n < sn_sequence (fst c))"
    by (auto simp: admit_def accept_commands_def admitted_sequence_def store_commands_def split: if_splits)
next
  fix s c s'
  assume "admit s c = (s', False)"
  then show "admitted_sequence s' = admitted_sequence s \<and> commands s' = commands s"
    by (auto simp: admit_def accept_commands_def admitted_sequence_def split: if_splits)
qed

fun admitted_run :: "safety_supervisor \<Rightarrow> (axis_command snapshot \<times> int) list \<Rightarrow> u64 list" where
  "admitted_run spv [] = []"
| "admitted_run spv ((snap, now_ns) # cs) =
     (case accept_commands spv snap now_ns of
        (spv', accepted) \<Rightarrow> sn_sequence snap # admitted_run spv' cs
      | (spv', _) \<Rightarrow> admitted_run spv' cs)"

lemma admitted_run: "snd (admission.run spv cs) = admitted_run spv cs"
proof (induction cs arbitrary: spv)
  case (Cons c cs)
  obtain snap now_ns where c: "c = (snap, now_ns)" by fastforce
  obtain spv' v where a: "accept_commands spv snap now_ns = (spv', v)" by fastforce
  obtain s ns where r: "admission.run spv' cs = (s, ns)" by fastforce
  have ad: "admit spv (snap, now_ns) = (spv', v = accepted)" by (simp add: admit_def a)
  show ?case using Cons.IH [of spv'] r by (cases v) (simp_all add: c ad a)
qed simp

text \<open>Over any sequence of snapshots offered to the supervisor, the sequences of the accepted ones
  strictly increase, so no command is applied twice or out of order; a snapshot that is not accepted leaves
  the stored commands untouched, and one that is rejected marks them invalid until a newer one is accepted.\<close>

theorem admitted_sequences_increase:
  "sorted_wrt (<) (admitted_run spv cs)
   \<and> (\<forall>snap now_ns. snd (accept_commands spv snap now_ns) \<noteq> accepted \<longrightarrow>
        commands (fst (accept_commands spv snap now_ns)) = commands spv)
   \<and> (\<forall>snap now_ns. snd (accept_commands spv snap now_ns) = rejected \<longrightarrow>
        \<not> commands_valid (fst (accept_commands spv snap now_ns)))"
proof (intro conjI allI impI)
  show "sorted_wrt (<) (admitted_run spv cs)"
    using admission.run_sorted [of spv cs] admitted_run [of spv cs] by (metis prod.collapse)
  show "commands (fst (accept_commands spv snap now_ns)) = commands spv"
    if "snd (accept_commands spv snap now_ns) \<noteq> accepted" for snap now_ns
    using that admission.refused_frame [of spv "(snap, now_ns)"]
    by (cases "accept_commands spv snap now_ns") (auto simp: admit_def)
  show "\<not> commands_valid (fst (accept_commands spv snap now_ns))"
    if "snd (accept_commands spv snap now_ns) = rejected" for snap now_ns
    using that by (auto simp: accept_commands_def split: if_splits)
qed

definition example_snapshot :: "u64 \<Rightarrow> axis_command snapshot" where
  "example_snapshot n = \<lparr>sn_sequence = n, sn_timestamp_ns = 1000, sn_axis_count = 3,
     sn_axes = replicate kRobotIoMaximumAxes \<lparr>cmd_sequence = n, cmd_timestamp_ns = 1000, cmd_target = Fin 7,
       cmd_flags = kAxisCommandEnable, cmd_reserved = 0\<rparr>\<rparr>"

definition example_supervisor :: safety_supervisor where
  "example_supervisor = fst (configure (make_supervisor default_options) example_axes)"

lemma example_supervisor_simps:
  "configured example_supervisor" "axis_count example_supervisor = 3" "\<not> has_command example_supervisor"
  "\<not> shutdown_requested example_supervisor" "options example_supervisor = default_options"
  "states example_supervisor = replicate kRobotIoMaximumAxes initial_axis_safety_state"
  "consecutive_wkc_failures example_supervisor = 0"
  "commands example_supervisor = replicate kRobotIoMaximumAxes zero_command"
  "last_requests example_supervisor = replicate kRobotIoMaximumAxes disable"
  "configs example_supervisor = safety_config_of (example_axes ! 0) 0 # safety_config_of (example_axes ! 1) 1
     # safety_config_of (example_axes ! 2) 0 # replicate 9 zero_axis_safety_config"
  by code_simp+

end
