(* ===== verification/Safety_Examples.thy ===== *)
theory Safety_Examples
  imports Safety_Runs
begin

text \<open>
  Concrete evaluations of the safety supervisor: three CSP axes, two of them in one safety group, with an
  admitted enable command.  They instantiate the supervisor's theorems at inputs where every hypothesis
  holds.
\<close>

section \<open>Concrete evaluations\<close>

definition example_bus :: safety_bus_state where
  "example_bus = \<lparr>working_counter = 9, expected_working_counter = 9, expected_working_counter_known = True,
     working_counter_complete = True, link_up = True, all_slaves_operational = True, process_data_valid = True,
     operational_axes_mask = 0, external_stop_axes_mask = 0, dc_deviation_ns = 0\<rparr>"

definition commanded_supervisor :: safety_supervisor where
  "commanded_supervisor = fst (accept_commands example_supervisor (example_snapshot 4) 2000)"

lemma commanded_simps:
  "configured commanded_supervisor" "axis_count commanded_supervisor = 3" "has_command commanded_supervisor"
  "commands_valid commanded_supervisor" "last_command_timestamp_ns commanded_supervisor = 1000"
  "last_command_sequence commanded_supervisor = 4"
  "\<not> shutdown_requested commanded_supervisor" "options commanded_supervisor = default_options"
  "states commanded_supervisor = replicate kRobotIoMaximumAxes initial_axis_safety_state"
  "consecutive_wkc_failures commanded_supervisor = 0"
  "commands commanded_supervisor = replicate 3 \<lparr>cmd_sequence = 4, cmd_timestamp_ns = 1000, cmd_target = Fin 7,
       cmd_flags = kAxisCommandEnable, cmd_reserved = 0\<rparr> @ replicate 9 zero_command"
  "last_requests commanded_supervisor = replicate kRobotIoMaximumAxes disable"
  "configs commanded_supervisor = safety_config_of (example_axes ! 0) 0 # safety_config_of (example_axes ! 1) 1
     # safety_config_of (example_axes ! 2) 0 # replicate 9 zero_axis_safety_config"
  by code_simp+

definition example_axis_command :: axis_command where
  "example_axis_command = \<lparr>cmd_sequence = 4, cmd_timestamp_ns = 1000, cmd_target = Fin 7,
     cmd_flags = kAxisCommandEnable, cmd_reserved = 0\<rparr>"

lemma less_3_cases: "(axis :: nat) < 3 \<Longrightarrow> axis = 0 \<or> axis = 1 \<or> axis = 2"
  by auto

lemma commanded_nth:
  assumes "axis < 3"
  shows "commands commanded_supervisor ! axis = example_axis_command"
    "states commanded_supervisor ! axis = initial_axis_safety_state"
    "\<exists>g. configs commanded_supervisor ! axis = safety_config_of (ax_config example_axis) g"
  using less_3_cases [OF assms]
  by (auto simp: commanded_simps example_axis_command_def kRobotIoMaximumAxes_def example_axes_def safety_config_of_def
      nth_append numeral_eq_Suc)

lemma example_decode: "decode (status_word example_pdo) = operation_enabled"
  by (simp add: example_pdo_def decode_def)

lemma example_request: "request_from_flags kAxisCommandEnable = enable"
  by (simp add: request_from_flags_def flag_simps)

lemma example_target:
  "evaluate_target (safety_config_of (ax_config example_axis) g) initial_axis_safety_state example_axis_command example_pdo
   = (initial_axis_safety_state\<lparr>last_target := Fin 2, has_last_target := True\<rparr>,
      \<lparr>te_actual = Fin 2, te_staged = Fin 3, te_following_error = False\<rparr>)"
  by (simp add: evaluate_target_def safety_config_of_def example_axis_def initial_axis_safety_state_def
      example_axis_command_def example_request example_pdo_def decode_def fclamp_def fsub_def fp_eval Let_def)

abbreviation "example_pdos \<equiv> replicate 3 example_pdo"

lemma example_assess:
  assumes "axis < 3"
  shows "axis_requested commanded_supervisor axis = enable"
    and "assess_all (counted commanded_supervisor example_bus) example_bus example_pdos 2000 axis =
      \<lparr>as_reasons = 0, as_trigger = False, as_reset_candidate = False,
       as_target = \<lparr>te_actual = Fin 2, te_staged = Fin 3, te_following_error = False\<rparr>,
       as_state = initial_axis_safety_state\<lparr>last_target := Fin 2, has_last_target := True\<rparr>\<rparr>"
proof -
  note nth = commanded_nth [OF assms]
  obtain g where g: "configs commanded_supervisor ! axis = safety_config_of (ax_config example_axis) g" using nth(3) by auto
  have p: "example_pdos ! axis = example_pdo" using assms by simp
  have m: "mode_display example_pdo = mode_code (sc_mode (safety_config_of (ax_config example_axis) g))"
    "1000 \<le> sc_command_timeout_ns (safety_config_of (ax_config example_axis) g)"
    by (simp_all add: safety_config_of_def example_axis_def example_pdo_def)
  show r: "axis_requested commanded_supervisor axis = enable"
    by (simp add: axis_requested_def commanded_simps(3) nth(1) example_axis_command_def example_request)
  have b: "link_up example_bus" "process_data_valid example_bus" "\<not> counter_bad example_bus" "axis_operational example_bus axis"
    "\<not> mask_selects (external_stop_axes_mask example_bus) axis"
    "\<not> consecutive_wkc_limit default_options \<le> next_wkc_failures example_bus 0"
    by (simp_all add: example_bus_def counter_bad_def axis_operational_def mask_selects_def next_wkc_failures_def default_options_def)
  have x: "\<not> command_expired (counted commanded_supervisor example_bus) 2000 axis"
    using m(2) by (simp add: command_expired_def commanded_simps(3,5) g)
  show "assess_all (counted commanded_supervisor example_bus) example_bus example_pdos 2000 axis =
      \<lparr>as_reasons = 0, as_trigger = False, as_reset_candidate = False,
       as_target = \<lparr>te_actual = Fin 2, te_staged = Fin 3, te_following_error = False\<rparr>,
       as_state = initial_axis_safety_state\<lparr>last_target := Fin 2, has_last_target := True\<rparr>\<rparr>"
    by (simp add: assess_all_def assess_axis_def r p g nth b x m commanded_simps(4,7,8,10) example_target example_decode
        or_if_def update_fault_episode_def) (simp add: initial_axis_safety_state_def)
qed

lemma commanded_shape: "supervisor_shape commanded_supervisor"
  by (simp add: supervisor_shape_def commanded_simps kRobotIoMaximumAxes_def)

lemma example_evaluation:
  assumes "axis < 3"
  shows "ev_requests (snd (evaluate commanded_supervisor example_bus example_pdos 2000)) ! axis = enable"
    "phase (states (fst (evaluate commanded_supervisor example_bus example_pdos 2000)) ! axis) = running"
proof -
  obtain s o' where ev: "evaluate commanded_supervisor example_bus example_pdos 2000 = (s, o')" by fastforce
  have n: "axis_count commanded_supervisor \<le> kRobotIoMaximumAxes" "length (states commanded_supervisor) = kRobotIoMaximumAxes"
      "length (last_requests commanded_supervisor) = kRobotIoMaximumAxes"
    using commanded_shape by (simp_all add: supervisor_shape_def)
  have l: "length example_pdos = axis_count commanded_supervisor" by (simp add: commanded_simps)
  let ?a = "assess_all (counted commanded_supervisor example_bus) example_bus example_pdos 2000"
  obtain T R where g: "group_outcome (counted commanded_supervisor example_bus) ?a = (T, R)"
    and d: "decide_axis (counted commanded_supervisor example_bus) 2000 (example_pdos ! axis)
       (axis_requested commanded_supervisor axis) (T ! axis) (R ! axis) (as_target (?a axis)) (as_state (?a axis))
       = (states s ! axis, ev_requests o' ! axis)"
    using evaluate_axes [OF ev commanded_simps(1) l n] assms by (metis commanded_simps(2))
  have "\<not> T ! axis" using group_outcome(1) [OF _ g, of axis] n(1) assms by (auto simp: commanded_simps(2) example_assess)
  then have "(states s ! axis, ev_requests o' ! axis) =
      (initial_axis_safety_state\<lparr>last_target := Fin 3, has_last_target := True\<rparr>, enable)"
    unfolding d [symmetric] using assms
    by (simp add: decide_axis_def example_assess example_decode initial_axis_safety_state_def Let_def)
  then show "ev_requests (snd (evaluate commanded_supervisor example_bus example_pdos 2000)) ! axis = enable"
    "phase (states (fst (evaluate commanded_supervisor example_bus example_pdos 2000)) ! axis) = running"
    using ev by (simp_all add: initial_axis_safety_state_def)
qed

theorem enable_requires_clear_group_witness:
  "axis_requested commanded_supervisor 0 = enable
   \<and> axis_clear commanded_supervisor example_bus example_pdos 2000 2"
proof -
  have "same_group commanded_supervisor 0 2" by (simp add: same_group_def commanded_simps safety_config_of_def numeral_eq_Suc)
  then show ?thesis
    using enable_requires_clear_group [OF commanded_shape surjective_pairing, of 0] example_evaluation(1) [of 0]
    by (simp add: commanded_simps(2))
qed

theorem unclear_member_stops_group_witness:
  "ev_requests (snd (evaluate commanded_supervisor (example_bus\<lparr>external_stop_axes_mask := 4\<rparr>) example_pdos 2000)) ! 0
     \<in> {quick_stop, disable}"
proof -
  have "same_group commanded_supervisor 0 2" by (simp add: same_group_def commanded_simps safety_config_of_def numeral_eq_Suc)
  moreover have "\<not> axis_clear commanded_supervisor (example_bus\<lparr>external_stop_axes_mask := 4\<rparr>) example_pdos 2000 2"
    by (simp add: axis_clear_def mask_selects_def)
  ultimately show ?thesis
    using unclear_member_stops_group [OF commanded_shape surjective_pairing commanded_simps(1), of example_pdos 2 _ 2000 0]
    by (simp add: commanded_simps(2))
qed

definition closing_supervisor :: safety_supervisor where
  "closing_supervisor = request_shutdown commanded_supervisor 2000"

lemma closing_simps:
  "supervisor_shape closing_supervisor" "configured closing_supervisor" "axis_count closing_supervisor = 3"
  "shutdown_requested closing_supervisor" "options closing_supervisor = default_options"
  "axis < 3 \<Longrightarrow> states closing_supervisor ! axis = initial_axis_safety_state"
  "last_command_sequence closing_supervisor = 4"
  using commanded_shape commanded_nth(2)
  by (simp_all add: closing_supervisor_def request_shutdown_def commanded_simps(1,2,6,7,8) supervisor_shape_def)

theorem recovery_needs_newer_command_witness:
  "phase (states (fst (evaluate closing_supervisor example_bus example_pdos 2000)) ! 0) = stopping
   \<and> stopped_command_sequence (states (fst (evaluate closing_supervisor example_bus example_pdos 2000)) ! 0) = 4"
proof -
  obtain s o' where ev: "evaluate closing_supervisor example_bus example_pdos 2000 = (s, o')" by fastforce
  have l: "length example_pdos = axis_count closing_supervisor" "0 < axis_count closing_supervisor" by (simp_all add: closing_simps(3))
  have "phase (states s ! 0) \<noteq> running"
    by (rule shutdown_axis(2) [OF closing_simps(1) ev closing_simps(2) l closing_simps(4)])
  then show ?thesis
    using recovery_needs_newer_command [OF closing_simps(1) ev closing_simps(2) l]
    by (simp add: ev closing_simps(6,7) initial_axis_safety_state_def)
qed

theorem shutdown_completes_witness:
  "ev_shutdown_complete (snd (evaluate (fst (evaluate closing_supervisor example_bus example_pdos 2000))
     example_bus example_pdos 250002000))"
proof -
  have "0 < safe_stop_timeout (options closing_supervisor)" "2000 + safe_stop_timeout (options closing_supervisor) \<le> 250002000"
    by (simp_all add: closing_simps(5) default_options_def)
  then show ?thesis
    using shutdown_completes [OF closing_simps(1,2,4), of 2000 example_bus example_pdos
        "fst (evaluate closing_supervisor example_bus example_pdos 2000)" _ example_bus example_pdos 250002000]
      closing_simps(3,6)
    by (metis (no_types, lifting) initial_axis_safety_state_def axis_safety_state.select_convs(1) length_replicate
        prod.collapse stop_phase.distinct(1))
qed

theorem fault_resets_bounded_witness:
  "count_rises commanded_supervisor
     (replicate 5 (evaluate_op example_bus (replicate 3 (example_pdo\<lparr>status_word := 8\<rparr>)) 2000)) 0 \<le> 3"
proof -
  have "reset_inv commanded_supervisor 0"
    by (simp add: reset_inv_def commanded_simps kRobotIoMaximumAxes_def initial_axis_safety_state_def episode_edges_def)
  moreover have "list_all (in_episode (axis_count commanded_supervisor) 0)
      (replicate 5 (evaluate_op example_bus (replicate 3 (example_pdo\<lparr>status_word := 8\<rparr>)) 2000))"
    by (simp add: list_all_iff commanded_simps fault_clear_def decode_def)
  ultimately show ?thesis
    using fault_resets_bounded [OF commanded_shape commanded_simps(1), of 0]
    by (simp add: commanded_simps(2,8) default_options_def)
qed

end
