(* ===== verification/Daemon_Commands.thy ===== *)
theory Daemon_Commands
  imports Daemon_Cycle Safety_Examples
begin

text \<open>
  Handing commands from the staging threads to the owner of the cycle, under every interleaving of their steps.  A
  staging call writes one of two shared places, the handed-over command or the rejection counter, so it is one step; the
  owner reads the counter, then the command, and acts on both, with any staging calls in between.  Everything else the
  daemon does leaves the command state alone.
\<close>

section \<open>Interleavings\<close>

definition command_state :: "robot_daemon \<Rightarrow> u64 \<times> u64 \<times> u64 \<times> u64 \<times> staged_command_event option" where
  "command_state d = (dm_command_publication d, dm_consumed_publication d, dm_acknowledged_rejection d,
     dm_rejected_publication d, dm_command_handoff d)"

text \<open>The owner's program counter holds the rejection counter it has read, if any.  The number of staging calls is an index
  of the relation.\<close>

inductive command_steps :: "nat \<Rightarrow> robot_daemon \<times> u64 option \<Rightarrow> robot_daemon \<times> u64 option \<Rightarrow> bool" where
  steps_none: "command_steps 0 s s"
| steps_stage: "command_steps n s (d, pc) \<Longrightarrow> command_steps (Suc n) s (fst (daemon_stage_commands now_ns snap d), pc)"
| steps_load: "command_steps n s (d, None) \<Longrightarrow> command_steps n s (d, Some (dm_rejected_publication d))"
| steps_consume: "command_steps n s (d, Some r) \<Longrightarrow>
    command_steps n s (fst (consume_observed r (dm_command_handoff d) now_ns d), None)"
| steps_other: "command_steps n s (d, pc) \<Longrightarrow> command_state d' = command_state d \<Longrightarrow> command_steps n s (d', pc)"

text \<open>The snapshot with which a rejection is reported to the supervisor is refused and leaves the stored commands alone.\<close>

lemma invalid_snapshot_refused:
  "axis_count spv \<le> kRobotIoMaximumAxes \<Longrightarrow> accept_commands spv invalid_snapshot now_ns = (spv\<lparr>commands_valid := False\<rparr>, command_acceptance.rejected)"
  by (auto simp: accept_commands_def valid_snapshot_def invalid_snapshot_def snapshot.defs)

text \<open>An event that is not newer than the acknowledged rejection reaches the supervisor by no consuming step.\<close>

lemma stale_event_ignored:
  assumes "sv_publication ev \<le> dm_acknowledged_rejection d" and "axis_count (dm_safety d) \<le> kRobotIoMaximumAxes"
  shows "snd (consume_observed r (Some ev) now_ns d) \<noteq> command_acceptance.accepted"
    and "commands (dm_safety (fst (consume_observed r (Some ev) now_ns d))) = commands (dm_safety d)"
    and "commands_valid (dm_safety (fst (consume_observed r (Some ev) now_ns d))) \<Longrightarrow> commands_valid (dm_safety d)"
  using assms by (auto simp: consume_observed_def Let_def invalid_snapshot_refused split_beta split: if_splits)

section \<open>The counters\<close>

definition counters_ok :: "nat \<Rightarrow> robot_daemon \<times> u64 option \<Rightarrow> bool" where
  "counters_ok n s \<longleftrightarrow>
     (let d = fst s
      in unat (dm_command_publication d) \<le> n
         \<and> dm_acknowledged_rejection d \<le> dm_rejected_publication d
         \<and> dm_rejected_publication d \<le> dm_command_publication d
         \<and> (\<forall>ev. dm_command_handoff d = Some ev \<longrightarrow> sv_publication ev \<le> dm_command_publication d)
         \<and> (\<forall>r. snd s = Some r \<longrightarrow> dm_acknowledged_rejection d \<le> r \<and> r \<le> dm_rejected_publication d))"

lemma stage_counters:
  "command_state (fst (daemon_stage_commands now_ns snap d)) = command_state d
   \<or> command_state (fst (daemon_stage_commands now_ns snap d)) =
       (dm_command_publication d + 1, dm_consumed_publication d, dm_acknowledged_rejection d, dm_rejected_publication d,
        Some \<lparr>sv_publication = dm_command_publication d + 1, sv_snapshot = snap\<rparr>)
   \<or> command_state (fst (daemon_stage_commands now_ns snap d)) =
       (dm_command_publication d + 1, dm_consumed_publication d, dm_acknowledged_rejection d, dm_command_publication d + 1,
        dm_command_handoff d)"
  by (auto simp: daemon_stage_commands_def command_state_def Let_def split_beta split: command_acceptance.splits)

lemma consume_counters:
  "command_state (fst (consume_observed r ev now_ns d)) =
     (dm_command_publication d, dm_consumed_publication (fst (consume_observed r ev now_ns d)), r, dm_rejected_publication d,
      dm_command_handoff d)"
  by (auto simp: consume_observed_def command_state_def Let_def split_beta split: option.splits)

lemma counters_ok_state:
  "command_state d' = command_state d \<Longrightarrow> counters_ok n (d', pc) = counters_ok n (d, pc)"
  by (simp add: counters_ok_def command_state_def)

text \<open>Over a run the acknowledged rejection never decreases and the invariant is kept, as long as the publications fit
  their counter.\<close>

lemma command_steps_counters:
  assumes "command_steps n s s'" "counters_ok m s" "m + n < 2 ^ 64"
  shows "counters_ok (m + n) s' \<and> dm_acknowledged_rejection (fst s) \<le> dm_acknowledged_rejection (fst s')"
  using assms
proof (induction rule: command_steps.induct)
  case (steps_stage n s d pc now_ns snap)
  then have ok: "counters_ok (m + n) (d, pc)" and mono: "dm_acknowledged_rejection (fst s) \<le> dm_acknowledged_rejection d" by auto
  have fits: "unat (dm_command_publication d) + 1 < 2 ^ 64" using ok steps_stage.prems(2) by (simp add: counters_ok_def)
  then have succ: "unat (dm_command_publication d + 1) = unat (dm_command_publication d) + 1"
    by (simp add: unat_word_ariths)
  then have up: "x \<le> dm_command_publication d \<Longrightarrow> x \<le> dm_command_publication d + 1" for x
    by (simp add: word_le_nat_alt)
  obtain d' where d': "fst (daemon_stage_commands now_ns snap d) = d'" by blast
  have le: "dm_acknowledged_rejection d \<le> dm_rejected_publication d" "dm_rejected_publication d \<le> dm_command_publication d"
    and hand: "dm_command_handoff d = Some ev \<Longrightarrow> sv_publication ev \<le> dm_command_publication d" for ev
    using ok by (auto simp: counters_ok_def)
  have pcs: "dm_acknowledged_rejection d \<le> r \<and> r \<le> dm_rejected_publication d" if "pc = Some r" for r
    using ok that by (simp add: counters_ok_def)
  have n: "unat (dm_command_publication d) \<le> m + n" using ok by (simp add: counters_ok_def)
  note facts = le up [OF le(2)] up [OF order_trans [OF le]] n succ mono
  consider "command_state d' = command_state d"
    | "command_state d' = (dm_command_publication d + 1, dm_consumed_publication d, dm_acknowledged_rejection d, dm_rejected_publication d,
        Some \<lparr>sv_publication = dm_command_publication d + 1, sv_snapshot = snap\<rparr>)"
    | "command_state d' = (dm_command_publication d + 1, dm_consumed_publication d, dm_acknowledged_rejection d, dm_command_publication d + 1,
        dm_command_handoff d)"
    using stage_counters [of now_ns snap d] unfolding d' by blast
  then have "counters_ok (m + Suc n) (d', pc) \<and> dm_acknowledged_rejection d' = dm_acknowledged_rejection d"
  proof cases
    case 1
    then show ?thesis using facts hand pcs by (simp add: counters_ok_def command_state_def)
  next
    case 2
    then show ?thesis using facts pcs by (simp add: counters_ok_def command_state_def)
  next
    case 3
    have "r \<le> dm_command_publication d + 1" if "pc = Some r" for r using pcs [OF that] up le(2) by (meson order_trans)
    with 3 show ?thesis using facts pcs hand up by (simp add: counters_ok_def command_state_def)
  qed
  then show ?case using mono d' by simp
next
  case (steps_consume n s d r now_ns)
  then show ?case using consume_counters [of r "dm_command_handoff d" now_ns d]
    by (auto simp: counters_ok_def command_state_def intro: order_trans)
next
  case (steps_other n s d pc d')
  have "dm_acknowledged_rejection d' = dm_acknowledged_rejection d" using steps_other.hyps(2) by (simp add: command_state_def)
  moreover have "counters_ok (m + n) (d', pc) = counters_ok (m + n) (d, pc)" by (rule counters_ok_state [OF steps_other.hyps(2)])
  ultimately show ?case using steps_other.IH [OF steps_other.prems] by simp
qed (auto simp: counters_ok_def)

section \<open>Rejections\<close>

lemma rejection_invalidates:
  assumes "r \<noteq> dm_acknowledged_rejection d" and "axis_count (dm_safety d) \<le> kRobotIoMaximumAxes"
  shows "\<not> commands_valid (dm_safety (fst (consume_observed r ev now_ns d)))"
    and "snd (consume_observed r ev now_ns d) = command_acceptance.rejected"
    and "dm_consumed_publication (fst (consume_observed r ev now_ns d)) \<le> r"
    and "dm_acknowledged_rejection (fst (consume_observed r ev now_ns d)) = r"
    and "dm_command_handoff (fst (consume_observed r ev now_ns d)) = dm_command_handoff d"
  using assms by (auto simp: consume_observed_def Let_def invalid_snapshot_refused split: if_splits)

lemma newer_event_handed_over:
  assumes "dm_acknowledged_rejection d = r" "dm_consumed_publication d \<le> r" "r < sv_publication ev"
  shows "consume_observed r (Some ev) now_ns d =
    (let (safety, result) = accept_commands (dm_safety d) (sv_snapshot ev) now_ns
     in (d\<lparr>dm_consumed_publication := sv_publication ev, dm_safety := safety\<rparr>, result))"
  using assms by (auto simp: consume_observed_def Let_def)

text \<open>Claim C3.  A rejected snapshot is a barrier for the commands staged before it, in every interleaving of staging
  calls with the owner of the cycle.  Once the owner has acknowledged a rejection, no consuming step accepts a command
  that was staged before that rejection: the stored commands stay as they are, and commands that were invalid stay
  invalid.  A consuming step that sees a new rejection marks the commands invalid and reports a rejection; a command
  staged after the rejection is not lost, since the next consuming step offers its snapshot to the supervisor.  The
  next consuming step may belong to the same cycle of the daemon: nothing is claimed about a complete cycle without
  commands, see \<open>rejection_masked_in_cycle\<close> below.\<close>

theorem rejection_is_barrier:
  assumes "command_steps m (d0, None) (d, pc)" and "command_state d0 = (0, 0, 0, 0, None)"
    and "command_steps n (d, pc) (d', Some r)" and "m + n < 2 ^ 64" and "axis_count (dm_safety d') \<le> kRobotIoMaximumAxes"
    and "consume_observed r (dm_command_handoff d') now_ns d' = (d'', result)"
  shows "(\<forall>ev. dm_command_handoff d' = Some ev \<longrightarrow> sv_publication ev \<le> dm_acknowledged_rejection d \<longrightarrow>
        result \<noteq> command_acceptance.accepted \<and> commands (dm_safety d'') = commands (dm_safety d')
        \<and> (commands_valid (dm_safety d'') \<longrightarrow> commands_valid (dm_safety d')))
    \<and> (r \<noteq> dm_acknowledged_rejection d' \<longrightarrow>
        result = command_acceptance.rejected \<and> \<not> commands_valid (dm_safety d'')
        \<and> (\<forall>ev later. dm_command_handoff d' = Some ev \<longrightarrow> r < sv_publication ev \<longrightarrow>
             dm_safety (fst (consume_observed r (dm_command_handoff d'') later d'')) = fst (accept_commands (dm_safety d'') (sv_snapshot ev) later)
             \<and> snd (consume_observed r (dm_command_handoff d'') later d'') = snd (accept_commands (dm_safety d'') (sv_snapshot ev) later)))"
proof -
  have "counters_ok 0 (d0, None)" using assms(2) by (simp add: counters_ok_def command_state_def)
  then have "counters_ok m (d, pc)" using command_steps_counters [OF assms(1), of 0] assms(4) by simp
  then have mono: "dm_acknowledged_rejection d \<le> dm_acknowledged_rejection d'"
    using command_steps_counters [OF assms(3), of m] assms(4) by simp
  have "result \<noteq> command_acceptance.accepted \<and> commands (dm_safety d'') = commands (dm_safety d')
      \<and> (commands_valid (dm_safety d'') \<longrightarrow> commands_valid (dm_safety d'))"
    if "dm_command_handoff d' = Some ev" "sv_publication ev \<le> dm_acknowledged_rejection d" for ev
    using stale_event_ignored [OF order_trans [OF that(2) mono] assms(5), of r now_ns] assms(6) that(1) by simp
  moreover have "result = command_acceptance.rejected \<and> \<not> commands_valid (dm_safety d'')" if "r \<noteq> dm_acknowledged_rejection d'"
    using rejection_invalidates(1,2) [OF that assms(5), of "dm_command_handoff d'" now_ns] assms(6) by simp
  moreover have "consume_observed r (dm_command_handoff d'') later d'' =
      (let (safety, verdict) = accept_commands (dm_safety d'') (sv_snapshot ev) later
       in (d''\<lparr>dm_consumed_publication := sv_publication ev, dm_safety := safety\<rparr>, verdict))"
    if "r \<noteq> dm_acknowledged_rejection d'" "dm_command_handoff d' = Some ev" "r < sv_publication ev" for ev later
    using rejection_invalidates(3-5) [OF that(1) assms(5), of "dm_command_handoff d'" now_ns] that(2,3) assms(6)
    by (simp add: newer_event_handed_over)
  ultimately show ?thesis by (simp add: split_beta Let_def)
qed

section \<open>A concrete run\<close>

text \<open>A daemon whose supervisors hold the command with sequence 4; a snapshot for too many axes is rejected, then one with
  sequence 5 is accepted.\<close>

definition commanded_daemon :: robot_daemon where
  "commanded_daemon = (make_daemon 7 0 default_options \<lparr>lc_period = 1000000, lc_cpu = 0, lc_priority = 80\<rparr>)
     \<lparr>dm_safety := commanded_supervisor, dm_command_ingress := commanded_supervisor, dm_axis_count := 3,
      dm_accepting_commands := True, dm_running := True\<rparr>"

definition disturbed_daemon :: robot_daemon where
  "disturbed_daemon = fst (daemon_stage_commands 2200 (example_snapshot 5) (fst (daemon_stage_commands 2100 invalid_snapshot commanded_daemon)))"

definition newer_event :: staged_command_event where
  "newer_event = \<lparr>sv_publication = 2, sv_snapshot = example_snapshot 5\<rparr>"

lemma disturbed_simps:
  "command_state commanded_daemon = (0, 0, 0, 0, None)"
  "command_state disturbed_daemon = (2, 0, 0, 1, Some newer_event)"
  "dm_safety disturbed_daemon = commanded_supervisor"
  by (simp add: command_state_def commanded_daemon_def make_daemon_def, code_simp, simp add: disturbed_daemon_def commanded_daemon_def daemon_stage_commands_def Let_def split_beta
      split: command_acceptance.split)

text \<open>The same two snapshots in the other order, after the owner has acknowledged the rejection: the command is stale.\<close>

definition barred_daemon :: robot_daemon where
  "barred_daemon =
     (let d = fst (daemon_stage_commands 2200 invalid_snapshot (fst (daemon_stage_commands 2100 (example_snapshot 5) commanded_daemon)))
      in fst (consume_observed 2 (dm_command_handoff d) 2300 d))"

definition stale_event :: staged_command_event where
  "stale_event = \<lparr>sv_publication = 1, sv_snapshot = example_snapshot 5\<rparr>"

lemma barred_simps:
  "command_state barred_daemon = (2, 0, 2, 2, Some stale_event)"
  "axis_count (dm_safety barred_daemon) = 3"
  by code_simp+

lemma barred_run: "command_steps 2 (commanded_daemon, None) (barred_daemon, Some 2)"
proof -
  let ?d = "fst (daemon_stage_commands 2200 invalid_snapshot (fst (daemon_stage_commands 2100 (example_snapshot 5) commanded_daemon)))"
  have "command_steps 2 (commanded_daemon, None) (?d, None)"
    unfolding numeral_2_eq_2 by (intro steps_stage steps_none)
  moreover have "dm_rejected_publication ?d = 2" by code_simp
  ultimately have "command_steps 2 (commanded_daemon, None) (?d, Some 2)" by (metis steps_load)
  then have "command_steps 2 (commanded_daemon, None) (barred_daemon, None)"
    unfolding barred_daemon_def Let_def by (rule steps_consume)
  from steps_load [OF this] show ?thesis using barred_simps(1) by (simp add: command_state_def)
qed

theorem rejection_is_barrier_witness:
  "(snd (consume_observed 2 (dm_command_handoff barred_daemon) 2400 barred_daemon) \<noteq> command_acceptance.accepted
     \<and> commands (dm_safety (fst (consume_observed 2 (dm_command_handoff barred_daemon) 2400 barred_daemon))) = commands (dm_safety barred_daemon))
   \<and> \<not> commands_valid (dm_safety (fst (consume_observed 1 (dm_command_handoff disturbed_daemon) 2300 disturbed_daemon)))"
proof -
  have "command_steps 2 (commanded_daemon, None) (disturbed_daemon, None)"
    unfolding disturbed_daemon_def numeral_2_eq_2 by (intro steps_stage steps_none)
  then have "command_steps 2 (commanded_daemon, None) (disturbed_daemon, Some (dm_rejected_publication disturbed_daemon))"
    by (rule steps_load)
  then have run: "command_steps 2 (commanded_daemon, None) (disturbed_daemon, Some 1)"
    using disturbed_simps(2) by (simp add: command_state_def)
  have s: "dm_acknowledged_rejection disturbed_daemon = 0" "axis_count (dm_safety disturbed_daemon) \<le> kRobotIoMaximumAxes"
    "dm_acknowledged_rejection barred_daemon = 2" "dm_command_handoff barred_daemon = Some stale_event"
    "axis_count (dm_safety barred_daemon) \<le> kRobotIoMaximumAxes"
    using disturbed_simps barred_simps by (simp_all add: command_state_def commanded_simps(2) kRobotIoMaximumAxes_def)
  have fits: "2 + 0 < (2 ^ 64 :: nat)" "0 + 2 < (2 ^ 64 :: nat)" by simp_all
  show ?thesis
    using rejection_is_barrier [OF barred_run disturbed_simps(1) steps_none fits(1) s(5) prod.collapse [symmetric], of 2400]
      rejection_is_barrier [OF steps_none disturbed_simps(1) run fits(2) s(2) prod.collapse [symmetric], of 2300] s
    by (simp add: stale_event_def)
qed

section \<open>Rejections within one cycle\<close>

text \<open>
  The comments in \<open>refresh_commands_owned\<close> and \<open>consume_staged_commands\<close> promise a complete safe-stop cycle after a
  rejection.  A cycle consumes twice, once when it refreshes the commands and once in the device cycle, and the second
  time hands over a newer command, so that the evaluation of that same cycle sees valid commands again.
\<close>

lemma accept_ignores_valid:
  "snd (accept_commands spv snap now_ns) = command_acceptance.accepted \<Longrightarrow>
   commands_valid (fst (accept_commands (spv\<lparr>commands_valid := False\<rparr>) snap now_ns))"
  by (auto simp: accept_commands_def valid_snapshot_def store_commands_def split: if_splits)

lemma rejection_masked_in_cycle:
  assumes "dm_rejected_publication d \<noteq> dm_acknowledged_rejection d" "dm_command_handoff d = Some ev"
    and "dm_rejected_publication d < sv_publication ev" "axis_count (dm_safety d) \<le> kRobotIoMaximumAxes"
    and "snd (accept_commands (dm_safety d) (sv_snapshot ev) consume_ns) = command_acceptance.accepted"
  shows "snd (refresh_commands_owned refresh_ns d) = command_acceptance.rejected"
    and "commands_valid (dm_safety (fst (consume_staged_commands consume_ns (fst (refresh_commands_owned refresh_ns d)))))"
  using assms accept_ignores_valid [OF assms(5)]
  by (auto simp: refresh_commands_owned_def consume_staged_commands_def consume_observed_def Let_def split_beta
      invalid_snapshot_refused)

text \<open>In the concrete run the rejection leaves no trace in the state that the cycle evaluates.\<close>

lemma rejection_masked:
  "snd (refresh_commands_owned 2300 disturbed_daemon) = command_acceptance.rejected
   \<and> commands_valid (dm_safety (fst (consume_staged_commands 2300 (fst (refresh_commands_owned 2300 disturbed_daemon)))))"
proof -
  have s: "dm_rejected_publication disturbed_daemon = 1" "dm_acknowledged_rejection disturbed_daemon = 0"
    "dm_command_handoff disturbed_daemon = Some newer_event"
    using disturbed_simps(2) by (simp_all add: command_state_def)
  have "snd (accept_commands commanded_supervisor (example_snapshot 5) 2300) = command_acceptance.accepted" by code_simp
  then show ?thesis
    using rejection_masked_in_cycle [of disturbed_daemon newer_event 2300 2300] s
    by (simp add: disturbed_simps(3) commanded_simps(2) kRobotIoMaximumAxes_def newer_event_def)
qed

end
