(* ===== verification/Ethercat_Admission.thy ===== *)
theory Ethercat_Admission
  imports Ethercat_Master
begin

text \<open>
  Cycles entering and leaving the EtherCAT master while another thread opens or closes it.  The step relation takes the
  threads apart at the atomic operations on the admission word: a thread loads the word, is refused or exchanges it, and
  later subtracts one; the closing thread clears the gate, closes the mailboxes, waits for the count and deactivates
  the backend.
\<close>

section \<open>The admission word\<close>

lemma open_bit_exp: "kCycleOpenBit = 2 ^ 63"
  unfolding kCycleOpenBit_def by (rule push_bit_of_1)

lemma unat_open_bit: "unat kCycleOpenBit = 2 ^ 63"
  by (simp add: open_bit_exp)

lemma count_mask: "kCycleCountMask = Bit_Operations.mask 63"
  unfolding kCycleCountMask_def open_bit_exp by (simp add: mask_eq_exp_minus_1)

lemma unat_count_mask: "unat kCycleCountMask = 2 ^ 63 - 1"
proof -
  have "kCycleOpenBit \<noteq> 0" using unat_open_bit by auto
  then show ?thesis unfolding kCycleCountMask_def by (simp add: unat_minus_one unat_open_bit)
qed

lemma unat_count: "unat (w AND kCycleCountMask) = unat w mod 2 ^ 63"
  unfolding count_mask by (simp add: unsigned_take_bit_eq take_bit_nat_def flip: take_bit_eq_mask)

lemma open_bit_iff: "w AND kCycleOpenBit \<noteq> 0 \<longleftrightarrow> 2 ^ 63 \<le> unat (w :: u64)"
proof -
  have lt: "unat w < 2 * 2 ^ 63" using unsigned_less [of w, where ?'a = nat] by simp
  have "w AND kCycleOpenBit \<noteq> 0 \<longleftrightarrow> bit w 63"
    unfolding open_bit_exp and_exp_eq_0_iff_not_bit by simp
  also have "\<dots> \<longleftrightarrow> bit (unat w) 63" by (simp add: bit_unsigned_iff)
  also have "\<dots> \<longleftrightarrow> odd (unat w div 2 ^ 63)" by (rule bit_iff_odd)
  also have "\<dots> \<longleftrightarrow> 2 ^ 63 \<le> unat w"
  proof (cases "2 ^ 63 \<le> unat w")
    case True
    then have "unat w div 2 ^ 63 = 1" using lt by (intro div_nat_eqI) simp_all
    then show ?thesis using True by simp
  qed simp
  finally show ?thesis .
qed

text \<open>A word is a gate and a count.\<close>

definition gate_open :: "u64 \<Rightarrow> bool" where
  "gate_open w \<longleftrightarrow> w AND kCycleOpenBit \<noteq> 0"

definition cycle_count :: "u64 \<Rightarrow> nat" where
  "cycle_count w = unat (w AND kCycleCountMask)"

lemma unat_word_split: "unat w = (if gate_open w then 2 ^ 63 else 0) + cycle_count w"
  using unsigned_less [of w, where ?'a = nat]
  by (auto simp: gate_open_def open_bit_iff cycle_count_def unat_count mod_nat_eqI le_mod_geq)

lemma cycle_count_less: "cycle_count w < 2 ^ 63"
  by (simp add: cycle_count_def unat_count)

lemma word_of_split: "unat w = (if b then 2 ^ 63 else 0) + n \<Longrightarrow> n < 2 ^ 63 \<Longrightarrow> gate_open w = b \<and> cycle_count w = n"
  by (auto simp: gate_open_def open_bit_iff cycle_count_def unat_count)

lemma admission_successor_split:
  assumes "admission_successor w = Some w'"
  shows "gate_open w \<and> gate_open w' \<and> cycle_count w' = cycle_count w + 1"
proof -
  have op: "gate_open w" and nm: "w AND kCycleCountMask \<noteq> kCycleCountMask" and w': "w' = w + 1"
    using assms by (auto simp: admission_successor_def gate_open_def split: if_splits)
  have "cycle_count w \<noteq> unat kCycleCountMask" using nm unsigned_word_eqI [where ?'a = nat] unfolding cycle_count_def by blast
  then have "cycle_count w \<noteq> 2 ^ 63 - 1" by (simp add: unat_count_mask)
  then have lt: "cycle_count w + 1 < 2 ^ 63" using cycle_count_less [of w] by linarith
  then have "unat w + 1 < 2 ^ 64" using unat_word_split [of w] op by simp
  then have "unat w' = unat w + 1" unfolding w' by (simp add: unat_plus_if')
  then show ?thesis using word_of_split [of w' True "cycle_count w + 1"] unat_word_split [of w] op lt by simp
qed

lemma leave_split:
  assumes "cycle_count w > 0"
  shows "gate_open (w - 1) = gate_open w \<and> cycle_count (w - 1) = cycle_count w - 1"
proof -
  have "unat w > 0" using assms unat_word_split [of w] by simp
  then have "unat (w - 1) = unat w - 1" by (intro unat_minus_one) auto
  then show ?thesis
    using word_of_split [of "w - 1" "gate_open w" "cycle_count w - 1"] unat_word_split [of w] assms cycle_count_less [of w]
    by auto
qed

lemma gate_split: "\<not> gate_open (w AND kCycleCountMask)" "cycle_count (w AND kCycleCountMask) = cycle_count w"
  using word_of_split [of "w AND kCycleCountMask" False "cycle_count w"] cycle_count_less [of w]
  by (simp_all add: cycle_count_def)

lemma open_word_split: "gate_open kCycleOpenBit" "cycle_count kCycleOpenBit = 0"
  using word_of_split [of kCycleOpenBit True 0] unat_open_bit by simp_all

section \<open>The system\<close>

datatype cycle_pc = outside | observed u64 | inside

datatype close_pc = closer_idle | gate_closed | draining

record admission_system =
  ad_master :: ethercat_master
  ad_threads :: "nat \<Rightarrow> cycle_pc"
  ad_closer :: close_pc

text \<open>
  The steps.  A weak exchange may fail without reason (\<open>retry\<close>).  A cycle inside may change everything of the master but
  the admission word and the backend's phase (\<open>work\<close>).
\<close>

inductive admission_step :: "admission_system \<Rightarrow> admission_system \<Rightarrow> bool" where
  load: "ad_threads s t = outside \<Longrightarrow>
     admission_step s (s\<lparr>ad_threads := (ad_threads s)(t := observed (xm_cycle_admission (ad_master s)))\<rparr>)"
| refuse: "ad_threads s t = observed v \<Longrightarrow> admission_successor v = None \<Longrightarrow>
     admission_step s (s\<lparr>ad_threads := (ad_threads s)(t := outside)\<rparr>)"
| enter: "ad_threads s t = observed v \<Longrightarrow> xm_cycle_admission (ad_master s) = v \<Longrightarrow> try_enter_cycle (ad_master s) = (m', True) \<Longrightarrow>
     admission_step s (s\<lparr>ad_master := m', ad_threads := (ad_threads s)(t := inside)\<rparr>)"
| retry: "ad_threads s t = observed v \<Longrightarrow>
     admission_step s (s\<lparr>ad_threads := (ad_threads s)(t := observed (xm_cycle_admission (ad_master s)))\<rparr>)"
| work: "ad_threads s t = inside \<Longrightarrow> xm_cycle_admission m' = xm_cycle_admission (ad_master s) \<Longrightarrow>
     xm_backend m' = xm_backend (ad_master s) \<Longrightarrow> admission_step s (s\<lparr>ad_master := m'\<rparr>)"
| leave: "ad_threads s t = inside \<Longrightarrow>
     admission_step s (s\<lparr>ad_master := leave_cycle (ad_master s), ad_threads := (ad_threads s)(t := outside)\<rparr>)"
| reopen: "ad_closer s = closer_idle \<Longrightarrow> admission_step s (s\<lparr>ad_master := fst (master_open (ad_master s) b)\<rparr>)"
| closing: "ad_closer s = closer_idle \<Longrightarrow>
     admission_step s (s\<lparr>ad_master := close_gate (ad_master s),
       ad_closer := (if admission_is_open (ad_master s) then gate_closed else closer_idle)\<rparr>)"
| shutting: "ad_closer s = gate_closed \<Longrightarrow>
     admission_step s (s\<lparr>ad_master := close_mailboxes (ad_master s) settle, ad_closer := draining\<rparr>)"
| drained: "ad_closer s = draining \<Longrightarrow> xm_cycle_admission (ad_master s) AND kCycleCountMask = 0 \<Longrightarrow>
     admission_step s (s\<lparr>ad_master := close_backend (ad_master s), ad_closer := closer_idle\<rparr>)"

inductive admission_reachable :: "admission_system \<Rightarrow> bool" where
  start: "admission_reachable \<lparr>ad_master = make_master has_backend axes, ad_threads = (\<lambda>_. outside), ad_closer = closer_idle\<rparr>"
| step: "admission_reachable s \<Longrightarrow> admission_step s s' \<Longrightarrow> admission_reachable s'"

definition inside_threads :: "admission_system \<Rightarrow> nat set" where
  "inside_threads s = {t. ad_threads s t = inside}"

definition admission_inv :: "admission_system \<Rightarrow> bool" where
  "admission_inv s \<longleftrightarrow>
     (let w = xm_cycle_admission (ad_master s)
      in finite (inside_threads s) \<and> cycle_count w = card (inside_threads s)
       \<and> (gate_open w \<longrightarrow> ad_closer s = closer_idle)
       \<and> (inside_threads s \<noteq> {} \<longrightarrow> gate_open w \<or> ad_closer s \<noteq> closer_idle)
       \<and> (gate_open w \<or> ad_closer s \<noteq> closer_idle \<longrightarrow> xm_backend (ad_master s) = backend_activated))"

lemma inside_threads_update:
  "inside_threads (s\<lparr>ad_threads := (ad_threads s)(t := pc)\<rparr>) =
     (if pc = inside then insert t (inside_threads s) else inside_threads s - {t})"
  "inside_threads (s\<lparr>ad_master := m, ad_threads := (ad_threads s)(t := pc)\<rparr>) =
     (if pc = inside then insert t (inside_threads s) else inside_threads s - {t})"
  "inside_threads (s\<lparr>ad_master := m\<rparr>) = inside_threads s"
  "inside_threads (s\<lparr>ad_master := m, ad_closer := c\<rparr>) = inside_threads s"
  by (auto simp: inside_threads_def)

lemma not_inside: "ad_threads s t \<noteq> inside \<Longrightarrow> inside_threads s - {t} = inside_threads s"
  by (auto simp: inside_threads_def)

text \<open>What opening does to the word and the backend.\<close>

lemma master_open_effect:
  "\<exists>r. master_open m b = (m', r) \<Longrightarrow> (m' = m \<or> \<not> admission_is_open m) \<and>
     (xm_cycle_admission m' = xm_cycle_admission m \<or>
      \<not> admission_is_open m \<and> xm_cycle_admission m' = kCycleOpenBit \<and> xm_backend m' = backend_activated)"
  by (auto simp: master_open_def Let_def split: if_splits sum.splits prod.splits)

lemma admission_inv_start:
  "admission_inv \<lparr>ad_master = make_master has_backend axes, ad_threads = (\<lambda>_. outside), ad_closer = closer_idle\<rparr>"
  using word_of_split [of 0 False 0] by (simp add: admission_inv_def inside_threads_def make_master_def)

lemma admission_inv_step: "admission_step s s' \<Longrightarrow> admission_inv s \<Longrightarrow> admission_inv s'"
proof (induction rule: admission_step.induct)
  case (enter s t v m')
  have sc: "admission_successor (xm_cycle_admission (ad_master s)) = Some (xm_cycle_admission m')"
    and b: "xm_backend m' = xm_backend (ad_master s)"
    using enter by (auto simp: try_enter_cycle_def split: option.splits)
  have "t \<notin> inside_threads s" using enter by (simp add: inside_threads_def)
  then show ?case using enter admission_successor_split [OF sc] b
    by (simp add: admission_inv_def Let_def inside_threads_update)
next
  case (leave s t)
  then have t: "t \<in> inside_threads s" and fin: "finite (inside_threads s)"
    by (simp_all add: inside_threads_def admission_inv_def Let_def)
  then have "cycle_count (xm_cycle_admission (ad_master s)) > 0"
    using leave by (auto simp: admission_inv_def Let_def card_gt_0_iff)
  then show ?case using leave t fin leave_split
    by (auto simp: admission_inv_def Let_def inside_threads_update leave_cycle_def)
next
  case (reopen s b)
  obtain m' r where o: "master_open (ad_master s) b = (m', r)" by fastforce
  show ?case
  proof (cases "m' = ad_master s")
    case False
    then have closed: "\<not> gate_open (xm_cycle_admission (ad_master s))"
      and eff: "xm_cycle_admission m' = xm_cycle_admission (ad_master s)
         \<or> xm_cycle_admission m' = kCycleOpenBit \<and> xm_backend m' = backend_activated"
      using master_open_effect [of "ad_master s" b m'] o by (auto simp: admission_is_open_def gate_open_def)
    then have "inside_threads s = {}" using reopen by (simp add: admission_inv_def Let_def)
    then show ?thesis using reopen closed eff o open_word_split
      by (auto simp: admission_inv_def Let_def inside_threads_update)
  qed (use o reopen in simp)
next
  case (closing s)
  then show ?case using gate_split
    by (simp add: admission_inv_def Let_def inside_threads_update close_gate_def admission_is_open_def flip: gate_open_def)
next
  case (drained s)
  then have "inside_threads s = {}" by (auto simp: admission_inv_def Let_def cycle_count_def)
  then show ?case using drained by (simp add: admission_inv_def Let_def inside_threads_update close_backend_def)
qed (auto simp: admission_inv_def Let_def inside_threads_update not_inside close_mailboxes_def)

lemma admission_reachable_inv: "admission_reachable s \<Longrightarrow> admission_inv s"
  by (induction rule: admission_reachable.induct) (blast intro: admission_inv_start admission_inv_step)+

text \<open>Once the cycles inside have left, the closing thread can go on, and nothing enters before.\<close>

lemma draining_exact:
  assumes "admission_reachable s" and "ad_closer s \<noteq> closer_idle"
  shows "admission_successor (xm_cycle_admission (ad_master s)) = None
    \<and> (xm_cycle_admission (ad_master s) AND kCycleCountMask = 0 \<longleftrightarrow> inside_threads s = {})"
proof -
  note inv = admission_reachable_inv [OF assms(1), unfolded admission_inv_def Let_def]
  have "\<not> gate_open (xm_cycle_admission (ad_master s))" using inv assms(2) by blast
  moreover have "cycle_count (xm_cycle_admission (ad_master s)) = 0 \<longleftrightarrow> inside_threads s = {}" using inv by auto
  ultimately show ?thesis by (simp add: admission_successor_def gate_open_def cycle_count_def unsigned_eq_0_iff)
qed

text \<open>A state with a cycle inside a closing master.\<close>

definition one_axis_master :: ethercat_master where
  "one_axis_master = make_master True [elmo_axis 1 csp]"

definition closing_with_cycle :: admission_system where
  "closing_with_cycle =
     \<lparr>ad_master = close_gate (fst (try_enter_cycle (fst (master_open one_axis_master layout_backend)))),
      ad_threads = (\<lambda>_. outside)(0 := inside), ad_closer = gate_closed\<rparr>"

lemma one_axis_open: "xm_cycle_admission (fst (master_open one_axis_master layout_backend)) = kCycleOpenBit"
  by code_simp

lemma closing_with_cycle_reachable: "admission_reachable closing_with_cycle"
proof -
  define m0 m1 m2 where "m0 = one_axis_master" and "m1 = fst (master_open m0 layout_backend)" and "m2 = fst (try_enter_cycle m1)"
  have e: "try_enter_cycle m1 = (m2, True)"
    by (simp add: m2_def try_enter_cycle_def m1_def m0_def one_axis_open admission_successor_def kCycleCountMask_def kCycleOpenBit_def)
  have o2: "admission_is_open m2"
    using e admission_successor_split [of "xm_cycle_admission m1" "xm_cycle_admission m2"]
    by (auto simp: try_enter_cycle_def admission_is_open_def gate_open_def split: option.splits)
  let ?s = "\<lambda>m pc c. \<lparr>ad_master = m, ad_threads = (\<lambda>_. outside)(0 := pc), ad_closer = c\<rparr>"
  have "admission_reachable (?s m0 outside closer_idle)"
    using start [of True "[elmo_axis 1 csp]"] by (simp add: m0_def one_axis_master_def fun_upd_idem)
  then have "admission_reachable (?s m1 outside closer_idle)"
    using reopen [of "?s m0 outside closer_idle" layout_backend] by (auto simp: m1_def intro: step)
  then have "admission_reachable (?s m1 (observed (xm_cycle_admission m1)) closer_idle)"
    using load [of "?s m1 outside closer_idle" 0] by (auto intro: step)
  then have "admission_reachable (?s m2 inside closer_idle)"
    using enter [of "?s m1 (observed (xm_cycle_admission m1)) closer_idle" 0 _ m2] e by (auto intro: step)
  then have "admission_reachable (?s (close_gate m2) inside gate_closed)"
    using closing [of "?s m2 inside closer_idle"] o2 by (auto intro: step)
  then show ?thesis by (simp add: closing_with_cycle_def m2_def m1_def m0_def)
qed

text \<open>Claim C15.  In every interleaving of cycles with opening and closing, the low 63 bits of the admission word count the
  cycles inside, a cycle inside works on an activated backend, and while the master is closing no further cycle is
  admitted: the backend is deactivated only when the last cycle has left.
\<close>

theorem cycles_use_active_backend:
  assumes "admission_reachable s"
  shows "unat (xm_cycle_admission (ad_master s) AND kCycleCountMask) = card {t. ad_threads s t = inside}
    \<and> (\<forall>t. ad_threads s t = inside \<longrightarrow> xm_backend (ad_master s) = backend_activated)
    \<and> (ad_closer s \<noteq> closer_idle \<longrightarrow> admission_successor (xm_cycle_admission (ad_master s)) = None
        \<and> (xm_cycle_admission (ad_master s) AND kCycleCountMask = 0 \<longleftrightarrow> (\<forall>t. ad_threads s t \<noteq> inside)))"
  using admission_reachable_inv [OF assms] draining_exact [OF assms]
  by (auto simp: admission_inv_def Let_def cycle_count_def inside_threads_def)

theorem cycles_use_active_backend_witness:
  "xm_backend (ad_master closing_with_cycle) = backend_activated
    \<and> admission_successor (xm_cycle_admission (ad_master closing_with_cycle)) = None"
  using cycles_use_active_backend [OF closing_with_cycle_reachable] by (auto simp: closing_with_cycle_def)

end
