(* ===== verification/Ethercat_Master_Props.thy ===== *)
theory Ethercat_Master_Props
  imports Ethercat_Admission
begin

text \<open>
  What a cycle of the EtherCAT master puts on the wire, what opening leaves behind when it fails, and the turn of the
  mailboxes.
\<close>

section \<open>Wiring\<close>

text \<open>
  The axes of an open master as the backend located them: the cells of an axis are separate, the cells it writes fit the
  image, and no axis writes a cell of another.
\<close>

definition outputs_apart :: "pdo_handles list \<Rightarrow> axis_configuration list \<Rightarrow> (nat \<times> pdo_field) list \<Rightarrow> bool" where
  "outputs_apart hs cs cells \<longleftrightarrow> list_all (\<lambda>(h, c). cells_apart (output_cells (ac_mode (xc_axis c)) h) cells) (zip hs cs)"

fun wired :: "pdo_handles list \<Rightarrow> axis_configuration list \<Rightarrow> nat \<Rightarrow> bool" where
  "wired [] [] n \<longleftrightarrow> True"
| "wired (h # hs) (c # cs) n \<longleftrightarrow>
     handles_separate (ac_mode (xc_axis c)) h \<and> cells_fit (output_cells (ac_mode (xc_axis c)) h) n
     \<and> outputs_apart hs cs (output_cells (ac_mode (xc_axis c)) h) \<and> wired hs cs n"
| "wired _ _ n \<longleftrightarrow> False"

lemma wired_lengths: "wired hs cs n \<Longrightarrow> length hs = length cs"
  by (induction hs cs n rule: wired.induct) auto

lemma write_all_outputs_Cons:
  "write_all_outputs (h # hs) (v # vs) (c # cs) enabled img =
     (let img' = fst (write_outputs h img v (ac_mode (xc_axis c)) enabled)
      in (fst (write_all_outputs hs vs cs enabled img'),
          snd (write_outputs h img v (ac_mode (xc_axis c)) enabled) \<and> snd (write_all_outputs hs vs cs enabled img')))"
  by (simp add: Let_def split_beta)

declare write_all_outputs.simps(1) [simp del]

lemma length_write_all_outputs [simp]: "length (fst (write_all_outputs hs vs cs enabled img)) = length img"
proof (induction hs arbitrary: vs cs img)
  case (Cons h hs)
  then show ?case by (cases vs; cases cs) (simp_all add: write_all_outputs_Cons Let_def)
qed simp

lemma outputs_apart_cons [simp]:
  "outputs_apart [] cs cells" "outputs_apart hs [] cells"
  "outputs_apart (h # hs) (c # cs) cells \<longleftrightarrow> cells_apart (output_cells (ac_mode (xc_axis c)) h) cells \<and> outputs_apart hs cs cells"
  by (simp_all add: outputs_apart_def)

lemma cells_apart_member: "cells_apart xs ys \<Longrightarrow> y \<in> set ys \<Longrightarrow> cells_apart xs [y]"
  by (auto simp: cells_apart_def list_all_iff)

lemma outputs_apart_member: "outputs_apart hs cs ys \<Longrightarrow> y \<in> set ys \<Longrightarrow> outputs_apart hs cs [y]"
  unfolding outputs_apart_def list_all_iff by (auto dest: cells_apart_member)

lemma write_all_outputs_apart:
  "outputs_apart hs cs [(LENGTH('b) div 8, g)] \<Longrightarrow>
     field_read g (fst (write_all_outputs hs vs cs enabled img)) = (field_read g img :: 'b::len word option)"
proof (induction hs arbitrary: vs cs img)
  case (Cons h hs)
  then show ?case by (cases vs; cases cs) (simp_all add: write_all_outputs_Cons Let_def write_outputs_apart)
qed simp

lemma write_all_outputs_target:
  assumes "outputs_apart hs cs (output_cells mode h)"
  shows "target_matches mode h (fst (write_all_outputs hs vs cs enabled img)) v = target_matches mode h img v"
proof -
  have "outputs_apart hs cs [(target_width mode, target_field mode h)]"
    using outputs_apart_member [OF assms] by (simp add: output_cells_def)
  then show ?thesis by (cases mode) (simp_all add: write_all_outputs_apart)
qed

lemma write_outputs_result:
  assumes "cells_fit (output_cells mode h) (length img)" and "handles_separate mode h"
  shows "snd (write_outputs h img v mode enabled)
    \<and> field_read (ph_control_word h) (fst (write_outputs h img v mode enabled))
        = Some (control_word (if enabled then v else zero_outputs v))
    \<and> target_matches mode h (fst (write_outputs h img v mode enabled)) (if enabled then v else zero_outputs v)"
  using write_outputs_read [OF assms(1)] assms(2)
  by (cases enabled) (auto simp: handles_separate_def write_outputs_disabled)

lemma write_all_outputs_result:
  assumes "wired hs cs (length img)" and "length vs = length hs" and "i < length hs"
  shows "field_read (ph_control_word (hs ! i)) (fst (write_all_outputs hs vs cs enabled img))
      = Some (control_word (if enabled then vs ! i else zero_outputs (vs ! i)))
    \<and> target_matches (ac_mode (xc_axis (cs ! i))) (hs ! i) (fst (write_all_outputs hs vs cs enabled img))
        (if enabled then vs ! i else zero_outputs (vs ! i))"
  using assms
proof (induction hs arbitrary: vs cs img i)
  case (Cons h hs)
  obtain v vs' c cs' where vs: "vs = v # vs'" and cs: "cs = c # cs'"
    using Cons.prems wired_lengths [OF Cons.prems(1)] by (metis length_Suc_conv list.size(4) add.commute plus_1_eq_Suc)
  let ?mode = "ac_mode (xc_axis c)" and ?img = "fst (write_outputs h img v (ac_mode (xc_axis c)) enabled)"
  have w: "cells_fit (output_cells ?mode h) (length img)" "handles_separate ?mode h"
      "outputs_apart hs cs' (output_cells ?mode h)" "wired hs cs' (length ?img)"
    using Cons.prems(1) by (simp_all add: cs)
  show ?case
  proof (cases i)
    case 0
    have "outputs_apart hs cs' [(2, ph_control_word h)]"
      using outputs_apart_member [OF w(3)] by (simp add: output_cells_def)
    then show ?thesis
      using write_outputs_result [OF w(1,2), of v enabled] write_all_outputs_target [OF w(3)]
      unfolding vs cs 0 write_all_outputs_Cons Let_def fst_conv nth_Cons_0 by (simp add: write_all_outputs_apart)
  next
    case (Suc j)
    then show ?thesis using Cons.IH [OF w(4), of vs' j] Cons.prems(2,3)
      unfolding vs cs write_all_outputs_Cons Let_def by (cases enabled) simp_all
  qed
qed simp

lemma write_all_outputs_written: "wired hs cs (length img) \<Longrightarrow> snd (write_all_outputs hs vs cs enabled img)"
proof (induction hs arbitrary: vs cs img)
  case (Cons h hs)
  then show ?case by (cases vs; cases cs) (simp_all add: write_all_outputs_Cons Let_def write_outputs_result)
qed simp

section \<open>The image of a cycle\<close>

lemma length_read_all_inputs [simp]: "length (fst (read_all_inputs hs img vs)) = length vs"
proof (induction hs arbitrary: vs)
  case (Cons h hs)
  then show ?case by (cases vs) (simp_all add: Let_def split_beta)
qed simp

text \<open>A handler keeps the number of views and the size of the image: both are spans of fixed length.\<close>

definition keeps_lengths :: "'s handlers \<Rightarrow> bool" where
  "keeps_lengths hs \<longleftrightarrow>
     (\<forall>img d v s. length (fst (hd_process_image hs img d v s)) = length img)
     \<and> (\<forall>vs s. length (fst (hd_cycle hs vs s)) = length vs)
     \<and> (\<forall>vs d v s. length (fst (hd_supervised hs vs d v s)) = length vs)"

lemma try_enter_fields:
  assumes "try_enter_cycle m = (m', b)"
  shows "m' = m\<lparr>xm_cycle_admission := xm_cycle_admission m'\<rparr>"
  using assms by (auto simp: try_enter_cycle_def split: option.splits)

lemma length_cycle_inputs: "length (fst (cycle_inputs m domain img)) = length (xm_pdo_views m)"
  by (simp add: cycle_inputs_def Let_def)

lemma length_run_handlers:
  assumes "keeps_lengths hs"
  shows "length (fst (run_handlers hs m domain img views valid s)) = length img"
    and "length (fst (snd (run_handlers hs m domain img views valid s))) = length views"
  using assms by (simp_all add: run_handlers_def Let_def keeps_lengths_def split_beta)

text \<open>The valid flag implies that the outputs are passed on.\<close>

lemma valid_inputs_enable:
  "snd (cycle_inputs m domain img) \<Longrightarrow> healthy_domain domain \<or> xm_supervised_cycle_handler m \<noteq> None"
  by (auto simp: cycle_inputs_def Let_def split: if_splits)

lemma cycle_parts_word [simp]:
  "cycle_inputs (m\<lparr>xm_cycle_admission := w\<rparr>) = cycle_inputs m"
  "run_handlers hs (m\<lparr>xm_cycle_admission := w\<rparr>) = run_handlers hs m"
  "cycle_mailboxes cancel transfer (m\<lparr>xm_cycle_admission := w\<rparr>) = cycle_mailboxes cancel transfer m"
  unfolding cycle_inputs_def run_handlers_def cycle_mailboxes_def fun_eq_iff by (auto simp: Let_def)

text \<open>A cycle that is admitted, in its stages.\<close>

lemma master_cycle_stages:
  assumes "master_cycle hs cancel transfer domain img m s = (m', Some img', s')"
  shows "admission_successor (xm_cycle_admission m) \<noteq> None \<and> xm_has_backend m
    \<and> (\<exists>img1. run_handlers hs m domain img (fst (cycle_inputs m domain img)) (snd (cycle_inputs m domain img)) s
               = (img1, xm_pdo_views m', s')
         \<and> img' = fst (write_all_outputs (xm_pdo_handles m) (xm_pdo_views m') (xm_axes m) (snd (cycle_inputs m domain img)) img1))
    \<and> xm_pdo_handles m' = xm_pdo_handles m \<and> xm_axes m' = xm_axes m"
proof -
  obtain w where w: "admission_successor (xm_cycle_admission m) = Some w" and b: "xm_has_backend m"
    using assms by (auto simp: master_cycle_def try_enter_cycle_def split: option.splits if_splits)
  then have e: "try_enter_cycle m = (m\<lparr>xm_cycle_admission := w\<rparr>, True)" by (simp add: try_enter_cycle_def)
  obtain views1 valid where i: "cycle_inputs m domain img = (views1, valid)" by fastforce
  obtain img1 views3 s3 where r: "run_handlers hs m domain img views1 valid s = (img1, views3, s3)" by (metis prod_cases3)
  have en: "(healthy_domain domain \<and> valid \<or> xm_supervised_cycle_handler m \<noteq> None \<and> valid) = valid"
    using valid_inputs_enable [of m domain img] i by auto
  show ?thesis
    using assms b unfolding master_cycle_def e
    by (auto simp: i r en [unfolded not_None_eq] w Let_def split_beta leave_cycle_def)
qed

lemma healthy_domain_link: "healthy_domain d \<Longrightarrow> dh_link_up d"
  by (simp add: healthy_domain_def)

lemma cycle_outputs:
  assumes "master_cycle hs cancel transfer domain img m s = (m', Some img', s')" and "keeps_lengths hs"
    and "wired (xm_pdo_handles m) (xm_axes m) (length img)" and "length (xm_pdo_views m) = length (xm_pdo_handles m)"
    and "i < length (xm_pdo_handles m)"
  defines "view \<equiv> (if snd (cycle_inputs m domain img) then xm_pdo_views m' ! i else zero_outputs (xm_pdo_views m' ! i))"
  shows "field_read (ph_control_word (xm_pdo_handles m ! i)) img' = Some (control_word view)
    \<and> target_matches (ac_mode (xc_axis (xm_axes m ! i))) (xm_pdo_handles m ! i) img' view"
proof -
  obtain img1 where r: "run_handlers hs m domain img (fst (cycle_inputs m domain img)) (snd (cycle_inputs m domain img)) s
       = (img1, xm_pdo_views m', s')"
    and img': "img' = fst (write_all_outputs (xm_pdo_handles m) (xm_pdo_views m') (xm_axes m) (snd (cycle_inputs m domain img)) img1)"
    using master_cycle_stages [OF assms(1)] by blast
  have "length img1 = length img" "length (xm_pdo_views m') = length (xm_pdo_views m)"
    using length_run_handlers [OF assms(2), of m domain img "fst (cycle_inputs m domain img)" "snd (cycle_inputs m domain img)" s]
      r length_cycle_inputs [of m domain img] by simp_all
  then show ?thesis
    using write_all_outputs_result [of "xm_pdo_handles m" "xm_axes m" img1 "xm_pdo_views m'" i "snd (cycle_inputs m domain img)"] assms(3-5)
    unfolding img' view_def by simp
qed

section \<open>Opening\<close>

lemma validate_axes_ok:
  assumes "validate_axes cs addresses = Inr u"
  shows "list_all (\<lambda>c. valid_static_mode (ac_mode (xc_axis c))
      \<and> list_all (\<lambda>p. sd_data p \<noteq> [] \<and> \<not> static_mode_object (sd_address p)) (xc_startup_parameters c)) cs
    \<and> distinct (map axis_slave cs) \<and> set (map axis_slave cs) \<inter> set addresses = {}"
  using assms
proof (induction cs arbitrary: addresses)
  case (Cons c cs)
  then have rest: "validate_axes cs (axis_slave c # addresses) = Inr u" and new: "axis_slave c \<notin> set addresses"
    and ok: "valid_static_mode (ac_mode (xc_axis c))"
      "list_all (\<lambda>p. sd_data p \<noteq> [] \<and> \<not> static_mode_object (sd_address p)) (xc_startup_parameters c)"
    by (auto simp: Let_def failure_def list_all_iff list_ex_iff split: if_splits)
  show ?case using Cons.IH [OF rest] new ok by simp
qed simp

lemma configure_axes_bound: "configure_axes b cs = Inr hs \<Longrightarrow> list_all2 (handles_bound b) cs hs"
proof (induction cs arbitrary: hs)
  case (Cons c cs)
  then show ?case by (auto simp: success_def split: sum.splits dest: configure_axis_bound)
qed (simp add: success_def)

lemma open_mailboxes_success:
  "open_mailboxes g ms = (ms', n, Inr u) \<Longrightarrow> g \<noteq> 0 \<Longrightarrow> list_all (\<lambda>m. em_open_generation m = g) ms' \<and> length ms' = length ms"
proof (induction ms arbitrary: ms' n)
  case (Cons m ms)
  then show ?case
    by (auto simp: open_for_parent_def failure_def Let_def split: sum.splits prod.splits if_splits)
qed simp

lemma reset_closed: "em_open_generation (reset_after_parent_deactivate m) = 0"
  by (simp add: reset_after_parent_deactivate_def)

text \<open>Binding fields stops at the first that the backend refuses: those before it are bound, the others as they were.\<close>

lemma bind_fields_prefix:
  "\<exists>k \<le> length fs. list_all if_bound (take k (fst (bind_fields b fs))) \<and> drop k (fst (bind_fields b fs)) = drop k fs
     \<and> (has_value (snd (bind_fields b fs)) \<longrightarrow> k = length fs)"
proof (induction fs)
  case (Cons f fs)
  then obtain k where k: "k \<le> length fs" "list_all if_bound (take k (fst (bind_fields b fs)))"
    "drop k (fst (bind_fields b fs)) = drop k fs" "has_value (snd (bind_fields b fs)) \<longrightarrow> k = length fs" by blast
  show ?case
  proof (cases "bk_bind_pdo_entry b (if_slave f) (if_address f) (if_bit_length f)")
    case (Inl e)
    then show ?thesis by (intro exI [of _ 0]) (simp add: has_value_def)
  next
    case (Inr location)
    then show ?thesis using k by (intro exI [of _ "Suc k"]) (auto simp: Let_def split_beta)
  qed
qed simp

lemma length_bind_fields [simp]: "length (fst (bind_fields b fs)) = length fs"
  by (induction fs) (auto simp: Let_def split_beta split: sum.splits)

lemma bind_fields_all:
  assumes "bind_fields b fs = (located, Inr u)"
  shows "list_all if_bound located"
proof -
  obtain k where "k \<le> length fs" "list_all if_bound (take k located)" "has_value (Inr u :: unit result) \<longrightarrow> k = length fs"
    using bind_fields_prefix [of fs b] assms by auto
  then show ?thesis using length_bind_fields [of b fs] assms by (simp add: has_value_def)
qed

lemma master_open_success:
  assumes "master_open m b = (m', Inr u)"
  shows "\<exists>g n. next_parent_generation (xm_next_generation m) = (g, xm_next_generation m')
    \<and> validate_axes (xm_axes m) [] = Inr () \<and> configure_axes b (xm_axes m) = Inr (xm_pdo_handles m')
    \<and> bind_fields b (xm_process_image_fields m) = (xm_process_image_fields m', Inr ())
    \<and> open_mailboxes g (xm_mailboxes m) = (xm_mailboxes m', n, Inr ())
    \<and> xm_cycle_admission m' = kCycleOpenBit \<and> xm_backend m' = backend_activated
    \<and> xm_active_generation m' = g \<and> xm_generation m' = g \<and> xm_axes m' = xm_axes m
    \<and> length (xm_pdo_views m') = length (xm_pdo_views m)
    \<and> xm_supervised_cycle_handler m' = xm_supervised_cycle_handler m \<and> xm_cycle_handler m' = xm_cycle_handler m
    \<and> xm_process_image_handler m' = xm_process_image_handler m \<and> xm_has_backend m' = xm_has_backend m
    \<and> xm_cycle_handler_context m' = xm_cycle_handler_context m"
  using assms
  by (auto simp: master_open_def validate_configuration_def Let_def failure_def split: if_splits sum.splits prod.splits)

lemma master_open_failure:
  assumes "master_open m b = (m', Inl e)"
  shows "xm_cycle_admission m' = xm_cycle_admission m \<and> (xm_backend m' = xm_backend m \<or> xm_backend m' = backend_released)
    \<and> xm_active_generation m' = xm_active_generation m
    \<and> (xm_mailboxes m' = xm_mailboxes m \<or> list_all (\<lambda>box. em_open_generation box = 0) (xm_mailboxes m'))
    \<and> (xm_process_image_fields m' = xm_process_image_fields m
       \<or> xm_process_image_fields m' = fst (bind_fields b (xm_process_image_fields m)))
    \<and> xm_next_generation m' \<in> {xm_next_generation m, snd (next_parent_generation (xm_next_generation m))}"
  using assms
  by (auto simp: master_open_def Let_def success_def list_all_iff reset_closed split: if_splits sum.splits prod.splits)

lemma next_parent_generation_nonzero: "next_parent_generation n = (g, following) \<Longrightarrow> g \<noteq> 0"
  by (auto simp: next_parent_generation_def split: if_splits)

text \<open>The counter only moves forward, so that a generation that was handed out is not handed out again until it wraps.\<close>

lemma next_parent_generation_advances:
  assumes "next_parent_generation n = (g, following)" "unat n + 2 < 2 ^ 64"
  shows "n \<le> g \<and> g < following \<and> unat following \<le> unat n + 2"
  using assms by (auto simp: next_parent_generation_def word_le_nat_alt word_less_nat_alt unat_word_ariths split: if_splits)

text \<open>Claim C17.  Opening a released master either succeeds or leaves it closed.  On success the gate is open with no
  cycle inside, the backend is activated, every axis has a valid mode, its own slave and cells bound to its objects, every
  registered field is bound, and every mailbox is open for the new generation.  That generation is not zero, not less than
  the counter of generations was, and less than the counter is now, as long as the counter does not wrap, so that it differs
  from every generation of an earlier opening.  On any failure the backend is released, the gate and every mailbox are
  closed and the counter has not moved backwards; only the registered fields that were bound before the failure stay bound,
  a prefix of them, and the others are as they were.
\<close>

theorem open_all_or_nothing:
  assumes "\<not> admission_is_open m" and "xm_backend m = backend_released" and "list_all (\<lambda>box. em_open_generation box = 0) (xm_mailboxes m)"
    and "unat (xm_next_generation m) + 2 < 2 ^ 64"
  shows "case master_open m b of
      (m', Inl e) \<Rightarrow> \<not> admission_is_open m' \<and> xm_backend m' = backend_released
        \<and> list_all (\<lambda>box. em_open_generation box = 0) (xm_mailboxes m') \<and> xm_active_generation m' = xm_active_generation m
        \<and> xm_next_generation m \<le> xm_next_generation m'
        \<and> (\<exists>k. drop k (xm_process_image_fields m') = drop k (xm_process_image_fields m)
             \<and> (xm_process_image_fields m' = xm_process_image_fields m \<or> list_all if_bound (take k (xm_process_image_fields m'))))
    | (m', Inr _) \<Rightarrow> xm_cycle_admission m' = kCycleOpenBit \<and> xm_backend m' = backend_activated
        \<and> list_all2 (handles_bound b) (xm_axes m) (xm_pdo_handles m')
        \<and> list_all (\<lambda>c. valid_static_mode (ac_mode (xc_axis c))) (xm_axes m) \<and> distinct (map axis_slave (xm_axes m))
        \<and> list_all if_bound (xm_process_image_fields m')
        \<and> xm_active_generation m' \<noteq> 0 \<and> xm_next_generation m \<le> xm_active_generation m'
        \<and> xm_active_generation m' < xm_next_generation m' \<and> xm_generation m' = xm_active_generation m'
        \<and> list_all (\<lambda>box. em_open_generation box = xm_active_generation m') (xm_mailboxes m')"
proof (cases "master_open m b")
  case (Pair m' r)
  show ?thesis
  proof (cases r)
    case (Inl e)
    note f = master_open_failure [of m b m' e] Pair [unfolded Inl]
    obtain g following where n: "next_parent_generation (xm_next_generation m) = (g, following)" by fastforce
    then have "xm_next_generation m \<le> following" using next_parent_generation_advances [OF n assms(4)] by auto
    then have "xm_next_generation m \<le> xm_next_generation m'" using f n by auto
    moreover have "\<exists>k. drop k (xm_process_image_fields m') = drop k (xm_process_image_fields m)
        \<and> (xm_process_image_fields m' = xm_process_image_fields m \<or> list_all if_bound (take k (xm_process_image_fields m')))"
      using f bind_fields_prefix [of "xm_process_image_fields m" b] by metis
    ultimately show ?thesis
      using f assms Pair Inl by (auto simp: admission_is_open_def list_all_iff reset_closed)
  next
    case (Inr u)
    obtain g n where g: "next_parent_generation (xm_next_generation m) = (g, xm_next_generation m')" "validate_axes (xm_axes m) [] = Inr ()"
      "configure_axes b (xm_axes m) = Inr (xm_pdo_handles m')" "bind_fields b (xm_process_image_fields m) = (xm_process_image_fields m', Inr ())"
      "open_mailboxes g (xm_mailboxes m) = (xm_mailboxes m', n, Inr ())" "xm_cycle_admission m' = kCycleOpenBit"
      "xm_backend m' = backend_activated" "xm_active_generation m' = g" "xm_generation m' = g"
      using master_open_success [of m b m' u] Pair Inr by blast
    note step = next_parent_generation_nonzero [OF g(1)] next_parent_generation_advances [OF g(1) assms(4)]
    have "list_all (\<lambda>c. valid_static_mode (ac_mode (xc_axis c))) (xm_axes m)" "distinct (map axis_slave (xm_axes m))"
      using validate_axes_ok [OF g(2)] by (auto simp: list_all_iff)
    moreover have "list_all (\<lambda>box. em_open_generation box = g) (xm_mailboxes m')" using open_mailboxes_success [OF g(5) step(1)] by simp
    ultimately show ?thesis
      using step configure_axes_bound [OF g(3)] bind_fields_all [OF g(4)] unfolding Pair Inr prod.case sum.case g(6-9) by blast
  qed
qed

theorem open_all_or_nothing_witness:
  "xm_backend (fst (master_open one_axis_master layout_backend)) = backend_activated
   \<and> xm_backend (fst (master_open one_axis_master (layout_backend\<lparr>bk_activate := failure io ''no link''\<rparr>))) = backend_released"
proof -
  have state: "\<not> admission_is_open one_axis_master" "xm_backend one_axis_master = backend_released"
    "list_all (\<lambda>box. em_open_generation box = 0) (xm_mailboxes one_axis_master)" "xm_next_generation one_axis_master = 1" by code_simp+
  have fits: "unat (xm_next_generation one_axis_master) + 2 < 2 ^ 64" unfolding state(4) by simp
  note pre = state(1-3) fits
  have "has_value (snd (master_open one_axis_master layout_backend))"
    "\<not> has_value (snd (master_open one_axis_master (layout_backend\<lparr>bk_activate := failure io ''no link''\<rparr>)))" by code_simp+
  then show ?thesis
    using open_all_or_nothing [OF pre, of layout_backend]
      open_all_or_nothing [OF pre, of "layout_backend\<lparr>bk_activate := failure io ''no link''\<rparr>"]
    by (simp add: has_value_def split: prod.splits sum.splits)
qed

lemma read_all_inputs_iff:
  "length vs = length hs \<Longrightarrow> snd (read_all_inputs hs img vs) \<longleftrightarrow> list_all (\<lambda>h. cells_fit (input_cells h) (length img)) hs"
proof (induction hs arbitrary: vs)
  case (Cons k hs)
  then show ?case by (cases vs) (auto simp: Let_def split_beta read_inputs_total)
qed simp

text \<open>When the inputs of a cycle are valid.\<close>

lemma cycle_inputs_valid:
  assumes "length (xm_pdo_views m) = length (xm_pdo_handles m)"
  shows "snd (cycle_inputs m domain img) \<longleftrightarrow>
     dh_link_up domain \<and> (healthy_domain domain \<or> xm_supervised_cycle_handler m \<noteq> None)
     \<and> list_all (\<lambda>h. cells_fit (input_cells h) (length img)) (xm_pdo_handles m)"
  using read_all_inputs_iff [OF assms, of img] healthy_domain_link [of domain]
  by (auto simp: cycle_inputs_def Let_def)

text \<open>Claim C14.  For axes whose bound cells fit the image and do not overlap, and handlers that keep the sizes of the spans they
  are given: the image a cycle sends carries, for every axis, the control word and the target that the handlers left in the
  axis's view exactly when the link is up, the domain is healthy or a supervised handler is installed, and every input of
  every axis lies within the image; in every other case it carries zeros, whatever the image held and whatever the other
  axes are.
\<close>

theorem cycle_gates_outputs:
  assumes "master_cycle hs cancel transfer domain img m s = (m', Some img', s')" and "keeps_lengths hs"
    and "wired (xm_pdo_handles m) (xm_axes m) (length img)" and "length (xm_pdo_views m) = length (xm_pdo_handles m)"
    and "i < length (xm_pdo_handles m)"
  shows "let pass = (dh_link_up domain \<and> (healthy_domain domain \<or> xm_supervised_cycle_handler m \<noteq> None)
        \<and> list_all (\<lambda>h. cells_fit (input_cells h) (length img)) (xm_pdo_handles m));
      view = xm_pdo_views m' ! i
    in field_read (ph_control_word (xm_pdo_handles m ! i)) img' = Some (if pass then control_word view else 0)
      \<and> target_matches (ac_mode (xc_axis (xm_axes m ! i))) (xm_pdo_handles m ! i) img' (if pass then view else zero_outputs view)"
proof -
  have "control_word (zero_outputs v) = 0" for v by (simp add: zero_outputs_def)
  then show ?thesis
    using cycle_outputs [OF assms] unfolding Let_def cycle_inputs_valid [OF assms(4), symmetric]
    by (cases "snd (cycle_inputs m domain img)") auto
qed

definition two_axis_master :: ethercat_master where
  "two_axis_master =
     fst (master_open (fst (set_cycle_handler (make_master True [elmo_axis 0 csp, elmo_axis 1 cst]) (Some 1) 0)) layout_backend)"

definition powering_handlers :: "unit handlers" where
  "powering_handlers = \<lparr>hd_process_image = (\<lambda>img _ _ s. (img, s)), hd_cycle = (\<lambda>vs s. (map (\<lambda>v. v\<lparr>control_word := 15\<rparr>) vs, s)),
     hd_supervised = (\<lambda>vs _ _ s. (vs, s))\<rparr>"

definition example_domain :: "bool \<Rightarrow> domain_health" where
  "example_domain up = \<lparr>dh_working_counter = 6, dh_expected_working_counter = Some 6, dh_working_counter_complete = True,
     dh_link_up = up, dh_all_slaves_operational = True, dh_dc_deviation_ns = 0, dh_operational_axes_mask = 3\<rparr>"

definition example_exchange :: "bool \<Rightarrow> ethercat_master \<times> bytes option \<times> unit" where
  "example_exchange up = master_cycle powering_handlers (\<lambda>_. None) (\<lambda>_ _. None) (example_domain up) (replicate 48 7) two_axis_master ()"

theorem cycle_gates_outputs_witness:
  "field_read (ph_control_word (xm_pdo_handles two_axis_master ! 1)) (the (fst (snd (example_exchange False)))) = Some (0 :: u16)
   \<and> field_read (ph_control_word (xm_pdo_handles two_axis_master ! 1)) (the (fst (snd (example_exchange True)))) = Some (15 :: u16)"
proof -
  have pre: "keeps_lengths powering_handlers" by (simp add: keeps_lengths_def powering_handlers_def)
  have "let m = two_axis_master in wired (xm_pdo_handles m) (xm_axes m) (length (replicate 48 (7 :: u8)))
     \<and> length (xm_pdo_views m) = length (xm_pdo_handles m) \<and> 1 < length (xm_pdo_handles m)" by code_simp
  then have "wired (xm_pdo_handles two_axis_master) (xm_axes two_axis_master) (length (replicate 48 (7 :: u8)))"
    "length (xm_pdo_views two_axis_master) = length (xm_pdo_handles two_axis_master)"
    "1 < length (xm_pdo_handles two_axis_master)" by simp_all
  note inst = cycle_gates_outputs [OF _ pre this, unfolded Let_def cycle_inputs_valid [OF this(2), symmetric]]
  have sent: "example_exchange up = (fst (example_exchange up), Some (the (fst (snd (example_exchange up)))), snd (snd (example_exchange up)))"
    if "fst (snd (example_exchange up)) \<noteq> None" for up using that by (simp add: prod_eq_iff)
  have down: "let m = two_axis_master; r = master_cycle powering_handlers (\<lambda>_. None) (\<lambda>_ _. None) (example_domain False) (replicate 48 7) m ()
     in fst (snd r) \<noteq> None \<and> \<not> snd (cycle_inputs m (example_domain False) (replicate 48 7))" by code_simp
  have up: "let m = two_axis_master; r = master_cycle powering_handlers (\<lambda>_. None) (\<lambda>_ _. None) (example_domain True) (replicate 48 7) m ()
     in fst (snd r) \<noteq> None \<and> snd (cycle_inputs m (example_domain True) (replicate 48 7))
       \<and> control_word (xm_pdo_views (fst r) ! 1) = 15" by code_simp
  have "fst (snd (example_exchange False)) \<noteq> None" "fst (snd (example_exchange True)) \<noteq> None"
    "\<not> snd (cycle_inputs two_axis_master (example_domain False) (replicate 48 7))"
    "snd (cycle_inputs two_axis_master (example_domain True) (replicate 48 7))"
    "control_word (xm_pdo_views (fst (example_exchange True)) ! 1) = 15"
    using down up unfolding Let_def example_exchange_def by blast+
  then show ?thesis
    using inst [OF sent [unfolded example_exchange_def], of False] inst [OF sent [unfolded example_exchange_def], of True]
    unfolding example_exchange_def by simp
qed

end
