(* ===== verification/St3215_Bus_Examples.thy ===== *)
theory St3215_Bus_Examples
  imports St3215_Bus_Claims
begin

text \<open>
  A bus with two servos at work: concrete instances of the properties of the bus.
\<close>

definition example_servo_config :: "u8 \<Rightarrow> string \<Rightarrow> servo_config" where
  "example_servo_config device_id name = \<lparr>sc_name = name, sc_device_id = device_id, sc_servo_id = ucast device_id,
     sc_max_position_units = 4095, sc_speed_units = 0, sc_time_units = 0, sc_feedback_timeout_ms = 250,
     sc_command_timeout_ns = 250000000, sc_maximum_command_future_ns = 50000000\<rparr>"

definition example_servos :: "servo list" where
  "example_servos = map make_servo [example_servo_config 1 ''left'', example_servo_config 2 ''right'']"

definition example_process :: process where
  "example_process = \<lparr>pr_schedulers = \<lambda>_. \<lparr>ts_assignments = \<lambda>_. None\<rparr>, pr_ports = {}\<rparr>"

definition idle_bus :: bus where
  "idle_bus = fst (add_servo (fst (add_servo (make_bus (make_serial example_serial_config) 7 1000000) example_servos (Some 0)))
     example_servos (Some 1))"

definition example_bus :: bus where
  "example_bus = fst (bus_start idle_bus True 0 example_calls 1000 example_process)"

text \<open>A port that takes a whole request and has nothing to read, and one that has an answer to read.\<close>

definition silent_port :: kernel where
  "silent_port = \<lparr>k_writes = [wrote 64], k_polls = [poll_expired], k_reads = [], k_remaining = [0]\<rparr>"

definition answering_port :: "bytes \<Rightarrow> kernel" where
  "answering_port answer = \<lparr>k_writes = [wrote 64], k_polls = [poll_ready False False True False],
     k_reads = [received answer], k_remaining = [0, 0]\<rparr>"

definition step_bus :: "bus \<times> servo list \<Rightarrow> int \<times> kernel \<Rightarrow> bus \<times> servo list" where
  "step_bus x step = (case bus_cycle (fst x) (snd x) (fst step) (snd step) of Some (b, servos, _) \<Rightarrow> (b, servos) | None \<Rightarrow> x)"

lemma radians_zero: "radians_to_position_units (Fin 0) 4095 = success 0"
proof -
  have w: "wrap_angle (Fin 0) = Fin 0" by (rule wrap_angle_inside) (simp_all add: pi_double_def)
  have "fround f64 0 = Fin 0" by (simp add: fround_def rval_def f64_def)
  then show ?thesis
    unfolding radians_to_position_units_def w tau_value
    by (simp add: Let_def fdiv_def fmul_def fsub_def round_half_even_def fclamp_def u16_double_def u16_rat_def pi_double_def truncate_rat_def feq_def)
qed

text \<open>The bus and its states are reached by histories.\<close>

lemma idle_history: "bus_history idle_bus example_servos [] []"
proof -
  have m: "bus_history (make_bus (make_serial example_serial_config) 7 1000000) example_servos [] []"
    unfolding example_servos_def by (rule made)
  show ?thesis unfolding idle_bus_def by (rule added [OF added [OF m]]) (simp_all add: example_servos_def)
qed

lemma example_history: "bus_history example_bus example_servos [] []"
  unfolding example_bus_def by (rule started [OF idle_history])

lemma history_ok: "bus_history b servos outs acc \<Longrightarrow> bus_ok b servos"
  using history_invariant by (simp add: history_inv_def)

lemma step_history:
  assumes "bus_history (fst x) (snd x) outs acc" "bus_cycle (fst x) (snd x) now k \<noteq> None"
  shows "\<exists>outs'. bus_history (fst (step_bus x (now, k))) (snd (step_bus x (now, k))) outs' acc"
  using assms cycled by (fastforce simp: step_bus_def)

lemma example_ok: "bus_ok example_bus example_servos" by (rule history_ok [OF example_history])

text \<open>A servo that answers within the step that asks it.\<close>

definition prompt_step :: "bus \<times> servo list" where
  "prompt_step = step_bus (example_bus, example_servos) (1000000, answering_port (status_packet 1 0 []))"

lemma prompt_history: "\<exists>outs. bus_history (fst prompt_step) (snd prompt_step) outs []"
proof -
  have "bus_cycle example_bus example_servos 1000000 (answering_port (status_packet 1 0 [])) \<noteq> None" by code_simp
  then show ?thesis unfolding prompt_step_def using step_history [of "(example_bus, example_servos)"] example_history by simp
qed

lemma prompt_feedback:
  "case prompt_step of (b, servos) \<Rightarrow>
     (case bus_cycle b servos 2000000 silent_port of
        None \<Rightarrow> False
      | Some (b', servos', k', out) \<Rightarrow>
          (case so_feedback (servos' ! 0) of
             None \<Rightarrow> False
           | Some fb \<Rightarrow> so_feedback (servos ! 0) \<noteq> Some fb \<and> 0 < length servos \<and> vf_flags fb AND kSt3215FeedbackValid \<noteq> 0))"
  by code_simp

theorem valid_feedback_authentic_witness:
  "\<exists>fb. authentic (snd prompt_step) (fst prompt_step) (sb_pending_index (fst prompt_step)) 2000000 fb"
proof -
  obtain outs where h: "bus_history (fst prompt_step) (snd prompt_step) outs []" using prompt_history by blast
  obtain b servos where p: "prompt_step = (b, servos)" by fastforce
  note pf = prompt_feedback [unfolded p prod.case]
  then have "bus_cycle b servos 2000000 silent_port \<noteq> None" by (cases "bus_cycle b servos 2000000 silent_port") simp_all
  then obtain b' servos' k' out where c: "bus_cycle b servos 2000000 silent_port = Some (b', servos', k', out)"
    by (metis option.exhaust prod_cases4)
  then obtain fb where f: "so_feedback (servos' ! 0) = Some fb" "so_feedback (servos ! 0) \<noteq> Some fb" "0 < length servos"
      "vf_flags fb AND kSt3215FeedbackValid \<noteq> 0"
    using pf by (cases "so_feedback (servos' ! 0)") simp_all
  have "replaced servos servos' 0 fb" using f by (simp add: replaced_def)
  then show ?thesis using valid_feedback_authentic [OF history_ok [OF h], unfolded p fst_conv snd_conv, OF c] f(4)
    unfolding p by auto
qed

lemma example_bus_facts:
  "sb_running example_bus \<and> sb_servos example_bus \<noteq> [] \<and> \<not> sb_fault_latched example_bus \<and> \<not> sb_dispatched example_bus
   \<and> device_of example_servos (sb_servos example_bus ! ((next_position example_bus + 1) mod length (sb_servos example_bus))) = 2"
  by code_simp

lemma two_cycles:
  "case bus_cycles example_bus example_servos [(1000000, silent_port), (2000000, silent_port)] of
     None \<Rightarrow> False
   | Some (b', servos', outs) \<Rightarrow> \<not> sb_fault_latched b' \<and> 1 < length outs \<and> 3 \<le> length (outs ! 1)"
  by code_simp

theorem bus_serves_in_turn_witness:
  "\<exists>b' servos' outs. bus_cycles example_bus example_servos [(1000000, silent_port), (2000000, silent_port)] = Some (b', servos', outs)
     \<and> outs ! 1 ! 2 = 2"
proof -
  obtain b' servos' outs where c: "bus_cycles example_bus example_servos [(1000000, silent_port), (2000000, silent_port)] = Some (b', servos', outs)"
    and f: "\<not> sb_fault_latched b'" "1 < length outs" "3 \<le> length (outs ! 1)"
    using two_cycles by (cases "bus_cycles example_bus example_servos [(1000000, silent_port), (2000000, silent_port)]") auto
  have "outs ! 1 ! 2 = 2"
    using bus_serves_in_turn [OF example_ok _ _ c, of 1] f example_bus_facts by simp
  then show ?thesis using c by blast
qed

text \<open>A command staged for servo 1 goes out as a goal frame.\<close>

definition example_goal :: servo_command where
  "example_goal = \<lparr>vc_sequence = 1, vc_timestamp_ns = 900000, vc_target_position_rad = Fin 0, vc_enabled = True,
     vc_emergency_stop = False, vc_reserved = replicate 6 0\<rparr>"

definition commanded_servos :: "servo list" where
  "commanded_servos = example_servos[0 := fst (stage_command (example_servos ! 0) example_goal 950000)]"

lemma commanded_history: "bus_history example_bus commanded_servos [] [0]"
proof -
  have "snd (stage_command (example_servos ! 0) example_goal 950000) = accepted" by code_simp
  then have "stage_command (example_servos ! 0) example_goal 950000
      = (fst (stage_command (example_servos ! 0) example_goal 950000), accepted)" by (metis prod.collapse)
  from staged [OF example_history _ this] show ?thesis by (simp add: commanded_servos_def example_servos_def)
qed

lemma commanded_cycle:
  "\<exists>b' servos' k'. bus_cycle example_bus commanded_servos 1000000 silent_port = Some (b', servos', k', goal_position_command 1 0 0 0)"
proof -
  let ?b = "bus_refresh (example_bus\<lparr>sb_cycle_sequence := sb_cycle_sequence example_bus + 1, sb_cursor := 0\<rparr>) commanded_servos 0 1000000"
  have "case sb_servos ?b ! 0 of r \<Rightarrow> send_goal r \<and> vc_target_position_rad (rt_command r) = Fin 0 \<and> rt_servo r = 0"
    "so_config (commanded_servos ! 0) = example_servo_config 1 ''left''"
    by code_simp+
  then have rt: "send_goal (sb_servos ?b ! 0)" "vc_target_position_rad (rt_command (sb_servos ?b ! 0)) = Fin 0"
    "rt_servo (sb_servos ?b ! 0) = 0" "so_config (commanded_servos ! 0) = example_servo_config 1 ''left''"
    by simp_all
  have cr: "choose_request (so_config (commanded_servos ! rt_servo (sb_servos ?b ! 0))) (sb_servos ?b ! 0)
      = success ((sb_servos ?b ! 0)\<lparr>rt_goal_dispatched := True, rt_goal_sequence := vc_sequence (rt_command (sb_servos ?b ! 0))\<rparr>,
                 goal_position_command 1 0 0 0)"
    using rt by (simp add: choose_request_def example_servo_config_def radians_zero)
  let ?w = "serial_write (sb_transport example_bus) 0 (goal_position_command 1 0 0 0)"
  have "case ?w of (t, r) \<Rightarrow> r = success () \<and>
     (case serial_cycle t silent_port of None \<Rightarrow> False | Some (t2, k2, out) \<Rightarrow> out = goal_position_command 1 0 0 0)"
    by code_simp
  moreover obtain t r where w: "?w = (t, r)" by fastforce
  ultimately have t: "?w = (t, success ())"
    and "case serial_cycle t silent_port of None \<Rightarrow> False | Some (t2, k2, out) \<Rightarrow> out = goal_position_command 1 0 0 0" by simp_all
  then obtain t2 k2 where c: "serial_cycle t silent_port = Some (t2, k2, goal_position_command 1 0 0 0)"
    by (cases "serial_cycle t silent_port") auto
  have tr: "sb_transport (set_runtime ?b 0 x) = sb_transport example_bus" for x by (simp add: set_runtime_def)
  obtain b3 where "send_request ?b commanded_servos 0 silent_port = Some (b3, success (), k2, goal_position_command 1 0 0 0)"
    using cr t c tr by (simp add: send_request_def Let_def)
  then have d: "dispatch_request ?b commanded_servos 0 1000000 silent_port = Some (b3, commanded_servos, k2, goal_position_command 1 0 0 0)"
    by (simp add: dispatch_request_def)
  have e: "sb_running example_bus" "sb_servos example_bus \<noteq> []" "\<not> sb_fault_latched example_bus" "\<not> sb_dispatched example_bus"
    using example_bus_facts by simp_all
  have "\<not> (\<not> sb_running example_bus \<or> sb_servos example_bus = [])" using e by simp
  then show ?thesis using e(3,4) d unfolding bus_cycle_def by (simp only: if_not_P if_False) (simp add: Let_def)
qed

lemma example_goal_frame: "is_goal_for 1 (goal_position_command 1 0 0 0)" by code_simp

theorem goal_carries_live_command_witness:
  "\<exists>r < length (sb_servos example_bus). live commanded_servos (sb_servos example_bus ! r)
     \<and> vc_enabled (current_command commanded_servos (sb_servos example_bus ! r))"
proof -
  obtain b' servos' k' where c: "bus_cycle example_bus commanded_servos 1000000 silent_port = Some (b', servos', k', goal_position_command 1 0 0 0)"
    using commanded_cycle by blast
  show ?thesis
    using goal_carries_live_command [OF history_ok [OF commanded_history] c example_goal_frame] unfolding Let_def by blast
qed

theorem goal_frames_bounded_witness:
  "\<exists>b servos outs. bus_history b servos outs [0] \<and> filter (is_goal_for 1) outs \<noteq> []
     \<and> (\<forall>rt \<in> set (sb_servos b). length (filter (is_goal_for (device_of servos rt)) outs) \<le> count_list [0] (rt_servo rt))"
proof -
  obtain b' servos' k' where c: "bus_cycle example_bus commanded_servos 1000000 silent_port = Some (b', servos', k', goal_position_command 1 0 0 0)"
    using commanded_cycle by blast
  have h: "bus_history b' servos' [goal_position_command 1 0 0 0] [0]" by (rule cycled [OF commanded_history c])
  show ?thesis
    by (rule exI [of _ b'], rule exI [of _ servos'], rule exI [of _ "[goal_position_command 1 0 0 0]"], intro conjI ballI h)
      (simp add: example_goal_frame, rule goal_frames_bounded [OF h])
qed

end
