(* ===== verification/St3215_Registry_Props.thy ===== *)
theory St3215_Registry_Props
  imports St3215_Registry St3215_Bus_Examples
begin

text \<open>
  The registry starts all of its buses or none and gives back what it claimed, stages a snapshot for every servo or
  for none, and reports to the safety supervisor exactly the servos whose feedback is faulty.
\<close>

section \<open>Starting and stopping\<close>

definition idle :: "bus \<Rightarrow> bool" where
  "idle b \<longleftrightarrow> \<not> sb_running b \<and> sb_scheduler b = None \<and> \<not> si_opened (sb_transport b)"

lemma serial_open_failure:
  "\<not> si_opened t \<Longrightarrow> serial_open t ports calls = (t', ports', Inl e) \<Longrightarrow> t' = t \<and> ports' = ports"
  by (auto simp: serial_open_def failure_def success_def Let_def
      split: if_splits open_result.splits option.splits sum.splits)

lemma serial_open_close:
  "\<not> si_opened t \<Longrightarrow> serial_open t ports calls = (t', ports', Inr u) \<Longrightarrow>
     snd (serial_close t' ports') = ports \<and> \<not> si_opened (fst (serial_close t' ports'))"
  by (auto simp: serial_open_def serial_close_def failure_def success_def Let_def
      split: if_splits open_result.splits option.splits sum.splits)

lemma process_eq: "p\<lparr>pr_schedulers := pr_schedulers p, pr_ports := pr_ports p\<rparr> = (p :: process)" by simp

lemma bus_start_failure:
  assumes i: "idle b" and s: "bus_start b lf sched calls now p = (b', p', Inl e)"
  shows "p' = p" "idle b'"
proof -
  have "p' = p \<and> idle b'"
  proof (cases "sb_running b \<or> sb_servos b = [] \<or> sb_service_period b \<le> 0 \<or> sb_service_period b > 1000000000 \<or> \<not> lf")
    case True
    then show ?thesis using s i by (auto simp: bus_start_def split: if_splits)
  next
    case False
    obtain sc r where a: "scheduler_add (pr_schedulers p sched) (sb_address b) blocking_event_driven = (sc, r)" by fastforce
    obtain t ports ro where o: "serial_open (sb_transport b) (pr_ports p) calls = (t, ports, ro)" by (metis prod_cases3)
    show ?thesis
    proof (cases r)
      case (Inl x)
      then show ?thesis using s i False a by (auto simp: bus_start_def)
    next
      case (Inr x)
      then obtain y where ro: "ro = Inl y" using s False a o by (cases ro) (auto simp: bus_start_def success_def)
      have "t = sb_transport b \<and> ports = pr_ports p" using serial_open_failure [OF _ o [unfolded ro]] i by (simp add: idle_def)
      moreover have "scheduler_remove sc (sb_address b) = (pr_schedulers p sched, success ())"
        using scheduler_add_remove [of "pr_schedulers p sched" "sb_address b" blocking_event_driven sc] a Inr by (simp add: success_def)
      ultimately show ?thesis using s i False a o Inr ro by (auto simp: bus_start_def)
    qed
  qed
  then show "p' = p" "idle b'" by simp_all
qed

lemma bus_start_success:
  assumes i: "idle b" and s: "bus_start b lf sched calls now p = (b', p', Inr u)"
  shows "snd (bus_stop_on b' sched p') = p" "idle (fst (bus_stop_on b' sched p'))" "sb_running b'"
proof -
  have c: "\<not> (sb_running b \<or> sb_servos b = [] \<or> sb_service_period b \<le> 0 \<or> sb_service_period b > 1000000000)" "lf"
    using s by (auto simp: bus_start_def failure_def split: if_splits)
  obtain sc r where a: "scheduler_add (pr_schedulers p sched) (sb_address b) blocking_event_driven = (sc, r)" by fastforce
  obtain t ports ro where o: "serial_open (sb_transport b) (pr_ports p) calls = (t, ports, ro)" by (metis prod_cases3)
  obtain x y where r: "r = Inr x" "ro = Inr y" using s c a o by (cases r; cases ro) (auto simp: bus_start_def)
  have b': "b' = b\<lparr>sb_transport := t, sb_scheduler := Some sched, sb_health := healthy, sb_started_ns := now, sb_running := True\<rparr>"
    and p': "p' = p\<lparr>pr_schedulers := (pr_schedulers p)(sched := sc), pr_ports := ports\<rparr>"
    using s c a o r by (auto simp: bus_start_def)
  have cl: "snd (serial_close t ports) = pr_ports p" "\<not> si_opened (fst (serial_close t ports))"
    using serial_open_close [OF _ o [unfolded r(2)]] i by (simp_all add: idle_def)
  have rm: "scheduler_remove sc (sb_address b) = (pr_schedulers p sched, success ())"
    using scheduler_add_remove [of "pr_schedulers p sched" "sb_address b" blocking_event_driven sc] a r(1) by (simp add: success_def)
  show "snd (bus_stop_on b' sched p') = p" "idle (fst (bus_stop_on b' sched p'))" "sb_running b'"
    using cl rm by (auto simp: bus_stop_on_def bus_stop_def b' p' idle_def split: prod.splits)
qed

lemma start_buses_failure:
  "start_buses es i lf sched env p = (es', p', Inl err) \<Longrightarrow> (\<forall>e \<in> set es. idle (be_bus e)) \<Longrightarrow>
     p' = p \<and> (\<forall>e \<in> set es'. idle (be_bus e))"
proof (induction es i lf sched env p arbitrary: es' p' err rule: start_buses.induct)
  case (2 e es i lf sched env p)
  have ie: "idle (be_bus e)" using "2.prems"(2) by simp
  obtain b p1 r where s: "bus_start (be_bus e) lf sched (fst (env i)) (snd (env i)) p = (b, p1, r)" by (metis prod_cases3)
  show ?case
  proof (cases r)
    case (Inl x)
    then show ?thesis using "2.prems" s bus_start_failure [OF ie s [unfolded Inl]] by auto
  next
    case (Inr x)
    obtain es1 p2 r2 where t: "start_buses es (i + 1) lf sched env p1 = (es1, p2, r2)" by (metis prod_cases3)
    then obtain y where r2: "r2 = Inl y" using "2.prems"(1) s Inr by (cases r2) (auto simp: success_def)
    have p2: "p2 = p1" "\<forall>e \<in> set es1. idle (be_bus e)"
      using "2.IH" [OF s [symmetric] refl Inr t [unfolded r2]] "2.prems"(2) by auto
    then show ?thesis using "2.prems"(1) s Inr t r2 bus_start_success(1,2) [OF ie s [unfolded Inr]]
      by (auto split: prod.splits)
  qed
qed (simp add: success_def)

lemma start_buses_success:
  "start_buses es i lf sched env p = (es', p', Inr u) \<Longrightarrow> (\<forall>e \<in> set es. idle (be_bus e)) \<Longrightarrow>
     snd (stop_buses (\<lambda>b. bus_stop_on b sched) es' p') = p
     \<and> (\<forall>e \<in> set (fst (stop_buses (\<lambda>b. bus_stop_on b sched) es' p')). idle (be_bus e)) \<and> (\<forall>e \<in> set es'. sb_running (be_bus e))"
proof (induction es i lf sched env p arbitrary: es' p' u rule: start_buses.induct)
  case (2 e es i lf sched env p)
  have ie: "idle (be_bus e)" using "2.prems"(2) by simp
  obtain b p1 r where s: "bus_start (be_bus e) lf sched (fst (env i)) (snd (env i)) p = (b, p1, r)" by (metis prod_cases3)
  then obtain x where r: "r = Inr x" using "2.prems"(1) by (cases r) auto
  obtain es1 p2 r2 where t: "start_buses es (i + 1) lf sched env p1 = (es1, p2, r2)" by (metis prod_cases3)
  then obtain y where r2: "r2 = Inr y" using "2.prems"(1) s r by (cases r2) (auto split: prod.splits)
  have es': "es' = e\<lparr>be_bus := b\<rparr> # es1" "p' = p2" using "2.prems"(1) s r t r2 by auto
  note IH = "2.IH" [OF s [symmetric] refl r t [unfolded r2]]
  show ?case using IH "2.prems"(2) es' bus_start_success [OF ie s [unfolded r]] by (auto split: prod.splits)
qed simp

text \<open>The registry starts every bus or none and keeps nothing it should not: when starting fails, the serial
  ports the process has claimed and all scheduler assignments are exactly as before and every bus is closed; after
  a successful start every bus runs, and stopping the registry returns the ports and assignments to what they were
  before the start and closes every bus.\<close>

lemma registry_start_all_or_nothing:
  assumes "\<forall>e \<in> set (rg_buses g). idle (be_bus e)" and "registry_start g lf sched env p = (g', p', r)"
    and "rg_configured g" "\<not> rg_running g" "rg_scheduler g = None"
  shows "(r \<noteq> success () \<longrightarrow> p' = p \<and> \<not> rg_running g' \<and> (\<forall>e \<in> set (rg_buses g'). idle (be_bus e)))
    \<and> (r = success () \<longrightarrow> rg_running g' \<and> (\<forall>e \<in> set (rg_buses g'). sb_running (be_bus e))
         \<and> snd (registry_stop g' p') = p \<and> (\<forall>e \<in> set (rg_buses (fst (registry_stop g' p'))). idle (be_bus e)))"
proof -
  obtain es p1 r1 where s: "start_buses (rg_buses g) 0 lf sched env p = (es, p1, r1)" by (metis prod_cases3)
  show ?thesis
  proof (cases r1)
    case (Inl e)
    then have "g' = g\<lparr>rg_buses := es\<rparr>" "p' = p1" "r = Inl e" using assms(2-5) s by (auto simp: registry_start_def)
    then show ?thesis using start_buses_failure [OF s [unfolded Inl] assms(1)] assms(4) by simp
  next
    case (Inr u)
    then have "g' = g\<lparr>rg_buses := es, rg_scheduler := Some sched, rg_running := True\<rparr>" "p' = p1" "r = success ()"
      using assms(2-5) s by (auto simp: registry_start_def)
    then show ?thesis using start_buses_success [OF s [unfolded Inr] assms(1)]
      by (auto simp: registry_stop_def split: prod.splits)
  qed
qed

section \<open>Staging a snapshot\<close>

lemma lock_unlock: "\<not> so_command_gate s \<Longrightarrow> unlock_command (s\<lparr>so_command_gate := True\<rparr>) = s"
  by (simp add: unlock_command_def)

lemma lock_servos_cases:
  "lock_servos ss = (ss', ok) \<Longrightarrow>
     (ok \<longrightarrow> (\<forall>s \<in> set ss. \<not> so_command_gate s) \<and> ss' = map (\<lambda>s. s\<lparr>so_command_gate := True\<rparr>) ss) \<and> (\<not> ok \<longrightarrow> ss' = ss)"
proof (induction ss arbitrary: ss' ok)
  case (Cons s ss)
  obtain ss1 ok1 where r: "lock_servos ss = (ss1, ok1)" by fastforce
  show ?case using Cons.prems Cons.IH [OF r] r
    by (cases "so_command_gate s"; cases ok1) (auto simp: try_lock_command_def lock_unlock)
qed simp

lemma inspect_gate: "inspect_command (s\<lparr>so_command_gate := g\<rparr>) c now = inspect_command s c now"
  by (cases s) (simp only: inspect_command_def servo.select_convs servo.update_convs)

text \<open>A snapshot of commands is staged for every servo or for none.  When it is accepted, every servo has
  accepted its own command of the snapshot, all with the snapshot's sequence and time stamp, and no other thread held
  a gate; when it is not, no servo changes at all, gates included.\<close>

lemma stage_commands_all_or_nothing:
  assumes "stage_commands g snapshot now = (g', a)"
  shows "(a = accepted \<longrightarrow>
      length (rg_servos g') = length (rg_servos g) \<and> unat (sn_axis_count snapshot) = length (rg_servos g)
      \<and> (\<forall>i < length (rg_servos g). inspect_command (rg_servos g ! i) (sn_axes snapshot ! i) now = accepted
           \<and> rg_servos g' ! i = commit_command (rg_servos g ! i) (sn_axes snapshot ! i)
           \<and> vc_sequence (sn_axes snapshot ! i) = sn_sequence snapshot
           \<and> vc_timestamp_ns (sn_axes snapshot ! i) = sn_timestamp_ns snapshot))
    \<and> (a \<noteq> accepted \<longrightarrow> g' = g)"
proof -
  let ?ss = "rg_servos g"
  let ?n = "length ?ss"
  define bad where "bad \<longleftrightarrow> unat (sn_axis_count snapshot) \<noteq> ?n \<or> ?ss = [] \<or> sn_timestamp_ns snapshot < 0 \<or> sn_timestamp_ns snapshot > now
    \<or> (\<exists>i \<in> set [0..<?n]. vc_sequence (sn_axes snapshot ! i) \<noteq> sn_sequence snapshot \<or> vc_timestamp_ns (sn_axes snapshot ! i) \<noteq> sn_timestamp_ns snapshot)"
  obtain ss1 ok where l: "lock_servos ?ss = (ss1, ok)" by fastforce
  note lc = lock_servos_cases [OF l]
  show ?thesis
  proof (cases "bad \<or> \<not> ok")
    case True
    then have "g' = g \<and> a = rejected" using assms l lc by (auto simp: stage_commands_def bad_def Let_def split: if_splits)
    then show ?thesis by simp
  next
    case False
    then have ss1: "ss1 = map (\<lambda>s. s\<lparr>so_command_gate := True\<rparr>) ?ss" and open_gates: "\<forall>s \<in> set ?ss. \<not> so_command_gate s" using lc by auto
    have ins: "inspect_command (ss1 ! i) c now = inspect_command (?ss ! i) c now" if "i < ?n" for i c
      using that by (simp add: ss1 inspect_gate)
    have n: "0 < ?n" using False by (auto simp: bad_def)
    define first where "first = inspect_command (?ss ! 0) (sn_axes snapshot ! 0) now"
    define uniform where "uniform \<longleftrightarrow> first \<noteq> rejected \<and> (\<forall>i \<in> set [1..<?n]. inspect_command (?ss ! i) (sn_axes snapshot ! i) now = first)"
    have g': "g' = g\<lparr>rg_servos := map unlock_command (if uniform \<and> first = accepted
        then map (\<lambda>i. commit_command (ss1 ! i) (sn_axes snapshot ! i)) [0..<?n] else ss1)\<rparr>"
      and a: "a = (if uniform then first else rejected)"
      using assms l False n by (auto simp: stage_commands_def bad_def Let_def ins first_def uniform_def)
    have un: "map unlock_command ss1 = ?ss" using open_gates by (simp add: ss1 lock_unlock map_idI)
    show ?thesis
    proof (cases "uniform \<and> first = accepted")
      case True
      have "inspect_command (?ss ! i) (sn_axes snapshot ! i) now = accepted" if "i < ?n" for i
        using True that by (cases i) (auto simp: uniform_def first_def)
      moreover have "rg_servos g' ! i = commit_command (?ss ! i) (sn_axes snapshot ! i)" if "i < ?n" for i
      proof -
        have "\<not> so_command_gate (?ss ! i)" using open_gates that by simp
        then show ?thesis using that True by (simp add: g' ss1 unlock_command_def commit_command_def)
      qed
      ultimately show ?thesis using True False a by (auto simp: g' bad_def)
    next
      case nu: False
      then have "a \<noteq> accepted" using a by auto
      moreover have "g' = g" using nu g' un by (auto split: if_splits)
      ultimately show ?thesis by simp
    qed
  qed
qed

section \<open>The safety summary\<close>

definition faulty :: "int \<Rightarrow> servo \<Rightarrow> bool" where
  "faulty now s \<longleftrightarrow> vf_flags (servo_feedback_now s now) AND kFaultFlags \<noteq> 0"

definition summary_of :: "int \<Rightarrow> u32 \<Rightarrow> servo list \<Rightarrow> registry_safety" where
  "summary_of now c servos =
     foldl (add_servo_safety now)
       \<lparr>rs_servo_count = c, rs_fault_count = 0, rs_fault_mask = 0, rs_aggregate_flags = 0, rs_flags = replicate kMaximumSt3215Servos 0\<rparr>
       (enumerate 0 servos)"

lemma summary_snoc: "summary_of now c (ss @ [s]) = add_servo_safety now (summary_of now c ss) (length ss, s)"
  by (simp add: summary_of_def enumerate_append_eq)

lemma summary_exact:
  "length ss \<le> 32 \<Longrightarrow>
     (\<forall>i. bit (rs_fault_mask (summary_of now c ss)) i \<longleftrightarrow> i < length ss \<and> faulty now (ss ! i))
     \<and> rs_fault_count (summary_of now c ss) = word_of_nat (length (filter (faulty now) ss))
     \<and> length (rs_flags (summary_of now c ss)) = 32
     \<and> (\<forall>i < length ss. rs_flags (summary_of now c ss) ! i = vf_flags (servo_feedback_now (ss ! i) now))
     \<and> (\<forall>j. bit (rs_aggregate_flags (summary_of now c ss)) j \<longleftrightarrow> (\<exists>s \<in> set ss. bit (vf_flags (servo_feedback_now s now)) j))
     \<and> rs_servo_count (summary_of now c ss) = c"
proof (induction ss rule: rev_induct)
  case Nil
  then show ?case by (simp add: summary_of_def kMaximumSt3215Servos_def)
next
  case (snoc s ss)
  let ?r = "summary_of now c ss"
  have l: "length ss < 32" using snoc.prems by simp
  have IH: "\<forall>i. bit (rs_fault_mask ?r) i \<longleftrightarrow> i < length ss \<and> faulty now (ss ! i)"
     "rs_fault_count ?r = word_of_nat (length (filter (faulty now) ss))" "length (rs_flags ?r) = 32"
     "\<forall>i < length ss. rs_flags ?r ! i = vf_flags (servo_feedback_now (ss ! i) now)"
     "\<forall>j. bit (rs_aggregate_flags ?r) j \<longleftrightarrow> (\<exists>s \<in> set ss. bit (vf_flags (servo_feedback_now s now)) j)"
     "rs_servo_count ?r = c"
    using snoc.IH l by simp_all
  have fields:
    "rs_fault_mask (summary_of now c (ss @ [s])) = (if faulty now s then rs_fault_mask ?r OR push_bit (length ss) 1 else rs_fault_mask ?r)"
    "rs_fault_count (summary_of now c (ss @ [s])) = (if faulty now s then rs_fault_count ?r + 1 else rs_fault_count ?r)"
    "rs_flags (summary_of now c (ss @ [s])) = (rs_flags ?r)[length ss := vf_flags (servo_feedback_now s now)]"
    "rs_aggregate_flags (summary_of now c (ss @ [s])) = rs_aggregate_flags ?r OR vf_flags (servo_feedback_now s now)"
    "rs_servo_count (summary_of now c (ss @ [s])) = rs_servo_count ?r"
    by (simp_all add: summary_snoc add_servo_safety_def faulty_def Let_def)
  have "bit (rs_fault_mask (summary_of now c (ss @ [s]))) i \<longleftrightarrow> i < length (ss @ [s]) \<and> faulty now ((ss @ [s]) ! i)" for i
    using IH(1) l by (cases "i = length ss"; cases "i < length ss") (auto simp: fields nth_append bit_simps)
  then show ?case using IH(2-6) l by (auto simp: fields nth_append nth_list_update bit_or_iff less_Suc_eq)
qed

lemma safety_snapshot_summary: "safety_snapshot g now = summary_of now (word_of_nat (length (rg_servos g))) (rg_servos g)"
  by (simp add: safety_snapshot_def summary_of_def)

text \<open>The safety summary is exact for a registry of up to 32 servos: bit i of the fault mask is set precisely when
  servo i's feedback, judged at the given time, is stale, timed out, or reports an I/O, protocol or device error; the
  fault count is the number of such servos, the flags are listed per servo, and the aggregate is their union.\<close>

theorem safety_snapshot_exact:
  assumes "length (rg_servos g) \<le> 32"
  shows "(\<forall>i. bit (rs_fault_mask (safety_snapshot g now)) i \<longleftrightarrow>
        i < length (rg_servos g) \<and> vf_flags (registry_feedback g i now) AND kFaultFlags \<noteq> 0)
    \<and> rs_fault_count (safety_snapshot g now) = word_of_nat (length (filter (faulty now) (rg_servos g)))
    \<and> (\<forall>i < length (rg_servos g). rs_flags (safety_snapshot g now) ! i = vf_flags (registry_feedback g i now))
    \<and> (\<forall>j. bit (rs_aggregate_flags (safety_snapshot g now)) j \<longleftrightarrow> (\<exists>i < length (rg_servos g). bit (vf_flags (registry_feedback g i now)) j))"
proof -
  note e = summary_exact [OF assms, of now "word_of_nat (length (rg_servos g))", folded safety_snapshot_summary]
  have f: "registry_feedback g i now = servo_feedback_now (rg_servos g ! i) now" if "i < length (rg_servos g)" for i
    using that by (simp add: registry_feedback_def)
  have b: "(\<exists>s \<in> set (rg_servos g). P s) = (\<exists>i < length (rg_servos g). P (rg_servos g ! i))" for P by (metis in_set_conv_nth)
  show ?thesis using e by (auto simp: f faulty_def b cong: conj_cong)
qed

end
