(* ===== verification/Daemon_Props.thy ===== *)
theory Daemon_Props
  imports Daemon_Commands Ethercat_Master_Props St3215_Registry_Props
begin

text \<open>
  Whole cycles of the daemon: from the process image that arrives to the image that is sent.  A cycle consumes the
  staged commands, evaluates the supervisor on the received inputs and the state of the serial devices, and lets the
  axes act on the decisions; the lemmas follow one axis through these stages and a whole run through its cycles.
\<close>

section \<open>The device cycle\<close>

text \<open>The supervisor and the bus state that a device cycle evaluates.\<close>

definition evaluated_supervisor :: "int \<Rightarrow> int \<Rightarrow> robot_daemon \<Rightarrow> safety_supervisor" where
  "evaluated_supervisor consume_ns now_ns d =
     (let s = dm_safety (fst (consume_staged_commands consume_ns d))
      in if dm_stop_requested d then request_shutdown s now_ns else s)"

definition evaluated_bus :: "int \<Rightarrow> domain_health \<Rightarrow> bool \<Rightarrow> robot_daemon \<Rightarrow> safety_bus_state" where
  "evaluated_bus now_ns domain valid d =
     (safety_bus_state_of domain valid)\<lparr>external_stop_axes_mask := serial_stop_mask d (safety_snapshot (dm_registry d) now_ns)\<rparr>"

lemma consume_frame [simp]:
  "dm_registry (fst (consume_staged_commands t d)) = dm_registry d"
  "dm_serial_axis_stop_masks (fst (consume_staged_commands t d)) = dm_serial_axis_stop_masks d"
  "dm_stop_requested (fst (consume_staged_commands t d)) = dm_stop_requested d"
  "dm_axis_count (fst (consume_staged_commands t d)) = dm_axis_count d" "dm_axes (fst (consume_staged_commands t d)) = dm_axes d"
  "dm_running (fst (consume_staged_commands t d)) = dm_running d" "dm_master (fst (consume_staged_commands t d)) = dm_master d"
  "dm_cycle_owner_token (fst (consume_staged_commands t d)) = dm_cycle_owner_token d"
  "dm_standalone_pdos (fst (consume_staged_commands t d)) = dm_standalone_pdos d"
  "dm_loop (fst (consume_staged_commands t d)) = dm_loop d" "dm_configured (fst (consume_staged_commands t d)) = dm_configured d"
  by (auto simp: consume_staged_commands_def consume_observed_def Let_def split_beta split: option.splits if_splits)

lemma supervisor_accept_frame:
  "axis_count (fst (accept_commands spv snap t)) = axis_count spv" "configured (fst (accept_commands spv snap t)) = configured spv"
  "states (fst (accept_commands spv snap t)) = states spv" "options (fst (accept_commands spv snap t)) = options spv"
  "shutdown_requested (fst (accept_commands spv snap t)) = shutdown_requested spv"
  "configs (fst (accept_commands spv snap t)) = configs spv"
  "supervisor_shape spv \<Longrightarrow> supervisor_shape (fst (accept_commands spv snap t))"
  by (simp_all add: accept_commands_def store_commands_def supervisor_shape_def)

lemma consume_safety:
  "\<exists>snap t'. dm_safety (fst (consume_staged_commands t d)) = dm_safety d
     \<or> dm_safety (fst (consume_staged_commands t d)) = fst (accept_commands (dm_safety d) snap t')"
  by (auto simp: consume_staged_commands_def consume_observed_def Let_def split_beta split: option.splits if_splits)

lemma consume_supervisor:
  assumes "dm_safety (fst (consume_staged_commands t d)) = s"
  shows "axis_count s = axis_count (dm_safety d)" "configured s = configured (dm_safety d)" "states s = states (dm_safety d)"
    "options s = options (dm_safety d)" "shutdown_requested s = shutdown_requested (dm_safety d)"
    "supervisor_shape (dm_safety d) \<Longrightarrow> supervisor_shape s" "configs s = configs (dm_safety d)"
  using consume_safety [of t d] assms by (auto simp: supervisor_accept_frame)

lemma supervisor_shutdown_frame:
  "axis_count (request_shutdown s t) = axis_count s" "configured (request_shutdown s t) = configured s"
  "states (request_shutdown s t) = states s" "options (request_shutdown s t) = options s"
  "shutdown_requested (request_shutdown s t)" "supervisor_shape (request_shutdown s t) = supervisor_shape s"
  "configs (request_shutdown s t) = configs s"
  by (simp_all add: request_shutdown_def supervisor_shape_def)

lemma evaluated_supervisor_frame:
  assumes "evaluated_supervisor consume_ns now_ns d = s"
  shows "axis_count s = axis_count (dm_safety d)" "configured s = configured (dm_safety d)" "states s = states (dm_safety d)"
    "options s = options (dm_safety d)" "shutdown_requested s = (shutdown_requested (dm_safety d) \<or> dm_stop_requested d)"
    "supervisor_shape (dm_safety d) \<Longrightarrow> supervisor_shape s" "configs s = configs (dm_safety d)"
  unfolding assms [symmetric] evaluated_supervisor_def Let_def
  by (simp_all add: supervisor_shutdown_frame consume_supervisor [of consume_ns d, OF refl])

lemma evaluate_devices_frame:
  assumes "evaluate_devices now_ns pdos domain valid d = (d2, dec)"
  shows "dm_axis_count d2 = dm_axis_count d" "dm_axes d2 = dm_axes d" "dm_running d2 = dm_running d"
    "dm_stop_requested d2 = dm_stop_requested d" "dm_cycle_owner_token d2 = dm_cycle_owner_token d"
    "dm_standalone_pdos d2 = dm_standalone_pdos d" "dm_master d2 = dm_master d" "dm_registry d2 = dm_registry d"
    "dm_configured d2 = dm_configured d"
  using assms by (auto simp: evaluate_devices_def Let_def split_beta split: if_splits)

lemma run_axes_frame:
  assumes "run_axes now_ns decisions pdos valid d = (pdos', d2)"
  shows "pdos' = map (\<lambda>axis. fst (snd (axis_cycle (the (dm_axes d ! axis)) (ev_commands decisions ! axis) (pdos ! axis)))) [0..<dm_axis_count d]"
    "dm_safety d2 = dm_safety d" "dm_axis_count d2 = dm_axis_count d" "dm_running d2 = dm_running d"
    "dm_stop_requested d2 = dm_stop_requested d" "dm_cycle_owner_token d2 = dm_cycle_owner_token d"
    "dm_standalone_pdos d2 = dm_standalone_pdos d" "dm_master d2 = dm_master d" "dm_registry d2 = dm_registry d"
    "dm_configured d2 = dm_configured d"
  using assms by (auto simp: run_axes_def Let_def)

text \<open>A device cycle of a running daemon, in one equation per part of its result.\<close>

lemma device_cycle:
  assumes "dm_running d" "length pdos = dm_axis_count d"
    and "evaluate (evaluated_supervisor consume_ns now_ns d) (evaluated_bus now_ns domain valid d) pdos now_ns = (spv', decisions)"
    and "process_device_cycle_owned consume_ns now_ns pdos domain valid d = (pdos', d')"
  shows "pdos' = map (\<lambda>axis. fst (snd (axis_cycle (the (dm_axes d ! axis)) (ev_commands decisions ! axis) (pdos ! axis)))) [0..<dm_axis_count d]"
    and "dm_safety d' = spv'" "dm_shutdown_complete d' = ev_shutdown_complete decisions"
    and "dm_running d' = dm_running d" "dm_axis_count d' = dm_axis_count d" "dm_stop_requested d' = dm_stop_requested d"
    and "dm_cycle_owner_token d' = dm_cycle_owner_token d" "dm_standalone_pdos d' = dm_standalone_pdos d" "dm_master d' = dm_master d"
    and "dm_registry d' = dm_registry d" "dm_configured d' = dm_configured d"
    and "\<exists>d3. d' = publish_cycle now_ns decisions domain valid d3 \<and> dm_axis_count d3 = dm_axis_count d"
proof -
  let ?d1 = "fst (consume_staged_commands consume_ns d)"
  obtain d2 dec where e: "evaluate_devices now_ns pdos domain valid ?d1 = (d2, dec)" by fastforce
  have m: "serial_stop_mask (?d1\<lparr>dm_accepting_commands := a, dm_safety := s\<rparr>) x = serial_stop_mask d x"
    "serial_stop_mask ?d1 x = serial_stop_mask d x" for a s x
    by (simp_all add: serial_stop_mask_def cong: if_cong)
  have ev: "evaluate (dm_safety (if dm_stop_requested d
        then ?d1\<lparr>dm_accepting_commands := False, dm_safety := request_shutdown (dm_safety ?d1) now_ns\<rparr> else ?d1))
      (evaluated_bus now_ns domain valid d) pdos now_ns = (spv', decisions)"
    using assms(3) by (cases "dm_stop_requested d") (simp_all add: evaluated_supervisor_def Let_def)
  have "dec = decisions \<and> dm_safety d2 = spv'"
    using e ev by (cases "dm_stop_requested d") (auto simp: evaluate_devices_def evaluated_bus_def Let_def m)
  then have dec: "dec = decisions" and d2: "dm_safety d2 = spv'" "dm_axis_count d2 = dm_axis_count d" "dm_axes d2 = dm_axes d"
      "dm_running d2 = dm_running d" "dm_stop_requested d2 = dm_stop_requested d" "dm_cycle_owner_token d2 = dm_cycle_owner_token d"
      "dm_standalone_pdos d2 = dm_standalone_pdos d" "dm_master d2 = dm_master d" "dm_registry d2 = dm_registry d"
      "dm_configured d2 = dm_configured d"
    using evaluate_devices_frame [OF e] by simp_all
  obtain p3 d3 where r: "run_axes now_ns decisions pdos valid d2 = (p3, d3)" by fastforce
  have p3: "p3 = map (\<lambda>axis. fst (snd (axis_cycle (the (dm_axes d ! axis)) (ev_commands decisions ! axis) (pdos ! axis)))) [0..<dm_axis_count d]"
    and d3: "dm_safety d3 = spv'" "dm_axis_count d3 = dm_axis_count d"
      "dm_running d3 = dm_running d" "dm_stop_requested d3 = dm_stop_requested d" "dm_cycle_owner_token d3 = dm_cycle_owner_token d"
      "dm_standalone_pdos d3 = dm_standalone_pdos d" "dm_master d3 = dm_master d" "dm_registry d3 = dm_registry d"
      "dm_configured d3 = dm_configured d"
    using run_axes_frame [OF r] unfolding d2 by blast+
  have run: "pdos' = p3" "d' = publish_cycle now_ns decisions domain valid d3"
    using assms(1,2,4) by (simp_all add: process_device_cycle_owned_def e dec r)
  show "pdos' = map (\<lambda>axis. fst (snd (axis_cycle (the (dm_axes d ! axis)) (ev_commands decisions ! axis) (pdos ! axis)))) [0..<dm_axis_count d]"
    by (simp add: run p3)
  show "dm_safety d' = spv'" "dm_shutdown_complete d' = ev_shutdown_complete decisions"
    "dm_running d' = dm_running d" "dm_axis_count d' = dm_axis_count d" "dm_stop_requested d' = dm_stop_requested d"
    "dm_cycle_owner_token d' = dm_cycle_owner_token d" "dm_standalone_pdos d' = dm_standalone_pdos d" "dm_master d' = dm_master d"
    "dm_registry d' = dm_registry d" "dm_configured d' = dm_configured d"
    by (simp_all add: run publish_cycle_def Let_def d3)
  show "\<exists>d3. d' = publish_cycle now_ns decisions domain valid d3 \<and> dm_axis_count d3 = dm_axis_count d" using run(2) d3(2) by blast
qed

lemma published_request:
  "axis < dm_axis_count d \<Longrightarrow> dm_axis_count d \<le> kRobotIoMaximumAxes \<Longrightarrow>
     daemon_axis_request (publish_cycle now_ns decisions domain valid d) axis = ev_requests decisions ! axis"
  by (simp add: daemon_axis_request_def axis_snapshot_of_def publish_cycle_def initial_axis_snapshot_def Let_def)

lemma length_device_cycle:
  "length (fst (process_device_cycle_owned consume_ns now_ns pdos domain valid d)) = length pdos"
  by (simp add: process_device_cycle_owned_def Let_def split_beta evaluate_devices_def run_axes_def)

section \<open>Whole cycles\<close>

text \<open>The handlers that others may install at the master leave the daemon alone and keep their spans.\<close>

definition foreign_handlers :: "robot_daemon handlers \<Rightarrow> bool" where
  "foreign_handlers hs \<longleftrightarrow> keeps_lengths hs \<and> (\<forall>img domain valid d. snd (hd_process_image hs img domain valid d) = d)"

lemma length_ethercat_handler:
  "length (fst (ethercat_cycle_handler thread consume_ns now_ns pdos domain valid d)) = length pdos"
  by (simp add: ethercat_cycle_handler_def length_device_cycle)

lemma daemon_handlers_lengths: "foreign_handlers hs \<Longrightarrow> keeps_lengths (daemon_handlers hs thread env)"
  by (simp add: foreign_handlers_def keeps_lengths_def daemon_handlers_def length_ethercat_handler)

text \<open>A daemon whose cycles reach the devices: it is running, its cycle is owned by the thread, its supervisor is configured
  for its axes, and the master, if there is one, admits cycles and calls the daemon.\<close>

definition master_serves :: "nat \<Rightarrow> ethercat_master \<Rightarrow> bool" where
  "master_serves n m \<longleftrightarrow> admission_successor (xm_cycle_admission m) \<noteq> None \<and> xm_has_backend m
     \<and> xm_supervised_cycle_handler m \<noteq> None \<and> xm_cycle_handler m = None \<and> length (xm_pdo_views m) = n"

definition serving :: "u64 \<Rightarrow> robot_daemon \<Rightarrow> bool" where
  "serving thread d \<longleftrightarrow> dm_running d \<and> dm_cycle_owner_token d = thread \<and> dm_configured d
     \<and> supervisor_shape (dm_safety d) \<and> configured (dm_safety d) \<and> axis_count (dm_safety d) = dm_axis_count d
     \<and> length (dm_standalone_pdos d) = kRobotIoMaximumAxes \<and> (\<forall>m. dm_master d = Some m \<longrightarrow> master_serves (dm_axis_count d) m)"

text \<open>The inputs that the device cycle of a daemon sees: the views, the health of the domain and whether they are valid.\<close>

definition device_inputs :: "cycle_env \<Rightarrow> robot_daemon \<Rightarrow> cia402_pdo_view list \<times> domain_health \<times> bool" where
  "device_inputs env d =
     (case dm_master d of
        Some m \<Rightarrow> let (views, valid) = cycle_inputs m (ce_domain env) (ce_image env) in (views, ce_domain env, valid)
      | None \<Rightarrow> (take (dm_axis_count d) (dm_standalone_pdos d), standalone_health (dm_axis_count d), True))"

lemma master_cycle_daemon:
  assumes "foreign_handlers hs" "master_serves n m" "dm_cycle_owner_token d = thread"
    and "cycle_inputs m (ce_domain env) (ce_image env) = (views, valid)"
    and "process_device_cycle_owned (ce_consume_ns env) (ce_now_ns env) views (ce_domain env) valid d = (pdos', d')"
  shows "\<exists>m' img. master_cycle (daemon_handlers hs thread env) cancel transfer (ce_domain env) (ce_image env) m d = (m', Some img, d')
    \<and> xm_pdo_views m' = pdos' \<and> master_serves (length views) m'"
proof -
  obtain w where w: "admission_successor (xm_cycle_admission m) = Some w" using assms(2) by (auto simp: master_serves_def)
  then have e: "try_enter_cycle m = (m\<lparr>xm_cycle_admission := w\<rparr>, True)" and w1: "w - 1 = xm_cycle_admission m"
    by (auto simp: try_enter_cycle_def admission_successor_def split: if_splits)
  have r: "\<exists>img1. run_handlers (daemon_handlers hs thread env) m (ce_domain env) (ce_image env) views valid d = (img1, pdos', d')"
    using assms(1-3,5)
    by (auto simp: run_handlers_def Let_def master_serves_def daemon_handlers_def ethercat_cycle_handler_def owns_cycle_def
        foreign_handlers_def split_beta)
  have l: "length pdos' = length views" using length_device_cycle assms(5) by (metis fst_conv)
  show ?thesis
    using r assms(2,4) w l unfolding master_cycle_def e
    by (auto simp: Let_def split_beta master_serves_def leave_cycle_def w1)
qed

lemma cycle_devices_daemon:
  assumes "foreign_handlers hs" "serving thread d" "device_inputs env d = (views, domain, valid)"
    and "process_device_cycle_owned (ce_consume_ns env) (ce_now_ns env) views domain valid d = (pdos', d1)"
    and "cycle_devices hs thread env d = (d', sent)"
  shows "(\<exists>mo pd. d' = d1\<lparr>dm_master := mo, dm_standalone_pdos := pd\<rparr> \<and> length pd = kRobotIoMaximumAxes
        \<and> (\<forall>m. mo = Some m \<longrightarrow> master_serves (length views) m))
    \<and> length views = dm_axis_count d"
proof (cases "dm_master d")
  case None
  have n: "dm_axis_count d \<le> kRobotIoMaximumAxes" using assms(2) by (auto simp: serving_def supervisor_shape_def)
  have l: "length pdos' = length views" using length_device_cycle assms(4) by (metis fst_conv)
  have v: "views = take (dm_axis_count d) (dm_standalone_pdos d)" "length views = dm_axis_count d"
    using assms(2,3) n None by (auto simp: device_inputs_def serving_def)
  have "d' = d1\<lparr>dm_standalone_pdos := pdos' @ drop (dm_axis_count d) (dm_standalone_pdos d)\<rparr>" 
    using assms(3-5) None by (auto simp: cycle_devices_def device_inputs_def Let_def)
  moreover have "dm_master d1 = None"
  proof -
    obtain spv' dec where "evaluate (evaluated_supervisor (ce_consume_ns env) (ce_now_ns env) d)
        (evaluated_bus (ce_now_ns env) domain valid d) views (ce_now_ns env) = (spv', dec)" by fastforce
    from device_cycle(9) [OF _ v(2) this assms(4)] show ?thesis using assms(2) None by (simp add: serving_def)
  qed
  ultimately have "d' = d1\<lparr>dm_master := None, dm_standalone_pdos := pdos' @ drop (dm_axis_count d) (dm_standalone_pdos d)\<rparr>" by simp
  moreover have "length (pdos' @ drop (dm_axis_count d) (dm_standalone_pdos d)) = kRobotIoMaximumAxes"
    using assms(2) l v n by (simp add: serving_def)
  ultimately show ?thesis using v by blast
next
  case (Some m)
  have ms: "master_serves (dm_axis_count d) m" using assms(2) Some by (simp add: serving_def)
  have ci: "cycle_inputs m (ce_domain env) (ce_image env) = (views, valid)" and dom: "domain = ce_domain env"
    using assms(3) Some by (auto simp: device_inputs_def split: prod.splits)
  have len: "length views = dm_axis_count d" using length_cycle_inputs [of m "ce_domain env" "ce_image env"] ci ms
    by (simp add: master_serves_def)
  obtain spv' dec where ev: "evaluate (evaluated_supervisor (ce_consume_ns env) (ce_now_ns env) d)
      (evaluated_bus (ce_now_ns env) domain valid d) views (ce_now_ns env) = (spv', dec)" by fastforce
  have pd: "dm_standalone_pdos d1 = dm_standalone_pdos d"
    using device_cycle(8) [OF _ len ev assms(4)] assms(2) by (simp add: serving_def)
  have own: "dm_cycle_owner_token d = thread" using assms(2) by (simp add: serving_def)
  from master_cycle_daemon [OF assms(1) ms own ci assms(4) [unfolded dom], of "ce_cancel env" "ce_transfer env"]
  obtain m' img where mc: "master_cycle (daemon_handlers hs thread env) (ce_cancel env) (ce_transfer env) (ce_domain env) (ce_image env) m d
      = (m', Some img, d1)" and ms': "master_serves (length views) m'" by blast
  have "d' = d1\<lparr>dm_master := Some m'\<rparr>" using assms(5) Some mc by (simp add: cycle_devices_def)
  then have "d' = d1\<lparr>dm_master := Some m', dm_standalone_pdos := dm_standalone_pdos d\<rparr>" by (simp add: pd [symmetric])
  then show ?thesis using ms' len assms(2) by (auto simp: serving_def)
qed

end
