(* ===== verification/Daemon_Runs.thy ===== *)
theory Daemon_Runs
  imports Daemon_Props
begin

text \<open>
  What a cycle of the daemon sends to the drives, and that a stop request ends the daemon's loop.
\<close>

section \<open>Entering the device cycle\<close>

text \<open>The daemon as the device cycle finds it: commands refreshed, serial buses served, servo events queued.\<close>

definition cycle_entry :: "cycle_env \<Rightarrow> cycle_context \<Rightarrow> robot_daemon \<Rightarrow> robot_daemon option" where
  "cycle_entry env context d =
     (let d1 = fst (refresh_commands_owned (ce_refresh_ns env) d)
      in map_option (\<lambda>(g, written). enqueue_servos (ce_dds_ns env) (cx_sequence context) (d1\<lparr>dm_registry := g\<rparr>))
           (registry_cycle (dm_registry d1) (ce_serial env)))"

lemma cycle_owned_entry:
  assumes "cycle_owned hs thread env context d = Some (d', sent, written)"
  obtains e d3 where "cycle_entry env context d = Some e" "cycle_devices hs thread env e = (d3, sent)"
    "d' = d3\<lparr>dm_loop := observe_finish (dm_loop d3) (ce_finish_ns env)\<rparr>"
  using assms by (auto simp: cycle_owned_def cycle_entry_def Let_def split: option.splits prod.splits)

lemma cycle_entry_frame:
  assumes "cycle_entry env context d = Some e"
  shows "dm_axis_count e = dm_axis_count d" "dm_master e = dm_master d" "dm_stop_requested e = dm_stop_requested d"
    "dm_running e = dm_running d" "dm_cycle_owner_token e = dm_cycle_owner_token d" "dm_configured e = dm_configured d"
    "dm_axes e = dm_axes d" "dm_standalone_pdos e = dm_standalone_pdos d"
    "dm_serial_axis_stop_masks e = dm_serial_axis_stop_masks d"
    "dm_safety e = dm_safety (fst (consume_staged_commands (ce_refresh_ns env) d))"
  using assms by (auto simp: cycle_entry_def refresh_commands_owned_def enqueue_servos_def Let_def)

lemma cycle_entry_serving:
  assumes "cycle_entry env context d = Some e" "serving thread d"
  shows "serving thread e"
  using assms(2) consume_supervisor [of "ce_refresh_ns env" d, OF refl]
  by (simp add: serving_def cycle_entry_frame [OF assms(1)])

section \<open>Faults of serial devices\<close>

lemma mask_selects_bit: "mask_selects w k \<longleftrightarrow> bit w k"
  by (simp add: mask_selects_def and_exp_eq_0_iff_not_bit)

lemma mask_selects_fold:
  "mask_selects (fold (\<lambda>k m. if P k then m OR M k else m) ks m0) axis \<longleftrightarrow>
     mask_selects m0 axis \<or> (\<exists>k \<in> set ks. P k \<and> mask_selects (M k) axis)"
  by (induction ks arbitrary: m0) (auto simp: mask_selects_bit bit_or_iff)

lemma summary_servo_count: "rs_servo_count (summary_of now_ns c servos) = c"
  by (induction servos rule: rev_induct) (simp_all add: summary_snoc add_servo_safety_def Let_def, simp add: summary_of_def)

text \<open>An axis is stopped by the serial devices exactly when a servo with a fault flag lists the axis in its stop mask.\<close>

lemma serial_stop_exact:
  assumes "length (rg_servos (dm_registry d)) \<le> 32"
  shows "mask_selects (serial_stop_mask d (safety_snapshot (dm_registry d) now_ns)) axis \<longleftrightarrow>
    (\<exists>k < length (rg_servos (dm_registry d)). vf_flags (registry_feedback (dm_registry d) k now_ns) AND kFaultFlags \<noteq> 0
       \<and> mask_selects (dm_serial_axis_stop_masks d ! k) axis)"
proof -
  let ?g = "dm_registry d"
  have c: "unat (rs_servo_count (safety_snapshot ?g now_ns)) = length (rg_servos ?g)"
    using assms by (simp add: safety_snapshot_summary summary_servo_count unsigned_of_nat take_bit_nat_eq_self)
  have b: "rs_fault_mask (safety_snapshot ?g now_ns) AND push_bit k 1 \<noteq> 0 \<longleftrightarrow>
      k < length (rg_servos ?g) \<and> vf_flags (registry_feedback ?g k now_ns) AND kFaultFlags \<noteq> 0" for k
    using safety_snapshot_exact [OF assms, of now_ns] by (simp add: and_exp_eq_0_iff_not_bit)
  show ?thesis
    unfolding serial_stop_mask_def c mask_selects_fold b by (auto simp: mask_selects_bit)
qed

lemma group_axis_mask_selects:
  assumes "axis < length axes" "length axes \<le> 16"
  shows "mask_selects (group_axis_mask axes g m0) axis \<longleftrightarrow> mask_selects m0 axis \<or> ac_safety_group (axes ! axis) = g"
  using assms unfolding group_axis_mask_def mask_selects_fold by (auto simp: mask_selects_bit bit_simps)

section \<open>Enabling a drive\<close>

lemma enabling_word_request:
  assumes "axis_cycle ax command pdo = (ax', pdo', fb)" "control_word pdo' \<in> {6, 7, 0xF}"
  shows "cmd_flags command = kAxisCommandEnable"
  using axis_cycle_cases [OF assms(1)] update_enabling_word assms(2) requested_action_enable by metis

lemma flags_for_enable: "flags_for_request r = kAxisCommandEnable \<longleftrightarrow> r = enable"
  by (cases r) (simp_all add: command_flag_defs)

text \<open>The supervisor's part of a device cycle whose view of an axis carries an enabling control word.\<close>

lemma device_cycle_enable:
  assumes "serving thread d" "length pdos = dm_axis_count d" "axis < dm_axis_count d"
    and "process_device_cycle_owned consume_ns now_ns pdos domain valid d = (pdos', d')"
    and "control_word (pdos' ! axis) \<in> {6, 7, 0xF}"
  defines "s \<equiv> evaluated_supervisor consume_ns now_ns d" and "bus \<equiv> evaluated_bus now_ns domain valid d"
  shows "axis_requested s axis = enable \<and> (\<forall>k < dm_axis_count d. same_group s axis k \<longrightarrow>
      axis_clear s bus pdos now_ns k \<and> axis_requested s k \<noteq> quick_stop \<and> decode (status_word (pdos ! k)) \<noteq> fault)"
proof -
  obtain spv' dec where ev: "evaluate s bus pdos now_ns = (spv', dec)" by fastforce
  note fr = evaluated_supervisor_frame [OF s_def [THEN meta_eq_to_obj_eq, symmetric]]
  have sh: "supervisor_shape s" "configured s" "axis_count s = dm_axis_count d"
    using assms(1) fr by (simp_all add: serving_def)
  have n: "axis_count s \<le> kRobotIoMaximumAxes" "length (states s) = kRobotIoMaximumAxes" "length (last_requests s) = kRobotIoMaximumAxes"
    using sh(1) by (simp_all add: supervisor_shape_def)
  have run: "dm_running d" using assms(1) by (simp add: serving_def)
  have cmd: "ev_commands dec ! axis = output_command s axis (ev_requests dec ! axis)"
    using evaluate_axes [OF ev sh(2) _ n] assms(2,3) sh(3) by metis
  have pd: "pdos' ! axis = fst (snd (axis_cycle (the (dm_axes d ! axis)) (ev_commands dec ! axis) (pdos ! axis)))"
    using device_cycle(1) [OF run assms(2) ev [unfolded s_def bus_def] assms(4)] assms(3) by simp
  obtain ax' pdo' fb where ac: "axis_cycle (the (dm_axes d ! axis)) (ev_commands dec ! axis) (pdos ! axis) = (ax', pdo', fb)"
    by (metis prod_cases3)
  have "cmd_flags (ev_commands dec ! axis) = kAxisCommandEnable"
    using enabling_word_request [OF ac] assms(5) pd ac by simp
  then have "ev_requests dec ! axis = enable" by (simp add: cmd output_command_def flags_for_enable)
  then show ?thesis using enabled_group_clear [OF sh(1) ev] assms(3) sh(3) by simp
qed

text \<open>Claim C1.  End to end: if a whole cycle of the daemon sends a process image in which an axis's control word moves the
  drive towards operation, then the inputs of that cycle were valid, no stop had been requested, the staged command of
  the axis asked for enable, and every axis of its safety group passed all checks of the supervisor on the inputs received
  in this cycle, none asking for a quick stop and none faulted; and no serial servo whose stop mask names an axis of the
  group reported a fault.\<close>

theorem drive_enabled_only_when_clear:
  assumes "foreign_handlers hs" "serving thread d" "cycle_owned hs thread env context d = Some (d', Some img, written)"
    and "dm_master d = Some m" "wired (xm_pdo_handles m) (xm_axes m) (length (ce_image env))"
    and "length (xm_pdo_handles m) = dm_axis_count d" "axis < dm_axis_count d"
    and "field_read (ph_control_word (xm_pdo_handles m ! axis)) img = Some cw" "cw \<in> {6, 7, 0xF :: u16}"
  shows "\<exists>e. cycle_entry env context d = Some e \<and>
    (let s = evaluated_supervisor (ce_consume_ns env) (ce_now_ns env) e;
         bus = evaluated_bus (ce_now_ns env) (ce_domain env) True e;
         (views, valid) = cycle_inputs m (ce_domain env) (ce_image env)
     in valid \<and> \<not> dm_stop_requested d \<and> axis_requested s axis = enable
        \<and> (\<forall>k < dm_axis_count d. same_group s axis k \<longrightarrow>
             axis_clear s bus views (ce_now_ns env) k \<and> axis_requested s k \<noteq> quick_stop \<and> decode (status_word (views ! k)) \<noteq> fault
             \<and> (length (rg_servos (dm_registry e)) \<le> 32 \<longrightarrow>
                  (\<forall>j < length (rg_servos (dm_registry e)). mask_selects (dm_serial_axis_stop_masks d ! j) k \<longrightarrow>
                     vf_flags (registry_feedback (dm_registry e) j (ce_now_ns env)) AND kFaultFlags = 0))))"
proof -
  obtain e d3 where e: "cycle_entry env context d = Some e" and cd: "cycle_devices hs thread env e = (d3, Some img)"
    using cycle_owned_entry [OF assms(3)] by metis
  note ef = cycle_entry_frame [OF e]
  have se: "serving thread e" by (rule cycle_entry_serving [OF e assms(2)])
  have me: "dm_master e = Some m" using ef(2) assms(4) by simp
  have ms: "master_serves (dm_axis_count d) m" using assms(2,4) by (simp add: serving_def)
  obtain views valid where ci: "cycle_inputs m (ce_domain env) (ce_image env) = (views, valid)" by fastforce
  have lv: "length views = dm_axis_count e"
    using length_cycle_inputs [of m "ce_domain env" "ce_image env"] ci ms ef(1) by (simp add: master_serves_def)
  obtain pdos' d4 where pc: "process_device_cycle_owned (ce_consume_ns env) (ce_now_ns env) views (ce_domain env) valid e = (pdos', d4)"
    by fastforce
  have own: "dm_cycle_owner_token e = thread" using se by (simp add: serving_def)
  from master_cycle_daemon [OF assms(1) ms own ci pc, of "ce_cancel env" "ce_transfer env"] obtain m' where
    mc: "master_cycle (daemon_handlers hs thread env) (ce_cancel env) (ce_transfer env) (ce_domain env) (ce_image env) m e = (m', Some img, d4)"
    and vw: "xm_pdo_views m' = pdos'" using cd me by (auto simp: cycle_devices_def Let_def)
  have lp: "length (xm_pdo_views m) = length (xm_pdo_handles m)" "axis < length (xm_pdo_handles m)"
    using ms assms(6,7) by (simp_all add: master_serves_def)
  have cw: "cw = control_word (if valid then pdos' ! axis else zero_outputs (pdos' ! axis))"
    using cycle_outputs [OF mc daemon_handlers_lengths [OF assms(1)] assms(5) lp] assms(8) ci vw by simp
  then have valid and cwp: "control_word (pdos' ! axis) \<in> {6, 7, 0xF}" using assms(9) by (auto simp: zero_outputs_def split: if_splits)
  note en = device_cycle_enable [OF se lv _ pc cwp] 
  have ax: "axis < dm_axis_count e" using assms(7) ef(1) by simp
  let ?s = "evaluated_supervisor (ce_consume_ns env) (ce_now_ns env) e"
  let ?bus = "evaluated_bus (ce_now_ns env) (ce_domain env) valid e"
  have clear: "axis_clear ?s ?bus views (ce_now_ns env) k \<and> axis_requested ?s k \<noteq> quick_stop \<and> decode (status_word (views ! k)) \<noteq> fault"
    if "k < dm_axis_count d" "same_group ?s axis k" for k using en [OF ax] that ef(1) by simp
  have "same_group ?s axis axis" by (simp add: same_group_def)
  then have "\<not> shutdown_requested ?s" using clear [OF assms(7)] by (simp add: axis_clear_def)
  then have "\<not> dm_stop_requested d" using evaluated_supervisor_frame(5) [of "ce_consume_ns env" "ce_now_ns env" e, OF refl] ef(3) by simp
  moreover have "vf_flags (registry_feedback (dm_registry e) j (ce_now_ns env)) AND kFaultFlags = 0"
    if "k < dm_axis_count d" "same_group ?s axis k" "length (rg_servos (dm_registry e)) \<le> 32" "j < length (rg_servos (dm_registry e))"
      "mask_selects (dm_serial_axis_stop_masks d ! j) k" for k j
  proof -
    have "\<not> mask_selects (serial_stop_mask e (safety_snapshot (dm_registry e) (ce_now_ns env))) k"
      using clear [OF that(1,2)] by (simp add: axis_clear_def evaluated_bus_def)
    then show ?thesis using serial_stop_exact [OF that(3)] that(4,5) ef(9) by auto
  qed
  ultimately show ?thesis using e ci \<open>valid\<close> en [OF ax] clear by (auto simp: Let_def)
qed

section \<open>Stopping\<close>

text \<open>What a cycle does to the supervisor of a serving daemon.\<close>

lemma cycle_owned_serving:
  assumes "foreign_handlers hs" "serving thread d" "cycle_owned hs thread env context d = Some (d', sent, written)"
  obtains e bus views dec where "cycle_entry env context d = Some e" "length views = dm_axis_count d"
    "evaluate (evaluated_supervisor (ce_consume_ns env) (ce_now_ns env) e) bus views (ce_now_ns env) = (dm_safety d', dec)"
    "dm_shutdown_complete d' = ev_shutdown_complete dec" "serving thread d'" "dm_axis_count d' = dm_axis_count d"
    "dm_stop_requested d' = dm_stop_requested d" "\<And>axis. axis < dm_axis_count d \<Longrightarrow> daemon_axis_request d' axis = ev_requests dec ! axis"
    "dm_registry d' = dm_registry e"
proof -
  obtain e d3 where e: "cycle_entry env context d = Some e" and cd: "cycle_devices hs thread env e = (d3, sent)"
    and d': "d' = d3\<lparr>dm_loop := observe_finish (dm_loop d3) (ce_finish_ns env)\<rparr>"
    using cycle_owned_entry [OF assms(3)] by metis
  note ef = cycle_entry_frame [OF e]
  have se: "serving thread e" by (rule cycle_entry_serving [OF e assms(2)])
  obtain views domain valid where di: "device_inputs env e = (views, domain, valid)" by (metis prod_cases3)
  obtain pdos' d1 where pc: "process_device_cycle_owned (ce_consume_ns env) (ce_now_ns env) views domain valid e = (pdos', d1)" by fastforce
  let ?s = "evaluated_supervisor (ce_consume_ns env) (ce_now_ns env) e"
  let ?bus = "evaluated_bus (ce_now_ns env) domain valid e"
  obtain spv' dec where ev: "evaluate ?s ?bus views (ce_now_ns env) = (spv', dec)" by fastforce
  obtain mo pd where d3: "d3 = d1\<lparr>dm_master := mo, dm_standalone_pdos := pd\<rparr>" and pd: "length pd = kRobotIoMaximumAxes"
    and mo: "\<And>m. mo = Some m \<Longrightarrow> master_serves (length views) m" and lv: "length views = dm_axis_count e"
    using cycle_devices_daemon [OF assms(1) se di pc cd] by blast
  have run: "dm_running e" using se by (simp add: serving_def)
  note dc = device_cycle [OF run lv ev pc]
  have sh: "supervisor_shape ?s" "configured ?s" "axis_count ?s = dm_axis_count e"
    using evaluated_supervisor_frame [of "ce_consume_ns env" "ce_now_ns env" e, OF refl] se by (simp_all add: serving_def)
  note ff = evaluate_frame [OF sh(1) ev]
  have "serving thread d'"
    using se dc ff sh mo pd lv by (simp add: serving_def d' d3)
  moreover have "daemon_axis_request d' axis = ev_requests dec ! axis" if "axis < dm_axis_count d" for axis
  proof -
    obtain d4 where d4: "d1 = publish_cycle (ce_now_ns env) dec domain valid d4" "dm_axis_count d4 = dm_axis_count e" using dc(12) by blast
    have "dm_axis_count e \<le> kRobotIoMaximumAxes" using sh by (simp add: supervisor_shape_def)
    then have "daemon_axis_request d1 axis = ev_requests dec ! axis"
      using published_request [of axis d4 "ce_now_ns env" dec domain valid] d4 that ef(1) by simp
    then show ?thesis by (simp add: daemon_axis_request_def axis_snapshot_of_def d' d3 cong: option.case_cong)
  qed
  moreover have "dm_safety d' = spv'" using dc(2) by (simp add: d' d3)
  ultimately show ?thesis
    using that [OF e _ ev [folded \<open>dm_safety d' = spv'\<close>]] dc lv ef by (simp add: d' d3)
qed

text \<open>A stop that is under way: no axis is running, and those still stopping began no later than \<open>T\<close>.\<close>

definition stops_before :: "int \<Rightarrow> robot_daemon \<Rightarrow> bool" where
  "stops_before T d \<longleftrightarrow> (\<forall>axis < dm_axis_count d. phase (states (dm_safety d) ! axis) = stopping \<longrightarrow>
     stop_started_ns (states (dm_safety d) ! axis) \<le> T)"

definition none_running :: "robot_daemon \<Rightarrow> bool" where
  "none_running d \<longleftrightarrow> (\<forall>axis < dm_axis_count d. phase (states (dm_safety d) ! axis) \<noteq> running)"

lemma stopping_cycle:
  assumes "foreign_handlers hs" "serving thread d" "cycle_owned hs thread env context d = Some (d', sent, written)"
    and "dm_stop_requested d" "stops_before T d" "none_running d \<or> ce_now_ns env = T"
  shows "serving thread d' \<and> dm_stop_requested d' \<and> stops_before T d' \<and> none_running d'
    \<and> dm_axis_count d' = dm_axis_count d \<and> options (dm_safety d') = options (dm_safety d)"
    and "none_running d \<Longrightarrow> 0 < safe_stop_timeout (options (dm_safety d)) \<Longrightarrow>
      T + safe_stop_timeout (options (dm_safety d)) \<le> ce_now_ns env \<Longrightarrow> dm_shutdown_complete d'"
    and "dm_shutdown_complete d' \<Longrightarrow> axis < dm_axis_count d \<Longrightarrow> daemon_axis_request d' axis = disable"
proof -
  obtain e bus views dec where e: "cycle_entry env context d = Some e" and lv: "length views = dm_axis_count d"
    and ev: "evaluate (evaluated_supervisor (ce_consume_ns env) (ce_now_ns env) e) bus views (ce_now_ns env) = (dm_safety d', dec)"
    and cmp: "dm_shutdown_complete d' = ev_shutdown_complete dec" and sv: "serving thread d'" and n': "dm_axis_count d' = dm_axis_count d"
    and st: "dm_stop_requested d' = dm_stop_requested d"
    and rq: "\<And>axis. axis < dm_axis_count d \<Longrightarrow> daemon_axis_request d' axis = ev_requests dec ! axis"
    using cycle_owned_serving [OF assms(1-3)] by metis
  let ?s = "evaluated_supervisor (ce_consume_ns env) (ce_now_ns env) e"
  note ef = cycle_entry_frame [OF e]
  have se: "serving thread e" by (rule cycle_entry_serving [OF e assms(2)])
  note sf = evaluated_supervisor_frame [of "ce_consume_ns env" "ce_now_ns env" e, OF refl]
  have sh: "supervisor_shape ?s" "configured ?s" "axis_count ?s = dm_axis_count d" "shutdown_requested ?s"
    using sf se ef assms(4) by (simp_all add: serving_def)
  have states: "states ?s = states (dm_safety d)" and opts: "options ?s = options (dm_safety d)"
    using sf(3,4) ef(10) consume_supervisor(3,4) [of "ce_refresh_ns env" d, OF refl] by simp_all
  have sa: "axis < dm_axis_count d \<Longrightarrow> length views = axis_count ?s" "axis < dm_axis_count d \<Longrightarrow> axis < axis_count ?s" for axis
    using lv sh(3) by simp_all
  note ax = shutdown_axis [OF sh(1) ev sh(2) sa sh(4), unfolded states opts]
  note ff = evaluate_frame [OF sh(1) ev]
  have run': "none_running d'" using ax(2) n' by (simp add: none_running_def)
  moreover have "stops_before T d'"
    unfolding stops_before_def n'
  proof (intro allI impI)
    fix axis assume a: "axis < dm_axis_count d" and p: "phase (states (dm_safety d') ! axis) = stopping"
    show "stop_started_ns (states (dm_safety d') ! axis) \<le> T"
      using ax(4,5,7) [OF a a] a p assms(5,6) by (cases "phase (states (dm_safety d) ! axis)") (auto simp: stops_before_def none_running_def)
  qed
  ultimately show "serving thread d' \<and> dm_stop_requested d' \<and> stops_before T d' \<and> none_running d'
    \<and> dm_axis_count d' = dm_axis_count d \<and> options (dm_safety d') = options (dm_safety d)"
    using sv st assms(4) n' ff(2) opts by simp
  have n: "axis_count ?s \<le> kRobotIoMaximumAxes" "length (states ?s) = kRobotIoMaximumAxes" "length (last_requests ?s) = kRobotIoMaximumAxes"
    using sh(1) by (simp_all add: supervisor_shape_def)
  have all: "ev_shutdown_complete dec \<longleftrightarrow> (\<forall>axis < dm_axis_count d. ev_requests dec ! axis = disable)"
    using evaluate_axes [OF ev sh(2) _ n] lv sh(3,4) by metis
  show "daemon_axis_request d' axis = disable" if "dm_shutdown_complete d'" "axis < dm_axis_count d"
    using that rq cmp all by simp
  show "dm_shutdown_complete d'" if "none_running d" "0 < safe_stop_timeout (options (dm_safety d))"
    "T + safe_stop_timeout (options (dm_safety d)) \<le> ce_now_ns env"
  proof -
    have "ev_requests dec ! axis = disable" if a: "axis < dm_axis_count d" for axis
    proof (rule ax(3) [OF a a])
      show "phase (states (dm_safety d') ! axis) = disabled"
      proof (cases "phase (states (dm_safety d) ! axis)")
        case stopping
        then have "stop_started_ns (states (dm_safety d) ! axis) \<le> T" using assms(5) a by (simp add: stops_before_def)
        then show ?thesis using ax(6) [OF a a stopping] \<open>0 < _\<close> \<open>_ \<le> ce_now_ns env\<close> by linarith
      next
        case disabled
        then show ?thesis using ax(7) [OF a a] by simp
      next
        case running
        then show ?thesis using \<open>none_running d\<close> a by (simp add: none_running_def)
      qed
    qed
    then show ?thesis using cmp all by simp
  qed
qed

text \<open>The environment answers every call of the iterations, one after the other.\<close>

fun iterations_answered :: "robot_daemon handlers \<Rightarrow> u64 \<Rightarrow> run_env list \<Rightarrow> bool \<Rightarrow> robot_daemon \<Rightarrow> bool" where
  "iterations_answered hs thread [] sleep_failed d = True"
| "iterations_answered hs thread (env # envs) sleep_failed d =
     (case run_iteration hs thread env sleep_failed d of
        None \<Rightarrow> False
      | Some (d', failed') \<Rightarrow> iterations_answered hs thread envs failed' d')"

text \<open>An iteration is a cycle of the daemon with its loop, flags and stop request updated.\<close>

lemma run_iteration_cycle:
  assumes "run_iteration hs thread env sleep_failed d = Some (d', failed')" "serving thread d"
  obtains d1 ctx sent written where "cycle_owned hs thread (re_cycle env) ctx d1 = Some (d', sent, written)"
    "serving thread d1" "dm_safety d1 = dm_safety d" "dm_axis_count d1 = dm_axis_count d"
    "dm_stop_requested d \<or> re_signal env \<Longrightarrow> dm_stop_requested d1" "dm_registry d1 = dm_registry d"
proof -
  let ?d = "observe_signal (re_signal env) d"
  have o: "serving thread ?d" "dm_safety ?d = dm_safety d" "dm_axis_count ?d = dm_axis_count d"
    "dm_stop_requested d \<or> re_signal env \<Longrightarrow> dm_stop_requested ?d" "dm_registry ?d = dm_registry d"
    using assms(2) by (auto simp: observe_signal_def serving_def)
  have l: "serving thread (?d\<lparr>dm_loop := l\<rparr>)" for l using o(1) by (simp add: serving_def)
  have t: "serving thread (timing_failure x (?d\<lparr>dm_loop := l\<rparr>))" "dm_stop_requested (timing_failure x (?d\<lparr>dm_loop := l\<rparr>))"
    "dm_safety (timing_failure x (?d\<lparr>dm_loop := l\<rparr>)) = dm_safety d" "dm_axis_count (timing_failure x (?d\<lparr>dm_loop := l\<rparr>)) = dm_axis_count d"
    "dm_registry (timing_failure x (?d\<lparr>dm_loop := l\<rparr>)) = dm_registry d" for x l
    using o by (simp_all add: timing_failure_def request_stop_def serving_def)
  show ?thesis
  proof (cases sleep_failed)
    case True
    then obtain x y where "cycle_owned hs thread (re_cycle env) (immediate_context ?d (re_unscheduled_ns env)) ?d = Some (d', x, y)"
      using assms(1) by (auto simp: run_iteration_def Let_def)
    then show ?thesis using that [OF _ o] by blast
  next
    case False
    then obtain l release where w: "wait_next (dm_loop ?d) (re_wait_ns env) (re_sleeps env) (re_started_ns env) = Some (l, release)"
      using assms(1) by (auto simp: run_iteration_def Let_def split: option.splits)
    show ?thesis
    proof (cases "wr_sleep_error release = 0")
      case True
      then obtain x y where "cycle_owned hs thread (re_cycle env) (wr_context release) (?d\<lparr>dm_loop := l\<rparr>) = Some (d', x, y)"
        using assms(1) w False by (auto simp: run_iteration_def Let_def)
      then show ?thesis using that l o by simp
    next
      case err: False
      let ?t = "timing_failure (wr_sleep_error release) (?d\<lparr>dm_loop := l\<rparr>)"
      obtain x y where "cycle_owned hs thread (re_cycle env) (immediate_context ?t (re_unscheduled_ns env)) ?t = Some (d', x, y)"
        using assms(1) w False err by (auto simp: run_iteration_def Let_def)
      then show ?thesis using that t by blast
    qed
  qed
qed

lemma stopping_run:
  assumes "foreign_handlers hs" "serving thread d" "dm_stop_requested d" "stops_before T d" "none_running d"
    and "0 < safe_stop_timeout (options (dm_safety d))" "iterations_answered hs thread envs sleep_failed d"
    and "\<exists>env \<in> set envs. T + safe_stop_timeout (options (dm_safety d)) \<le> ce_now_ns (re_cycle env)"
    and "dm_shutdown_complete d \<Longrightarrow> \<forall>axis < dm_axis_count d. daemon_axis_request d axis = disable"
  shows "\<exists>d'. run_loop hs thread envs sleep_failed d = Some d' \<and> dm_shutdown_complete d'
    \<and> (\<forall>axis < dm_axis_count d. daemon_axis_request d' axis = disable)"
  using assms(2-9)
proof (induction envs arbitrary: d sleep_failed)
  case (Cons env envs)
  show ?case
  proof (cases "dm_shutdown_complete d")
    case True
    then show ?thesis using Cons.prems(8) by (subst run_loop.simps) simp
  next
    case False
    obtain d2 failed' where it: "run_iteration hs thread env sleep_failed d = Some (d2, failed')"
      and ans: "iterations_answered hs thread envs failed' d2" using Cons.prems(6) by (auto split: option.splits)
    obtain d1 ctx sent written where c: "cycle_owned hs thread (re_cycle env) ctx d1 = Some (d2, sent, written)"
      and d1: "serving thread d1" "dm_safety d1 = dm_safety d" "dm_axis_count d1 = dm_axis_count d" "dm_stop_requested d1"
      using run_iteration_cycle [OF it Cons.prems(1)] Cons.prems(2) by metis
    have b: "stops_before T d1" "none_running d1" using Cons.prems(3,4) d1(2,3) by (simp_all add: stops_before_def none_running_def)
    note sc = stopping_cycle [OF assms(1) d1(1) c d1(4) b(1) disjI1 [OF b(2)], unfolded d1(2,3)]
    have loop: "run_loop hs thread (env # envs) sleep_failed d = run_loop hs thread envs failed' d2"
      using False Cons.prems(1) it by (subst run_loop.simps) (simp add: serving_def)
    have disabled: "dm_shutdown_complete d2 \<Longrightarrow> \<forall>axis < dm_axis_count d. daemon_axis_request d2 axis = disable" using sc(3) by blast
    show ?thesis
    proof (cases "dm_shutdown_complete d2")
      case True
      then show ?thesis using disabled unfolding loop by (subst run_loop.simps) simp
    next
      case open2: False
      then have "\<not> T + safe_stop_timeout (options (dm_safety d)) \<le> ce_now_ns (re_cycle env)"
        using sc(2) b(2) Cons.prems(5) by blast
      then have late: "\<exists>env \<in> set envs. T + safe_stop_timeout (options (dm_safety d2)) \<le> ce_now_ns (re_cycle env)"
        using Cons.prems(7) sc(1) by auto
      show ?thesis using Cons.IH [OF _ _ _ _ _ ans late] sc(1) Cons.prems(5) open2 unfolding loop by simp
    qed
  qed
qed simp

text \<open>A daemon without running serial buses needs no answers but those to its sleeps.\<close>

lemma idle_cycle:
  assumes "\<not> rg_running (dm_registry d)"
  shows "\<exists>x. cycle_owned hs thread env context d = Some x" "cycle_entry env context d = Some e \<Longrightarrow> dm_registry e = dm_registry d"
  using assms
  by (auto simp: cycle_owned_def cycle_entry_def registry_cycle_def refresh_commands_owned_def enqueue_servos_def Let_def split_beta)

lemma idle_answered:
  assumes "foreign_handlers hs" "serving thread d" "\<not> rg_running (dm_registry d)" "\<forall>env \<in> set envs. sleep_until (re_sleeps env) \<noteq> None"
  shows "iterations_answered hs thread envs sleep_failed d"
  using assms(2-4)
proof (induction envs arbitrary: d sleep_failed)
  case (Cons env envs)
  have idle: "cycle_owned hs thread env' ctx d' \<noteq> None" if "dm_registry d' = dm_registry d" for env' ctx d'
    using idle_cycle(1) Cons.prems(2) that by simp
  have wait: "wait_next l n (re_sleeps env) st \<noteq> None" for l n st
    using Cons.prems(3) by (auto simp: wait_next_def Let_def split: option.splits)
  have "run_iteration hs thread env sleep_failed d \<noteq> None"
  proof -
    let ?d = "observe_signal (re_signal env) d"
    obtain l release where w: "wait_next (dm_loop ?d) (re_wait_ns env) (re_sleeps env) (re_started_ns env) = Some (l, release)"
      using wait by fastforce
    have r: "dm_registry ?d = dm_registry d" "dm_registry (?d\<lparr>dm_loop := l\<rparr>) = dm_registry d"
      "dm_registry (timing_failure x (?d\<lparr>dm_loop := l\<rparr>)) = dm_registry d" for x
      by (simp_all add: observe_signal_def timing_failure_def request_stop_def)
    show ?thesis
      by (cases sleep_failed; cases "wr_sleep_error release = 0")
         (simp_all add: run_iteration_def Let_def w idle [OF r(1)] idle [OF r(2)] idle [OF r(3)] del: not_None_eq)
  qed
  then obtain d2 failed' where it: "run_iteration hs thread env sleep_failed d = Some (d2, failed')" by fastforce
  obtain d1 ctx sent written where c: "cycle_owned hs thread (re_cycle env) ctx d1 = Some (d2, sent, written)"
    and d1: "serving thread d1" "dm_registry d1 = dm_registry d"
    using run_iteration_cycle [OF it Cons.prems(1)] by metis
  have "serving thread d2" "dm_registry d2 = dm_registry d"
    using cycle_owned_serving [OF assms(1) d1(1) c] idle_cycle(2) [of d1 "re_cycle env" ctx] d1(2) Cons.prems(2) by metis+
  then show ?case using Cons.IH [of d2 failed'] Cons.prems it by simp
qed simp

text \<open>Claim C6.  A stop request ends the daemon's loop: once a stop is requested or the termination signal has arrived, the
  iteration that sees it begins the stop of every axis, and when the environment answers the calls of the following
  iterations up to one whose clock is the safe-stop timeout later, the loop of \<open>run\<close> returns with the shutdown complete
  and the decision of every axis published as disabled.\<close>

theorem stop_request_ends_run:
  assumes "foreign_handlers hs" "serving thread d" "dm_stop_requested d \<or> re_signal env" "\<not> dm_shutdown_complete d"
    and "stops_before (ce_now_ns (re_cycle env)) d" "0 < safe_stop_timeout (options (dm_safety d))"
    and "iterations_answered hs thread (env # envs) sleep_failed d"
    and "\<exists>later \<in> set envs. ce_now_ns (re_cycle env) + safe_stop_timeout (options (dm_safety d)) \<le> ce_now_ns (re_cycle later)"
  shows "\<exists>d'. run_loop hs thread (env # envs) sleep_failed d = Some d' \<and> dm_shutdown_complete d'
    \<and> (\<forall>axis < dm_axis_count d. daemon_axis_request d' axis = disable)"
proof -
  obtain d2 failed' where it: "run_iteration hs thread env sleep_failed d = Some (d2, failed')"
    and ans: "iterations_answered hs thread envs failed' d2" using assms(7) by (auto split: option.splits)
  obtain d1 ctx sent written where c: "cycle_owned hs thread (re_cycle env) ctx d1 = Some (d2, sent, written)"
    and d1: "serving thread d1" "dm_safety d1 = dm_safety d" "dm_axis_count d1 = dm_axis_count d" "dm_stop_requested d1"
    using run_iteration_cycle [OF it assms(2)] assms(3) by metis
  have b: "stops_before (ce_now_ns (re_cycle env)) d1" using assms(5) d1(2,3) by (simp add: stops_before_def)
  note sc = stopping_cycle [OF assms(1) d1(1) c d1(4) b disjI2 [OF refl], unfolded d1(2,3)]
  have "run_loop hs thread (env # envs) sleep_failed d = run_loop hs thread envs failed' d2"
    using assms(2,4) it by (subst run_loop.simps) (simp add: serving_def)
  moreover have "\<forall>axis < dm_axis_count d2. daemon_axis_request d2 axis = disable" if "dm_shutdown_complete d2"
    using sc(1,3) that by auto
  ultimately show ?thesis
    using stopping_run [OF assms(1), of thread d2 "ce_now_ns (re_cycle env)" envs failed'] sc(1) assms(6,8) ans by simp
qed

end
