(* ===== verification/Daemon_Examples.thy ===== *)
theory Daemon_Examples
  imports Daemon_Runs
begin

text \<open>
  A concrete daemon with three axes on an EtherCAT master: the cycle in which it enables its drives.
\<close>

definition serving_master :: ethercat_master where
  "serving_master =
     fst (master_open (fst (set_supervised_cycle_handler
       (make_master True [elmo_axis 0 csp, elmo_axis 1 csp, elmo_axis 2 csp]) kEthercatCycleHandler 7)) layout_backend)"

text \<open>The image of three drives in the state \<open>operation_enabled\<close> at position 2000.\<close>

definition axis_image :: bytes where
  "axis_image = replicate 10 0 @ [0xD0, 7, 0, 0] @ [0, 0] @ [0x27, 0] @ [8, 0] @ [0, 0, 0, 0]"

definition serving_daemon :: robot_daemon where
  "serving_daemon = commanded_daemon\<lparr>dm_master := Some serving_master, dm_cycle_owner_token := 9, dm_configured := True,
     dm_axes := replicate 3 (Some example_axis) @ replicate 9 None\<rparr>"

definition serving_domain :: domain_health where
  "serving_domain = \<lparr>dh_working_counter = 9, dh_expected_working_counter = Some 9, dh_working_counter_complete = True,
     dh_link_up = True, dh_all_slaves_operational = True, dh_dc_deviation_ns = 0, dh_operational_axes_mask = 0\<rparr>"

definition serving_env :: cycle_env where
  "serving_env = \<lparr>ce_refresh_ns = 1900, ce_serial = [], ce_dds_ns = 1910, ce_consume_ns = 1920, ce_now_ns = 2000, ce_finish_ns = 2100,
     ce_domain = serving_domain, ce_image = concat (replicate 3 axis_image), ce_cancel = (\<lambda>_. None), ce_transfer = (\<lambda>_ _. None)\<rparr>"

definition serving_context :: cycle_context where
  "serving_context = \<lparr>cx_sequence = 1, cx_scheduled_start = 1900, cx_period = 1000000\<rparr>"

definition no_handlers :: "robot_daemon handlers" where
  "no_handlers = \<lparr>hd_process_image = (\<lambda>img _ _ s. (img, s)), hd_cycle = (\<lambda>vs s. (vs, s)), hd_supervised = (\<lambda>vs _ _ s. (vs, s))\<rparr>"

lemma serving_master_simps:
  "cycle_inputs serving_master serving_domain (concat (replicate 3 axis_image)) = (example_pdos, True)"
  "master_serves 3 serving_master" "wired (xm_pdo_handles serving_master) (xm_axes serving_master) 72"
  "length (xm_pdo_handles serving_master) = 3"
  by code_simp+

lemma length_axis_images: "length (concat (replicate 3 axis_image)) = 72" by (simp add: axis_image_def eval_nat_numeral)

lemma no_foreign_handlers: "foreign_handlers no_handlers"
  by (simp add: foreign_handlers_def keeps_lengths_def no_handlers_def)

lemma serving_daemon_simps:
  "dm_axis_count serving_daemon = 3" "dm_safety serving_daemon = commanded_supervisor" "dm_master serving_daemon = Some serving_master"
  "dm_registry serving_daemon = make_registry" "\<not> dm_stop_requested serving_daemon"
  "command_state serving_daemon = (0, 0, 0, 0, None)" "dm_dds serving_daemon = None"
  "dm_axes serving_daemon = replicate 3 (Some example_axis) @ replicate 9 None"
  "dm_cycle_owner_token serving_daemon = 9"
  by (simp_all add: serving_daemon_def commanded_daemon_def make_daemon_def command_state_def)

lemma serving_daemon_serves: "serving 9 serving_daemon"
  using commanded_shape serving_master_simps(2)
  by (simp add: serving_def serving_daemon_simps commanded_simps)
     (simp add: serving_daemon_def commanded_daemon_def make_daemon_def)

lemma serving_consume: "fst (consume_staged_commands t serving_daemon) = serving_daemon"
  using serving_daemon_simps(6) by (simp add: consume_staged_commands_def consume_observed_def command_state_def)

lemma serving_entry: "cycle_entry serving_env serving_context serving_daemon = Some serving_daemon"
  by (simp add: cycle_entry_def refresh_commands_owned_def serving_consume serving_daemon_simps enqueue_servos_def
      registry_cycle_def make_registry_def)

lemma serving_evaluated:
  "evaluated_supervisor 1920 2000 serving_daemon = commanded_supervisor"
  "evaluated_bus 2000 serving_domain True serving_daemon = Safety_Examples.example_bus"
proof -
  show "evaluated_supervisor 1920 2000 serving_daemon = commanded_supervisor"
    by (simp add: evaluated_supervisor_def serving_consume serving_daemon_simps)
  have "serial_stop_mask serving_daemon (safety_snapshot make_registry 2000) = 0"
    by (simp add: serial_stop_mask_def safety_snapshot_def make_registry_def)
  then show "evaluated_bus 2000 serving_domain True serving_daemon = Safety_Examples.example_bus"
    by (simp add: evaluated_bus_def serving_daemon_simps safety_bus_state_of_def serving_domain_def Safety_Examples.example_bus_def)
qed

lemma serving_device_cycle:
  assumes "process_device_cycle_owned 1920 2000 example_pdos serving_domain True serving_daemon = (pdos', d')" and "axis < 3"
  shows "control_word (pdos' ! axis) = 0xF"
proof -
  obtain spv dec where ev: "evaluate commanded_supervisor Safety_Examples.example_bus example_pdos 2000 = (spv, dec)" by fastforce
  have run: "dm_running serving_daemon" using serving_daemon_serves by (simp add: serving_def)
  have n: "axis_count commanded_supervisor \<le> kRobotIoMaximumAxes" "length (states commanded_supervisor) = kRobotIoMaximumAxes"
      "length (last_requests commanded_supervisor) = kRobotIoMaximumAxes"
    using commanded_shape by (simp_all add: supervisor_shape_def)
  have "ev_commands dec ! axis = output_command commanded_supervisor axis (ev_requests dec ! axis)"
    using evaluate_axes [OF ev commanded_simps(1) _ n] assms(2) commanded_simps(2) by fastforce
  also have "ev_requests dec ! axis = enable" using example_evaluation(1) [OF assms(2)] ev by simp
  finally have "ev_commands dec ! axis = example_command kAxisCommandEnable"
    using commanded_nth(1) [OF assms(2)] by (simp add: output_command_def commanded_simps example_axis_command_def example_command_def)
  then show ?thesis
    using device_cycle(1) [OF run _ ev [folded serving_evaluated] assms(1)] assms(2)
    by (simp add: serving_daemon_simps nth_append example_enable_cycle)
qed

theorem drive_enabled_only_when_clear_witness:
  "axis_requested commanded_supervisor 0 = enable \<and> axis_clear commanded_supervisor Safety_Examples.example_bus example_pdos 2000 2"
proof -
  obtain pdos' d' where pc: "process_device_cycle_owned 1920 2000 example_pdos serving_domain True serving_daemon = (pdos', d')" by fastforce
  have own: "dm_cycle_owner_token serving_daemon = 9" by (simp add: serving_daemon_simps)
  have env: "ce_consume_ns serving_env = 1920" "ce_now_ns serving_env = 2000" "ce_domain serving_env = serving_domain"
    "ce_image serving_env = concat (replicate 3 axis_image)"
    by (simp_all add: serving_env_def)
  have ci: "cycle_inputs serving_master (ce_domain serving_env) (ce_image serving_env) = (example_pdos, True)"
    unfolding env by (rule serving_master_simps(1))
  from master_cycle_daemon [OF no_foreign_handlers serving_master_simps(2) own ci, unfolded env, OF pc,
      of "ce_cancel serving_env" "ce_transfer serving_env"]
  obtain m' img where mc: "master_cycle (daemon_handlers no_handlers 9 serving_env) (ce_cancel serving_env) (ce_transfer serving_env)
      (ce_domain serving_env) (ce_image serving_env) serving_master serving_daemon = (m', Some img, d')"
    and vw: "xm_pdo_views m' = pdos'" unfolding env by blast
  have w: "wired (xm_pdo_handles serving_master) (xm_axes serving_master) (length (ce_image serving_env))"
    using serving_master_simps(3) by (simp add: env length_axis_images)
  have lp: "length (xm_pdo_views serving_master) = length (xm_pdo_handles serving_master)" "0 < length (xm_pdo_handles serving_master)"
    using serving_master_simps(2,4) by (simp_all add: master_serves_def)
  have cw: "field_read (ph_control_word (xm_pdo_handles serving_master ! 0)) img = Some (0xF :: u16)"
    using cycle_outputs [OF mc daemon_handlers_lengths [OF no_foreign_handlers] w lp] ci vw serving_device_cycle [OF pc, of 0] by simp
  have "\<exists>d''. cycle_owned no_handlers 9 serving_env serving_context serving_daemon = Some (d'', Some img, [])"
    using serving_entry mc
    by (auto simp: cycle_owned_def cycle_entry_def Let_def cycle_devices_def serving_daemon_simps registry_cycle_def
        make_registry_def refresh_commands_owned_def serving_consume split: option.splits)
  then obtain d'' where co: "cycle_owned no_handlers 9 serving_env serving_context serving_daemon = Some (d'', Some img, [])" by blast
  have word: "(0xF :: u16) \<in> {6, 7, 0xF}" by simp
  have "same_group commanded_supervisor 0 2" by (simp add: same_group_def commanded_simps safety_config_of_def)
  then show ?thesis
    using drive_enabled_only_when_clear [OF no_foreign_handlers serving_daemon_serves co serving_daemon_simps(3) w _ _ cw word]
      serving_entry ci serving_evaluated serving_master_simps(4)
    by (auto simp: serving_daemon_simps env Let_def)
qed

text \<open>The same daemon receives the termination signal; its loop ends with the iteration a quarter of a second later.\<close>

definition signalled_env :: "int \<Rightarrow> run_env" where
  "signalled_env t = \<lparr>re_signal = True, re_wait_ns = t, re_sleeps = [0], re_started_ns = t, re_unscheduled_ns = t,
     re_cycle = serving_env\<lparr>ce_now_ns := t\<rparr>\<rparr>"

theorem stop_request_ends_run_witness:
  "\<exists>d'. run_loop no_handlers 9 [signalled_env 2000, signalled_env 1002000, signalled_env 250002000] False serving_daemon = Some d'
     \<and> dm_shutdown_complete d' \<and> daemon_axis_request d' 2 = disable"
proof -
  let ?envs = "[signalled_env 1002000, signalled_env 250002000]"
  have o: "safe_stop_timeout (options (dm_safety serving_daemon)) = 250000000"
    by (simp add: serving_daemon_simps commanded_simps default_options_def)
  have ans: "iterations_answered no_handlers 9 (signalled_env 2000 # ?envs) False serving_daemon"
    by (rule idle_answered [OF no_foreign_handlers serving_daemon_serves])
       (simp_all add: serving_daemon_simps make_registry_def signalled_env_def EINTR_def)
  have "stops_before 2000 serving_daemon"
    by (simp add: stops_before_def serving_daemon_simps commanded_simps initial_axis_safety_state_def kRobotIoMaximumAxes_def)
  moreover have "\<not> dm_shutdown_complete serving_daemon"
    by (simp add: serving_daemon_def commanded_daemon_def make_daemon_def)
  ultimately show ?thesis
    using stop_request_ends_run [OF no_foreign_handlers serving_daemon_serves _ _ _ _ ans] o
    by (auto simp: signalled_env_def serving_daemon_simps)
qed

end
