(* ===== verification/Dds_Topics_Props.thy ===== *)
theory Dds_Topics_Props
  imports Dds_Topics
begin

text \<open>Which topics a profile gets: one per sensor, one per actuator, one commit topic per execution group and the health
  topic, in this order and with different names.\<close>

lemma Inl_failure_case [simp]: "Inl e = failure c m \<longleftrightarrow> e = Error c m" "failure c m \<noteq> Inr v" "Inr v \<noteq> failure c m"
  by (auto simp: failure_def)

definition group_of :: "device_config \<Rightarrow> string" where
  "group_of device = the (dv_args device ''safety_group'')"

definition topic_of :: "topic_kind \<Rightarrow> string \<Rightarrow> string \<Rightarrow> string \<Rightarrow> device_config \<Rightarrow> topic_descriptor" where
  "topic_of kind direction suffix robot_id device =
     \<lparr>td_kind = kind, td_device_kind = projr (device_kind_for device), td_robot_id = robot_id, td_device_id = dv_name device,
      td_topic_name = device_topic (normalize_chars [] False robot_id) direction (normalize_chars [] False (dv_name device)) suffix,
      td_execution_group = (if dv_type device = ''cia402'' then group_of device else [])\<rparr>"

definition commit_of :: "string \<Rightarrow> string \<Rightarrow> topic_descriptor" where
  "commit_of robot_id g = \<lparr>td_kind = commit_topic, td_device_kind = ethercat_device, td_robot_id = robot_id, td_device_id = g,
     td_topic_name = ''robot_io_'' @ normalize_chars [] False robot_id @ ''_ethercat_'' @ normalize_chars [] False g @ ''_command_commit'',
     td_execution_group = g\<rparr>"

text \<open>The invariant of the construction.\<close>

definition build_ok :: "registry_build \<Rightarrow> bool" where
  "build_ok rb \<longleftrightarrow>
     rb_topic_names rb = set (map td_topic_name (rb_descriptors rb)) \<and> distinct (map td_topic_name (rb_descriptors rb))
     \<and> distinct (map fst (rb_ethercat_groups rb)) \<and> (\<forall>(k, v) \<in> set (rb_ethercat_groups rb). k = normalize_chars [] False v)"

lemma normalize_identifier_Inr:
  "normalize_identifier v label = Inr x \<Longrightarrow> x = normalize_chars [] False v"
  by (auto simp: normalize_identifier_def Let_def success_def split: if_splits)

lemma append_descriptor_ok:
  assumes "append_descriptor rb d = Inr rb'" "build_ok rb"
  shows "build_ok rb' \<and> rb_descriptors rb' = rb_descriptors rb @ [d] \<and> rb_ethercat_groups rb' = rb_ethercat_groups rb"
  using assms by (auto simp: append_descriptor_def build_ok_def success_def split: if_splits)

definition new_groups :: "topic_kind \<Rightarrow> device_config list \<Rightarrow> string set" where
  "new_groups kind devices = (if kind = command_topic then group_of ` {d \<in> set devices. dv_type d = ''cia402''} else {})"

lemma new_groups_single:
  "new_groups kind [device] = (if kind = command_topic \<and> dv_type device = ''cia402'' then {group_of device} else {})"
  by (auto simp: new_groups_def)

lemma device_kind_cia402: "device_kind_for device = Inr k \<Longrightarrow> k = cia402_device \<longleftrightarrow> dv_type device = ''cia402''"
  by (auto simp: device_kind_for_def success_def split: if_splits)

lemma register_group_ok:
  assumes "register_group rb kind device_kind device = Inr (rb', g)" "build_ok rb" "device_kind_for device = Inr device_kind"
  shows "build_ok rb' \<and> rb_descriptors rb' = rb_descriptors rb
    \<and> set (map snd (rb_ethercat_groups rb')) = set (map snd (rb_ethercat_groups rb)) \<union> new_groups kind [device]
    \<and> g = (if dv_type device = ''cia402'' then group_of device else [])"
proof (cases "device_kind = cia402_device")
  case True
  then have ty: "dv_type device = ''cia402''" using device_kind_cia402 [OF assms(3)] by simp
  obtain k where k: "ethercat_group_for device = Inr k" using assms(1) True by (auto simp: register_group_def split: sum.splits)
  then have key: "k = normalize_chars [] False (group_of device)"
    by (auto simp: ethercat_group_for_def group_of_def dest: normalize_identifier_Inr split: option.splits)
  show ?thesis
  proof (cases "kind = command_topic")
    case cmd: True
    show ?thesis
    proof (cases "map_of (rb_ethercat_groups rb) k")
      case None
      then have "k \<notin> fst ` set (rb_ethercat_groups rb)" by (simp add: map_of_eq_None_iff)
      moreover have "rb' = rb\<lparr>rb_ethercat_groups := rb_ethercat_groups rb @ [(k, group_of device)]\<rparr>" "g = group_of device"
        using assms(1) None True k cmd by (auto simp: register_group_def success_def group_of_def Let_def)
      ultimately show ?thesis using assms(2) key cmd ty by (simp add: build_ok_def new_groups_single)
    next
      case (Some v)
      then have "(k, v) \<in> set (rb_ethercat_groups rb)" by (rule map_of_SomeD)
      then show ?thesis using assms Some True k key cmd ty
        by (force simp: register_group_def success_def new_groups_def group_of_def Let_def split: if_splits)
    qed
  next
    case False
    then show ?thesis using assms True k ty by (auto simp: register_group_def success_def new_groups_def group_of_def Let_def)
  qed
next
  case False
  then show ?thesis using assms device_kind_cia402 [OF assms(3)] by (auto simp: register_group_def success_def new_groups_def)
qed

lemma append_topics_ok:
  assumes "append_device_descriptors devices kind direction suffix robot_id nid rb = Inr rb'" "build_ok rb"
    and "nid = normalize_chars [] False robot_id"
  shows "build_ok rb' \<and> rb_descriptors rb' = rb_descriptors rb @ map (topic_of kind direction suffix robot_id) devices
    \<and> set (map snd (rb_ethercat_groups rb')) = set (map snd (rb_ethercat_groups rb)) \<union> new_groups kind devices
    \<and> (\<forall>x \<in> set devices. \<exists>k. device_kind_for x = Inr k)"
  using assms(1,2)
proof (induction devices arbitrary: rb)
  case (Cons device devices)
  from Cons.prems(1) obtain k i rb1 g rb2 where
    k: "device_kind_for device = Inr k" and i: "normalize_identifier (dv_name device) ''device_id'' = Inr i"
    and g: "register_group rb kind k device = Inr (rb1, g)"
    and a: "append_descriptor rb1 \<lparr>td_kind = kind, td_device_kind = k, td_robot_id = robot_id, td_device_id = dv_name device,
        td_topic_name = device_topic nid direction i suffix, td_execution_group = g\<rparr> = Inr rb2"
    and rest: "append_device_descriptors devices kind direction suffix robot_id nid rb2 = Inr rb'"
    by (auto split: sum.splits)
  note G = register_group_ok [OF g Cons.prems(2) k]
  note A = append_descriptor_ok [OF a]
  have td: "topic_of kind direction suffix robot_id device = \<lparr>td_kind = kind, td_device_kind = k, td_robot_id = robot_id,
      td_device_id = dv_name device, td_topic_name = device_topic nid direction i suffix, td_execution_group = g\<rparr>"
    using G normalize_identifier_Inr [OF i] k assms(3) by (simp add: topic_of_def)
  have ok: "build_ok rb2" using G A by blast
  show ?case using Cons.IH [OF rest ok] G A td k by (auto simp: new_groups_def)
qed (auto simp: success_def new_groups_def)

lemma append_commits_ok:
  assumes "append_commits groups robot_id nid rb = Inr rb'" "build_ok rb" "nid = normalize_chars [] False robot_id"
    and "\<forall>(k, v) \<in> set groups. k = normalize_chars [] False v"
  shows "build_ok rb' \<and> rb_descriptors rb' = rb_descriptors rb @ map (commit_of robot_id) (map snd groups)"
  using assms(1,2,4)
proof (induction groups arbitrary: rb)
  case (Cons kv groups)
  obtain k v where kv: "kv = (k, v)" by fastforce
  have key: "k = normalize_chars [] False v" using Cons.prems(3) kv by simp
  have c: "commit_of robot_id v = \<lparr>td_kind = commit_topic, td_device_kind = ethercat_device, td_robot_id = robot_id,
      td_device_id = v, td_topic_name = ''robot_io_'' @ nid @ ''_ethercat_'' @ k @ ''_command_commit'', td_execution_group = v\<rparr>"
    by (simp add: commit_of_def key assms(3))
  from Cons.prems(1) obtain rb1 where a: "append_descriptor rb (commit_of robot_id v) = Inr rb1"
    and rest: "append_commits groups robot_id nid rb1 = Inr rb'"
    unfolding kv append_commits.simps c [symmetric] by (auto split: sum.splits)
  have key': "\<forall>(k, v) \<in> set groups. k = normalize_chars [] False v" using Cons.prems(3) by simp
  note A = append_descriptor_ok [OF a Cons.prems(2)]
  show ?case using Cons.IH [OF rest _ key'] A kv by simp
qed (simp add: success_def)

text \<open>The registry of a profile, as the endpoints see it.\<close>

lemma topic_registry_parts:
  assumes "build_dds_topic_registry profile robot_id = success ds"
  obtains groups where "distinct groups"
    "set groups = group_of ` {a \<in> set (rp_actuators profile). dv_type a = ''cia402''}"
    "ds = map (topic_of state_topic ''sensor'' ''state'' robot_id) (rp_sensors profile)
        @ map (topic_of command_topic ''actuator'' ''command'' robot_id) (rp_actuators profile)
        @ map (commit_of robot_id) groups @ [health_descriptor robot_id (normalize_chars [] False robot_id)]"
    "distinct (map td_topic_name ds)"
    "\<forall>x \<in> set (rp_sensors profile) \<union> set (rp_actuators profile). \<exists>k. device_kind_for x = Inr k"
proof -
  from assms obtain nid rb1 rb2 rb3 rb4 where
    n: "normalize_identifier robot_id ''robot_id'' = Inr nid"
    and s: "append_device_descriptors (rp_sensors profile) state_topic ''sensor'' ''state'' robot_id nid empty_build = Inr rb1"
    and a: "append_device_descriptors (rp_actuators profile) command_topic ''actuator'' ''command'' robot_id nid rb1 = Inr rb2"
    and c: "append_commits (sort_key fst (rb_ethercat_groups rb2)) robot_id nid rb2 = Inr rb3"
    and h: "append_descriptor rb3 (health_descriptor robot_id nid) = Inr rb4" and ds: "ds = rb_descriptors rb4"
    by (auto simp: build_dds_topic_registry_def success_def split: sum.splits)
  note nid = normalize_identifier_Inr [OF n]
  have e: "build_ok empty_build" by (simp add: build_ok_def empty_build_def)
  note S = append_topics_ok [OF s e nid]
  then have S1: "build_ok rb1" by blast
  note A = append_topics_ok [OF a S1 nid]
  then have A1: "build_ok rb2" by blast
  then have keys: "\<forall>(k, v) \<in> set (sort_key fst (rb_ethercat_groups rb2)). k = normalize_chars [] False v"
    by (simp add: build_ok_def)
  note C = append_commits_ok [OF c A1 nid keys]
  then have C1: "build_ok rb3" by blast
  note H = append_descriptor_ok [OF h C1]
  let ?groups = "map snd (sort_key fst (rb_ethercat_groups rb2))"
  have "distinct (map fst (sort_key fst (rb_ethercat_groups rb2)))"
    using A1 by (simp add: build_ok_def distinct_map inj_on_def)
  moreover have "map fst (sort_key fst (rb_ethercat_groups rb2)) = map (normalize_chars [] False) ?groups"
    using keys by (auto intro: map_cong)
  ultimately have "distinct ?groups" by (metis distinct_map)
  moreover have "set ?groups = group_of ` {a \<in> set (rp_actuators profile). dv_type a = ''cia402''}"
    using S A by (auto simp: new_groups_def empty_build_def)
  moreover have "ds = map (topic_of state_topic ''sensor'' ''state'' robot_id) (rp_sensors profile)
        @ map (topic_of command_topic ''actuator'' ''command'' robot_id) (rp_actuators profile)
        @ map (commit_of robot_id) ?groups @ [health_descriptor robot_id (normalize_chars [] False robot_id)]"
    using S A C H nid ds by (simp add: empty_build_def)
  moreover have "distinct (map td_topic_name ds)" using H unfolding ds build_ok_def by blast
  moreover have "\<forall>x \<in> set (rp_sensors profile) \<union> set (rp_actuators profile). \<exists>k. device_kind_for x = Inr k"
    using S A by blast
  ultimately show ?thesis using that by blast
qed

end
