(* ===== verification/Dds_Host.thy ===== *)
theory Dds_Host
  imports Dds_Endpoint
begin

text \<open>
  The DDS endpoint of the policy host, class \<open>DdsRuntimeRobotIo\<close> of \<^verbatim>\<open>src/runtime/dds_robot_io.cpp\<close>: the counterpart of
  \<^verbatim>\<open>Dds_Endpoint\<close>, built from the same topics.  What the readers take is an argument and what the writers are given is a
  result, channel by channel.
\<close>

section \<open>State\<close>

record dds_host =
  hh_robot_id :: string
  hh_session_id :: string
  hh_axis_count :: nat
  hh_servo_count :: nat
  hh_damiao_count :: nat
  hh_axis_feedback :: "axis_feedback snapshot"
  hh_servo_feedback :: "servo_feedback snapshot"
  hh_damiao_feedback :: "damiao_feedback snapshot"
  hh_cia402_readers :: "string list"
  hh_st3215_readers :: "string list"
  hh_damiao_readers :: "string list"
  hh_cia402_writers :: "string list"
  hh_st3215_writers :: "string list"
  hh_damiao_writers :: "string list"
  hh_commit_writers :: "(string \<times> string) list"

definition zero_damiao_feedback :: damiao_feedback where
  "zero_damiao_feedback = \<lparr>df_motor_id = 0, df_error_code = 0, df_position = Fin 0, df_velocity = Fin 0, df_torque = Fin 0,
     df_mos_temperature_c = 0, df_rotor_temperature_c = 0\<rparr>"

definition device_ids :: "topic_kind \<Rightarrow> device_kind \<Rightarrow> topic_descriptor list \<Rightarrow> string list" where
  "device_ids kind device ds = map td_device_id (descriptors_of kind device ds)"

definition make_host :: "robot_profile \<Rightarrow> topic_descriptor list \<Rightarrow> dds_host" where
  "make_host profile ds = \<lparr>hh_robot_id = dc_robot_id (rp_dds profile), hh_session_id = ''policy-runtime-host'',
     hh_axis_count = length (rp_axes profile), hh_servo_count = length (rp_st3215_servos profile),
     hh_damiao_count = length (rp_damiao_motors profile),
     hh_axis_feedback = snapshot.make 0 0 (length (rp_axes profile)) (replicate kRobotIoMaximumAxes zero_feedback),
     hh_servo_feedback = snapshot.make 0 0 (length (rp_st3215_servos profile)) (replicate kRobotIoMaximumServos initial_servo_feedback),
     hh_damiao_feedback = snapshot.make 0 0 (length (rp_damiao_motors profile)) (replicate kRobotIoMaximumServos zero_damiao_feedback),
     hh_cia402_readers = device_ids state_topic cia402_device ds, hh_st3215_readers = device_ids state_topic st3215_device ds,
     hh_damiao_readers = device_ids state_topic damiao_device ds, hh_cia402_writers = device_ids command_topic cia402_device ds,
     hh_st3215_writers = device_ids command_topic st3215_device ds, hh_damiao_writers = device_ids command_topic damiao_device ds,
     hh_commit_writers =
       map (\<lambda>d. (td_device_id d, td_execution_group d)) (filter (\<lambda>d. td_kind d = commit_topic) ds)\<rparr>"

definition make_dds_runtime_robot_io :: "robot_profile \<Rightarrow> string option \<Rightarrow> dds_host result" where
  "make_dds_runtime_robot_io profile participant =
     (if dc_backend (rp_dds profile) \<noteq> dds_backend then failure invalid_argument ''robot profile does not select DDS''
      else case build_dds_topic_registry profile (dc_robot_id (rp_dds profile)) of
             Inl e \<Rightarrow> Inl e
           | Inr ds \<Rightarrow>
               (case participant of
                  Some what \<Rightarrow> failure io (''failed to create DDS host endpoint: '' @ what)
                | None \<Rightarrow> success (make_host profile ds)))"

section \<open>Reading states\<close>

text \<open>Every reading takes the samples of all channels in order; \<open>store\<close> writes one value into the snapshot.\<close>

definition store_state ::
  "('m \<Rightarrow> message_header) \<Rightarrow> ('m \<Rightarrow> 'v \<Rightarrow> 'v) \<Rightarrow> string \<Rightarrow> nat \<Rightarrow> string \<Rightarrow> 'm sample \<Rightarrow> 'v snapshot \<Rightarrow> 'v snapshot" where
  "store_state header store robot_id index device_id sample snap =
     (case sample of
        None \<Rightarrow> snap
      | Some state \<Rightarrow>
          if index \<ge> snapshot.sn_axis_count snap \<or> \<not> header_matches robot_id device_id (header state) then snap
          else snapshot.make (max (snapshot.sn_sequence snap) (mh_sequence_number (header state)))
                 (max (snapshot.sn_timestamp_ns snap) (mh_source_timestamp_ns (header state))) (snapshot.sn_axis_count snap)
                 ((snapshot.sn_axes snap)[index := store state (snapshot.sn_axes snap ! index)]))"

definition store_states ::
  "('m \<Rightarrow> message_header) \<Rightarrow> ('m \<Rightarrow> 'v \<Rightarrow> 'v) \<Rightarrow> string \<Rightarrow> string list \<Rightarrow> (nat \<Rightarrow> 'm sample list) \<Rightarrow> 'v snapshot \<Rightarrow> 'v snapshot" where
  "store_states header store robot_id readers input =
     fold (\<lambda>(i, device_id). fold (store_state header store robot_id i device_id) (input i)) (enumerate 0 readers)"

definition axis_feedback_from :: "cia402_sensor_state \<Rightarrow> axis_feedback \<Rightarrow> axis_feedback" where
  "axis_feedback_from state v =
     v\<lparr>fb_sequence := mh_sequence_number (xs_header state), fb_timestamp_ns := mh_source_timestamp_ns (xs_header state),
       fb_position := xs_position state, fb_velocity := xs_velocity state, fb_effort := xs_torque state,
       fb_status_word := ucast (xs_status_word state), fb_flags := mh_flags (xs_header state),
       fb_mode_display := word_of_int (xs_mode_display state)\<rparr>"

definition servo_feedback_from :: "st3215_sensor_state \<Rightarrow> servo_feedback \<Rightarrow> servo_feedback" where
  "servo_feedback_from state v =
     v\<lparr>vf_feedback_sequence := mh_sequence_number (zs_header state), vf_timestamp_ns := mh_source_timestamp_ns (zs_header state),
       vf_position_rad := zs_position_radians state, vf_raw_position := ucast (zs_position_units state),
       vf_flags := mh_flags (zs_header state), vf_status_error := ucast (zs_error_flags state)\<rparr>"

definition damiao_feedback_from :: "damiao_sensor_state \<Rightarrow> damiao_feedback \<Rightarrow> damiao_feedback" where
  "damiao_feedback_from state v = \<lparr>df_motor_id = ys_motor_id state, df_error_code = ys_error_code state,
     df_position = ys_position state, df_velocity = ys_velocity state, df_torque = ys_torque state,
     df_mos_temperature_c = sint (word_of_int (ys_mos_temperature_c state) :: u8),
     df_rotor_temperature_c = sint (word_of_int (ys_rotor_temperature_c state) :: u8)\<rparr>"

definition read_feedback :: "(nat \<Rightarrow> cia402_sensor_state sample list) \<Rightarrow> dds_host \<Rightarrow> dds_host \<times> axis_feedback snapshot" where
  "read_feedback input h =
     (let s = store_states xs_header axis_feedback_from (hh_robot_id h) (hh_cia402_readers h) input (hh_axis_feedback h)
      in (h\<lparr>hh_axis_feedback := s\<rparr>, s))"

definition read_servo_feedback :: "(nat \<Rightarrow> st3215_sensor_state sample list) \<Rightarrow> dds_host \<Rightarrow> dds_host \<times> servo_feedback snapshot" where
  "read_servo_feedback input h =
     (let s = store_states zs_header servo_feedback_from (hh_robot_id h) (hh_st3215_readers h) input (hh_servo_feedback h)
      in (h\<lparr>hh_servo_feedback := s\<rparr>, s))"

definition read_damiao_feedback :: "(nat \<Rightarrow> damiao_sensor_state sample list) \<Rightarrow> dds_host \<Rightarrow> dds_host \<times> damiao_feedback snapshot" where
  "read_damiao_feedback input h =
     (let s = store_states ys_header damiao_feedback_from (hh_robot_id h) (hh_damiao_readers h) input (hh_damiao_feedback h)
      in (h\<lparr>hh_damiao_feedback := s\<rparr>, s))"

section \<open>Publishing commands\<close>

definition fill_header :: "dds_host \<Rightarrow> string \<Rightarrow> u64 \<Rightarrow> int \<Rightarrow> message_header" where
  "fill_header h device_id sequence timestamp_ns =
     empty_header\<lparr>mh_schema_version := DDS_SCHEMA_VERSION, mh_robot_id := hh_robot_id h, mh_device_id := device_id,
       mh_session_id := hh_session_id h, mh_sequence_number := sequence, mh_source_timestamp_ns := timestamp_ns\<rparr>"

definition cia402_message :: "dds_host \<Rightarrow> u64 \<Rightarrow> int \<Rightarrow> string \<Rightarrow> axis_command \<Rightarrow> cia402_actuator_command" where
  "cia402_message h sequence timestamp_ns device_id c =
     \<lparr>xa_header = fill_header h device_id sequence timestamp_ns, xa_target = cmd_target c, xa_mode = 0,
      xa_command_flags = cmd_flags c, xa_command_epoch = sequence\<rparr>"

definition commit_message :: "dds_host \<Rightarrow> u64 \<Rightarrow> int \<Rightarrow> string \<times> string \<Rightarrow> ethercat_command_commit" where
  "commit_message h sequence timestamp_ns w =
     \<lparr>ec_header = fill_header h (fst w) sequence timestamp_ns, ec_execution_group = snd w, ec_command_epoch = sequence\<rparr>"

definition st3215_message :: "dds_host \<Rightarrow> u64 \<Rightarrow> int \<Rightarrow> string \<Rightarrow> servo_command \<Rightarrow> st3215_actuator_command" where
  "st3215_message h sequence timestamp_ns device_id c =
     \<lparr>za_header = fill_header h device_id sequence timestamp_ns, za_target_radians = vc_target_position_rad c,
      za_enabled = vc_enabled c, za_fault_reset = vc_emergency_stop c\<rparr>"

definition damiao_message :: "dds_host \<Rightarrow> u64 \<Rightarrow> int \<Rightarrow> string \<Rightarrow> mit_command \<times> bool \<Rightarrow> damiao_actuator_command" where
  "damiao_message h sequence timestamp_ns device_id c =
     \<lparr>ya_header = fill_header h device_id sequence timestamp_ns, ya_enabled = snd c, ya_fault_reset = False,
      ya_position = mc_position (fst c), ya_velocity = mc_velocity (fst c), ya_kp = mc_kp (fst c), ya_kd = mc_kd (fst c),
      ya_torque = mc_torque (fst c)\<rparr>"

record host_commands =
  hc_cia402 :: "cia402_actuator_command list"
  hc_commits :: "ethercat_command_commit list"
  hc_st3215 :: "st3215_actuator_command list"

text \<open>
  The messages are written one after another.  \<open>exception\<close> says how many writes go well before one throws, and the text of
  the exception; the messages before it have been written.  Both operations return what was written.
\<close>

definition empty_batch :: host_commands where
  "empty_batch = \<lparr>hc_cia402 = [], hc_commits = [], hc_st3215 = []\<rparr>"

definition batch_size :: "host_commands \<Rightarrow> nat" where
  "batch_size b = length (hc_cia402 b) + length (hc_commits b) + length (hc_st3215 b)"

definition batch_prefix :: "nat \<Rightarrow> host_commands \<Rightarrow> host_commands" where
  "batch_prefix n b = \<lparr>hc_cia402 = take n (hc_cia402 b), hc_commits = take (n - length (hc_cia402 b)) (hc_commits b),
     hc_st3215 = take (n - length (hc_cia402 b) - length (hc_commits b)) (hc_st3215 b)\<rparr>"

definition command_batch :: "dds_host \<Rightarrow> axis_command list \<Rightarrow> servo_command list \<Rightarrow> u64 \<Rightarrow> int \<Rightarrow> host_commands" where
  "command_batch h axis_commands servo_commands sequence timestamp_ns =
     \<lparr>hc_cia402 = map (\<lambda>(w, c). cia402_message h sequence timestamp_ns w c) (zip (hh_cia402_writers h) axis_commands),
      hc_commits = map (commit_message h sequence timestamp_ns) (hh_commit_writers h),
      hc_st3215 = map (\<lambda>(w, c). st3215_message h sequence timestamp_ns w c) (zip (hh_st3215_writers h) servo_commands)\<rparr>"

definition publish_commands ::
  "(nat \<times> string) option \<Rightarrow> dds_host \<Rightarrow> axis_command list \<Rightarrow> servo_command list \<Rightarrow> u64 \<Rightarrow> int \<Rightarrow> host_commands \<times> unit result" where
  "publish_commands exception h axis_commands servo_commands sequence timestamp_ns =
     (if length axis_commands \<noteq> length (hh_cia402_writers h) \<or> length servo_commands \<noteq> length (hh_st3215_writers h)
      then (empty_batch, failure invalid_argument ''DDS command count mismatch'')
      else let batch = command_batch h axis_commands servo_commands sequence timestamp_ns
           in case exception of
                None \<Rightarrow> (batch, success ())
              | Some (n, what) \<Rightarrow>
                  if n < batch_size batch then (batch_prefix n batch, failure io (''DDS command publish failed: '' @ what))
                  else (batch, success ()))"

definition publish_damiao_commands ::
  "(nat \<times> string) option \<Rightarrow> dds_host \<Rightarrow> mit_command list \<Rightarrow> bool list \<Rightarrow> u64 \<Rightarrow> int \<Rightarrow> damiao_actuator_command list \<times> unit result" where
  "publish_damiao_commands exception h cs enabled_flags sequence timestamp_ns =
     (if length cs \<noteq> length (hh_damiao_writers h) \<or> length enabled_flags \<noteq> length cs
      then ([], failure invalid_argument ''DDS Damiao command count mismatch'')
      else let batch = map (\<lambda>(w, c). damiao_message h sequence timestamp_ns w c) (zip (hh_damiao_writers h) (zip cs enabled_flags))
           in case exception of
                None \<Rightarrow> (batch, success ())
              | Some (n, what) \<Rightarrow>
                  if n < length batch then (take n batch, failure io (''DDS Damiao publish failed: '' @ what)) else (batch, success ()))"

end
