(* ===== verification/Dds_Roundtrip.thy ===== *)
theory Dds_Roundtrip
  imports Dds_Topics_Props Dds_Host Daemon_Cycle
begin

text \<open>
  The two DDS endpoints together.  Both derive their channels from one topic registry, so what the host writes to its
  channel of a device is what the daemon reads from its channel of that device: the lemmas follow one batch of commands
  from the host to the daemon's supervisor, for a robot whose axes form one execution group.
\<close>

section \<open>Channels of both sides\<close>

lemma fold_enumerate: "fold (\<lambda>(i, x). f i x) (enumerate n xs) s = fold (\<lambda>i. f (n + i) (xs ! i)) [0..<length xs] s"
proof (induction xs arbitrary: n s)
  case (Cons x xs)
  have "fold (\<lambda>i. f (n + i) ((x # xs) ! i)) [0..<Suc (length xs)] s
      = fold (\<lambda>i. f (Suc n + i) (xs ! i)) [0..<length xs] (f n x s)"
    by (simp add: upt_conv_Cons map_Suc_upt [symmetric] fold_map comp_def del: upt_Suc)
  then show ?case using Cons.IH by simp
qed simp

lemma take_all_upt: "take_all f channels input s = fold (\<lambda>i. fold (f (channels ! i)) (input i)) [0..<length channels] s"
  using fold_enumerate [of "\<lambda>i c. fold (f c) (input i)" 0 channels s] by (simp add: take_all_def)

lemma take_all_none: "take_all f channels (\<lambda>_. []) s = s"
  by (simp add: take_all_upt fold_invariant [where Q = "\<lambda>_. True" and P = "\<lambda>x. x = s"] id_def)

lemma map_filter_guard: "List.map_filter (\<lambda>x. if P x then f x else None) xs = List.map_filter f (filter P xs)"
  by (induction xs) (simp_all add: List.map_filter_def)

definition cia402_actuators :: "robot_profile \<Rightarrow> device_config list" where
  "cia402_actuators profile = filter (\<lambda>a. dv_type a = ''cia402'') (rp_actuators profile)"

definition st3215_actuators :: "robot_profile \<Rightarrow> device_config list" where
  "st3215_actuators profile = filter (\<lambda>a. dv_type a = ''st3215'') (rp_actuators profile)"

definition actuator_topic :: "string \<Rightarrow> device_config \<Rightarrow> topic_descriptor" where
  "actuator_topic = topic_of command_topic ''actuator'' ''command''"

lemma command_descriptors:
  assumes "build_dds_topic_registry profile robot_id = success ds"
  shows "descriptors_of command_topic cia402_device ds = map (actuator_topic robot_id) (cia402_actuators profile)"
    and "descriptors_of command_topic st3215_device ds = map (actuator_topic robot_id) (st3215_actuators profile)"
proof -
  obtain groups where ds: "ds = map (topic_of state_topic ''sensor'' ''state'' robot_id) (rp_sensors profile)
        @ map (topic_of command_topic ''actuator'' ''command'' robot_id) (rp_actuators profile)
        @ map (commit_of robot_id) groups @ [health_descriptor robot_id (normalize_chars [] False robot_id)]"
    and k: "\<forall>x \<in> set (rp_sensors profile) \<union> set (rp_actuators profile). \<exists>k. device_kind_for x = Inr k"
    by (rule topic_registry_parts [OF assms])
  have kind: "projr (device_kind_for a) = cia402_device \<longleftrightarrow> dv_type a = ''cia402''"
    "projr (device_kind_for a) = st3215_device \<longleftrightarrow> dv_type a = ''st3215''" if "a \<in> set (rp_actuators profile)" for a
    using k that by (force simp: device_kind_for_def success_def split: if_splits)+
  have none: "filter (\<lambda>d. td_kind d = command_topic \<and> Q d) (map (topic_of state_topic u v robot_id) xs) = []"
    "filter (\<lambda>d. td_kind d = command_topic \<and> Q d) (map (commit_of robot_id) gs) = []" for Q u v xs gs
    by (auto simp: filter_empty_conv topic_of_def commit_of_def)
  show "descriptors_of command_topic cia402_device ds = map (actuator_topic robot_id) (cia402_actuators profile)"
    "descriptors_of command_topic st3215_device ds = map (actuator_topic robot_id) (st3215_actuators profile)"
    using kind
    by (simp_all add: descriptors_of_def ds none health_descriptor_def filter_map comp_def cia402_actuators_def st3215_actuators_def
        actuator_topic_def cong: filter_cong) (simp_all add: topic_of_def commit_of_def cong: filter_cong map_cong)
qed

section \<open>One execution group\<close>

definition group_channels :: "string list \<Rightarrow> group_channel list" where
  "group_channels ids = map (\<lambda>i. \<lparr>gc_group_index = 0, gc_member_index = i, gc_device_id = ids ! i\<rparr>) [0..<length ids]"

lemma group_channels_snoc:
  "group_channels (ids @ [x]) = group_channels ids @ [\<lparr>gc_group_index = 0, gc_member_index = length ids, gc_device_id = x\<rparr>]"
  by (simp add: group_channels_def nth_append)

lemma build_single_group:
  assumes "\<forall>d \<in> set tds. td_execution_group d = g" "tds \<noteq> []"
  shows "fold add_group_member tds ([], Map.empty, [])
    = ([\<lparr>eg_name = g, eg_epoch = 0, eg_commands = replicate (length tds) zero_value, eg_staged = replicate (length tds) False\<rparr>],
       [g \<mapsto> 0], group_channels (map td_device_id tds))"
  using assms
proof (induction tds rule: rev_induct)
  case (snoc d tds)
  show ?case
  proof (cases "tds = []")
    case True
    then show ?thesis using snoc.prems by (simp add: add_group_member_def group_channels_def fun_upd_def)
  next
    case False
    then show ?thesis
      using snoc by (simp add: add_group_member_def group_channels_snoc replicate_append_same)
  qed
qed simp

text \<open>An endpoint wired as \<open>e0\<close> is: the same channels, and a group of the same name and size whatever it holds.\<close>

definition same_wiring :: "dds_endpoint \<Rightarrow> dds_endpoint \<Rightarrow> bool" where
  "same_wiring e0 e \<longleftrightarrow> de_robot_id e = de_robot_id e0
     \<and> de_cia402_command_channels e = de_cia402_command_channels e0 \<and> de_commit_channels e = de_commit_channels e0
     \<and> de_damiao_command_channels e = de_damiao_command_channels e0
     \<and> de_st3215_command_channels e = de_st3215_command_channels e0
     \<and> list_all2 (\<lambda>g g'. eg_name g' = eg_name g \<and> length (eg_commands g') = length (eg_commands g)
          \<and> length (eg_staged g') = length (eg_staged g)) (de_ethercat_groups e0) (de_ethercat_groups e)"

lemma single_group_endpoint:
  assumes "build_dds_topic_registry profile robot_id = success ds"
    and "group_of ` set (cia402_actuators profile) = {g}"
  defines "ids \<equiv> map dv_name (cia402_actuators profile)"
  shows "de_robot_id (make_endpoint robot_id cap ds) = robot_id"
    and "de_cia402_command_channels (make_endpoint robot_id cap ds) = group_channels ids"
    and "de_ethercat_groups (make_endpoint robot_id cap ds)
      = [\<lparr>eg_name = g, eg_epoch = 0, eg_commands = replicate (length ids) zero_value, eg_staged = replicate (length ids) False\<rparr>]"
    and "de_commit_channels (make_endpoint robot_id cap ds) = [0]"
    and "de_st3215_command_channels (make_endpoint robot_id cap ds)
      = map (\<lambda>i. \<lparr>kc_actuator_index = i, kc_device_id = dv_name (st3215_actuators profile ! i)\<rparr>) [0..<length (st3215_actuators profile)]"
    and "device_ids command_topic cia402_device ds = ids"
    and "device_ids command_topic st3215_device ds = map dv_name (st3215_actuators profile)"
    and "map (\<lambda>d. (td_device_id d, td_execution_group d)) (filter (\<lambda>d. td_kind d = commit_topic) ds) = [(g, g)]"
proof -
  obtain groups where gr: "distinct groups" "set groups = group_of ` {a \<in> set (rp_actuators profile). dv_type a = ''cia402''}"
    and ds: "ds = map (topic_of state_topic ''sensor'' ''state'' robot_id) (rp_sensors profile)
        @ map (topic_of command_topic ''actuator'' ''command'' robot_id) (rp_actuators profile)
        @ map (commit_of robot_id) groups @ [health_descriptor robot_id (normalize_chars [] False robot_id)]"
    by (rule topic_registry_parts [OF assms(1)])
  have "set groups = {g}" using gr(2) assms(2) by (simp add: cia402_actuators_def)
  then have groups: "groups = [g]" using gr(1) by (cases groups; cases "tl groups") auto
  have tds: "\<forall>d \<in> set (map (actuator_topic robot_id) (cia402_actuators profile)). td_execution_group d = g"
    "map (actuator_topic robot_id) (cia402_actuators profile) \<noteq> []"
    using assms(2) by (fastforce simp: actuator_topic_def topic_of_def cia402_actuators_def, metis assms(2) empty_set image_empty insert_not_empty map_is_Nil_conv)
  have ids: "map td_device_id (map (actuator_topic robot_id) (cia402_actuators profile)) = ids"
    by (simp add: ids_def actuator_topic_def topic_of_def comp_def)
  note D = command_descriptors [OF assms(1)]
  have bg: "build_groups ds
    = ([\<lparr>eg_name = g, eg_epoch = 0, eg_commands = replicate (length ids) zero_value, eg_staged = replicate (length ids) False\<rparr>],
       [g \<mapsto> 0], group_channels ids)"
    using build_single_group [OF tds, unfolded ids] by (simp add: build_groups_def D) (simp add: ids_def)
  show "de_robot_id (make_endpoint robot_id cap ds) = robot_id"
    "de_cia402_command_channels (make_endpoint robot_id cap ds) = group_channels ids"
    "de_ethercat_groups (make_endpoint robot_id cap ds)
      = [\<lparr>eg_name = g, eg_epoch = 0, eg_commands = replicate (length ids) zero_value, eg_staged = replicate (length ids) False\<rparr>]"
    by (simp_all add: make_endpoint_def bg)
  have nc: "filter (\<lambda>d. td_kind d = commit_topic) ds = [commit_of robot_id g]"
    by (simp add: ds groups health_descriptor_def commit_of_def filter_map comp_def topic_of_def)
  then show "map (\<lambda>d. (td_device_id d, td_execution_group d)) (filter (\<lambda>d. td_kind d = commit_topic) ds) = [(g, g)]"
    by (simp add: commit_of_def)
  show "de_commit_channels (make_endpoint robot_id cap ds) = [0]"
    by (simp add: make_endpoint_def bg map_filter_guard nc) (simp add: commit_of_def List.map_filter_def)
  show "de_st3215_command_channels (make_endpoint robot_id cap ds)
      = map (\<lambda>i. \<lparr>kc_actuator_index = i, kc_device_id = dv_name (st3215_actuators profile ! i)\<rparr>) [0..<length (st3215_actuators profile)]"
    by (rule nth_equalityI) (simp_all add: make_endpoint_def bg command_channels_def D enumerate_eq_zip actuator_topic_def topic_of_def)
  show "device_ids command_topic cia402_device ds = ids"
    "device_ids command_topic st3215_device ds = map dv_name (st3215_actuators profile)"
    by (simp_all add: device_ids_def D ids_def actuator_topic_def topic_of_def comp_def)
qed

section \<open>Staging one batch\<close>

text \<open>A member command as the daemon takes it over, whatever the group held before.\<close>

lemma stage_member_sets:
  assumes "header_matches rid (gc_device_id ch) (xa_header v)" "xa_command_epoch v \<noteq> 0" "isfinite (xa_target v)" "gc_group_index ch = 0"
  shows "stage_member rid ch (Some v) ([g], c)
    = ([g\<lparr>eg_epoch := xa_command_epoch v, eg_commands := (eg_commands g)[gc_member_index ch := value_of_command v],
         eg_staged := (if eg_epoch g = xa_command_epoch v then eg_staged g else map (\<lambda>_. False) (eg_staged g))
           [gc_member_index ch := True]\<rparr>], True)"
  using assms by (simp add: stage_member_def Let_def)

lemma stage_members:
  assumes "\<And>i. i < n \<Longrightarrow> header_matches rid (ids ! i) (xa_header (v i)) \<and> xa_command_epoch (v i) = k \<and> isfinite (xa_target (v i))"
    and "k \<noteq> 0" "n \<le> length ids" "length (eg_commands g) = length ids" "length (eg_staged g) = length ids"
  shows "\<exists>g' c'. fold (\<lambda>i. fold (stage_member rid (group_channels ids ! i)) [Some (v i)]) [0..<n] ([g], c) = ([g'], c')
    \<and> eg_name g' = eg_name g \<and> length (eg_commands g') = length ids \<and> length (eg_staged g') = length ids
    \<and> (\<forall>i < n. eg_commands g' ! i = value_of_command (v i) \<and> eg_staged g' ! i)
    \<and> (if n = 0 then g' = g \<and> c' = c else eg_epoch g' = k \<and> c')"
  using assms(1,3)
proof (induction n)
  case 0
  then show ?case using assms by simp
next
  case (Suc n)
  obtain g' c' where g': "fold (\<lambda>i. fold (stage_member rid (group_channels ids ! i)) [Some (v i)]) [0..<n] ([g], c) = ([g'], c')"
    "eg_name g' = eg_name g" "length (eg_commands g') = length ids" "length (eg_staged g') = length ids"
    "\<forall>i < n. eg_commands g' ! i = value_of_command (v i) \<and> eg_staged g' ! i"
    "if n = 0 then g' = g \<and> c' = c else eg_epoch g' = k \<and> c'"
    using Suc.IH Suc.prems by fastforce
  have v: "header_matches rid (ids ! n) (xa_header (v n))" "xa_command_epoch (v n) = k" "isfinite (xa_target (v n))"
    using Suc.prems(1) [of n] by simp_all
  have ch: "gc_device_id (group_channels ids ! n) = ids ! n" "gc_group_index (group_channels ids ! n) = 0"
    "gc_member_index (group_channels ids ! n) = n"
    using Suc.prems(2) by (simp_all add: group_channels_def)
  show ?case
    using stage_member_sets [of rid "group_channels ids ! n" "v n" g' c'] g' v ch Suc.prems(2) assms(2)
    by (auto simp: nth_list_update less_Suc_eq split: if_splits)
qed

lemma commit_complete:
  assumes "mh_schema_version (ec_header v) = DDS_SCHEMA_VERSION" "mh_robot_id (ec_header v) = rid" "ec_execution_group v = eg_name g"
    and "ec_command_epoch v = eg_epoch g" "eg_epoch g \<noteq> 0" "list_all (\<lambda>b. b) (eg_staged g)" "cb_stage_ethercat_epoch cbs = Some f"
  shows "commit_group cbs rid 0 (Some v) ([g], s, c)
    = ([g\<lparr>eg_staged := map (\<lambda>_. False) (eg_staged g)\<rparr>], f (eg_name g) (eg_epoch g) (eg_commands g) s, True)"
  using assms by (simp add: commit_group_def Let_def id_def)

text \<open>A servo command as the daemon's callback receives it.\<close>

definition servo_value :: "u64 \<Rightarrow> int \<Rightarrow> servo_command \<Rightarrow> st3215_command_value" where
  "servo_value k t v = \<lparr>cvz_target_radians = vc_target_position_rad v, cvz_enabled = vc_enabled v,
     cvz_fault_reset = vc_emergency_stop v, cvz_sequence = k, cvz_source_timestamp_ns = t\<rparr>"

lemma stage_servos:
  assumes "\<And>i. i < n \<Longrightarrow> header_matches rid (kc_device_id (chs ! i)) (za_header (m i)) \<and> isfinite (za_target_radians (m i))
      \<and> kc_actuator_index (chs ! i) = i \<and> m i = st3215_message h k t (ids ! i) (vs ! i)"
    and "cb_stage_st3215_command cbs = Some f"
  shows "\<exists>c'. fold (\<lambda>i. fold (stage_st3215_sample cbs rid (chs ! i)) [Some (m i)]) [0..<n] (s, c)
    = (fold (\<lambda>i. f i (servo_value k t (vs ! i))) [0..<n] s, c')"
  using assms(1)
proof (induction n)
  case (Suc n)
  obtain c' where c': "fold (\<lambda>i. fold (stage_st3215_sample cbs rid (chs ! i)) [Some (m i)]) [0..<n] (s, c)
      = (fold (\<lambda>i. f i (servo_value k t (vs ! i))) [0..<n] s, c')"
    using Suc.IH [OF Suc.prems [OF less_SucI]] by blast
  have "stage_st3215_sample cbs rid (chs ! n) (Some (m n)) (x, c') = (f n (servo_value k t (vs ! n)) x, True)" for x
    using Suc.prems [of n] assms(2) by (auto simp: stage_st3215_sample_def servo_value_def st3215_message_def fill_header_def)
  then show ?case using c' by (simp add: exI [of _ True])
qed simp

text \<open>What the daemon's readers take when one batch arrives, and the snapshot the supervisor's ingress is offered.\<close>

definition received_batch :: "host_commands \<Rightarrow> dds_inputs" where
  "received_batch batch = \<lparr>in_cia402 = (\<lambda>i. [Some (hc_cia402 batch ! i)]), in_commit = (\<lambda>i. [Some (hc_commits batch ! i)]),
     in_damiao = (\<lambda>_. []), in_st3215 = (\<lambda>i. [Some (hc_st3215 batch ! i)])\<rparr>"

definition sent_command :: "u64 \<Rightarrow> int \<Rightarrow> axis_command \<Rightarrow> axis_command" where
  "sent_command k t c = zero_command\<lparr>cmd_sequence := k, cmd_timestamp_ns := t, cmd_target := cmd_target c, cmd_flags := cmd_flags c\<rparr>"

definition sent_snapshot :: "u64 \<Rightarrow> int \<Rightarrow> axis_command list \<Rightarrow> axis_command snapshot" where
  "sent_snapshot k t cs = snapshot.make k t (length cs)
     (map (sent_command k t) cs @ replicate (kRobotIoMaximumAxes - length cs) zero_command)"

definition sent_value :: "u64 \<Rightarrow> int \<Rightarrow> axis_command \<Rightarrow> cia402_command_value" where
  "sent_value k t c = \<lparr>cvx_target = cmd_target c, cvx_mode = 0, cvx_flags = cmd_flags c, cvx_sequence = k, cvx_source_timestamp_ns = t\<rparr>"

lemma epoch_snapshot_sent:
  assumes "cs \<noteq> []" "0 \<le> t"
  shows "epoch_snapshot k (map (sent_value k t) cs) = sent_snapshot k t cs"
proof -
  have "cs \<noteq> [] \<Longrightarrow> fold (\<lambda>v u. max u (cvx_source_timestamp_ns v)) (map (sent_value k t) cs) x = max x t" for x
    by (induction cs arbitrary: x) (auto simp: sent_value_def, fastforce)
  moreover have "epoch_command \<circ> sent_value k t = sent_command k t"
    by (rule ext) (simp add: epoch_command_def sent_value_def sent_command_def zero_command_def)
  ultimately show ?thesis using assms by (simp add: epoch_snapshot_def sent_snapshot_def)
qed

lemma take_batch:
  assumes e: "de_robot_id e = hh_robot_id h" "de_cia402_command_channels e = group_channels (hh_cia402_writers h)"
      "de_ethercat_groups e = [g]" "length (eg_commands g) = length cs" "length (eg_staged g) = length cs"
      "de_commit_channels e = [0]" "hh_commit_writers h = [(eg_name g, eg_name g)]"
      "de_st3215_command_channels e
         = map (\<lambda>i. \<lparr>kc_actuator_index = i, kc_device_id = hh_st3215_writers h ! i\<rparr>) [0..<length (hh_st3215_writers h)]"
    and p: "publish_commands None h cs vs k t = (batch, success ())" "k \<noteq> 0" "cs \<noteq> []"
    and f: "\<forall>c \<in> set cs. isfinite (cmd_target c)" "\<forall>v \<in> set vs. isfinite (vc_target_position_rad v)"
    and cbs: "cb_stage_ethercat_epoch cbs = Some fe" "cb_stage_st3215_command cbs = Some fs"
  shows "\<exists>g' c. take_commands cbs (received_batch batch) e s = (e\<lparr>de_ethercat_groups := [g']\<rparr>,
      fold (\<lambda>i. fs i (servo_value k t (vs ! i))) [0..<length vs] (fe (eg_name g) k (map (sent_value k t) cs) s), c)
    \<and> eg_name g' = eg_name g \<and> length (eg_commands g') = length cs \<and> length (eg_staged g') = length cs"
proof -
  let ?ids = "hh_cia402_writers h"
  have len: "length ?ids = length cs" "length (hh_st3215_writers h) = length vs"
    and b: "batch = \<lparr>hc_cia402 = map (\<lambda>(w, c). cia402_message h k t w c) (zip ?ids cs),
        hc_commits = map (commit_message h k t) (hh_commit_writers h),
        hc_st3215 = map (\<lambda>(w, c). st3215_message h k t w c) (zip (hh_st3215_writers h) vs)\<rparr>"
    using p(1) by (auto simp: publish_commands_def command_batch_def Let_def split: if_splits)
  have v: "hc_cia402 batch ! i = cia402_message h k t (?ids ! i) (cs ! i)" if "i < length cs" for i using that len b by simp
  have m: "hc_st3215 batch ! i = st3215_message h k t (hh_st3215_writers h ! i) (vs ! i)" if "i < length vs" for i
    using that len b by simp
  have "\<And>i. i < length cs \<Longrightarrow> header_matches (hh_robot_id h) (?ids ! i) (xa_header (hc_cia402 batch ! i))
      \<and> xa_command_epoch (hc_cia402 batch ! i) = k \<and> isfinite (xa_target (hc_cia402 batch ! i))"
    using f(1) by (simp add: v cia402_message_def header_matches_def fill_header_def)
  from stage_members [of "length cs", OF this p(2), of g False] obtain g' c' where
    st: "fold (\<lambda>i. fold (stage_member (hh_robot_id h) (group_channels ?ids ! i)) [Some (hc_cia402 batch ! i)]) [0..<length cs]
        ([g], False) = ([g'], c')"
    and g': "eg_name g' = eg_name g" "length (eg_commands g') = length cs" "length (eg_staged g') = length cs"
      "\<forall>i < length cs. eg_commands g' ! i = value_of_command (hc_cia402 batch ! i) \<and> eg_staged g' ! i" "eg_epoch g' = k"
    using e(4,5) len p(3) by auto
  have cmds: "eg_commands g' = map (sent_value k t) cs"
    by (rule nth_equalityI) (auto simp: g' v value_of_command_def cia402_message_def fill_header_def sent_value_def)
  have staged: "list_all (\<lambda>b. b) (eg_staged g')" using g'(3,4) by (simp add: list_all_length)
  let ?s1 = "fe (eg_name g) k (map (sent_value k t) cs) s"
  have cm: "commit_group cbs (hh_robot_id h) 0 (Some (hc_commits batch ! 0)) ([g'], s, c')
      = ([g'\<lparr>eg_staged := map (\<lambda>_. False) (eg_staged g')\<rparr>], ?s1, True)"
    using commit_complete [of "hc_commits batch ! 0" "hh_robot_id h" g', OF _ _ _ _ _ staged cbs(1)] g' cmds p(2) e(7) b
    by (simp add: commit_message_def fill_header_def)
  have "\<And>i. i < length vs \<Longrightarrow> header_matches (hh_robot_id h) (kc_device_id (de_st3215_command_channels e ! i)) (za_header (hc_st3215 batch ! i))
      \<and> isfinite (za_target_radians (hc_st3215 batch ! i)) \<and> kc_actuator_index (de_st3215_command_channels e ! i) = i
      \<and> hc_st3215 batch ! i = st3215_message h k t (hh_st3215_writers h ! i) (vs ! i)"
    using f(2) len by (simp add: m e(8) st3215_message_def header_matches_def fill_header_def)
  from stage_servos [OF this cbs(2), of "length vs" ?s1 True] obtain c4 where
    sv: "fold (\<lambda>i. fold (stage_st3215_sample cbs (hh_robot_id h) (de_st3215_command_channels e ! i)) [Some (hc_st3215 batch ! i)])
        [0..<length vs] (?s1, True) = (fold (\<lambda>i. fs i (servo_value k t (vs ! i))) [0..<length vs] ?s1, c4)" by auto
  have "length (de_st3215_command_channels e) = length vs" "length (de_cia402_command_channels e) = length cs"
    using len by (simp_all add: e(2,8) group_channels_def)
  then show ?thesis
    using st cm sv g'
    by (simp add: take_commands_def Let_def received_batch_def e(1,2,3,6) take_all_none take_all_upt)
      (rule exI [of _ "g'\<lparr>eg_staged := map (\<lambda>_. False) (eg_staged g')\<rparr>"]; simp)
qed

lemma publish_states_wiring:
  "de_robot_id (fst (publish_states e)) = de_robot_id e"
  "de_ethercat_groups (fst (publish_states e)) = de_ethercat_groups e"
  "de_cia402_command_channels (fst (publish_states e)) = de_cia402_command_channels e"
  "de_commit_channels (fst (publish_states e)) = de_commit_channels e"
  "de_damiao_command_channels (fst (publish_states e)) = de_damiao_command_channels e"
  "de_st3215_command_channels (fst (publish_states e)) = de_st3215_command_channels e"
  by (simp_all add: publish_states_def Let_def split: prod.split)

text \<open>Claim C5.  Commands go through unchanged: when both endpoints are built from the topics of one profile whose axes form
  one execution group, and the daemon's readers take a batch that the host has published, one iteration of the daemon's
  worker offers to the supervisor's ingress exactly the snapshot of the host's axis commands, in the order of the axes, with
  the number and time stamp of the batch, and then hands every servo its command; the endpoint stays wired as it was, ready
  for the next batch, and it does not matter what its group held before.\<close>

theorem host_commands_reach_daemon:
  assumes "build_dds_topic_registry profile robot_id = success ds" "robot_id = dc_robot_id (rp_dds profile)"
    and "group_of ` set (cia402_actuators profile) = {g}"
    and "publish_commands None (make_host profile ds) cs vs k t = (batch, success ())" "k \<noteq> 0" "0 \<le> t"
    and "\<forall>c \<in> set cs. isfinite (cmd_target c)" "\<forall>v \<in> set vs. isfinite (vc_target_position_rad v)"
    and "dm_dds d = Some e" "same_wiring (make_endpoint robot_id cap ds) e" "dm_accepting_commands d" "dm_axis_count d = length cs"
  shows "\<exists>e'. fst (daemon_dds_iteration unspecified (received_batch batch) (now_ns # readings) d)
      = (fst (fold (\<lambda>i. stage_st3215_value i (servo_value k t (vs ! i))) [0..<length vs]
          (fst (daemon_stage_commands now_ns (sent_snapshot k t cs) d), readings)))\<lparr>dm_dds := Some e'\<rparr>
    \<and> same_wiring (make_endpoint robot_id cap ds) e'"
proof -
  let ?h = "make_host profile ds" and ?cbs = "daemon_callbacks unspecified"
  note E = single_group_endpoint(1-5) [OF assms(1,3), of cap] and W = single_group_endpoint(6-8) [OF assms(1,3)]
  obtain gr where gr: "de_ethercat_groups e = [gr]" "eg_name gr = g" "length (eg_commands gr) = length (cia402_actuators profile)"
    "length (eg_staged gr) = length (cia402_actuators profile)"
    and w: "de_robot_id e = robot_id" "de_cia402_command_channels e = group_channels (map dv_name (cia402_actuators profile))"
      "de_commit_channels e = [0]"
      "de_st3215_command_channels e = de_st3215_command_channels (make_endpoint robot_id cap ds)"
    using assms(10) by (auto simp: same_wiring_def E(1-4) list_all2_Cons1)
  have h: "hh_robot_id ?h = robot_id" "hh_cia402_writers ?h = map dv_name (cia402_actuators profile)"
    "hh_st3215_writers ?h = map dv_name (st3215_actuators profile)" "hh_commit_writers ?h = [(g, g)]"
    by (simp_all add: make_host_def W assms(2))
  have len: "length cs = length (cia402_actuators profile)" using assms(4) h(2) by (auto simp: publish_commands_def split: if_splits)
  then have ne: "cs \<noteq> []" using assms(3) by auto
  have sc: "de_st3215_command_channels e
      = map (\<lambda>i. \<lparr>kc_actuator_index = i, kc_device_id = hh_st3215_writers ?h ! i\<rparr>) [0..<length (hh_st3215_writers ?h)]"
    unfolding w(4) E(5) h(3) by simp
  obtain g' c where tc: "take_commands ?cbs (received_batch batch) e (d, now_ns # readings) = (e\<lparr>de_ethercat_groups := [g']\<rparr>,
      fold (\<lambda>i. stage_st3215_value i (servo_value k t (vs ! i))) [0..<length vs]
        (stage_ethercat_epoch g k (map (sent_value k t) cs) (d, now_ns # readings)), c)"
    and g': "eg_name g' = g" "length (eg_commands g') = length cs" "length (eg_staged g') = length cs"
    using take_batch [of e ?h gr cs vs k t batch ?cbs stage_ethercat_epoch stage_st3215_value "(d, now_ns # readings)",
        OF _ _ gr(1) _ _ w(3) _ sc assms(4,5) ne assms(7,8)] gr w h len
    by (auto simp: daemon_callbacks_def)
  have "stage_ethercat_epoch g k (map (sent_value k t) cs) (d, now_ns # readings)
      = (fst (daemon_stage_commands now_ns (sent_snapshot k t cs) d), readings)"
    using assms(11,12) by (simp add: stage_ethercat_epoch_def read_clock_def epoch_snapshot_sent [OF ne assms(6)])
  moreover have "same_wiring (make_endpoint robot_id cap ds) (fst (publish_states (e\<lparr>de_ethercat_groups := [g']\<rparr>)))"
    using assms(10) g' len by (simp add: same_wiring_def publish_states_wiring E(3))
  ultimately show ?thesis
    using tc by (auto simp: daemon_dds_iteration_def assms(9) worker_iteration_def Let_def split: prod.splits)
qed

section \<open>An example\<close>

definition wired_profile :: robot_profile where
  "wired_profile = \<lparr>rp_sensors = [],
     rp_actuators = [\<lparr>dv_name = ''joint'', dv_type = ''cia402'', dv_path = ''0'', dv_args = [''safety_group'' \<mapsto> ''arm'']\<rparr>],
     rp_axes = [], rp_st3215_servos = [], rp_damiao_motors = [],
     rp_dds = default_dds_config\<lparr>dc_backend := dds_backend, dc_robot_id := ''robot'', dc_sensor_queue_capacity := 16\<rparr>\<rparr>"

definition wired_topics :: "topic_descriptor list" where
  "wired_topics = [actuator_topic ''robot'' (hd (rp_actuators wired_profile)), commit_of ''robot'' ''arm'',
     health_descriptor ''robot'' ''robot'']"

definition wired_daemon :: robot_daemon where
  "wired_daemon = (make_daemon 0 0 default_options \<lparr>lc_period = 1, lc_cpu = 0, lc_priority = 0\<rparr>)
     \<lparr>dm_dds := Some (make_endpoint ''robot'' 16 wired_topics), dm_accepting_commands := True, dm_axis_count := 1\<rparr>"

definition wired_command :: axis_command where
  "wired_command = zero_command\<lparr>cmd_target := Fin 2, cmd_flags := kAxisCommandEnable\<rparr>"

definition wired_batch :: host_commands where
  "wired_batch = fst (publish_commands None (make_host wired_profile wired_topics) [wired_command] [] 1 4)"

lemma wired_registry: "build_dds_topic_registry wired_profile ''robot'' = success wired_topics"
  by code_simp

theorem host_commands_reach_daemon_witness:
  "\<exists>e'. fst (daemon_dds_iteration 0 (received_batch wired_batch) [5] wired_daemon)
    = (fst (daemon_stage_commands 5 (sent_snapshot 1 4 [wired_command]) wired_daemon))\<lparr>dm_dds := Some e'\<rparr>"
proof -
  have pub: "publish_commands None (make_host wired_profile wired_topics) [wired_command] [] 1 4 = (wired_batch, success ())"
    by (simp add: wired_batch_def publish_commands_def Let_def make_host_def wired_topics_def device_ids_def descriptors_of_def
        actuator_topic_def topic_of_def commit_of_def health_descriptor_def wired_profile_def device_kind_for_def success_def)
  have w: "same_wiring (make_endpoint ''robot'' 16 wired_topics) (make_endpoint ''robot'' 16 wired_topics)"
    by (simp add: same_wiring_def list_all2_same)
  have id: "''robot'' = dc_robot_id (rp_dds wired_profile)" and gr: "group_of ` set (cia402_actuators wired_profile) = {''arm''}"
    by (simp_all add: wired_profile_def cia402_actuators_def group_of_def)
  have fin: "\<forall>c \<in> set [wired_command]. isfinite (cmd_target c)" by (simp add: wired_command_def)
  have d: "dm_dds wired_daemon = Some (make_endpoint ''robot'' 16 wired_topics)" "dm_accepting_commands wired_daemon"
    "dm_axis_count wired_daemon = length [wired_command]"
    by (simp_all add: wired_daemon_def)
  show ?thesis
    using host_commands_reach_daemon [OF wired_registry id gr pub _ _ fin _ d(1) w d(2,3), of 0 5 "[]"] by simp blast
qed

end
