(* ===== verification/Json.thy ===== *)
theory Json
  imports Floating "HOL-Library.Char_ord" "HOL-Library.List_Lexorder"
begin

text \<open>
  JSON values as the sources use them through the type \<open>nlohmann::json\<close>: the seven kinds of value, with integers kept
  apart by the sign the library stores them with, and objects as the list of their entries in the order in which the
  library iterates them.  \<open>nlohmann::json\<close> keeps that list sorted by key, which is what \<open>obj_set\<close> maintains.  Parsing
  and printing belong to the library and are parameters wherever they are used; what printing keeps of a value is
  \<open>reparsed\<close>: a non-negative integer is read back as unsigned, and a number without a JSON notation as null.
\<close>

datatype json =
    JNull
  | JBool bool
  | JInt int
  | JUint u64
  | JFloat fp
  | JString string
  | JArray "json list"
  | JObject "(string \<times> json) list"

section \<open>Objects\<close>

fun obj_set :: "string \<Rightarrow> 'v \<Rightarrow> (string \<times> 'v) list \<Rightarrow> (string \<times> 'v) list" where
  "obj_set k v [] = [(k, v)]"
| "obj_set k v ((k', v') # es) =
     (if k = k' then (k, v) # es else if k < k' then (k, v) # (k', v') # es else (k', v') # obj_set k v es)"

fun is_object :: "json \<Rightarrow> bool" where
  "is_object (JObject _) = True"
| "is_object _ = False"

fun entries :: "json \<Rightarrow> (string \<times> json) list" where
  "entries (JObject es) = es"
| "entries _ = []"

definition member :: "json \<Rightarrow> string \<Rightarrow> json option" where
  "member j key = map_of (entries j) key"

definition json_set :: "string \<Rightarrow> json \<Rightarrow> json \<Rightarrow> json" where
  "json_set key v j = JObject (obj_set key v (entries j))"

text \<open>An object written as an initialiser list, and the removal of a key.\<close>

definition json_object :: "(string \<times> json) list \<Rightarrow> json" where
  "json_object es = fold (\<lambda>(k, v). json_set k v) es (JObject [])"

definition json_erase :: "string \<Rightarrow> json \<Rightarrow> json" where
  "json_erase key j = JObject (filter (\<lambda>(k, _). k \<noteq> key) (entries j))"

section \<open>Kinds\<close>

fun is_string :: "json \<Rightarrow> bool" where
  "is_string (JString _) = True"
| "is_string _ = False"

fun is_array :: "json \<Rightarrow> bool" where
  "is_array (JArray _) = True"
| "is_array _ = False"

fun is_boolean :: "json \<Rightarrow> bool" where
  "is_boolean (JBool _) = True"
| "is_boolean _ = False"

fun is_number :: "json \<Rightarrow> bool" where
  "is_number (JInt _) = True"
| "is_number (JUint _) = True"
| "is_number (JFloat _) = True"
| "is_number _ = False"

fun elements :: "json \<Rightarrow> json list" where
  "elements (JArray xs) = xs"
| "elements _ = []"

fun json_size :: "json \<Rightarrow> nat" where
  "json_size JNull = 0"
| "json_size (JArray xs) = length xs"
| "json_size (JObject es) = length es"
| "json_size _ = 1"

fun string_of :: "json \<Rightarrow> string" where
  "string_of (JString s) = s"
| "string_of _ = []"

text \<open>\<open>get<double>()\<close> and \<open>get<float>()\<close> of a number.\<close>

fun number_of :: "fmt \<Rightarrow> json \<Rightarrow> fp" where
  "number_of F (JInt i) = fround F (of_int i)"
| "number_of F (JUint w) = fround F (of_int (uint w))"
| "number_of F (JFloat v) = fcast F v"
| "number_of F _ = Fin 0"

section \<open>Printing and parsing\<close>

fun reparsed :: "json \<Rightarrow> json" where
  "reparsed (JInt i) = (if 0 \<le> i then JUint (word_of_int i) else JInt i)"
| "reparsed (JFloat v) = (if isfinite v then JFloat v else JNull)"
| "reparsed (JArray xs) = JArray (map reparsed xs)"
| "reparsed (JObject es) = JObject (map (\<lambda>(k, v). (k, reparsed v)) es)"
| "reparsed j = j"

section \<open>Lemmas\<close>

lemma map_of_obj_set [simp]: "sorted_wrt (<) (map fst es) \<Longrightarrow> map_of (obj_set k v es) = (map_of es)(k \<mapsto> v)"
  by (induction es rule: obj_set.induct) (auto simp: fun_upd_twist)

lemma fst_obj_set: "fst ` set (obj_set k v es) = insert k (fst ` set es)"
  by (induction es rule: obj_set.induct) auto

lemma sorted_obj_set: "sorted_wrt (<) (map fst es) \<Longrightarrow> sorted_wrt (<) (map fst (obj_set k v es))"
proof (induction es rule: obj_set.induct)
  case (2 k v k' v' es)
  then have "y \<in> insert k (fst ` set es) \<longrightarrow> k' < y" if "\<not> k < k'" "k \<noteq> k'" for y
    using that by (auto simp: not_less)
  with 2 show ?case using fst_obj_set [of k v es] by (auto simp: image_def)
qed simp

text \<open>An object kept sorted, the invariant of the library's maps.\<close>

definition sorted_object :: "json \<Rightarrow> bool" where
  "sorted_object j \<longleftrightarrow> is_object j \<and> sorted_wrt (<) (map fst (entries j))"

lemma sorted_object_empty [simp]: "sorted_object (JObject [])"
  by (simp add: sorted_object_def)

lemma sorted_json_set [simp]: "sorted_object j \<Longrightarrow> sorted_object (json_set k v j)"
  by (simp add: sorted_object_def json_set_def sorted_obj_set)

lemma member_json_set [simp]:
  "sorted_object j \<Longrightarrow> member (json_set k v j) k' = (if k' = k then Some v else member j k')"
  by (simp add: sorted_object_def json_set_def member_def)

lemma sorted_json_object: "sorted_object (json_object es)"
proof -
  have "sorted_object j \<Longrightarrow> sorted_object (fold (\<lambda>(k, v). json_set k v) es j)" for j
    by (induction es arbitrary: j) auto
  then show ?thesis by (simp add: json_object_def)
qed

lemma member_json_object: "distinct (map fst es) \<Longrightarrow> member (json_object es) k = map_of es k"
proof -
  have "member (fold (\<lambda>(k, v). json_set k v) es j) k = (if k \<in> fst ` set es then map_of es k else member j k)"
    if "sorted_object j" "distinct (map fst es)" for j
    using that
  proof (induction es arbitrary: j)
    case (Cons e es)
    obtain key v where e: "e = (key, v)" by fastforce
    show ?case using Cons.IH [of "json_set key v j"] Cons.prems by (auto simp: e)
  qed simp
  from this [of "JObject []"] show "distinct (map fst es) \<Longrightarrow> ?thesis"
    using map_of_eq_None_iff [of es k] by (auto simp: json_object_def member_def [of "JObject []"])
qed

lemma is_object_reparsed [simp]: "is_object (reparsed j) = is_object j"
  by (cases j) auto

lemma entries_reparsed: "entries (reparsed j) = map (\<lambda>(k, v). (k, reparsed v)) (entries j)"
  by (cases j) auto

lemma member_reparsed [simp]: "member (reparsed j) k = map_option reparsed (member j k)"
proof -
  have "map_of (map (\<lambda>(k, v). (k, reparsed v)) es) k = map_option reparsed (map_of es k)" for es
    by (induction es) auto
  then show ?thesis by (simp add: member_def entries_reparsed)
qed

end
