(* ===== verification/Rpc_Codec.thy ===== *)
theory Rpc_Codec
  imports Json
begin

text \<open>
  The RPC message codec, \<^verbatim>\<open>src/devices/rpc/codec.cpp\<close> and \<^verbatim>\<open>include/policy_runtime/devices/rpc/messages.hpp\<close>.  A validator
  returns the error it reports, or \<open>None\<close> when it accepts.  The JSON library is a parameter: \<open>parse\<close> is \<open>None\<close> for a text
  it discards, \<open>dump\<close> is \<open>None\<close> when it throws.
\<close>

section \<open>Messages\<close>

definition kSchemaVersion :: string where "kSchemaVersion = ''embodied-policy-runtime/v1alpha1''"

record error_payload =
  ep_code :: string
  ep_message :: string
  ep_details :: json

record message_envelope =
  me_schema :: string
  me_type :: string
  me_request_id :: string
  me_session_id :: string
  me_step_id :: u64
  me_timestamp_ns :: int
  me_payload :: json
  me_error :: "error_payload option"

definition empty_envelope :: message_envelope where
  "empty_envelope = \<lparr>me_schema = kSchemaVersion, me_type = [], me_request_id = [], me_session_id = [], me_step_id = 0,
     me_timestamp_ns = 0, me_payload = JObject [], me_error = None\<rparr>"

section \<open>Helpers\<close>

definition is_space :: "char \<Rightarrow> bool" where
  "is_space c \<longleftrightarrow> c = CHR '' '' \<or> (9 \<le> (of_char c :: nat) \<and> (of_char c :: nat) \<le> 13)"

definition is_blank :: "string \<Rightarrow> bool" where
  "is_blank v = list_all is_space v"

fun is_strict_integer :: "json \<Rightarrow> bool" where
  "is_strict_integer (JInt _) = True"
| "is_strict_integer (JUint _) = True"
| "is_strict_integer _ = False"

fun is_float :: "json \<Rightarrow> bool" where
  "is_float (JFloat _) = True"
| "is_float _ = False"

definition is_strict_number :: "json \<Rightarrow> bool" where
  "is_strict_number v \<longleftrightarrow> is_strict_integer v \<or> is_float v"

text \<open>The first check that fails decides, as in a sequence of early returns.\<close>

fun first_error :: "string option list \<Rightarrow> string option" where
  "first_error [] = None"
| "first_error (Some e # _) = Some e"
| "first_error (None # es) = first_error es"

definition fails :: "bool \<Rightarrow> string \<Rightarrow> string option" where
  "fails b e = (if b then Some e else None)"

definition only_keys :: "json \<Rightarrow> string list \<Rightarrow> string \<Rightarrow> string option" where
  "only_keys object allowed name =
     map_option (\<lambda>(k, _). name @ '' contains unknown key: '' @ k) (find (\<lambda>(k, _). k \<notin> set allowed) (entries object))"

definition require_string :: "json \<Rightarrow> string \<Rightarrow> string \<Rightarrow> string option" where
  "require_string object key name =
     (case member object key of
        Some (JString _) \<Rightarrow> None
      | _ \<Rightarrow> Some (name @ '' requires string '' @ key))"

text \<open>A member that is absent or null is not validated.\<close>

definition optional_member :: "json \<Rightarrow> string \<Rightarrow> (json \<Rightarrow> string option) \<Rightarrow> string option" where
  "optional_member object key validate =
     (case member object key of None \<Rightarrow> None | Some JNull \<Rightarrow> None | Some v \<Rightarrow> validate v)"

section \<open>Payloads\<close>

definition validate_joint_state :: "json \<Rightarrow> string option" where
  "validate_joint_state v =
     (if \<not> is_object v then Some ''joint state must be an object''
      else first_error [
        only_keys v [''values'', ''joint_names'', ''unit''] ''joint state'',
        (case (member v ''values'', member v ''joint_names'') of
           (Some (JArray vs), Some (JArray ns)) \<Rightarrow>
             first_error [
               require_string v ''unit'' ''joint state'',
               fails (\<exists>x \<in> set vs. \<not> is_strict_number x) ''joint state values must be numbers'',
               fails (\<exists>x \<in> set ns. \<not> is_string x) ''joint state joint_names must contain strings'',
               fails (length vs \<noteq> length ns) ''values and joint_names must have the same length'']
         | _ \<Rightarrow> Some ''joint state requires values, joint_names, and unit'')])"

definition validate_gripper :: "json \<Rightarrow> string option" where
  "validate_gripper v =
     (if \<not> is_object v then Some ''gripper value must be an object''
      else first_error [
        only_keys v [''value'', ''unit''] ''gripper value'',
        (case member v ''value'' of
           Some x \<Rightarrow>
             if is_strict_number x then require_string v ''unit'' ''gripper value''
             else Some ''gripper value requires numeric value and string unit''
         | None \<Rightarrow> Some ''gripper value requires numeric value and string unit'')])"

definition validate_task_text :: "json \<Rightarrow> string option" where
  "validate_task_text v =
     (if \<not> is_object v then Some ''task text requires string text''
      else first_error [only_keys v [''text''] ''task text'', require_string v ''text'' ''task text''])"

definition validate_image :: "json \<Rightarrow> string option" where
  "validate_image v =
     (if \<not> is_object v then Some ''image requires string data''
      else first_error [
        only_keys v [''encoding'', ''data'', ''mime_type''] ''image'',
        require_string v ''data'' ''image'',
        (case member v ''encoding'' of
           None \<Rightarrow> None
         | Some e \<Rightarrow> fails (e \<notin> {JString ''base64'', JString ''uri'', JString ''inline_json''})
                     ''image encoding must be base64, uri, or inline_json''),
        (case member v ''mime_type'' of
           None \<Rightarrow> None
         | Some t \<Rightarrow> fails (\<not> is_string t) ''image mime_type must be a string'')])"

definition validate_meta :: "json \<Rightarrow> string \<Rightarrow> string option" where
  "validate_meta v error =
     (case member v ''meta'' of None \<Rightarrow> None | Some m \<Rightarrow> fails (\<not> is_object m) error)"

definition validate_observation :: "json \<Rightarrow> string option" where
  "validate_observation v =
     (if \<not> is_object v then Some ''observation must be an object''
      else first_error [
        optional_member v ''joint_position'' validate_joint_state,
        optional_member v ''gripper_width'' validate_gripper,
        optional_member v ''task_text'' validate_task_text,
        optional_member v ''image'' validate_image,
        validate_meta v ''observation meta must be an object''])"

definition present_value :: "json \<Rightarrow> string \<Rightarrow> bool" where
  "present_value v key \<longleftrightarrow> member v key \<notin> {None, Some JNull}"

definition action_keys :: "string list" where
  "action_keys = [''joint_position_delta'', ''gripper_command'', ''action_chunk'', ''meta'']"

definition validate_action :: "json \<Rightarrow> string option" where
  "validate_action action =
     (if \<not> is_object action then Some ''action must be an object''
      else first_error [
        optional_member action ''joint_position_delta'' validate_joint_state,
        optional_member action ''gripper_command'' validate_gripper,
        (case member action ''action_chunk'' of
           None \<Rightarrow> None
         | Some (JArray items) \<Rightarrow> fails (\<exists>x \<in> set items. \<not> is_object x) ''action_chunk must contain objects''
         | Some _ \<Rightarrow> Some ''action_chunk must be an array''),
        validate_meta action ''action meta must be an object'',
        fails (\<not> (present_value action ''joint_position_delta'' \<or> present_value action ''gripper_command'')
               \<and> (case member action ''action_chunk'' of None \<Rightarrow> True | Some c \<Rightarrow> json_size c = 0)
               \<and> list_all (\<lambda>(k, _). k \<in> set action_keys) (entries action))
          ''action payload must contain a single-step action or an action_chunk''])"

definition validate_error_payload :: "json \<Rightarrow> string option" where
  "validate_error_payload v =
     (if \<not> is_object v then Some ''error requires string code and message''
      else first_error [
        only_keys v [''code'', ''message'', ''details''] ''error'',
        require_string v ''code'' ''error'',
        require_string v ''message'' ''error'',
        (case member v ''details'' of None \<Rightarrow> None | Some d \<Rightarrow> fails (\<not> is_object d) ''error details must be an object'')])"

definition text_member :: "json \<Rightarrow> string \<Rightarrow> string" where
  "text_member v key = (case member v key of Some j \<Rightarrow> string_of j | None \<Rightarrow> [])"

definition error_payload_of :: "json \<Rightarrow> error_payload" where
  "error_payload_of v = \<lparr>ep_code = text_member v ''code'', ep_message = text_member v ''message'',
     ep_details = (case member v ''details'' of None \<Rightarrow> JObject [] | Some d \<Rightarrow> d)\<rparr>"

definition validate_observation_request :: "json \<Rightarrow> string option" where
  "validate_observation_request payload =
     first_error [
       only_keys payload [''observation''] ''observation request'',
       (case member payload ''observation'' of
          None \<Rightarrow> Some ''observation request requires observation''
        | Some JNull \<Rightarrow> Some ''observation request requires observation''
        | Some v \<Rightarrow> validate_observation v)]"

definition validate_action_response :: "json \<Rightarrow> string option" where
  "validate_action_response payload =
     first_error [
       only_keys payload [''ok'', ''action''] ''action response'',
       (case (member payload ''ok'', member payload ''action'') of
          (Some (JBool _), Some JNull) \<Rightarrow> Some ''action response requires boolean ok and action''
        | (Some (JBool _), Some action) \<Rightarrow> validate_action action
        | _ \<Rightarrow> Some ''action response requires boolean ok and action'')]"

definition optional_boolean :: "json \<Rightarrow> string \<Rightarrow> string \<Rightarrow> string option" where
  "optional_boolean payload key error =
     (case member payload key of None \<Rightarrow> None | Some v \<Rightarrow> fails (\<not> is_boolean v) error)"

definition validate_health_request :: "json \<Rightarrow> string option" where
  "validate_health_request payload =
     first_error [only_keys payload [''verbose''] ''health request'',
       optional_boolean payload ''verbose'' ''health request verbose must be a boolean'']"

definition validate_health_response :: "json \<Rightarrow> string option" where
  "validate_health_response payload =
     first_error [
       only_keys payload [''ok'', ''policy_id''] ''health response'',
       (case member payload ''ok'' of
          Some (JBool _) \<Rightarrow> require_string payload ''policy_id'' ''health response''
        | _ \<Rightarrow> Some ''health response requires boolean ok and string policy_id'')]"

definition validate_reset_request :: "json \<Rightarrow> string option" where
  "validate_reset_request payload =
     first_error [only_keys payload [''hard''] ''reset request'',
       optional_boolean payload ''hard'' ''reset request hard must be a boolean'']"

definition validate_server_info_response :: "json \<Rightarrow> string option" where
  "validate_server_info_response payload =
     first_error [
       only_keys payload [''server_name'', ''server_version'', ''supported_schema'', ''transports''] ''server info response'',
       require_string payload ''server_name'' ''server info response'',
       require_string payload ''server_version'' ''server info response'',
       (case member payload ''supported_schema'' of
          None \<Rightarrow> None
        | Some s \<Rightarrow> fails (\<not> is_string s) ''server info response supported_schema must be a string''),
       (case member payload ''transports'' of
          None \<Rightarrow> None
        | Some (JArray ts) \<Rightarrow> fails (\<exists>t \<in> set ts. \<not> is_string t) ''server info response transports must contain strings''
        | Some _ \<Rightarrow> Some ''server info response transports must be an array'')]"

definition validate_payload_for_type :: "string \<Rightarrow> json \<Rightarrow> string option" where
  "validate_payload_for_type type payload =
     (if \<not> is_object payload then Some ''payload must be an object''
      else if type = ''observation_request'' then validate_observation_request payload
      else if type = ''action_response'' then validate_action_response payload
      else if type = ''health_request'' then validate_health_request payload
      else if type = ''health_response'' then validate_health_response payload
      else if type = ''reset_request'' then validate_reset_request payload
      else if type = ''server_info_response'' then validate_server_info_response payload
      else None)"

definition checked :: "string option \<Rightarrow> unit result" where
  "checked error = (case error of Some e \<Rightarrow> failure protocol e | None \<Rightarrow> success ())"

definition validate_action_payload :: "json \<Rightarrow> unit result" where
  "validate_action_payload action = checked (validate_action action)"

definition validate_payload :: "string \<Rightarrow> json \<Rightarrow> unit result" where
  "validate_payload type payload = checked (validate_payload_for_type type payload)"

section \<open>Envelopes\<close>

definition envelope_keys :: "string list" where
  "envelope_keys = [''schema'', ''type'', ''request_id'', ''session_id'', ''step_id'', ''timestamp_ns'', ''payload'', ''error'']"

text \<open>The checks on the envelope's own fields, in the order of the code.\<close>

definition string_field :: "json \<Rightarrow> string \<Rightarrow> string option" where
  "string_field msg key =
     (case member msg key of Some (JString _) \<Rightarrow> None | _ \<Rightarrow> Some (key @ '' must be a string''))"

definition blank_field :: "json \<Rightarrow> string \<Rightarrow> string option" where
  "blank_field msg key = fails (is_blank (text_member msg key)) (key @ '' must be non-empty'')"

definition envelope_fields :: "json \<Rightarrow> string option" where
  "envelope_fields msg =
     first_error [
       map_option (\<lambda>(k, _). ''unknown top-level key: '' @ k) (find (\<lambda>(k, _). k \<notin> set envelope_keys) (entries msg)),
       (case member msg ''schema'' of None \<Rightarrow> None | Some s \<Rightarrow> fails (\<not> is_string s) ''schema must be a string''),
       string_field msg ''type'',
       string_field msg ''request_id'',
       string_field msg ''session_id'',
       (case member msg ''timestamp_ns'' of
          None \<Rightarrow> Some ''timestamp_ns must be an integer''
        | Some t \<Rightarrow> fails (\<not> is_strict_integer t) ''timestamp_ns must be an integer''),
       blank_field msg ''type'',
       blank_field msg ''request_id'',
       blank_field msg ''session_id'']"

fun decode_timestamp :: "json \<Rightarrow> string + int" where
  "decode_timestamp (JInt t) = (if t < 0 then Inl ''timestamp_ns must be >= 0'' else Inr t)"
| "decode_timestamp (JUint t) = (if uint t > 2 ^ 63 - 1 then Inl ''timestamp_ns is out of range'' else Inr (uint t))"
| "decode_timestamp _ = Inl ''timestamp_ns must be an integer''"

fun decode_step :: "json option \<Rightarrow> string + u64" where
  "decode_step None = Inr 0"
| "decode_step (Some (JInt s)) = (if s < 0 then Inl ''step_id must be a non-negative integer'' else Inr (word_of_int s))"
| "decode_step (Some (JUint s)) = Inr s"
| "decode_step (Some _) = Inl ''step_id must be a non-negative integer''"

definition decode_error :: "json \<Rightarrow> string + error_payload option" where
  "decode_error msg =
     (case member msg ''error'' of
        None \<Rightarrow> Inr None
      | Some JNull \<Rightarrow> Inr None
      | Some v \<Rightarrow> (case validate_error_payload v of Some e \<Rightarrow> Inl e | None \<Rightarrow> Inr (Some (error_payload_of v))))"

definition decode_envelope_impl :: "(string \<Rightarrow> json option) \<Rightarrow> string \<Rightarrow> bool \<Rightarrow> message_envelope result" where
  "decode_envelope_impl parse text validate_typed_payload =
     (case parse text of
        None \<Rightarrow> failure protocol ''invalid JSON message''
      | Some msg \<Rightarrow>
          if \<not> is_object msg then failure protocol ''message envelope must be an object''
          else case envelope_fields msg of
            Some e \<Rightarrow> failure protocol e
          | None \<Rightarrow>
          (case decode_timestamp (the (member msg ''timestamp_ns'')) of
            Inl e \<Rightarrow> failure protocol e
          | Inr timestamp \<Rightarrow>
          (case decode_step (member msg ''step_id'') of
            Inl e \<Rightarrow> failure protocol e
          | Inr step \<Rightarrow>
              let type = text_member msg ''type'';
                  payload = (case member msg ''payload'' of None \<Rightarrow> JObject [] | Some p \<Rightarrow> p)
              in if \<not> is_object payload then failure protocol ''payload must be an object''
                 else case (if validate_typed_payload then validate_payload_for_type type payload else None) of
                   Some e \<Rightarrow> failure protocol e
                 | None \<Rightarrow>
                 (case decode_error msg of
                   Inl e \<Rightarrow> failure protocol e
                 | Inr error \<Rightarrow> success
                     \<lparr>me_schema = (case member msg ''schema'' of None \<Rightarrow> kSchemaVersion | Some s \<Rightarrow> string_of s),
                      me_type = type, me_request_id = text_member msg ''request_id'',
                      me_session_id = text_member msg ''session_id'', me_step_id = step, me_timestamp_ns = timestamp,
                      me_payload = payload, me_error = error\<rparr>))))"

definition decode_envelope :: "(string \<Rightarrow> json option) \<Rightarrow> string \<Rightarrow> message_envelope result" where
  "decode_envelope parse text = decode_envelope_impl parse text True"

definition decode_envelope_for_dispatch :: "(string \<Rightarrow> json option) \<Rightarrow> string \<Rightarrow> message_envelope result" where
  "decode_envelope_for_dispatch parse text = decode_envelope_impl parse text False"

definition error_json :: "error_payload option \<Rightarrow> json" where
  "error_json error =
     (case error of
        None \<Rightarrow> JNull
      | Some e \<Rightarrow> json_object [(''code'', JString (ep_code e)), (''message'', JString (ep_message e)), (''details'', ep_details e)])"

definition envelope_json :: "message_envelope \<Rightarrow> json" where
  "envelope_json e =
     json_set ''error'' (error_json (me_error e))
       (json_object [(''schema'', JString (me_schema e)), (''type'', JString (me_type e)),
          (''request_id'', JString (me_request_id e)), (''session_id'', JString (me_session_id e)),
          (''step_id'', JUint (me_step_id e)), (''timestamp_ns'', JInt (me_timestamp_ns e)), (''payload'', me_payload e)])"

definition encode_envelope :: "(json \<Rightarrow> string option) \<Rightarrow> message_envelope \<Rightarrow> string option" where
  "encode_envelope dump e = dump (envelope_json e)"

end
