(* ===== verification/Policy.thy ===== *)
theory Policy
  imports Json
begin

text \<open>
  Policies and processor pipelines, \<^verbatim>\<open>src/policy/dummy_policy.cpp\<close> and \<^verbatim>\<open>src/policy/pipeline.cpp\<close>, with the policy profile
  of \<^verbatim>\<open>include/policy_runtime/profiles/policy_profile.hpp\<close>.  Both policies are stateless; an inference either returns a
  result or throws an exception of the JSON library, whose text is the parameter \<open>what\<close>.
\<close>

section \<open>Policy profiles\<close>

datatype semantic_kind = sk_scalar | sk_vector | sk_text | sk_image | sk_object

record semantic_bounds =
  sb_lower :: "fp option"
  sb_upper :: "fp option"

record semantic_field =
  sm_name :: string
  sm_semantic_type :: string
  sm_kind :: semantic_kind
  sm_unit :: "string option"
  sm_ordering :: "string list"
  sm_bounds :: "semantic_bounds option"
  sm_frame :: "string option"
  sm_normalized :: bool
  sm_optional :: bool
  sm_description :: "string option"

datatype temporal_mode = single_step | chunked

record temporal_spec =
  ts_mode :: temporal_mode
  ts_action_horizon :: u64
  ts_observation_history :: u64

record processor_spec =
  pc_name :: string
  pc_params :: json

record policy_binding =
  pb_name :: string
  pb_robot_data :: string
  pb_canonical_field :: string
  pb_source_path :: "string option"
  pb_target_path :: "string option"
  pb_optional :: bool
  pb_metadata :: json

record policy_profile =
  pp_id :: string
  pp_version :: string
  pp_policy :: string
  pp_model :: json
  pp_inputs :: "policy_binding list"
  pp_outputs :: "policy_binding list"
  pp_canonical_observation_schema :: "semantic_field list"
  pp_canonical_action_schema :: "semantic_field list"
  pp_temporal :: temporal_spec
  pp_preprocess :: "processor_spec list"
  pp_postprocess :: "processor_spec list"
  pp_safety :: json

section \<open>Pipelines\<close>

text \<open>A pipeline is its number of steps that do nothing.\<close>

fun check_processors :: "string \<Rightarrow> processor_spec list \<Rightarrow> unit result" where
  "check_processors stage [] = success ()"
| "check_processors stage (s # rest) =
     (if pc_name s \<noteq> ''noop'' then failure invalid_argument (''unknown '' @ stage @ '' processor: '' @ pc_name s)
      else if json_size (pc_params s) \<noteq> 0
      then failure invalid_argument (''noop '' @ stage @ '' processor does not accept parameters'')
      else check_processors stage rest)"

definition pipeline_create :: "processor_spec list \<Rightarrow> string \<Rightarrow> nat result" where
  "pipeline_create specifications stage =
     (case check_processors stage specifications of
        Inl e \<Rightarrow> Inl e
      | Inr _ \<Rightarrow> success (if specifications = [] then 1 else length specifications))"

definition pipeline_run :: "nat \<Rightarrow> json \<Rightarrow> json result" where
  "pipeline_run noop_count v =
     (if noop_count = 0 then failure internal ''processor pipeline is not initialized'' else success v)"

section \<open>Python representations\<close>

definition quote_char :: "string \<Rightarrow> char" where
  "quote_char v = (if CHR 0x27 \<in> set v \<and> CHR 0x22 \<notin> set v then CHR 0x22 else CHR 0x27)"

definition hex_digit :: "nat \<Rightarrow> char" where
  "hex_digit n = ''0123456789abcdef'' ! n"

definition repr_char :: "char \<Rightarrow> char \<Rightarrow> string" where
  "repr_char quote c =
     (if c = quote \<or> c = CHR 0x5C then [CHR 0x5C, c]
      else if c = CHR 0x0A then [CHR 0x5C, CHR ''n'']
      else if c = CHR 0x0D then [CHR 0x5C, CHR ''r'']
      else if c = CHR 0x09 then [CHR 0x5C, CHR ''t'']
      else if (of_char c :: nat) < 0x20 \<or> (of_char c :: nat) = 0x7F
      then [CHR 0x5C, CHR ''x'', hex_digit ((of_char c div 16) mod 16), hex_digit (of_char c mod 16)]
      else [c])"

definition python_string_repr :: "string \<Rightarrow> string" where
  "python_string_repr v = [quote_char v] @ concat (map (repr_char (quote_char v)) v) @ [quote_char v]"

fun comma_separated :: "string list \<Rightarrow> string" where
  "comma_separated [] = []"
| "comma_separated [s] = s"
| "comma_separated (s # ss) = s @ '', '' @ comma_separated ss"

text \<open>\<open>dump\<close> prints the numbers, as the library does.\<close>

fun python_repr :: "(json \<Rightarrow> string) \<Rightarrow> json \<Rightarrow> string" where
  "python_repr dump JNull = ''None''"
| "python_repr dump (JBool b) = (if b then ''True'' else ''False'')"
| "python_repr dump (JString s) = python_string_repr s"
| "python_repr dump (JArray xs) = ''['' @ comma_separated (map (python_repr dump) xs) @ '']''"
| "python_repr dump (JObject es) =
     [CHR 0x7B] @ comma_separated (map (\<lambda>(k, v). python_string_repr k @ '': '' @ python_repr dump v) es) @ [CHR 0x7D]"
| "python_repr dump v = dump v"

section \<open>Policies\<close>

record policy_session =
  ps_session_id :: string
  ps_step_id :: u64
  ps_metadata :: json

datatype policy =
    Dummy_Policy policy_profile
  | Pi0_Like_Policy string string string

definition string_config :: "(json \<Rightarrow> string) \<Rightarrow> json \<Rightarrow> string \<Rightarrow> string \<Rightarrow> string" where
  "string_config dump config key fallback =
     (case member config key of
        None \<Rightarrow> fallback
      | Some (JString s) \<Rightarrow> s
      | Some v \<Rightarrow> python_repr dump v)"

definition make_policy :: "(json \<Rightarrow> string) \<Rightarrow> policy_profile \<Rightarrow> policy result" where
  "make_policy dump profile =
     (if pp_policy profile \<noteq> ''dummy''
      then if pp_policy profile = ''pi0_like''
           then success (Pi0_Like_Policy (string_config dump (pp_model profile) ''checkpoint'' [])
                  (string_config dump (pp_model profile) ''device'' ''cpu'')
                  (string_config dump (pp_model profile) ''precision'' ''fp16''))
           else failure invalid_argument (''unknown policy: '' @ pp_policy profile)
      else success (Dummy_Policy profile))"

text \<open>Exceptions of the JSON library that the code can meet.\<close>

datatype json_exception = type_error string json | invalid_iterator json

definition dummy_infer :: "policy_profile \<Rightarrow> json \<Rightarrow> json" where
  "dummy_infer profile observation =
     (if pp_inputs profile \<noteq> []
      then fold (\<lambda>index action.
             json_set (pb_canonical_field (pp_outputs profile ! index))
               (case member observation (pb_canonical_field (pp_inputs profile ! index)) of None \<Rightarrow> JNull | Some v \<Rightarrow> v) action)
           [0..<length (pp_inputs profile)] (JObject [])
      else
        let with_joint = (case member observation ''joint_position'' of
                            None \<Rightarrow> JObject []
                          | Some v \<Rightarrow> json_set ''joint_position_delta'' v (JObject []))
        in case member observation ''gripper_width'' of
             None \<Rightarrow> with_joint
           | Some v \<Rightarrow> json_set ''gripper_command'' v with_joint)"

definition value_or_default :: "json \<Rightarrow> string \<Rightarrow> json \<Rightarrow> json" where
  "value_or_default object key fallback = (case member object key of None \<Rightarrow> fallback | Some v \<Rightarrow> v)"

definition object_or_empty :: "json option \<Rightarrow> json" where
  "object_or_empty j = (case j of Some (JObject es) \<Rightarrow> JObject es | _ \<Rightarrow> JObject [])"

definition two_hundredths :: fp where "two_hundredths = fround f64 (2 / 100)"

definition pi0_deltas :: "nat \<Rightarrow> json" where
  "pi0_deltas n = JArray (map (\<lambda>i. JFloat (if i mod 2 = 0 then two_hundredths else fneg two_hundredths)) [0..<n])"

definition pi0_step :: "json \<Rightarrow> json \<Rightarrow> json \<Rightarrow> fp \<Rightarrow> u64 \<Rightarrow> nat \<Rightarrow> json" where
  "pi0_step deltas names unit gripper_value step_id index =
     json_object [
       (''joint_position_delta'', json_object [(''values'', deltas), (''joint_names'', names), (''unit'', unit)]),
       (''gripper_command'', json_object [(''value'', JFloat gripper_value), (''unit'', JString ''m'')]),
       (''meta'', json_object [(''chunk_index'', JUint (of_nat index)), (''step_id'', JUint step_id)])]"

definition pi0_gripper :: "json \<Rightarrow> json_exception + fp" where
  "pi0_gripper observation =
     (case member observation ''gripper_width'' of
        Some (JObject es) \<Rightarrow>
          (case map_of es ''value'' of
             None \<Rightarrow> Inr (fround f64 (4 / 100))
           | Some v \<Rightarrow> if is_number v then Inr (number_of f64 v) else Inl (type_error ''number'' v))
      | _ \<Rightarrow> Inr (fround f64 (4 / 100)))"

definition pi0_infer :: "string \<Rightarrow> string \<Rightarrow> string \<Rightarrow> json \<Rightarrow> policy_session \<Rightarrow> json_exception + json" where
  "pi0_infer checkpoint device precision observation session =
     (let joint = object_or_empty (member observation ''joint_position'');
          values = value_or_default joint ''values'' (JArray []);
          names = value_or_default joint ''joint_names'' (JArray []);
          unit = value_or_default joint ''unit'' (JString ''rad'')
      in if \<not> is_string unit then Inl (type_error ''string'' unit)
         else case pi0_gripper observation of
           Inl e \<Rightarrow> Inl e
         | Inr gripper_value \<Rightarrow> Inr (json_object [
             (''action_chunk'', JArray (map (pi0_step (pi0_deltas (json_size values)) names unit gripper_value (ps_step_id session))
                [0..<4])),
             (''meta'', json_object [(''backend'', JString ''pi0_like_placeholder''), (''checkpoint'', JString checkpoint),
                (''device'', JString device), (''precision'', JString precision)])]))"

definition infer :: "policy \<Rightarrow> json \<Rightarrow> policy_session \<Rightarrow> json_exception + json result" where
  "infer p observation session =
     (case p of
        Dummy_Policy profile \<Rightarrow> Inr (success (dummy_infer profile observation))
      | Pi0_Like_Policy checkpoint device precision \<Rightarrow>
          (case pi0_infer checkpoint device precision observation session of
             Inl e \<Rightarrow> Inl e
           | Inr action \<Rightarrow> Inr (success action)))"

fun capabilities :: "policy \<Rightarrow> json" where
  "capabilities (Dummy_Policy _) = json_object [(''backend'', JString ''dummy''),
     (''modalities'', JArray [JString ''joint_position'', JString ''gripper_width'', JString ''task_text'']),
     (''temporal_modes'', JArray [JString ''single_step''])]"
| "capabilities (Pi0_Like_Policy _ _ _) = json_object [(''backend'', JString ''pytorch_placeholder''),
     (''modalities'', JArray [JString ''image'', JString ''joint_position'', JString ''task_text'']),
     (''temporal_modes'', JArray [JString ''single_step'', JString ''chunked''])]"

end
