(* ===== verification/Runtime_Host.thy ===== *)
theory Runtime_Host
  imports Rpc_Codec Policy Dds_Host
begin

text \<open>
  The policy host, \<^verbatim>\<open>src/runtime/runtime_host.cpp\<close> and \<^verbatim>\<open>src/runtime/runtime_host_cli.cpp\<close>: it answers requests, runs the policy
  on the observation merged with the robot's feedback, and publishes the resulting commands.  The abstract class
  \<open>RuntimeRobotIo\<close> is a record of operations over a state \<open>'r\<close>; \<open>dds_robot_io\<close> is its implementation over
  \<^verbatim>\<open>Dds_Host\<close>.  Clock readings are arguments, \<open>what\<close> is the text of an exception.
\<close>

section \<open>Robot I/O\<close>

record 'r robot_io_ops =
  io_axis_count :: "'r \<Rightarrow> nat"
  io_servo_count :: "'r \<Rightarrow> nat"
  io_damiao_count :: "'r \<Rightarrow> nat"
  io_read_feedback :: "'r \<Rightarrow> 'r \<times> axis_feedback snapshot result"
  io_read_servo_feedback :: "'r \<Rightarrow> 'r \<times> servo_feedback snapshot result"
  io_read_damiao_feedback :: "'r \<Rightarrow> 'r \<times> damiao_feedback snapshot result"
  io_publish_commands :: "axis_command list \<Rightarrow> servo_command list \<Rightarrow> u64 \<Rightarrow> int \<Rightarrow> 'r \<Rightarrow> 'r \<times> unit result"
  io_publish_damiao_commands :: "mit_command list \<Rightarrow> bool list \<Rightarrow> u64 \<Rightarrow> int \<Rightarrow> 'r \<Rightarrow> 'r \<times> unit result"
  io_close :: "'r \<Rightarrow> 'r"

text \<open>The implementation over DDS: the state is the endpoint with what every call of the two publishing operations has
  written, also when the call failed in between; the arguments are what its readers take and the exceptions its writers
  throw.\<close>

record dds_traffic =
  tr_cia402 :: "nat \<Rightarrow> cia402_sensor_state sample list"
  tr_st3215 :: "nat \<Rightarrow> st3215_sensor_state sample list"
  tr_damiao :: "nat \<Rightarrow> damiao_sensor_state sample list"
  tr_publish_exception :: "(nat \<times> string) option"
  tr_damiao_exception :: "(nat \<times> string) option"

type_synonym dds_io_state = "dds_host \<times> host_commands list \<times> damiao_actuator_command list list"

definition dds_robot_io :: "dds_traffic \<Rightarrow> dds_io_state robot_io_ops" where
  "dds_robot_io traffic = \<lparr>
     io_axis_count = (\<lambda>(h, _). hh_axis_count h), io_servo_count = (\<lambda>(h, _). hh_servo_count h),
     io_damiao_count = (\<lambda>(h, _). hh_damiao_count h),
     io_read_feedback = (\<lambda>(h, out). let (h', s) = read_feedback (tr_cia402 traffic) h in ((h', out), success s)),
     io_read_servo_feedback = (\<lambda>(h, out). let (h', s) = read_servo_feedback (tr_st3215 traffic) h in ((h', out), success s)),
     io_read_damiao_feedback = (\<lambda>(h, out). let (h', s) = read_damiao_feedback (tr_damiao traffic) h in ((h', out), success s)),
     io_publish_commands = (\<lambda>axis_commands servo_commands sequence timestamp_ns (h, sent, motors).
       let (batch, r) = publish_commands (tr_publish_exception traffic) h axis_commands servo_commands sequence timestamp_ns
       in ((h, sent @ [batch], motors), r)),
     io_publish_damiao_commands = (\<lambda>cs enabled_flags sequence timestamp_ns (h, sent, motors).
       let (batch, r) = publish_damiao_commands (tr_damiao_exception traffic) h cs enabled_flags sequence timestamp_ns
       in ((h, sent, motors @ [batch]), r)),
     io_close = (\<lambda>s. s)\<rparr>"

section \<open>Matching axes with actuators\<close>

definition digit_value :: "char \<Rightarrow> nat option" where
  "digit_value c =
     (if byte_between CHR ''0'' c CHR ''9'' then Some (of_char c - 48)
      else if byte_between CHR ''a'' c CHR ''f'' then Some (of_char c - 87)
      else if byte_between CHR ''A'' c CHR ''F'' then Some (of_char c - 55) else None)"

text \<open>\<open>from_chars\<close> on a text that has to consist of digits of the base entirely.\<close>

fun digits_from :: "nat \<Rightarrow> nat \<Rightarrow> string \<Rightarrow> nat option" where
  "digits_from base n [] = Some n"
| "digits_from base n (c # cs) =
     (case digit_value c of
        Some v \<Rightarrow> if v < base then digits_from base (n * base + v) cs else None
      | None \<Rightarrow> None)"

definition parse_digits :: "nat \<Rightarrow> string \<Rightarrow> nat option" where
  "parse_digits base text = (if text = [] then None else digits_from base 0 text)"

definition parse_bus_position :: "string \<Rightarrow> u16 option" where
  "parse_bus_position text =
     (let hex = (length text > 2 \<and> text ! 0 = CHR ''0'' \<and> (text ! 1 = CHR ''x'' \<or> text ! 1 = CHR ''X''))
      in case (if hex then parse_digits 16 (drop 2 text) else parse_digits 10 text) of
           None \<Rightarrow> None
         | Some v \<Rightarrow> if v > 65535 then None else Some (of_nat v))"

definition matches_axis :: "device_config \<Rightarrow> axis_config \<Rightarrow> string \<Rightarrow> bool" where
  "matches_axis device axis path \<longleftrightarrow>
     dv_type device = ''cia402'' \<and> dv_path device = path
     \<and> (case (dv_args device ''alias'', dv_args device ''position'') of
          (Some alias, Some position) \<Rightarrow>
            parse_bus_position alias = Some (ac_alias axis) \<and> parse_bus_position position = Some (ac_position axis)
        | _ \<Rightarrow> False)"

fun axis_actuator_names :: "robot_profile \<Rightarrow> axis_config list \<Rightarrow> string list result" where
  "axis_actuator_names profile [] = success []"
| "axis_actuator_names profile (axis # axes) =
     (case find (\<lambda>s. dv_type s = ''cia402'' \<and> dv_name s = ac_name axis) (rp_sensors profile) of
        None \<Rightarrow> failure invalid_argument (''cia402 axis has no matching sensor: '' @ ac_name axis)
      | Some sensor \<Rightarrow>
          (case find (\<lambda>a. matches_axis a axis (dv_path sensor)) (rp_actuators profile) of
             None \<Rightarrow> failure invalid_argument (''cia402 axis has no matching actuator: '' @ ac_name axis)
           | Some actuator \<Rightarrow>
               (case axis_actuator_names profile axes of
                  Inl e \<Rightarrow> Inl e
                | Inr names \<Rightarrow> success (dv_name actuator # names))))"

section \<open>Normalisation\<close>

definition update_member :: "string \<Rightarrow> (json \<Rightarrow> json) \<Rightarrow> json \<Rightarrow> json" where
  "update_member key f j = (case member j key of None \<Rightarrow> j | Some v \<Rightarrow> json_set key (f v) j)"

definition as_double :: "json \<Rightarrow> json" where
  "as_double j = (if is_number j then JFloat (number_of f64 j) else j)"

fun normalize_values :: "json \<Rightarrow> json" where
  "normalize_values (JArray xs) = JArray (map as_double xs)"
| "normalize_values j = j"

definition normalize_joint_state_numbers :: "json \<Rightarrow> json" where
  "normalize_joint_state_numbers v = (if \<not> is_object v then v else update_member ''values'' normalize_values v)"

definition normalize_gripper_number :: "json \<Rightarrow> json" where
  "normalize_gripper_number v = (if \<not> is_object v then v else update_member ''value'' as_double v)"

definition default_member :: "string \<Rightarrow> json \<Rightarrow> json \<Rightarrow> json" where
  "default_member key v j = (if member j key = None then json_set key v j else j)"

definition normalize_image :: "json \<Rightarrow> json" where
  "normalize_image v =
     (if \<not> is_object v then v
      else default_member ''mime_type'' (JString ''image/jpeg'') (default_member ''encoding'' (JString ''base64'') v))"

definition normalized_observation :: "json \<Rightarrow> json" where
  "normalized_observation input =
     (let present = fold (\<lambda>field j. if member j field = Some JNull then json_erase field j else j)
            [''joint_position'', ''gripper_width'', ''task_text'', ''image''] input
      in update_member ''image'' normalize_image (update_member ''gripper_width'' normalize_gripper_number
           (update_member ''joint_position'' normalize_joint_state_numbers (default_member ''meta'' (JObject []) present))))"

text \<open>Iterating the keys of a value that is neither an object nor empty throws.\<close>

definition normalized_action :: "json \<Rightarrow> json_exception + json" where
  "normalized_action input =
     (if \<not> is_object input \<and> json_size input \<noteq> 0 then Inl (invalid_iterator input)
      else
        let blank = json_object [(''joint_position_delta'', JNull), (''gripper_command'', JNull), (''action_chunk'', JArray []),
                                 (''meta'', JObject [])]
        in Inr (update_member ''gripper_command'' normalize_gripper_number
             (update_member ''joint_position_delta'' normalize_joint_state_numbers
               (fold (\<lambda>(k, v). json_set k v) (entries input) blank))))"

definition missing_fields_message :: "string list \<Rightarrow> string" where
  "missing_fields_message names =
     ''missing required canonical observation fields: ['' @ comma_separated (map quoted names) @ '']''"

section \<open>Targets\<close>

definition feedback_value :: "axis_config \<Rightarrow> axis_feedback \<Rightarrow> fp" where
  "feedback_value axis v =
     (case ac_mode axis of csp \<Rightarrow> fb_position v | csv \<Rightarrow> fb_velocity v | cst \<Rightarrow> fb_effort v | _ \<Rightarrow> fb_position v)"

definition first_number :: "string list \<Rightarrow> json \<Rightarrow> fp option" where
  "first_number keys v =
     (case find (\<lambda>key. case member v key of Some x \<Rightarrow> is_number x | None \<Rightarrow> False) keys of
        None \<Rightarrow> None
      | Some key \<Rightarrow> Some (number_of f64 (the (member v key))))"

definition target_keys :: "cia402_mode \<Rightarrow> string list" where
  "target_keys mode =
     (case mode of
        csp \<Rightarrow> [''target_position'', ''target_position_rad'', ''position'']
      | csv \<Rightarrow> [''target_velocity'', ''velocity'']
      | cst \<Rightarrow> [''target_effort'', ''target_torque'', ''effort'', ''torque'']
      | _ \<Rightarrow> []) @ [''target'', ''value'']"

definition action_target :: "json \<Rightarrow> cia402_mode \<Rightarrow> fp option" where
  "action_target v mode =
     (if is_number v then Some (number_of f64 v) else if is_object v then first_number (target_keys mode) v else None)"

definition servo_target :: "json \<Rightarrow> fp option" where
  "servo_target v =
     (if is_number v then Some (number_of f64 v)
      else if is_object v then first_number [''position_rad'', ''target_position_rad''] v else None)"

definition float_member :: "json \<Rightarrow> string \<Rightarrow> fp" where
  "float_member v key =
     (case member v key of Some x \<Rightarrow> if is_number x then number_of f32 x else Fin 0 | None \<Rightarrow> Fin 0)"

definition motor_command :: "json \<Rightarrow> mit_command \<times> bool" where
  "motor_command v =
     (\<lparr>mc_position = float_member v ''position'', mc_velocity = float_member v ''velocity'', mc_kp = float_member v ''kp'',
       mc_kd = float_member v ''kd'', mc_torque = float_member v ''torque''\<rparr>,
      case member v ''enabled'' of Some (JBool b) \<Rightarrow> b | _ \<Rightarrow> True)"

definition no_motor_command :: "mit_command \<times> bool" where
  "no_motor_command = (\<lparr>mc_position = Fin 0, mc_velocity = Fin 0, mc_kp = Fin 0, mc_kd = Fin 0, mc_torque = Fin 0\<rparr>, False)"

section \<open>The host\<close>

record 'r runtime_host =
  rt_profile :: policy_profile
  rt_robot_profile :: robot_profile
  rt_axis_actuator_names :: "string list"
  rt_policy :: policy
  rt_preprocess :: nat
  rt_postprocess :: nat
  rt_robot_io :: "'r option"
  rt_sessions :: "string \<rightharpoonup> policy_session"
  rt_command_sequence :: u64
  rt_last_command_timestamp_ns :: int
  rt_open :: bool

definition empty_robot_profile :: robot_profile where
  "empty_robot_profile = \<lparr>rp_sensors = [], rp_actuators = [], rp_axes = [], rp_st3215_servos = [], rp_damiao_motors = [],
     rp_dds = default_dds_config\<rparr>"

text \<open>The arguments are the results of loading the two profiles.\<close>

definition from_profiles ::
  "(json \<Rightarrow> string) \<Rightarrow> policy_profile result \<Rightarrow> robot_profile result option \<Rightarrow> 'r option \<Rightarrow> 'r runtime_host result" where
  "from_profiles dump policy_loaded robot_loaded robot_io =
     (case policy_loaded of
        Inl e \<Rightarrow> Inl e
      | Inr profile \<Rightarrow>
      (case make_policy dump profile of
        Inl e \<Rightarrow> Inl e
      | Inr policy \<Rightarrow>
      (case pipeline_create (pp_preprocess profile) ''preprocess'' of
        Inl e \<Rightarrow> Inl e
      | Inr preprocess \<Rightarrow>
      (case pipeline_create (pp_postprocess profile) ''postprocess'' of
        Inl e \<Rightarrow> Inl e
      | Inr postprocess \<Rightarrow>
      (case (case robot_loaded of None \<Rightarrow> success empty_robot_profile | Some r \<Rightarrow> r) of
        Inl e \<Rightarrow> Inl e
      | Inr robot \<Rightarrow>
      (case axis_actuator_names robot (rp_axes robot) of
        Inl e \<Rightarrow> Inl e
      | Inr names \<Rightarrow> success \<lparr>rt_profile = profile, rt_robot_profile = robot, rt_axis_actuator_names = names,
          rt_policy = policy, rt_preprocess = preprocess, rt_postprocess = postprocess, rt_robot_io = robot_io,
          rt_sessions = Map.empty, rt_command_sequence = 0, rt_last_command_timestamp_ns = 0, rt_open = False\<rparr>))))))"

definition host_open :: "'r robot_io_ops \<Rightarrow> 'r runtime_host \<Rightarrow> 'r runtime_host \<times> unit result" where
  "host_open ops h =
     (let robot = rt_robot_profile h
      in case rt_robot_io h of
           None \<Rightarrow>
             if rp_axes robot \<noteq> [] \<or> rp_st3215_servos robot \<noteq> []
             then (h, failure unavailable ''robot profile requires a robot I/O daemon connection'')
             else (h\<lparr>rt_open := True\<rparr>, success ())
         | Some r \<Rightarrow>
             if io_axis_count ops r \<noteq> length (rp_axes robot)
             then (h, failure invalid_argument ''robot I/O axis count does not match robot profile'')
             else if io_servo_count ops r \<noteq> length (rp_st3215_servos robot)
             then (h, failure invalid_argument ''robot I/O servo count does not match robot profile'')
             else if io_damiao_count ops r \<noteq> length (rp_damiao_motors robot)
             then (h, failure invalid_argument ''robot I/O Damiao count does not match robot profile'')
             else (h\<lparr>rt_open := True\<rparr>, success ()))"

definition host_close :: "'r robot_io_ops \<Rightarrow> 'r runtime_host \<Rightarrow> 'r runtime_host" where
  "host_close ops h = h\<lparr>rt_open := False, rt_robot_io := map_option (io_close ops) (rt_robot_io h)\<rparr>"

section \<open>Observing\<close>

text \<open>A step of a request that fails carries the code and the message of the error reply.\<close>

type_synonym 'a attempt = "(string \<times> string) + 'a"

definition refuse :: "string \<Rightarrow> 'a attempt" where
  "refuse text = Inl (''runtime_error'', text)"

definition and_then :: "'s \<times> 'a attempt \<Rightarrow> ('a \<Rightarrow> 's \<Rightarrow> 's \<times> 'b attempt) \<Rightarrow> 's \<times> 'b attempt" where
  "and_then sr f = (case snd sr of Inl e \<Rightarrow> (fst sr, Inl e) | Inr a \<Rightarrow> f a (fst sr))"

definition message_or :: "string \<Rightarrow> error \<Rightarrow> string" where
  "message_or fallback e = (if message e = [] then fallback else message e)"

definition sense_axes :: "'r robot_io_ops \<Rightarrow> robot_profile \<Rightarrow> json \<Rightarrow> 'r \<Rightarrow> 'r \<times> json attempt" where
  "sense_axes ops robot sensed r =
     (if rp_axes robot = [] then (r, Inr sensed)
      else case io_read_feedback ops r of
             (r', Inl e) \<Rightarrow> (r', refuse (message_or ''robot feedback is unavailable'' e))
           | (r', Inr snap) \<Rightarrow>
               if snapshot.sn_axis_count snap \<noteq> length (rp_axes robot)
               then (r', refuse ''robot feedback axis count does not match robot profile'')
               else (r', Inr (fold (\<lambda>i. json_set (ac_name (rp_axes robot ! i))
                      (JFloat (feedback_value (rp_axes robot ! i) (snapshot.sn_axes snap ! i))))
                    [0..<length (rp_axes robot)] sensed)))"

definition servo_json :: "servo_profile \<Rightarrow> servo_feedback \<Rightarrow> json" where
  "servo_json servo v = json_object [(''servo_id'', JUint (ucast (pf_servo_id servo))), (''position_rad'', JFloat (vf_position_rad v)),
     (''raw_position'', JUint (ucast (vf_raw_position v))), (''status_error'', JUint (ucast (vf_status_error v)))]"

definition sense_servos :: "'r robot_io_ops \<Rightarrow> robot_profile \<Rightarrow> json \<Rightarrow> 'r \<Rightarrow> 'r \<times> json attempt" where
  "sense_servos ops robot sensed r =
     (if rp_st3215_servos robot = [] then (r, Inr sensed)
      else case io_read_servo_feedback ops r of
             (r', Inl e) \<Rightarrow> (r', refuse (message_or ''robot servo feedback is unavailable'' e))
           | (r', Inr snap) \<Rightarrow>
               if snapshot.sn_axis_count snap \<noteq> length (rp_st3215_servos robot)
               then (r', refuse ''robot feedback servo count does not match robot profile'')
               else (r', Inr (fold (\<lambda>i. json_set (pf_sensor_name (rp_st3215_servos robot ! i))
                      (servo_json (rp_st3215_servos robot ! i) (snapshot.sn_axes snap ! i)))
                    [0..<length (rp_st3215_servos robot)] sensed)))"

definition motor_json :: "damiao_feedback \<Rightarrow> json" where
  "motor_json v = json_object [(''motor_id'', JUint (ucast (df_motor_id v))), (''position'', JFloat (df_position v)),
     (''velocity'', JFloat (df_velocity v)), (''torque'', JFloat (df_torque v)), (''error_code'', JUint (ucast (df_error_code v)))]"

definition sense_motors :: "'r robot_io_ops \<Rightarrow> robot_profile \<Rightarrow> json \<Rightarrow> 'r \<Rightarrow> 'r \<times> json attempt" where
  "sense_motors ops robot sensed r =
     (if rp_damiao_motors robot = [] then (r, Inr sensed)
      else case io_read_damiao_feedback ops r of
             (r', Inl e) \<Rightarrow> (r', refuse ''Damiao feedback is unavailable'')
           | (r', Inr snap) \<Rightarrow>
               (r', Inr (fold (\<lambda>i. json_set (dp_sensor_name (rp_damiao_motors robot ! i)) (motor_json (snapshot.sn_axes snap ! i)))
                    [0..<length (rp_damiao_motors robot)] sensed)))"

definition sense :: "'r robot_io_ops \<Rightarrow> robot_profile \<Rightarrow> json \<Rightarrow> 'r option \<Rightarrow> 'r option \<times> json attempt" where
  "sense ops robot request_observation robot_io =
     (case robot_io of
        None \<Rightarrow> (None, Inr request_observation)
      | Some r \<Rightarrow>
          map_prod Some (\<lambda>x. x)
            (and_then (and_then (sense_axes ops robot request_observation r) (sense_servos ops robot)) (sense_motors ops robot)))"

definition bind_inputs :: "policy_binding list \<Rightarrow> json \<Rightarrow> json" where
  "bind_inputs inputs sensed =
     fold (\<lambda>binding observation.
         case member sensed (pb_robot_data binding) of
           Some v \<Rightarrow> json_set (pb_canonical_field binding) v observation
         | None \<Rightarrow>
             (case member sensed (pb_canonical_field binding) of
                Some v \<Rightarrow> json_set (pb_canonical_field binding) v observation
              | None \<Rightarrow> observation))
       inputs (JObject [])"

definition missing_fields :: "semantic_field list \<Rightarrow> json \<Rightarrow> string list" where
  "missing_fields schema observation =
     map sm_name (filter (\<lambda>f. \<not> sm_optional f \<and> member observation (sm_name f) = None) schema)"

definition observe :: "policy_profile \<Rightarrow> json \<Rightarrow> json \<Rightarrow> json attempt" where
  "observe profile request_observation sensed =
     (let bound = bind_inputs (pp_inputs profile) sensed;
          observation = (if json_size bound = 0 then request_observation else bound);
          missing = missing_fields (pp_canonical_observation_schema profile) observation
      in if missing \<noteq> [] then refuse (missing_fields_message missing) else Inr observation)"

section \<open>Inferring\<close>

definition run_pipeline :: "nat \<Rightarrow> json \<Rightarrow> json attempt" where
  "run_pipeline noop_count v = (case pipeline_run noop_count v of Inl e \<Rightarrow> refuse (message e) | Inr w \<Rightarrow> Inr w)"

definition decide :: "(json_exception \<Rightarrow> string) \<Rightarrow> 'r runtime_host \<Rightarrow> policy_session \<Rightarrow> json \<Rightarrow> json attempt" where
  "decide what h session observation =
     (case infer (rt_policy h) observation session of
        Inl x \<Rightarrow> Inl (''internal_error'', what x)
      | Inr (Inl e) \<Rightarrow> refuse (message e)
      | Inr (Inr inferred) \<Rightarrow>
          (case run_pipeline (rt_postprocess h) inferred of
             Inl e \<Rightarrow> Inl e
           | Inr processed \<Rightarrow>
               (case normalized_action processed of
                  Inl x \<Rightarrow> Inl (''internal_error'', what x)
                | Inr output \<Rightarrow>
                    (case validate_action_payload output of Inl e \<Rightarrow> refuse (message e) | Inr _ \<Rightarrow> Inr output))))"

section \<open>Commanding\<close>

definition action_field :: "policy_profile \<Rightarrow> string \<Rightarrow> string" where
  "action_field profile actuator_name =
     (case find (\<lambda>b. pb_robot_data b = actuator_name) (pp_outputs profile) of
        None \<Rightarrow> actuator_name
      | Some b \<Rightarrow> pb_canonical_field b)"

fun map_attempt :: "('a \<Rightarrow> 'b attempt) \<Rightarrow> 'a list \<Rightarrow> 'b list attempt" where
  "map_attempt f [] = Inr []"
| "map_attempt f (x # xs) =
     (case f x of Inl e \<Rightarrow> Inl e | Inr y \<Rightarrow> (case map_attempt f xs of Inl e \<Rightarrow> Inl e | Inr ys \<Rightarrow> Inr (y # ys)))"

definition no_target :: "string \<Rightarrow> 'a attempt" where
  "no_target actuator_name = refuse (''action does not contain a numeric target for robot field: '' @ actuator_name)"

definition axis_command_for :: "'r runtime_host \<Rightarrow> json \<Rightarrow> u64 \<Rightarrow> int \<Rightarrow> nat \<Rightarrow> axis_command attempt" where
  "axis_command_for h output sequence timestamp_ns axis =
     (let actuator_name = rt_axis_actuator_names h ! axis
      in case Option.bind (member output (action_field (rt_profile h) actuator_name))
                (\<lambda>v. action_target v (ac_mode (rp_axes (rt_robot_profile h) ! axis))) of
           None \<Rightarrow> no_target actuator_name
         | Some target \<Rightarrow> Inr (zero_command\<lparr>cmd_sequence := sequence, cmd_timestamp_ns := timestamp_ns, cmd_target := target,
             cmd_flags := kAxisCommandEnable\<rparr>))"

definition servo_command_for :: "'r runtime_host \<Rightarrow> json \<Rightarrow> u64 \<Rightarrow> int \<Rightarrow> servo_profile \<Rightarrow> servo_command attempt" where
  "servo_command_for h output sequence timestamp_ns servo =
     (case Option.bind (member output (action_field (rt_profile h) (pf_actuator_name servo))) servo_target of
        None \<Rightarrow> no_target (pf_actuator_name servo)
      | Some target \<Rightarrow> Inr (zero_servo_command\<lparr>vc_sequence := sequence, vc_timestamp_ns := timestamp_ns,
          vc_target_position_rad := target, vc_enabled := True\<rparr>))"

definition motor_command_for :: "'r runtime_host \<Rightarrow> json \<Rightarrow> damiao_profile \<Rightarrow> mit_command \<times> bool" where
  "motor_command_for h output motor =
     (case member output (action_field (rt_profile h) (dp_actuator_name motor)) of
        Some v \<Rightarrow> if is_object v then motor_command v else no_motor_command
      | None \<Rightarrow> no_motor_command)"

text \<open>Publishing the commands of one action: the number and the time stamp they went out with.\<close>

definition command :: "'r robot_io_ops \<Rightarrow> 'r runtime_host \<Rightarrow> int \<Rightarrow> json \<Rightarrow> 'r \<Rightarrow> 'r \<times> (u64 \<times> int) attempt" where
  "command ops h monotonic_ns output r =
     (let sequence = rt_command_sequence h + 1;
          timestamp_ns = (if monotonic_ns \<le> rt_last_command_timestamp_ns h then rt_last_command_timestamp_ns h + 1 else monotonic_ns);
          robot = rt_robot_profile h
      in case map_attempt (axis_command_for h output sequence timestamp_ns) [0..<length (rp_axes robot)] of
           Inl e \<Rightarrow> (r, Inl e)
         | Inr axis_commands \<Rightarrow>
         (case map_attempt (servo_command_for h output sequence timestamp_ns) (rp_st3215_servos robot) of
           Inl e \<Rightarrow> (r, Inl e)
         | Inr servo_commands \<Rightarrow>
         (case io_publish_commands ops axis_commands servo_commands sequence timestamp_ns r of
           (r1, Inl e) \<Rightarrow> (r1, refuse (message_or ''robot command publication failed'' e))
         | (r1, Inr _) \<Rightarrow>
             let motors = map (motor_command_for h output) (rp_damiao_motors robot)
             in case io_publish_damiao_commands ops (map fst motors) (map snd motors) sequence timestamp_ns r1 of
                  (r2, Inl e) \<Rightarrow> (r2, refuse (message e))
                | (r2, Inr _) \<Rightarrow> (r2, Inr (sequence, timestamp_ns)))))"

section \<open>Requests\<close>

text \<open>The clock readings of one request: for the reply, for an error reply, and for the commands.\<close>

record host_env =
  he_realtime_ns :: int
  he_error_ns :: int
  he_monotonic_ns :: int

definition reply_envelope :: "int \<Rightarrow> message_envelope \<Rightarrow> message_envelope" where
  "reply_envelope now_ns request = empty_envelope\<lparr>me_request_id := me_request_id request,
     me_session_id := me_session_id request, me_step_id := me_step_id request, me_timestamp_ns := max 0 now_ns\<rparr>"

definition error_envelope :: "int \<Rightarrow> message_envelope \<Rightarrow> string \<Rightarrow> string \<Rightarrow> message_envelope" where
  "error_envelope now_ns request error_name text = (reply_envelope now_ns request)\<lparr>me_type := me_type request @ ''_error'',
     me_error := Some \<lparr>ep_code = error_name, ep_message = text, ep_details = JObject []\<rparr>\<rparr>"

definition fresh_session :: "string \<Rightarrow> policy_session" where
  "fresh_session session_id = \<lparr>ps_session_id = session_id, ps_step_id = 0, ps_metadata = JObject []\<rparr>"

definition handle_observation ::
  "(json_exception \<Rightarrow> string) \<Rightarrow> 'r robot_io_ops \<Rightarrow> host_env \<Rightarrow> message_envelope \<Rightarrow> 'r runtime_host
     \<Rightarrow> 'r runtime_host \<times> json attempt" where
  "handle_observation what ops env request h =
     (let request_observation = normalized_observation (the (member (me_payload request) ''observation''));
          (io1, sensed) = sense ops (rt_robot_profile h) request_observation (rt_robot_io h);
          h1 = h\<lparr>rt_robot_io := io1\<rparr>; id = me_session_id request
      in case (case sensed of Inl e \<Rightarrow> Inl e | Inr s \<Rightarrow> observe (rt_profile h) request_observation s) of
           Inl e \<Rightarrow> (h1, Inl e)
         | Inr observation \<Rightarrow>
         (case run_pipeline (rt_preprocess h) observation of
           Inl e \<Rightarrow> (h1, Inl e)
         | Inr processed \<Rightarrow>
             let session = (case rt_sessions h1 id of Some s \<Rightarrow> s | None \<Rightarrow> fresh_session id);
                 h2 = h1\<lparr>rt_sessions := (rt_sessions h1)(id \<mapsto> session)\<rparr>
             in case decide what h2 session processed of
                  Inl e \<Rightarrow> (h2, Inl e)
                | Inr output \<Rightarrow>
                    let stepped = (\<lambda>h. h\<lparr>rt_sessions := (rt_sessions h)(id \<mapsto> session\<lparr>ps_step_id := ps_step_id session + 1\<rparr>)\<rparr>)
                    in case rt_robot_io h2 of
                         None \<Rightarrow> (stepped h2, Inr output)
                       | Some r \<Rightarrow>
                           (case command ops h2 (max 0 (he_monotonic_ns env)) output r of
                              (r', Inl e) \<Rightarrow> (h2\<lparr>rt_robot_io := Some r'\<rparr>, Inl e)
                            | (r', Inr (sequence, timestamp_ns)) \<Rightarrow>
                                (stepped (h2\<lparr>rt_robot_io := Some r', rt_command_sequence := sequence,
                                             rt_last_command_timestamp_ns := timestamp_ns\<rparr>), Inr output))))"

definition handle ::
  "(json_exception \<Rightarrow> string) \<Rightarrow> 'r robot_io_ops \<Rightarrow> host_env \<Rightarrow> message_envelope \<Rightarrow> 'r runtime_host
     \<Rightarrow> 'r runtime_host \<times> message_envelope result" where
  "handle what ops env request h =
     (let type = me_type request; payload = me_payload request; response = reply_envelope (he_realtime_ns env) request;
          error = (\<lambda>(error_name, text). success (error_envelope (he_error_ns env) request error_name text))
      in if \<not> rt_open h then (h, failure unavailable ''runtime host is not open'')
         else case (if type \<in> {''health_request'', ''reset_request'', ''observation_request''} then validate_payload type payload
                    else success ()) of
           Inl e \<Rightarrow> (h, error (''runtime_error'', message e))
         | Inr _ \<Rightarrow>
           if type = ''health_request''
           then (h, success (response\<lparr>me_type := ''health_response'',
                  me_payload := json_object [(''ok'', JBool True), (''policy_id'', JString (pp_id (rt_profile h)))]\<rparr>))
           else if type = ''server_info_request''
           then (h, success (response\<lparr>me_type := ''server_info_response'',
                  me_payload := json_object [(''server_name'', JString ''policy_embodied_runtime''),
                    (''server_version'', JString ''0.1.0''), (''supported_schema'', JString kSchemaVersion),
                    (''transports'', JArray [JString ''zmq+json''])]\<rparr>))
           else if type = ''reset_request''
           then (h\<lparr>rt_sessions := (rt_sessions h)(me_session_id request \<mapsto> fresh_session (me_session_id request))\<rparr>,
                 success (response\<lparr>me_type := ''reset_response'',
                   me_payload := json_object [(''ok'', JBool True),
                     (''hard'', case member payload ''hard'' of Some (JBool b) \<Rightarrow> JBool b | _ \<Rightarrow> JBool False)]\<rparr>))
           else if type \<noteq> ''observation_request''
           then (h, error (''runtime_error'', ''unknown request type: '' @ type))
           else case handle_observation what ops env request h of
                  (h', Inl e) \<Rightarrow> (h', error e)
                | (h', Inr output) \<Rightarrow>
                    (h', success (response\<lparr>me_type := ''action_response'',
                       me_payload := json_object [(''ok'', JBool True), (''action'', output)]\<rparr>)))"

definition handle_text ::
  "(string \<Rightarrow> json option) \<Rightarrow> (json \<Rightarrow> string option) \<Rightarrow> (json_exception \<Rightarrow> string) \<Rightarrow> 'r robot_io_ops \<Rightarrow> host_env \<Rightarrow> string
     \<Rightarrow> 'r runtime_host \<Rightarrow> 'r runtime_host \<times> string option" where
  "handle_text parse dump what ops env request_text h =
     (case decode_envelope_for_dispatch parse request_text of
        Inl e \<Rightarrow>
          (h, encode_envelope dump (error_envelope (he_error_ns env)
                (empty_envelope\<lparr>me_type := ''protocol'', me_request_id := ''unknown'', me_session_id := ''unknown''\<rparr>)
                ''protocol_error'' (message e)))
      | Inr request \<Rightarrow>
          (case handle what ops env request h of
             (h', Inl e) \<Rightarrow> (h', encode_envelope dump (error_envelope (he_error_ns env) request ''internal_error'' (message e)))
           | (h', Inr response) \<Rightarrow> (h', encode_envelope dump response)))"

section \<open>The command line\<close>

record cli_options =
  co_endpoint :: string
  co_timeout_ms :: int
  co_policy_profile :: string
  co_robot_profile :: "string option"
  co_show_help :: bool

definition default_cli_options :: cli_options where
  "default_cli_options = \<lparr>co_endpoint = ''embodied-policy-runtime'', co_timeout_ms = 100, co_policy_profile = [],
     co_robot_profile = None, co_show_help = False\<rparr>"

definition parse_integer :: "string \<Rightarrow> int option" where
  "parse_integer text =
     (let negative = (text \<noteq> [] \<and> hd text = CHR ''-'')
      in case parse_digits 10 (if negative then tl text else text) of
           None \<Rightarrow> None
         | Some n \<Rightarrow>
             let v = (if negative then - int n else int n)
             in if - (2 ^ 31) \<le> v \<and> v \<le> 2 ^ 31 - 1 then Some v else None)"

definition apply_flag :: "string \<Rightarrow> string \<Rightarrow> cli_options \<Rightarrow> cli_options result" where
  "apply_flag flag v opts =
     (if flag = ''--endpoint'' then success (opts\<lparr>co_endpoint := v\<rparr>)
      else if flag = ''--timeout-ms''
      then (case parse_integer v of
              None \<Rightarrow> failure invalid_argument ''--timeout-ms requires an integer''
            | Some n \<Rightarrow> success (opts\<lparr>co_timeout_ms := n\<rparr>))
      else if flag = ''--policy-profile'' then success (opts\<lparr>co_policy_profile := v\<rparr>)
      else if flag = ''--robot-profile'' then success (opts\<lparr>co_robot_profile := Some v\<rparr>)
      else failure invalid_argument (''unknown argument: '' @ flag))"

definition finish_options :: "cli_options \<Rightarrow> cli_options result" where
  "finish_options opts =
     (if co_policy_profile opts = [] then failure invalid_argument ''--policy-profile is required'' else success opts)"

fun parse_arguments :: "string list \<Rightarrow> cli_options \<Rightarrow> cli_options result" where
  "parse_arguments [] opts = finish_options opts"
| "parse_arguments (flag # rest) opts =
     (if flag = ''--help'' \<or> flag = ''-h'' then success (opts\<lparr>co_show_help := True\<rparr>)
      else if CHR ''='' \<in> set flag
      then (case apply_flag (takeWhile (\<lambda>c. c \<noteq> CHR ''='') flag) (tl (dropWhile (\<lambda>c. c \<noteq> CHR ''='') flag)) opts of
              Inl e \<Rightarrow> Inl e
            | Inr opts' \<Rightarrow> parse_arguments rest opts')
      else (case rest of
              [] \<Rightarrow> failure invalid_argument (''argument requires a value: '' @ flag)
            | v # rest' \<Rightarrow>
                (case apply_flag flag v opts of
                   Inl e \<Rightarrow> Inl e
                 | Inr opts' \<Rightarrow> parse_arguments rest' opts')))"

text \<open>The first argument is the name of the program.\<close>

definition parse_runtime_host_cli :: "string list \<Rightarrow> cli_options result" where
  "parse_runtime_host_cli arguments = parse_arguments (tl arguments) default_cli_options"

definition contains :: "string \<Rightarrow> string \<Rightarrow> bool" where
  "contains text pattern \<longleftrightarrow> (\<exists>i \<in> set [0..<Suc (length text)]. take (length pattern) (drop i text) = pattern)"

definition resolve_policy_endpoint :: "string \<Rightarrow> string" where
  "resolve_policy_endpoint endpoint =
     (if contains endpoint ''://'' then endpoint else ''ipc:///tmp/'' @ endpoint @ ''.sock'')"

end
