(* ===== verification/Rpc_Props.thy ===== *)
theory Rpc_Props
  imports Rpc_Codec
begin

text \<open>
  What the RPC codec preserves: an encoded envelope is decoded to the same envelope, up to the JSON value a printed
  payload is read back as.
\<close>

section \<open>The printed envelope\<close>

lemma envelope_json_entries:
  "envelope_json e = JObject [(''error'', error_json (me_error e)), (''payload'', me_payload e),
     (''request_id'', JString (me_request_id e)), (''schema'', JString (me_schema e)), (''session_id'', JString (me_session_id e)),
     (''step_id'', JUint (me_step_id e)), (''timestamp_ns'', JInt (me_timestamp_ns e)), (''type'', JString (me_type e))]"
  by (simp add: envelope_json_def json_object_def json_set_def less_char_def)

lemma error_json_entries:
  "error_json (Some p) = JObject [(''code'', JString (ep_code p)), (''details'', ep_details p), (''message'', JString (ep_message p))]"
  by (simp add: error_json_def json_object_def json_set_def less_char_def)

lemma fails_simps [simp]: "fails True e = Some e" "fails False e = None"
  by (simp_all add: fails_def)

section \<open>Reading it back\<close>

definition reread_error :: "error_payload option \<Rightarrow> error_payload option" where
  "reread_error = map_option (\<lambda>p. p\<lparr>ep_details := reparsed (ep_details p)\<rparr>)"

text \<open>The envelope a reader gets.\<close>

definition reread :: "message_envelope \<Rightarrow> message_envelope" where
  "reread e = e\<lparr>me_payload := reparsed (me_payload e), me_error := reread_error (me_error e)\<rparr>"

text \<open>What the decoder demands of an envelope.\<close>

definition wire_envelope :: "message_envelope \<Rightarrow> bool" where
  "wire_envelope e \<longleftrightarrow> \<not> is_blank (me_type e) \<and> \<not> is_blank (me_request_id e) \<and> \<not> is_blank (me_session_id e)
     \<and> 0 \<le> me_timestamp_ns e \<and> me_timestamp_ns e < 2 ^ 63 \<and> is_object (me_payload e)
     \<and> (\<forall>p. me_error e = Some p \<longrightarrow> is_object (ep_details p))"

lemma decode_error_encoded:
  assumes "\<forall>p. me_error e = Some p \<longrightarrow> is_object (ep_details p)"
  shows "decode_error (reparsed (envelope_json e)) = Inr (reread_error (me_error e))"
proof (cases "me_error e")
  case None
  then show ?thesis
    by (simp add: decode_error_def envelope_json_entries member_def error_json_def reread_error_def)
next
  case (Some p)
  then have "is_object (ep_details p)" using assms by simp
  then show ?thesis
    by (simp add: decode_error_def envelope_json_entries member_def Some error_json_entries reread_error_def
        validate_error_payload_def only_keys_def require_string_def error_payload_of_def text_member_def)
qed

lemma decode_encoded:
  assumes "parse text = Some (reparsed (envelope_json e))" and "wire_envelope e"
    and "typed \<longrightarrow> validate_payload_for_type (me_type e) (reparsed (me_payload e)) = None"
  shows "decode_envelope_impl parse text typed = success (reread e)"
proof -
  let ?m = "reparsed (envelope_json e)"
  note w = assms(2) [unfolded wire_envelope_def]
  have ts: "uint (word_of_int (me_timestamp_ns e) :: u64) = me_timestamp_ns e" using w by (simp add: uint_word_of_int)
  have m: "member ?m ''timestamp_ns'' = Some (JUint (word_of_int (me_timestamp_ns e)))"
    "member ?m ''step_id'' = Some (JUint (me_step_id e))" "member ?m ''payload'' = Some (reparsed (me_payload e))"
    "member ?m ''schema'' = Some (JString (me_schema e))" "text_member ?m ''type'' = me_type e"
    "text_member ?m ''request_id'' = me_request_id e" "text_member ?m ''session_id'' = me_session_id e"
    using w by (simp_all add: envelope_json_entries member_def text_member_def)
  have "envelope_fields ?m = None"
    using w by (simp add: envelope_fields_def m blank_field_def string_field_def)
      (simp add: envelope_json_entries envelope_keys_def member_def)
  moreover have "is_object (envelope_json e)" by (simp add: envelope_json_entries)
  ultimately show ?thesis
    using assms(1,3) w decode_error_encoded [of e]
    by (simp add: decode_envelope_impl_def m reread_def Let_def ts del: member_reparsed)
qed

text \<open>Claim C23.  The codec loses nothing: an envelope with non-blank identifiers, a non-negative time stamp of 64 bits and a
  payload that is valid for its type, once encoded, printed and read back, is decoded to the same envelope, whose
  payload and error details are the JSON values the printed ones are read back as.  The premise on the JSON library is
  that the printed message is read back as documented.\<close>

theorem envelope_roundtrip:
  assumes "encode_envelope dump e = Some text" and "parse text = Some (reparsed (envelope_json e))"
    and "wire_envelope e" and "validate_payload_for_type (me_type e) (reparsed (me_payload e)) = None"
  shows "decode_envelope parse text = success (reread e) \<and> decode_envelope_for_dispatch parse text = success (reread e)"
  using decode_encoded [of parse "text" e, OF assms(2,3)] assms(4) by (simp add: decode_envelope_def decode_envelope_for_dispatch_def)

definition sample_envelope :: message_envelope where
  "sample_envelope = empty_envelope\<lparr>me_type := ''action_response'', me_request_id := ''r1'', me_session_id := ''s1'',
     me_step_id := 7, me_timestamp_ns := 1000,
     me_payload := json_object [(''ok'', JBool True), (''action'', json_object [(''joint_1'', JInt 3)])]\<rparr>"

theorem envelope_roundtrip_witness:
  "decode_envelope (\<lambda>_. Some (reparsed (envelope_json sample_envelope))) ''{}'' = success (reread sample_envelope)"
proof -
  let ?dump = "\<lambda>_. Some ''{}''" and ?parse = "\<lambda>_. Some (reparsed (envelope_json sample_envelope))"
  have "wire_envelope sample_envelope"
    by (simp add: wire_envelope_def sample_envelope_def empty_envelope_def is_blank_def is_space_def json_object_def json_set_def)
  moreover have "validate_payload_for_type (me_type sample_envelope) (reparsed (me_payload sample_envelope)) = None"
    by code_simp
  ultimately show ?thesis
    using envelope_roundtrip [of ?dump sample_envelope "''{}''" ?parse] by (simp add: encode_envelope_def)
qed

end
