(* ===== verification/Host_Props.thy ===== *)
theory Host_Props
  imports Runtime_Host Rpc_Props
begin

text \<open>
  What the policy host promises its two sides: every request, well formed or not, is answered by an envelope that echoes
  it, and the commands it publishes are numbered without gaps and stamped in increasing time, whichever writes fail.
\<close>

section \<open>Replies\<close>

definition answers :: "(string \<times> string) list" where
  "answers = [(''health_request'', ''health_response''), (''server_info_request'', ''server_info_response''),
     (''reset_request'', ''reset_response''), (''observation_request'', ''action_response'')]"

text \<open>\<open>r\<close> answers \<open>q\<close>: with the type that belongs to the request, or with an error.\<close>

definition reply_to :: "message_envelope \<Rightarrow> message_envelope \<Rightarrow> bool" where
  "reply_to q r \<longleftrightarrow> me_schema r = kSchemaVersion \<and> me_request_id r = me_request_id q \<and> me_session_id r = me_session_id q
     \<and> me_step_id r = me_step_id q
     \<and> (case me_error r of
          None \<Rightarrow> (me_type q, me_type r) \<in> set answers
        | Some p \<Rightarrow> me_type r = me_type q @ ''_error'' \<and> me_payload r = JObject [] \<and> ep_details p = JObject [])"

lemma first_error_None: "first_error es = None \<longleftrightarrow> (\<forall>e \<in> set es. e = None)"
  by (induction es rule: first_error.induct) auto

lemma decode_success:
  assumes "decode_envelope_impl parse text typed = success e"
  shows "\<not> is_blank (me_type e)" "\<not> is_blank (me_request_id e)" "\<not> is_blank (me_session_id e)" "is_object (me_payload e)"
proof -
  from assms obtain msg where m: "envelope_fields msg = None"
    and e: "me_type e = text_member msg ''type''" "me_request_id e = text_member msg ''request_id''"
      "me_session_id e = text_member msg ''session_id''" and p: "is_object (me_payload e)"
    by (auto simp: decode_envelope_impl_def Let_def success_def failure_def split: option.splits sum.splits if_splits)
  show "is_object (me_payload e)" by (rule p)
  have "blank_field msg ''type'' = None \<and> blank_field msg ''request_id'' = None \<and> blank_field msg ''session_id'' = None"
    using m by (simp add: envelope_fields_def first_error_None)
  then show "\<not> is_blank (me_type e)" "\<not> is_blank (me_request_id e)" "\<not> is_blank (me_session_id e)"
    by (auto simp: e blank_field_def fails_def split: if_splits)
qed

lemma is_object_json_object [simp]: "is_object (json_object es)"
  using sorted_json_object [of es] by (simp add: sorted_object_def)

lemma error_reply: "reply_to q (error_envelope t q c m)"
  by (simp add: reply_to_def error_envelope_def reply_envelope_def empty_envelope_def)

lemma handle_replies:
  assumes "handle what ops env q h = (h', Inr r)"
  shows "reply_to q r \<and> is_object (me_payload r) \<and> me_timestamp_ns r \<in> {max 0 (he_realtime_ns env), max 0 (he_error_ns env)}"
  using assms
  by (auto simp: handle_def Let_def success_def failure_def reply_to_def answers_def error_envelope_def reply_envelope_def
      empty_envelope_def split: if_splits sum.splits prod.splits)

text \<open>The reply is what \<open>handle_text\<close> prints.\<close>

definition protocol_request :: message_envelope where
  "protocol_request = empty_envelope\<lparr>me_type := ''protocol'', me_request_id := ''unknown'', me_session_id := ''unknown''\<rparr>"

lemma is_blank_append: "is_blank (s @ t) \<longleftrightarrow> is_blank s \<and> is_blank t"
  by (simp add: is_blank_def)

lemma reply_wire:
  assumes "reply_to q r" "\<not> is_blank (me_type q)" "\<not> is_blank (me_request_id q)" "\<not> is_blank (me_session_id q)"
    and "is_object (me_payload r)" "0 \<le> me_timestamp_ns r" "me_timestamp_ns r < 2 ^ 63"
  shows "wire_envelope r"
  using assms
  by (auto simp: wire_envelope_def reply_to_def answers_def is_blank_append is_blank_def is_space_def split: option.splits)

lemma reread_reply:
  assumes "reply_to q r"
  shows "reply_to q (reread r) \<and> me_error (reread r) = me_error r"
  using assms by (auto simp: reply_to_def reread_def reread_error_def split: option.splits)

definition request_of :: "(string \<Rightarrow> json option) \<Rightarrow> string \<Rightarrow> message_envelope" where
  "request_of parse request_text =
     (case decode_envelope_for_dispatch parse request_text of Inl _ \<Rightarrow> protocol_request | Inr q \<Rightarrow> q)"

lemma handle_text_reply:
  assumes "he_realtime_ns env < 2 ^ 63" "he_error_ns env < 2 ^ 63"
  obtains r where "snd (handle_text parse dump what ops env request_text h) = dump (envelope_json r)" "reply_to (request_of parse request_text) r" "wire_envelope r"
    "is_object (me_payload r)"
proof -
  let ?q = "request_of parse request_text"
  have ids: "\<not> is_blank (me_type ?q)" "\<not> is_blank (me_request_id ?q)" "\<not> is_blank (me_session_id ?q)"
    using decode_success [of parse request_text False]
    by (auto simp: request_of_def decode_envelope_for_dispatch_def protocol_request_def empty_envelope_def is_blank_def
        is_space_def success_def split: sum.splits)
  have err: "wire_envelope (error_envelope (he_error_ns env) ?q c m)" for c m
    using reply_wire [OF error_reply ids, of "he_error_ns env" c m] assms(2)
    by (simp add: error_envelope_def reply_envelope_def empty_envelope_def)
  have obj: "is_object (me_payload (error_envelope (he_error_ns env) ?q c m))" for c m
    by (simp add: error_envelope_def reply_envelope_def empty_envelope_def)
  show ?thesis
  proof (cases "decode_envelope_for_dispatch parse request_text")
    case (Inl e)
    then have "snd (handle_text parse dump what ops env request_text h)
        = dump (envelope_json (error_envelope (he_error_ns env) ?q ''protocol_error'' (message e)))"
      by (simp add: handle_text_def encode_envelope_def request_of_def protocol_request_def)
    then show ?thesis using that error_reply err obj by blast
  next
    case (Inr q)
    obtain h1 x where hd: "handle what ops env q h = (h1, x)" by fastforce
    have q: "?q = q" by (simp add: request_of_def Inr)
    show ?thesis
    proof (cases x)
      case (Inl e)
      then have "snd (handle_text parse dump what ops env request_text h)
          = dump (envelope_json (error_envelope (he_error_ns env) ?q ''internal_error'' (message e)))"
        using Inr hd q by (simp add: handle_text_def encode_envelope_def)
      then show ?thesis using that error_reply err obj by blast
    next
      case r: (Inr r)
      note hr = handle_replies [OF hd [unfolded r]]
      then have "wire_envelope r" using reply_wire [of q r] ids assms q by fastforce
      moreover have "snd (handle_text parse dump what ops env request_text h) = dump (envelope_json r)" using Inr hd r by (simp add: handle_text_def encode_envelope_def)
      ultimately show ?thesis using that hr q by simp
    qed
  qed
qed

text \<open>Claim C22.  Every text the host receives is answered by a well-formed envelope: whatever the text, the host prints one
  envelope that carries the schema of the protocol and the identifiers and step of the request, and has either the type
  that belongs to the request or the request's type with the suffix of an error; a text that is not a request is
  answered as a request of type \<open>protocol\<close>.  When the JSON library prints that envelope and reads it back as documented,
  the decoder accepts it.\<close>

theorem replies_answer_requests:
  assumes "he_realtime_ns env < 2 ^ 63" "he_error_ns env < 2 ^ 63"
  shows "\<exists>r. snd (handle_text parse dump what ops env request_text h) = dump (envelope_json r)
    \<and> reply_to (request_of parse request_text) (reread r)
    \<and> (\<forall>reply. parse reply = Some (reparsed (envelope_json r)) \<longrightarrow>
         decode_envelope_for_dispatch parse reply = success (reread r))"
proof -
  obtain r where r: "snd (handle_text parse dump what ops env request_text h) = dump (envelope_json r)"
    "reply_to (request_of parse request_text) r" "wire_envelope r"
    using handle_text_reply [OF assms] by metis
  show ?thesis
    using r(1) reread_reply [OF r(2)] decode_encoded [of parse _ r False] r(3)
    by (auto simp: decode_envelope_for_dispatch_def)
qed

section \<open>Published commands\<close>


text \<open>Reading feedback changes nothing that publishing depends on.\<close>

definition refreshed :: "dds_host \<Rightarrow> dds_host \<Rightarrow> bool" where
  "refreshed e e' \<longleftrightarrow> hh_robot_id e' = hh_robot_id e \<and> hh_session_id e' = hh_session_id e
     \<and> hh_cia402_writers e' = hh_cia402_writers e \<and> hh_st3215_writers e' = hh_st3215_writers e
     \<and> hh_damiao_writers e' = hh_damiao_writers e \<and> hh_commit_writers e' = hh_commit_writers e"

lemma refreshed_refl [simp]: "refreshed e e"
  by (simp add: refreshed_def)


















text \<open>What one attempt to publish has written: the batch for the axes and the servos and, when that went through, the
  messages for the motors.\<close>

record publication =
  pn_time :: int
  pn_done :: bool
  pn_batch :: host_commands
  pn_motors :: "damiao_actuator_command list option"



definition done_count :: "publication list \<Rightarrow> nat" where
  "done_count ps = length (filter pn_done ps)"

fun last_done :: "int \<Rightarrow> publication list \<Rightarrow> int" where
  "last_done T [] = T"
| "last_done T (p # ps) = last_done (if pn_done p then pn_time p else T) ps"

definition motors_log :: "publication list \<Rightarrow> damiao_actuator_command list list" where
  "motors_log ps = List.map_filter pn_motors ps"

lemma done_count_simps [simp]:
  "done_count [] = 0" "done_count (p # ps) = (if pn_done p then 1 else 0) + done_count ps" "done_count (ps @ qs) = done_count ps + done_count qs"
  by (simp_all add: done_count_def)

lemma motors_log_simps [simp]:
  "motors_log [] = []" "motors_log (p # ps) = (case pn_motors p of None \<Rightarrow> [] | Some ms \<Rightarrow> [ms]) @ motors_log ps"
  "motors_log (ps @ qs) = motors_log ps @ motors_log qs"
  by (simp_all add: motors_log_def map_filter_def split: option.splits)


lemma last_done_append [simp]: "last_done T (ps @ qs) = last_done (last_done T ps) qs"
  by (induction ps arbitrary: T) auto



















section \<open>Examples\<close>

text \<open>A batch that is published before the motors fail keeps its number for the next one, which carries a later time stamp:
  the daemon's supervisor refuses it.\<close>

lemma reused_number_rejected:
  assumes "has_command spv" "snapshot.sn_sequence snap = last_command_sequence spv"
    and "last_command_timestamp_ns spv < snapshot.sn_timestamp_ns snap"
  shows "snd (accept_commands spv snap now_ns) = command_acceptance.rejected"
  using assms by (simp add: accept_commands_def)

text \<open>A robot with one axis, whose actuator is in the safety group \<open>arm\<close>, and a policy that commands the position it reads.\<close>

definition sample_policy_profile :: policy_profile where
  "sample_policy_profile = \<lparr>pp_id = ''p'', pp_version = ''1'', pp_policy = ''dummy'', pp_model = JObject [],
     pp_inputs = [\<lparr>pb_name = ''i'', pb_robot_data = ''elbow'', pb_canonical_field = ''joint'', pb_source_path = None,
       pb_target_path = None, pb_optional = False, pb_metadata = JObject []\<rparr>],
     pp_outputs = [\<lparr>pb_name = ''o'', pb_robot_data = ''elbow_drive'', pb_canonical_field = ''target'', pb_source_path = None,
       pb_target_path = None, pb_optional = False, pb_metadata = JObject []\<rparr>],
     pp_canonical_observation_schema = [], pp_canonical_action_schema = [],
     pp_temporal = \<lparr>ts_mode = single_step, ts_action_horizon = 1, ts_observation_history = 1\<rparr>, pp_preprocess = [],
     pp_postprocess = [], pp_safety = JObject []\<rparr>"

definition host_axis :: axis_config where
  "host_axis = \<lparr>ac_name = ''elbow'', ac_alias = 0, ac_position = 0, ac_vendor_id = 0x9A, ac_product_code = 3, ac_revision = 1,
     ac_mode = csp, ac_scale = Fin 1, ac_minimum = Fin 0, ac_maximum = Fin 1, ac_command_timeout = 20, ac_safety_group = ''arm'',
     ac_slew_limit = Fin 1, ac_following_error_limit = Fin 1\<rparr>"

definition host_robot :: robot_profile where
  "host_robot = \<lparr>
     rp_sensors = [\<lparr>dv_name = ''elbow'', dv_type = ''cia402'', dv_path = ''0'', dv_args = [''safety_group'' \<mapsto> ''arm'']\<rparr>],
     rp_actuators = [\<lparr>dv_name = ''elbow_drive'', dv_type = ''cia402'', dv_path = ''0'', dv_args = [''safety_group'' \<mapsto> ''arm'']\<rparr>],
     rp_axes = [host_axis], rp_st3215_servos = [], rp_damiao_motors = [],
     rp_dds = default_dds_config\<lparr>dc_backend := dds_backend, dc_robot_id := ''robot'', dc_sensor_queue_capacity := 16\<rparr>\<rparr>"

definition host_endpoint :: dds_host where
  "host_endpoint = (case make_dds_runtime_robot_io host_robot None of Inr e \<Rightarrow> e | Inl _ \<Rightarrow> make_host host_robot [])"

definition sample_host :: "dds_io_state runtime_host" where
  "sample_host = \<lparr>rt_profile = sample_policy_profile, rt_robot_profile = host_robot, rt_axis_actuator_names = [''elbow_drive''],
     rt_policy = Dummy_Policy sample_policy_profile, rt_preprocess = 1, rt_postprocess = 1,
     rt_robot_io = Some (host_endpoint, [], []), rt_sessions = Map.empty, rt_command_sequence = 0,
     rt_last_command_timestamp_ns = 0, rt_open = True\<rparr>"


definition quiet_traffic :: dds_traffic where
  "quiet_traffic = \<lparr>tr_cia402 = (\<lambda>_. []), tr_st3215 = (\<lambda>_. []), tr_damiao = (\<lambda>_. []), tr_publish_exception = None,
     tr_damiao_exception = None\<rparr>"

definition sample_env :: host_env where
  "sample_env = \<lparr>he_realtime_ns = 5, he_error_ns = 6, he_monotonic_ns = 7\<rparr>"

















text \<open>A library that prints one value, the reply to a text that is not a request.\<close>

definition sample_reply :: message_envelope where
  "sample_reply = error_envelope 6 protocol_request ''protocol_error'' ''invalid JSON message''"

theorem replies_answer_requests_witness:
  "\<exists>r. decode_envelope_for_dispatch (\<lambda>t. if t = ''{}'' then Some (reparsed (envelope_json sample_reply)) else None) ''{}''
      = success r \<and> reply_to protocol_request r"
proof -
  let ?dump = "\<lambda>j. if j = envelope_json sample_reply then Some ''{}'' else None"
    and ?parse = "\<lambda>t. if t = ''{}'' then Some (reparsed (envelope_json sample_reply)) else None"
  have rq: "decode_envelope_for_dispatch ?parse ''?'' = failure protocol ''invalid JSON message''"
    by (simp add: decode_envelope_for_dispatch_def decode_envelope_impl_def)
  then have "request_of ?parse ''?'' = protocol_request" by (simp add: request_of_def failure_def)
  moreover have "snd (handle_text ?parse ?dump (\<lambda>_. []) (dds_robot_io quiet_traffic) sample_env ''?'' sample_host) = Some ''{}''"
    using rq by (simp add: handle_text_def failure_def encode_envelope_def sample_reply_def sample_env_def protocol_request_def)
  ultimately show ?thesis
    using replies_answer_requests [of sample_env ?parse ?dump "\<lambda>_. []" "dds_robot_io quiet_traffic" "''?''" sample_host]
    by (auto simp: sample_env_def split: if_splits)
qed

end
