(* ===== verification/Local_Snapshot.thy ===== *)
theory Local_Snapshot
  imports Interfaces
begin

text \<open>
  The lock-free snapshot of \<^verbatim>\<open>include/policy_runtime/robot_io/daemon/local_snapshot.hpp\<close>, at the grain of its atomic
  operations, which are all sequentially consistent: one step of the writer or the reader performs one load, store
  or addition on the shared state.  A published value is its list of 64-bit words.  The reader never writes, so one
  reader stands for any number of them.
\<close>

section \<open>Shared state and steps\<close>

record slot =
  sl_guard :: u64
  sl_words :: "u64 list"

record local_snapshot =
  ls_slots :: "slot list"
  ls_active_index :: u32
  ls_epoch :: u64

definition kNoActiveSlot :: u32 where "kNoActiveSlot = - 1"

definition make_snapshot :: "nat \<Rightarrow> local_snapshot" where
  "make_snapshot word_count = \<lparr>ls_slots = replicate 2 \<lparr>sl_guard = 0, sl_words = replicate word_count 0\<rparr>,
     ls_active_index = kNoActiveSlot, ls_epoch = 0\<rparr>"

text \<open>Where the writer stands inside \<open>publish\<close>: before loading the active index, adding to the epoch, opening the
  guard, storing the i-th word, closing the guard and storing the active index.\<close>

datatype publish_pc =
    pub_idle
  | pub_load "u64 list"
  | pub_epoch "u64 list" nat
  | pub_open "u64 list" nat u64
  | pub_word "u64 list" nat u64 nat
  | pub_close "u64 list" nat u64
  | pub_activate nat

definition set_guard :: "local_snapshot \<Rightarrow> nat \<Rightarrow> u64 \<Rightarrow> local_snapshot" where
  "set_guard s j g = s\<lparr>ls_slots := (ls_slots s)[j := (ls_slots s ! j)\<lparr>sl_guard := g\<rparr>]\<rparr>"

definition set_word :: "local_snapshot \<Rightarrow> nat \<Rightarrow> nat \<Rightarrow> u64 \<Rightarrow> local_snapshot" where
  "set_word s j i w = s\<lparr>ls_slots := (ls_slots s)[j := (ls_slots s ! j)\<lparr>sl_words := (sl_words (ls_slots s ! j))[i := w]\<rparr>]\<rparr>"

definition store_next :: "u64 list \<Rightarrow> nat \<Rightarrow> u64 \<Rightarrow> nat \<Rightarrow> publish_pc" where
  "store_next v target e i = (if i < length v then pub_word v target e i else pub_close v target e)"

fun publish_step :: "local_snapshot \<Rightarrow> publish_pc \<Rightarrow> local_snapshot \<times> publish_pc" where
  "publish_step s pub_idle = (s, pub_idle)"
| "publish_step s (pub_load v) =
     (s, pub_epoch v (if unat (ls_active_index s) < length (ls_slots s) then 1 - unat (ls_active_index s) else 0))"
| "publish_step s (pub_epoch v target) = (s\<lparr>ls_epoch := ls_epoch s + 2\<rparr>, pub_open v target (ls_epoch s + 2))"
| "publish_step s (pub_open v target e) = (set_guard s target (e OR 1), store_next v target e 0)"
| "publish_step s (pub_word v target e i) = (set_word s target i (v ! i), store_next v target e (i + 1))"
| "publish_step s (pub_close v target e) = (set_guard s target e, pub_activate target)"
| "publish_step s (pub_activate target) = (s\<lparr>ls_active_index := word_of_nat target\<rparr>, pub_idle)"

text \<open>Where the reader stands inside the k-th attempt of \<open>read\<close>.\<close>

datatype read_pc =
    rd_active nat
  | rd_before nat nat
  | rd_word nat nat u64 nat "u64 list"
  | rd_after nat nat u64 "u64 list"
  | rd_confirm nat nat u64 u64 "u64 list"
  | rd_done "u64 list option"

definition next_attempt :: "nat \<Rightarrow> read_pc" where
  "next_attempt k = (if k + 1 < 16 then rd_active (k + 1) else rd_done None)"

definition load_next :: "nat \<Rightarrow> nat \<Rightarrow> nat \<Rightarrow> u64 \<Rightarrow> nat \<Rightarrow> u64 list \<Rightarrow> read_pc" where
  "load_next word_count k a before i acc =
     (if i < word_count then rd_word k a before i acc else rd_after k a before acc)"

fun read_step :: "nat \<Rightarrow> local_snapshot \<Rightarrow> read_pc \<Rightarrow> read_pc" where
  "read_step word_count s (rd_active k) =
     (if unat (ls_active_index s) \<ge> length (ls_slots s) then rd_done None else rd_before k (unat (ls_active_index s)))"
| "read_step word_count s (rd_before k a) =
     (let before = sl_guard (ls_slots s ! a)
      in if before AND 1 \<noteq> 0 then next_attempt k else load_next word_count k a before 0 [])"
| "read_step word_count s (rd_word k a before i acc) =
     load_next word_count k a before (i + 1) (acc @ [sl_words (ls_slots s ! a) ! i])"
| "read_step word_count s (rd_after k a before acc) = rd_confirm k a before (sl_guard (ls_slots s ! a)) acc"
| "read_step word_count s (rd_confirm k a before after acc) =
     (if before \<noteq> after \<or> after AND 1 \<noteq> 0 \<or> unat (ls_active_index s) \<noteq> a then next_attempt k else rd_done (Some acc))"
| "read_step word_count s (rd_done r) = rd_done r"

section \<open>Interleavings\<close>

text \<open>A system state adds what the proofs observe: the values of the publications begun so far (the epoch was
  advanced), how many of them are complete (the active index was stored), and how many were complete when the
  current attempt of the reader loaded the active index.\<close>

record system =
  sy_shared :: local_snapshot
  sy_writer :: publish_pc
  sy_reader :: read_pc
  sy_begun :: "u64 list list"
  sy_complete :: nat
  sy_seen :: nat

definition writer_moves :: "system \<Rightarrow> system" where
  "writer_moves x =
     (let (s, w) = publish_step (sy_shared x) (sy_writer x)
      in x\<lparr>sy_shared := s, sy_writer := w,
           sy_begun := (case sy_writer x of pub_epoch v _ \<Rightarrow> sy_begun x @ [v] | _ \<Rightarrow> sy_begun x),
           sy_complete := (case sy_writer x of pub_activate _ \<Rightarrow> sy_complete x + 1 | _ \<Rightarrow> sy_complete x)\<rparr>)"

definition reader_moves :: "nat \<Rightarrow> system \<Rightarrow> system" where
  "reader_moves n x =
     x\<lparr>sy_reader := read_step n (sy_shared x) (sy_reader x),
       sy_seen := (case sy_reader x of rd_active _ \<Rightarrow> sy_complete x | _ \<Rightarrow> sy_seen x)\<rparr>"

inductive interleaving :: "nat \<Rightarrow> system \<Rightarrow> bool" for n :: nat where
  initial: "interleaving n \<lparr>sy_shared = make_snapshot n, sy_writer = pub_idle, sy_reader = rd_done None, sy_begun = [],
      sy_complete = 0, sy_seen = 0\<rparr>"
| publish: "interleaving n x \<Longrightarrow> sy_writer x = pub_idle \<Longrightarrow> length v = n \<Longrightarrow> length (sy_begun x) + 1 < 2 ^ 63 \<Longrightarrow>
    interleaving n (x\<lparr>sy_writer := pub_load v\<rparr>)"
| read: "interleaving n x \<Longrightarrow> sy_reader x = rd_done r \<Longrightarrow> interleaving n (x\<lparr>sy_reader := rd_active 0\<rparr>)"
| writer: "interleaving n x \<Longrightarrow> interleaving n (writer_moves x)"
| reader: "interleaving n x \<Longrightarrow> interleaving n (reader_moves n x)"

end
