(* ===== verification/Local_Snapshot_Props.thy ===== *)
theory Local_Snapshot_Props
  imports Local_Snapshot
begin

text \<open>
  No torn reads: in every interleaving a value the reader returns is the complete value of one publication, at least
  as recent as the last one completed when the successful attempt began and completed itself when the read returns.
\<close>

section \<open>Guards\<close>

lemma open_guard: "even (unat (e :: u64)) \<Longrightarrow> unat (e OR 1) = unat e + 1"
proof -
  assume e: "even (unat e)"
  then have "even e" using odd_guard [of e] by (simp add: and_one_eq mod2_eq_if split: if_splits)
  then have o: "e OR 1 = e + 1" by (simp add: or_one_eq)
  have "unat e < 2 ^ 64 - 1" using e unsigned_less [of e, where ?'a = nat] by (cases "unat e = 2 ^ 64 - 1") auto
  then show ?thesis unfolding o by (simp add: unat_plus_if')
qed

abbreviation guard_of :: "system \<Rightarrow> nat \<Rightarrow> nat" where
  "guard_of x j \<equiv> unat (sl_guard (ls_slots (sy_shared x) ! j))"

abbreviation words_of :: "system \<Rightarrow> nat \<Rightarrow> u64 list" where
  "words_of x j \<equiv> sl_words (ls_slots (sy_shared x) ! j)"

section \<open>Invariants\<close>

definition shared_ok :: "nat \<Rightarrow> system \<Rightarrow> bool" where
  "shared_ok n x \<longleftrightarrow>
     length (ls_slots (sy_shared x)) = 2 \<and> (\<forall>j < 2. length (words_of x j) = n) \<and> (\<forall>v \<in> set (sy_begun x). length v = n)
     \<and> length (sy_begun x) < 2 ^ 63 \<and> unat (ls_epoch (sy_shared x)) = 2 * length (sy_begun x)
     \<and> (\<forall>j < 2. guard_of x j div 2 \<le> length (sy_begun x))
     \<and> (\<forall>j < 2. even (guard_of x j) \<and> 2 \<le> guard_of x j \<longrightarrow> words_of x j = sy_begun x ! (guard_of x j div 2 - 1))
     \<and> (0 < sy_complete x \<longrightarrow> unat (ls_active_index (sy_shared x)) < 2
          \<and> guard_of x (unat (ls_active_index (sy_shared x))) = 2 * sy_complete x)
     \<and> (sy_complete x = 0 \<longrightarrow> 2 \<le> unat (ls_active_index (sy_shared x)))"

definition target_ok :: "system \<Rightarrow> nat \<Rightarrow> bool" where
  "target_ok x t \<longleftrightarrow> t < 2 \<and> (0 < sy_complete x \<longrightarrow> t \<noteq> unat (ls_active_index (sy_shared x)))"

definition settled :: "system \<Rightarrow> bool" where
  "settled x \<longleftrightarrow> length (sy_begun x) = sy_complete x \<and> (\<forall>j < 2. even (guard_of x j))"

definition publishing :: "system \<Rightarrow> u64 list \<Rightarrow> nat \<Rightarrow> bool" where
  "publishing x v t \<longleftrightarrow>
     target_ok x t \<and> length (sy_begun x) = sy_complete x + 1 \<and> sy_begun x ! sy_complete x = v
     \<and> even (guard_of x (1 - t)) \<and> guard_of x (1 - t) div 2 \<le> sy_complete x"

fun writer_at :: "nat \<Rightarrow> system \<Rightarrow> publish_pc \<Rightarrow> bool" where
  "writer_at n x pub_idle \<longleftrightarrow> settled x"
| "writer_at n x (pub_load v) \<longleftrightarrow> settled x \<and> length v = n \<and> length (sy_begun x) + 1 < 2 ^ 63"
| "writer_at n x (pub_epoch v t) \<longleftrightarrow> settled x \<and> length v = n \<and> length (sy_begun x) + 1 < 2 ^ 63 \<and> target_ok x t"
| "writer_at n x (pub_open v t e) \<longleftrightarrow>
     publishing x v t \<and> length v = n \<and> unat e = 2 * (sy_complete x + 1) \<and> even (guard_of x t) \<and> guard_of x t div 2 \<le> sy_complete x"
| "writer_at n x (pub_word v t e i) \<longleftrightarrow>
     publishing x v t \<and> length v = n \<and> unat e = 2 * (sy_complete x + 1) \<and> guard_of x t = 2 * (sy_complete x + 1) + 1 \<and> i < n
     \<and> take i (words_of x t) = take i v"
| "writer_at n x (pub_close v t e) \<longleftrightarrow>
     publishing x v t \<and> length v = n \<and> unat e = 2 * (sy_complete x + 1) \<and> guard_of x t = 2 * (sy_complete x + 1) + 1
     \<and> words_of x t = v"
| "writer_at n x (pub_activate t) \<longleftrightarrow>
     (\<exists>v. publishing x v t) \<and> guard_of x t = 2 * (sy_complete x + 1)"

fun reader_at :: "nat \<Rightarrow> system \<Rightarrow> read_pc \<Rightarrow> bool" where
  "reader_at n x (rd_active k) \<longleftrightarrow> True"
| "reader_at n x (rd_before k a) \<longleftrightarrow> a < 2 \<and> 1 \<le> sy_seen x \<and> sy_seen x \<le> guard_of x a div 2"
| "reader_at n x (rd_word k a b i acc) \<longleftrightarrow>
     a < 2 \<and> 1 \<le> sy_seen x \<and> sy_seen x \<le> unat b div 2 \<and> even (unat b) \<and> unat b div 2 \<le> length (sy_begun x) \<and> i < n
     \<and> (guard_of x a = unat b \<and> acc = take i (words_of x a) \<or> unat b div 2 < guard_of x a div 2)"
| "reader_at n x (rd_after k a b acc) \<longleftrightarrow>
     a < 2 \<and> 1 \<le> sy_seen x \<and> sy_seen x \<le> unat b div 2 \<and> even (unat b) \<and> unat b div 2 \<le> length (sy_begun x)
     \<and> (guard_of x a = unat b \<and> acc = words_of x a \<or> unat b div 2 < guard_of x a div 2)"
| "reader_at n x (rd_confirm k a b af acc) \<longleftrightarrow>
     a < 2 \<and> 1 \<le> sy_seen x \<and> sy_seen x \<le> unat b div 2 \<and> even (unat b) \<and> unat b div 2 \<le> length (sy_begun x)
     \<and> (af = b \<longrightarrow> acc = sy_begun x ! (unat b div 2 - 1)) \<and> unat b div 2 \<le> guard_of x a div 2"
| "reader_at n x (rd_done None) \<longleftrightarrow> True"
| "reader_at n x (rd_done (Some v)) \<longleftrightarrow>
     (\<exists>m. sy_seen x \<le> m \<and> 1 \<le> m \<and> m \<le> sy_complete x \<and> sy_complete x \<le> length (sy_begun x) \<and> v = sy_begun x ! (m - 1))"

definition system_ok :: "nat \<Rightarrow> system \<Rightarrow> bool" where
  "system_ok n x \<longleftrightarrow> shared_ok n x \<and> writer_at n x (sy_writer x) \<and> reader_at n x (sy_reader x)"

lemma complete_le_begun: "writer_at n x w \<Longrightarrow> sy_complete x \<le> length (sy_begun x)"
  by (cases w) (auto simp: settled_def publishing_def)

section \<open>The reader\<close>

lemma reader_keeps:
  assumes ok: "system_ok n x"
  shows "system_ok n (reader_moves n x)"
proof -
  let ?y = "reader_moves n x"
  have same: "sy_shared ?y = sy_shared x" "sy_writer ?y = sy_writer x" "sy_begun ?y = sy_begun x" "sy_complete ?y = sy_complete x"
    by (simp_all add: reader_moves_def)
  have w: "writer_at n ?y p = writer_at n x p" for p
    by (cases p) (simp_all add: settled_def publishing_def target_ok_def same)
  have sh: "shared_ok n x" using ok by (simp add: system_ok_def)
  have att: "reader_at n y (next_attempt k)" for k y by (simp add: next_attempt_def)
  have len: "length (ls_slots (sy_shared x)) = 2" "\<And>j. j < 2 \<Longrightarrow> length (words_of x j) = n"
    using sh by (simp_all add: shared_ok_def)
  have r: "reader_at n ?y (sy_reader ?y)"
  proof (cases "sy_reader x")
    case (rd_active k)
    show ?thesis
    proof (cases "sy_complete x = 0")
      case True
      then show ?thesis using sh rd_active len by (simp add: reader_moves_def shared_ok_def)
    next
      case False
      then show ?thesis using sh rd_active len by (simp add: reader_moves_def shared_ok_def)
    qed
  next
    case (rd_before k a)
    then have a: "a < 2" "1 \<le> sy_seen x" "sy_seen x \<le> guard_of x a div 2" using ok by (auto simp: system_ok_def)
    have g: "guard_of x a div 2 \<le> length (sy_begun x)" using sh a by (simp add: shared_ok_def)
    show ?thesis
    proof (cases "odd (guard_of x a)")
      case True
      then show ?thesis using rd_before att by (simp add: reader_moves_def odd_guard Let_def)
    next
      case False
      then show ?thesis using rd_before a g len(2) [OF a(1)]
        by (auto simp: reader_moves_def odd_guard load_next_def Let_def)
    qed
  next
    case (rd_word k a b i acc)
    then have a: "a < 2" "i < n" "guard_of x a = unat b \<and> acc = take i (words_of x a) \<or> unat b div 2 < guard_of x a div 2"
      and rest: "1 \<le> sy_seen x" "sy_seen x \<le> unat b div 2" "even (unat b)" "unat b div 2 \<le> length (sy_begun x)"
      using ok by (auto simp: system_ok_def)
    have l: "length (words_of x a) = n" by (rule len(2) [OF a(1)])
    have "guard_of x a = unat b \<and> acc @ [words_of x a ! i] = take (i + 1) (words_of x a) \<or> unat b div 2 < guard_of x a div 2"
      using a(2,3) l by (auto simp: take_Suc_conv_app_nth)
    then show ?thesis using rd_word a(1,2) rest l
      by (auto simp: reader_moves_def load_next_def not_less)
  next
    case (rd_after k a b acc)
    then have a: "a < 2" "guard_of x a = unat b \<and> acc = words_of x a \<or> unat b div 2 < guard_of x a div 2"
      and rest: "1 \<le> sy_seen x" "sy_seen x \<le> unat b div 2" "even (unat b)" "unat b div 2 \<le> length (sy_begun x)"
      using ok by (auto simp: system_ok_def)
    have "2 \<le> unat b" using rest by linarith
    then have "sl_guard (ls_slots (sy_shared x) ! a) = b \<Longrightarrow> acc = sy_begun x ! (unat b div 2 - 1)"
      using a rest(3) sh by (auto simp: shared_ok_def)
    then show ?thesis using rd_after a rest by (auto simp: reader_moves_def)
  next
    case (rd_confirm k a b af acc)
    then have a: "a < 2" "af = b \<longrightarrow> acc = sy_begun x ! (unat b div 2 - 1)" "unat b div 2 \<le> guard_of x a div 2"
      and rest: "1 \<le> sy_seen x" "sy_seen x \<le> unat b div 2" "even (unat b)"
      using ok by (auto simp: system_ok_def)
    show ?thesis
    proof (cases "b \<noteq> af \<or> odd (unat af) \<or> unat (ls_active_index (sy_shared x)) \<noteq> a")
      case True
      then show ?thesis using rd_confirm att by (auto simp: reader_moves_def odd_guard)
    next
      case False
      have c: "0 < sy_complete x" using False a(1) sh by (cases "sy_complete x = 0") (auto simp: shared_ok_def)
      then have "guard_of x a = 2 * sy_complete x" using False sh by (auto simp: shared_ok_def)
      then have "unat b div 2 \<le> sy_complete x" using a(3) by simp
      moreover have "sy_complete x \<le> length (sy_begun x)" using ok complete_le_begun by (auto simp: system_ok_def)
      moreover have "1 \<le> unat b div 2" using rest by linarith
      ultimately show ?thesis using rd_confirm False a(2) rest(1,2)
        by (auto simp: reader_moves_def odd_guard intro!: exI [of _ "unat b div 2"])
    qed
  next
    case (rd_done v)
    then show ?thesis using ok same by (cases v) (auto simp: system_ok_def reader_moves_def)
  qed
  show ?thesis using ok w r by (simp add: system_ok_def shared_ok_def same)
qed

section \<open>The writer\<close>

text \<open>What a step of the writer can do to a reader.\<close>

definition advance :: "system \<Rightarrow> system \<Rightarrow> bool" where
  "advance x y \<longleftrightarrow>
     (\<forall>j < 2. guard_of x j div 2 \<le> guard_of y j div 2
        \<and> (even (guard_of x j) \<longrightarrow>
             guard_of y j = guard_of x j \<and> words_of y j = words_of x j \<or> guard_of x j div 2 < guard_of y j div 2))
     \<and> (\<exists>vs. sy_begun y = sy_begun x @ vs) \<and> sy_complete x \<le> sy_complete y \<and> sy_seen y = sy_seen x"

lemma advance_reader:
  assumes adv: "advance x y" and r: "reader_at n x r" and c: "sy_complete y \<le> length (sy_begun y)"
  shows "reader_at n y r"
proof -
  have g: "guard_of x a div 2 \<le> guard_of y a div 2"
    "even (guard_of x a) \<Longrightarrow> guard_of y a = guard_of x a \<and> words_of y a = words_of x a \<or> guard_of x a div 2 < guard_of y a div 2"
    if "a < 2" for a using adv that by (auto simp: advance_def)
  obtain vs where vs: "sy_begun y = sy_begun x @ vs" using adv by (auto simp: advance_def)
  have s: "sy_seen y = sy_seen x" "sy_complete x \<le> sy_complete y" using adv by (simp_all add: advance_def)
  have same: "guard_of y a = unat b \<and> acc = f (words_of y a) \<or> unat b div 2 < guard_of y a div 2"
    if "a < 2" "even (unat b)" "guard_of x a = unat b \<and> acc = f (words_of x a) \<or> unat b div 2 < guard_of x a div 2"
    for a and b :: u64 and acc :: "u64 list" and f
    using that(3)
  proof
    assume h: "guard_of x a = unat b \<and> acc = f (words_of x a)"
    then have "even (guard_of x a)" using that(2) by simp
    from g(2) [OF that(1) this] h show ?thesis by auto
  next
    assume "unat b div 2 < guard_of x a div 2"
    then show ?thesis using g(1) [OF that(1)] by linarith
  qed
  have len: "length (sy_begun x) \<le> length (sy_begun y)" using vs by simp
  show ?thesis
  proof (cases r)
    case (rd_before k a)
    then show ?thesis using r s g(1) [of a] by (auto intro: order_trans)
  next
    case (rd_word k a b i acc)
    then show ?thesis using r s len same [of a b acc "take i"] by (simp add: order_trans [OF _ len])
  next
    case (rd_after k a b acc)
    then show ?thesis using r s len same [of a b acc "\<lambda>v. v"] by (simp add: order_trans [OF _ len])
  next
    case (rd_confirm k a b af acc)
    then show ?thesis using r s vs g(1) [of a] by (auto simp: nth_append intro: order_trans)
  next
    case (rd_done v)
    show ?thesis
    proof (cases v)
      case (Some w)
      then obtain m where m: "sy_seen x \<le> m" "1 \<le> m" "m \<le> sy_complete x" "sy_complete x \<le> length (sy_begun x)" "w = sy_begun x ! (m - 1)"
        using r rd_done by auto
      then have "w = sy_begun y ! (m - 1)" "m \<le> sy_complete y" using vs s by (auto simp: nth_append)
      then show ?thesis using m c s rd_done Some by auto
    qed (use rd_done in simp)
  qed simp
qed

lemma slots_nth:
  assumes "length (ls_slots s) = 2" "t < 2" "j < 2"
  shows "sl_guard (ls_slots (set_guard s t g) ! j) = (if j = t then g else sl_guard (ls_slots s ! j))"
    "sl_words (ls_slots (set_guard s t g) ! j) = sl_words (ls_slots s ! j)"
    "sl_guard (ls_slots (set_word s t i w) ! j) = sl_guard (ls_slots s ! j)"
    "sl_words (ls_slots (set_word s t i w) ! j) = (if j = t then (sl_words (ls_slots s ! j))[i := w] else sl_words (ls_slots s ! j))"
  using assms by (simp_all add: set_guard_def set_word_def nth_list_update_at)

lemma slots_frame [simp]:
  "length (ls_slots (set_guard s t g)) = length (ls_slots s)" "ls_active_index (set_guard s t g) = ls_active_index s"
  "ls_epoch (set_guard s t g) = ls_epoch s"
  "length (ls_slots (set_word s t i w)) = length (ls_slots s)" "ls_active_index (set_word s t i w) = ls_active_index s"
  "ls_epoch (set_word s t i w) = ls_epoch s"
  by (simp_all add: set_guard_def set_word_def)

lemma two_cases: "(\<forall>j < (2 :: nat). P j) \<longleftrightarrow> P t \<and> P (1 - t)" if "t < 2"
proof -
  have "t = 0 \<or> t = 1" using that by linarith
  then show ?thesis by (elim disjE) (simp_all add: less_2_cases_iff, blast+)
qed

lemma target_other: "t < 2 \<Longrightarrow> a < 2 \<Longrightarrow> a \<noteq> t \<longleftrightarrow> a = 1 - (t :: nat)"
  by arith

definition writer_good :: "nat \<Rightarrow> system \<Rightarrow> system \<Rightarrow> bool" where
  "writer_good n x y \<longleftrightarrow> shared_ok n y \<and> writer_at n y (sy_writer y) \<and> advance x y"

lemma publishing_active:
  "publishing x v t \<Longrightarrow> shared_ok n x \<Longrightarrow> 0 < sy_complete x \<Longrightarrow> unat (ls_active_index (sy_shared x)) = 1 - t"
  by (auto simp: publishing_def target_ok_def shared_ok_def)

lemma control_frame [simp]:
  "shared_ok n (x\<lparr>sy_writer := w\<rparr>) = shared_ok n x" "settled (x\<lparr>sy_writer := w\<rparr>) = settled x"
  "target_ok (x\<lparr>sy_writer := w\<rparr>) t = target_ok x t" "publishing (x\<lparr>sy_writer := w\<rparr>) v t = publishing x v t"
  "shared_ok n (x\<lparr>sy_reader := r\<rparr>) = shared_ok n x" "settled (x\<lparr>sy_reader := r\<rparr>) = settled x"
  "target_ok (x\<lparr>sy_reader := r\<rparr>) t = target_ok x t" "publishing (x\<lparr>sy_reader := r\<rparr>) v t = publishing x v t"
  by (simp_all add: shared_ok_def settled_def target_ok_def publishing_def)

lemma advance_control: "advance x (x\<lparr>sy_writer := w\<rparr>)" by (simp add: advance_def)

lemma writer_load:
  assumes "shared_ok n x" "writer_at n x (pub_load v)" "sy_writer x = pub_load v"
  shows "writer_good n x (writer_moves x)"
proof -
  let ?a = "unat (ls_active_index (sy_shared x))"
  let ?t = "if ?a < 2 then 1 - ?a else 0"
  have m: "writer_moves x = x\<lparr>sy_writer := pub_epoch v ?t\<rparr>" using assms(1,3) by (simp add: writer_moves_def shared_ok_def)
  have "0 < sy_complete x \<longrightarrow> ?a < 2" using assms(1) by (simp add: shared_ok_def)
  moreover have "1 - a < 2" "a < 2 \<Longrightarrow> 1 - a \<noteq> a" for a :: nat by arith+
  ultimately have "target_ok x ?t" by (simp add: target_ok_def)
  then show ?thesis using assms by (simp add: writer_good_def m advance_control)
qed

lemma writer_epoch:
  assumes sh: "shared_ok n x" and w: "writer_at n x (pub_epoch v t)" and pc: "sy_writer x = pub_epoch v t"
  shows "writer_good n x (writer_moves x)"
proof -
  let ?y = "x\<lparr>sy_shared := (sy_shared x)\<lparr>ls_epoch := ls_epoch (sy_shared x) + 2\<rparr>, sy_begun := sy_begun x @ [v]\<rparr>"
  have m: "writer_moves x = ?y\<lparr>sy_writer := pub_open v t (ls_epoch (sy_shared x) + 2)\<rparr>" by (simp add: writer_moves_def pc)
  have l: "length (sy_begun x) = sy_complete x" "length v = n" "sy_complete x + 1 < 2 ^ 63" using w by (simp_all add: settled_def)
  have e: "unat (ls_epoch (sy_shared x) + 2) = 2 * (sy_complete x + 1)"
  proof -
    have "unat (ls_epoch (sy_shared x)) = 2 * sy_complete x" using sh l by (simp add: shared_ok_def)
    then show ?thesis using l by (simp add: unat_plus_if')
  qed
  have gj: "guard_of x j div 2 \<le> sy_complete x" "even (guard_of x j)" if "j < 2" for j
    using sh w l that by (auto simp: shared_ok_def settled_def)
  have nth: "(sy_begun x @ [v]) ! (guard_of x j div 2 - 1) = sy_begun x ! (guard_of x j div 2 - 1)"
    if "j < 2" "2 \<le> guard_of x j" for j
  proof -
    have "guard_of x j div 2 - 1 < length (sy_begun x)" using gj(1) [OF that(1)] that(2) l by linarith
    then show ?thesis by (simp add: nth_append)
  qed
  have t: "t < 2" "1 - t < 2" using w by (auto simp: target_ok_def)
  have "shared_ok n ?y" using sh l e nth gj(1) unfolding shared_ok_def by (simp add: le_SucI)
  moreover have "publishing ?y v t" using w l gj [OF t(2)] by (simp add: publishing_def target_ok_def nth_append)
  moreover have "advance x (?y\<lparr>sy_writer := w'\<rparr>)" for w' by (simp add: advance_def)
  ultimately show ?thesis using gj [OF t(1)] e l by (simp add: writer_good_def m)
qed

text \<open>Opening the guard, storing words and closing the guard change only the slot being written.\<close>

lemma slot_update:
  assumes sh: "shared_ok n x" and p: "publishing x v t"
    and y: "y = x\<lparr>sy_shared := s\<rparr>" "length (ls_slots s) = 2" "ls_active_index s = ls_active_index (sy_shared x)"
      "ls_epoch s = ls_epoch (sy_shared x)"
      "sl_guard (ls_slots s ! (1 - t)) = sl_guard (ls_slots (sy_shared x) ! (1 - t))"
      "sl_words (ls_slots s ! (1 - t)) = sl_words (ls_slots (sy_shared x) ! (1 - t))"
      "length (words_of y t) = n" "guard_of y t div 2 = sy_complete x + 1"
      "even (guard_of y t) \<Longrightarrow> words_of y t = v"
    and up: "guard_of x t div 2 \<le> guard_of y t div 2" "even (guard_of x t) \<Longrightarrow> guard_of x t div 2 < guard_of y t div 2"
  shows "shared_ok n y \<and> publishing y v t \<and> advance x y"
proof -
  have t: "t < 2" "1 - t < 2" using p by (auto simp: publishing_def target_ok_def)
  have b: "length (sy_begun x) = sy_complete x + 1" "sy_begun x ! sy_complete x = v" using p by (simp_all add: publishing_def)
  have same: "guard_of y (1 - t) = guard_of x (1 - t)" "words_of y (1 - t) = words_of x (1 - t)" using y by simp_all
  have ctl: "sy_begun y = sy_begun x" "sy_complete y = sy_complete x" "sy_seen y = sy_seen x" "sy_shared y = s" using y(1) by simp_all
  have act: "0 < sy_complete x \<Longrightarrow> unat (ls_active_index (sy_shared x)) = 1 - t" by (rule publishing_active [OF p sh])
  have "publishing y v t" using p same y(3) by (simp add: publishing_def target_ok_def ctl)
  moreover have "advance x y"
    unfolding advance_def two_cases [OF t(1)] using up same ctl by simp
  moreover have "shared_ok n y"
    using sh b same y(2-4,7-9) act unfolding shared_ok_def two_cases [OF t(1)] ctl
    by (auto simp: ctl)
  ultimately show ?thesis by simp
qed

lemma publishing_target: "publishing x v t \<Longrightarrow> t < 2" "publishing x v t \<Longrightarrow> 1 - t < 2" "publishing x v t \<Longrightarrow> 1 - t \<noteq> t"
proof -
  assume p: "publishing x v t"
  show t: "t < 2" using p by (simp add: publishing_def target_ok_def)
  then show "1 - t < 2" "1 - t \<noteq> t" by arith+
qed

lemma store_next_at:
  assumes "publishing y v t" "length v = n" "unat e = 2 * (sy_complete y + 1)" "guard_of y t = 2 * (sy_complete y + 1) + 1"
    "length (words_of y t) = n" "i \<le> n" "take i (words_of y t) = take i v"
  shows "writer_at n y (store_next v t e i)"
  using assms by (cases "i < n") (auto simp: store_next_def)

lemma writer_open:
  assumes sh: "shared_ok n x" and w: "writer_at n x (pub_open v t e)" and pc: "sy_writer x = pub_open v t e"
  shows "writer_good n x (writer_moves x)"
proof -
  let ?s = "set_guard (sy_shared x) t (e OR 1)"
  let ?y = "x\<lparr>sy_shared := ?s\<rparr>"
  have m: "writer_moves x = ?y\<lparr>sy_writer := store_next v t e 0\<rparr>" by (simp add: writer_moves_def pc)
  have p: "publishing x v t" "length v = n" "unat e = 2 * (sy_complete x + 1)" "even (guard_of x t)" "guard_of x t div 2 \<le> sy_complete x"
    using w by simp_all
  note t = publishing_target [OF p(1)]
  have len: "length (ls_slots (sy_shared x)) = 2" "length (words_of x t) = n" using sh t by (simp_all add: shared_ok_def)
  have g: "guard_of ?y t = 2 * (sy_complete x + 1) + 1"
    using open_guard [of e] p(3) by (simp add: slots_nth [OF len(1) t(1) t(1)])
  have "shared_ok n ?y \<and> publishing ?y v t \<and> advance x ?y"
    using len g p(4,5) t(3)
    by (intro slot_update [OF sh p(1) refl]) (simp_all add: slots_nth [OF len(1) t(1)] t(1,2))
  moreover from this have "writer_at n ?y (store_next v t e 0)"
    using p g len by (intro store_next_at) (simp_all add: slots_nth [OF len(1) t(1) t(1)])
  ultimately show ?thesis unfolding writer_good_def m by (cases "store_next v t e 0") (simp_all add: advance_def)
qed

lemma writer_word:
  assumes sh: "shared_ok n x" and w: "writer_at n x (pub_word v t e i)" and pc: "sy_writer x = pub_word v t e i"
  shows "writer_good n x (writer_moves x)"
proof -
  let ?s = "set_word (sy_shared x) t i (v ! i)"
  let ?y = "x\<lparr>sy_shared := ?s\<rparr>"
  have m: "writer_moves x = ?y\<lparr>sy_writer := store_next v t e (i + 1)\<rparr>" by (simp add: writer_moves_def pc)
  have p: "publishing x v t" "length v = n" "unat e = 2 * (sy_complete x + 1)" "guard_of x t = 2 * (sy_complete x + 1) + 1" "i < n"
    "take i (words_of x t) = take i v"
    using w by simp_all
  note t = publishing_target [OF p(1)]
  have len: "length (ls_slots (sy_shared x)) = 2" "length (words_of x t) = n" using sh t by (simp_all add: shared_ok_def)
  have g: "guard_of ?y t = 2 * (sy_complete x + 1) + 1" using p(4) by (simp add: slots_nth [OF len(1) t(1) t(1)])
  have tk: "take (i + 1) (words_of ?y t) = take (i + 1) v"
    using p(2,5,6) len by (simp add: slots_nth [OF len(1) t(1) t(1)] take_Suc_conv_app_nth)
  have "shared_ok n ?y \<and> publishing ?y v t \<and> advance x ?y"
    using len g p(4) t(3)
    by (intro slot_update [OF sh p(1) refl]) (simp_all add: slots_nth [OF len(1) t(1)] t(1,2))
  moreover from this have "writer_at n ?y (store_next v t e (i + 1))"
    using p(2,3,5) g len tk by (intro store_next_at) (simp_all add: slots_nth [OF len(1) t(1) t(1)])
  ultimately show ?thesis unfolding writer_good_def m by (cases "store_next v t e (i + 1)") (simp_all add: advance_def)
qed

lemma writer_close:
  assumes sh: "shared_ok n x" and w: "writer_at n x (pub_close v t e)" and pc: "sy_writer x = pub_close v t e"
  shows "writer_good n x (writer_moves x)"
proof -
  let ?s = "set_guard (sy_shared x) t e"
  let ?y = "x\<lparr>sy_shared := ?s\<rparr>"
  have m: "writer_moves x = ?y\<lparr>sy_writer := pub_activate t\<rparr>" by (simp add: writer_moves_def pc)
  have p: "publishing x v t" "length v = n" "unat e = 2 * (sy_complete x + 1)" "guard_of x t = 2 * (sy_complete x + 1) + 1"
    "words_of x t = v"
    using w by simp_all
  note t = publishing_target [OF p(1)]
  have len: "length (ls_slots (sy_shared x)) = 2" "length (words_of x t) = n" using sh t by (simp_all add: shared_ok_def)
  have g: "guard_of ?y t = 2 * (sy_complete x + 1)" using p(3) by (simp add: slots_nth [OF len(1) t(1) t(1)])
  have "shared_ok n ?y \<and> publishing ?y v t \<and> advance x ?y"
    using len g p(4,5) t(3)
    by (intro slot_update [OF sh p(1) refl]) (simp_all add: slots_nth [OF len(1) t(1)] t(1,2))
  then show ?thesis using g unfolding writer_good_def m by (auto simp: advance_def)
qed

lemma writer_activate:
  assumes sh: "shared_ok n x" and w: "writer_at n x (pub_activate t)" and pc: "sy_writer x = pub_activate t"
  shows "writer_good n x (writer_moves x)"
proof -
  let ?y = "x\<lparr>sy_shared := (sy_shared x)\<lparr>ls_active_index := word_of_nat t\<rparr>, sy_complete := sy_complete x + 1\<rparr>"
  have m: "writer_moves x = ?y\<lparr>sy_writer := pub_idle\<rparr>" by (simp add: writer_moves_def pc)
  obtain v where p: "publishing x v t" "guard_of x t = 2 * (sy_complete x + 1)" using w by auto
  have t: "t < 2" using p(1) by (simp add: publishing_def target_ok_def)
  have ix: "unat (word_of_nat t :: u32) = t" using t by (auto simp: less_2_cases_iff)
  have "shared_ok n ?y" using sh p t ix unfolding shared_ok_def by simp
  moreover have "settled ?y" using p unfolding settled_def two_cases [OF t] by (simp add: publishing_def)
  ultimately show ?thesis by (simp add: writer_good_def m) (simp add: advance_def)
qed

lemma writer_keeps:
  assumes ok: "system_ok n x"
  shows "system_ok n (writer_moves x)"
proof -
  have sh: "shared_ok n x" and w: "writer_at n x (sy_writer x)" using ok by (simp_all add: system_ok_def)
  have "writer_good n x (writer_moves x)"
  proof (cases "sy_writer x")
    case pub_idle
    then have "writer_moves x = x" by (simp add: writer_moves_def)
    then show ?thesis using sh w by (simp add: writer_good_def advance_def)
  qed (use writer_load [OF sh] writer_epoch [OF sh] writer_open [OF sh] writer_word [OF sh] writer_close [OF sh]
    writer_activate [OF sh] w in \<open>simp_all del: writer_at.simps\<close>)
  moreover have "sy_reader (writer_moves x) = sy_reader x" by (simp add: writer_moves_def split: prod.split)
  ultimately show ?thesis using ok complete_le_begun advance_reader by (auto simp: system_ok_def writer_good_def)
qed

lemma no_active_slot [simp]: "unat kNoActiveSlot = 4294967295"
  by (simp add: kNoActiveSlot_def unsigned_minus_1_eq_mask mask_eq_exp_minus_1)

section \<open>Every interleaving\<close>

lemma interleaving_ok: "interleaving n x \<Longrightarrow> system_ok n x"
proof (induction rule: interleaving.induct)
  case initial
  show ?case by (simp add: system_ok_def shared_ok_def settled_def make_snapshot_def nth_replicate)
next
  case (publish x v)
  then have "advance x (x\<lparr>sy_writer := pub_load v\<rparr>)" by (simp add: advance_def)
  from advance_reader [OF this, of n "sy_reader x"] publish show ?case by (simp add: system_ok_def settled_def)
next
  case (read x r)
  have "writer_at n (x\<lparr>sy_reader := rd_active 0\<rparr>) p = writer_at n x p" for p by (cases p) simp_all
  then show ?case using read by (simp add: system_ok_def)
qed (rule writer_keeps reader_keeps, assumption)+

section \<open>The claim\<close>

text \<open>Claim C32.
  No torn and no stale reads.  In every interleaving of the atomic steps of one writer and a reader, when \<open>read\<close>
  returns a value, that value is exactly the one given to some single publication, whole: publication number m, which
  had completed by then, and which is no older than the newest one completed when the successful attempt loaded the
  active index.  The only bound is on the epoch: fewer than \<open>2 ^ 63\<close> publications.\<close>

theorem snapshot_reads_complete:
  assumes "interleaving n x" "sy_reader x = rd_done (Some v)"
  shows "\<exists>m. sy_seen x \<le> m \<and> 1 \<le> m \<and> m \<le> sy_complete x \<and> m \<le> length (sy_begun x) \<and> v = sy_begun x ! (m - 1) \<and> length v = n"
proof -
  have ok: "system_ok n x" by (rule interleaving_ok [OF assms(1)])
  then obtain m where m: "sy_seen x \<le> m" "1 \<le> m" "m \<le> sy_complete x" "sy_complete x \<le> length (sy_begun x)" "v = sy_begun x ! (m - 1)"
    using assms(2) by (auto simp: system_ok_def)
  then have "v \<in> set (sy_begun x)" by auto
  then have "length v = n" using ok by (simp add: system_ok_def shared_ok_def)
  then show ?thesis using m by auto
qed

text \<open>Two publications and a read that overlaps the second one.\<close>

definition run_initial :: system where
  "run_initial = \<lparr>sy_shared = make_snapshot 2, sy_writer = pub_idle, sy_reader = rd_done None, sy_begun = [], sy_complete = 0,
     sy_seen = 0\<rparr>"

definition run_published :: system where
  "run_published = (writer_moves ^^ 7) (run_initial\<lparr>sy_writer := pub_load [5, 6]\<rparr>)"

definition run_reading :: system where
  "run_reading = (reader_moves 2 ^^ 3) (run_published\<lparr>sy_reader := rd_active 0\<rparr>)"

definition run_overlapped :: system where
  "run_overlapped = (writer_moves ^^ 4) (run_reading\<lparr>sy_writer := pub_load [7, 8]\<rparr>)"

lemma funpow_step: "(f ^^ numeral k) x = f ((f ^^ pred_numeral k) x)"
  by (simp add: numeral_eq_Suc)

lemmas run_steps = funpow_step writer_moves_def reader_moves_def set_guard_def set_word_def store_next_def load_next_def

lemma initial_snapshot: "make_snapshot 2 =
  \<lparr>ls_slots = [\<lparr>sl_guard = 0, sl_words = [0, 0]\<rparr>, \<lparr>sl_guard = 0, sl_words = [0, 0]\<rparr>], ls_active_index = kNoActiveSlot, ls_epoch = 0\<rparr>"
  by (simp add: make_snapshot_def numeral_2_eq_2)

lemma run_published: "run_published =
  \<lparr>sy_shared = \<lparr>ls_slots = [\<lparr>sl_guard = 2, sl_words = [5, 6]\<rparr>, \<lparr>sl_guard = 0, sl_words = [0, 0]\<rparr>], ls_active_index = 0, ls_epoch = 2\<rparr>,
   sy_writer = pub_idle, sy_reader = rd_done None, sy_begun = [[5, 6]], sy_complete = 1, sy_seen = 0\<rparr>"
  by (simp add: run_published_def run_initial_def initial_snapshot run_steps)

lemma run_reading: "run_reading = run_published\<lparr>sy_reader := rd_word 0 0 2 1 [5], sy_seen := 1\<rparr>"
  by (simp add: run_reading_def run_published run_steps)

lemma run_overlapped: "run_overlapped = run_reading
  \<lparr>sy_shared := \<lparr>ls_slots = [\<lparr>sl_guard = 2, sl_words = [5, 6]\<rparr>, \<lparr>sl_guard = 5, sl_words = [7, 0]\<rparr>], ls_active_index = 0, ls_epoch = 4\<rparr>,
   sy_writer := pub_word [7, 8] 1 4 1, sy_begun := [[5, 6], [7, 8]]\<rparr>"
  by (simp add: run_overlapped_def run_reading run_published run_steps)

lemma interleaving_writes: "interleaving n x \<Longrightarrow> interleaving n ((writer_moves ^^ k) x)"
  by (induction k) (auto intro: interleaving.writer)

lemma interleaving_reads: "interleaving n x \<Longrightarrow> interleaving n ((reader_moves n ^^ k) x)"
  by (induction k) (auto intro: interleaving.reader)

lemma run_interleaving: "interleaving 2 run_overlapped"
proof -
  have "interleaving 2 run_initial" unfolding run_initial_def by (rule interleaving.initial)
  then have "interleaving 2 (run_initial\<lparr>sy_writer := pub_load [5, 6]\<rparr>)" by (rule interleaving.publish) (simp_all add: run_initial_def)
  then have "interleaving 2 run_published" unfolding run_published_def by (rule interleaving_writes)
  then have "interleaving 2 (run_published\<lparr>sy_reader := rd_active 0\<rparr>)" by (rule interleaving.read) (simp add: run_published)
  then have "interleaving 2 run_reading" unfolding run_reading_def by (rule interleaving_reads)
  then have "interleaving 2 (run_reading\<lparr>sy_writer := pub_load [7, 8]\<rparr>)"
    by (rule interleaving.publish) (simp_all add: run_reading run_published)
  then show ?thesis unfolding run_overlapped_def by (rule interleaving_writes)
qed

theorem snapshot_reads_complete_witness:
  "\<exists>m. 1 \<le> m \<and> m \<le> 1 \<and> [5, 6] = sy_begun run_overlapped ! (m - 1) \<and> length (sy_begun run_overlapped) = 2"
proof -
  let ?x = "(reader_moves 2 ^^ 3) run_overlapped"
  have x: "sy_reader ?x = rd_done (Some [5, 6])" "sy_begun ?x = sy_begun run_overlapped" "sy_complete ?x = 1"
    by (simp_all add: run_overlapped run_reading run_published run_steps)
  have "length (sy_begun run_overlapped) = 2" by (simp add: run_overlapped)
  then show ?thesis using snapshot_reads_complete [OF interleaving_reads [OF run_interleaving] x(1)] unfolding x(2,3) by blast
qed

end
