(* ===== verification/Realtime_Props.thy ===== *)
theory Realtime_Props
  imports Realtime_Loop
begin

text \<open>
  Properties of the real-time loop: the releases stay on one grid of multiples of the period whatever the latencies,
  and preparing either gives every real-time guarantee or leaves the thread and the process as they were.
\<close>

section \<open>Division\<close>

lemma div_window: "0 < (p :: int) \<Longrightarrow> x div p * p \<le> x \<and> x < (x div p + 1) * p"
proof -
  assume "0 < p"
  then have "0 \<le> x mod p" "x mod p < p" by simp_all
  moreover have "x = x div p * p + x mod p" by simp
  ultimately show ?thesis unfolding distrib_right by linarith
qed

lemma le_div: "0 < (p :: int) \<Longrightarrow> a * p \<le> x \<Longrightarrow> a \<le> x div p"
  using zdiv_mono1 [of "a * p" x p] by simp

lemma uint_small: "0 \<le> q \<Longrightarrow> q < 2 ^ 63 \<Longrightarrow> uint (of_int q :: u64) = q"
  by (simp add: uint_word_of_int take_bit_int_eq_self)

section \<open>One release\<close>

definition effective_deadline :: "realtime_loop \<Rightarrow> int \<Rightarrow> int" where
  "effective_deadline l now = (if rl_schedule_started l then rl_next_deadline_ns l else now)"

text \<open>When the deadline \<open>d\<close> is late, the code advances it by the first number of periods that passes \<open>now\<close>.\<close>

lemma late_release:
  assumes P: "0 < P" and d: "0 \<le> d" "d \<le> now" and now: "now + P \<le> INT64_MAX"
  defines "q \<equiv> (now - d) div P"
  shows "0 \<le> q" "now < d + (q + 1) * P" "d + (q + 1) * P \<le> now + P" "q + 1 < 2 ^ 63"
    "uint (min (of_int q + 1 :: u64) (of_int ((INT64_MAX - d) div P))) = q + 1"
proof -
  show q0: "0 \<le> q" using P d by (simp add: q_def pos_imp_zdiv_nonneg_iff)
  note w = div_window [OF P, of "now - d", folded q_def]
  show "now < d + (q + 1) * P" using w by linarith
  show le: "d + (q + 1) * P \<le> now + P" using w by (simp add: distrib_right)
  have "q + 1 \<le> (q + 1) * P" using q0 P mult_left_mono [of 1 P "q + 1"] by simp
  then have "q + 1 \<le> INT64_MAX" using le now d by linarith
  then show s: "q + 1 < 2 ^ 63" by (simp add: INT64_MAX_def)
  let ?m = "(INT64_MAX - d) div P"
  have qm: "q + 1 \<le> ?m" using le now by (intro le_div [OF P]) linarith
  have "?m \<le> ?m * P" using qm q0 P mult_left_mono [of 1 P ?m] by simp
  then have "?m \<le> INT64_MAX - d" using div_window [OF P, of "INT64_MAX - d"] by linarith
  then have m: "?m < 2 ^ 63" using d by (simp add: INT64_MAX_def)
  have u: "uint (of_int q + 1 :: u64) = q + 1" using uint_small [of "q + 1"] q0 s by simp
  moreover have "uint (of_int ?m :: u64) = ?m" using qm q0 m by (intro uint_small) auto
  ultimately have "of_int q + 1 \<le> (of_int ?m :: u64)" using qm by (simp only: word_le_def)
  then show "uint (min (of_int q + 1 :: u64) (of_int ?m)) = q + 1" using u by (simp add: min_def)
qed

lemma next_release_grid:
  assumes P: "0 < lc_period (rl_config l)" and D: "0 \<le> effective_deadline l now" "effective_deadline l now + lc_period (rl_config l) \<le> INT64_MAX"
    and now: "now + lc_period (rl_config l) \<le> INT64_MAX"
  shows "\<exists>s. rl_next_deadline_ns (next_release l now) = effective_deadline l now + (int s + 1) * lc_period (rl_config l)
     \<and> lm_skipped_releases (rl_metrics (next_release l now)) = lm_skipped_releases (rl_metrics l) + of_nat s
     \<and> now < rl_next_deadline_ns (next_release l now)
     \<and> (s = 0 \<or> rl_next_deadline_ns (next_release l now) \<le> now + lc_period (rl_config l))"
proof -
  let ?P = "lc_period (rl_config l)" and ?D = "effective_deadline l now + lc_period (rl_config l)"
  have sat: "saturating_add (if rl_schedule_started l then rl_next_deadline_ns l else now) ?P = ?D"
    using D(2) P by (simp add: saturating_add_def effective_deadline_def)
  show ?thesis
  proof (cases "?D \<le> now")
    case False
    then show ?thesis unfolding next_release_def Let_def sat
      by (intro exI [of _ 0]) (simp add: algebra_simps)
  next
    case True
    have "0 \<le> ?D" using D(1) P by simp
    note late = late_release [OF P this True now]
    define q where "q = (now - ?D) div ?P"
    have w: "rl_next_deadline_ns (next_release l now) = ?D + (q + 1) * ?P"
      using True late(5) unfolding next_release_def Let_def sat q_def by simp
    have k: "lm_skipped_releases (rl_metrics (next_release l now)) = lm_skipped_releases (rl_metrics l) + (of_int q + 1)"
      using True unfolding next_release_def Let_def sat q_def by simp
    have q: "int (nat (q + 1)) = q + 1" "of_nat (nat (q + 1)) = (of_int q + 1 :: u64)"
      using late(1) by (simp_all add: q_def of_nat_nat)
    show ?thesis
      using late(2,3) by (intro exI [of _ "nat (q + 1)"]) (simp only: w k q, simp add: q_def algebra_simps)
  qed
qed

lemma next_release_frame [simp]:
  "rl_config (next_release l now) = rl_config l" "rl_schedule_started (next_release l now)"
  "lm_cycle_count (rl_metrics (next_release l now)) = lm_cycle_count (rl_metrics l)"
  "lm_sleep_failures (rl_metrics (next_release l now)) = lm_sleep_failures (rl_metrics l)"
  by (simp_all add: next_release_def Let_def)

lemma sleep_until_returns: "\<exists>r \<in> set rs. r \<noteq> EINTR \<Longrightarrow> \<exists>r rest. sleep_until rs = Some (r, rest) \<and> r \<noteq> EINTR"
  by (induction rs) auto

lemma wait_next_returns:
  assumes "\<exists>r \<in> set sleeps. r \<noteq> EINTR"
  obtains l' w where "wait_next l now sleeps started = Some (l', w)" "cx_scheduled_start (wr_context w) = rl_next_deadline_ns (next_release l now)"
    "rl_next_deadline_ns l' = rl_next_deadline_ns (next_release l now)" "rl_config l' = rl_config l" "rl_schedule_started l'"
    "lm_skipped_releases (rl_metrics l') = lm_skipped_releases (rl_metrics (next_release l now))"
proof -
  obtain r rest where "sleep_until sleeps = Some (r, rest)" using sleep_until_returns [OF assms] by blast
  then show thesis using that by (cases "r = 0") (auto simp: wait_next_def Let_def)
qed

section \<open>Runs\<close>

text \<open>A run of \<open>wait_next\<close>: each call is given the clock at entry, the results of its sleeps and the clock on waking.\<close>

fun wait_run :: "realtime_loop \<Rightarrow> (int \<times> int list \<times> int) list \<Rightarrow> (realtime_loop \<times> wait_result list) option" where
  "wait_run l [] = Some (l, [])"
| "wait_run l ((now, sleeps, started) # ins) =
     (case wait_next l now sleeps started of
        None \<Rightarrow> None
      | Some (l', w) \<Rightarrow> (case wait_run l' ins of None \<Rightarrow> None | Some (l'', ws) \<Rightarrow> Some (l'', w # ws)))"

text \<open>The k-th release of the grid that starts at \<open>base\<close>.  A wait for release \<open>k'\<close> after release \<open>k\<close>, entered at
  \<open>now\<close>, is proper when it lies in the future and skips no release it did not have to skip.\<close>

fun proper_releases :: "int \<Rightarrow> int \<Rightarrow> nat \<Rightarrow> (int \<times> int list \<times> int) list \<Rightarrow> wait_result list \<Rightarrow> nat list \<Rightarrow> bool" where
  "proper_releases base P k [] ws ks \<longleftrightarrow> ws = [] \<and> ks = []"
| "proper_releases base P k ((now, _) # ins) ws ks \<longleftrightarrow>
     (case (ws, ks) of
        (w # ws', k' # ks') \<Rightarrow>
          cx_scheduled_start (wr_context w) = base + int k' * P \<and> k < k' \<and> now < base + int k' * P
          \<and> (k' = k + 1 \<or> base + int k' * P \<le> now + P) \<and> proper_releases base P k' ins ws' ks'
      | _ \<Rightarrow> False)"

lemma proper_releases_length: "proper_releases base P k ins ws ks \<Longrightarrow> length ks = length ins \<and> k + length ks \<le> last (k # ks)"
proof (induction ins arbitrary: k ws ks)
  case (Cons i ins)
  obtain now x where i: "i = (now, x)" by (cases i)
  with Cons.prems obtain w ws' k' ks' where c: "ws = w # ws'" "ks = k' # ks'" "k < k'" "proper_releases base P k' ins ws' ks'"
    by (auto split: list.splits)
  then show ?case using Cons.IH [OF c(4)] by (auto split: if_splits)
qed simp

lemma wait_run_grid:
  assumes "0 < P" "lc_period (rl_config l) = P" "0 \<le> base"
    "\<forall>(now, sleeps, _) \<in> set ins. 0 \<le> now \<and> now + int (length ins) * P \<le> INT64_MAX \<and> (\<exists>r \<in> set sleeps. r \<noteq> EINTR)"
    "ins \<noteq> [] \<Longrightarrow> effective_deadline l (fst (hd ins)) = base + int k * P" "base + int k * P + int (length ins) * P \<le> INT64_MAX"
  shows "\<exists>l' ws ks. wait_run l ins = Some (l', ws) \<and> proper_releases base P k ins ws ks
     \<and> lm_skipped_releases (rl_metrics l') = lm_skipped_releases (rl_metrics l) + of_nat (last (k # ks) - k - length ks)"
  using assms
proof (induction ins arbitrary: l k)
  case Nil
  then show ?case by auto
next
  case (Cons i ins)
  obtain now sleeps started where i: "i = (now, sleeps, started)" by (cases i) auto
  let ?n = "int (length ins)"
  have P: "0 < P" and np: "0 \<le> ?n * P" using Cons.prems(1) by simp_all
  have eff: "effective_deadline l now = base + int k * P" using Cons.prems(5) i by simp
  have sl: "\<exists>r \<in> set sleeps. r \<noteq> EINTR" and nw: "0 \<le> now" "now + (?n + 1) * P \<le> INT64_MAX" using Cons.prems(4) i by (auto simp: add.commute)
  have cap: "base + int k * P + (?n + 1) * P \<le> INT64_MAX" using Cons.prems(6) by (simp add: add.commute)
  have e0: "0 \<le> effective_deadline l now" using eff Cons.prems(3) P by simp
  have ep: "effective_deadline l now + lc_period (rl_config l) \<le> INT64_MAX" "now + lc_period (rl_config l) \<le> INT64_MAX"
    using cap nw np eff Cons.prems(2) by (simp_all add: distrib_right)
  have "0 < lc_period (rl_config l)" using P Cons.prems(2) by simp
  have grid: "base + int k * P + (int s + 1) * P = base + int (k + 1 + s) * P" for s by (simp add: algebra_simps)
  note step = next_release_grid [OF \<open>0 < lc_period (rl_config l)\<close> e0 ep, unfolded eff Cons.prems(2) grid]
  from step obtain s where
    s: "rl_next_deadline_ns (next_release l now) = base + int (k + 1 + s) * P"
    "lm_skipped_releases (rl_metrics (next_release l now)) = lm_skipped_releases (rl_metrics l) + of_nat s"
    "now < base + int (k + 1 + s) * P" "s = 0 \<or> base + int (k + 1 + s) * P \<le> now + P"
    by (elim exE conjE) (rule that, simp_all only:)
  obtain l' w where w: "wait_next l now sleeps started = Some (l', w)" "cx_scheduled_start (wr_context w) = rl_next_deadline_ns (next_release l now)"
    "rl_next_deadline_ns l' = rl_next_deadline_ns (next_release l now)" "rl_config l' = rl_config l" "rl_schedule_started l'"
    "lm_skipped_releases (rl_metrics l') = lm_skipped_releases (rl_metrics (next_release l now))"
    by (rule wait_next_returns [OF sl])
  have cap': "base + int (k + 1 + s) * P + ?n * P \<le> INT64_MAX"
    using s(4) cap nw by (auto simp: algebra_simps)
  have "\<exists>l'' ws ks. wait_run l' ins = Some (l'', ws) \<and> proper_releases base P (k + 1 + s) ins ws ks
     \<and> lm_skipped_releases (rl_metrics l'') = lm_skipped_releases (rl_metrics l') + of_nat (last ((k + 1 + s) # ks) - (k + 1 + s) - length ks)"
  proof (rule Cons.IH)
    show "\<forall>(now, sleeps, _) \<in> set ins. 0 \<le> now \<and> now + ?n * P \<le> INT64_MAX \<and> (\<exists>r \<in> set sleeps. r \<noteq> EINTR)"
      using Cons.prems(4) P by (auto simp: distrib_right)
    show "ins \<noteq> [] \<Longrightarrow> effective_deadline l' (fst (hd ins)) = base + int (k + 1 + s) * P"
      using w(3,5) s(1) by (simp add: effective_deadline_def)
  qed (use P Cons.prems(2,3) w(4) cap' in simp_all)
  then obtain l'' ws ks where r: "wait_run l' ins = Some (l'', ws)" "proper_releases base P (k + 1 + s) ins ws ks"
     "lm_skipped_releases (rl_metrics l'') = lm_skipped_releases (rl_metrics l') + of_nat (last ((k + 1 + s) # ks) - (k + 1 + s) - length ks)" by blast
  have "last (k # (k + 1 + s) # ks) - k - length ((k + 1 + s) # ks) = s + (last ((k + 1 + s) # ks) - (k + 1 + s) - length ks)"
    using proper_releases_length [OF r(2)] by simp
  then have "lm_skipped_releases (rl_metrics l'') = lm_skipped_releases (rl_metrics l) + of_nat (last (k # (k + 1 + s) # ks) - k - length ((k + 1 + s) # ks))"
    by (simp only: r(3) w(6) s(2) of_nat_add add.assoc)
  moreover have "proper_releases base P k (i # ins) (w # ws) ((k + 1 + s) # ks)" using i s w(2) r(2) by auto
  moreover have "wait_run l (i # ins) = Some (l'', w # ws)" using i w(1) r(1) by simp
  ultimately show ?case by blast
qed

text \<open>Claim C34.
  Releases never drift.  However late or early the loop is entered, every wait returns (given that each sleep is
  interrupted only finitely often), and the scheduled start of the i-th wait is \<open>base + k * period\<close> for the time
  \<open>base\<close> at which the schedule began and strictly increasing indices k: it lies in the future of its wait, it is the
  next release of the grid or, after an overrun, at most one period ahead, and the counter of skipped releases is
  exactly the number of indices left out.  The clock is assumed to stay below the overflow of 64 bits.\<close>

theorem releases_on_grid:
  assumes "0 < lc_period (rl_config l)" "ins \<noteq> []"
    "\<forall>(now, sleeps, _) \<in> set ins. 0 \<le> now \<and> now + int (length ins) * lc_period (rl_config l) \<le> INT64_MAX \<and> (\<exists>r \<in> set sleeps. r \<noteq> EINTR)"
  shows "\<exists>l' ws ks. wait_run (reset_schedule l) ins = Some (l', ws)
     \<and> proper_releases (fst (hd ins)) (lc_period (rl_config l)) 0 ins ws ks
     \<and> lm_skipped_releases (rl_metrics l') = of_nat (last (0 # ks) - length ks)"
proof -
  let ?l = "reset_schedule l" and ?P = "lc_period (rl_config l)"
  obtain now sleeps started ins' where h: "ins = (now, sleeps, started) # ins'" using assms(2) by (cases ins) auto
  have "\<exists>l' ws ks. wait_run ?l ins = Some (l', ws) \<and> proper_releases now ?P 0 ins ws ks
     \<and> lm_skipped_releases (rl_metrics l') = lm_skipped_releases (rl_metrics ?l) + of_nat (last (0 # ks) - 0 - length ks)"
    using assms h by (intro wait_run_grid) (auto simp: reset_schedule_def effective_deadline_def)
  then show ?thesis using h by (simp add: reset_schedule_def zero_metrics_def)
qed

definition sample_loop :: realtime_loop where
  "sample_loop = make_loop \<lparr>lc_period = 1000, lc_cpu = 2, lc_priority = 80\<rparr>"

text \<open>The second wait is entered 3.5 periods late and skips three releases; the third sleep is interrupted twice.\<close>

definition sample_waits :: "(int \<times> int list \<times> int) list" where
  "sample_waits = [(5000, [0], 6010), (9500, [0], 10001), (10100, [4, 4, 0], 11000)]"

theorem releases_on_grid_witness:
  "\<exists>l' ws ks. wait_run (reset_schedule sample_loop) sample_waits = Some (l', ws)
     \<and> proper_releases 5000 1000 0 sample_waits ws ks \<and> lm_skipped_releases (rl_metrics l') = of_nat (last (0 # ks) - length ks)"
proof -
  have v: "lc_period (rl_config sample_loop) = 1000" "fst (hd sample_waits) = 5000"
    by (simp_all add: sample_loop_def make_loop_def sample_waits_def)
  have "0 < lc_period (rl_config sample_loop)" "sample_waits \<noteq> []" by (simp_all add: v sample_waits_def)
  moreover have "\<forall>(now, sleeps, _) \<in> set sample_waits. 0 \<le> now \<and> now + int (length sample_waits) * lc_period (rl_config sample_loop) \<le> INT64_MAX
      \<and> (\<exists>r \<in> set sleeps. r \<noteq> EINTR)"
    unfolding v by (simp add: sample_waits_def INT64_MAX_def EINTR_def)
  ultimately show ?thesis using releases_on_grid [of sample_loop sample_waits] unfolding v by blast
qed

text \<open>On the sample the skipped releases are those at 7000, 8000 and 9000.\<close>

lemma sample_run_starts:
  "(case wait_run (reset_schedule sample_loop) sample_waits of Some (l, ws) \<Rightarrow>
      (map (\<lambda>w. cx_scheduled_start (wr_context w)) ws, map (\<lambda>w. cx_sequence (wr_context w)) ws, lm_skipped_releases (rl_metrics l)) | None \<Rightarrow> ([], [], 0))
   = ([6000, 10000, 11000], [1, 2, 3], 3)"
  by code_simp

section \<open>Setup\<close>

definition unprepared :: "realtime_loop \<Rightarrow> linux_system \<Rightarrow> bool" where
  "unprepared l s \<longleftrightarrow> \<not> rl_setup_active l \<and> \<not> rl_captured_thread_state l \<and> \<not> rl_locked_memory l
     \<and> \<not> lx_thread_state_captured s \<and> \<not> lx_memory_locked s"

text \<open>What the calls of a release bring back of the thread \<open>th\<close>: each call that succeeds its own part.  \<open>locked\<close> tells whether
  the preparation locked the memory, which the release then unlocks however it was before.\<close>

definition put_back :: "release_calls \<Rightarrow> bool \<Rightarrow> os_thread \<Rightarrow> os_thread \<Rightarrow> bool" where
  "put_back rc locked th th' \<longleftrightarrow>
     (un_setschedparam rc \<longrightarrow> th_policy th' = th_policy th) \<and> (un_setaffinity rc \<longrightarrow> th_affinity th' = th_affinity th)
     \<and> th_memory_locked th' = (if locked then \<not> un_munlockall rc else th_memory_locked th)"

lemma put_back_all:
  "un_setschedparam rc \<Longrightarrow> un_setaffinity rc \<Longrightarrow> un_munlockall rc \<Longrightarrow> \<not> th_memory_locked th \<Longrightarrow> put_back rc locked th th' \<Longrightarrow> th' = th"
  by (cases th; cases th') (auto simp: put_back_def split: if_splits)

lemma release_puts_back:
  assumes "lx_thread_state_captured s = rl_captured_thread_state l" "lx_memory_locked s = rl_locked_memory l"
    "rl_captured_thread_state l \<Longrightarrow> lx_original_sched s = th_policy th \<and> lx_original_affinity s = th_affinity th"
    "\<not> rl_captured_thread_state l \<Longrightarrow> th_policy th' = th_policy th \<and> th_affinity th' = th_affinity th"
    "th_memory_locked th' = (rl_locked_memory l \<or> th_memory_locked th)"
    "loop_release rc l s th' = (l', s', th'')"
  shows "unprepared l' s' \<and> put_back rc (rl_locked_memory l) th th''"
  using assms
  by (cases th; cases th')
    (auto simp: loop_release_def restore_current_thread_state_def unlock_process_memory_def unprepared_def put_back_def Let_def split: if_splits)

text \<open>The part of a preparation between the capture of the thread and the decision.\<close>

lemma prepared_thread:
  assumes "capture_current_thread_state s th c = (s1, captured)" "\<not> lx_thread_state_captured s" "\<not> lx_memory_locked s"
  shows "lx_thread_state_captured s1 = captured" "\<not> lx_memory_locked s1"
    "captured \<Longrightarrow> lx_original_sched s1 = th_policy th \<and> lx_original_affinity s1 = th_affinity th"
  using assms by (auto simp: capture_current_thread_state_def Let_def split: if_splits)

lemma prepare_outcome:
  assumes un: "unprepared l s" and p: "loop_prepare l s th c rc = ((l', s', th'), success st)"
  shows "if rs_realtime_guarantee st
     then preempt_rt_kernel c \<and> th_policy th' = (SCHED_FIFO, lc_priority (rl_config l)) \<and> th_affinity th' = [lc_cpu (rl_config l)] \<and> th_memory_locked th'
       \<and> rl_setup_active l'
       \<and> (\<forall>rc'. case loop_release rc' l' s' th' of (l2, s2, th2) \<Rightarrow> unprepared l2 s2 \<and> put_back rc' True th th2)
     else unprepared l' s' \<and> put_back rc (rs_memory_locked st) th th'"
proof -
  obtain s1 captured where cap: "capture_current_thread_state s th c = (s1, captured)" by fastforce
  obtain s2 th2 locked where lk: "(if captured then lock_process_memory s1 th c else (s1, th, False)) = (s2, th2, locked)" by (metis prod_cases3)
  obtain th3 pinned where pn: "(if captured then pin_current_thread (lc_cpu (rl_config l)) th2 c else (th2, False)) = (th3, pinned)" by fastforce
  obtain th4 fifo where ff: "(if captured then set_current_thread_fifo (lc_priority (rl_config l)) th3 c else (th3, False)) = (th4, fifo)" by fastforce
  let ?g = "captured \<and> preempt_rt_kernel c \<and> locked \<and> pinned \<and> fifo"
  let ?l1 = "reset_schedule (l\<lparr>rl_captured_thread_state := captured, rl_locked_memory := locked, rl_setup_active := ?g\<rparr>)"
  have flags: "\<not> (rl_setup_active l \<or> rl_captured_thread_state l \<or> rl_locked_memory l)" "\<not> lx_thread_state_captured s" "\<not> lx_memory_locked s"
    using un by (simp_all add: unprepared_def)
  have v: "validate_loop_config (rl_config l) = success ()"
  proof (cases "validate_loop_config (rl_config l)" rule: result_cases)
    case (failure e m)
    then show ?thesis using p by (simp add: loop_prepare_def)
  qed simp
  have eq: "(if ?g then (?l1, s2, th4) else loop_release rc ?l1 s2 th4) = (l', s', th')" "rs_realtime_guarantee st = ?g" "rs_memory_locked st = locked"
    using p flags(1) unfolding loop_prepare_def v result_case if_not_P [OF flags(1)] cap Let_def prod.case lk pn ff by auto
  have s2: "lx_thread_state_captured s2 = captured" "lx_memory_locked s2 = locked" "th_memory_locked th4 = (locked \<or> th_memory_locked th)"
    "captured \<Longrightarrow> lx_original_sched s2 = th_policy th \<and> lx_original_affinity s2 = th_affinity th"
    "\<not> captured \<Longrightarrow> th4 = th"
    using lk pn ff prepared_thread [OF cap flags(2,3)]
    by (auto simp: lock_process_memory_def pin_current_thread_def set_current_thread_fifo_def split: if_splits)
  have rel: "unprepared l2 s3 \<and> put_back rc' locked th th5" if "loop_release rc' ?l1 s2 th4 = (l2, s3, th5)" for rc' l2 s3 th5
    using release_puts_back [OF _ _ _ _ _ that, of th] s2 by (simp add: reset_schedule_def)
  show ?thesis
  proof (cases ?g)
    case True
    have "th_policy th4 = (SCHED_FIFO, lc_priority (rl_config l)) \<and> th_affinity th4 = [lc_cpu (rl_config l)] \<and> th_memory_locked th4"
      using True lk pn ff
      by (auto simp: lock_process_memory_def pin_current_thread_def set_current_thread_fifo_def split: if_splits)
    moreover have "l' = ?l1" "s' = s2" "th' = th4" using eq(1) True by auto
    ultimately show ?thesis using rel True eq(2) by (auto simp: reset_schedule_def)
  next
    case False
    then have "loop_release rc ?l1 s2 th4 = (l', s', th')" using eq(1) by (simp only: if_False)
    from rel [OF this] show ?thesis using False eq(2,3) by (simp only: if_False)
  qed
qed

text \<open>Claim C35.
  Preparing the loop is all or nothing.  Starting from an unprepared loop and system, a preparation that reports the
  real-time guarantee runs on a real-time kernel with the thread in the FIFO class at the configured priority, pinned
  to the configured CPU, and memory locked; a later release forgets the preparation and brings back the policy and the
  affinity of the thread as far as the calls that do so succeed, and unlocks the memory when that call succeeds.  A
  preparation that reports anything less, whichever calls failed, has already done the same.  So when the calls that put
  things back succeed and the memory was not locked before, everything is exactly as it was; memory that was locked
  before the preparation ends unlocked.\<close>

theorem realtime_setup_all_or_nothing:
  assumes "unprepared l s" "loop_prepare l s th c rc = ((l', s', th'), success st)"
  shows "if rs_realtime_guarantee st
     then preempt_rt_kernel c \<and> th_policy th' = (SCHED_FIFO, lc_priority (rl_config l)) \<and> th_affinity th' = [lc_cpu (rl_config l)] \<and> th_memory_locked th'
       \<and> rl_setup_active l'
       \<and> (\<forall>rc'. case loop_release rc' l' s' th' of (l2, s2, th2) \<Rightarrow> unprepared l2 s2 \<and> put_back rc' True th th2)
     else unprepared l' s' \<and> put_back rc (rs_memory_locked st) th th'
       \<and> (un_setschedparam rc \<and> un_setaffinity rc \<and> un_munlockall rc \<and> \<not> th_memory_locked th \<longrightarrow> th' = th)"
  using prepare_outcome [OF assms] put_back_all [of rc th "rs_memory_locked st" th'] by (simp split: if_splits)

definition sample_thread :: os_thread where
  "sample_thread = \<lparr>th_policy = (0, 0), th_affinity = [0, 1, 2, 3], th_memory_locked = False\<rparr>"

definition no_fifo_calls :: setup_calls where
  "no_fifo_calls = \<lparr>su_getaffinity = True, su_getschedparam = True, su_realtime_file = Some ''1'', su_uname = None, su_mlockall = True,
     su_setaffinity = True, su_setschedparam = False\<rparr>"

definition undo_calls :: release_calls where
  "undo_calls = \<lparr>un_setschedparam = True, un_setaffinity = True, un_munlockall = True\<rparr>"

theorem realtime_setup_all_or_nothing_witness:
  "snd (snd (fst (loop_prepare sample_loop make_linux_system sample_thread no_fifo_calls undo_calls))) = sample_thread"
proof -
  have u: "unprepared sample_loop make_linux_system" by code_simp
  have m: "\<not> th_memory_locked sample_thread" "un_setschedparam undo_calls" "un_setaffinity undo_calls" "un_munlockall undo_calls" by code_simp+
  have r: "snd (loop_prepare sample_loop make_linux_system sample_thread no_fifo_calls undo_calls) =
    success \<lparr>rs_thread_state_captured = True, rs_preempt_rt = True, rs_memory_locked = True, rs_affinity_set = True, rs_sched_fifo = False,
      rs_realtime_guarantee = False\<rparr>"
    by code_simp
  obtain l' s' th' where p: "fst (loop_prepare sample_loop make_linux_system sample_thread no_fifo_calls undo_calls) = (l', s', th')" by (metis prod_cases3)
  have "loop_prepare sample_loop make_linux_system sample_thread no_fifo_calls undo_calls = ((l', s', th'), success \<lparr>rs_thread_state_captured = True,
      rs_preempt_rt = True, rs_memory_locked = True, rs_affinity_set = True, rs_sched_fifo = False, rs_realtime_guarantee = False\<rparr>)"
    by (rule prod_eqI) (simp_all add: p r)
  from realtime_setup_all_or_nothing [OF u this] show ?thesis using m by (simp add: p)
qed

end
