(* ===== verification/Topology_Props.thy ===== *)
theory Topology_Props
  imports Topology "HOL-Library.Multiset"
begin

text \<open>
  What the compiler of the physical topology guarantees: every sensor and actuator of the profile is bound exactly
  once, to the transport its own entry asks for, in a slot nothing else uses.
\<close>

section \<open>Roles\<close>

text \<open>A role is one profile entry (a sensor or not, and its index) with the transport and the slot it was given.\<close>

type_synonym role = "bool \<times> nat \<times> nat \<times> nat"

definition roles :: "device_binding \<Rightarrow> role list" where
  "roles d =
     (case db_sensor_profile_index d of Some i \<Rightarrow> [(True, i, db_transport_index d, db_receive_slot d)] | None \<Rightarrow> [])
     @ (case db_actuator_profile_index d of Some i \<Rightarrow> [(False, i, db_transport_index d, db_transmit_slot d)] | None \<Rightarrow> [])"

definition all_roles :: "compiled_topology \<Rightarrow> role multiset" where
  "all_roles t = mset (concat (map roles (ct_devices t)))"

abbreviation role_entry :: "role \<Rightarrow> bool \<times> nat" where "role_entry r \<equiv> (fst r, fst (snd r))"
abbreviation role_place :: "role \<Rightarrow> nat \<times> nat" where "role_place r \<equiv> snd (snd r)"

lemma all_roles_push: "all_roles (cs_topology (push_binding c b)) = all_roles (cs_topology c) + mset (roles b)"
  by (simp add: all_roles_def push_binding_def)

lemma mset_concat_update:
  assumes "i < length xs" "mset (f y) = mset (f (xs ! i)) + extra"
  shows "mset (concat (map f (xs[i := y]))) = mset (concat (map f xs)) + extra"
proof -
  have "xs[i := y] = take i xs @ y # drop (Suc i) xs" using assms(1) by (rule upd_conv_take_nth_drop)
  moreover have "mset (concat (map f xs)) = mset (concat (map f (take i xs))) + (mset (f (xs ! i)) + mset (concat (map f (drop (Suc i) xs))))"
    using arg_cong [OF id_take_nth_drop [OF assms(1)], of "\<lambda>z. mset (concat (map f z))"] by simp
  ultimately show ?thesis using assms(2) by (simp add: ac_simps)
qed

lemma all_roles_update:
  assumes "i < length (ct_devices (cs_topology c))" "mset (roles (f (ct_devices (cs_topology c) ! i))) = mset (roles (ct_devices (cs_topology c) ! i)) + extra"
  shows "all_roles (cs_topology (update_binding c i f)) = all_roles (cs_topology c) + extra"
  using mset_concat_update [OF assms] by (simp add: all_roles_def update_binding_def)

section \<open>The invariant\<close>

definition tables_ok :: "compile_state \<Rightarrow> bool" where
  "tables_ok c \<longleftrightarrow>
     length (cs_next_slots c) = length (ct_transports (cs_topology c))
     \<and> (\<forall>k x. cs_transport_indices c k = Some x \<longleftrightarrow> x < length (ct_transports (cs_topology c)) \<and> ct_transports (cs_topology c) ! x = k)"

text \<open>\<open>K\<close> gives the transport of each physical identity.  Identities the compiler makes unique have more line breaks
  than those of devices.\<close>

definition identities_ok :: "(string \<Rightarrow> transport_key) \<Rightarrow> compile_state \<Rightarrow> bool" where
  "identities_ok K c \<longleftrightarrow>
     (\<forall>i b. cs_identities c i = Some b \<longrightarrow> b < length (ct_devices (cs_topology c))
        \<and> (count_list i (CHR 0x0A) \<le> 2 \<longrightarrow> ct_transports (cs_topology c) ! db_transport_index (ct_devices (cs_topology c) ! b) = K i))
     \<and> (\<forall>d \<in> set (ct_devices (cs_topology c)). db_transport_index d < length (ct_transports (cs_topology c)))"

definition given_ok :: "(bool \<Rightarrow> nat \<Rightarrow> device_config) \<Rightarrow> role list \<Rightarrow> compile_state \<Rightarrow> bool" where
  "given_ok entry given c \<longleftrightarrow>
     all_roles (cs_topology c) = mset given \<and> distinct (map role_place given)
     \<and> (\<forall>(s, i, t, slot) \<in> set given. t < length (ct_transports (cs_topology c)) \<and> slot < cs_next_slots c ! t
          \<and> device_key (entry s i) = success (ct_transports (cs_topology c) ! t))"

definition compile_ok :: "(string \<Rightarrow> transport_key) \<Rightarrow> (bool \<Rightarrow> nat \<Rightarrow> device_config) \<Rightarrow> role list \<Rightarrow> compile_state \<Rightarrow> bool" where
  "compile_ok K entry given c \<longleftrightarrow> tables_ok c \<and> identities_ok K c \<and> given_ok entry given c"

lemma tables_distinct: "tables_ok c \<Longrightarrow> distinct (ct_transports (cs_topology c))"
  unfolding distinct_conv_nth tables_ok_def by (metis option.inject)

lemma place_device_ok:
  assumes ok: "compile_ok K entry given c" and p: "place_device c key = (c1, t, slot)"
  shows "tables_ok c1" "identities_ok K c1" "ct_devices (cs_topology c1) = ct_devices (cs_topology c)" "cs_identities c1 = cs_identities c"
    "t < length (ct_transports (cs_topology c1))" "ct_transports (cs_topology c1) ! t = key" "slot < cs_next_slots c1 ! t"
    "\<forall>(s, i, t', slot') \<in> set given. t' < length (ct_transports (cs_topology c1)) \<and> slot' < cs_next_slots c1 ! t' \<and> (t', slot') \<noteq> (t, slot)
       \<and> device_key (entry s i) = success (ct_transports (cs_topology c1) ! t')"
proof -
  let ?ts = "ct_transports (cs_topology c)"
  have tb: "length (cs_next_slots c) = length ?ts" "\<And>k x. cs_transport_indices c k = Some x \<longleftrightarrow> x < length ?ts \<and> ?ts ! x = k"
    using ok unfolding compile_ok_def tables_ok_def by blast+
  have lg: "\<And>s i t' slot'. (s, i, t', slot') \<in> set given \<Longrightarrow> t' < length ?ts \<and> slot' < cs_next_slots c ! t' \<and> device_key (entry s i) = success (?ts ! t')"
    using ok by (auto simp: compile_ok_def given_ok_def)
  have id: "identities_ok K c" using ok by (simp add: compile_ok_def)
  consider (new) "cs_transport_indices c key = None" | (old) x where "cs_transport_indices c key = Some x" by blast
  then have "tables_ok c1 \<and> identities_ok K c1 \<and> ct_devices (cs_topology c1) = ct_devices (cs_topology c) \<and> cs_identities c1 = cs_identities c
    \<and> t < length (ct_transports (cs_topology c1)) \<and> ct_transports (cs_topology c1) ! t = key \<and> slot < cs_next_slots c1 ! t
    \<and> (\<forall>(s, i, t', slot') \<in> set given. t' < length (ct_transports (cs_topology c1)) \<and> slot' < cs_next_slots c1 ! t' \<and> (t', slot') \<noteq> (t, slot)
       \<and> device_key (entry s i) = success (ct_transports (cs_topology c1) ! t'))"
  proof cases
    case new
    have fresh: "key \<notin> set ?ts" using new tb(2) by (metis in_set_conv_nth option.distinct(1))
    have c1: "cs_topology c1 = (cs_topology c)\<lparr>ct_transports := ?ts @ [key]\<rparr>" "cs_next_slots c1 = cs_next_slots c @ [1]" "t = length ?ts" "slot = 0"
      "cs_transport_indices c1 = (cs_transport_indices c)(key \<mapsto> length ?ts)" "cs_identities c1 = cs_identities c"
      using p new tb(1) by (auto simp: place_device_def Let_def nth_append list_update_append)
    have "tables_ok c1" using tb fresh unfolding tables_ok_def c1 by (auto simp: nth_append less_Suc_eq in_set_conv_nth split: if_splits)
    moreover have "identities_ok K c1" using id unfolding identities_ok_def c1 by (auto simp: nth_append less_Suc_eq)
    ultimately show ?thesis using lg tb(1) unfolding c1 by (fastforce simp: nth_append)
  next
    case (old x)
    have x: "x < length ?ts" "?ts ! x = key" using old tb(2) by simp_all
    have c1: "c1 = c\<lparr>cs_next_slots := (cs_next_slots c)[x := cs_next_slots c ! x + 1]\<rparr>" "t = x" "slot = cs_next_slots c ! x"
      using p old by (auto simp: place_device_def Let_def)
    have "tables_ok c1" using tb unfolding tables_ok_def c1 by simp
    moreover have "identities_ok K c1" using id unfolding identities_ok_def c1 by simp
    ultimately show ?thesis using lg tb(1) x unfolding c1 by (fastforce simp: nth_list_update_at)
  qed
  then show "tables_ok c1" "identities_ok K c1" "ct_devices (cs_topology c1) = ct_devices (cs_topology c)" "cs_identities c1 = cs_identities c"
    "t < length (ct_transports (cs_topology c1))" "ct_transports (cs_topology c1) ! t = key" "slot < cs_next_slots c1 ! t"
    "\<forall>(s, i, t', slot') \<in> set given. t' < length (ct_transports (cs_topology c1)) \<and> slot' < cs_next_slots c1 ! t' \<and> (t', slot') \<noteq> (t, slot)
       \<and> device_key (entry s i) = success (ct_transports (cs_topology c1) ! t')"
    by blast+
qed

section \<open>Binding\<close>

lemma identities_push:
  assumes "identities_ok K c" "db_transport_index b < length (ct_transports (cs_topology c))"
    "\<forall>i x. ids i = Some x \<longrightarrow> cs_identities c i = Some x \<or> x = length (ct_devices (cs_topology c))
       \<and> (count_list i (CHR 0x0A) \<le> 2 \<longrightarrow> ct_transports (cs_topology c) ! db_transport_index b = K i)"
  shows "identities_ok K (push_binding (c\<lparr>cs_identities := ids\<rparr>) b)"
  using assms unfolding identities_ok_def push_binding_def by (fastforce simp: nth_append less_Suc_eq)

lemma identities_update:
  assumes "identities_ok K c" "\<And>d. db_transport_index (f d) = db_transport_index d"
  shows "identities_ok K (update_binding c i f)"
proof -
  have "db_transport_index ((ct_devices (cs_topology c))[i := f (ct_devices (cs_topology c) ! i)] ! b) = db_transport_index (ct_devices (cs_topology c) ! b)"
    if "b < length (ct_devices (cs_topology c))" for b
    using assms(2) that by (simp add: nth_list_update_at)
  then show ?thesis using assms(1) unfolding identities_ok_def update_binding_def
    by (auto simp: in_set_conv_nth all_set_conv_all_nth)
qed

lemma emplace_Some: "emplace m k v i = Some x \<Longrightarrow> m i = Some x \<or> i = k \<and> x = v"
  by (auto simp: emplace_def split: option.splits if_splits)

lemma bind_frame [simp]:
  "cs_next_slots (bind_sensor c i n t s) = cs_next_slots c" "cs_transport_indices (bind_sensor c i n t s) = cs_transport_indices c"
  "ct_transports (cs_topology (bind_sensor c i n t s)) = ct_transports (cs_topology c)"
  "cs_next_slots (bind_actuator c i n t s) = cs_next_slots c" "cs_transport_indices (bind_actuator c i n t s) = cs_transport_indices c"
  "ct_transports (cs_topology (bind_actuator c i n t s)) = ct_transports (cs_topology c)"
  by (simp_all add: bind_sensor_def bind_actuator_def push_binding_def update_binding_def Let_def split: option.split)

text \<open>Line breaks of unique identities.\<close>

lemma unique_breaks:
  "1 \<le> count_list identity (CHR 0x0A) \<Longrightarrow> \<not> count_list (identity @ [CHR 0x0A] @ ''sensor'' @ [CHR 0x0A] @ x) (CHR 0x0A) \<le> 2"
  "1 \<le> count_list identity (CHR 0x0A) \<Longrightarrow> \<not> count_list (identity @ [CHR 0x0A] @ ''actuator'' @ [CHR 0x0A] @ x) (CHR 0x0A) \<le> 2"
  by simp_all

lemma bind_ok:
  assumes id: "identities_ok K c" and tb: "tables_ok c" and t: "t < length (ct_transports (cs_topology c))"
    "ct_transports (cs_topology c) ! t = K identity" and nl: "1 \<le> count_list identity (CHR 0x0A)" "count_list identity (CHR 0x0A) \<le> 2"
  shows "identities_ok K (bind_sensor c identity index t slot) \<and> all_roles (cs_topology (bind_sensor c identity index t slot)) = all_roles (cs_topology c) + {#(True, index, t, slot)#}"
    "identities_ok K (bind_actuator c identity index t slot) \<and> all_roles (cs_topology (bind_actuator c identity index t slot)) = all_roles (cs_topology c) + {#(False, index, t, slot)#}"
proof -
  let ?ds = "ct_devices (cs_topology c)" and ?ts = "ct_transports (cs_topology c)"
  have same: "db_transport_index (?ds ! b) = t" "b < length ?ds" if "cs_identities c identity = Some b" for b
  proof -
    show l: "b < length ?ds" using id that by (auto simp: identities_ok_def)
    have "?ts ! db_transport_index (?ds ! b) = ?ts ! t" "db_transport_index (?ds ! b) < length ?ts"
      using id that nl(2) t l by (auto simp: identities_ok_def)
    then show "db_transport_index (?ds ! b) = t" using tables_distinct [OF tb] t(1) by (simp add: nth_eq_iff_index_eq)
  qed
  have roles_fresh: "all_roles (cs_topology (c\<lparr>cs_identities := ids\<rparr>)) = all_roles (cs_topology c)" for ids by simp
  show "identities_ok K (bind_sensor c identity index t slot) \<and> all_roles (cs_topology (bind_sensor c identity index t slot)) = all_roles (cs_topology c) + {#(True, index, t, slot)#}"
  proof (cases "\<exists>b. cs_identities c identity = Some b \<and> db_sensor_profile_index (?ds ! b) = None")
    case True
    then obtain b where b: "cs_identities c identity = Some b" "db_sensor_profile_index (?ds ! b) = None" by blast
    have "mset (roles ((?ds ! b)\<lparr>db_sensor_profile_index := Some index, db_receive_slot := slot\<rparr>)) = mset (roles (?ds ! b)) + {#(True, index, t, slot)#}"
      using b(2) same(1) [OF b(1)] by (simp add: roles_def split: option.split)
    from all_roles_update [where f = "\<lambda>d. d\<lparr>db_sensor_profile_index := Some index, db_receive_slot := slot\<rparr>", OF same(2) [OF b(1)] this]
    show ?thesis using b identities_update [OF id] by (simp add: bind_sensor_def Let_def)
  next
    case False
    then show ?thesis using id t nl unique_breaks(1) [OF nl(1)]
      by (auto simp: bind_sensor_def Let_def all_roles_push roles_def not_le split: option.split intro!: identities_push dest!: emplace_Some)
  qed
  show "identities_ok K (bind_actuator c identity index t slot) \<and> all_roles (cs_topology (bind_actuator c identity index t slot)) = all_roles (cs_topology c) + {#(False, index, t, slot)#}"
  proof (cases "\<exists>b. cs_identities c identity = Some b \<and> db_actuator_profile_index (?ds ! b) = None")
    case True
    then obtain b where b: "cs_identities c identity = Some b" "db_actuator_profile_index (?ds ! b) = None" by blast
    have "mset (roles ((?ds ! b)\<lparr>db_actuator_profile_index := Some index, db_transmit_slot := slot\<rparr>)) = mset (roles (?ds ! b)) + {#(False, index, t, slot)#}"
      using b(2) same(1) [OF b(1)] by (simp add: roles_def split: option.split)
    from all_roles_update [where f = "\<lambda>d. d\<lparr>db_actuator_profile_index := Some index, db_transmit_slot := slot\<rparr>", OF same(2) [OF b(1)] this]
    show ?thesis using b identities_update [OF id] by (simp add: bind_actuator_def Let_def)
  next
    case False
    then show ?thesis using id t nl unique_breaks(2) [OF nl(1)]
      by (auto simp: bind_actuator_def Let_def all_roles_push roles_def not_le split: option.split intro!: identities_push dest!: emplace_Some)
  qed
qed

section \<open>Compiling\<close>

definition plain_device :: "device_config \<Rightarrow> bool" where
  "plain_device d \<longleftrightarrow> CHR 0x0A \<notin> set (dv_path d) \<and> (case dv_args d ''motor_id'' of None \<Rightarrow> True | Some m \<Rightarrow> CHR 0x0A \<notin> set m)"

lemma identity_breaks:
  assumes "plain_device d" "device_key d = success k"
  shows "1 \<le> count_list (physical_identity d) (CHR 0x0A) \<and> count_list (physical_identity d) (CHR 0x0A) \<le> 2"
proof -
  have "dv_type d \<in> {''cia402'', ''st3215'', ''damiao_motor''}"
    using assms(2) by (auto simp: device_key_def transport_kind_of_def Let_def failure_def split: if_splits)
  then have "count_list (dv_type d) (CHR 0x0A) = 0" by auto
  then show ?thesis using assms(1) by (auto simp: plain_device_def physical_identity_def split: option.splits)
qed

lemma append_device_ok:
  assumes ok: "compile_ok K entry given c" and plain: "plain_device d" and key: "device_key d = success (K (physical_identity d))"
    and e: "entry sensor index = d" and p: "place_device c (K (physical_identity d)) = (c1, t, slot)"
  shows "compile_ok K entry (given @ [(sensor, index, t, slot)])
    (if sensor then bind_sensor c1 (physical_identity d) index t slot else bind_actuator c1 (physical_identity d) index t slot)"
proof -
  note pl = place_device_ok [OF ok p]
  have nl: "1 \<le> count_list (physical_identity d) (CHR 0x0A)" "count_list (physical_identity d) (CHR 0x0A) \<le> 2"
    using identity_breaks [OF plain key] by simp_all
  note b = bind_ok [OF pl(2) pl(1) pl(5) pl(6) nl, of index slot]
  let ?c = "if sensor then bind_sensor c1 (physical_identity d) index t slot else bind_actuator c1 (physical_identity d) index t slot"
  have fr: "cs_next_slots ?c = cs_next_slots c1" "ct_transports (cs_topology ?c) = ct_transports (cs_topology c1)"
    "cs_transport_indices ?c = cs_transport_indices c1" by simp_all
  have "all_roles (cs_topology c1) = all_roles (cs_topology c)" using pl(3) by (simp add: all_roles_def)
  then have r: "all_roles (cs_topology ?c) = mset (given @ [(sensor, index, t, slot)])"
    using b ok by (simp add: compile_ok_def given_ok_def)
  have "(t, slot) \<notin> role_place ` set given" using pl(8) by fastforce
  then have di: "distinct (map role_place (given @ [(sensor, index, t, slot)]))" using ok by (simp add: compile_ok_def given_ok_def)
  have "tables_ok ?c" using pl(1) fr unfolding tables_ok_def by simp
  moreover have "identities_ok K ?c" using b by simp
  moreover have "given_ok entry (given @ [(sensor, index, t, slot)]) ?c"
    unfolding given_ok_def fr using r di pl(5-8) key e by auto
  ultimately show ?thesis by (simp add: compile_ok_def)
qed

lemma append_devices_ok:
  assumes "compile_ok K entry given c" "append_devices devices index sensor c = success c'"
    "\<forall>j < length devices. entry sensor (index + j) = devices ! j"
    "\<forall>d \<in> set devices. plain_device d \<and> (\<forall>k. device_key d = success k \<longrightarrow> k = K (physical_identity d))"
  shows "\<exists>new. compile_ok K entry (given @ new) c' \<and> map role_entry new = map (Pair sensor) [index..<index + length devices]"
  using assms
proof (induction devices arbitrary: index c given)
  case Nil
  then show ?case by auto
next
  case (Cons d devices)
  obtain k where k: "device_key d = success k" using Cons.prems(2) by (cases "device_key d" rule: result_cases) (auto simp: success_def failure_def)
  then have key: "device_key d = success (K (physical_identity d))" and pl: "plain_device d" using Cons.prems(4) by (metis list.set_intros(1))+
  obtain c1 t slot where p: "place_device c (K (physical_identity d)) = (c1, t, slot)" by (metis prod_cases3)
  let ?c = "if sensor then bind_sensor c1 (physical_identity d) index t slot else bind_actuator c1 (physical_identity d) index t slot"
  have e: "entry sensor index = d" using Cons.prems(3) by force
  have ok: "compile_ok K entry (given @ [(sensor, index, t, slot)]) ?c"
    by (rule append_device_ok [OF Cons.prems(1) pl key e p])
  have a: "append_devices devices (index + 1) sensor ?c = success c'" using Cons.prems(2) key p by (simp add: Let_def success_def)
  have n: "\<forall>j < length devices. entry sensor (index + 1 + j) = devices ! j" using Cons.prems(3) by force
  from Cons.IH [OF ok a n] Cons.prems(4) obtain new where
    new: "compile_ok K entry ((given @ [(sensor, index, t, slot)]) @ new) c'" "map role_entry new = map (Pair sensor) [index + 1..<index + 1 + length devices]"
    by auto
  have "map role_entry ((sensor, index, t, slot) # new) = map (Pair sensor) [index..<index + length (d # devices)]"
    using new(2) by (simp add: upt_conv_Cons del: upt_Suc)
  then show ?case using new(1) by (intro exI [of _ "(sensor, index, t, slot) # new"]) simp
qed

definition profile_entry :: "device_config list \<Rightarrow> device_config list \<Rightarrow> bool \<Rightarrow> nat \<Rightarrow> device_config" where
  "profile_entry sensors actuators sensor i = (if sensor then sensors ! i else actuators ! i)"

text \<open>Entries that describe the same physical device name the same transport.\<close>

definition consistent_devices :: "device_config list \<Rightarrow> bool" where
  "consistent_devices ds \<longleftrightarrow> (\<forall>d \<in> set ds. plain_device d \<and> (\<forall>d' \<in> set ds. physical_identity d = physical_identity d' \<longrightarrow> device_key d = device_key d'))"

lemma compile_roles:
  assumes t: "compile_physical_topology sensors actuators = success t" and cons: "consistent_devices (sensors @ actuators)"
  shows "\<exists>given. all_roles t = mset given \<and> distinct (map role_place given) \<and> distinct (ct_transports t)
     \<and> map role_entry given = map (Pair True) [0..<length sensors] @ map (Pair False) [0..<length actuators]
     \<and> (\<forall>(s, i, x, slot) \<in> set given. x < length (ct_transports t) \<and> device_key (profile_entry sensors actuators s i) = success (ct_transports t ! x))"
proof -
  let ?e = "profile_entry sensors actuators" and ?all = "set (sensors @ actuators)"
  define K where "K i = (SOME k. \<exists>d \<in> ?all. physical_identity d = i \<and> device_key d = success k)" for i
  have K: "plain_device d \<and> (\<forall>k. device_key d = success k \<longrightarrow> k = K (physical_identity d))" if d: "d \<in> ?all" for d
  proof (intro conjI allI impI)
    show "plain_device d" using cons d by (simp add: consistent_devices_def)
    fix k assume k: "device_key d = success k"
    then have "\<exists>k. \<exists>d' \<in> ?all. physical_identity d' = physical_identity d \<and> device_key d' = success k" using d by blast
    then have "\<exists>d' \<in> ?all. physical_identity d' = physical_identity d \<and> device_key d' = success (K (physical_identity d))"
      unfolding K_def by (rule someI_ex)
    then obtain d' where "d' \<in> ?all" "physical_identity d' = physical_identity d" "device_key d' = success (K (physical_identity d))" by blast
    moreover from this have "device_key d' = device_key d" using cons d unfolding consistent_devices_def by metis
    ultimately show "k = K (physical_identity d)" using k by simp
  qed
  obtain c1 where c1: "append_devices sensors 0 True initial_compile = success c1"
    using t unfolding compile_physical_topology_def by (cases "append_devices sensors 0 True initial_compile" rule: result_cases) (auto simp: failure_def success_def)
  obtain c2 where c2: "append_devices actuators 0 False c1 = success c2" "t = cs_topology c2"
    using t c1 unfolding compile_physical_topology_def by (cases "append_devices actuators 0 False c1" rule: result_cases) (auto simp: failure_def success_def)
  have "compile_ok K ?e [] initial_compile"
    by (simp add: compile_ok_def initial_compile_def tables_ok_def identities_ok_def given_ok_def all_roles_def)
  from append_devices_ok [OF this c1] K obtain g1 where g1: "compile_ok K ?e ([] @ g1) c1" "map role_entry g1 = map (Pair True) [0..<0 + length sensors]"
    by (auto simp: profile_entry_def)
  from append_devices_ok [OF g1(1) c2(1)] K obtain g2 where g2: "compile_ok K ?e (([] @ g1) @ g2) c2" "map role_entry g2 = map (Pair False) [0..<0 + length actuators]"
    by (auto simp: profile_entry_def)
  have "tables_ok c2" "given_ok ?e (g1 @ g2) c2" using g2(1) by (simp_all add: compile_ok_def)
  moreover from this(2) have "\<forall>(s, i, x, slot) \<in> set (g1 @ g2). x < length (ct_transports t) \<and> device_key (?e s i) = success (ct_transports t ! x)"
    unfolding given_ok_def c2(2) by fast
  ultimately show ?thesis using g1(2) g2(2) tables_distinct [of c2] unfolding c2(2)
    by (intro exI [of _ "g1 @ g2"]) (simp add: given_ok_def)
qed

text \<open>Claim C38.
  A compiled topology routes every device.  Assume that entries for the same physical device, that is with the same type, path
  and motor identifier, name the same transport, and that no path or motor identifier holds a line break; without the first
  condition \<open>inconsistent_devices_mixed\<close> below is a counterexample.  Then, when the compilation succeeds, there is one role for
  each sensor and each actuator of the profile, the bindings hold exactly these roles, the transports are pairwise distinct,
  no two roles share a slot of a transport, and the transport of a role is the one its own profile entry names (its kind and
  its normalised path).\<close>

theorem topology_routes_devices:
  assumes "compile_physical_topology sensors actuators = success t" "consistent_devices (sensors @ actuators)"
  shows "\<exists>given. all_roles t = mset given \<and> distinct (map role_place given) \<and> distinct (ct_transports t)
     \<and> map role_entry given = map (Pair True) [0..<length sensors] @ map (Pair False) [0..<length actuators]
     \<and> (\<forall>(s, i, x, slot) \<in> set given. x < length (ct_transports t) \<and> device_key (profile_entry sensors actuators s i) = success (ct_transports t ! x))"
  by (rule compile_roles [OF assms])

definition damiao_device :: "string \<Rightarrow> string \<Rightarrow> string \<Rightarrow> device_config" where
  "damiao_device path motor via = \<lparr>dv_name = ''j'' @ motor, dv_type = ''damiao_motor'', dv_path = path,
     dv_args = [''motor_id'' \<mapsto> motor, ''transport'' \<mapsto> via]\<rparr>"

definition servo_device :: "string \<Rightarrow> device_config" where
  "servo_device path = \<lparr>dv_name = ''gripper'', dv_type = ''st3215'', dv_path = path, dv_args = Map.empty\<rparr>"

definition sample_sensors :: "device_config list" where
  "sample_sensors = [damiao_device ''can0'' ''1'' ''socketcan'', damiao_device ''can0'' ''2'' ''socketcan'', servo_device ''/dev/x/../ttyUSB0'']"

definition sample_actuators :: "device_config list" where
  "sample_actuators = [damiao_device ''can0'' ''2'' ''socketcan'', servo_device ''/dev/ttyUSB0'']"

lemma sample_consistent: "consistent_devices (sample_sensors @ sample_actuators)"
  by code_simp

definition sample_topology :: compiled_topology where
  "sample_topology = \<lparr>ct_transports = [(socketcan_kind, ''can0''), (serial, ''/dev/ttyUSB0'')],
     ct_devices =
      [\<lparr>db_sensor_profile_index = Some 0, db_actuator_profile_index = None, db_transport_index = 0, db_receive_slot = 0, db_transmit_slot = 0\<rparr>,
       \<lparr>db_sensor_profile_index = Some 1, db_actuator_profile_index = Some 0, db_transport_index = 0, db_receive_slot = 1, db_transmit_slot = 2\<rparr>,
       \<lparr>db_sensor_profile_index = Some 2, db_actuator_profile_index = None, db_transport_index = 1, db_receive_slot = 0, db_transmit_slot = 0\<rparr>,
       \<lparr>db_sensor_profile_index = None, db_actuator_profile_index = Some 1, db_transport_index = 1, db_receive_slot = 1, db_transmit_slot = 1\<rparr>]\<rparr>"

theorem topology_routes_devices_witness:
  "\<exists>given. all_roles sample_topology = mset given \<and> distinct (map role_place given) \<and> length given = 5"
proof -
  have "compile_physical_topology sample_sensors sample_actuators = success sample_topology" by code_simp
  from topology_routes_devices [OF this sample_consistent] obtain given where
    g: "all_roles sample_topology = mset given" "distinct (map role_place given)"
    "map role_entry given = map (Pair True) [0..<length sample_sensors] @ map (Pair False) [0..<length sample_actuators]" by blast
  from arg_cong [OF g(3), of length] have "length given = 5" by (simp add: sample_sensors_def sample_actuators_def)
  then show ?thesis using g by blast
qed

text \<open>Without that agreement the compiler mixes transports: an actuator on a serial adapter is bound to the SocketCAN
  transport of a sensor with the same path and motor, with the slot it was given on the other transport.\<close>

lemma inconsistent_devices_mixed:
  "compile_physical_topology [damiao_device ''can0'' ''1'' ''socketcan''] [damiao_device ''can0'' ''1'' ''usb_can''] =
   success \<lparr>ct_transports = [(socketcan_kind, ''can0''), (usb_can, ''can0'')],
     ct_devices = [\<lparr>db_sensor_profile_index = Some 0, db_actuator_profile_index = Some 0, db_transport_index = 0, db_receive_slot = 0,
       db_transmit_slot = 0\<rparr>]\<rparr>"
  by code_simp

end
