(* ===== verification/Damiao_Props.thy ===== *)
theory Damiao_Props
  imports Damiao
begin

text \<open>
  The Damiao codec: the packed fields are recovered, encoding is monotone, stays in its code range and is exact at the
  limits, and whatever frame a motor sends, the decoded feedback lies within the configured limits.
\<close>

section \<open>Packing\<close>

definition mit_fields :: "bytes \<Rightarrow> u16 \<times> u16 \<times> u16 \<times> u16 \<times> u16" where
  "mit_fields b =
     (push_bit 8 (ucast (b ! 0)) OR ucast (b ! 1), push_bit 4 (ucast (b ! 2)) OR drop_bit 4 (ucast (b ! 3)),
      push_bit 8 (ucast (b ! 3) AND 0x0F) OR ucast (b ! 4), push_bit 4 (ucast (b ! 5)) OR drop_bit 4 (ucast (b ! 6)),
      push_bit 8 (ucast (b ! 6) AND 0x0F) OR ucast (b ! 7))"

lemma high_bits: "unat (w :: u16) < 2 ^ n \<Longrightarrow> n \<le> k \<Longrightarrow> \<not> bit w k"
proof -
  assume "unat w < 2 ^ n" "n \<le> k"
  then have "unat w < 2 ^ k" by (meson less_le_trans one_le_numeral power_increasing)
  then have "take_bit k (unat w) = unat w" by (simp add: take_bit_nat_eq_self)
  then have "\<not> bit (unat w) k" by (metis bit_take_bit_iff less_irrefl)
  then show ?thesis by (simp add: bit_unsigned_iff)
qed

lemma low_masks: "(0x0F :: u16) = mask 4" "(0xFF :: u16) = mask 8"
  by (simp_all add: mask_eq_exp_minus_1)

lemma split_16: "push_bit 8 (ucast (ucast (drop_bit 8 p) :: u8)) OR ucast (ucast (p AND 0xFF) :: u8) = (p :: u16)"
proof (unfold low_masks, intro bit_word_eqI)
  fix k assume "k < LENGTH(16)"
  then show "bit (push_bit 8 (ucast (ucast (drop_bit 8 p) :: u8)) OR ucast (ucast (p AND mask 8) :: u8) :: u16) k = bit p k"
    by (cases "k < 8") (auto simp: bit_simps)
qed

lemma split_12:
  assumes v: "unat (v :: u16) < 2 ^ 12" and w: "unat (w :: u16) < 2 ^ 12"
  shows "push_bit 4 (ucast (ucast (drop_bit 4 v) :: u8)) OR drop_bit 4 (ucast (ucast (push_bit 4 (v AND 0x0F) OR drop_bit 8 w) :: u8)) = v"
    "push_bit 8 (ucast (ucast (push_bit 4 (v AND 0x0F) OR drop_bit 8 w) :: u8) AND 0x0F) OR ucast (ucast (w AND 0xFF) :: u8) = w"
proof -
  have hv: "\<not> bit v k" if "12 \<le> k" for k using high_bits [OF v that] .
  have hw: "\<not> bit w k" if "12 \<le> k" for k using high_bits [OF w that] .
  show "push_bit 4 (ucast (ucast (drop_bit 4 v) :: u8)) OR drop_bit 4 (ucast (ucast (push_bit 4 (v AND 0x0F) OR drop_bit 8 w) :: u8)) = v"
  proof (unfold low_masks, intro bit_word_eqI)
    fix k assume k: "k < LENGTH(16)"
    show "bit (push_bit 4 (ucast (ucast (drop_bit 4 v) :: u8)) OR drop_bit 4 (ucast (ucast (push_bit 4 (v AND mask 4) OR drop_bit 8 w) :: u8)) :: u16) k = bit v k"
      using hv [of k] hw [of "12 + k"] k by (cases "k < 4"; cases "k < 12") (auto simp: bit_simps)
  qed
  show "push_bit 8 (ucast (ucast (push_bit 4 (v AND 0x0F) OR drop_bit 8 w) :: u8) AND 0x0F) OR ucast (ucast (w AND 0xFF) :: u8) = w"
  proof (unfold low_masks, intro bit_word_eqI)
    fix k assume k: "k < LENGTH(16)"
    show "bit (push_bit 8 (ucast (ucast (push_bit 4 (v AND mask 4) OR drop_bit 8 w) :: u8) AND mask 4) OR ucast (ucast (w AND mask 8) :: u8) :: u16) k = bit w k"
      using hw [of k] k by (cases "k < 8"; cases "k < 12") (auto simp: bit_simps)
  qed
qed

lemma mit_fields_pack:
  assumes "unat v < 2 ^ 12" "unat kp < 2 ^ 12" "unat kd < 2 ^ 12" "unat t < 2 ^ 12"
  shows "mit_fields (pack_mit p v kp kd t) = (p, v, kp, kd, t)"
  using split_16 [of p] split_12 [OF assms(1,2)] split_12 [OF assms(3,4)] by (simp add: mit_fields_def pack_mit_def)

section \<open>Ranges\<close>

text \<open>A limit is a positive \<open>float\<close> whose double does not overflow.\<close>

definition limit_ok :: "fp \<Rightarrow> bool" where
  "limit_ok l \<longleftrightarrow> (\<exists>x. l = Fin x \<and> 0 < x \<and> representable f32 x \<and> x < 2 powi 127)"

lemma representable_double:
  assumes "representable f32 x" "\<bar>x\<bar> < 2 powi 127"
  shows "representable f32 (2 * x)"
proof -
  obtain m e where m: "x = of_int m * 2 powi e" "\<bar>m\<bar> < 2 ^ prec f32" "emin f32 \<le> e" using assms(1) by (auto simp: representable_def)
  have "2 * x = of_int m * 2 powi (e + 1)" using m(1) by (simp add: powi_Suc)
  moreover have "\<bar>2 * x\<bar> < 2 powi emax f32" using assms(2) powi_Suc [of 127] by (simp add: f32_def abs_mult)
  ultimately show ?thesis using m(2,3) unfolding representable_def by (metis add_increasing2 zero_le_one)
qed

lemma representable_neg: "representable F x \<Longrightarrow> representable F (- x)"
proof -
  assume "representable F x"
  then obtain m e where "x = of_int m * 2 powi e" "\<bar>m\<bar> < 2 ^ prec F" "emin F \<le> e" "\<bar>x\<bar> < 2 powi emax F"
    unfolding representable_def by blast
  then show ?thesis unfolding representable_def by (intro conjI exI [of _ "- m"] exI [of _ e]) simp_all
qed

text \<open>A code range \<open>[lo, hi]\<close>: both ends and its width are representable.\<close>

definition code_range :: "rat \<Rightarrow> rat \<Rightarrow> bool" where
  "code_range lo hi \<longleftrightarrow> lo < hi \<and> representable f32 lo \<and> representable f32 hi \<and> representable f32 (hi - lo)"

lemma limit_range: "limit_ok l \<Longrightarrow> \<exists>x. l = Fin x \<and> fneg l = Fin (- x) \<and> code_range (- x) x"
  unfolding limit_ok_def code_range_def
  using representable_double by (auto simp: representable_neg abs_of_pos simp del: power_int_numeral)

lemma small_int: "\<bar>n\<bar> < 2 ^ 24 \<Longrightarrow> representable f32 (of_int n)"
  by (rule representable_int) (simp_all add: f32_def)

lemma gain_range: "code_range 0 500" "code_range 0 5"
  using small_int [of 0] small_int [of 500] small_int [of 5] by (simp_all add: code_range_def)

lemma code_value: "k < 2 ^ 24 \<Longrightarrow> fround f32 (of_nat k) = Fin (of_nat k) \<and> representable f32 (of_nat k)"
  using small_int [of "int k"] by (simp add: fround_representable)

text \<open>The scaled value before it is rounded to a code.\<close>

definition scaled_value :: "rat \<Rightarrow> rat \<Rightarrow> nat \<Rightarrow> rat \<Rightarrow> rat" where
  "scaled_value lo hi m x = rval f32 (rval f32 (rval f32 (x - lo) / (hi - lo)) * of_nat m)"

lemma round_in: "representable f32 a \<Longrightarrow> representable f32 b \<Longrightarrow> a \<le> x \<Longrightarrow> x \<le> b \<Longrightarrow> fround f32 x = Fin (rval f32 x) \<and> a \<le> rval f32 x \<and> rval f32 x \<le> b"
  using fround_between [of f32 a b x] by (auto dest: fround_finite)

lemma clamp_code_scaled:
  assumes r: "code_range lo hi" and x: "lo \<le> x" "x \<le> hi" and m: "m < 2 ^ 24"
  shows "clamp_code u (Fin x) (Fin lo) (Fin hi) m = of_int (round_away (scaled_value lo hi m x))" "0 \<le> scaled_value lo hi m x" "scaled_value lo hi m x \<le> of_nat m"
proof -
  have d: "0 < hi - lo" "representable f32 (hi - lo)" using r by (auto simp: code_range_def)
  have z: "representable f32 0" "representable f32 1" using small_int [of 0] small_int [of 1] by simp_all
  have a: "fround f32 (x - lo) = Fin (rval f32 (x - lo)) \<and> 0 \<le> rval f32 (x - lo) \<and> rval f32 (x - lo) \<le> hi - lo"
    using x d z by (intro round_in) auto
  let ?q = "rval f32 (x - lo) / (hi - lo)"
  have q: "0 \<le> ?q" "?q \<le> 1" using a d by (simp_all add: divide_le_eq)
  have b: "fround f32 ?q = Fin (rval f32 ?q) \<and> 0 \<le> rval f32 ?q \<and> rval f32 ?q \<le> 1" using z q by (intro round_in) auto
  have w: "fsub f32 (Fin hi) (Fin lo) = Fin (hi - lo)" using d(2) by (simp add: fsub_def fround_representable)
  have c: "fround f32 (rval f32 ?q * of_nat m) = Fin (scaled_value lo hi m x) \<and> 0 \<le> scaled_value lo hi m x \<and> scaled_value lo hi m x \<le> of_nat m"
    unfolding scaled_value_def using z code_value [OF m] b by (intro round_in) (auto simp: mult_le_cancel_right1 intro: mult_left_le_one_le)
  then show "0 \<le> scaled_value lo hi m x" "scaled_value lo hi m x \<le> of_nat m" by simp_all
  show "clamp_code u (Fin x) (Fin lo) (Fin hi) m = of_int (round_away (scaled_value lo hi m x))"
    using a b c d code_value [OF m] unfolding clamp_code_def Let_def w
    by (simp add: fsub_def fdiv_def fclamp_Fin fmul_def lround_def)
qed

lemma round_away_nonneg: "0 \<le> x \<Longrightarrow> round_away x = \<lfloor>x + 1/2\<rfloor>"
  by (simp add: round_away_def)

text \<open>The code of a value in range: bounded, and monotone in the value.\<close>

lemma clamp_code_bounds:
  assumes "code_range lo hi" "lo \<le> x" "x \<le> hi" "m < 2 ^ 16"
  shows "unat (clamp_code u (Fin x) (Fin lo) (Fin hi) m) = nat (round_away (scaled_value lo hi m x))" "unat (clamp_code u (Fin x) (Fin lo) (Fin hi) m) \<le> m"
proof -
  have m: "m < 2 ^ 24" using assms(4) by simp
  note s = clamp_code_scaled(1) [OF assms(1-3) m, of u] clamp_code_scaled(2,3) [OF assms(1-3) m]
  have r: "0 \<le> round_away (scaled_value lo hi m x)" "round_away (scaled_value lo hi m x) \<le> int m"
    using s(2,3) by (simp_all add: round_away_nonneg floor_le_iff zero_le_floor)
  have "unat (of_int (round_away (scaled_value lo hi m x)) :: u16) = nat (round_away (scaled_value lo hi m x))"
    using r assms(4) by (simp add: unsigned_of_int take_bit_int_eq_self)
  then show "unat (clamp_code u (Fin x) (Fin lo) (Fin hi) m) = nat (round_away (scaled_value lo hi m x))" "unat (clamp_code u (Fin x) (Fin lo) (Fin hi) m) \<le> m"
    using s(1) r by simp_all
qed

lemma scaled_value_mono:
  assumes "code_range lo hi" "x \<le> y"
  shows "scaled_value lo hi m x \<le> scaled_value lo hi m y"
proof -
  have d: "0 < hi - lo" using assms(1) by (simp add: code_range_def)
  have "rval f32 (x - lo) \<le> rval f32 (y - lo)" using assms(2) by (intro rval_mono) auto
  then have "rval f32 (rval f32 (x - lo) / (hi - lo)) \<le> rval f32 (rval f32 (y - lo) / (hi - lo))"
    using d by (intro rval_mono) (auto simp: divide_right_mono)
  then show ?thesis unfolding scaled_value_def by (intro rval_mono) (auto intro: mult_right_mono)
qed

lemma clamp_code_mono:
  assumes "code_range lo hi" "lo \<le> x" "x \<le> y" "y \<le> hi" "m < 2 ^ 16"
  shows "clamp_code u (Fin x) (Fin lo) (Fin hi) m \<le> clamp_code u (Fin y) (Fin lo) (Fin hi) m"
proof -
  have "round_away (scaled_value lo hi m x) \<le> round_away (scaled_value lo hi m y)"
    using scaled_value_mono [OF assms(1,3), of m] clamp_code_scaled(2) [OF assms(1,2), where m = m] assms(3-5)
    by (simp add: round_away_nonneg floor_mono)
  then show ?thesis using assms by (simp add: word_le_nat_alt clamp_code_bounds nat_mono)
qed

section \<open>Decoding\<close>

lemma decode_code_range:
  assumes r: "code_range lo hi" and c: "c \<le> m" "0 < m" "m < 2 ^ 24"
  shows "\<exists>x. decode_code c m (Fin lo) (Fin hi) = Fin x \<and> lo \<le> x \<and> x \<le> hi"
proof -
  have d: "0 < hi - lo" "representable f32 (hi - lo)" "representable f32 lo" "representable f32 hi" using r by (auto simp: code_range_def)
  have z: "representable f32 0" "representable f32 1" using small_int [of 0] small_int [of 1] by simp_all
  have cv: "fround f32 (of_nat c) = Fin (of_nat c)" "fround f32 (of_nat m) = Fin (of_nat m)" using code_value [of c] code_value [of m] c by simp_all
  let ?q = "of_nat c / of_nat m :: rat"
  have q: "fround f32 ?q = Fin (rval f32 ?q) \<and> 0 \<le> rval f32 ?q \<and> rval f32 ?q \<le> 1"
    using z c by (intro round_in) (auto simp: divide_le_eq)
  have w: "fsub f32 (Fin hi) (Fin lo) = Fin (hi - lo)" using d(2) by (simp add: fsub_def fround_representable)
  let ?s = "rval f32 ?q * (hi - lo)"
  have s: "fround f32 ?s = Fin (rval f32 ?s) \<and> 0 \<le> rval f32 ?s \<and> rval f32 ?s \<le> hi - lo"
    using z d q by (intro round_in) (auto intro: mult_left_le_one_le)
  let ?x = "lo + rval f32 ?s"
  have x: "fround f32 ?x = Fin (rval f32 ?x) \<and> lo \<le> rval f32 ?x \<and> rval f32 ?x \<le> hi"
    using d s by (intro round_in) auto
  have "decode_code c m (Fin lo) (Fin hi) = Fin (rval f32 ?x)"
    using q s x c unfolding decode_code_def w cv by (simp add: fdiv_def fmul_def)
  then show ?thesis using x by blast
qed

lemma decode_limit:
  assumes "limit_ok l" "c \<le> m" "0 < m" "m < 2 ^ 24"
  shows "finite_and_in_range (decode_code c m (fneg l) l) (fneg l) l"
proof -
  obtain x where x: "l = Fin x" "fneg l = Fin (- x)" "code_range (- x) x" using limit_range [OF assms(1)] by blast
  obtain y where "decode_code c m (Fin (- x)) (Fin x) = Fin y" "- x \<le> y" "y \<le> x" using decode_code_range [OF x(3) assms(2-4)] by blast
  then show ?thesis by (simp add: x(1) finite_and_in_range_def)
qed

definition damiao_limits_ok :: "damiao_limits \<Rightarrow> bool" where
  "damiao_limits_ok l \<longleftrightarrow> limit_ok (dl_position_max l) \<and> limit_ok (dl_velocity_max l) \<and> limit_ok (dl_torque_max l)"

lemma feedback_codes:
  "unat (a :: u8) * 256 + unat (b :: u8) \<le> 0xFFFF" "unat (a :: u8) * 16 + unat (b :: u8) div 16 \<le> 0x0FFF" "unat (a :: u8) mod 16 * 256 + unat (b :: u8) \<le> 0x0FFF"
proof -
  have "unat a < 256" "unat b < 256" "unat a mod 16 < 16" using unsigned_less [of a, where ?'a = nat] unsigned_less [of b, where ?'a = nat] by simp_all
  then show "unat a * 256 + unat b \<le> 0xFFFF" "unat a * 16 + unat b div 16 \<le> 0x0FFF" "unat a mod 16 * 256 + unat b \<le> 0x0FFF" by linarith+
qed

text \<open>Claim C39.
  Decoded feedback stays within the configured limits.  Let the three limits be positive \<open>float\<close> values below
  \<open>2 ^ 127\<close>, so that the width of the range between minus and plus a limit is itself a finite \<open>float\<close>; the code does
  not check this bound.  Whatever eight bytes arrive, when the sensor of a motor decodes a frame its position, velocity and torque are finite and lie between minus and plus the configured limit, in
  \<open>float\<close> arithmetic with every rounding taken into account; the frame was addressed to this motor and the decoded motor
  and error numbers are the two halves of its first byte.\<close>

theorem damiao_feedback_in_limits:
  assumes "damiao_limits_ok (cg_limits config)" "damiao_sensor_decode config frame = success fb"
  shows "finite_and_in_range (df_position fb) (fneg (dl_position_max (cg_limits config))) (dl_position_max (cg_limits config))
     \<and> finite_and_in_range (df_velocity fb) (fneg (dl_velocity_max (cg_limits config))) (dl_velocity_max (cg_limits config))
     \<and> finite_and_in_range (df_torque fb) (fneg (dl_torque_max (cg_limits config))) (dl_torque_max (cg_limits config))
     \<and> fm_address frame = ucast (cg_motor_id config)
     \<and> unat (fm_bytes frame ! 0) = 16 * unat (df_error_code fb) + unat (df_motor_id fb)"
proof -
  let ?l = "cg_limits config" and ?b = "fm_bytes frame"
  have fb: "fb = \<lparr>df_motor_id = ?b ! 0 AND 0x0F, df_error_code = drop_bit 4 (?b ! 0),
      df_position = decode_code (unat (?b ! 1) * 256 + unat (?b ! 2)) 0xFFFF (fneg (dl_position_max ?l)) (dl_position_max ?l),
      df_velocity = decode_code (unat (?b ! 3) * 16 + unat (?b ! 4) div 16) 0x0FFF (fneg (dl_velocity_max ?l)) (dl_velocity_max ?l),
      df_torque = decode_code (unat (?b ! 4) mod 16 * 256 + unat (?b ! 5)) 0x0FFF (fneg (dl_torque_max ?l)) (dl_torque_max ?l),
      df_mos_temperature_c = sint (?b ! 6), df_rotor_temperature_c = sint (?b ! 7)\<rparr>" and a: "fm_address frame = ucast (cg_motor_id config)"
    using assms(2) by (simp_all add: damiao_sensor_decode_def decode_feedback_def damiao_sensor_accepts_def Let_def split: if_splits)
  have half: "unat (?b ! 0 AND 0x0F) = unat (?b ! 0) mod 16" "unat (drop_bit 4 (?b ! 0)) = unat (?b ! 0) div 16"
  proof -
    have m: "?b ! 0 AND 0x0F = take_bit 4 (?b ! 0)" by (simp add: take_bit_eq_mask mask_eq_exp_minus_1)
    show "unat (?b ! 0 AND 0x0F) = unat (?b ! 0) mod 16" unfolding m unsigned_take_bit_eq by (simp add: take_bit_eq_mod)
    show "unat (drop_bit 4 (?b ! 0)) = unat (?b ! 0) div 16" 
      using unsigned_less [of "?b ! 0", where ?'a = nat]
      by (simp only: unsigned_drop_bit_eq) (simp add: drop_bit_eq_div take_bit_nat_eq_self)
  qed
  have "limit_ok (dl_position_max ?l)" "limit_ok (dl_velocity_max ?l)" "limit_ok (dl_torque_max ?l)" using assms(1) by (simp_all add: damiao_limits_ok_def)
  note lim = decode_limit [OF this(1) feedback_codes(1)] decode_limit [OF this(2) feedback_codes(2)] decode_limit [OF this(3) feedback_codes(3)]
  show ?thesis using a unfolding fb by (simp add: lim half)
qed

lemma limit_ok_int: "0 < n \<Longrightarrow> n < 2 ^ 24 \<Longrightarrow> limit_ok (Fin (of_int n))"
proof -
  assume n: "0 < n" "n < 2 ^ 24"
  have "(of_int n :: rat) < of_int (2 ^ 24)" using n(2) by (simp only: of_int_less_iff)
  also have "\<dots> < 2 powi 127" by simp
  finally show ?thesis using n small_int [of n] by (simp add: limit_ok_def)
qed

definition sample_config :: damiao_config where
  "sample_config = \<lparr>cg_motor_id = 0x11, cg_limits = \<lparr>dl_position_max = Fin 12, dl_velocity_max = Fin 30, dl_torque_max = Fin 10\<rparr>\<rparr>"

definition sample_frame :: device_frame where
  "sample_frame = empty_frame\<lparr>fm_address := 0x11, fm_size := 8, fm_bytes := [0x21, 0xFF, 0xFF, 0x7F, 0xF0, 0x01, 25, 31] @ replicate 248 0\<rparr>"

theorem damiao_feedback_in_limits_witness:
  "\<exists>fb. damiao_sensor_decode sample_config sample_frame = success fb \<and> finite_and_in_range (df_position fb) (Fin (- 12)) (Fin 12)
     \<and> (0x21 :: nat) = 16 * unat (df_error_code fb) + unat (df_motor_id fb)"
proof -
  have l: "damiao_limits_ok (cg_limits sample_config)"
    using limit_ok_int [of 12] limit_ok_int [of 30] limit_ok_int [of 10] by (simp add: damiao_limits_ok_def sample_config_def)
  have "has_value (damiao_sensor_decode sample_config sample_frame)"
    by (simp add: damiao_sensor_decode_def damiao_sensor_accepts_def decode_feedback_def sample_config_def sample_frame_def limits_positive_def Let_def)
  then obtain fb where fb: "damiao_sensor_decode sample_config sample_frame = success fb"
    by (cases "damiao_sensor_decode sample_config sample_frame" rule: result_cases) auto
  from damiao_feedback_in_limits [OF l fb] fb show ?thesis by (auto simp: sample_config_def sample_frame_def)
qed

section \<open>Commands\<close>

lemma accepted_range:
  assumes "code_range lo hi" "finite_and_in_range v (Fin lo) (Fin hi)"
  obtains x where "v = Fin x" "lo \<le> x" "x \<le> hi"
  using assms by (cases v) (auto simp: finite_and_in_range_def)

lemma clamp_code_le:
  assumes "code_range lo hi" "finite_and_in_range v (Fin lo) (Fin hi)" "m < 2 ^ 16"
  shows "unat (clamp_code u v (Fin lo) (Fin hi) m) \<le> m"
proof -
  obtain x where "v = Fin x" "lo \<le> x" "x \<le> hi" by (rule accepted_range [OF assms(1,2)])
  then show ?thesis using clamp_code_bounds(2) [OF assms(1)] assms(3) by simp
qed

text \<open>The frame of an accepted command carries, field by field, the codes of its own components.\<close>

lemma encode_mit_fields:
  assumes l: "damiao_limits_ok l" and e: "encode_mit u c l = success b"
  shows "length b = 8 \<and> mit_fields b =
    (clamp_code u (mc_position c) (fneg (dl_position_max l)) (dl_position_max l) 0xFFFF,
     clamp_code u (mc_velocity c) (fneg (dl_velocity_max l)) (dl_velocity_max l) 0x0FFF,
     clamp_code u (mc_kp c) (Fin 0) (Fin 500) 0x0FFF, clamp_code u (mc_kd c) (Fin 0) (Fin 5) 0x0FFF,
     clamp_code u (mc_torque c) (fneg (dl_torque_max l)) (dl_torque_max l) 0x0FFF)"
proof -
  have acc: "command_accepted c l" using e by (auto simp: encode_mit_def split: if_splits)
  obtain x where x: "dl_velocity_max l = Fin x" "fneg (dl_velocity_max l) = Fin (- x)" "code_range (- x) x" using l limit_range by (auto simp: damiao_limits_ok_def)
  obtain y where y: "dl_torque_max l = Fin y" "fneg (dl_torque_max l) = Fin (- y)" "code_range (- y) y" using l limit_range by (auto simp: damiao_limits_ok_def)
  have b: "b = pack_mit (clamp_code u (mc_position c) (fneg (dl_position_max l)) (dl_position_max l) 0xFFFF)
     (clamp_code u (mc_velocity c) (fneg (dl_velocity_max l)) (dl_velocity_max l) 0x0FFF)
     (clamp_code u (mc_kp c) (Fin 0) (Fin 500) 0x0FFF) (clamp_code u (mc_kd c) (Fin 0) (Fin 5) 0x0FFF)
     (clamp_code u (mc_torque c) (fneg (dl_torque_max l)) (dl_torque_max l) 0x0FFF)"
    using e acc by (simp add: encode_mit_def Let_def)
  have fields: "finite_and_in_range (mc_velocity c) (Fin (- x)) (Fin x)" "finite_and_in_range (mc_torque c) (Fin (- y)) (Fin y)"
    "finite_and_in_range (mc_kp c) (Fin 0) (Fin 500)" "finite_and_in_range (mc_kd c) (Fin 0) (Fin 5)"
    using acc x y by (simp_all add: command_accepted_def)
  have n: "(0x0FFF :: nat) < 2 ^ 16" by simp
  have "unat (clamp_code u (mc_velocity c) (Fin (- x)) (Fin x) 0x0FFF) < 2 ^ 12" "unat (clamp_code u (mc_torque c) (Fin (- y)) (Fin y) 0x0FFF) < 2 ^ 12"
    "unat (clamp_code u (mc_kp c) (Fin 0) (Fin 500) 0x0FFF) < 2 ^ 12" "unat (clamp_code u (mc_kd c) (Fin 0) (Fin 5) 0x0FFF) < 2 ^ 12"
    using clamp_code_le [OF x(3) fields(1) n, of u] clamp_code_le [OF y(3) fields(2) n, of u] clamp_code_le [OF gain_range(1) fields(3) n, of u]
      clamp_code_le [OF gain_range(2) fields(4) n, of u] by simp_all
  then show ?thesis unfolding b x(1,2) y(1,2) by (subst mit_fields_pack) (simp_all add: pack_mit_def)
qed

text \<open>Hence a larger position command gives a larger or equal position field, whatever the other components are.\<close>

lemma encode_mit_mono:
  assumes l: "damiao_limits_ok l" and e: "encode_mit u c l = success b" "encode_mit u c' l = success b'" and le: "fle (mc_position c) (mc_position c')"
  shows "fst (mit_fields b) \<le> fst (mit_fields b')"
proof -
  obtain x where x: "dl_position_max l = Fin x" "fneg (dl_position_max l) = Fin (- x)" "code_range (- x) x" using l limit_range by (auto simp: damiao_limits_ok_def)
  have acc: "finite_and_in_range (mc_position c) (Fin (- x)) (Fin x)" "finite_and_in_range (mc_position c') (Fin (- x)) (Fin x)"
    using e x by (auto simp: encode_mit_def command_accepted_def split: if_splits)
  obtain y where y: "mc_position c = Fin y" "- x \<le> y" "y \<le> x" by (rule accepted_range [OF x(3) acc(1)])
  obtain z where z: "mc_position c' = Fin z" "- x \<le> z" "z \<le> x" by (rule accepted_range [OF x(3) acc(2)])
  have "y \<le> z" using le y z by simp
  then have "clamp_code u (Fin y) (Fin (- x)) (Fin x) 0xFFFF \<le> clamp_code u (Fin z) (Fin (- x)) (Fin x) 0xFFFF"
    using y z by (intro clamp_code_mono [OF x(3)]) simp_all
  then show ?thesis using encode_mit_fields [OF l e(1)] encode_mit_fields [OF l e(2)] x y z by simp
qed

end
