(* ===== verification/Mailbox_Props.thy ===== *)
theory Mailbox_Props
  imports Mailbox "HOL-Library.Sublist"
begin

text \<open>
  The queue of sensor events refines a bounded list that forgets its oldest element when full, and a batch taken from
  the epoch mailbox holds commands of one epoch, one for every member.
\<close>

section \<open>Versions\<close>

definition version_ok :: "nat \<Rightarrow> 'a atomic_value \<Rightarrow> bool" where
  "version_ok n a \<longleftrightarrow> even (unat (av_version a)) \<and> unat (av_version a) \<le> 2 * n"

lemma version_ok_store:
  assumes "version_ok n a" "n + 1 < 2 ^ 63"
  shows "version_ok (Suc n) (av_store a v) \<and> av_load (av_store a v) = Some v"
proof -
  have u: "unat (av_version a + 2) = unat (av_version a) + 2" using assms by (simp add: version_ok_def unat_plus_if')
  have n: "av_version a + 2 \<noteq> 0" using u by (metis add_is_0 unsigned_0 zero_neq_numeral)
  show ?thesis using assms u n by (simp add: version_ok_def av_store_def av_load_def odd_guard Let_def add.assoc)
qed

lemma version_ok_mono: "version_ok n a \<Longrightarrow> n \<le> m \<Longrightarrow> version_ok m a"
  by (simp add: version_ok_def)

section \<open>The event queue\<close>

abbreviation published :: "'a event_queue \<Rightarrow> nat" where
  "published q \<equiv> unat (eq_published q)"

definition first_pending :: "'a event_queue \<Rightarrow> nat" where
  "first_pending q = max (unat (eq_consumed q)) (published q - eq_capacity q)"

text \<open>The abstract state: the events a reader can still take, oldest first.\<close>

definition events :: "'a event_queue \<Rightarrow> 'a list" where
  "events q = map (\<lambda>i. snd (av_value (eq_slots q ! (i mod eq_capacity q)))) [first_pending q..<published q]"

definition queue_ok :: "'a event_queue \<Rightarrow> bool" where
  "queue_ok q \<longleftrightarrow>
     0 < eq_capacity q \<and> eq_capacity q < 2 ^ 32 \<and> published q < 2 ^ 63 \<and> unat (eq_consumed q) \<le> published q
     \<and> (\<forall>a \<in> set (eq_slots q). version_ok (published q) a)
     \<and> (\<forall>i. published q - eq_capacity q \<le> i \<and> i < published q \<longrightarrow>
          fst (av_value (eq_slots q ! (i mod eq_capacity q))) = of_nat i + 1 \<and> av_version (eq_slots q ! (i mod eq_capacity q)) \<noteq> 0)"

lemma window_mod: "i mod c = k mod c \<Longrightarrow> i \<le> k \<Longrightarrow> k < i + c \<Longrightarrow> i = (k :: nat)"
proof -
  assume a: "i mod c = k mod c" "i \<le> k" "k < i + c"
  then have "(k - i) mod c = 0" by (metis mod_eq_dvd_iff_nat dvd_imp_mod_0)
  then show "i = k" using a by (simp add: mod_less)
qed

lemma length_events: "length (events q) = published q - first_pending q"
  by (simp add: events_def)

lemma backlog:
  assumes "queue_ok q"
  shows "eq_published q - eq_consumed q \<ge> of_nat (eq_capacity q) \<longleftrightarrow> length (events q) = eq_capacity q"
proof -
  have c: "unat (of_nat (eq_capacity q) :: u64) = eq_capacity q" using assms by (simp add: queue_ok_def unat_of_nat)
  have "unat (eq_published q - eq_consumed q) = published q - unat (eq_consumed q)"
    using assms by (simp add: queue_ok_def unat_sub word_le_nat_alt)
  then show ?thesis using assms c by (auto simp: word_le_nat_alt length_events first_pending_def queue_ok_def)
qed

lemma make_queue_ok: "0 < capacity \<Longrightarrow> capacity < 2 ^ 32 \<Longrightarrow> queue_ok (make_event_queue capacity zero) \<and> events (make_event_queue capacity zero) = []"
  by (simp add: queue_ok_def make_event_queue_def events_def first_pending_def version_ok_def make_atomic_def)

lemma push_slots:
  fixes q :: "'a event_queue" and v :: 'a
  assumes "queue_ok q"
  defines "q' \<equiv> fst (push_realtime q v)"
  shows "eq_capacity q' = eq_capacity q" "published q' = Suc (published q)" "eq_consumed q' = eq_consumed q"
    "published q' - eq_capacity q \<le> i \<Longrightarrow> i < published q \<Longrightarrow> eq_slots q' ! (i mod eq_capacity q) = eq_slots q ! (i mod eq_capacity q)"
    "eq_slots q' ! (published q mod eq_capacity q) = av_store (eq_slots q ! (published q mod eq_capacity q)) (eq_published q + 1, v)"
proof -
  have c: "0 < eq_capacity q" "published q < 2 ^ 63" using assms by (simp_all add: queue_ok_def)
  have s: "eq_slots q' = (eq_slots q)[published q mod eq_capacity q := av_store (eq_slots q ! (published q mod eq_capacity q)) (eq_published q + 1, v)]"
    by (simp add: q'_def push_realtime_def Let_def)
  show "eq_capacity q' = eq_capacity q" using s by simp
  show p: "published q' = Suc (published q)" using c by (simp add: q'_def push_realtime_def Let_def unat_plus_if')
  show "eq_consumed q' = eq_consumed q" by (simp add: q'_def push_realtime_def Let_def)
  show "eq_slots q' ! (published q mod eq_capacity q) = av_store (eq_slots q ! (published q mod eq_capacity q)) (eq_published q + 1, v)"
    using s c by simp
  assume i: "published q' - eq_capacity q \<le> i" "i < published q"
  then have "published q < i + eq_capacity q" "i \<noteq> published q" "i \<le> published q" using p by arith+
  then have "i mod eq_capacity q \<noteq> published q mod eq_capacity q" using window_mod [of i "eq_capacity q" "published q"] by blast
  then show "eq_slots q' ! (i mod eq_capacity q) = eq_slots q ! (i mod eq_capacity q)" using s c by (simp add: nth_list_update_at)
qed

lemma push_ok:
  assumes ok: "queue_ok q" and room: "published q + 1 < 2 ^ 63"
  shows "queue_ok (fst (push_realtime q v))"
proof -
  let ?q = "fst (push_realtime q v)" and ?c = "eq_capacity q" and ?p = "published q"
  note slots = push_slots [OF ok, of v]
  have c: "0 < ?c" "\<forall>a \<in> set (eq_slots q). version_ok ?p a" using ok by (simp_all add: queue_ok_def)
  have st: "version_ok (Suc ?p) (av_store (eq_slots q ! (?p mod ?c)) w) \<and> av_load (av_store (eq_slots q ! (?p mod ?c)) w) = Some w" for w
    using c room by (intro version_ok_store) auto
  have vs: "\<forall>a \<in> set (eq_slots ?q). version_ok (Suc ?p) a"
    using c st by (auto simp: push_realtime_def Let_def dest!: subsetD [OF set_update_subset_insert] intro: version_ok_mono)
  have "fst (av_value (eq_slots ?q ! (i mod ?c))) = of_nat i + 1 \<and> av_version (eq_slots ?q ! (i mod ?c)) \<noteq> 0"
    if i: "Suc ?p - ?c \<le> i" "i < Suc ?p" for i
  proof (cases "i = ?p")
    case True
    have "av_load (eq_slots ?q ! (?p mod ?c)) = Some (eq_published q + 1, v)" unfolding slots(5) using st by blast
    then show ?thesis using True by (auto simp: av_load_def split: if_splits)
  next
    case False
    then show ?thesis using i ok slots(2) slots(4) [of i] by (auto simp: queue_ok_def)
  qed
  then show ?thesis using ok vs slots room by (simp add: queue_ok_def)
qed

lemma push_events:
  assumes ok: "queue_ok q"
  shows "events (fst (push_realtime q v)) = (let es = events q @ [v] in drop (length es - eq_capacity q) es)"
proof -
  let ?q = "fst (push_realtime q v)" and ?c = "eq_capacity q" and ?p = "published q"
  note slots = push_slots [OF ok, of v]
  have c: "0 < ?c" using ok by (simp add: queue_ok_def)
  have le: "first_pending q \<le> ?p" "unat (eq_consumed q) \<le> ?p" using ok by (auto simp: first_pending_def queue_ok_def)
  let ?f = "first_pending ?q"
  have f: "?f = max (first_pending q) (Suc ?p - ?c)" "?f \<le> ?p"
  proof -
    have "Suc ?p - ?c \<le> ?p" using c by arith
    then show "?f \<le> ?p" using slots(1,2,3) le(2) by (simp add: first_pending_def)
    show "?f = max (first_pending q) (Suc ?p - ?c)" using slots(1,2,3) by (auto simp: first_pending_def)
  qed
  have d: "Suc ?p - first_pending q - ?c = ?f - first_pending q" using f by simp
  have "events ?q = map (\<lambda>i. snd (av_value (eq_slots ?q ! (i mod ?c)))) ([?f..<?p] @ [?p])"
    unfolding events_def slots(1,2) using f(2) by simp
  also have "\<dots> = map (\<lambda>i. snd (av_value (eq_slots q ! (i mod ?c)))) [?f..<?p] @ [v]"
  proof -
    have "map (\<lambda>i. snd (av_value (eq_slots ?q ! (i mod ?c)))) [?f..<?p] = map (\<lambda>i. snd (av_value (eq_slots q ! (i mod ?c)))) [?f..<?p]"
      using slots(2,4) f(1) by (intro map_cong) auto
    then show ?thesis using slots(5) by (simp add: av_store_def Let_def)
  qed
  also have "\<dots> = drop (?f - first_pending q) (events q @ [v])"
    using f le by (simp add: events_def drop_map max_def)
  finally show ?thesis using d le by (simp add: length_events Let_def Suc_diff_le)
qed

lemma push_dropped:
  "queue_ok q \<Longrightarrow> eq_dropped (fst (push_realtime q v)) = eq_dropped q + (if length (events q) = eq_capacity q then 1 else 0)"
  by (simp add: push_realtime_def Let_def backlog)

lemma oldest_consumed:
  assumes ok: "queue_ok q"
  defines "oldest \<equiv> (if eq_published q > of_nat (eq_capacity q) then eq_published q - of_nat (eq_capacity q) else 0)"
  shows "unat (if eq_consumed q < oldest then oldest else eq_consumed q) = first_pending q"
proof -
  have c: "unat (of_nat (eq_capacity q) :: u64) = eq_capacity q" using ok by (simp add: queue_ok_def unat_of_nat)
  have "unat oldest = published q - eq_capacity q"
    using c by (auto simp: oldest_def word_less_nat_alt word_le_nat_alt unat_sub)
  then show ?thesis by (simp add: first_pending_def word_less_nat_alt max_def not_less)
qed

lemma pop_refines:
  assumes ok: "queue_ok q"
  shows "queue_ok (fst (pop_event q)) \<and> events (fst (pop_event q)) = tl (events q)
     \<and> snd (pop_event q) = (case events q of [] \<Rightarrow> None | v # _ \<Rightarrow> Some v)
     \<and> eq_dropped (fst (pop_event q)) = eq_dropped q \<and> eq_capacity (fst (pop_event q)) = eq_capacity q \<and> eq_published (fst (pop_event q)) = eq_published q"
proof (cases "eq_consumed q \<ge> eq_published q")
  case True
  then have "first_pending q \<ge> published q" by (simp add: first_pending_def word_le_nat_alt)
  then have "events q = []" by (simp add: events_def)
  then show ?thesis using ok True by (simp add: pop_event_def Let_def)
next
  case False
  let ?f = "first_pending q" and ?c = "eq_capacity q" and ?p = "published q"
  let ?oldest = "if eq_published q > of_nat (eq_capacity q) then eq_published q - of_nat (eq_capacity q) else 0"
  define consumed where "consumed = (if eq_consumed q < ?oldest then ?oldest else eq_consumed q)"
  have u: "unat consumed = ?f" unfolding consumed_def by (rule oldest_consumed [OF ok])
  have lt: "?f < ?p" "?p - ?c \<le> ?f" using False ok by (auto simp: first_pending_def word_le_nat_alt queue_ok_def)
  let ?a = "eq_slots q ! (?f mod ?c)"
  have c: "0 < ?c" "?p < 2 ^ 63" using ok by (simp_all add: queue_ok_def)
  have a: "fst (av_value ?a) = of_nat ?f + 1" "av_version ?a \<noteq> 0" "even (unat (av_version ?a))"
    using ok lt c by (auto simp: queue_ok_def version_ok_def)
  have w: "of_nat ?f = consumed" unfolding u [symmetric] by simp
  have pop: "pop_event q = (q\<lparr>eq_consumed := consumed + 1\<rparr>, Some (snd (av_value ?a)))"
    using False a unfolding pop_event_def Let_def consumed_def [symmetric] u
    by (cases "av_value ?a") (simp add: av_load_def odd_guard w)
  let ?q = "q\<lparr>eq_consumed := consumed + 1\<rparr>"
  have u1: "unat (consumed + 1) = Suc ?f" using u lt c by (simp add: unat_plus_if')
  have f: "first_pending ?q = Suc ?f" using lt u1 by (simp add: first_pending_def)
  have e: "events q = snd (av_value ?a) # events ?q" using lt(1) f by (simp add: events_def upt_conv_Cons)
  have "queue_ok ?q" using ok lt u1 unfolding queue_ok_def by simp
  then show ?thesis by (simp add: pop e)
qed

section \<open>Runs of the event queue\<close>

text \<open>A run of pushes (\<open>Some v\<close>) and pops (\<open>None\<close>), with the results of the pops; and the same run on the abstract
  queue, a list of at most \<open>c\<close> events that forgets its oldest one when full, with the number it forgot.\<close>

fun queue_run :: "'a event_queue \<Rightarrow> 'a option list \<Rightarrow> 'a event_queue \<times> 'a option list" where
  "queue_run q [] = (q, [])"
| "queue_run q (Some v # ops) = queue_run (fst (push_realtime q v)) ops"
| "queue_run q (None # ops) = (let (q', r) = pop_event q; (q'', rs) = queue_run q' ops in (q'', r # rs))"

fun abstract_run :: "nat \<Rightarrow> 'a list \<Rightarrow> 'a option list \<Rightarrow> 'a list \<times> 'a option list \<times> nat" where
  "abstract_run c es [] = (es, [], 0)"
| "abstract_run c es (Some v # ops) =
     (let lost = length es + 1 - c; (es', rs, n) = abstract_run c (drop lost (es @ [v])) ops in (es', rs, lost + n))"
| "abstract_run c es (None # ops) =
     (let (es', rs, n) = abstract_run c (tl es) ops in (es', (case es of [] \<Rightarrow> None | v # _ \<Rightarrow> Some v) # rs, n))"

fun present :: "'a option list \<Rightarrow> 'a list" where
  "present [] = []"
| "present (Some v # xs) = v # present xs"
| "present (None # xs) = present xs"

lemma abstract_conserves:
  "length es \<le> c \<Longrightarrow> 0 < c \<Longrightarrow> abstract_run c es ops = (es', rs, n) \<Longrightarrow>
    length es' \<le> c \<and> subseq (present rs @ es') (es @ present ops) \<and> length es + length (present ops) = length (present rs) + length es' + n"
proof (induction c es ops arbitrary: es' rs n rule: abstract_run.induct)
  case (2 c es v ops)
  obtain es1 rs1 n1 where r: "abstract_run c (drop (length es + 1 - c) (es @ [v])) ops = (es1, rs1, n1)" by (metis prod_cases3)
  have l: "length (drop (length es + 1 - c) (es @ [v])) \<le> c" using 2(2,3) by simp
  have "length es1 \<le> c \<and> subseq (present rs1 @ es1) (drop (length es + 1 - c) (es @ [v]) @ present ops)
      \<and> length (drop (length es + 1 - c) (es @ [v])) + length (present ops) = length (present rs1) + length es1 + n1"
    using 2(1) [OF refl l 2(3) r] .
  moreover have "subseq (drop (length es + 1 - c) (es @ [v]) @ present ops) ((es @ [v]) @ present ops)"
    by (intro list_emb_append_mono suffix_imp_subseq suffix_drop) simp
  ultimately have "subseq (present rs1 @ es1) (es @ v # present ops)" by (auto intro: subseq_order.trans)
  then show ?case using 2(2,4) r \<open>length es1 \<le> c \<and> _\<close> by auto
next
  case (3 c es ops)
  obtain es1 rs1 n1 where r: "abstract_run c (tl es) ops = (es1, rs1, n1)" by (metis prod_cases3)
  have "length (tl es) \<le> c" using 3(2) by (cases es) auto
  from 3(1) [OF this 3(3) r] show ?case using 3(4) r by (cases es) auto
qed auto

lemma queue_run_refines:
  "queue_ok q \<Longrightarrow> published q + length (present ops) < 2 ^ 63 \<Longrightarrow> abstract_run (eq_capacity q) (events q) ops = (es, rs, n) \<Longrightarrow>
    \<exists>q'. queue_run q ops = (q', rs) \<and> queue_ok q' \<and> events q' = es \<and> eq_dropped q' = eq_dropped q + of_nat n"
proof (induction q ops arbitrary: es rs n rule: queue_run.induct)
  case (2 q v ops)
  let ?q = "fst (push_realtime q v)" and ?lost = "length (events q) + 1 - eq_capacity q"
  have ok: "queue_ok ?q" using 2 by (intro push_ok) simp_all
  have e: "events ?q = drop ?lost (events q @ [v])" using push_events [OF 2(2)] by (simp add: Let_def)
  have le: "length (events q) \<le> eq_capacity q" by (auto simp: length_events first_pending_def)
  have d: "eq_dropped ?q = eq_dropped q + of_nat ?lost" using push_dropped [OF 2(2)] le by auto
  obtain n1 where r: "abstract_run (eq_capacity ?q) (events ?q) ops = (es, rs, n1)" "n = ?lost + n1"
    using 2(4) unfolding e push_slots(1) [OF 2(2)] by (auto simp: Let_def split: prod.splits)
  have "published ?q + length (present ops) < 2 ^ 63" using 2(3) push_slots(2) [OF 2(2)] by simp
  from 2(1) [OF ok this r(1)] show ?case using d r(2) by (auto simp: add.assoc)
next
  case (3 q ops)
  note p = pop_refines [OF 3(2)]
  obtain rs1 where r: "abstract_run (eq_capacity q) (tl (events q)) ops = (es, rs1, n)" "rs = snd (pop_event q) # rs1"
    using 3(4) p by (auto split: prod.splits)
  have "\<exists>q'. queue_run (fst (pop_event q)) ops = (q', rs1) \<and> queue_ok q' \<and> events q' = es \<and> eq_dropped q' = eq_dropped (fst (pop_event q)) + of_nat n"
    using 3(3) p r(1) by (intro 3(1) [OF refl prod.collapse]) simp_all
  then show ?case using r(2) p by (auto simp: Let_def split: prod.split)
qed simp

text \<open>Claim C36.
  The queue of sensor events implements a bounded list that forgets its oldest event when full.  For every sequence of
  pushes and pops on a fresh queue (fewer than \<open>2 ^ 63\<close> pushes) every pop returns what the abstract list returns; what
  is popped, followed by what is still pending, is a subsequence of what was pushed, so that nothing is repeated,
  reordered or made up; at most the capacity is pending; and the counter of dropped events accounts exactly for the
  rest.\<close>

theorem event_queue_refines:
  assumes "0 < capacity" "capacity < 2 ^ 32" "length (present ops) < 2 ^ 63" "abstract_run capacity [] ops = (es, rs, n)"
  shows "\<exists>q. queue_run (make_event_queue capacity zero) ops = (q, rs) \<and> events q = es \<and> eq_dropped q = of_nat n \<and> length es \<le> capacity
     \<and> subseq (present rs @ es) (present ops) \<and> length (present ops) = length (present rs) + length es + n"
proof -
  let ?q = "make_event_queue capacity zero"
  have q: "queue_ok ?q" "events ?q = []" using make_queue_ok [OF assms(1,2), of zero] by simp_all
  have z: "published ?q = 0" "eq_capacity ?q = capacity" "eq_dropped ?q = 0" by (simp_all add: make_event_queue_def)
  have "abstract_run (eq_capacity ?q) (events ?q) ops = (es, rs, n)" using assms(4) q(2) z(2) by simp
  from queue_run_refines [OF q(1) _ this] z(1,3) assms(3)
  obtain q' where "queue_run ?q ops = (q', rs)" "events q' = es" "eq_dropped q' = of_nat n" by auto
  moreover have "length es \<le> capacity \<and> subseq (present rs @ es) ([] @ present ops) \<and> length ([] :: 'a list) + length (present ops) = length (present rs) + length es + n"
    using abstract_conserves [OF _ assms(1) assms(4)] by simp
  ultimately show ?thesis by auto
qed

theorem event_queue_refines_witness:
  "\<exists>q. queue_run (make_event_queue 2 0) [Some 7, Some 8, Some 9, None, Some (10 :: nat), None] = (q, [Some 8, Some 9])
     \<and> events q = [10] \<and> eq_dropped q = 1"
proof -
  let ?ops = "[Some 7, Some 8, Some 9, None, Some (10 :: nat), None]"
  have "abstract_run 2 [] ?ops = ([10], [Some 8, Some 9], 1)" by code_simp
  moreover have "(0 :: nat) < 2" "(2 :: nat) < 2 ^ 32" "length (present ?ops) < 2 ^ 63" by simp_all
  ultimately have "\<exists>q. queue_run (make_event_queue 2 0) ?ops = (q, [Some 8, Some 9]) \<and> events q = [10] \<and> eq_dropped q = of_nat 1 \<and> length [10 :: nat] \<le> 2
     \<and> subseq (present [Some 8, Some 9] @ [10]) (present ?ops) \<and> length (present ?ops) = length (present [Some (8 :: nat), Some 9]) + length [10 :: nat] + 1"
    by (intro event_queue_refines)
  then show ?thesis by auto
qed

section \<open>The latest command\<close>

lemma read_latest_published:
  assumes "version_ok n m" "n + 1 < 2 ^ 63"
  shows "read_latest sequence (mailbox_publish m v) after_sequence = (if after_sequence < sequence v then Some v else None)"
  using version_ok_store [OF assms, of v] by (simp add: read_latest_def mailbox_publish_def not_less)

section \<open>Complete epochs\<close>

datatype 'a epoch_op = Stage nat u64 'a | Commit u64

fun epoch_run :: "'a epoch_mailbox \<Rightarrow> 'a epoch_op list \<Rightarrow> 'a epoch_mailbox" where
  "epoch_run m [] = m"
| "epoch_run m (Stage i e c # ops) = epoch_run (fst (epoch_stage m i e c)) ops"
| "epoch_run m (Commit e # ops) = epoch_run (fst (epoch_commit m e)) ops"

text \<open>\<open>c\<close> is the last command staged for member \<open>i\<close> in epoch \<open>e\<close>.\<close>

fun last_staged :: "'a epoch_op list \<Rightarrow> nat \<Rightarrow> u64 \<Rightarrow> 'a option" where
  "last_staged [] i e = None"
| "last_staged (Commit _ # ops) i e = last_staged ops i e"
| "last_staged (Stage j e' c # ops) i e =
     (case last_staged ops i e of Some d \<Rightarrow> Some d | None \<Rightarrow> if j = i \<and> e' = e then Some c else None)"

lemma last_staged_Commit [simp]: "last_staged (ops @ [Commit x]) i e = last_staged ops i e"
  by (induction ops i e rule: last_staged.induct) auto

lemma last_staged_Stage [simp]: "last_staged (ops @ [Stage j x c]) i e = (if j = i \<and> x = e then Some c else last_staged ops i e)"
  by (induction ops i e rule: last_staged.induct) (auto split: option.split)

definition batch_of :: "nat \<Rightarrow> 'a epoch_op list \<Rightarrow> 'a epoch_batch \<Rightarrow> bool" where
  "batch_of n done_ops b \<longleftrightarrow> eb_epoch b \<noteq> 0 \<and> eb_count b = n
     \<and> (\<exists>before after. done_ops = before @ Commit (eb_epoch b) # after \<and> (\<forall>i < n. last_staged before i (eb_epoch b) = Some (eb_commands b ! i)))"

definition epoch_ok :: "nat \<Rightarrow> 'a epoch_op list \<Rightarrow> 'a epoch_mailbox \<Rightarrow> bool" where
  "epoch_ok n done_ops m \<longleftrightarrow>
     em_size m = n \<and> n \<le> length (em_commands m) \<and> length (em_staged m) = length (em_commands m)
     \<and> (\<forall>i < n. em_staged m ! i \<longrightarrow> em_staging_epoch m \<noteq> 0 \<and> last_staged done_ops i (em_staging_epoch m) = Some (em_commands m ! i))
     \<and> version_ok (length done_ops) (em_committed m)
     \<and> (av_version (em_committed m) \<noteq> 0 \<longrightarrow> batch_of n done_ops (av_value (em_committed m)))"

lemma batch_of_extend: "batch_of n ops b \<Longrightarrow> batch_of n (ops @ later) b"
proof -
  assume b: "batch_of n ops b"
  then obtain before after where "ops = before @ Commit (eb_epoch b) # after" "\<forall>i < n. last_staged before i (eb_epoch b) = Some (eb_commands b ! i)"
    by (auto simp: batch_of_def)
  then show ?thesis using b unfolding batch_of_def by (metis append.assoc append_Cons)
qed

lemma epoch_stage_ok:
  assumes ok: "epoch_ok n ops m"
  shows "epoch_ok n (ops @ [Stage i e c]) (fst (epoch_stage m i e c))"
proof (cases "em_size m = 0 \<or> i \<ge> em_size m \<or> e = 0 \<or> e < em_staging_epoch m")
  case True
  then have m: "fst (epoch_stage m i e c) = m" by (simp add: epoch_stage_def)
  then show ?thesis using ok True
    by (auto simp: epoch_ok_def intro: batch_of_extend version_ok_mono)
next
  case False
  let ?m = "fst (epoch_stage m i e c)"
  have i: "i < n" "n \<le> length (em_commands m)" "length (em_staged m) = length (em_commands m)" "em_size m = n" using ok False by (auto simp: epoch_ok_def)
  have m: "em_size ?m = n" "em_staging_epoch ?m = e" "em_commands ?m = (em_commands m)[i := c]" "em_committed ?m = em_committed m"
    "em_staged ?m = (if e \<noteq> em_staging_epoch m then replicate (length (em_staged m)) False else em_staged m)[i := True]"
    using False i(4) by (simp_all add: epoch_stage_def Let_def)
  have "e \<noteq> 0 \<and> last_staged (ops @ [Stage i e c]) j e = Some (em_commands ?m ! j)" if j: "j < n" "em_staged ?m ! j" for j
  proof (cases "j = i")
    case True
    then show ?thesis using False i m(3) by simp
  next
    case ne: False
    then have "e = em_staging_epoch m" "em_staged m ! j" using j i m(5) by (auto split: if_splits)
    then show ?thesis using ok ne j(1) m(3) False by (auto simp: epoch_ok_def)
  qed
  then show ?thesis using ok i m by (auto simp: epoch_ok_def intro: batch_of_extend version_ok_mono)
qed

lemma epoch_commit_ok:
  assumes ok: "epoch_ok n ops m" and room: "length ops + 1 < 2 ^ 63"
  shows "epoch_ok n (ops @ [Commit e]) (fst (epoch_commit m e))"
proof (cases "em_size m = 0 \<or> e = 0 \<or> e \<noteq> em_staging_epoch m \<or> \<not> (\<forall>b \<in> set (take (em_size m) (em_staged m)). b)")
  case True
  then have "fst (epoch_commit m e) = m" by (auto simp: epoch_commit_def)
  then show ?thesis using ok by (auto simp: epoch_ok_def intro: batch_of_extend version_ok_mono)
next
  case False
  let ?b = "\<lparr>eb_epoch = e, eb_count = n, eb_commands = em_commands m\<rparr>"
  have sz: "em_size m = n" "n \<le> length (em_staged m)" "length (em_staged m) = length (em_commands m)" using ok by (simp_all add: epoch_ok_def)
  have m: "fst (epoch_commit m e) = m\<lparr>em_committed := av_store (em_committed m) ?b, em_staged := replicate (length (em_staged m)) False\<rparr>"
    using False sz by (auto simp: epoch_commit_def)
  have st: "em_staged m ! i" if "i < n" for i
  proof -
    have "em_staged m ! i \<in> set (take n (em_staged m))" using that sz by (auto simp: in_set_conv_nth intro!: exI [of _ i])
    then show ?thesis using False sz(1) by blast
  qed
  have "last_staged ops i e = Some (em_commands m ! i)" if "i < n" for i
    using ok st [OF that] that False by (auto simp: epoch_ok_def)
  then have "batch_of n (ops @ [Commit e]) ?b" using False by (auto simp: batch_of_def)
  moreover have "version_ok (Suc (length ops)) (av_store (em_committed m) ?b)"
    using version_ok_store [OF _ room, of "em_committed m" ?b] ok by (simp add: epoch_ok_def)
  moreover have "av_value (av_store (em_committed m) ?b) = ?b" by (simp add: av_store_def Let_def)
  ultimately show ?thesis using ok sz m by (auto simp: epoch_ok_def)
qed

lemma epoch_run_ok: "epoch_ok n ops m \<Longrightarrow> length (ops @ later) < 2 ^ 63 \<Longrightarrow> epoch_ok n (ops @ later) (epoch_run m later)"
proof (induction m later arbitrary: ops rule: epoch_run.induct)
  case (2 m i e c later)
  from 2(1) [OF epoch_stage_ok [OF 2(2)]] 2(3) show ?case by simp
next
  case (3 m e later)
  have "length ops + 1 < 2 ^ 63" using 3(3) by simp
  from 3(1) [OF epoch_commit_ok [OF 3(2) this]] 3(3) show ?case by simp
qed simp

text \<open>Claim C37.
  A batch taken from the epoch mailbox is complete and of one epoch.  After any sequence of stage and commit calls,
  accepted or refused, the batch that \<open>consume_complete\<close> returns is newer than asked for, names every member, and was
  committed at some point before which, for every member, the command in the batch was the last one staged for that
  member in the batch's own epoch: commands of different epochs never mix and no member is missing.\<close>

theorem epoch_batch_complete:
  assumes "n \<le> maximum" "length ops < 2 ^ 63" "consume_complete (epoch_run (make_epoch_mailbox maximum zero n) ops) after_epoch = Some b"
  shows "after_epoch < eb_epoch b \<and> eb_count b = n
     \<and> (\<exists>before after. ops = before @ Commit (eb_epoch b) # after \<and> (\<forall>i < n. last_staged before i (eb_epoch b) = Some (eb_commands b ! i)))"
proof -
  let ?m = "epoch_run (make_epoch_mailbox maximum zero n) ops"
  have "epoch_ok n [] (make_epoch_mailbox maximum zero n)"
    using assms(1) by (simp add: epoch_ok_def make_epoch_mailbox_def version_ok_def make_atomic_def)
  from epoch_run_ok [OF this, of ops] assms(2) have ok: "epoch_ok n ops ?m" by simp
  have v: "av_version (em_committed ?m) \<noteq> 0" "b = av_value (em_committed ?m)" "after_epoch < eb_epoch b"
    using assms(3) by (auto simp: consume_complete_def av_load_def not_le split: if_splits option.splits)
  then show ?thesis using ok by (simp add: epoch_ok_def batch_of_def)
qed

definition epoch_sample :: "nat epoch_op list" where
  "epoch_sample = [Stage 0 4 10, Stage 0 5 11, Stage 1 4 20, Stage 1 5 21, Commit 4, Stage 0 5 12, Commit 5, Stage 0 6 13, Commit 6]"

theorem epoch_batch_complete_witness:
  "\<exists>before after. epoch_sample = before @ Commit 5 # after \<and> last_staged before 0 5 = Some 12 \<and> last_staged before 1 5 = Some 21"
proof -
  have c: "consume_complete (epoch_run (make_epoch_mailbox 4 0 2) epoch_sample) 0 = Some \<lparr>eb_epoch = 5, eb_count = 2, eb_commands = [12, 21, 0, 0]\<rparr>"
    by code_simp
  have "length epoch_sample < 2 ^ 63" by (simp add: epoch_sample_def)
  from epoch_batch_complete [OF _ this c] obtain before after where
    "epoch_sample = before @ Commit 5 # after" "\<forall>i < 2. last_staged before i 5 = Some ([12, 21, 0, 0] ! i)" by auto
  then show ?thesis by (auto simp: less_2_cases_iff)
qed

end
