(* ===== verification/Transport_Runtime_Props.thy ===== *)
theory Transport_Runtime_Props
  imports Transport_Runtime Mailbox_Props
begin

text \<open>
  What the runtime of a CAN bus guarantees end to end: a cycle offers the newest frame of every slot to the socket once,
  and the runtime at the other end hands the frames that could be written to its callback.
\<close>

section \<open>Frames across the wire\<close>

definition frame_ok :: "device_frame \<Rightarrow> bool" where
  "frame_ok f \<longleftrightarrow> unat (fm_size f) \<le> 8 \<and> length (fm_bytes f) = 256"

text \<open>What of a frame a CAN wire carries.\<close>

definition wire_view :: "device_frame \<Rightarrow> device_frame" where
  "wire_view f = f\<lparr>fm_sequence := 0, fm_bytes := take (unat (fm_size f)) (fm_bytes f) @ replicate (256 - unat (fm_size f)) 0\<rparr>"

lemma ucast_size:
  assumes "unat (n :: u16) \<le> 8"
  shows "unat (ucast n :: u8) = unat n" "ucast (ucast n :: u8) = n"
proof -
  show u: "unat (ucast n :: u8) = unat n" using assms by (simp add: unsigned_ucast_eq take_bit_nat_eq_self)
  show "ucast (ucast n :: u8) = n" by (rule unsigned_word_eqI [where ?'a = nat]) (use assms in \<open>simp add: unsigned_ucast_eq unsigned_take_bit_eq take_bit_nat_eq_self\<close>)
qed

lemma to_can_ok:
  assumes "frame_ok f"
  obtains c where "to_can f = Some c" "can_id c = fm_address f" "length (can_data c) = 8" "valid_dlc (can_dlc c)" "from_can (trimmed c) = wire_view f"
proof -
  let ?c = "\<lparr>can_id = fm_address f, can_data = take (unat (fm_size f)) (fm_bytes f) @ replicate (8 - unat (fm_size f)) 0, can_dlc = ucast (fm_size f)\<rparr>"
  note u = ucast_size [of "fm_size f"]
  have s: "unat (fm_size f) \<le> 8" "length (fm_bytes f) = 256" using assms by (simp_all add: frame_ok_def)
  have "to_can f = Some ?c" using u(1) [OF s(1)] s by (simp add: to_can_def Let_def word_less_nat_alt)
  moreover have "from_can (trimmed ?c) = wire_view f"
    using u [OF s(1)] s by (simp add: from_can_def trimmed_def received_frame_def wire_view_def empty_frame_def min_def)
  ultimately show thesis using that s u(1) [OF s(1)] by (simp add: valid_dlc_def word_le_nat_alt)
qed

section \<open>One cycle\<close>

definition slot_pending :: "runtime_slot \<Rightarrow> device_frame list" where
  "slot_pending s = (case read_latest fm_sequence (rs_mailbox s) (rs_consumed_sequence s) of None \<Rightarrow> [] | Some f \<Rightarrow> [f])"

definition pending_frames :: "runtime_slot list \<Rightarrow> device_frame list" where
  "pending_frames ss = concat (map slot_pending ss)"

abbreviation wire_put :: "can_frame \<Rightarrow> raw_can_frame option \<times> unit result" where
  "wire_put f \<equiv> socketcan_send (open_socketcan 0) f (os_value raw_frame_size)"

lemma send_frame:
  assumes "socketcan_valid t"
  shows "fst (socketcan_send t f w) = fst (wire_put f)"
    and "fst (wire_put f) \<noteq> None \<Longrightarrow> has_value (snd (socketcan_send t f w)) \<longleftrightarrow> w = os_value raw_frame_size"
  using assms
  by (auto simp: socketcan_valid_def socketcan_send_def open_socketcan_def raw_frame_size_def has_value_def failure_def success_def
      split: os_outcome.splits if_splits)

text \<open>The frames of the slots whose write takes the whole frame.\<close>

fun written_frames :: "runtime_slot list \<Rightarrow> nat os_outcome list \<Rightarrow> device_frame list" where
  "written_frames [] ws = []"
| "written_frames (s # ss) ws =
     (case ws of os_value n # _ \<Rightarrow> if n = raw_frame_size then slot_pending s else [] | _ \<Rightarrow> []) @ written_frames ss (tl ws)"

lemma written_pending: "set (written_frames ss ws) \<subseteq> set (pending_frames ss)"
  by (induction ss ws rule: written_frames.induct) (auto simp: pending_frames_def split: list.splits os_outcome.splits if_splits)

lemma all_written: "written_frames ss (replicate (length ss) (os_value raw_frame_size)) = pending_frames ss"
  by (induction ss) (auto simp: pending_frames_def)

lemma consumed_slot: "slot_pending (s\<lparr>rs_consumed_sequence := fm_sequence f\<rparr>) = []" if "slot_pending s = [f]"
  using that by (auto simp: slot_pending_def read_latest_def split: option.splits if_splits)

text \<open>The raw frames of a list of device frames.\<close>

definition raws_of :: "device_frame list \<Rightarrow> raw_can_frame list" where
  "raws_of fs = concat (map (\<lambda>f. case fst (wire_put (the (to_can f))) of None \<Rightarrow> [] | Some raw \<Rightarrow> [raw]) fs)"

lemma cycle_slots_sends:
  assumes "socketcan_valid t" "\<forall>f \<in> set (pending_frames ss). frame_ok f"
  shows "\<exists>ss'. cycle_slots t ss ws = Some (ss', raws_of (written_frames ss ws)) \<and> pending_frames ss' = [] \<and> length ss' = length ss"
  using assms
proof (induction ss arbitrary: ws)
  case Nil
  then show ?case by (simp add: raws_of_def pending_frames_def)
next
  case (Cons s ss)
  let ?w = "case ws of [] \<Rightarrow> os_would_block | w # _ \<Rightarrow> w"
  obtain ss' where ih: "cycle_slots t ss (tl ws) = Some (ss', raws_of (written_frames ss (tl ws)))" "pending_frames ss' = []" "length ss' = length ss"
    using Cons.IH [of "tl ws"] Cons.prems by (auto simp: pending_frames_def)
  show ?case
  proof (cases "read_latest fm_sequence (rs_mailbox s) (rs_consumed_sequence s)")
    case None
    then have "cycle_slot t s ?w = Some (s, None)" "slot_pending s = []" by (simp_all add: cycle_slot_def slot_pending_def)
    then show ?thesis using ih by (auto simp: pending_frames_def raws_of_def split: list.splits os_outcome.splits)
  next
    case (Some f)
    then have p: "slot_pending s = [f]" by (simp add: slot_pending_def)
    then have "frame_ok f" using Cons.prems(2) by (simp add: pending_frames_def)
    then obtain c where c: "to_can f = Some c" by (rule to_can_ok)
    let ?sent = "if ?w = os_value raw_frame_size then fst (wire_put c) else None"
    have "(if has_value (snd (socketcan_send t c ?w)) then fst (socketcan_send t c ?w) else None) = ?sent"
      using send_frame [OF Cons.prems(1), of c ?w] by (cases "fst (wire_put c)") auto
    then have "cycle_slot t s ?w = Some (s\<lparr>rs_consumed_sequence := fm_sequence f\<rparr>, ?sent)"
      using Some c by (simp add: cycle_slot_def split_beta Let_def)
    then have "cycle_slots t (s # ss) ws =
        Some (s\<lparr>rs_consumed_sequence := fm_sequence f\<rparr> # ss', (case ?sent of None \<Rightarrow> [] | Some raw \<Rightarrow> [raw]) @ raws_of (written_frames ss (tl ws)))"
      using ih(1) by simp
    moreover have "(case ?sent of None \<Rightarrow> [] | Some raw \<Rightarrow> [raw]) @ raws_of (written_frames ss (tl ws)) = raws_of (written_frames (s # ss) ws)"
      using p c by (auto simp: raws_of_def split: list.splits os_outcome.splits)
    ultimately show ?thesis using ih(2,3) consumed_slot [OF p] by (auto simp: pending_frames_def)
  qed
qed

section \<open>The receiving end\<close>

fun receive_all :: "transport_runtime \<Rightarrow> raw_can_frame list \<Rightarrow> (device_frame \<times> u64) list" where
  "receive_all r [] = []"
| "receive_all r (raw # raws) =
     (let (r', got) = receive_worker_step r (os_value (raw_frame_size, raw)) in (case got of None \<Rightarrow> [] | Some x \<Rightarrow> [x]) @ receive_all r' raws)"

definition listening :: "transport_runtime \<Rightarrow> bool" where
  "listening r \<longleftrightarrow> (\<exists>t. tr_can r = Some t \<and> socketcan_valid t \<and> sc_has_handler t)"

abbreviation wire_get :: "raw_can_frame \<Rightarrow> can_frame option result" where
  "wire_get raw \<equiv> socketcan_receive (open_socketcan 0) (os_value (raw_frame_size, raw))"

lemma receive_step:
  assumes "listening r" "wire_get raw = success (Some f)"
  shows "receive_worker_step r (os_value (raw_frame_size, raw)) = (r\<lparr>tr_receive_sequence := tr_receive_sequence r + 1\<rparr>, Some (from_can f, tr_receive_sequence r + 1))"
proof -
  obtain t where t: "tr_can r = Some t" "socketcan_valid t" "sc_has_handler t" using assms(1) by (auto simp: listening_def)
  have "socketcan_receive t (os_value (raw_frame_size, raw)) = wire_get raw"
    using t(2) by (simp add: socketcan_receive_def socketcan_valid_def open_socketcan_def)
  then have "socketcan_receive_once t (os_value (raw_frame_size, raw)) = Some f" using assms(2) t(3) by (simp add: socketcan_receive_once_def success_def)
  then show ?thesis using t(1) by (simp add: receive_worker_step_def Let_def)
qed

lemma listening_sequence [simp]: "listening (r\<lparr>tr_receive_sequence := n\<rparr>) = listening r"
  by (simp add: listening_def)

lemma receive_all_frames:
  assumes "listening r" "\<forall>f \<in> set fs. frame_ok f"
  shows "receive_all r (raws_of fs) = map (\<lambda>(i, f). (wire_view f, tr_receive_sequence r + of_nat i + 1)) (enumerate 0 (filter (\<lambda>f. fm_address f \<le> CAN_SFF_MASK) fs))"
  using assms
proof (induction fs arbitrary: r)
  case Nil
  then show ?case by (simp add: raws_of_def)
next
  case (Cons f fs)
  obtain c where c: "to_can f = Some c" "can_id c = fm_address f" "length (can_data c) = 8" "valid_dlc (can_dlc c)" "from_can (trimmed c) = wire_view f"
    using Cons.prems(2) by (auto intro: to_can_ok)
  show ?case
  proof (cases "fm_address f \<le> CAN_SFF_MASK")
    case True
    then have "sc_accepts c" using c by (simp add: sc_accepts_def)
    from sc.put_accepted [OF c(3) this, of 0 0] obtain raw where raw: "wire_put c = (Some raw, success ())" "wire_get raw = success (Some (trimmed c))" by blast
    let ?r = "r\<lparr>tr_receive_sequence := tr_receive_sequence r + 1\<rparr>"
    have "raws_of (f # fs) = raw # raws_of fs" using c(1) raw(1) by (simp add: raws_of_def)
    then have "receive_all r (raws_of (f # fs)) = (wire_view f, tr_receive_sequence r + 1) # receive_all ?r (raws_of fs)"
      using receive_step [OF Cons.prems(1) raw(2)] c(5) by simp
    also have "receive_all ?r (raws_of fs) = map (\<lambda>(i, f). (wire_view f, tr_receive_sequence ?r + of_nat i + 1)) (enumerate 0 (filter (\<lambda>f. fm_address f \<le> CAN_SFF_MASK) fs))"
      using Cons.prems by (intro Cons.IH) simp_all
    finally show ?thesis using True by (simp add: enumerate_Suc_eq case_prod_beta algebra_simps enumerate_append_eq)
  next
    case False
    then have "\<not> sc_accepts c" using c by (simp add: sc_accepts_def)
    then have "fst (wire_put c) = None" using sc.put_refused [of c 0] by blast
    then show ?thesis using Cons False c(1) by (simp add: raws_of_def)
  qed
qed

text \<open>Claim C40.
  The newest command of every slot is put on the bus at most once, and exactly once when the socket takes it.  In a runtime
  with an open socket whose staged frames have at most eight bytes, one cycle offers, slot by slot, the newest staged frame
  that was not offered before, and leaves nothing pending, so that the next cycle repeats nothing.  A runtime that listens
  at the other end hands its callback the frames whose write took the whole frame, in the same order, with consecutive
  numbers, each with its address, its size and its payload, except those whose address is not an 11-bit identifier, which
  are refused.  A frame whose write fails is lost; when every write succeeds, no frame is.\<close>

theorem runtime_delivers_latest:
  assumes "tr_can r = Some t" "socketcan_valid t" "\<forall>f \<in> set (pending_frames (tr_slots r)). frame_ok f" "listening peer"
  shows "(\<exists>r' raws. can_cycle r ws = Some (r', raws) \<and> pending_frames (tr_slots r') = []
     \<and> receive_all peer raws = map (\<lambda>(i, f). (wire_view f, tr_receive_sequence peer + of_nat i + 1))
         (enumerate 0 (filter (\<lambda>f. fm_address f \<le> CAN_SFF_MASK) (written_frames (tr_slots r) ws))))
    \<and> (ws = replicate (length (tr_slots r)) (os_value raw_frame_size) \<longrightarrow> written_frames (tr_slots r) ws = pending_frames (tr_slots r))"
proof -
  obtain ss where "cycle_slots t (tr_slots r) ws = Some (ss, raws_of (written_frames (tr_slots r) ws))" "pending_frames ss = []"
    using cycle_slots_sends [OF assms(2,3)] by blast
  moreover have "\<forall>f \<in> set (written_frames (tr_slots r) ws). frame_ok f" using assms(3) written_pending by blast
  ultimately show ?thesis using assms(1) receive_all_frames [OF assms(4)] all_written by (simp add: can_cycle_def)
qed

definition staged_frame :: "u64 \<Rightarrow> u32 \<Rightarrow> bytes \<Rightarrow> device_frame" where
  "staged_frame n a bs = empty_frame\<lparr>fm_sequence := n, fm_address := a, fm_size := of_nat (length bs), fm_bytes := bs @ replicate (256 - length bs) 0\<rparr>"

definition idle_can_runtime :: transport_runtime where
  "idle_can_runtime = (case create_can (open_socketcan 3) True 2 of Inr r \<Rightarrow> r | Inl _ \<Rightarrow> undefined)"

definition staged_can_runtime :: transport_runtime where
  "staged_can_runtime = fst (stage_frame (fst (stage_frame (fst (stage_frame idle_can_runtime 1 (staged_frame 4 0x12 [1]))) 1 (staged_frame 5 0x12 [2, 3]))) 0
     (staged_frame 9 0x11 [7]))"

text \<open>With both writes taken both frames arrive; when the second write would block, its frame is lost.\<close>

theorem runtime_delivers_latest_witness:
  "(\<exists>r' raws. can_cycle staged_can_runtime [os_value 16, os_value 16] = Some (r', raws)
     \<and> receive_all idle_can_runtime raws = [(wire_view (staged_frame 9 0x11 [7]), 1), (wire_view (staged_frame 5 0x12 [2, 3]), 2)])
   \<and> (\<exists>r' raws. can_cycle staged_can_runtime [os_value 16, os_would_block] = Some (r', raws) \<and> pending_frames (tr_slots r') = []
     \<and> receive_all idle_can_runtime raws = [(wire_view (staged_frame 9 0x11 [7]), 1)])"
proof -
  have p: "pending_frames (tr_slots staged_can_runtime) = [staged_frame 9 0x11 [7], staged_frame 5 0x12 [2, 3]]" by code_simp
  have w: "written_frames (tr_slots staged_can_runtime) [os_value 16, os_value 16] = [staged_frame 9 0x11 [7], staged_frame 5 0x12 [2, 3]]"
    "written_frames (tr_slots staged_can_runtime) [os_value 16, os_would_block] = [staged_frame 9 0x11 [7]]" by code_simp+
  have t: "tr_can staged_can_runtime = Some (open_socketcan 3)" "socketcan_valid (open_socketcan 3)" by code_simp+
  have ok: "\<forall>f \<in> set (pending_frames (tr_slots staged_can_runtime)). frame_ok f" unfolding p by code_simp
  have l: "listening idle_can_runtime" unfolding listening_def by (intro exI [of _ "open_socketcan 3"]) code_simp
  have f: "filter (\<lambda>f. fm_address f \<le> CAN_SFF_MASK) [staged_frame 9 0x11 [7], staged_frame 5 0x12 [2, 3]] = [staged_frame 9 0x11 [7], staged_frame 5 0x12 [2, 3]]"
    "filter (\<lambda>f. fm_address f \<le> CAN_SFF_MASK) [staged_frame 9 0x11 [7]] = [staged_frame 9 0x11 [7]]"
    by (simp_all add: staged_frame_def CAN_SFF_MASK_def)
  have n: "tr_receive_sequence idle_can_runtime = 0" by code_simp
  from runtime_delivers_latest [OF t ok l, of "[os_value 16, os_value 16]"] runtime_delivers_latest [OF t ok l, of "[os_value 16, os_would_block]"]
  show ?thesis unfolding w f n by (auto simp: enumerate_eq_zip)
qed

section \<open>What staging lets through\<close>

text \<open>\<open>stage\<close> accepts any frame of up to 256 bytes, but the cycle then copies its payload into the eight bytes of a CAN
  frame: nine bytes are written out of bounds, and a size of 256 wraps to an empty frame.\<close>

lemma oversized_frame_staged:
  "snd (stage_frame idle_can_runtime 0 (staged_frame 1 0x11 (replicate 9 0))) = success () \<and> can_cycle (fst (stage_frame idle_can_runtime 0 (staged_frame 1 0x11 (replicate 9 0)))) [] = None"
  by code_simp

lemma wrapped_frame_sent:
  "(case can_cycle (fst (stage_frame idle_can_runtime 0 (staged_frame 1 0x11 (replicate 256 7)))) [os_value 16] of Some (_, [raw]) \<Rightarrow> raw_dlc raw = 0 | _ \<Rightarrow> False)"
  by code_simp

lemma motor_frames_fit: "encode_frame u a = success f \<Longrightarrow> frame_ok f"
  by (auto simp: encode_frame_def motor_frame_def frame_ok_def empty_frame_def encode_control_def encode_mit_def pack_mit_def Let_def success_def failure_def
      split: if_splits)

section \<open>Starting and stopping\<close>

lemma start_failure_stopped:
  assumes "\<not> tr_running r" "\<not> tr_worker r" "\<not> tr_receive_worker r" "runtime_start r opened threads = (r', Inl e)"
  shows "\<not> tr_running r' \<and> \<not> tr_worker r' \<and> \<not> tr_receive_worker r' \<and> (tr_transport_open r' \<longrightarrow> tr_transport_open r)"
  using assms by (auto simp: runtime_start_def runtime_stop_def Let_def success_def split: if_splits sum.splits)

lemma stop_idempotent: "runtime_stop (runtime_stop r) = runtime_stop r"
  by (simp add: runtime_stop_def)

section \<open>Motor commands\<close>

text \<open>A command with the fault-reset flag set stages the frame that redefines the zero position of the motor.\<close>

lemma fault_reset_rezeroes:
  assumes "index < length bindings" "bindings ! index = Some route" "index < length actuators" "db_transport_index route < length runtimes" "cv_fault_reset v"
  shows "snd (stage_damiao_command u actuators bindings runtimes index v) = runtimes[db_transport_index route :=
     fst (stage_frame (runtimes ! db_transport_index route) (db_transmit_slot route)
       ((motor_frame (actuators ! index) (encode_control dc_zero_position))\<lparr>fm_sequence := cv_sequence v\<rparr>))]"
  using assms by (simp add: stage_damiao_command_def Let_def encode_frame_def request_zero_position_def set_command_def set_enable_def set_disable_def
      motor_frame_def success_def)

text \<open>The slots of a bus are shared by the sensors and actuators of the topology, but a CAN runtime made with the
  default of 32 slots refuses the others: with seventeen motors on one bus, each with a sensor and an actuator, the
  commands of the last two are dropped.\<close>

definition motors_of :: "nat \<Rightarrow> device_config list" where
  "motors_of n = map (\<lambda>i. \<lparr>dv_name = ''m'', dv_type = ''damiao_motor'', dv_path = ''can0'', dv_args = [''motor_id'' \<mapsto> replicate i (CHR ''1'')]\<rparr>) [0..<n]"

lemma seventeenth_motor_unroutable:
  "(case compile_physical_topology (motors_of 17) (motors_of 17) of
      Inr t \<Rightarrow> map (\<lambda>d. (db_transport_index d, db_transmit_slot d)) (drop 14 (ct_devices t)) = [(0, 31), (0, 32), (0, 33)] | Inl _ \<Rightarrow> False)"
  "create_can (open_socketcan 3) True 32 = success r \<Longrightarrow> 32 \<le> slot \<Longrightarrow> stage_frame r slot f = (r, failure invalid_argument ''transport frame slot or size is invalid'')"
proof -
  show "case compile_physical_topology (motors_of 17) (motors_of 17) of
      Inr t \<Rightarrow> map (\<lambda>d. (db_transport_index d, db_transmit_slot d)) (drop 14 (ct_devices t)) = [(0, 31), (0, 32), (0, 33)] | Inl _ \<Rightarrow> False"
    by code_simp
  show "create_can (open_socketcan 3) True 32 = success r \<Longrightarrow> 32 \<le> slot \<Longrightarrow> stage_frame r slot f = (r, failure invalid_argument ''transport frame slot or size is invalid'')"
    by (auto simp: create_can_def stage_frame_def open_socketcan_def socketcan_valid_def)
qed

end
