(* ===== verification/Ethercat_Mailbox_Props.thy ===== *)
theory Ethercat_Mailbox_Props
  imports Ethercat_Mailbox
begin

text \<open>
  The EtherCAT mailbox under concurrency.  Clients queue requests and open or close the mailbox, an executor stages
  requests and the master's cycle is the owner that talks to the backend.  The step relation interleaves them at their
  atomic operations; \<open>p\<close> is the generation of the running master.
\<close>

section \<open>The request map\<close>

lemma map_of_update_request:
  "map_of (update_request i f rs) = (\<lambda>k. if k = i then map_option f (map_of rs i) else map_of rs k)"
  by (induction rs) (auto simp: update_request_def fun_eq_iff)

lemma map_of_update_request_at:
  "map_of rs i = Some r \<Longrightarrow> map_of (update_request i f rs) = (map_of rs)(i \<mapsto> f r)"
  by (auto simp: map_of_update_request fun_eq_iff)

lemma fst_update_request [simp]: "map fst (update_request i f rs) = map fst rs"
  by (induction rs) (auto simp: update_request_def)

lemma map_of_insert_request:
  assumes "map_of rs i = None"
  shows "map_of (insert_request i r rs) = (map_of rs)(i \<mapsto> r)"
  using assms
proof (induction rs)
  case (Cons e rs)
  then show ?case
    by (cases e) (auto simp: insert_request_def fun_eq_iff split: if_splits)
qed (simp add: insert_request_def)

lemma distinct_insert_request:
  assumes "map_of rs i = None" and "distinct (map fst rs)"
  shows "distinct (map fst (insert_request i r rs))"
proof -
  have "i \<notin> set (map fst rs)" using assms(1) by (simp add: map_of_eq_None_iff)
  moreover have "map fst rs = map fst (takeWhile (\<lambda>e. fst e < i) rs) @ map fst (dropWhile (\<lambda>e. fst e < i) rs)"
    by (simp flip: map_append)
  ultimately show ?thesis using assms(2) unfolding insert_request_def by auto
qed

section \<open>The system\<close>

datatype owner_pc =
    owner_idle | owner_calling u64 | owner_called u64 sdo_progress | owner_terminalizing u64 sdo_progress
  | owner_decided u64 sdo_progress bool

datatype closer_pc = no_close | exchanged u64 | failing u64 "u64 list" | waiting u64 u64 "u64 list"

record mailbox_system =
  mb_box :: ethercat_mailbox
  mb_active :: u64
  mb_owner :: owner_pc
  mb_closer :: closer_pc

fun lock_free :: "closer_pc \<Rightarrow> bool" where
  "lock_free no_close = True"
| "lock_free (exchanged _) = True"
| "lock_free _ = False"

definition requests_of :: "mailbox_system \<Rightarrow> u64 \<Rightarrow> sdo_request option" where
  "requests_of s = map_of (em_requests (mb_box s))"

definition set_requests :: "(u64 \<times> sdo_request) list \<Rightarrow> ethercat_mailbox \<Rightarrow> ethercat_mailbox" where
  "set_requests rs m = m\<lparr>em_requests := rs\<rparr>"

definition terminal :: "sdo_request \<Rightarrow> bool" where
  "terminal r \<longleftrightarrow> rq_phase r = completed \<or> rq_phase r = request_failed"

text \<open>One request of the closing loop: what becomes of it, or that the loop has to wait for it.\<close>

definition close_one :: "u64 \<Rightarrow> sdo_request \<Rightarrow> sdo_request option" where
  "close_one g r =
     (if rq_generation r \<noteq> g then Some r
      else if rq_phase r = terminalizing then None
      else Some (fail_request closed_failure id r))"

inductive mailbox_step :: "u64 \<Rightarrow> mailbox_system \<Rightarrow> mailbox_system \<Rightarrow> bool" for p where
  queue: "lock_free (mb_closer s) \<Longrightarrow> g \<noteq> 0 \<Longrightarrow>
     mailbox_step p s (s\<lparr>mb_box := fst (enqueue_locked (mb_box s) (mb_active s) g upload address data)\<rparr>)"
| stage: "lock_free (mb_closer s) \<Longrightarrow> mailbox_step p s (s\<lparr>mb_box := mailbox_cycle (mb_box s) (mb_active s)\<rparr>)"
| cancel: "mb_owner s = owner_idle \<Longrightarrow> em_cancel_requested_generation (mb_box s) \<noteq> 0 \<Longrightarrow>
     mailbox_step p s (s\<lparr>mb_box := owner_cancel (mb_box s) answer\<rparr>)"
| take_up: "mb_owner s = owner_idle \<Longrightarrow> em_cancel_requested_generation (mb_box s) = 0 \<Longrightarrow>
     owner_begin (mb_box s) (mb_active s) p = (m, Some i) \<Longrightarrow>
     mailbox_step p s (s\<lparr>mb_box := m, mb_owner := owner_calling i\<rparr>)"
| call: "mb_owner s = owner_calling i \<Longrightarrow> requests_of s i = Some r \<Longrightarrow> transfer_outcome answer r = (pr, r') \<Longrightarrow>
     mailbox_step p s (s\<lparr>mb_box := set_requests (update_request i (\<lambda>x. x\<lparr>rq_transfer := rq_transfer r'\<rparr>) (em_requests (mb_box s))) (mb_box s),
       mb_owner := (if sp_state pr = transfer_pending then owner_idle else owner_called i pr)\<rparr>)"
| terminalize: "mb_owner s = owner_called i pr \<Longrightarrow> owner_terminalize (mb_box s) i = (m, won) \<Longrightarrow>
     mailbox_step p s (s\<lparr>mb_box := m, mb_owner := (if won then owner_terminalizing i pr else owner_idle)\<rparr>)"
| decide: "mb_owner s = owner_terminalizing i pr \<Longrightarrow>
     mailbox_step p s (s\<lparr>mb_owner := owner_decided i pr (mb_active s = p \<and> em_open_generation (mb_box s) = p)\<rparr>)"
| publish: "mb_owner s = owner_decided i pr still_current \<Longrightarrow>
     mailbox_step p s (s\<lparr>mb_box := owner_publish (mb_box s) i pr still_current, mb_owner := owner_idle\<rparr>)"
| exchange: "mb_closer s = no_close \<Longrightarrow> em_open_generation (mb_box s) = g \<Longrightarrow> g \<noteq> 0 \<Longrightarrow>
     mailbox_step p s (s\<lparr>mb_box := (mb_box s)\<lparr>em_open_generation := 0\<rparr>, mb_closer := exchanged g\<rparr>)"
| lock: "mb_closer s = exchanged g \<Longrightarrow>
     mailbox_step p s (s\<lparr>mb_closer := failing g (map fst (em_requests (mb_box s)))\<rparr>)"
| fail_one: "mb_closer s = failing g (i # ks) \<Longrightarrow> requests_of s i = Some r \<Longrightarrow> close_one g r = Some r' \<Longrightarrow>
     mailbox_step p s (s\<lparr>mb_box := set_requests (update_request i (\<lambda>_. r') (em_requests (mb_box s))) (mb_box s), mb_closer := failing g ks\<rparr>)"
| wait_one: "mb_closer s = failing g (i # ks) \<Longrightarrow> requests_of s i = Some r \<Longrightarrow> close_one g r = None \<Longrightarrow>
     mailbox_step p s (s\<lparr>mb_closer := waiting g i ks\<rparr>)"
| wake: "mb_closer s = waiting g i ks \<Longrightarrow> requests_of s i = Some r \<Longrightarrow> rq_phase r \<noteq> terminalizing \<Longrightarrow>
     mailbox_step p s (s\<lparr>mb_box := set_requests (update_request i (fail_settled closed_failure) (em_requests (mb_box s))) (mb_box s),
       mb_closer := failing g ks\<rparr>)"
| finish: "mb_closer s = failing g [] \<Longrightarrow>
     mailbox_step p s (s\<lparr>mb_box := (mb_box s)\<lparr>em_cancel_requested_generation := g, em_health := failed\<rparr>, mb_closer := no_close\<rparr>)"
| reopen: "mb_closer s = no_close \<Longrightarrow>
     mailbox_step p s (s\<lparr>mb_box := fst (mailbox_open (mb_box s) (mb_active s) parent')\<rparr>)"
| parent_stops: "mailbox_step p s (s\<lparr>mb_active := 0\<rparr>)"

inductive mailbox_steps :: "u64 \<Rightarrow> mailbox_system \<Rightarrow> mailbox_system \<Rightarrow> bool" for p where
  steps_refl: "mailbox_steps p s s"
| steps_step: "mailbox_steps p s s' \<Longrightarrow> mailbox_step p s' s'' \<Longrightarrow> mailbox_steps p s s''"

definition opened_system :: "u64 \<Rightarrow> slave_address \<Rightarrow> mailbox_system" where
  "opened_system p slave = \<lparr>mb_box = fst (open_for_parent (make_mailbox True slave) p), mb_active = p, mb_owner = owner_idle,
     mb_closer = no_close\<rparr>"

section \<open>The invariant\<close>

fun owner_ok :: "owner_pc \<Rightarrow> u64 option \<Rightarrow> (u64 \<Rightarrow> sdo_request option) \<Rightarrow> bool" where
  "owner_ok owner_idle st rq \<longleftrightarrow> True"
| "owner_ok (owner_calling i) st rq \<longleftrightarrow> st = Some i \<and> (\<exists>r. rq i = Some r \<and> rq_phase r \<in> {active, request_failed})"
| "owner_ok (owner_called i _) st rq \<longleftrightarrow> st = Some i \<and> (\<exists>r. rq i = Some r \<and> rq_phase r \<in> {active, request_failed})"
| "owner_ok (owner_terminalizing i _) st rq \<longleftrightarrow> st = Some i \<and> (\<exists>r. rq i = Some r \<and> rq_phase r = terminalizing)"
| "owner_ok (owner_decided i _ _) st rq \<longleftrightarrow> st = Some i \<and> (\<exists>r. rq i = Some r \<and> rq_phase r = terminalizing)"

fun publishing :: "owner_pc \<Rightarrow> u64 option" where
  "publishing (owner_terminalizing i _) = Some i"
| "publishing (owner_decided i _ _) = Some i"
| "publishing _ = None"

text \<open>The generation a closing thread is failing, and the requests it has yet to look at.\<close>

fun pending_close :: "closer_pc \<Rightarrow> u64 \<Rightarrow> u64 \<Rightarrow> bool" where
  "pending_close no_close g i \<longleftrightarrow> False"
| "pending_close (exchanged h) g i \<longleftrightarrow> g = h"
| "pending_close (failing h ks) g i \<longleftrightarrow> g = h \<and> i \<in> set ks"
| "pending_close (waiting h k ks) g i \<longleftrightarrow> g = h \<and> (i = k \<or> i \<in> set ks)"

definition requests_ok :: "(u64 \<Rightarrow> sdo_request option) \<Rightarrow> u64 option \<Rightarrow> u64 \<Rightarrow> owner_pc \<Rightarrow> closer_pc \<Rightarrow> bool" where
  "requests_ok rq st op ow cl \<longleftrightarrow>
     (\<forall>i r. rq i = Some r \<longrightarrow> rq_generation r \<noteq> 0
        \<and> (rq_phase r = terminalizing \<longrightarrow> publishing ow = Some i)
        \<and> (rq_phase r \<in> {staged, active} \<longrightarrow> st = Some i)
        \<and> (\<not> terminal r \<longrightarrow> rq_generation r = op \<or> pending_close cl (rq_generation r) i))"

definition lifecycle_ok :: "u64 \<Rightarrow> u64 \<Rightarrow> closer_pc \<Rightarrow> bool" where
  "lifecycle_ok op cn cl \<longleftrightarrow> (cl \<noteq> no_close \<longrightarrow> op = 0) \<and> (cn \<noteq> 0 \<longrightarrow> op = 0 \<and> cl = no_close)"

definition mailbox_inv :: "mailbox_system \<Rightarrow> bool" where
  "mailbox_inv s \<longleftrightarrow>
     (let m = mb_box s
      in distinct (map fst (em_requests m)) \<and> owner_ok (mb_owner s) (em_staged_request m) (requests_of s)
       \<and> requests_ok (requests_of s) (em_staged_request m) (em_open_generation m) (mb_owner s) (mb_closer s)
       \<and> lifecycle_ok (em_open_generation m) (em_cancel_requested_generation m) (mb_closer s))"

lemma requests_okD:
  "requests_ok rq st op ow cl \<Longrightarrow> rq i = Some r \<Longrightarrow> rq_generation r \<noteq> 0
        \<and> (rq_phase r = terminalizing \<longrightarrow> publishing ow = Some i)
        \<and> (rq_phase r \<in> {staged, active} \<longrightarrow> st = Some i)
        \<and> (\<not> terminal r \<longrightarrow> rq_generation r = op \<or> pending_close cl (rq_generation r) i)"
  by (simp add: requests_ok_def)

text \<open>With no open generation and no closing thread every request is settled.\<close>

lemma closed_settled: "requests_ok rq st 0 ow no_close \<Longrightarrow> rq i = Some r \<Longrightarrow> terminal r"
  by (auto dest: requests_okD)

text \<open>Changing one request, or the owner and the closing thread around it.\<close>

lemma requests_ok_upd:
  assumes "requests_ok rq st op ow cl"
    and "rq_generation r \<noteq> 0" and "rq_phase r = terminalizing \<longrightarrow> publishing ow' = Some k"
    and "rq_phase r \<in> {staged, active} \<longrightarrow> st' = Some k"
    and "\<not> terminal r \<longrightarrow> rq_generation r = op \<or> pending_close cl' (rq_generation r) k"
    and "\<And>i x. i \<noteq> k \<Longrightarrow> rq i = Some x \<Longrightarrow> rq_phase x = terminalizing \<Longrightarrow> publishing ow' = publishing ow"
    and "\<And>i x. i \<noteq> k \<Longrightarrow> rq i = Some x \<Longrightarrow> rq_phase x \<in> {staged, active} \<Longrightarrow> st' = st"
    and "\<And>g i. i \<noteq> k \<Longrightarrow> pending_close cl g i \<Longrightarrow> pending_close cl' g i"
  shows "requests_ok (rq(k \<mapsto> r)) st' op ow' cl'"
  unfolding requests_ok_def
proof (intro allI impI)
  fix i x assume "(rq(k \<mapsto> r)) i = Some x"
  then consider "i = k" "x = r" | "i \<noteq> k" "rq i = Some x" by (auto split: if_splits)
  then show "rq_generation x \<noteq> 0 \<and> (rq_phase x = terminalizing \<longrightarrow> publishing ow' = Some i)
      \<and> (rq_phase x \<in> {staged, active} \<longrightarrow> st' = Some i)
      \<and> (\<not> terminal x \<longrightarrow> rq_generation x = op \<or> pending_close cl' (rq_generation x) i)"
  proof cases
    case 1 then show ?thesis using assms(2-5) by blast
  next
    case 2 then show ?thesis using requests_okD [OF assms(1) 2(2)] assms(6-8) by metis
  qed
qed

lemma requests_ok_mono:
  assumes "requests_ok rq st op ow cl" and "publishing ow' = publishing ow"
    and "\<And>g i r. rq i = Some r \<Longrightarrow> g \<noteq> 0 \<Longrightarrow> g = op \<or> pending_close cl g i \<Longrightarrow> g = op' \<or> pending_close cl' g i"
  shows "requests_ok rq st op' ow' cl'"
  using assms unfolding requests_ok_def by metis

lemma owner_ok_upd: "owner_ok ow st rq \<Longrightarrow> (rq k = None \<or> ow = owner_idle) \<Longrightarrow> owner_ok ow st (rq(k \<mapsto> r))"
  by (cases ow) auto

lemma owner_ok_staged: "owner_ok ow None rq \<Longrightarrow> ow = owner_idle"
  by (cases ow) auto

lemma requests_of_update [simp]:
  "requests_of (s\<lparr>mb_owner := q\<rparr>) = requests_of s" "requests_of (s\<lparr>mb_closer := c\<rparr>) = requests_of s"
  "requests_of (s\<lparr>mb_active := a\<rparr>) = requests_of s" "requests_of (s\<lparr>mb_box := m\<rparr>) = map_of (em_requests m)"
  "requests_of (s\<lparr>mb_box := m, mb_owner := q\<rparr>) = map_of (em_requests m)"
  "requests_of (s\<lparr>mb_box := m, mb_closer := c\<rparr>) = map_of (em_requests m)"
  by (simp_all add: requests_of_def)

text \<open>The effect of each operation on the request map.\<close>

lemma enqueue_locked_effect:
  assumes "distinct (map fst (em_requests m))"
    and "m' = fst (enqueue_locked m a g u ad dt)"
  shows "em_staged_request m' = em_staged_request m \<and> em_open_generation m' = em_open_generation m
     \<and> em_cancel_requested_generation m' = em_cancel_requested_generation m \<and> distinct (map fst (em_requests m'))
     \<and> (map_of (em_requests m') = map_of (em_requests m)
        \<or> em_open_generation m = g \<and> map_of (em_requests m) (em_next_request_id m) = None
          \<and> map_of (em_requests m') = (map_of (em_requests m))(em_next_request_id m \<mapsto> new_request g u ad dt))"
proof (cases "map_of (em_requests m) (em_next_request_id m) = None")
  case True
  note facts = map_of_insert_request [OF True] distinct_insert_request [OF True assms(1)]
  show ?thesis
    using True unfolding assms(2) enqueue_locked_def Let_def by (simp add: facts assms(1) del: map_of_eq_None_iff)
next
  case False
  then show ?thesis unfolding assms(2) enqueue_locked_def Let_def by (simp add: assms(1) del: map_of_eq_None_iff)
qed

lemma find_staged: "find (\<lambda>(i, r). P r) rs = Some (i, r) \<Longrightarrow> (i, r) \<in> set rs \<and> P r"
  by (auto simp: find_Some_iff) (metis nth_mem)

lemma mailbox_cycle_effect:
  assumes "distinct (map fst (em_requests m))"
    and m'_def: "m' = mailbox_cycle m a"
  shows "em_open_generation m' = em_open_generation m \<and> em_cancel_requested_generation m' = em_cancel_requested_generation m
     \<and> map fst (em_requests m') = map fst (em_requests m)
     \<and> (em_requests m' = em_requests m \<and> em_staged_request m' = em_staged_request m
        \<or> (\<exists>i r. em_staged_request m = None \<and> em_staged_request m' = Some i \<and> map_of (em_requests m) i = Some r \<and> rq_phase r = queued
             \<and> rq_generation r = em_open_generation m
             \<and> em_requests m' = update_request i (\<lambda>r. r\<lparr>rq_phase := staged\<rparr>) (em_requests m)))"
proof (cases "find (\<lambda>(i, r). rq_generation r = em_open_generation m \<and> rq_phase r = queued) (em_requests m)")
  case None
  then show ?thesis by (simp add: m'_def mailbox_cycle_def stage_one_def Let_def)
next
  case (Some e)
  then have e: "e \<in> set (em_requests m)" "rq_generation (snd e) = em_open_generation m" "rq_phase (snd e) = queued"
    using find_staged [of "\<lambda>r. rq_generation r = em_open_generation m \<and> rq_phase r = queued" "em_requests m" "fst e" "snd e"] by auto
  then have "map_of (em_requests m) (fst e) = Some (snd e)" using assms(1) by (simp add: map_of_eq_Some_iff)
  then show ?thesis using Some e by (auto simp: m'_def mailbox_cycle_def stage_one_def Let_def split: prod.splits)
qed

lemma owner_begin_effect:
  "owner_begin m a p = (m', Some i) \<Longrightarrow>
     em_staged_request m = Some i \<and> (\<exists>r. map_of (em_requests m) i = Some r \<and> rq_phase r \<in> {staged, active}
       \<and> (m' = m \<and> rq_phase r = active \<or> m' = m\<lparr>em_requests := update_request i (\<lambda>r. r\<lparr>rq_phase := active\<rparr>) (em_requests m)\<rparr>))"
  by (auto simp: owner_begin_def split: option.splits if_splits)

lemma owner_cancel_effect:
  "em_requests (owner_cancel m c) = em_requests m" "em_open_generation (owner_cancel m c) = em_open_generation m"
  "em_cancel_requested_generation (owner_cancel m c) \<in> {0, em_cancel_requested_generation m}"
  "em_staged_request (owner_cancel m c) \<in> {None, em_staged_request m}"
  by (auto simp: owner_cancel_def Let_def split: option.splits)

lemma settle_terminal: "terminal (settle_request pr b r)" "rq_generation (settle_request pr b r) = rq_generation r"
  by (simp_all add: settle_request_def terminal_def)

lemma fail_terminal: "terminal (fail_settled k r)" "rq_generation (fail_settled k r) = rq_generation r"
  by (simp_all add: fail_settled_def mark_failed_def terminal_def)

lemma close_one_effect:
  "close_one g r = Some r' \<Longrightarrow> (r' = r \<and> (rq_generation r \<noteq> g \<or> terminal r))
     \<or> (rq_generation r = g \<and> \<not> terminal r \<and> rq_phase r \<noteq> terminalizing \<and> r' = mark_failed closed_failure r)"
  by (auto simp: close_one_def fail_request_def terminal_def split: if_splits)

lemma mark_failed_simps [simp]:
  "rq_phase (mark_failed k r) = request_failed" "rq_generation (mark_failed k r) = rq_generation r" "terminal (mark_failed k r)"
  by (simp_all add: mark_failed_def terminal_def)

lemma terminal_phase: "terminal r \<Longrightarrow> rq_phase r \<noteq> terminalizing \<and> rq_phase r \<notin> {staged, active}"
  by (auto simp: terminal_def)

section \<open>Preservation\<close>

lemma inv_queue:
  assumes "mailbox_inv s" and "g \<noteq> 0"
  shows "mailbox_inv (s\<lparr>mb_box := fst (enqueue_locked (mb_box s) a g u ad dt)\<rparr>)"
proof -
  define m where "m = fst (enqueue_locked (mb_box s) a g u ad dt)"
  note I = assms(1) [unfolded mailbox_inv_def Let_def]
  note E = enqueue_locked_effect [OF conjunct1 [OF I] m_def]
  show ?thesis
  proof (cases "map_of (em_requests m) = requests_of s")
    case True
    then show ?thesis using E I by (simp add: mailbox_inv_def flip: m_def)
  next
    case False
    then have new: "em_open_generation (mb_box s) = g" "requests_of s (em_next_request_id (mb_box s)) = None"
        "map_of (em_requests m) = (requests_of s)(em_next_request_id (mb_box s) \<mapsto> new_request g u ad dt)"
      using E by (auto simp: requests_of_def)
    have "requests_ok (map_of (em_requests m)) (em_staged_request (mb_box s)) (em_open_generation (mb_box s)) (mb_owner s) (mb_closer s)"
      unfolding new(3) using I new(1) assms(2) by (intro requests_ok_upd) (auto simp: new_request_def)
    then show ?thesis using E I owner_ok_upd [of "mb_owner s" _ "requests_of s"] new by (simp add: mailbox_inv_def flip: m_def)
  qed
qed

lemma inv_stage: assumes "mailbox_inv s" shows "mailbox_inv (s\<lparr>mb_box := mailbox_cycle (mb_box s) a\<rparr>)"
proof -
  define m where "m = mailbox_cycle (mb_box s) a"
  note I = assms [unfolded mailbox_inv_def Let_def]
  note E = mailbox_cycle_effect [OF conjunct1 [OF I] m_def]
  show ?thesis
  proof (cases "em_requests m = em_requests (mb_box s) \<and> em_staged_request m = em_staged_request (mb_box s)")
    case True
    then show ?thesis using E I by (simp add: mailbox_inv_def requests_of_def flip: m_def)
  next
    case False
    then obtain i r where new: "em_staged_request (mb_box s) = None" "em_staged_request m = Some i" "requests_of s i = Some r"
        "rq_phase r = queued" "rq_generation r = em_open_generation (mb_box s)"
        "em_requests m = update_request i (\<lambda>r. r\<lparr>rq_phase := staged\<rparr>) (em_requests (mb_box s))"
      using E by (auto simp: requests_of_def)
    have rq: "map_of (em_requests m) = (requests_of s)(i \<mapsto> r\<lparr>rq_phase := staged\<rparr>)"
      using new(3) unfolding new(6) requests_of_def by (rule map_of_update_request_at)
    have idle: "mb_owner s = owner_idle" using I owner_ok_staged new(1) by metis
    have R: "requests_ok (requests_of s) None (em_open_generation (mb_box s)) (mb_owner s) (mb_closer s)" using I new(1) by simp
    have "requests_ok (map_of (em_requests m)) (Some i) (em_open_generation (mb_box s)) (mb_owner s) (mb_closer s)"
      unfolding rq using new requests_okD [OF R new(3)] by (intro requests_ok_upd [OF R]) (auto dest: requests_okD [OF R])
    then show ?thesis using E I new idle by (simp add: mailbox_inv_def flip: m_def)
  qed
qed

lemma inv_cancel:
  assumes "mailbox_inv s" and "mb_owner s = owner_idle" and "em_cancel_requested_generation (mb_box s) \<noteq> 0"
  shows "mailbox_inv (s\<lparr>mb_box := owner_cancel (mb_box s) c\<rparr>)"
proof -
  note I = assms(1) [unfolded mailbox_inv_def Let_def]
  have c: "em_open_generation (mb_box s) = 0" "mb_closer s = no_close" using I assms(3) by (auto simp: lifecycle_ok_def)
  then have "requests_ok (requests_of s) st 0 (mb_owner s) no_close" for st
    using I closed_settled [of "requests_of s"] unfolding requests_ok_def by (metis terminal_phase)
  then show ?thesis using I c assms(2) owner_cancel_effect [of "mb_box s" c]
    by (auto simp: mailbox_inv_def Let_def requests_of_def lifecycle_ok_def)
qed

lemma inv_take_up:
  assumes "mailbox_inv s" and "mb_owner s = owner_idle" and "owner_begin (mb_box s) a p = (m, Some i)"
  shows "mailbox_inv (s\<lparr>mb_box := m, mb_owner := owner_calling i\<rparr>)"
proof -
  note I = assms(1) [unfolded mailbox_inv_def Let_def]
  obtain r where r: "em_staged_request (mb_box s) = Some i" "requests_of s i = Some r" "rq_phase r \<in> {staged, active}"
      "m = mb_box s \<and> rq_phase r = active
        \<or> m = (mb_box s)\<lparr>em_requests := update_request i (\<lambda>r. r\<lparr>rq_phase := active\<rparr>) (em_requests (mb_box s))\<rparr>"
    using owner_begin_effect [OF assms(3)] by (auto simp: requests_of_def)
  have rq: "map_of (em_requests m) = (requests_of s)(i \<mapsto> r\<lparr>rq_phase := active\<rparr>)"
    using r(4)
  proof
    assume *: "m = mb_box s \<and> rq_phase r = active"
    then have "r\<lparr>rq_phase := active\<rparr> = r" by (cases r) simp
    then show ?thesis using * r(2) unfolding requests_of_def by (metis fun_upd_triv)
  next
    assume "m = (mb_box s)\<lparr>em_requests := update_request i (\<lambda>r. r\<lparr>rq_phase := active\<rparr>) (em_requests (mb_box s))\<rparr>"
    then show ?thesis using map_of_update_request_at [OF r(2) [unfolded requests_of_def]] unfolding requests_of_def by simp
  qed
  have R: "requests_ok (requests_of s) (Some i) (em_open_generation (mb_box s)) owner_idle (mb_closer s)"
    using I r(1) assms(2) by simp
  have "requests_ok (map_of (em_requests m)) (Some i) (em_open_generation (mb_box s)) (owner_calling i) (mb_closer s)"
    unfolding rq using r(3) requests_okD [OF R r(2)] by (intro requests_ok_upd [OF R]) (auto simp: terminal_def)
  then show ?thesis using I r rq by (auto simp: mailbox_inv_def)
qed

text \<open>The owner's later steps keep one request's generation and change its phase.\<close>

lemma inv_owner_request:
  assumes "mailbox_inv s" and "requests_of s i = Some r" and "rq_generation r' = rq_generation r"
    and "map fst rs = map fst (em_requests (mb_box s))" and "map_of rs = (requests_of s)(i \<mapsto> r')"
    and "owner_ok ow st (map_of rs)" and "em_staged_request (mb_box s) = Some i"
    and "rq_phase r' = terminalizing \<longrightarrow> publishing ow = Some i" and "rq_phase r' \<in> {staged, active} \<longrightarrow> st = Some i"
    and "terminal r \<longrightarrow> terminal r'" and "publishing (mb_owner s) \<in> {None, Some i}"
  shows "mailbox_inv (s\<lparr>mb_box := (mb_box s)\<lparr>em_requests := rs, em_health := hl, em_staged_request := st\<rparr>, mb_owner := ow\<rparr>)"
proof -
  note I = assms(1) [unfolded mailbox_inv_def Let_def]
  have R: "requests_ok (requests_of s) (Some i) (em_open_generation (mb_box s)) (mb_owner s) (mb_closer s)"
    using I assms(7) by simp
  have "requests_ok (map_of rs) st (em_open_generation (mb_box s)) ow (mb_closer s)"
    unfolding assms(5)
  proof (rule requests_ok_upd [OF R])
    note D = requests_okD [OF R assms(2)]
    show "rq_generation r' \<noteq> 0" using D assms(3) by simp
    show "\<not> terminal r' \<longrightarrow> rq_generation r' = em_open_generation (mb_box s) \<or> pending_close (mb_closer s) (rq_generation r') i"
      using D assms(3,10) by auto
  next
    fix j x assume x: "j \<noteq> i" "requests_of s j = Some x"
    note D = requests_okD [OF R x(2)]
    show "publishing ow = publishing (mb_owner s)" if "rq_phase x = terminalizing" using D that x(1) assms(11) by auto
    show "st = Some i" if "rq_phase x \<in> {staged, active}" using D that x(1) by simp
  qed (use assms(8,9) in blast)+
  then show ?thesis using I assms(4,6) by (simp add: mailbox_inv_def)
qed

lemma set_requests_full:
  "set_requests rs m = m\<lparr>em_requests := rs, em_health := em_health m, em_staged_request := em_staged_request m\<rparr>"
  by (simp add: set_requests_def)

lemma inv_call:
  assumes "mailbox_inv s" and "mb_owner s = owner_calling i" and "requests_of s i = Some r"
  shows "mailbox_inv (s\<lparr>mb_box := set_requests (update_request i (\<lambda>x. x\<lparr>rq_transfer := t\<rparr>) (em_requests (mb_box s))) (mb_box s),
       mb_owner := (if pending then owner_idle else owner_called i pr)\<rparr>)"
proof -
  note I = assms(1) [unfolded mailbox_inv_def Let_def]
  let ?rs = "update_request i (\<lambda>x. x\<lparr>rq_transfer := t\<rparr>) (em_requests (mb_box s))"
  have rq: "map_of ?rs = (requests_of s)(i \<mapsto> r\<lparr>rq_transfer := t\<rparr>)"
    using map_of_update_request_at [OF assms(3) [unfolded requests_of_def]] by (simp add: requests_of_def)
  have o: "em_staged_request (mb_box s) = Some i" "rq_phase r \<in> {active, request_failed}" using I assms(2,3) by auto
  show ?thesis
    unfolding set_requests_full
    by (rule inv_owner_request [OF assms(1,3), of "r\<lparr>rq_transfer := t\<rparr>"]) (use rq o assms(2) in \<open>auto simp: terminal_def\<close>)
qed

lemma inv_terminalize:
  assumes "mailbox_inv s" and "mb_owner s = owner_called i pr" and "owner_terminalize (mb_box s) i = (m, won)"
  shows "mailbox_inv (s\<lparr>mb_box := m, mb_owner := (if won then owner_terminalizing i pr else owner_idle)\<rparr>)"
proof -
  note I = assms(1) [unfolded mailbox_inv_def Let_def]
  obtain r where r: "requests_of s i = Some r" and o: "em_staged_request (mb_box s) = Some i" "rq_phase r \<in> {active, request_failed}"
    using I assms(2) by auto
  have m: "map_of (em_requests (mb_box s)) i = Some r" using r by (simp add: requests_of_def)
  show ?thesis
  proof (cases "rq_phase r = active")
    case True
    let ?rs = "update_request i (\<lambda>r. r\<lparr>rq_phase := terminalizing\<rparr>) (em_requests (mb_box s))"
    have w: won "m = set_requests ?rs (mb_box s)" using assms(3) True unfolding owner_terminalize_def m set_requests_def by auto
    have rq: "map_of ?rs = (requests_of s)(i \<mapsto> r\<lparr>rq_phase := terminalizing\<rparr>)"
      using map_of_update_request_at [OF m] by (simp add: requests_of_def)
    show ?thesis
      unfolding w(2) set_requests_full
      by (rule inv_owner_request [OF assms(1) r, of "r\<lparr>rq_phase := terminalizing\<rparr>"])
         (use rq o assms(2) w(1) True in \<open>auto simp: terminal_def\<close>)
  next
    case False
    then have w: "\<not> won" "m = mb_box s" using assms(3) unfolding owner_terminalize_def m by auto
    have "s\<lparr>mb_box := m, mb_owner := owner_idle\<rparr> = s\<lparr>mb_owner := owner_idle\<rparr>" by (simp add: w(2))
    moreover have "requests_ok (requests_of s) (Some i) (em_open_generation (mb_box s)) owner_idle (mb_closer s)"
      using I o(1) assms(2) by (simp add: requests_ok_def)
    ultimately show ?thesis using I w o(1) by (simp add: mailbox_inv_def)
  qed
qed

lemma inv_decide:
  assumes "mailbox_inv s" and "mb_owner s = owner_terminalizing i pr"
  shows "mailbox_inv (s\<lparr>mb_owner := owner_decided i pr b\<rparr>)"
  using assms requests_ok_mono [of "requests_of s" _ _ "mb_owner s" _ "owner_decided i pr b"]
  by (auto simp: mailbox_inv_def Let_def)

lemma inv_publish:
  assumes "mailbox_inv s" and "mb_owner s = owner_decided i pr b"
  shows "mailbox_inv (s\<lparr>mb_box := owner_publish (mb_box s) i pr b, mb_owner := owner_idle\<rparr>)"
proof -
  note I = assms(1) [unfolded mailbox_inv_def Let_def]
  obtain r where r: "requests_of s i = Some r" and o: "em_staged_request (mb_box s) = Some i" using I assms(2) by auto
  have rq: "map_of (update_request i (settle_request pr b) (em_requests (mb_box s))) = (requests_of s)(i \<mapsto> settle_request pr b r)"
    using map_of_update_request_at [OF r [unfolded requests_of_def]] by (simp add: requests_of_def)
  show ?thesis
    unfolding owner_publish_def Let_def
    by (rule inv_owner_request [OF assms(1) r, of "settle_request pr b r"])
       (use rq o assms(2) settle_terminal [of pr b r] terminal_phase [of "settle_request pr b r"] in auto)
qed

text \<open>The closing thread.\<close>

lemma inv_exchange:
  assumes "mailbox_inv s" and "mb_closer s = no_close" and "em_open_generation (mb_box s) = g" and "g \<noteq> 0"
  shows "mailbox_inv (s\<lparr>mb_box := (mb_box s)\<lparr>em_open_generation := 0\<rparr>, mb_closer := exchanged g\<rparr>)"
  using assms by (auto simp: mailbox_inv_def Let_def requests_ok_def lifecycle_ok_def requests_of_def)

lemma inv_lock:
  assumes "mailbox_inv s" and "mb_closer s = exchanged g"
  shows "mailbox_inv (s\<lparr>mb_closer := failing g (map fst (em_requests (mb_box s)))\<rparr>)"
proof -
  have "i \<in> set (map fst (em_requests (mb_box s)))" if "requests_of s i = Some r" for i r
    using map_of_SomeD [OF that [unfolded requests_of_def]] by force
  then show ?thesis
    using assms requests_ok_mono [of "requests_of s" _ "em_open_generation (mb_box s)" "mb_owner s" "exchanged g" "mb_owner s" _
        "failing g (map fst (em_requests (mb_box s)))"]
    by (auto simp: mailbox_inv_def Let_def lifecycle_ok_def)
qed

lemma inv_fail_one:
  assumes "mailbox_inv s" and "mb_closer s = failing g (i # ks)" and "requests_of s i = Some r" and "close_one g r = Some r'"
  shows "mailbox_inv (s\<lparr>mb_box := set_requests (update_request i (\<lambda>_. r') (em_requests (mb_box s))) (mb_box s), mb_closer := failing g ks\<rparr>)"
proof -
  note I = assms(1) [unfolded mailbox_inv_def Let_def]
  have R: "requests_ok (requests_of s) (em_staged_request (mb_box s)) 0 (mb_owner s) (failing g (i # ks))"
    using I assms(2) by (auto simp: lifecycle_ok_def)
  have rq: "map_of (update_request i (\<lambda>_. r') (em_requests (mb_box s))) = (requests_of s)(i \<mapsto> r')"
    using map_of_update_request_at [OF assms(3) [unfolded requests_of_def]] by (simp add: requests_of_def)
  have ok: "owner_ok (mb_owner s) (em_staged_request (mb_box s)) ((requests_of s)(i \<mapsto> r'))"
    using I close_one_effect [OF assms(4)] assms(3) by (cases "mb_owner s") (auto simp: terminal_def)
  have "requests_ok ((requests_of s)(i \<mapsto> r')) (em_staged_request (mb_box s)) 0 (mb_owner s) (failing g ks)"
    using close_one_effect [OF assms(4)] requests_okD [OF R assms(3)] by (intro requests_ok_upd [OF R]) auto
  then show ?thesis using I assms(2) rq ok by (simp add: mailbox_inv_def set_requests_def lifecycle_ok_def)
qed

lemma inv_wait_one:
  assumes "mailbox_inv s" and "mb_closer s = failing g (i # ks)"
  shows "mailbox_inv (s\<lparr>mb_closer := waiting g i ks\<rparr>)"
  using assms requests_ok_mono [of "requests_of s" _ "em_open_generation (mb_box s)" "mb_owner s" "failing g (i # ks)" "mb_owner s" _ "waiting g i ks"]
  by (auto simp: mailbox_inv_def Let_def lifecycle_ok_def)

lemma inv_wake:
  assumes "mailbox_inv s" and "mb_closer s = waiting g i ks" and "requests_of s i = Some r" and "rq_phase r \<noteq> terminalizing"
  shows "mailbox_inv (s\<lparr>mb_box := set_requests (update_request i (fail_settled closed_failure) (em_requests (mb_box s))) (mb_box s),
     mb_closer := failing g ks\<rparr>)"
proof -
  note I = assms(1) [unfolded mailbox_inv_def Let_def]
  let ?r = "fail_settled closed_failure r"
  have R: "requests_ok (requests_of s) (em_staged_request (mb_box s)) 0 (mb_owner s) (waiting g i ks)"
    using I assms(2) by (auto simp: lifecycle_ok_def)
  have rq: "map_of (update_request i (fail_settled closed_failure) (em_requests (mb_box s))) = (requests_of s)(i \<mapsto> ?r)"
    using map_of_update_request_at [OF assms(3) [unfolded requests_of_def]] by (simp add: requests_of_def)
  have failed_phase: "rq_phase ?r = request_failed" by (simp add: fail_settled_def)
  have ok: "owner_ok (mb_owner s) (em_staged_request (mb_box s)) ((requests_of s)(i \<mapsto> ?r))"
    using I assms(3,4) failed_phase by (cases "mb_owner s") auto
  have "requests_ok ((requests_of s)(i \<mapsto> ?r)) (em_staged_request (mb_box s)) 0 (mb_owner s) (failing g ks)"
    using requests_okD [OF R assms(3)] fail_terminal [of closed_failure r] failed_phase by (intro requests_ok_upd [OF R]) auto
  then show ?thesis using I assms(2) rq ok by (simp add: mailbox_inv_def set_requests_def lifecycle_ok_def)
qed

lemma inv_finish:
  assumes "mailbox_inv s" and "mb_closer s = failing g []"
  shows "mailbox_inv (s\<lparr>mb_box := (mb_box s)\<lparr>em_cancel_requested_generation := g, em_health := failed\<rparr>, mb_closer := no_close\<rparr>)"
  using assms by (auto simp: mailbox_inv_def Let_def requests_ok_def lifecycle_ok_def requests_of_def)

lemma mailbox_open_effect:
  "fst (mailbox_open m a a') = m
   \<or> em_open_generation m = 0 \<and> em_cancel_requested_generation m = 0
     \<and> fst (mailbox_open m a a') = m\<lparr>em_open_generation := a, em_health := healthy\<rparr>"
  unfolding mailbox_open_def by (simp only: if_distrib [of fst] fst_conv split: if_split) blast

lemma inv_reopen:
  assumes "mailbox_inv s" and "mb_closer s = no_close"
  shows "mailbox_inv (s\<lparr>mb_box := fst (mailbox_open (mb_box s) a a')\<rparr>)"
  using mailbox_open_effect [of "mb_box s" a a']
proof (elim disjE conjE)
  assume o: "em_open_generation (mb_box s) = 0" "em_cancel_requested_generation (mb_box s) = 0"
      "fst (mailbox_open (mb_box s) a a') = (mb_box s)\<lparr>em_open_generation := a, em_health := healthy\<rparr>"
  note I = assms(1) [unfolded mailbox_inv_def Let_def]
  have R: "requests_ok (requests_of s) (em_staged_request (mb_box s)) 0 (mb_owner s) no_close" using I o(1) assms(2) by simp
  have "requests_ok (requests_of s) (em_staged_request (mb_box s)) a (mb_owner s) no_close"
    by (rule requests_ok_mono [OF R refl]) simp
  then show ?thesis using I o assms(2) by (simp add: mailbox_inv_def lifecycle_ok_def requests_of_def)
next
  assume "fst (mailbox_open (mb_box s) a a') = mb_box s"
  then show ?thesis using assms(1) by simp
qed

lemma inv_step: "mailbox_step p s s' \<Longrightarrow> mailbox_inv s \<Longrightarrow> mailbox_inv s'"
proof (induction rule: mailbox_step.induct)
  case (parent_stops s)
  then show ?case by (simp add: mailbox_inv_def Let_def)
qed (rule inv_queue inv_stage inv_cancel inv_take_up inv_call inv_terminalize inv_decide inv_publish inv_exchange inv_lock
     inv_fail_one inv_wait_one inv_wake inv_finish inv_reopen; assumption)+

lemma inv_opened: "p \<noteq> 0 \<Longrightarrow> mailbox_inv (opened_system p slave)"
  by (simp add: opened_system_def open_for_parent_def make_mailbox_def mailbox_inv_def requests_ok_def lifecycle_ok_def requests_of_def)

lemma inv_reachable: "mailbox_steps p s s' \<Longrightarrow> mailbox_inv s \<Longrightarrow> mailbox_inv s'"
  by (induction rule: mailbox_steps.induct) (blast intro: inv_step)+

section \<open>Settled requests\<close>

text \<open>
  A settled request that no closing thread waits for keeps its outcome; the backend may still write into the buffer of a
  failed upload.
\<close>

definition same_outcome :: "sdo_request \<Rightarrow> sdo_request \<Rightarrow> bool" where
  "same_outcome r r' \<longleftrightarrow> r' = r\<lparr>rq_transfer := rq_transfer r'\<rparr> \<and> (rq_phase r = completed \<longrightarrow> r' = r)"

definition settled :: "mailbox_system \<Rightarrow> u64 \<Rightarrow> sdo_request \<Rightarrow> bool" where
  "settled s i r \<longleftrightarrow> terminal r \<and> (\<forall>g ks. mb_closer s \<noteq> waiting g i ks) \<and> (\<exists>x. requests_of s i = Some x \<and> same_outcome r x)"

lemma same_outcome_phase: "same_outcome r x \<Longrightarrow> rq_phase x = rq_phase r"
  unfolding same_outcome_def by (metis sdo_request.select_convs(4) sdo_request.surjective sdo_request.update_convs(3))

lemma same_outcome_refl [simp]: "same_outcome r r"
  by (simp add: same_outcome_def)

lemma same_outcome_transfer:
  assumes "same_outcome r x" and "rq_phase x \<noteq> completed"
  shows "same_outcome r (x\<lparr>rq_transfer := t\<rparr>)"
proof -
  have x: "x = r\<lparr>rq_transfer := rq_transfer x\<rparr>" using assms(1) by (simp add: same_outcome_def)
  have "x\<lparr>rq_transfer := t\<rparr> = r\<lparr>rq_transfer := t\<rparr>" by (subst x) simp
  then show ?thesis using assms same_outcome_phase [OF assms(1)] by (simp add: same_outcome_def)
qed

lemma settled_keep:
  assumes "settled s i r" and "requests_of s' i = requests_of s i" and "\<forall>g ks. mb_closer s' \<noteq> waiting g i ks"
  shows "settled s' i r"
  using assms by (simp add: settled_def)

lemma update_other: "i \<noteq> k \<Longrightarrow> map_of (update_request k f rs) i = map_of rs i"
  by (simp add: map_of_update_request)

lemma settledD:
  assumes "settled s i r"
  obtains x where "requests_of s i = Some x" "same_outcome r x" "terminal x" "rq_phase x = rq_phase r"
  using assms same_outcome_phase unfolding settled_def terminal_def by metis

lemma settled_step:
  assumes "mailbox_step p s s'" and "mailbox_inv s" and "settled s i r"
  shows "settled s' i r"
  using assms
proof (induction rule: mailbox_step.induct)
  case (queue s g u ad dt)
  have "map_of (em_requests (fst (enqueue_locked (mb_box s) (mb_active s) g u ad dt))) i = requests_of s i"
    using enqueue_locked_effect [OF _ refl, of "mb_box s" "mb_active s" g u ad dt] queue(3,4)
    by (auto simp: mailbox_inv_def Let_def requests_of_def settled_def)
  then show ?case using queue(1,4) by (intro settled_keep [OF queue(4)]) (auto simp: settled_def)
next
  case (stage s)
  obtain x where x: "requests_of s i = Some x" "terminal x" using settledD [OF stage(3)] by metis
  have d: "distinct (map fst (em_requests (mb_box s)))" using stage(2) by (simp add: mailbox_inv_def Let_def)
  consider "em_requests (mailbox_cycle (mb_box s) (mb_active s)) = em_requests (mb_box s)"
    | k y where "requests_of s k = Some y" "rq_phase y = queued"
        "em_requests (mailbox_cycle (mb_box s) (mb_active s)) = update_request k (\<lambda>r. r\<lparr>rq_phase := staged\<rparr>) (em_requests (mb_box s))"
    using mailbox_cycle_effect [OF d refl, of "mb_active s"] unfolding requests_of_def by blast
  then have "map_of (em_requests (mailbox_cycle (mb_box s) (mb_active s))) i = requests_of s i"
  proof cases
    case 2
    then have "i \<noteq> k" using x by (auto simp: terminal_def)
    then show ?thesis unfolding 2(3) requests_of_def by (rule update_other)
  qed (simp add: requests_of_def)
  then show ?case using stage(3) by (intro settled_keep [OF stage(3)]) (auto simp: settled_def)
next
  case (take_up s m k)
  obtain x where x: "requests_of s i = Some x" "terminal x" using settledD [OF take_up(5)] by metis
  have "map_of (em_requests m) i = requests_of s i"
    using owner_begin_effect [OF take_up(3)] x by (auto simp: requests_of_def terminal_def map_of_update_request)
  then show ?case using take_up(5) by (intro settled_keep [OF take_up(5)]) (auto simp: settled_def)
next
  case (call s k y answer pr y')
  obtain x where x: "requests_of s i = Some x" "same_outcome r x" using settledD [OF call(5)] by metis
  have "rq_phase x \<noteq> completed" if "k = i" using call(1,4) that x(1) by (auto simp: mailbox_inv_def Let_def)
  then have "\<exists>z. map_of (update_request k (\<lambda>x. x\<lparr>rq_transfer := rq_transfer y'\<rparr>) (em_requests (mb_box s))) i = Some z \<and> same_outcome r z"
    using x same_outcome_transfer by (auto simp: map_of_update_request requests_of_def)
  then show ?case using call(5) by (simp add: settled_def set_requests_def)
next
  case (terminalize s k pr m won)
  obtain x where x: "requests_of s i = Some x" "terminal x" using settledD [OF terminalize(4)] by metis
  have "map_of (em_requests m) i = requests_of s i"
    using terminalize(2) x by (auto simp: owner_terminalize_def requests_of_def terminal_def map_of_update_request split: option.splits if_splits)
  then show ?case using terminalize(4) by (intro settled_keep [OF terminalize(4)]) (auto simp: settled_def)
next
  case (publish s k pr b)
  obtain x where x: "requests_of s i = Some x" "terminal x" using settledD [OF publish(3)] by metis
  have "i \<noteq> k" using publish(1,2) x by (auto simp: mailbox_inv_def Let_def terminal_def)
  then show ?case using publish(3) by (intro settled_keep [OF publish(3)]) (auto simp: settled_def owner_publish_def Let_def requests_of_def update_other)
next
  case (fail_one s g k ks y y')
  obtain x where x: "requests_of s i = Some x" "terminal x" using settledD [OF fail_one(5)] by metis
  have "map_of (update_request k (\<lambda>_. y') (em_requests (mb_box s))) i = requests_of s i"
    using close_one_effect [OF fail_one(3)] fail_one(2) x by (cases "k = i") (auto simp: map_of_update_request requests_of_def)
  then show ?case using fail_one(5) by (intro settled_keep [OF fail_one(5)]) (auto simp: settled_def set_requests_def)
next
  case (wait_one s g k ks y)
  obtain x where x: "requests_of s i = Some x" "terminal x" using settledD [OF wait_one(5)] by metis
  have "k \<noteq> i" using wait_one(2,3) x by (auto simp: close_one_def terminal_def split: if_splits)
  then show ?case using wait_one(5) by (simp add: settled_def)
next
  case (wake s g k ks y)
  have "k \<noteq> i" using wake(1,5) by (auto simp: settled_def)
  then show ?case using wake(5) by (intro settled_keep [OF wake(5)]) (auto simp: settled_def set_requests_def requests_of_def update_other)
next
  case (reopen s parent')
  have "em_requests (fst (mailbox_open (mb_box s) (mb_active s) parent')) = em_requests (mb_box s)" by (simp add: mailbox_open_def)
  then show ?case using reopen by (simp add: settled_def requests_of_def)
qed (simp_all add: settled_def owner_cancel_effect requests_of_def)

lemma settled_steps: "mailbox_steps p s s' \<Longrightarrow> mailbox_inv s \<Longrightarrow> settled s i r \<Longrightarrow> settled s' i r"
  by (induction rule: mailbox_steps.induct) (blast intro: settled_step inv_reachable)+

lemma settled_status:
  assumes "settled s i r" and "settled s' i r"
  shows "mailbox_status (mb_box s') i = mailbox_status (mb_box s) i"
proof -
  obtain x y where x: "requests_of s i = Some x" "same_outcome r x" and y: "requests_of s' i = Some y" "same_outcome r y"
    using assms settledD by metis
  have t: "terminal r" using assms(1) by (simp add: settled_def)
  have xy: "x = r\<lparr>rq_transfer := rq_transfer x\<rparr>" "y = r\<lparr>rq_transfer := rq_transfer y\<rparr>"
      "rq_phase r = completed \<Longrightarrow> x = r \<and> y = r"
    using x(2) y(2) unfolding same_outcome_def by blast+
  have status: "mailbox_status m i = mailbox_status m' i"
    if "map_of (em_requests m) i = Some (r\<lparr>rq_transfer := u\<rparr>)" "map_of (em_requests m') i = Some (r\<lparr>rq_transfer := v\<rparr>)"
      "rq_phase r = completed \<Longrightarrow> u = v" for m m' u v
    using that t unfolding mailbox_status_def that(1,2) option.case by (auto simp: terminal_def Let_def)
  show ?thesis
    using x(1) y(1) xy unfolding requests_of_def by (intro status [of _ "rq_transfer y" _ "rq_transfer x"]) auto
qed

text \<open>Exactly one request at most is with the owner.\<close>

lemma in_flight_staged:
  assumes "mailbox_inv s" and "requests_of s i = Some r" and "rq_phase r \<in> {staged, active, terminalizing}"
  shows "em_staged_request (mb_box s) = Some i"
proof (cases "rq_phase r = terminalizing")
  case True
  then have "publishing (mb_owner s) = Some i" using assms(1,2) by (auto simp: mailbox_inv_def Let_def dest: requests_okD)
  then show ?thesis using assms(1) by (cases "mb_owner s") (auto simp: mailbox_inv_def Let_def)
next
  case False
  then show ?thesis using assms by (auto simp: mailbox_inv_def Let_def dest: requests_okD)
qed

section \<open>Concrete runs\<close>

text \<open>
  A download that the owner completes while the mailbox is being closed: the owner has decided that the request is current
  just before the closing thread takes the generation away.
\<close>

definition run_request :: "request_phase \<Rightarrow> sdo_request" where
  "run_request ph = (new_request 1 False (0x2000, 0) [5])\<lparr>rq_phase := ph\<rparr>"

definition run_state :: "request_phase \<Rightarrow> u64 option \<Rightarrow> u64 \<Rightarrow> u64 \<Rightarrow> transport_health \<Rightarrow> owner_pc \<Rightarrow> closer_pc \<Rightarrow> mailbox_system" where
  "run_state ph st op cn hl ow cl =
     \<lparr>mb_box = \<lparr>em_has_backend = True, em_has_owner = True, em_slave = (0, 1), em_requests = [(1, run_request ph)],
        em_staged_request = st, em_next_request_id = 2, em_open_generation = op, em_cancel_requested_generation = cn,
        em_health = hl\<rparr>, mb_active = 1, mb_owner = ow, mb_closer = cl\<rparr>"

definition run_decided :: mailbox_system where
  "run_decided = run_state terminalizing (Some 1) 1 0 healthy (owner_decided 1 (sdo_completed 0) True) no_close"
definition run_exchanged :: mailbox_system where
  "run_exchanged = run_state terminalizing (Some 1) 0 0 healthy (owner_decided 1 (sdo_completed 0) True) (exchanged 1)"
definition run_published :: mailbox_system where
  "run_published = run_state completed None 0 0 healthy owner_idle (exchanged 1)"
definition run_closed :: mailbox_system where
  "run_closed = run_state completed None 0 1 failed owner_idle no_close"

lemmas run_simps = run_state_def run_request_def requests_of_def update_request_def new_request_def set_requests_def sdo_completed_def

lemma run_to_decided: "mailbox_steps 1 (opened_system 1 (0, 1)) run_decided"
proof -
  have s1: "mailbox_step 1 (opened_system 1 (0, 1)) (run_state queued None 1 0 healthy owner_idle no_close)"
    using queue [of "opened_system 1 (0, 1)" 1 1 False "(0x2000, 0)" "[5]"]
    by (simp add: opened_system_def open_for_parent_def make_mailbox_def enqueue_locked_def insert_request_def run_simps)
  have s2: "mailbox_step 1 (run_state queued None 1 0 healthy owner_idle no_close) (run_state staged (Some 1) 1 0 healthy owner_idle no_close)"
    using stage [of "run_state queued None 1 0 healthy owner_idle no_close" 1]
    by (simp add: mailbox_cycle_def stage_one_def run_simps)
  have s3: "mailbox_step 1 (run_state staged (Some 1) 1 0 healthy owner_idle no_close)
      (run_state active (Some 1) 1 0 healthy (owner_calling 1) no_close)"
    using take_up [of "run_state staged (Some 1) 1 0 healthy owner_idle no_close" 1
        "mb_box (run_state active (Some 1) 1 0 healthy (owner_calling 1) no_close)" 1]
    by (simp add: owner_begin_def run_simps)
  have s4: "mailbox_step 1 (run_state active (Some 1) 1 0 healthy (owner_calling 1) no_close)
      (run_state active (Some 1) 1 0 healthy (owner_called 1 (sdo_completed 0)) no_close)"
    using call [of "run_state active (Some 1) 1 0 healthy (owner_calling 1) no_close" 1 "run_request active"
        "Some (sdo_completed 0, [])" "sdo_completed 0" "run_request active" 1]
    by (simp add: transfer_outcome_def run_simps)
  have s5: "mailbox_step 1 (run_state active (Some 1) 1 0 healthy (owner_called 1 (sdo_completed 0)) no_close)
      (run_state terminalizing (Some 1) 1 0 healthy (owner_terminalizing 1 (sdo_completed 0)) no_close)"
    using terminalize [of "run_state active (Some 1) 1 0 healthy (owner_called 1 (sdo_completed 0)) no_close" 1 "sdo_completed 0"
        "mb_box (run_state terminalizing (Some 1) 1 0 healthy owner_idle no_close)" True 1]
    by (simp add: owner_terminalize_def run_simps)
  have s6: "mailbox_step 1 (run_state terminalizing (Some 1) 1 0 healthy (owner_terminalizing 1 (sdo_completed 0)) no_close) run_decided"
    using decide [of "run_state terminalizing (Some 1) 1 0 healthy (owner_terminalizing 1 (sdo_completed 0)) no_close" 1 "sdo_completed 0" 1]
    by (simp add: run_decided_def run_simps)
  show ?thesis
    by (rule steps_step [OF steps_step [OF steps_step [OF steps_step [OF steps_step [OF steps_step [OF steps_refl s1] s2] s3] s4] s5] s6])
qed

lemma run_to_closed:
  "mailbox_steps 1 run_decided run_exchanged" "mailbox_steps 1 run_exchanged run_published" "mailbox_steps 1 run_published run_closed"
proof -
  show "mailbox_steps 1 run_decided run_exchanged"
    using exchange [of run_decided 1 1] by (auto simp: run_decided_def run_exchanged_def run_simps intro: steps_step steps_refl)
  show "mailbox_steps 1 run_exchanged run_published"
    using publish [of run_exchanged 1 "sdo_completed 0" True 1]
    by (auto simp: run_exchanged_def run_published_def owner_publish_def settle_request_def run_simps intro: steps_step steps_refl)
  have "mailbox_step 1 run_published (run_published\<lparr>mb_closer := failing 1 [1]\<rparr>)"
    using lock [of run_published 1 1] by (simp add: run_published_def run_simps)
  moreover have "mailbox_step 1 (run_published\<lparr>mb_closer := failing 1 [1]\<rparr>) (run_published\<lparr>mb_closer := failing 1 []\<rparr>)"
    using fail_one [of "run_published\<lparr>mb_closer := failing 1 [1]\<rparr>" 1 1 "[]" "run_request completed" "run_request completed" 1]
    by (simp add: run_published_def close_one_def fail_request_def run_simps)
  moreover have "mailbox_step 1 (run_published\<lparr>mb_closer := failing 1 []\<rparr>) run_closed"
    using finish [of "run_published\<lparr>mb_closer := failing 1 []\<rparr>" 1 1] by (simp add: run_published_def run_closed_def run_simps)
  ultimately show "mailbox_steps 1 run_published run_closed" by (blast intro: steps_step steps_refl)
qed

lemma steps_trans: "mailbox_steps p s' s'' \<Longrightarrow> mailbox_steps p s s' \<Longrightarrow> mailbox_steps p s s''"
  by (induction rule: mailbox_steps.induct) (blast intro: steps_step)+

text \<open>
  A status read before a request is settled is not final even when it says failed: between the exchange and the lock a
  client reads that the mailbox was closed before completion, and afterwards that the same request completed.
\<close>

lemma failed_status_can_change:
  "\<exists>s s'. mailbox_steps 1 (opened_system 1 (0, 1)) s \<and> mailbox_steps 1 s s' \<and> lock_free (mb_closer s) \<and> lock_free (mb_closer s')
     \<and> map_option ms_state (mailbox_status (mb_box s) 1) = Some state_failed
     \<and> map_option ms_state (mailbox_status (mb_box s') 1) = Some state_completed"
proof (intro exI conjI)
  show "mailbox_steps 1 (opened_system 1 (0, 1)) run_exchanged" using run_to_decided run_to_closed(1) steps_trans by blast
  show "mailbox_steps 1 run_exchanged run_published" by (rule run_to_closed(2))
qed (simp_all add: run_exchanged_def run_published_def run_simps mailbox_status_def)

text \<open>Claim C16.  In every interleaving of clients, executor and owner: when a close has finished every request of the
  mailbox is completed or failed; at most one request is staged, active or being published at any time; a closing thread
  that waits for a request waits for an owner that is about to publish it; and a request that is completed or failed while
  the request lock is free has the same status from then on.
\<close>

theorem mailbox_requests_settle:
  assumes "p \<noteq> 0" and "mailbox_steps p (opened_system p slave) s"
  shows "(em_open_generation (mb_box s) = 0 \<and> mb_closer s = no_close \<longrightarrow>
        (\<forall>i r. map_of (em_requests (mb_box s)) i = Some r \<longrightarrow> rq_phase r \<in> {completed, request_failed}))
    \<and> (\<forall>i j r x. map_of (em_requests (mb_box s)) i = Some r \<longrightarrow> map_of (em_requests (mb_box s)) j = Some x \<longrightarrow>
        rq_phase r \<in> {staged, active, terminalizing} \<longrightarrow> rq_phase x \<in> {staged, active, terminalizing} \<longrightarrow> i = j)
    \<and> (\<forall>g i ks r. mb_closer s = waiting g i ks \<longrightarrow> map_of (em_requests (mb_box s)) i = Some r \<longrightarrow> rq_phase r = terminalizing \<longrightarrow>
        (\<exists>pr. mb_owner s = owner_terminalizing i pr \<or> (\<exists>b. mb_owner s = owner_decided i pr b)))
    \<and> (\<forall>s' i r. mailbox_steps p s s' \<longrightarrow> lock_free (mb_closer s) \<longrightarrow> map_of (em_requests (mb_box s)) i = Some r \<longrightarrow>
        rq_phase r \<in> {completed, request_failed} \<longrightarrow> mailbox_status (mb_box s') i = mailbox_status (mb_box s) i)"
proof -
  have inv: "mailbox_inv s" by (rule inv_reachable [OF assms(2) inv_opened [OF assms(1)]])
  have R: "requests_ok (requests_of s) (em_staged_request (mb_box s)) (em_open_generation (mb_box s)) (mb_owner s) (mb_closer s)"
    using inv by (simp add: mailbox_inv_def Let_def)
  have settled: "rq_phase r \<in> {completed, request_failed}"
    if "em_open_generation (mb_box s) = 0" "mb_closer s = no_close" "requests_of s i = Some r" for i r
    using closed_settled [of "requests_of s"] R that by (auto simp: terminal_def)
  have single: "i = j" if "requests_of s i = Some r" "requests_of s j = Some x" "rq_phase r \<in> {staged, active, terminalizing}"
      "rq_phase x \<in> {staged, active, terminalizing}" for i j r x
    using in_flight_staged [OF inv that(1,3)] in_flight_staged [OF inv that(2,4)] by simp
  have published: "\<exists>pr. mb_owner s = owner_terminalizing i pr \<or> (\<exists>b. mb_owner s = owner_decided i pr b)"
    if "requests_of s i = Some r" "rq_phase r = terminalizing" for i r
    using requests_okD [OF R that(1)] that(2) by (cases "mb_owner s") auto
  have stable: "mailbox_status (mb_box s') i = mailbox_status (mb_box s) i"
    if "mailbox_steps p s s'" "lock_free (mb_closer s)" "requests_of s i = Some r" "rq_phase r \<in> {completed, request_failed}" for s' i r
  proof -
    have "settled s i r" using that(2-4) by (auto simp: settled_def terminal_def)
    then show ?thesis using settled_steps [OF that(1) inv] settled_status by blast
  qed
  show ?thesis
    unfolding requests_of_def [symmetric]
    apply (intro conjI)
    subgoal using settled by blast
    subgoal using single by blast
    subgoal using published by blast
    subgoal using stable by blast
    done
qed

theorem mailbox_requests_settle_witness:
  "mailbox_status (mb_box run_closed) 1 = mailbox_status (mb_box run_published) 1
   \<and> (\<exists>r. map_of (em_requests (mb_box run_closed)) 1 = Some r \<and> rq_phase r \<in> {completed, request_failed})"
proof -
  have p: "mailbox_steps 1 (opened_system 1 (0, 1)) run_published" and c: "mailbox_steps 1 (opened_system 1 (0, 1)) run_closed"
    using run_to_decided run_to_closed steps_trans by blast+
  have one: "(1 :: u64) \<noteq> 0" by simp
  note P = mailbox_requests_settle [OF one p, THEN conjunct2, THEN conjunct2, THEN conjunct2, rule_format, OF run_to_closed(3)]
  note C = mailbox_requests_settle [OF one c, THEN conjunct1]
  have "mailbox_status (mb_box run_closed) 1 = mailbox_status (mb_box run_published) 1"
    by (rule P [of 1 "run_request completed"]) (simp_all add: run_published_def run_state_def run_request_def)
  moreover have "em_open_generation (mb_box run_closed) = 0 \<and> mb_closer run_closed = no_close" by (simp add: run_closed_def run_state_def)
  then have "rq_phase r \<in> {completed, request_failed}" if "map_of (em_requests (mb_box run_closed)) 1 = Some r" for r
    using C that by blast
  moreover have "map_of (em_requests (mb_box run_closed)) 1 = Some (run_request completed)"
    by (simp add: run_closed_def run_state_def)
  ultimately show ?thesis by blast
qed

end
