(* ===== verification/Profile_Values.thy ===== *)
theory Profile_Values
  imports Dds_Topics Rpc_Codec Policy "HOL-Library.Sublist"
begin

text \<open>
  The first part of \<^verbatim>\<open>src/profiles/loader.cpp\<close>: strings, numbers and the coercions of JSON values that the loading of both
  profiles shares.  Profiles are values of \<open>nlohmann::ordered_json\<close>, whose objects keep the order of the file; \<open>sorted_copy\<close>
  is their conversion to \<open>nlohmann::json\<close>.  A check that fails returns the text of its error.  \<open>std::from_chars\<close> and
  \<open>std::strtod\<close> are written out as the standard describes them in the C locale; \<open>dump\<close> is the printing of JSON values.
\<close>

section \<open>Errors\<close>

type_synonym 'a parsing = "string + 'a"

definition invalid :: "string \<Rightarrow> 'a result" where
  "invalid m = failure invalid_argument m"

definition from_check :: "string option \<Rightarrow> unit parsing" where
  "from_check e = (case e of None \<Rightarrow> Inr () | Some m \<Rightarrow> Inl m)"

text \<open>Two lookups that both run before their results are examined: the error text is the one assigned last.\<close>

definition both :: "'a parsing \<Rightarrow> 'b parsing \<Rightarrow> ('a \<times> 'b) parsing" where
  "both a b = (case b of Inl e \<Rightarrow> Inl e | Inr y \<Rightarrow> (case a of Inl e \<Rightarrow> Inl e | Inr x \<Rightarrow> Inr (x, y)))"

text \<open>The next step of a sequence of early returns, and the error left by a list of lookups.\<close>

definition andthen :: "'e + 'a \<Rightarrow> ('a \<Rightarrow> 'e + 'b) \<Rightarrow> 'e + 'b" where
  "andthen x f = (case x of Inl e \<Rightarrow> Inl e | Inr v \<Rightarrow> f v)"

definition error_of :: "'a parsing \<Rightarrow> string option" where
  "error_of x = (case x of Inl e \<Rightarrow> Some e | Inr _ \<Rightarrow> None)"

fun last_error :: "string option list \<Rightarrow> string option" where
  "last_error [] = None"
| "last_error (e # es) = (case last_error es of None \<Rightarrow> e | Some e' \<Rightarrow> Some e')"

fun check_each :: "('a \<Rightarrow> 'e + 'b) \<Rightarrow> 'a list \<Rightarrow> 'e + 'b list" where
  "check_each f [] = Inr []"
| "check_each f (x # xs) = andthen (f x) (\<lambda>y. andthen (check_each f xs) (\<lambda>ys. Inr (y # ys)))"

section \<open>Strings\<close>

definition trim :: "string \<Rightarrow> string" where
  "trim v = rev (dropWhile is_space (rev (dropWhile is_space v)))"

definition read_json :: "(string \<Rightarrow> json option) \<Rightarrow> string option \<Rightarrow> string \<Rightarrow> json result" where
  "read_json parse file path =
     (case file of
        None \<Rightarrow> failure io (''unable to read profile: '' @ path)
      | Some s \<Rightarrow> (case parse s of None \<Rightarrow> failure invalid_argument ''invalid JSON profile'' | Some j \<Rightarrow> success j))"

definition required_string :: "json \<Rightarrow> string \<Rightarrow> string \<Rightarrow> bool \<Rightarrow> string parsing" where
  "required_string object key sect non_empty =
     (case member object key of
        Some (JString s) \<Rightarrow>
          if non_empty \<and> is_blank s then Inl (sect @ ''.'' @ key @ '' must be non-empty'') else Inr s
      | _ \<Rightarrow> Inl (sect @ '' requires string '' @ key))"

definition profile_repr_char :: "char \<Rightarrow> string" where
  "profile_repr_char c =
     (if c = CHR 0x5C \<or> c = CHR 0x27 then [CHR 0x5C, c]
      else if c = CHR 0x0A then [CHR 0x5C, CHR ''n'']
      else if c = CHR 0x0D then [CHR 0x5C, CHR ''r'']
      else if c = CHR 0x09 then [CHR 0x5C, CHR ''t'']
      else [c])"

definition profile_string_repr :: "string \<Rightarrow> string" where
  "profile_string_repr v = [CHR 0x27] @ concat (map profile_repr_char v) @ [CHR 0x27]"

fun profile_repr :: "(json \<Rightarrow> string) \<Rightarrow> json \<Rightarrow> string" where
  "profile_repr dump (JString s) = profile_string_repr s"
| "profile_repr dump (JBool b) = (if b then ''True'' else ''False'')"
| "profile_repr dump JNull = ''None''"
| "profile_repr dump (JArray xs) = ''['' @ comma_separated (map (profile_repr dump) xs) @ '']''"
| "profile_repr dump (JObject es) =
     [CHR 0x7B] @ comma_separated (map (\<lambda>(k, v). profile_string_repr k @ '': '' @ profile_repr dump v) es) @ [CHR 0x7D]"
| "profile_repr dump v = dump v"

definition python_value_string :: "(json \<Rightarrow> string) \<Rightarrow> json \<Rightarrow> string" where
  "python_value_string dump v = (if is_string v then string_of v else profile_repr dump v)"

definition required_robot_string :: "(json \<Rightarrow> string) \<Rightarrow> json \<Rightarrow> string \<Rightarrow> string \<Rightarrow> string parsing" where
  "required_robot_string dump object key sect =
     (case member object key of
        None \<Rightarrow> Inl (sect @ '' is missing '' @ key)
      | Some v \<Rightarrow>
          let normalized = trim (python_value_string dump v)
          in if normalized = [] then Inl (sect @ '' is missing '' @ key) else Inr normalized)"

definition optional_string :: "json \<Rightarrow> string \<Rightarrow> string \<Rightarrow> string option parsing" where
  "optional_string object key sect =
     (case member object key of
        None \<Rightarrow> Inr None
      | Some JNull \<Rightarrow> Inr None
      | Some (JString s) \<Rightarrow> Inr (Some s)
      | Some _ \<Rightarrow> Inl (sect @ ''.'' @ key @ '' must be a string or null''))"

definition json_arg_value :: "(json \<Rightarrow> string) \<Rightarrow> json \<Rightarrow> string" where
  "json_arg_value dump v =
     (case v of
        JString s \<Rightarrow> s
      | JBool b \<Rightarrow> (if b then ''true'' else ''false'')
      | JNull \<Rightarrow> ''None''
      | _ \<Rightarrow> dump v)"

text \<open>The conversion of an ordered value to one whose objects are sorted by key.\<close>

fun sorted_copy :: "json \<Rightarrow> json" where
  "sorted_copy (JArray xs) = JArray (map sorted_copy xs)"
| "sorted_copy (JObject es) = JObject (fold (\<lambda>(k, v). obj_set k v) (map (\<lambda>(k, v). (k, sorted_copy v)) es) [])"
| "sorted_copy v = v"

section \<open>Numbers\<close>

definition is_digit :: "char \<Rightarrow> bool" where
  "is_digit c = byte_between CHR ''0'' c CHR ''9''"

definition digit_number :: "char \<Rightarrow> nat" where
  "digit_number c =
     (if is_digit c then of_char c - 48 else if byte_between CHR ''a'' c CHR ''f'' then of_char c - 87 else of_char c - 55)"

definition is_base_digit :: "nat \<Rightarrow> char \<Rightarrow> bool" where
  "is_base_digit base c \<longleftrightarrow>
     is_digit c \<or> (base = 16 \<and> (byte_between CHR ''a'' c CHR ''f'' \<or> byte_between CHR ''A'' c CHR ''F''))"

definition digits_value :: "nat \<Rightarrow> string \<Rightarrow> nat" where
  "digits_value base s = foldl (\<lambda>n c. n * base + digit_number c) 0 s"

text \<open>\<open>std::from_chars\<close> for \<open>uint64_t\<close>, where the digits must be the whole input.\<close>

definition from_chars_all :: "nat \<Rightarrow> string \<Rightarrow> nat option" where
  "from_chars_all base s =
     (if s \<noteq> [] \<and> list_all (is_base_digit base) s \<and> digits_value base s < 2 ^ 64 then Some (digits_value base s) else None)"

definition parse_unsigned :: "string \<Rightarrow> 'a::len word option" where
  "parse_unsigned input =
     (let v = trim input
      in if v = [] \<or> hd v = CHR ''-'' then None
         else let hexadecimal = (2 < length v \<and> v ! 0 = CHR ''0'' \<and> (v ! 1 = CHR ''x'' \<or> v ! 1 = CHR ''X''));
                  digits = (if hexadecimal then drop 2 v else v)
              in case from_chars_all (if hexadecimal then 16 else 10) digits of
                   None \<Rightarrow> None
                 | Some parsed \<Rightarrow> if parsed \<le> 2 ^ LENGTH('a) - 1 then Some (of_nat parsed) else None)"

text \<open>\<open>std::strtod\<close>: the value and the characters that are left.\<close>

definition split_sign :: "string \<Rightarrow> bool \<times> string" where
  "split_sign s =
     (case s of
        [] \<Rightarrow> (False, [])
      | c # cs \<Rightarrow> if c = CHR ''-'' then (True, cs) else if c = CHR ''+'' then (False, cs) else (False, s))"

definition exponent_part :: "string \<Rightarrow> string \<Rightarrow> int \<times> string" where
  "exponent_part markers s =
     (case s of
        [] \<Rightarrow> (0, [])
      | c # cs \<Rightarrow>
          if c \<notin> set markers then (0, s)
          else let (negative, r) = split_sign cs; ds = takeWhile is_digit r
               in if ds = [] then (0, s)
                  else ((if negative then - int (digits_value 10 ds) else int (digits_value 10 ds)), drop (length ds) r))"

definition float_body :: "nat \<Rightarrow> string \<Rightarrow> int \<Rightarrow> string \<Rightarrow> (rat \<times> string) option" where
  "float_body base markers scale s =
     (let whole = takeWhile (is_base_digit base) s; r = dropWhile (is_base_digit base) s;
          (fraction, r2) = (if r \<noteq> [] \<and> hd r = CHR ''.''
                            then (takeWhile (is_base_digit base) (tl r), dropWhile (is_base_digit base) (tl r)) else ([], r))
      in if whole = [] \<and> fraction = [] then None
         else let (e, r3) = exponent_part markers r2
              in Some (of_nat (digits_value base (whole @ fraction)) / of_nat base ^ length fraction * of_int scale powi e, r3))"

definition nan_rest :: "string \<Rightarrow> string" where
  "nan_rest s =
     (let r = dropWhile (\<lambda>c. identifier_char c \<or> c = CHR ''_'') (tl s)
      in if s \<noteq> [] \<and> hd s = CHR ''('' \<and> r \<noteq> [] \<and> hd r = CHR '')'' then tl r else s)"

definition strtod :: "string \<Rightarrow> fp \<times> string" where
  "strtod s =
     (let (negative, r) = split_sign (dropWhile is_space s);
          signed = (\<lambda>v. if negative then fneg v else v);
          lowered = map lower_char r
      in if take 8 lowered = ''infinity'' then (signed PInf, drop 8 r)
         else if take 3 lowered = ''inf'' then (signed PInf, drop 3 r)
         else if take 3 lowered = ''nan'' then (NaN, nan_rest (drop 3 r))
         else case (if take 2 lowered = ''0x'' then float_body 16 ''pP'' 2 (drop 2 r) else None) of
                Some (q, rest) \<Rightarrow> (signed (fround f64 q), rest)
              | None \<Rightarrow> (case float_body 10 ''eE'' 10 r of
                           Some (q, rest) \<Rightarrow> (signed (fround f64 q), rest)
                         | None \<Rightarrow> (Fin 0, s)))"

definition parse_double :: "string \<Rightarrow> fp option" where
  "parse_double input =
     (let v = trim input; (result, rest) = strtod v
      in if v = [] then None else if rest \<noteq> [] \<or> \<not> isfinite result then None else Some result)"

section \<open>Coercions\<close>

text \<open>An underscore is dropped between two digits and refused elsewhere; \<open>prev\<close> is the character before.\<close>

fun drop_underscores :: "char option \<Rightarrow> string \<Rightarrow> string option" where
  "drop_underscores prev [] = Some []"
| "drop_underscores prev (c # cs) =
     (if c \<noteq> CHR ''_'' then map_option ((#) c) (drop_underscores (Some c) cs)
      else if prev = None \<or> cs = [] \<or> \<not> is_digit (the prev) \<or> \<not> is_digit (hd cs) then None
      else drop_underscores (Some c) cs)"

definition parse_pydantic_double_string :: "string \<Rightarrow> fp option" where
  "parse_pydantic_double_string input =
     (let v = trim input
      in if v = [] then None
         else case drop_underscores None v of
                None \<Rightarrow> None
              | Some normalized \<Rightarrow> let (result, rest) = strtod normalized in if rest \<noteq> [] then None else Some result)"

definition coerce_pydantic_double :: "json \<Rightarrow> fp option" where
  "coerce_pydantic_double v =
     (case v of
        JBool b \<Rightarrow> Some (Fin (if b then 1 else 0))
      | JString s \<Rightarrow> parse_pydantic_double_string s
      | _ \<Rightarrow> if is_number v then Some (number_of f64 v) else None)"

definition coerce_pydantic_bool :: "json \<Rightarrow> bool option" where
  "coerce_pydantic_bool v =
     (case v of
        JBool b \<Rightarrow> Some b
      | JInt i \<Rightarrow> if i = 0 \<or> i = 1 then Some (i = 1) else None
      | JUint w \<Rightarrow> if w = 0 \<or> w = 1 then Some (w = 1) else None
      | JFloat x \<Rightarrow> if feq x (Fin 0) \<or> feq x (Fin 1) then Some (feq x (Fin 1)) else None
      | JString s \<Rightarrow>
          let t = map lower_char s
          in if t \<in> {''1'', ''true'', ''t'', ''yes'', ''y'', ''on''} then Some True
             else if t \<in> {''0'', ''false'', ''f'', ''no'', ''n'', ''off''} then Some False
             else None
      | _ \<Rightarrow> None)"

text \<open>The loop over the digits: the value so far, and whether a digit, the point and a digit after it were seen.\<close>

fun pydantic_digits :: "char option \<Rightarrow> nat \<Rightarrow> bool \<Rightarrow> bool \<Rightarrow> bool \<Rightarrow> string \<Rightarrow> (nat \<times> bool \<times> bool \<times> bool) option" where
  "pydantic_digits prev n saw_digit point saw_fractional [] = Some (n, saw_digit, point, saw_fractional)"
| "pydantic_digits prev n saw_digit point saw_fractional (c # cs) =
     (if c = CHR ''_''
      then if prev = None \<or> cs = [] \<or> \<not> is_digit (the prev) \<or> \<not> is_digit (hd cs) then None
           else pydantic_digits (Some c) n saw_digit point saw_fractional cs
      else if c = CHR ''.''
      then if point \<or> \<not> saw_digit then None else pydantic_digits (Some c) n saw_digit True saw_fractional cs
      else if \<not> is_digit c then None
      else if point then if digit_number c \<noteq> 0 then None else pydantic_digits (Some c) n True True True cs
      else if (2 ^ 64 - 1 - digit_number c) div 10 < n then None
      else pydantic_digits (Some c) (n * 10 + digit_number c) True point saw_fractional cs)"

definition parse_pydantic_unsigned_integer_string :: "string \<Rightarrow> u64 option" where
  "parse_pydantic_unsigned_integer_string input =
     (let s = trim input; (negative, r) = split_sign s
      in if s = [] \<or> r = [] then None
         else case pydantic_digits (if r = s then None else Some (hd s)) 0 False False False r of
                None \<Rightarrow> None
              | Some (n, saw_digit, point, saw_fractional) \<Rightarrow>
                  if \<not> saw_digit \<or> (point \<and> \<not> saw_fractional) \<or> (negative \<and> n \<noteq> 0) then None else Some (of_nat n))"

definition coerce_pydantic_positive_integer :: "json \<Rightarrow> u64 option" where
  "coerce_pydantic_positive_integer v =
     (case v of
        JBool b \<Rightarrow> Some (if b then 1 else 0)
      | JUint w \<Rightarrow> Some w
      | JInt i \<Rightarrow> if 0 \<le> i then Some (word_of_int i) else None
      | JFloat (Fin x) \<Rightarrow> if x < 0 \<or> 2 ^ 64 \<le> x \<or> of_int \<lfloor>x\<rfloor> \<noteq> x then None else Some (word_of_int \<lfloor>x\<rfloor>)
      | JString s \<Rightarrow> parse_pydantic_unsigned_integer_string s
      | _ \<Rightarrow> None)"

section \<open>Lemmas\<close>

lemma andthen_Inr [simp]: "andthen x f = Inr y \<longleftrightarrow> (\<exists>v. x = Inr v \<and> f v = Inr y)"
  by (simp add: andthen_def split: sum.splits)

lemma andthen_simps [simp]: "andthen (Inr v) f = f v" "andthen (Inl e) f = Inl e"
  by (simp_all add: andthen_def)

lemma both_Inr [simp]: "both a b = Inr p \<longleftrightarrow> a = Inr (fst p) \<and> b = Inr (snd p)"
  by (cases p) (auto simp: both_def split: sum.splits)

lemma from_check_Inr [simp]: "from_check e = Inr u \<longleftrightarrow> e = None"
  by (simp add: from_check_def split: option.splits)

lemma error_of_None [simp]: "error_of x = None \<longleftrightarrow> (\<exists>v. x = Inr v)"
  by (simp add: error_of_def split: sum.splits)

lemma last_error_None [simp]: "last_error es = None \<longleftrightarrow> (\<forall>e \<in> set es. e = None)"
  by (induction es) (auto split: option.splits)

lemma check_each_Inr: "check_each f xs = Inr ys \<longleftrightarrow> list_all2 (\<lambda>x y. f x = Inr y) xs ys"
  by (induction xs arbitrary: ys) (auto simp: list_all2_Cons1)

lemma parse_double_finite: "parse_double s = Some x \<Longrightarrow> isfinite x"
  by (auto simp: parse_double_def Let_def split: if_splits prod.splits)

text \<open>The decimal digits of a number are read back as that number.\<close>

lemma digit_char: "k < 10 \<Longrightarrow> is_digit (char_of (48 + k))" "k < 10 \<Longrightarrow> digit_number (char_of (48 + k)) = k" for k :: nat
  by (simp_all add: is_digit_def byte_between_def digit_number_def)

lemma decimal_digits: "list_all is_digit (decimal n)" "decimal n \<noteq> []" "digits_value 10 (decimal n) = n"
proof -
  show "list_all is_digit (decimal n)"
    by (induction n rule: decimal.induct) (subst decimal.simps, simp add: digit_char)
  show "decimal n \<noteq> []" by (subst decimal.simps) simp
  show "digits_value 10 (decimal n) = n"
    by (induction n rule: decimal.induct) (subst decimal.simps, simp add: digit_char digits_value_def)
qed

end
