(* ===== verification/Robot_Loader.thy ===== *)
theory Robot_Loader
  imports Profile_Values
begin

text \<open>
  Loading a robot profile, \<^verbatim>\<open>src/profiles/loader.cpp\<close>: the device lists, the three kinds of physical link with their
  arguments, the DDS section, and \<open>load_robot_profile\<close>.  The code derives CiA 402 axes, ST3215 servos and Damiao motors
  with the same loop over sensors and actuators; it is written once here, as \<open>derive\<close>, over a record of what differs
  between the kinds.  Durations are numbers of milliseconds, the service period one of nanoseconds.
\<close>

section \<open>Device lists\<close>

definition parse_args :: "(json \<Rightarrow> string) \<Rightarrow> json \<Rightarrow> string \<Rightarrow> (string \<rightharpoonup> string) parsing" where
  "parse_args dump v label =
     (case member v ''args'' of
        None \<Rightarrow> Inr Map.empty
      | Some JNull \<Rightarrow> Inr Map.empty
      | Some (JObject es) \<Rightarrow> Inr (map_of (map (\<lambda>(k, x). (k, json_arg_value dump x)) es))
      | Some _ \<Rightarrow> Inl (label @ ''.args must be an object''))"

definition parse_device :: "(json \<Rightarrow> string) \<Rightarrow> string \<Rightarrow> json \<Rightarrow> device_config parsing" where
  "parse_device dump singular v =
     (if \<not> is_object v then Inl (singular @ '' entry must be an object'')
      else andthen (required_robot_string dump v ''name'' singular) (\<lambda>name.
           case member v ''device'' of
             Some (JObject es) \<Rightarrow>
               andthen (both (required_robot_string dump (JObject es) ''type'' ''device'')
                             (required_robot_string dump (JObject es) ''path'' ''device'')) (\<lambda>(type, path).
               andthen (parse_args dump v (singular @ ''.'' @ name)) (\<lambda>args.
               Inr \<lparr>dv_name = name, dv_type = type, dv_path = path, dv_args = args\<rparr>))
           | _ \<Rightarrow> Inl (singular @ ''.'' @ name @ ''.device must be an object'')))"

definition parse_device_list :: "(json \<Rightarrow> string) \<Rightarrow> json \<Rightarrow> string \<Rightarrow> string \<Rightarrow> device_config list parsing" where
  "parse_device_list dump doc plural singular =
     (case member doc plural of
        None \<Rightarrow> Inr []
      | Some (JArray vs) \<Rightarrow> check_each (parse_device dump singular) vs
      | Some _ \<Rightarrow> Inl (plural @ '' must be an array''))"

section \<open>Arguments\<close>

definition device_arg :: "device_config \<Rightarrow> string \<Rightarrow> string parsing" where
  "device_arg config key =
     (case dv_args config key of None \<Rightarrow> Inl (dv_name config @ ''.args requires '' @ key) | Some v \<Rightarrow> Inr v)"

definition unsigned_arg :: "device_config \<Rightarrow> string \<Rightarrow> 'a::len word \<Rightarrow> 'a word parsing" where
  "unsigned_arg config key default_value =
     (case dv_args config key of
        None \<Rightarrow> Inr default_value
      | Some v \<Rightarrow> (case parse_unsigned v of
            None \<Rightarrow> Inl (dv_name config @ ''.args.'' @ key @ '' must be an unsigned integer'')
          | Some w \<Rightarrow> Inr w))"

text \<open>\<open>duration_cast\<close> multiplies by 1000 in \<open>double\<close> and truncates.\<close>

fun ftruncate :: "fp \<Rightarrow> int" where
  "ftruncate (Fin x) = (if 0 \<le> x then \<lfloor>x\<rfloor> else \<lceil>x\<rceil>)"
| "ftruncate _ = 0"

definition seconds_limit :: fp where
  "seconds_limit = fdiv f64 (fround f64 (2 ^ 63 - 1)) (Fin 1000)"

text \<open>The check admits exactly \<open>2 ^ 63\<close> milliseconds, one more than the \<open>int64_t\<close> of the duration holds, where the conversion of
  the source is undefined; here it is that number.\<close>

definition milliseconds_from_seconds_arg :: "device_config \<Rightarrow> string \<Rightarrow> int \<Rightarrow> int parsing" where
  "milliseconds_from_seconds_arg config key default_value =
     (case dv_args config key of
        None \<Rightarrow> Inr default_value
      | Some v \<Rightarrow> (case parse_double v of
            None \<Rightarrow> Inl (dv_name config @ ''.args.'' @ key @ '' must be a non-negative finite duration'')
          | Some seconds \<Rightarrow>
              if flt seconds (Fin 0) \<or> flt seconds_limit seconds
              then Inl (dv_name config @ ''.args.'' @ key @ '' must be a non-negative finite duration'')
              else let milliseconds = ftruncate (fmul f64 seconds (Fin 1000))
                   in if flt (Fin 0) seconds \<and> milliseconds \<le> 0
                      then Inl (dv_name config @ ''.args.'' @ key @ '' is below one millisecond'')
                      else Inr milliseconds))"

definition required_double_arg :: "device_config \<Rightarrow> string \<Rightarrow> fp parsing" where
  "required_double_arg config key =
     andthen (device_arg config key) (\<lambda>v.
       case parse_double v of
         None \<Rightarrow> Inl (dv_name config @ ''.args.'' @ key @ '' must be a positive finite number'')
       | Some x \<Rightarrow> if fle x (Fin 0) then Inl (dv_name config @ ''.args.'' @ key @ '' must be a positive finite number'') else Inr x)"

section \<open>Pairing sensors with actuators\<close>

record 'p derived =
  de_profile :: 'p
  de_has_sensor :: bool
  de_has_actuator :: bool

record ('p, 'b) derivation =
  dn_derived :: "'p derived list"
  dn_identities :: "string \<rightharpoonup> nat"
  dn_buses :: 'b

record ('p, 'b) link_kind =
  lk_type :: string
  lk_label :: string
  lk_plural :: string
  lk_maximum :: nat
  lk_parse :: "device_config \<Rightarrow> bool \<Rightarrow> 'p parsing"
  lk_no_buses :: 'b
  lk_admit :: "'p \<Rightarrow> 'b \<Rightarrow> 'b parsing"
  lk_identity :: "device_config \<Rightarrow> 'p \<Rightarrow> string"
  lk_same :: "'p \<Rightarrow> 'p \<Rightarrow> bool"
  lk_merge :: "bool \<Rightarrow> 'p \<Rightarrow> 'p \<Rightarrow> 'p"

definition link_found :: "('p, 'b) derivation \<Rightarrow> string \<Rightarrow> 'p \<Rightarrow> bool \<Rightarrow> ('p, 'b) derivation" where
  "link_found st identity parsed sensor =
     st\<lparr>dn_identities := (dn_identities st)(identity \<mapsto> length (dn_derived st)),
        dn_derived := dn_derived st @ [\<lparr>de_profile = parsed, de_has_sensor = sensor, de_has_actuator = \<not> sensor\<rparr>]\<rparr>"

definition link_joined :: "('p, 'b) link_kind \<Rightarrow> ('p, 'b) derivation \<Rightarrow> nat \<Rightarrow> device_config \<Rightarrow> 'p \<Rightarrow> bool \<Rightarrow>
    ('p, 'b) derivation parsing" where
  "link_joined k st i device parsed sensor =
     (let existing = dn_derived st ! i
      in if (sensor \<and> de_has_sensor existing) \<or> (\<not> sensor \<and> de_has_actuator existing)
         then Inl (''duplicate '' @ lk_label k @ '' physical link: '' @ dv_path device)
         else if \<not> lk_same k (de_profile existing) parsed
         then Inl (''inconsistent '' @ lk_label k @ '' static configuration for: '' @ dv_path device)
         else Inr (st\<lparr>dn_derived := (dn_derived st)[i :=
                \<lparr>de_profile = lk_merge k sensor (de_profile existing) parsed,
                 de_has_sensor = de_has_sensor existing \<or> sensor,
                 de_has_actuator = de_has_actuator existing \<or> \<not> sensor\<rparr>]\<rparr>))"

definition add_device :: "('p, 'b) link_kind \<Rightarrow> bool \<Rightarrow> device_config \<Rightarrow> ('p, 'b) derivation \<Rightarrow> ('p, 'b) derivation parsing" where
  "add_device k sensor device st =
     (if dv_type device \<noteq> lk_type k then Inr st
      else andthen (lk_parse k device sensor) (\<lambda>parsed.
           andthen (lk_admit k parsed (dn_buses st)) (\<lambda>buses.
           let st1 = st\<lparr>dn_buses := buses\<rparr>; identity = lk_identity k device parsed
           in case dn_identities st1 identity of
                None \<Rightarrow> Inr (link_found st1 identity parsed sensor)
              | Some i \<Rightarrow> link_joined k st1 i device parsed sensor)))"

fun add_devices :: "('p, 'b) link_kind \<Rightarrow> bool \<Rightarrow> device_config list \<Rightarrow> ('p, 'b) derivation \<Rightarrow> ('p, 'b) derivation parsing" where
  "add_devices k sensor [] st = Inr st"
| "add_devices k sensor (d # ds) st = andthen (add_device k sensor d st) (add_devices k sensor ds)"

definition start_derivation :: "('p, 'b) link_kind \<Rightarrow> ('p, 'b) derivation" where
  "start_derivation k = \<lparr>dn_derived = [], dn_identities = Map.empty, dn_buses = lk_no_buses k\<rparr>"

definition derive :: "('p, 'b) link_kind \<Rightarrow> device_config list \<Rightarrow> device_config list \<Rightarrow> 'p list parsing" where
  "derive k sensors actuators =
     andthen (add_devices k True sensors (start_derivation k)) (\<lambda>st1.
     andthen (add_devices k False actuators st1) (\<lambda>st2.
       if lk_maximum k < length (dn_derived st2)
       then Inl (''robot profile supports at most '' @ decimal (lk_maximum k) @ '' '' @ lk_plural k)
       else if \<not> list_all (\<lambda>d. de_has_sensor d \<and> de_has_actuator d) (dn_derived st2)
       then Inl (lk_label k @ '' physical link requires one sensor and one actuator'')
       else Inr (map de_profile (dn_derived st2))))"

section \<open>CiA 402 axes\<close>

definition switching_key :: "string \<Rightarrow> bool" where
  "switching_key key \<longleftrightarrow> key = ''runtime_mode'' \<or> sublist ''mode_switch'' key \<or> sublist ''runtime_switch'' key"

definition axis_keys :: "string list" where
  "axis_keys = [''alias'', ''position'', ''vendor_id'', ''product_code'', ''revision'', ''mode'', ''scale'', ''minimum'', ''maximum'',
     ''slew_limit'', ''following_error_limit'', ''command_timeout_ms'', ''safety_group'']"

definition axis_mode :: "string \<Rightarrow> cia402_mode option" where
  "axis_mode s = (if s = ''csp'' then Some csp else if s = ''csv'' then Some csv else if s = ''cst'' then Some cst else None)"

definition parse_axis :: "device_config \<Rightarrow> axis_config parsing" where
  "parse_axis config =
     (if \<exists>key \<in> dom (dv_args config). switching_key key
      then Inl (dv_name config @ ''.args must not configure runtime mode switching'')
      else case last_error (map (\<lambda>key. error_of (device_arg config key)) axis_keys) of
        Some e \<Rightarrow> Inl e
      | None \<Rightarrow>
          let v = (\<lambda>key. the (dv_args config key));
              alias = parse_unsigned (v ''alias'') :: u16 option;
              position = parse_unsigned (v ''position'') :: u16 option;
              vendor = parse_unsigned (v ''vendor_id'') :: u32 option;
              product = parse_unsigned (v ''product_code'') :: u32 option;
              revision = parse_unsigned (v ''revision'') :: u32 option;
              timeout = parse_unsigned (v ''command_timeout_ms'') :: u64 option;
              scale = parse_double (v ''scale'');
              minimum = parse_double (v ''minimum'');
              maximum = parse_double (v ''maximum'');
              slew_limit = parse_double (v ''slew_limit'');
              following_error_limit = parse_double (v ''following_error_limit'')
          in if alias = None \<or> position = None \<or> vendor = None \<or> product = None \<or> revision = None \<or> timeout = None \<or>
                scale = None \<or> minimum = None \<or> maximum = None \<or> slew_limit = None \<or> following_error_limit = None \<or>
                2 ^ 63 - 1 < uint (the timeout)
             then Inl (dv_name config @ ''.args contains an invalid numeric value'')
             else case axis_mode (v ''mode'') of
               None \<Rightarrow> Inl (dv_name config @ ''.args.mode must be csp, csv, or cst'')
             | Some mode \<Rightarrow>
                 if fle (the scale) (Fin 0) \<or> flt (the maximum) (the minimum) \<or> fle (the slew_limit) (Fin 0) \<or>
                    fle (the following_error_limit) (Fin 0)
                 then Inl (dv_name config @ ''.args requires positive scale/safety limits and minimum <= maximum'')
                 else if the timeout = 0 \<or> is_blank (v ''safety_group'')
                 then Inl (dv_name config @ ''.args requires positive timeout and non-empty safety_group'')
                 else Inr \<lparr>ac_name = dv_name config, ac_alias = the alias, ac_position = the position,
                   ac_vendor_id = the vendor, ac_product_code = the product, ac_revision = the revision, ac_mode = mode,
                   ac_scale = the scale, ac_minimum = the minimum, ac_maximum = the maximum,
                   ac_command_timeout = uint (the timeout), ac_safety_group = v ''safety_group'',
                   ac_slew_limit = the slew_limit, ac_following_error_limit = the following_error_limit\<rparr>)"

definition same_static_config :: "axis_config \<Rightarrow> axis_config \<Rightarrow> bool" where
  "same_static_config left right \<longleftrightarrow>
     ac_alias left = ac_alias right \<and> ac_position left = ac_position right \<and> ac_vendor_id left = ac_vendor_id right \<and>
     ac_product_code left = ac_product_code right \<and> ac_revision left = ac_revision right \<and> ac_mode left = ac_mode right \<and>
     feq (ac_scale left) (ac_scale right) \<and> feq (ac_minimum left) (ac_minimum right) \<and>
     feq (ac_maximum left) (ac_maximum right) \<and> ac_command_timeout left = ac_command_timeout right \<and>
     ac_safety_group left = ac_safety_group right \<and> feq (ac_slew_limit left) (ac_slew_limit right) \<and>
     feq (ac_following_error_limit left) (ac_following_error_limit right)"

definition axis_identity :: "device_config \<Rightarrow> axis_config \<Rightarrow> string" where
  "axis_identity device parsed =
     dv_path device @ [CHR 0x0A] @ decimal (unat (ac_alias parsed)) @ [CHR 0x0A] @ decimal (unat (ac_position parsed))"

definition axis_link :: "(axis_config, unit) link_kind" where
  "axis_link = \<lparr>lk_type = ''cia402'', lk_label = ''cia402'', lk_plural = ''cia402 axes'', lk_maximum = 12,
     lk_parse = (\<lambda>device sensor. parse_axis device), lk_no_buses = (), lk_admit = (\<lambda>parsed buses. Inr buses),
     lk_identity = axis_identity, lk_same = same_static_config,
     lk_merge = (\<lambda>sensor existing parsed. if sensor then existing\<lparr>ac_name := ac_name parsed\<rparr> else existing)\<rparr>"

definition derive_axes :: "device_config list \<Rightarrow> device_config list \<Rightarrow> axis_config list parsing" where
  "derive_axes = derive axis_link"

section \<open>ST3215 servos\<close>

definition st3215_identity_arg :: "device_config \<Rightarrow> string \<Rightarrow> string \<Rightarrow> u16 parsing" where
  "st3215_identity_arg config primary fallback =
     (case (case dv_args config primary of None \<Rightarrow> dv_args config fallback | Some v \<Rightarrow> Some v) of
        None \<Rightarrow> Inl (dv_name config @ ''.args requires '' @ primary)
      | Some v \<Rightarrow> (case parse_unsigned v of
            None \<Rightarrow> Inl (dv_name config @ ''.args.'' @ primary @ '' must be an unsigned integer'')
          | Some w \<Rightarrow> Inr w))"

definition st3215_timeout_key :: "device_config \<Rightarrow> string" where
  "st3215_timeout_key config =
     (if dv_args config ''timeout_s'' \<noteq> None then ''timeout_s''
      else if dv_args config ''timeout'' \<noteq> None then ''timeout'' else ''timeout_s'')"

definition st3215_write_timeout :: "device_config \<Rightarrow> int parsing \<Rightarrow> int parsing" where
  "st3215_write_timeout config read_timeout =
     (if dv_args config ''write_timeout_s'' \<noteq> None then milliseconds_from_seconds_arg config ''write_timeout_s'' 0 else read_timeout)"

record st3215_numbers =
  n3_baud_rate :: u32
  n3_read_buffer :: u64
  n3_maximum_frame :: u64
  n3_max_position :: u16
  n3_speed :: u16
  n3_time :: u16
  n3_feedback_timeout :: u64
  n3_command_timeout :: u64
  n3_maximum_command_future :: u64
  n3_service_period :: u64
  n3_read_timeout :: int
  n3_write_timeout :: int

definition parse_st3215_numbers :: "device_config \<Rightarrow> string \<Rightarrow> st3215_numbers parsing" where
  "parse_st3215_numbers config baud_text =
     (let baud_rate = parse_unsigned baud_text :: u32 option;
          read_buffer = unsigned_arg config ''read_buffer_len'' 256 :: u64 parsing;
          maximum_frame = unsigned_arg config ''maximum_frame_size'' 259 :: u64 parsing;
          max_position = unsigned_arg config ''max_position_units'' 4095 :: u16 parsing;
          speed = unsigned_arg config ''speed_units'' 0 :: u16 parsing;
          time = unsigned_arg config ''time_units'' 0 :: u16 parsing;
          feedback_timeout = unsigned_arg config ''feedback_timeout_ms'' 250 :: u64 parsing;
          command_timeout = unsigned_arg config ''command_timeout_ms'' 250 :: u64 parsing;
          maximum_command_future = unsigned_arg config ''maximum_command_future_ms'' 50 :: u64 parsing;
          service_period = unsigned_arg config ''service_period_us'' 1000 :: u64 parsing;
          read_timeout = milliseconds_from_seconds_arg config (st3215_timeout_key config) 0;
          write_timeout = st3215_write_timeout config read_timeout;
          err = last_error [error_of read_buffer, error_of maximum_frame, error_of max_position, error_of speed,
            error_of time, error_of feedback_timeout, error_of command_timeout, error_of maximum_command_future,
            error_of service_period, error_of read_timeout, error_of write_timeout]
      in if baud_rate = None \<or> err \<noteq> None
         then Inl (case err of None \<Rightarrow> dv_name config @ ''.args contains invalid ST3215 configuration'' | Some e \<Rightarrow> e)
         else Inr \<lparr>n3_baud_rate = the baud_rate, n3_read_buffer = projr read_buffer, n3_maximum_frame = projr maximum_frame,
           n3_max_position = projr max_position, n3_speed = projr speed, n3_time = projr time,
           n3_feedback_timeout = projr feedback_timeout, n3_command_timeout = projr command_timeout,
           n3_maximum_command_future = projr maximum_command_future, n3_service_period = projr service_period,
           n3_read_timeout = projr read_timeout, n3_write_timeout = projr write_timeout\<rparr>)"

definition unsafe_st3215_limits :: "u16 \<Rightarrow> st3215_numbers \<Rightarrow> bool" where
  "unsafe_st3215_limits device_id n \<longleftrightarrow>
     n3_baud_rate n = 0 \<or> 0xFD < device_id \<or> n3_max_position n = 0 \<or> n3_read_buffer n = 0 \<or> 4096 < n3_read_buffer n \<or>
     n3_maximum_frame n < 6 \<or> 259 < n3_maximum_frame n \<or> n3_feedback_timeout n = 0 \<or> n3_command_timeout n = 0 \<or>
     1000 < n3_command_timeout n \<or> 1000 < n3_maximum_command_future n \<or>
     (2 ^ 63 - 1) div 1000000 < uint (n3_feedback_timeout n) \<or> n3_service_period n = 0 \<or> 1000000 < n3_service_period n"

definition st3215_profile :: "device_config \<Rightarrow> bool \<Rightarrow> u16 \<Rightarrow> u16 \<Rightarrow> st3215_numbers \<Rightarrow> servo_profile" where
  "st3215_profile config sensor device_id servo_id n =
     \<lparr>pf_sensor_name = (if sensor then dv_name config else []), pf_actuator_name = (if sensor then [] else dv_name config),
      pf_serial = \<lparr>sp_path = dv_path config, sp_baud_rate = n3_baud_rate n, sp_read_buffer_size = unat (n3_read_buffer n),
        sp_maximum_frame_size = unat (n3_maximum_frame n), sp_read_timeout = n3_read_timeout n,
        sp_write_timeout = n3_write_timeout n, sp_service_period = uint (n3_service_period n) * 1000\<rparr>,
      pf_device_id = ucast device_id, pf_servo_id = servo_id, pf_max_position_units = n3_max_position n,
      pf_speed_units = n3_speed n, pf_time_units = n3_time n, pf_feedback_timeout_ms = uint (n3_feedback_timeout n),
      pf_safety_group = (case dv_args config ''safety_group'' of
          None \<Rightarrow> dv_path config | Some g \<Rightarrow> if is_blank g then dv_path config else g),
      pf_command_timeout_ms = uint (n3_command_timeout n),
      pf_maximum_command_future_ms = uint (n3_maximum_command_future n)\<rparr>"

definition parse_st3215 :: "device_config \<Rightarrow> bool \<Rightarrow> servo_profile parsing" where
  "parse_st3215 config sensor =
     andthen (both (both (device_arg config ''baud_rate'') (st3215_identity_arg config ''device_id'' ''servo_id''))
                   (st3215_identity_arg config ''servo_id'' ''device_id'')) (\<lambda>((baud_text, device_id), servo_id).
     andthen (parse_st3215_numbers config baud_text) (\<lambda>n.
       if unsafe_st3215_limits device_id n then Inl (dv_name config @ ''.args contains unsafe ST3215 limits'')
       else Inr (st3215_profile config sensor device_id servo_id n)))"

definition same_serial :: "serial_port_config \<Rightarrow> serial_port_config \<Rightarrow> bool" where
  "same_serial left right \<longleftrightarrow>
     sp_path left = sp_path right \<and> sp_baud_rate left = sp_baud_rate right \<and>
     sp_read_buffer_size left = sp_read_buffer_size right \<and> sp_maximum_frame_size left = sp_maximum_frame_size right \<and>
     sp_read_timeout left = sp_read_timeout right \<and> sp_write_timeout left = sp_write_timeout right \<and>
     sp_service_period left = sp_service_period right"

definition same_st3215_physical_config :: "servo_profile \<Rightarrow> servo_profile \<Rightarrow> bool" where
  "same_st3215_physical_config left right \<longleftrightarrow>
     same_serial (pf_serial left) (pf_serial right) \<and> pf_device_id left = pf_device_id right \<and>
     pf_servo_id left = pf_servo_id right \<and> pf_max_position_units left = pf_max_position_units right \<and>
     pf_feedback_timeout_ms left = pf_feedback_timeout_ms right \<and> pf_command_timeout_ms left = pf_command_timeout_ms right \<and>
     pf_maximum_command_future_ms left = pf_maximum_command_future_ms right \<and> pf_safety_group left = pf_safety_group right"

definition admit_bus :: "servo_profile \<Rightarrow> (string \<rightharpoonup> serial_port_config) \<Rightarrow> (string \<rightharpoonup> serial_port_config) parsing" where
  "admit_bus parsed buses =
     (let serial_port = pf_serial parsed
      in case buses (sp_path serial_port) of
           None \<Rightarrow> Inr (buses(sp_path serial_port \<mapsto> serial_port))
         | Some bus \<Rightarrow>
             if same_serial bus serial_port then Inr buses
             else Inl (''inconsistent serial configuration for: '' @ sp_path serial_port))"

definition merge_servo :: "bool \<Rightarrow> servo_profile \<Rightarrow> servo_profile \<Rightarrow> servo_profile" where
  "merge_servo sensor existing parsed =
     (if sensor then existing\<lparr>pf_sensor_name := pf_sensor_name parsed\<rparr>
      else existing\<lparr>pf_actuator_name := pf_actuator_name parsed, pf_speed_units := pf_speed_units parsed,
             pf_time_units := pf_time_units parsed\<rparr>)"

definition servo_link :: "(servo_profile, string \<rightharpoonup> serial_port_config) link_kind" where
  "servo_link = \<lparr>lk_type = ''st3215'', lk_label = ''ST3215'', lk_plural = ''ST3215 servos'', lk_maximum = 32,
     lk_parse = parse_st3215, lk_no_buses = Map.empty, lk_admit = admit_bus,
     lk_identity = (\<lambda>device parsed. sp_path (pf_serial parsed) @ [CHR 0x0A] @ decimal (unat (pf_device_id parsed))),
     lk_same = same_st3215_physical_config, lk_merge = merge_servo\<rparr>"

definition derive_st3215 :: "device_config list \<Rightarrow> device_config list \<Rightarrow> servo_profile list parsing" where
  "derive_st3215 = derive servo_link"

section \<open>Damiao motors\<close>

definition damiao_transport_of :: "device_config \<Rightarrow> damiao_transport option" where
  "damiao_transport_of config =
     (case dv_args config ''transport'' of
        None \<Rightarrow> Some dt_socketcan
      | Some v \<Rightarrow> if v = ''socketcan'' then Some dt_socketcan else if v = ''virtual_serial'' then Some dt_virtual_serial else None)"

definition parse_damiao_motor :: "device_config \<Rightarrow> bool \<Rightarrow> damiao_profile parsing" where
  "parse_damiao_motor config sensor =
     (if dv_args config ''mode'' \<noteq> None \<and> dv_args config ''mode'' \<noteq> Some ''mit''
      then Inl (dv_name config @ ''.args.mode must be '' @ quoted ''mit'')
      else case damiao_transport_of config of
        None \<Rightarrow> Inl (dv_name config @ ''.args.transport must be '' @ quoted ''socketcan'' @ '' or '' @ quoted ''virtual_serial'')
      | Some transport \<Rightarrow>
          let motor_id = unsigned_arg config ''motor_id'' 0 :: u16 parsing
          in if error_of motor_id \<noteq> None \<or> projr motor_id = 0 \<or> 0x0F < projr motor_id
             then Inl (dv_name config @ ''.args.motor_id must be within 1..15'')
             else let position_max = required_double_arg config ''position_max'';
                      velocity_max = required_double_arg config ''velocity_max'';
                      torque_max = required_double_arg config ''torque_max''
                  in case last_error [error_of position_max, error_of velocity_max, error_of torque_max] of
                    Some e \<Rightarrow> Inl e
                  | None \<Rightarrow>
                      let feedback_timeout = milliseconds_from_seconds_arg config ''feedback_timeout'' 100
                      in if error_of feedback_timeout \<noteq> None \<or> projr feedback_timeout \<le> 0
                         then Inl (dv_name config @ ''.args.feedback_timeout must be positive'')
                         else Inr \<lparr>dp_sensor_name = (if sensor then dv_name config else []),
                           dp_actuator_name = (if sensor then [] else dv_name config), dp_path = dv_path config,
                           dp_transport = transport, dp_motor_id = ucast (projr motor_id),
                           dp_limits = \<lparr>dl_position_max = fcast f32 (projr position_max),
                             dl_velocity_max = fcast f32 (projr velocity_max), dl_torque_max = fcast f32 (projr torque_max)\<rparr>,
                           dp_feedback_timeout_ms = projr feedback_timeout,
                           dp_safety_group = (case dv_args config ''safety_group'' of None \<Rightarrow> [] | Some g \<Rightarrow> g)\<rparr>)"

definition same_damiao_config :: "damiao_profile \<Rightarrow> damiao_profile \<Rightarrow> bool" where
  "same_damiao_config existing parsed \<longleftrightarrow>
     dp_transport parsed = dp_transport existing \<and>
     feq (dl_position_max (dp_limits parsed)) (dl_position_max (dp_limits existing)) \<and>
     feq (dl_velocity_max (dp_limits parsed)) (dl_velocity_max (dp_limits existing)) \<and>
     feq (dl_torque_max (dp_limits parsed)) (dl_torque_max (dp_limits existing)) \<and>
     dp_feedback_timeout_ms parsed = dp_feedback_timeout_ms existing"

definition merge_motor :: "bool \<Rightarrow> damiao_profile \<Rightarrow> damiao_profile \<Rightarrow> damiao_profile" where
  "merge_motor sensor existing parsed =
     (if sensor then existing\<lparr>dp_sensor_name := dp_sensor_name parsed\<rparr>
      else existing\<lparr>dp_actuator_name := dp_actuator_name parsed\<rparr>)"

definition motor_link :: "(damiao_profile, unit) link_kind" where
  "motor_link = \<lparr>lk_type = ''damiao_motor'', lk_label = ''damiao_motor'', lk_plural = ''damiao motors'', lk_maximum = 32,
     lk_parse = parse_damiao_motor, lk_no_buses = (), lk_admit = (\<lambda>parsed buses. Inr buses),
     lk_identity = (\<lambda>device parsed. dp_path parsed @ [CHR 0x0A] @ decimal (unat (dp_motor_id parsed))),
     lk_same = same_damiao_config, lk_merge = merge_motor\<rparr>"

definition derive_damiao_motors :: "device_config list \<Rightarrow> device_config list \<Rightarrow> damiao_profile list parsing" where
  "derive_damiao_motors = derive motor_link"

section \<open>DDS\<close>

definition parse_domain_id :: "json \<Rightarrow> string \<Rightarrow> u32 \<Rightarrow> string \<Rightarrow> u32 parsing" where
  "parse_domain_id object key default_value sect =
     (case member object key of
        None \<Rightarrow> Inr default_value
      | Some (JUint w) \<Rightarrow>
          if 232 < w then Inl (sect @ ''.'' @ key @ '' must be in [0, 232]'') else Inr (ucast w)
      | Some _ \<Rightarrow> Inl (sect @ ''.'' @ key @ '' must be an unsigned integer''))"

text \<open>An object with no keys but the allowed ones.\<close>

definition strict_object :: "json \<Rightarrow> string list \<Rightarrow> string \<Rightarrow> unit parsing" where
  "strict_object v allowed sect =
     (if \<not> is_object v then Inl (sect @ '' must be an object'') else from_check (only_keys v allowed sect))"

definition parse_backend :: "json \<Rightarrow> dds_config \<Rightarrow> dds_config parsing" where
  "parse_backend section_value config =
     andthen (required_string section_value ''backend'' ''dds'' True) (\<lambda>backend.
       if backend = ''unix_shm'' then Inr (config\<lparr>dc_backend := unix_shm\<rparr>)
       else if backend = ''dds''
       then andthen (required_string section_value ''robot_id'' ''dds'' True) (\<lambda>robot_id.
              Inr (config\<lparr>dc_backend := dds_backend, dc_robot_id := trim robot_id\<rparr>))
       else Inl (''dds.backend must be '' @ quoted ''unix_shm'' @ '' or '' @ quoted ''dds''))"

definition parse_cyclone_config :: "json \<Rightarrow> dds_config \<Rightarrow> dds_config parsing" where
  "parse_cyclone_config section_value config =
     (case member section_value ''cyclone_config'' of
        None \<Rightarrow> Inr config
      | Some v \<Rightarrow>
          if \<not> is_string v \<or> is_blank (string_of v) then Inl ''dds.cyclone_config must be a nonempty string''
          else Inr (config\<lparr>dc_cyclone_config := string_of v\<rparr>))"

definition parse_sensor_queue_capacity :: "json \<Rightarrow> dds_config \<Rightarrow> dds_config parsing" where
  "parse_sensor_queue_capacity section_value config =
     (case member section_value ''sensor_queue_capacity'' of
        None \<Rightarrow> Inr config
      | Some (JUint w) \<Rightarrow>
          if w \<in> {16, 32, 64, 128, 256} then Inr (config\<lparr>dc_sensor_queue_capacity := unat w\<rparr>)
          else Inl ''dds.sensor_queue_capacity must be one of 16, 32, 64, 128, or 256''
      | Some _ \<Rightarrow> Inl ''dds.sensor_queue_capacity must be an unsigned integer'')"

fun parse_external_topics :: "string set \<Rightarrow> json list \<Rightarrow> string list parsing" where
  "parse_external_topics unique [] = Inr []"
| "parse_external_topics unique (v # vs) =
     (if \<not> is_string v \<or> is_blank (string_of v) then Inl ''dds.external.topics entries must be nonempty strings''
      else if string_of v \<in> unique then Inl ''dds.external.topics contains a duplicate''
      else andthen (parse_external_topics (insert (string_of v) unique) vs) (\<lambda>rest. Inr (string_of v # rest)))"

definition parse_enabled :: "json \<Rightarrow> bool parsing" where
  "parse_enabled external =
     (case member external ''enabled'' of
        None \<Rightarrow> Inr False
      | Some (JBool b) \<Rightarrow> Inr b
      | Some _ \<Rightarrow> Inl ''dds.external.enabled must be a boolean'')"

definition parse_topics :: "json \<Rightarrow> string list parsing" where
  "parse_topics external =
     (case member external ''topics'' of
        None \<Rightarrow> Inr []
      | Some (JArray vs) \<Rightarrow> parse_external_topics {} vs
      | Some _ \<Rightarrow> Inl ''dds.external.topics must be an array'')"

definition parse_external :: "json \<Rightarrow> dds_config \<Rightarrow> dds_config parsing" where
  "parse_external section_value config =
     (case member section_value ''external'' of
        None \<Rightarrow> Inr config
      | Some external \<Rightarrow>
          andthen (strict_object external [''enabled'', ''domain_id'', ''topics''] ''dds.external'') (\<lambda>_.
          andthen (parse_enabled external) (\<lambda>enabled.
          andthen (parse_domain_id external ''domain_id'' (dx_domain_id (dc_external config)) ''dds.external'') (\<lambda>domain_id.
          andthen (parse_topics external) (\<lambda>topics.
            if enabled \<and> domain_id = dc_local_domain_id config then Inl ''dds external and local domain IDs must differ''
            else Inr (config\<lparr>dc_external := \<lparr>dx_enabled = enabled, dx_domain_id = domain_id, dx_topics = topics\<rparr>\<rparr>))))))"

definition parse_dds_config :: "json \<Rightarrow> dds_config parsing" where
  "parse_dds_config doc =
     (case member doc ''dds'' of
        None \<Rightarrow> Inr default_dds_config
      | Some section_value \<Rightarrow>
          andthen (strict_object section_value
            [''backend'', ''robot_id'', ''local_domain_id'', ''cyclone_config'', ''sensor_queue_capacity'', ''external''] ''dds'') (\<lambda>_.
          andthen (parse_backend section_value default_dds_config) (\<lambda>c1.
          andthen (parse_domain_id section_value ''local_domain_id'' (dc_local_domain_id c1) ''dds'') (\<lambda>domain_id.
          andthen (parse_cyclone_config section_value (c1\<lparr>dc_local_domain_id := domain_id\<rparr>)) (\<lambda>c2.
          andthen (parse_sensor_queue_capacity section_value c2) (parse_external section_value))))))"

section \<open>Robot profiles\<close>

fun first_duplicate :: "string set \<Rightarrow> string list \<Rightarrow> string option" where
  "first_duplicate names [] = None"
| "first_duplicate names (n # ns) = (if n \<in> names then Some n else first_duplicate (insert n names) ns)"

definition externally_publishable :: "topic_descriptor list \<Rightarrow> string set" where
  "externally_publishable ds = td_topic_name ` {d \<in> set ds. td_kind d = state_topic \<or> td_kind d = health_topic}"

definition check_dds_topics :: "robot_profile \<Rightarrow> unit parsing" where
  "check_dds_topics profile =
     (if dc_backend (rp_dds profile) \<noteq> dds_backend then Inr ()
      else case build_dds_topic_registry profile (dc_robot_id (rp_dds profile)) of
        Inl e \<Rightarrow> Inl (message e)
      | Inr ds \<Rightarrow>
          if list_all (\<lambda>topic. topic \<in> externally_publishable ds) (dx_topics (dc_external (rp_dds profile))) then Inr ()
          else Inl ''dds.external.topics may contain only configured sensor or health topics'')"

definition build_robot_profile :: "(json \<Rightarrow> string) \<Rightarrow> json \<Rightarrow> robot_profile parsing" where
  "build_robot_profile dump doc =
     (if \<not> is_object doc then Inl ''robot profile must be an object''
      else andthen (parse_device_list dump doc ''sensors'' ''sensor'') (\<lambda>sensors.
           andthen (parse_device_list dump doc ''actuators'' ''actuator'') (\<lambda>actuators.
           andthen (parse_dds_config doc) (\<lambda>dds.
           case first_duplicate {} (map dv_name (sensors @ actuators)) of
             Some name \<Rightarrow> Inl (''duplicate device name '' @ quoted name)
           | None \<Rightarrow>
               andthen (derive_axes sensors actuators) (\<lambda>axes.
               andthen (derive_st3215 sensors actuators) (\<lambda>servos.
               andthen (derive_damiao_motors sensors actuators) (\<lambda>motors.
               let profile = \<lparr>rp_sensors = sensors, rp_actuators = actuators, rp_axes = axes, rp_st3215_servos = servos,
                     rp_damiao_motors = motors, rp_dds = dds\<rparr>
               in andthen (check_dds_topics profile) (\<lambda>_. Inr profile))))))))"

definition load_robot_profile ::
  "(string \<Rightarrow> json option) \<Rightarrow> (json \<Rightarrow> string) \<Rightarrow> string option \<Rightarrow> string \<Rightarrow> robot_profile result" where
  "load_robot_profile parse dump file path =
     andthen (read_json parse file path) (\<lambda>doc.
       case build_robot_profile dump doc of Inl m \<Rightarrow> invalid m | Inr profile \<Rightarrow> success profile)"

end
