(* ===== verification/Loader_Links.thy ===== *)
theory Loader_Links
  imports Robot_Loader
begin

text \<open>
  The loop that derives physical links from sensors and actuators: every sensor is paired with exactly one actuator of the
  same physical identity and configuration, and the derived profiles are those of the sensors in the order of the file.
  What the code checks of one device holds of every derived profile; the locale \<open>link_contract\<close> states this for a
  kind of link.
\<close>

section \<open>Pairs\<close>

definition of_kind :: "('p, 'b) link_kind \<Rightarrow> device_config list \<Rightarrow> device_config list" where
  "of_kind k ds = filter (\<lambda>d. dv_type d = lk_type k) ds"

text \<open>A profile derived from a sensor and an actuator: both parse, name the same physical device and agree.\<close>

definition paired :: "('p, 'b) link_kind \<Rightarrow> device_config \<Rightarrow> device_config \<Rightarrow> 'p \<Rightarrow> bool" where
  "paired k s a p \<longleftrightarrow>
     (\<exists>ps pa. lk_parse k s True = Inr ps \<and> lk_parse k a False = Inr pa \<and> lk_identity k s ps = lk_identity k a pa
        \<and> lk_same k ps pa \<and> p = lk_merge k False ps pa)"

definition link_identity :: "('p, 'b) link_kind \<Rightarrow> bool \<Rightarrow> device_config \<Rightarrow> string" where
  "link_identity k sensor d = lk_identity k d (projr (lk_parse k d sensor))"

definition links_match :: "('p, 'b) link_kind \<Rightarrow> device_config list \<Rightarrow> device_config list \<Rightarrow> 'p list \<Rightarrow> bool" where
  "links_match k sensors actuators ps \<longleftrightarrow>
     length (of_kind k sensors) = length ps \<and> length (of_kind k actuators) = length ps
     \<and> distinct (map (link_identity k True) (of_kind k sensors))
     \<and> (\<forall>i < length ps. \<exists>!j. j < length ps \<and> paired k (of_kind k sensors ! i) (of_kind k actuators ! j) (ps ! i))"

section \<open>The loop over the sensors\<close>

text \<open>After the sensors: the derived links are their parsed profiles, in order, found by their identities.\<close>

definition sensors_derived :: "('p, 'b) link_kind \<Rightarrow> device_config list \<Rightarrow> 'p list \<Rightarrow> ('p, 'b) derivation \<Rightarrow> bool" where
  "sensors_derived k ds ps st \<longleftrightarrow>
     list_all2 (\<lambda>d p. lk_parse k d True = Inr p) ds ps
     \<and> dn_derived st = map (\<lambda>p. \<lparr>de_profile = p, de_has_sensor = True, de_has_actuator = False\<rparr>) ps
     \<and> distinct (map (link_identity k True) ds)
     \<and> (\<forall>x i. dn_identities st x = Some i \<longleftrightarrow> i < length ds \<and> link_identity k True (ds ! i) = x)"

lemma add_sensor:
  assumes "sensors_derived k ds ps st" "dv_type d = lk_type k" "add_device k True d st = Inr st'"
  shows "\<exists>p. sensors_derived k (ds @ [d]) (ps @ [p]) st'"
proof -
  note S = assms(1) [unfolded sensors_derived_def]
  obtain p buses where p: "lk_parse k d True = Inr p" and b: "lk_admit k p (dn_buses st) = Inr buses"
    and st': "(case dn_identities st (lk_identity k d p) of
        None \<Rightarrow> Inr (link_found (st\<lparr>dn_buses := buses\<rparr>) (lk_identity k d p) p True)
      | Some i \<Rightarrow> link_joined k (st\<lparr>dn_buses := buses\<rparr>) i d p True) = Inr st'"
    using assms(2,3) by (auto simp: add_device_def Let_def)
  have x: "link_identity k True d = lk_identity k d p" by (simp add: link_identity_def p)
  have len: "length ps = length ds" using list_all2_lengthD [OF conjunct1 [OF S]] by simp
  have "dn_identities st (lk_identity k d p) = None"
  proof (rule ccontr)
    assume "dn_identities st (lk_identity k d p) \<noteq> None"
    then obtain i where i: "dn_identities st (lk_identity k d p) = Some i" by blast
    then have "i < length ps" using S len by simp
    then show False using st' i S by (simp add: link_joined_def Let_def)
  qed
  note fresh = this
  have st: "st' = link_found (st\<lparr>dn_buses := buses\<rparr>) (lk_identity k d p) p True" using st' fresh by simp
  have none: "\<not> (i < length ds \<and> link_identity k True (ds ! i) = link_identity k True d)" for i
    using S fresh unfolding x by (metis option.distinct(1))
  then have new: "link_identity k True d \<notin> link_identity k True ` set ds" by (metis imageE in_set_conv_nth)
  have "sensors_derived k (ds @ [d]) (ps @ [p]) st'"
    using S new none p len unfolding sensors_derived_def st link_found_def
    by (auto simp: list_all2_appendI x nth_append less_Suc_eq_le)
  then show ?thesis ..
qed

lemma add_sensors:
  "add_devices k True ds st = Inr st' \<Longrightarrow> sensors_derived k es ps st \<Longrightarrow> \<exists>qs. sensors_derived k (es @ of_kind k ds) (ps @ qs) st'"
proof (induction ds arbitrary: st es ps)
  case Nil
  then show ?case by (auto simp: of_kind_def intro: exI [of _ "[]"])
next
  case (Cons d ds)
  obtain st1 where a: "add_device k True d st = Inr st1" "add_devices k True ds st1 = Inr st'" using Cons.prems(1) by auto
  show ?case
  proof (cases "dv_type d = lk_type k")
    case True
    obtain p where "sensors_derived k (es @ [d]) (ps @ [p]) st1" using add_sensor [OF Cons.prems(2) True a(1)] by blast
    from Cons.IH [OF a(2) this] obtain qs where "sensors_derived k ((es @ [d]) @ of_kind k ds) ((ps @ [p]) @ qs) st'" by blast
    then show ?thesis using True by (auto simp: of_kind_def intro!: exI [of _ "p # qs"])
  next
    case False
    then have "st1 = st" using a(1) by (simp add: add_device_def)
    then show ?thesis using Cons.IH [OF a(2)] Cons.prems(2) False by (simp add: of_kind_def)
  qed
qed

section \<open>The loop over the actuators\<close>

text \<open>While the actuators are added: the first links are the sensors', each joined by the actuator of its identity if that
  was seen; any further link has no sensor.\<close>

definition link_state :: "('p, 'b) link_kind \<Rightarrow> device_config \<Rightarrow> 'p \<Rightarrow> device_config list \<Rightarrow> 'p derived \<Rightarrow> bool" where
  "link_state k s p as e \<longleftrightarrow>
     de_has_sensor e \<and> (de_has_actuator e \<longleftrightarrow> link_identity k True s \<in> link_identity k False ` set as)
     \<and> (if de_has_actuator e then \<exists>a \<in> set as. paired k s a (de_profile e) else de_profile e = p)"

definition actuators_joined ::
  "('p, 'b) link_kind \<Rightarrow> device_config list \<Rightarrow> 'p list \<Rightarrow> device_config list \<Rightarrow> ('p, 'b) derivation \<Rightarrow> bool" where
  "actuators_joined k ds ps as st \<longleftrightarrow>
     length ps \<le> length (dn_derived st) \<and> distinct (map (link_identity k False) as)
     \<and> (\<forall>i < length ps. link_state k (ds ! i) (ps ! i) as (dn_derived st ! i))
     \<and> (\<forall>i < length (dn_derived st). length ps \<le> i \<longrightarrow> \<not> de_has_sensor (dn_derived st ! i) \<and> de_has_actuator (dn_derived st ! i))
     \<and> (\<forall>i < length ps. dn_identities st (link_identity k True (ds ! i)) = Some i)
     \<and> (\<forall>x i. dn_identities st x = Some i \<longrightarrow> i < length (dn_derived st))
     \<and> (\<forall>x i. dn_identities st x = Some i \<longrightarrow> i < length ps \<longrightarrow> x = link_identity k True (ds ! i))
     \<and> (\<forall>a \<in> set as. dn_identities st (link_identity k False a) \<noteq> None)"

lemma joinedD:
  assumes "actuators_joined k ds ps as st"
  shows "length ps \<le> length (dn_derived st)" "distinct (map (link_identity k False) as)"
    "i < length ps \<Longrightarrow> link_state k (ds ! i) (ps ! i) as (dn_derived st ! i)"
    "i < length (dn_derived st) \<Longrightarrow> length ps \<le> i \<Longrightarrow> \<not> de_has_sensor (dn_derived st ! i) \<and> de_has_actuator (dn_derived st ! i)"
    "i < length ps \<Longrightarrow> dn_identities st (link_identity k True (ds ! i)) = Some i"
    "dn_identities st x = Some i \<Longrightarrow> i < length (dn_derived st)"
    "dn_identities st x = Some i \<Longrightarrow> i < length ps \<Longrightarrow> x = link_identity k True (ds ! i)"
    "a \<in> set as \<Longrightarrow> dn_identities st (link_identity k False a) \<noteq> None"
  using assms unfolding actuators_joined_def by blast+

lemma joined_start:
  assumes "sensors_derived k ds ps st"
  shows "actuators_joined k ds ps [] st"
proof -
  note S = assms [unfolded sensors_derived_def]
  have "length ps = length ds" using list_all2_lengthD [OF conjunct1 [OF S]] by simp
  then show ?thesis using S unfolding actuators_joined_def by (simp add: link_state_def)
qed

lemma link_state_other:
  "link_state k s p as e \<Longrightarrow> link_identity k True s \<noteq> link_identity k False a \<Longrightarrow> link_state k s p (as @ [a]) e"
  by (auto simp: link_state_def)

lemma link_state_joined:
  "paired k s a p' \<Longrightarrow> link_identity k True s = link_identity k False a \<Longrightarrow>
     link_state k s p (as @ [a]) \<lparr>de_profile = p', de_has_sensor = True, de_has_actuator = True\<rparr>"
  by (auto simp: link_state_def)

lemma add_actuator_new:
  assumes J: "actuators_joined k ds ps as st" and x: "link_identity k False a = x" "dn_identities st x = None"
  shows "actuators_joined k ds ps (as @ [a]) (link_found (st\<lparr>dn_buses := b\<rparr>) x q False)"
proof -
  have fresh: "x \<notin> link_identity k False ` set as" "i < length ps \<Longrightarrow> link_identity k True (ds ! i) \<noteq> x" for i
    using joinedD(8) [OF J] joinedD(5) [OF J, of i] x(2) by fastforce+
  have "link_state k (ds ! i) (ps ! i) (as @ [a]) (dn_derived st ! i)" if "i < length ps" for i
    using link_state_other [OF joinedD(3) [OF J that]] fresh(2) [OF that] x(1) by simp
  then show ?thesis
    using J fresh x unfolding actuators_joined_def link_found_def
    by (simp add: nth_append less_Suc_eq)
qed

lemma add_actuator_joined:
  assumes J: "actuators_joined k ds ps as st" and x: "link_identity k False a = x" "dn_identities st x = Some i"
    and q: "lk_parse k a False = Inr q" and P: "list_all2 (\<lambda>d p. lk_parse k d True = Inr p) ds ps"
    and j: "link_joined k (st\<lparr>dn_buses := b\<rparr>) i a q False = Inr st'"
  shows "actuators_joined k ds ps (as @ [a]) st'"
proof -
  let ?e = "dn_derived st ! i"
  have free: "\<not> de_has_actuator ?e" and same: "lk_same k (de_profile ?e) q"
    and st': "st' = st\<lparr>dn_buses := b, dn_derived := (dn_derived st)[i :=
        \<lparr>de_profile = lk_merge k False (de_profile ?e) q, de_has_sensor = de_has_sensor ?e, de_has_actuator = True\<rparr>]\<rparr>"
    using j by (auto simp: link_joined_def Let_def split: if_splits)
  have i: "i < length (dn_derived st)" by (rule joinedD(6) [OF J x(2)])
  have n: "i < length ps" using joinedD(4) [OF J i] free by (meson not_le)
  have id: "x = link_identity k True (ds ! i)" by (rule joinedD(7) [OF J x(2) n])
  have e: "de_profile ?e = ps ! i" "de_has_sensor ?e" and fresh: "x \<notin> link_identity k False ` set as"
    using joinedD(3) [OF J n] free id by (auto simp: link_state_def)
  have dp: "lk_parse k (ds ! i) True = Inr (ps ! i)" using P n by (simp add: list_all2_conv_all_nth)
  have "paired k (ds ! i) a (lk_merge k False (ps ! i) q)"
    using dp q same id x(1) e by (auto simp: paired_def link_identity_def)
  then have here: "link_state k (ds ! i) (ps ! i) (as @ [a]) (dn_derived st' ! i)"
    using i id x(1) by (simp add: st' e link_state_joined)
  have there: "link_state k (ds ! m) (ps ! m) (as @ [a]) (dn_derived st ! m)" if "m < length ps" "m \<noteq> i" for m
  proof (rule link_state_other [OF joinedD(3) [OF J that(1)]])
    show "link_identity k True (ds ! m) \<noteq> link_identity k False a" using joinedD(5) [OF J that(1)] that(2) x by force
  qed
  have "link_state k (ds ! m) (ps ! m) (as @ [a]) (dn_derived st' ! m)" if "m < length ps" for m
    using here there [OF that] by (cases "m = i") (simp_all add: st')
  moreover have "dn_derived st' ! m = dn_derived st ! m" if "length ps \<le> m" for m using that n by (simp add: st')
  ultimately show ?thesis
    using J fresh x unfolding actuators_joined_def by (simp add: st')
qed

lemma add_actuators:
  assumes P: "list_all2 (\<lambda>d p. lk_parse k d True = Inr p) ds ps"
  shows "add_devices k False as st = Inr st' \<Longrightarrow> actuators_joined k ds ps bs st \<Longrightarrow>
    actuators_joined k ds ps (bs @ of_kind k as) st'"
proof (induction as arbitrary: st bs)
  case Nil
  then show ?case by (simp add: of_kind_def)
next
  case (Cons a as)
  obtain st1 where st1: "add_device k False a st = Inr st1" "add_devices k False as st1 = Inr st'" using Cons.prems(1) by auto
  show ?case
  proof (cases "dv_type a = lk_type k")
    case True
    then obtain q b where q: "lk_parse k a False = Inr q"
      and r: "(case dn_identities st (lk_identity k a q) of
          None \<Rightarrow> Inr (link_found (st\<lparr>dn_buses := b\<rparr>) (lk_identity k a q) q False)
        | Some i \<Rightarrow> link_joined k (st\<lparr>dn_buses := b\<rparr>) i a q False) = Inr st1"
      using st1(1) by (auto simp: add_device_def Let_def)
    have x: "link_identity k False a = lk_identity k a q" by (simp add: link_identity_def q)
    have "actuators_joined k ds ps (bs @ [a]) st1"
    proof (cases "dn_identities st (lk_identity k a q)")
      case None
      then show ?thesis using add_actuator_new [OF Cons.prems(2) x None, of b q] r by simp
    next
      case (Some i)
      then show ?thesis using add_actuator_joined [OF Cons.prems(2) x Some q P] r by simp
    qed
    from Cons.IH [OF st1(2) this] show ?thesis using True by (simp add: of_kind_def)
  next
    case False
    then have "st1 = st" using st1(1) by (simp add: add_device_def)
    then show ?thesis using Cons.IH [OF st1(2)] Cons.prems(2) False by (simp add: of_kind_def)
  qed
qed

section \<open>Derived profiles\<close>

lemma paired_identity: "paired k s a p \<Longrightarrow> link_identity k False a = link_identity k True s"
  by (auto simp: paired_def link_identity_def)

lemma joined_identities:
  assumes J: "actuators_joined k ds ps as st" and n: "length (dn_derived st) = length ps" and len: "length ps = length ds"
    and at: "\<And>i. i < length ps \<Longrightarrow> link_identity k True (ds ! i) \<in> link_identity k False ` set as"
  shows "link_identity k True ` set ds = link_identity k False ` set as"
proof
  show "link_identity k True ` set ds \<subseteq> link_identity k False ` set as"
    using at len by (force simp: in_set_conv_nth)
  show "link_identity k False ` set as \<subseteq> link_identity k True ` set ds"
  proof clarify
    fix a assume a: "a \<in> set as"
    obtain i where i: "dn_identities st (link_identity k False a) = Some i" using joinedD(8) [OF J a] by blast
    then have "i < length ps" "link_identity k False a = link_identity k True (ds ! i)"
      using joinedD(6,7) [OF J i] n by auto
    then show "link_identity k False a \<in> link_identity k True ` set ds" using len by simp
  qed
qed

lemma derive_links:
  assumes "derive k sensors actuators = Inr rs"
  shows "links_match k sensors actuators rs" "length rs \<le> lk_maximum k"
proof -
  let ?ds = "of_kind k sensors" and ?as = "of_kind k actuators"
  obtain st1 st2 where st1: "add_devices k True sensors (start_derivation k) = Inr st1"
    and st2: "add_devices k False actuators st1 = Inr st2" and max: "length (dn_derived st2) \<le> lk_maximum k"
    and good: "list_all (\<lambda>d. de_has_sensor d \<and> de_has_actuator d) (dn_derived st2)"
    and rs: "rs = map de_profile (dn_derived st2)"
    using assms by (auto simp: derive_def not_less split: if_split_asm)
  have all: "i < length (dn_derived st2) \<Longrightarrow> de_has_sensor (dn_derived st2 ! i) \<and> de_has_actuator (dn_derived st2 ! i)" for i
    using good by (simp add: list_all_length)
  have "sensors_derived k [] [] (start_derivation k)" by (simp add: sensors_derived_def start_derivation_def)
  from add_sensors [OF st1 this] obtain ps where S: "sensors_derived k ?ds ps st1" by auto
  have P: "list_all2 (\<lambda>d p. lk_parse k d True = Inr p) ?ds ps" and ids: "distinct (map (link_identity k True) ?ds)"
    using S by (simp_all add: sensors_derived_def)
  have len: "length ps = length ?ds" using list_all2_lengthD [OF P] by simp
  have J: "actuators_joined k ?ds ps ?as st2" using add_actuators [OF P st2 joined_start [OF S]] by simp
  have n: "length (dn_derived st2) = length ps"
    using joinedD(1) [OF J] joinedD(4) [OF J, of "length ps"] all [of "length ps"] by (metis le_refl nat_less_le)
  have at: "link_identity k True (?ds ! i) \<in> link_identity k False ` set ?as"
    "\<exists>a \<in> set ?as. paired k (?ds ! i) a (rs ! i)" if "i < length ps" for i
    using joinedD(3) [OF J that] all [of i] that n by (simp_all add: link_state_def rs)
  have "link_identity k True ` set ?ds = link_identity k False ` set ?as" by (rule joined_identities [OF J n len at(1)])
  then have card: "length ?as = length ?ds"
    using distinct_card [OF ids] distinct_card [OF joinedD(2) [OF J]] by simp
  have unique: "j = j'" if "j < length ?as" "j' < length ?as" "paired k s (?as ! j) p" "paired k s (?as ! j') p" for j j' s p
  proof -
    have "map (link_identity k False) ?as ! j = map (link_identity k False) ?as ! j'"
      using paired_identity [OF that(3)] paired_identity [OF that(4)] that(1,2) by simp
    then show ?thesis using joinedD(2) [OF J] that(1,2) nth_eq_iff_index_eq by fastforce
  qed
  have "\<exists>!j. j < length rs \<and> paired k (?ds ! i) (?as ! j) (rs ! i)" if m: "i < length rs" for i
  proof -
    have "i < length ps" using m rs n by simp
    then obtain a where "a \<in> set ?as" "paired k (?ds ! i) a (rs ! i)" using at(2) by blast
    then obtain j where "j < length ?as" "paired k (?ds ! i) (?as ! j) (rs ! i)" by (metis in_set_conv_nth)
    then show ?thesis using unique card len n rs by (metis length_map)
  qed
  then show "links_match k sensors actuators rs" using ids card len n rs by (simp add: links_match_def)
  show "length rs \<le> lk_maximum k" using max rs by simp
qed

lemma add_devices_parse:
  "add_devices k s ds st = Inr st' \<Longrightarrow> d \<in> set ds \<Longrightarrow> dv_type d = lk_type k \<Longrightarrow> \<exists>p. lk_parse k d s = Inr p"
proof (induction ds arbitrary: st)
  case (Cons a ds)
  then obtain st1 where "add_device k s a st = Inr st1" "add_devices k s ds st1 = Inr st'" by auto
  then show ?case using Cons by (auto simp: add_device_def)
qed simp

lemma derive_parses:
  assumes "derive k sensors actuators = Inr rs" "d \<in> set sensors \<union> set actuators" "dv_type d = lk_type k"
  shows "\<exists>s p. lk_parse k d s = Inr p"
proof -
  obtain st1 st2 where "add_devices k True sensors (start_derivation k) = Inr st1" "add_devices k False actuators st1 = Inr st2"
    using assms(1) by (auto simp: derive_def)
  then show ?thesis using add_devices_parse assms(2,3) by blast
qed

lemma derived_paired:
  assumes "derive k sensors actuators = Inr rs" "i < length rs"
  shows "\<exists>a \<in> set (of_kind k actuators). paired k (of_kind k sensors ! i) a (rs ! i)"
  using derive_links(1) [OF assms(1)] assms(2) unfolding links_match_def by (metis nth_mem)

section \<open>Contracts\<close>

text \<open>A kind of link whose devices parse to valid profiles, and where joining two that agree keeps them valid.\<close>

locale link_contract =
  fixes k :: "('p, 'b) link_kind" and valid :: "'p \<Rightarrow> bool"
  assumes parse_valid: "lk_parse k d sensor = Inr p \<Longrightarrow> valid p"
    and merge_valid: "valid p \<Longrightarrow> valid q \<Longrightarrow> lk_same k p q \<Longrightarrow> valid (lk_merge k False p q)"
begin

lemma paired_valid: "paired k s a p \<Longrightarrow> valid p"
  by (auto simp: paired_def intro: merge_valid dest: parse_valid)

lemma derived_valid:
  assumes "derive k sensors actuators = Inr rs"
  shows "list_all valid rs"
  unfolding list_all_length using derived_paired [OF assms] paired_valid by blast

end

end
