(* ===== verification/Policy_Loader.thy ===== *)
theory Policy_Loader
  imports Robot_Loader
begin

text \<open>
  Loading a policy profile, \<^verbatim>\<open>src/profiles/loader.cpp\<close>: the semantic fields of both canonical schemas, the temporal
  section, the processors, the bindings of robot data to canonical fields, and \<open>load_policy_profile\<close>.
\<close>

section \<open>Semantic fields\<close>

definition parse_bound :: "json \<Rightarrow> string \<Rightarrow> fp option parsing" where
  "parse_bound v key =
     (case member v key of
        None \<Rightarrow> Inr None
      | Some JNull \<Rightarrow> Inr None
      | Some item \<Rightarrow> (case coerce_pydantic_double item of
            None \<Rightarrow> Inl (''semantic field bounds.'' @ key @ '' must be numeric'')
          | Some x \<Rightarrow> Inr (Some x)))"

definition parse_bounds :: "json \<Rightarrow> semantic_bounds parsing" where
  "parse_bounds v =
     (if \<not> is_object v then Inl ''semantic field bounds must be an object''
      else andthen (parse_bound v ''lower'') (\<lambda>lower.
           andthen (parse_bound v ''upper'') (\<lambda>upper.
           case (lower, upper) of
             (Some l, Some u) \<Rightarrow>
               if flt u l then Inl ''semantic field bounds lower must be <= upper'' else Inr \<lparr>sb_lower = lower, sb_upper = upper\<rparr>
           | _ \<Rightarrow> Inr \<lparr>sb_lower = lower, sb_upper = upper\<rparr>)))"

definition parse_kind :: "json \<Rightarrow> semantic_kind parsing" where
  "parse_kind v =
     (case member v ''kind'' of
        None \<Rightarrow> Inr sk_scalar
      | Some (JString s) \<Rightarrow>
          if s = ''scalar'' then Inr sk_scalar else if s = ''vector'' then Inr sk_vector else if s = ''text'' then Inr sk_text
          else if s = ''image'' then Inr sk_image else if s = ''object'' then Inr sk_object
          else Inl ''semantic field kind is invalid''
      | Some _ \<Rightarrow> Inl ''semantic field kind must be a string'')"

definition parse_ordering :: "json \<Rightarrow> string list parsing" where
  "parse_ordering v =
     (case member v ''ordering'' of
        None \<Rightarrow> Inr []
      | Some (JArray items) \<Rightarrow>
          check_each (\<lambda>item. if is_string item then Inr (string_of item) else Inl ''semantic field ordering must contain strings'') items
      | Some _ \<Rightarrow> Inl ''semantic field ordering must be an array'')"

definition parse_field_bounds :: "json \<Rightarrow> semantic_bounds option parsing" where
  "parse_field_bounds v =
     (case member v ''bounds'' of
        None \<Rightarrow> Inr None
      | Some JNull \<Rightarrow> Inr None
      | Some b \<Rightarrow> andthen (parse_bounds b) (\<lambda>bounds. Inr (Some bounds)))"

definition parse_boolean :: "json \<Rightarrow> string \<Rightarrow> string \<Rightarrow> bool parsing" where
  "parse_boolean v key label =
     (case member v key of
        None \<Rightarrow> Inr False
      | Some item \<Rightarrow> (case coerce_pydantic_bool item of None \<Rightarrow> Inl (label @ '' must be a boolean'') | Some b \<Rightarrow> Inr b))"

definition semantic_field_keys :: "string list" where
  "semantic_field_keys = [''name'', ''semantic_type'', ''kind'', ''unit'', ''ordering'', ''bounds'', ''frame'', ''normalized'', ''optional'',
     ''description'']"

definition parse_semantic_field :: "json \<Rightarrow> semantic_field parsing" where
  "parse_semantic_field v =
     andthen (strict_object v semantic_field_keys ''semantic field'') (\<lambda>_.
     andthen (both (required_string v ''name'' ''semantic field'' True)
                   (required_string v ''semantic_type'' ''semantic field'' True)) (\<lambda>(name, semantic_type).
     andthen (parse_kind v) (\<lambda>kind.
     andthen (optional_string v ''unit'' ''semantic field'') (\<lambda>unit.
     andthen (optional_string v ''frame'' ''semantic field'') (\<lambda>frame.
     andthen (optional_string v ''description'' ''semantic field'') (\<lambda>description.
     andthen (parse_ordering v) (\<lambda>ordering.
     if kind = sk_vector \<and> ordering = [] then Inl ''vector fields must declare ordering''
     else andthen (parse_field_bounds v) (\<lambda>bounds.
          andthen (parse_boolean v ''normalized'' ''semantic field normalized'') (\<lambda>normalized.
          andthen (parse_boolean v ''optional'' ''semantic field optional'') (\<lambda>optional.
          Inr \<lparr>sm_name = name, sm_semantic_type = semantic_type, sm_kind = kind, sm_unit = unit, sm_ordering = ordering,
               sm_bounds = bounds, sm_frame = frame, sm_normalized = normalized, sm_optional = optional,
               sm_description = description\<rparr>))))))))))"

definition parse_semantic_fields :: "json \<Rightarrow> string \<Rightarrow> semantic_field list parsing" where
  "parse_semantic_fields doc key =
     (case member doc key of
        Some (JArray vs) \<Rightarrow> check_each parse_semantic_field vs
      | _ \<Rightarrow> Inl (key @ '' must be an array''))"

section \<open>Temporal section and processors\<close>

definition parse_temporal_mode :: "json \<Rightarrow> temporal_mode parsing" where
  "parse_temporal_mode v =
     (case member v ''mode'' of
        None \<Rightarrow> Inr single_step
      | Some (JString s) \<Rightarrow>
          if s = ''single_step'' then Inr single_step else if s = ''chunked'' then Inr chunked
          else Inl ''temporal.mode must be single_step or chunked''
      | Some _ \<Rightarrow> Inl ''temporal.mode must be a string'')"

definition parse_count :: "json \<Rightarrow> string \<Rightarrow> u64 parsing" where
  "parse_count v key =
     (case member v key of
        None \<Rightarrow> Inr 1
      | Some item \<Rightarrow> (case coerce_pydantic_positive_integer item of
            None \<Rightarrow> Inl (''temporal.'' @ key @ '' must be >= 1'')
          | Some n \<Rightarrow> if n < 1 then Inl (''temporal.'' @ key @ '' must be >= 1'') else Inr n))"

definition parse_temporal :: "json \<Rightarrow> temporal_spec parsing" where
  "parse_temporal doc =
     (case member doc ''temporal'' of
        None \<Rightarrow> Inr \<lparr>ts_mode = single_step, ts_action_horizon = 1, ts_observation_history = 1\<rparr>
      | Some v \<Rightarrow>
          andthen (strict_object v [''mode'', ''action_horizon'', ''observation_history''] ''temporal'') (\<lambda>_.
          andthen (parse_temporal_mode v) (\<lambda>mode.
          andthen (parse_count v ''action_horizon'') (\<lambda>action_horizon.
          andthen (parse_count v ''observation_history'') (\<lambda>observation_history.
          Inr \<lparr>ts_mode = mode, ts_action_horizon = action_horizon, ts_observation_history = observation_history\<rparr>)))))"

definition parse_sub_object :: "json \<Rightarrow> string \<Rightarrow> string \<Rightarrow> json parsing" where
  "parse_sub_object v key label =
     (case member v key of
        None \<Rightarrow> Inr (JObject [])
      | Some x \<Rightarrow> if is_object x then Inr x else Inl (label @ '' must be an object''))"

definition parse_processor :: "json \<Rightarrow> processor_spec parsing" where
  "parse_processor v =
     andthen (strict_object v [''name'', ''params''] ''processor'') (\<lambda>_.
     andthen (required_string v ''name'' ''processor'' True) (\<lambda>name.
     andthen (parse_sub_object v ''params'' ''processor.params'') (\<lambda>params.
     Inr \<lparr>pc_name = name, pc_params = sorted_copy params\<rparr>)))"

definition optional_list :: "(json \<Rightarrow> 'a parsing) \<Rightarrow> json \<Rightarrow> string \<Rightarrow> 'a list parsing" where
  "optional_list parse_item doc key =
     (case member doc key of
        None \<Rightarrow> Inr []
      | Some (JArray vs) \<Rightarrow> check_each parse_item vs
      | Some _ \<Rightarrow> Inl (key @ '' must be an array''))"

definition parse_processors :: "json \<Rightarrow> string \<Rightarrow> processor_spec list parsing" where
  "parse_processors = optional_list parse_processor"

section \<open>Bindings\<close>

definition parse_binding :: "json \<Rightarrow> policy_binding parsing" where
  "parse_binding v =
     andthen (strict_object v
       [''name'', ''robot_data'', ''canonical_field'', ''source_path'', ''target_path'', ''optional'', ''metadata''] ''binding'') (\<lambda>_.
     andthen (both (both (required_string v ''name'' ''binding'' True) (required_string v ''robot_data'' ''binding'' True))
                   (required_string v ''canonical_field'' ''binding'' True)) (\<lambda>((name, robot_data), canonical).
     andthen (optional_string v ''source_path'' ''binding'') (\<lambda>source_path.
     andthen (optional_string v ''target_path'' ''binding'') (\<lambda>target_path.
     andthen (parse_boolean v ''optional'' ''binding.optional'') (\<lambda>optional.
     andthen (parse_sub_object v ''metadata'' ''binding.metadata'') (\<lambda>metadata.
     Inr \<lparr>pb_name = name, pb_robot_data = robot_data, pb_canonical_field = canonical, pb_source_path = source_path,
          pb_target_path = target_path, pb_optional = optional, pb_metadata = sorted_copy metadata\<rparr>))))))"

definition parse_bindings :: "json \<Rightarrow> string \<Rightarrow> policy_binding list parsing" where
  "parse_bindings = optional_list parse_binding"

text \<open>The names of a schema, when no two fields share one.\<close>

fun validate_unique_fields :: "semantic_field list \<Rightarrow> string \<Rightarrow> string set \<Rightarrow> string set parsing" where
  "validate_unique_fields [] sect names = Inr names"
| "validate_unique_fields (f # fs) sect names =
     (if sm_name f \<in> names then Inl (sect @ '' contains duplicate field names'')
      else validate_unique_fields fs sect (insert (sm_name f) names))"

fun validate_binding_list ::
  "policy_binding list \<Rightarrow> string set \<Rightarrow> string \<Rightarrow> string set \<Rightarrow> string set \<Rightarrow> unit parsing" where
  "validate_binding_list [] canonical_fields sect names robot_data = Inr ()"
| "validate_binding_list (b # bs) canonical_fields sect names robot_data =
     (if pb_name b \<in> names then Inl (sect @ '' contains duplicate binding names'')
      else if pb_robot_data b \<in> robot_data then Inl (sect @ '' contains duplicate robot_data names'')
      else if pb_canonical_field b \<notin> canonical_fields
      then Inl (sect @ ''.'' @ pb_name b @ '' references unknown canonical field '' @ quoted (pb_canonical_field b))
      else validate_binding_list bs canonical_fields sect (insert (pb_name b) names) (insert (pb_robot_data b) robot_data))"

definition validate_bindings :: "policy_binding list \<Rightarrow> string set \<Rightarrow> string \<Rightarrow> unit parsing" where
  "validate_bindings bindings canonical_fields sect = validate_binding_list bindings canonical_fields sect {} {}"

section \<open>Policy profiles\<close>

definition policy_profile_keys :: "string list" where
  "policy_profile_keys = [''id'', ''version'', ''policy'', ''model'', ''inputs'', ''outputs'', ''canonical_observation_schema'',
     ''canonical_action_schema'', ''temporal'', ''preprocess'', ''postprocess'', ''safety'']"

definition parse_policy_document :: "json \<Rightarrow> policy_profile parsing" where
  "parse_policy_document doc =
     andthen (strict_object doc policy_profile_keys ''policy profile'') (\<lambda>_.
     andthen (both (both (required_string doc ''id'' ''policy profile'' True) (required_string doc ''version'' ''policy profile'' False))
                   (required_string doc ''policy'' ''policy profile'' True)) (\<lambda>((identifier, version), policy).
     andthen (parse_sub_object doc ''model'' ''policy profile.model'') (\<lambda>model.
     andthen (parse_sub_object doc ''safety'' ''policy profile.safety'') (\<lambda>safety.
     andthen (parse_bindings doc ''inputs'') (\<lambda>inputs.
     andthen (parse_bindings doc ''outputs'') (\<lambda>outputs.
     andthen (parse_semantic_fields doc ''canonical_observation_schema'') (\<lambda>observations.
     andthen (parse_semantic_fields doc ''canonical_action_schema'') (\<lambda>actions.
     andthen (parse_temporal doc) (\<lambda>temporal.
     andthen (parse_processors doc ''preprocess'') (\<lambda>preprocess.
     andthen (parse_processors doc ''postprocess'') (\<lambda>postprocess.
     Inr \<lparr>pp_id = identifier, pp_version = version, pp_policy = policy, pp_model = model, pp_inputs = inputs,
          pp_outputs = outputs, pp_canonical_observation_schema = observations, pp_canonical_action_schema = actions,
          pp_temporal = temporal, pp_preprocess = preprocess, pp_postprocess = postprocess,
          pp_safety = sorted_copy safety\<rparr>)))))))))))"

definition validate_policy_profile :: "policy_profile \<Rightarrow> policy_profile parsing" where
  "validate_policy_profile profile =
     andthen (validate_unique_fields (pp_canonical_observation_schema profile) ''canonical_observation_schema'' {}) (\<lambda>observation_names.
     andthen (validate_unique_fields (pp_canonical_action_schema profile) ''canonical_action_schema'' {}) (\<lambda>action_names.
     andthen (validate_bindings (pp_inputs profile) observation_names ''inputs'') (\<lambda>_.
     andthen (validate_bindings (pp_outputs profile) action_names ''outputs'') (\<lambda>_.
     if (pp_inputs profile = []) \<noteq> (pp_outputs profile = []) \<or> length (pp_inputs profile) \<noteq> length (pp_outputs profile)
     then Inl ''policy inputs and outputs must be declared as equal-length pairs''
     else Inr profile))))"

definition load_policy_profile :: "(string \<Rightarrow> json option) \<Rightarrow> string option \<Rightarrow> string \<Rightarrow> policy_profile result" where
  "load_policy_profile parse file path =
     andthen (read_json parse file path) (\<lambda>doc.
       case andthen (parse_policy_document doc) validate_policy_profile of Inl m \<Rightarrow> invalid m | Inr profile \<Rightarrow> success profile)"

end
