(* ===== verification/Loader_Props.thy ===== *)
theory Loader_Props
  imports Loader_Links Policy_Loader Daemon
begin

text \<open>
  What a loaded profile guarantees.  Every derived axis, servo and motor satisfies what the loader checks of one device;
  a robot profile that loads passes the checks with which the daemon configures its supervisor and its servo registry;
  and a policy profile that loads binds distinct robot data to known canonical fields.
\<close>

section \<open>Axes\<close>

definition valid_axis :: "axis_config \<Rightarrow> bool" where
  "valid_axis a \<longleftrightarrow>
     isfinite (ac_scale a) \<and> \<not> fle (ac_scale a) (Fin 0) \<and> isfinite (ac_minimum a) \<and> isfinite (ac_maximum a)
     \<and> \<not> flt (ac_maximum a) (ac_minimum a) \<and> isfinite (ac_slew_limit a) \<and> \<not> fle (ac_slew_limit a) (Fin 0)
     \<and> isfinite (ac_following_error_limit a) \<and> \<not> fle (ac_following_error_limit a) (Fin 0)
     \<and> 0 < ac_command_timeout a \<and> ac_command_timeout a \<le> int64_max
     \<and> ac_mode a \<in> {csp, csv, cst} \<and> \<not> is_blank (ac_safety_group a)"

lemma axis_mode_cases: "axis_mode s = Some m \<Longrightarrow> m \<in> {csp, csv, cst}"
  by (auto simp: axis_mode_def split: if_splits)

lemma uint_positive: "0 < uint w \<longleftrightarrow> w \<noteq> 0" for w :: "'a::len word"
  by (metis order_less_le uint_0_iff unsigned_greater_eq)

lemma parse_axis_valid: "parse_axis d = Inr a \<Longrightarrow> valid_axis a"
  unfolding parse_axis_def valid_axis_def int64_max_def
  by (auto simp: Let_def uint_positive not_less dest: parse_double_finite axis_mode_cases
      split: if_split_asm option.split_asm)

interpretation axis_contract: link_contract axis_link valid_axis
  by unfold_locales (auto simp: axis_link_def parse_axis_valid)

lemma configure_loop_succeeds:
  "list_all (\<lambda>a. \<not> axis_limits_bad a \<and> ac_mode a \<in> {csp, csv, cst}) axes \<Longrightarrow>
     snd (configure_loop axes i group_ids next_group spv) = success ()"
proof (induction axes i group_ids next_group spv rule: configure_loop.induct)
  case (1 axes i group_ids next_group spv)
  show ?case
  proof (cases "i < length axes")
    case True
    then have "\<not> axis_limits_bad (axes ! i)" "ac_mode (axes ! i) \<in> {csp, csv, cst}" using 1(2) by (simp_all add: list_all_length)
    then show ?thesis
      using 1(1) [OF True] 1(2) True by (subst configure_loop.simps) (auto simp: Let_def split: prod.split)
  qed (subst configure_loop.simps, simp)
qed

lemma configure_succeeds:
  assumes "\<not> configured spv" "valid_options (options spv)" "length axes \<le> kRobotIoMaximumAxes"
    "list_all (\<lambda>a. \<not> axis_limits_bad a \<and> ac_mode a \<in> {csp, csv, cst}) axes"
  shows "snd (configure spv axes) = success ()"
  using assms configure_loop_succeeds [OF assms(4), of 0 "replicate kRobotIoMaximumAxes 0" 0 spv]
  by (auto simp: configure_def success_def split: prod.split sum.split)

lemma configure_loop_checks:
  "has_value (snd (configure_loop axes i group_ids next_group spv)) \<Longrightarrow> i \<le> j \<Longrightarrow> j < length axes \<Longrightarrow> \<not> axis_limits_bad (axes ! j)"
proof (induction axes i group_ids next_group spv rule: configure_loop.induct)
  case (1 axes i group_ids next_group spv)
  obtain g n where g: "assign_group axes i group_ids next_group = (g, n)" by fastforce
  have i: "i < length axes" using 1(3,4) by simp
  then have "\<not> axis_limits_bad (axes ! i)" "ac_mode (axes ! i) = csp \<or> ac_mode (axes ! i) = csv \<or> ac_mode (axes ! i) = cst"
    using 1(2) by (auto simp: configure_loop.simps [of axes i] split: if_splits)
  then show ?case
    using 1(1) [OF i, of "(g, n)" g n] 1(2-4) i g by (cases "i = j") (auto simp: configure_loop.simps [of axes i])
qed

lemma configure_checks:
  assumes "has_value (snd (configure spv axes))"
  shows "list_all (\<lambda>a. ac_command_timeout a \<le> int64_max div 1000000) axes"
proof -
  have "has_value (snd (configure_loop axes 0 (replicate kRobotIoMaximumAxes 0) 0 spv))"
    using assms by (auto simp: configure_def has_value_def failure_def split: if_splits prod.splits sum.splits)
  then show ?thesis using configure_loop_checks by (fastforce simp: list_all_length axis_limits_bad_def)
qed

lemma valid_axis_limits: "valid_axis a \<Longrightarrow> ac_command_timeout a \<le> int64_max div 1000000 \<Longrightarrow> \<not> axis_limits_bad a"
  by (auto simp: valid_axis_def axis_limits_bad_def)

lemma valid_axes_configure:
  assumes "list_all valid_axis axes" "length axes \<le> kRobotIoMaximumAxes"
  shows "has_value (snd (configure (make_supervisor default_options) axes))
    \<longleftrightarrow> list_all (\<lambda>a. ac_command_timeout a \<le> int64_max div 1000000) axes"
proof
  assume "list_all (\<lambda>a. ac_command_timeout a \<le> int64_max div 1000000) axes"
  then have "list_all (\<lambda>a. \<not> axis_limits_bad a \<and> ac_mode a \<in> {csp, csv, cst}) axes"
    using assms(1) valid_axis_limits by (auto simp: list_all_iff valid_axis_def)
  then have "snd (configure (make_supervisor default_options) axes) = success ()"
    by (intro configure_succeeds assms(2)) (simp_all add: make_supervisor_def valid_options_def default_options_def)
  then show "has_value (snd (configure (make_supervisor default_options) axes))" by simp
qed (rule configure_checks)

lemma positive_limit: "isfinite x \<Longrightarrow> \<not> fle x (Fin 0) \<Longrightarrow> valid_positive_limit x"
  by (cases x) (auto simp: valid_positive_limit_def fle_def feq_def)

lemma construct_axes_succeeds: "list_all valid_axis axes \<Longrightarrow> has_value (construct_axes axes)"
proof (induction axes)
  case (Cons a axes)
  then have "valid_positive_limit (ac_slew_limit a)" "valid_positive_limit (ac_following_error_limit a)"
    by (simp_all add: valid_axis_def positive_limit)
  then show ?case using Cons by (auto simp: make_axis_def has_value_def split: sum.splits)
qed simp

section \<open>Servos\<close>

definition valid_servo :: "servo_profile \<Rightarrow> bool" where
  "valid_servo p \<longleftrightarrow>
     sp_baud_rate (pf_serial p) \<noteq> 0 \<and> 6 \<le> sp_maximum_frame_size (pf_serial p) \<and> sp_maximum_frame_size (pf_serial p) \<le> 259
     \<and> 0 < sp_read_buffer_size (pf_serial p) \<and> sp_read_buffer_size (pf_serial p) \<le> 4096
     \<and> pf_device_id p < kSt3215BroadcastId \<and> pf_max_position_units p \<noteq> 0
     \<and> 0 < pf_feedback_timeout_ms p \<and> pf_feedback_timeout_ms p \<le> int64_limit div 1000000
     \<and> 0 < pf_command_timeout_ms p \<and> pf_command_timeout_ms p \<le> 1000 \<and> pf_maximum_command_future_ms p \<le> 1000
     \<and> 0 < sp_service_period (pf_serial p) \<and> sp_service_period (pf_serial p) \<le> 1000000000"

lemma parse_st3215_valid:
  assumes "parse_st3215 d sensor = Inr p"
  shows "valid_servo p \<and> sp_path (pf_serial p) = dv_path d \<and> (sensor \<longrightarrow> pf_sensor_name p = dv_name d)"
proof -
  have id: "ucast w < (0xFE :: u8)" if "w \<le> 0xFD" for w :: u16
  proof -
    have "unat w \<le> 0xFD" using that by (simp add: word_le_nat_alt)
    then have "unat w < 2 ^ 8" by simp
    then have "unat (ucast w :: u8) = unat w" by (simp add: unsigned_ucast_eq take_bit_nat_eq_self)
    then show ?thesis using \<open>unat w \<le> 0xFD\<close> by (simp add: word_less_nat_alt)
  qed
  obtain device_id servo_id n where n: "\<not> unsafe_st3215_limits device_id n" and p: "p = st3215_profile d sensor device_id servo_id n"
    using assms by (auto simp: parse_st3215_def split: if_split_asm)
  have "6 \<le> unat (n3_maximum_frame n)" "unat (n3_maximum_frame n) \<le> 259" "unat (n3_read_buffer n) \<le> 4096"
    using n unfolding unsafe_st3215_limits_def by (simp_all add: not_less word_le_nat_alt)
  moreover have "uint (n3_command_timeout n) \<le> 1000" "uint (n3_maximum_command_future n) \<le> 1000" "uint (n3_service_period n) \<le> 1000000"
    using n unfolding unsafe_st3215_limits_def by (simp_all add: not_less word_le_def)
  ultimately have "valid_servo p"
    using n id unfolding p valid_servo_def unsafe_st3215_limits_def st3215_profile_def kSt3215BroadcastId_def int64_limit_def
    by (simp add: uint_positive unat_gt_0 not_less)
  then show ?thesis by (simp add: p st3215_profile_def)
qed

interpretation servo_contract: link_contract servo_link valid_servo
proof
  show "lk_parse servo_link d sensor = Inr p \<Longrightarrow> valid_servo p" for d sensor p
    using parse_st3215_valid by (simp add: servo_link_def)
  show "valid_servo p \<Longrightarrow> valid_servo q \<Longrightarrow> lk_same servo_link p q \<Longrightarrow> valid_servo (lk_merge servo_link False p q)" for p q
    by (simp add: servo_link_def merge_servo_def valid_servo_def)
qed

lemma servo_link_simps:
  "lk_type servo_link = ''st3215''" "lk_parse servo_link = parse_st3215" "lk_admit servo_link = admit_bus"
  "lk_same servo_link = same_st3215_physical_config" "lk_merge servo_link = merge_servo"
  "lk_identity servo_link d p = sp_path (pf_serial p) @ [CHR 0x0A] @ decimal (unat (pf_device_id p))" "lk_maximum servo_link = 32"
  by (simp_all add: servo_link_def)

lemma same_serial_eq: "same_serial s t \<longleftrightarrow> s = t"
  by (cases s; cases t) (simp add: same_serial_def)

text \<open>Every derived servo has the serial configuration that is recorded for its port.\<close>

definition ports_recorded :: "(servo_profile, string \<rightharpoonup> serial_port_config) derivation \<Rightarrow> bool" where
  "ports_recorded st \<longleftrightarrow>
     (\<forall>e \<in> set (dn_derived st). dn_buses st (sp_path (pf_serial (de_profile e))) = Some (pf_serial (de_profile e)))"

lemma admit_bus_record:
  assumes "admit_bus p buses = Inr buses'"
  shows "buses' (sp_path (pf_serial p)) = Some (pf_serial p)" "buses x = Some s \<Longrightarrow> buses' x = Some s"
  using assms by (auto simp: admit_bus_def Let_def same_serial_eq split: option.split_asm if_split_asm)

lemma add_device_ports:
  assumes "add_device servo_link sensor d st = Inr st'" "ports_recorded st" "ran (dn_identities st) \<subseteq> {..< length (dn_derived st)}"
  shows "ports_recorded st' \<and> ran (dn_identities st') \<subseteq> {..< length (dn_derived st')}"
proof (cases "dv_type d = lk_type servo_link")
  case True
  then obtain p buses where b: "admit_bus p (dn_buses st) = Inr buses"
    and r: "(case dn_identities st (lk_identity servo_link d p) of
        None \<Rightarrow> Inr (link_found (st\<lparr>dn_buses := buses\<rparr>) (lk_identity servo_link d p) p sensor)
      | Some i \<Rightarrow> link_joined servo_link (st\<lparr>dn_buses := buses\<rparr>) i d p sensor) = Inr st'"
    using assms(1) by (auto simp: add_device_def Let_def servo_link_simps(3))
  have known: "\<forall>e \<in> set (dn_derived st). buses (sp_path (pf_serial (de_profile e))) = Some (pf_serial (de_profile e))"
    using assms(2) admit_bus_record(2) [OF b] by (simp add: ports_recorded_def)
  show ?thesis
  proof (cases "dn_identities st (lk_identity servo_link d p)")
    case None
    then have st': "st' = link_found (st\<lparr>dn_buses := buses\<rparr>) (lk_identity servo_link d p) p sensor" using r by simp
    have "ran (dn_identities st') \<subseteq> insert (length (dn_derived st)) (ran (dn_identities st))"
      by (auto simp: st' link_found_def ran_def)
    then have "ran (dn_identities st') \<subseteq> {..< length (dn_derived st')}"
      using assms(3) by (force simp: st' link_found_def simp del: fun_upd_apply)
    moreover have "ports_recorded st'"
      using known admit_bus_record(1) [OF b] by (simp add: st' link_found_def ports_recorded_def)
    ultimately show ?thesis by blast
  next
    case (Some i)
    then have i: "i < length (dn_derived st)" using assms(3) by (auto simp: ran_def)
    obtain e where e: "st' = st\<lparr>dn_buses := buses, dn_derived := (dn_derived st)[i := e]\<rparr>"
      "pf_serial (de_profile e) = pf_serial (de_profile (dn_derived st ! i))"
      using r Some by (auto simp: link_joined_def Let_def servo_link_simps(5) merge_servo_def split: if_split_asm)
    have "\<forall>x \<in> set ((dn_derived st)[i := e]). buses (sp_path (pf_serial (de_profile x))) = Some (pf_serial (de_profile x))"
      using known i e(2) by (auto dest!: subsetD [OF set_update_subset_insert])
    then show ?thesis using assms(3) by (simp add: e(1) ports_recorded_def)
  qed
next
  case False
  then show ?thesis using assms by (simp add: add_device_def)
qed

lemma add_devices_ports:
  "add_devices servo_link sensor ds st = Inr st' \<Longrightarrow> ports_recorded st \<Longrightarrow> ran (dn_identities st) \<subseteq> {..< length (dn_derived st)} \<Longrightarrow>
     ports_recorded st' \<and> ran (dn_identities st') \<subseteq> {..< length (dn_derived st')}"
  by (induction ds arbitrary: st) (auto dest!: add_device_ports)

lemma derived_ports:
  assumes "derive servo_link sensors actuators = Inr rs" "p \<in> set rs" "q \<in> set rs" "sp_path (pf_serial p) = sp_path (pf_serial q)"
  shows "pf_serial p = pf_serial q"
proof -
  obtain st1 st2 where st: "add_devices servo_link True sensors (start_derivation servo_link) = Inr st1"
      "add_devices servo_link False actuators st1 = Inr st2" and rs: "rs = map de_profile (dn_derived st2)"
    using assms(1) by (auto simp: derive_def split: if_split_asm)
  have "ports_recorded st1 \<and> ran (dn_identities st1) \<subseteq> {..< length (dn_derived st1)}"
    by (rule add_devices_ports [OF st(1)]) (simp_all add: start_derivation_def ports_recorded_def)
  then have "ports_recorded st2" using add_devices_ports [OF st(2)] by blast
  then have "\<exists>buses. \<forall>r \<in> set rs. buses (sp_path (pf_serial r)) = Some (pf_serial r)" unfolding ports_recorded_def rs by auto
  then show ?thesis using assms(2-4) by (metis option.inject)
qed

section \<open>Configuring the servo registry\<close>

text \<open>What the registry asks of its profiles: a valid servo each, distinct names, no two servos at one address of a port,
  and one configuration for each port.\<close>

definition registry_ready :: "servo_profile list \<Rightarrow> bool" where
  "registry_ready ps \<longleftrightarrow>
     (\<forall>p \<in> set ps. valid_servo p \<and> pf_sensor_name p \<noteq> [] \<and> sp_path (pf_serial p) \<noteq> [])
     \<and> distinct (map pf_sensor_name ps) \<and> distinct (map (\<lambda>p. (sp_path (pf_serial p), pf_device_id p)) ps)
     \<and> (\<forall>p \<in> set ps. \<forall>q \<in> set ps. sp_path (pf_serial p) = sp_path (pf_serial q) \<longrightarrow> pf_serial p = pf_serial q)"

definition bus_fits :: "servo_profile list \<Rightarrow> bus_entry \<Rightarrow> bool" where
  "bus_fits ps e \<longleftrightarrow>
     \<not> sb_running (be_bus e) \<and> (\<exists>p \<in> set ps. be_serial e = (pf_serial p)\<lparr>sp_read_timeout := 0, sp_write_timeout := 0\<rparr>)
     \<and> (\<forall>r \<in> set (sb_servos (be_bus e)). rt_servo r < length ps \<and> sp_path (pf_serial (ps ! rt_servo r)) = sp_path (be_serial e))"

lemma bus_fits_more: "bus_fits ps e \<Longrightarrow> bus_fits (ps @ [p]) e"
  by (auto simp: bus_fits_def nth_append)

lemma find_bus_Some: "find_bus es path n = Some i \<Longrightarrow> n \<le> i \<and> i - n < length es \<and> sp_path (be_serial (es ! (i - n))) = path"
proof (induction es path n rule: find_bus.induct)
  case (2 e es path n)
  show ?case
  proof (cases "sp_path (be_serial e) = path")
    case False
    then have "n + 1 \<le> i \<and> i - (n + 1) < length es \<and> sp_path (be_serial (es ! (i - (n + 1)))) = path" using 2 by simp
    moreover from this have "i - n = Suc (i - (n + 1))" by linarith
    ultimately show ?thesis by simp
  qed (use 2 in simp)
qed simp

lemma bus_for_succeeds:
  assumes "registry_ready (ps @ p # rest)" "list_all (bus_fits ps) buses"
  shows "\<exists>buses' i. bus_for addr buses p = success (buses', i) \<and> i < length buses'
    \<and> list_all (bus_fits (ps @ [p])) buses' \<and> sp_path (be_serial (buses' ! i)) = sp_path (pf_serial p)
    \<and> (\<forall>r \<in> set (sb_servos (be_bus (buses' ! i))). rt_servo r < length ps)"
proof -
  have p: "valid_servo p" "sp_path (pf_serial p) \<noteq> []"
    and one: "\<And>q. q \<in> set ps \<Longrightarrow> sp_path (pf_serial q) = sp_path (pf_serial p) \<Longrightarrow> pf_serial q = pf_serial p"
    using assms(1) by (auto simp: registry_ready_def)
  have old: "list_all (bus_fits (ps @ [p])) buses" using assms(2) bus_fits_more by (fastforce simp: list_all_iff)
  show ?thesis
  proof (cases "find_bus buses (sp_path (pf_serial p)) 0")
    case None
    have "bus_fits (ps @ [p]) \<lparr>be_serial = (pf_serial p)\<lparr>sp_read_timeout := 0, sp_write_timeout := 0\<rparr>,
        be_bus = make_bus t a n\<rparr>" for t a n
      by (auto simp: bus_fits_def make_bus_def)
    then show ?thesis using None p old by (simp add: bus_for_def Let_def create_serial_def valid_servo_def make_bus_def)
  next
    case (Some i)
    note i = find_bus_Some [OF Some]
    then obtain q where q: "q \<in> set ps" "be_serial (buses ! i) = (pf_serial q)\<lparr>sp_read_timeout := 0, sp_write_timeout := 0\<rparr>"
      using assms(2) by (auto simp: list_all_length bus_fits_def)
    then have "pf_serial q = pf_serial p" using i one [OF q(1)] by simp
    moreover have "\<forall>r \<in> set (sb_servos (be_bus (buses ! i))). rt_servo r < length ps"
      using assms(2) i by (auto simp: list_all_length bus_fits_def)
    ultimately show ?thesis using Some old i q(2) by (simp add: bus_for_def Let_def)
  qed
qed

lemma add_servo_succeeds:
  assumes "registry_ready (ps @ p # rest)" "bus_fits ps' e" "ps' = ps @ [p]" "sp_path (be_serial e) = sp_path (pf_serial p)"
    "\<forall>r \<in> set (sb_servos (be_bus e)). rt_servo r < length ps"
  shows "add_servo (be_bus e) (map (\<lambda>q. make_servo (servo_config_of q)) ps') (Some (length ps))
    = ((be_bus e)\<lparr>sb_servos := sb_servos (be_bus e) @ [make_runtime (length ps)]\<rparr>, success ())"
proof -
  let ?servos = "map (\<lambda>q. make_servo (servo_config_of q)) ps'"
  have at: "so_config (?servos ! i) = servo_config_of (ps' ! i)" if "i \<le> length ps" for i
    using that assms(3) by (simp add: make_servo_def del: map_append)
  have c: "so_config (?servos ! length ps) = servo_config_of p" using at [of "length ps"] assms(3) by simp
  have p: "valid_servo p" "pf_sensor_name p \<noteq> []" using assms(1) by (auto simp: registry_ready_def)
  have apart: "pf_device_id (ps' ! rt_servo r) \<noteq> pf_device_id p \<and> pf_sensor_name (ps' ! rt_servo r) \<noteq> pf_sensor_name p
      \<and> rt_servo r \<le> length ps"
    if r: "r \<in> set (sb_servos (be_bus e))" for r
  proof -
    have l: "rt_servo r < length ps" "sp_path (pf_serial (ps' ! rt_servo r)) = sp_path (pf_serial p)"
      using assms(2-5) r by (auto simp: bus_fits_def)
    have q: "ps' ! rt_servo r \<in> set ps" using l(1) assms(3) by (simp add: nth_append)
    have "pf_sensor_name p \<notin> pf_sensor_name ` set ps"
      "(sp_path (pf_serial p), pf_device_id p) \<notin> (\<lambda>q. (sp_path (pf_serial q), pf_device_id q)) ` set ps"
      using assms(1) by (simp_all add: registry_ready_def)
    then show ?thesis using q l by (metis (mono_tags, lifting) image_eqI less_imp_le_nat)
  qed
  have dup: "\<not> (\<exists>r \<in> set (sb_servos (be_bus e)). sc_device_id (so_config (?servos ! rt_servo r)) = sc_device_id (servo_config_of p)
      \<or> sc_name (so_config (?servos ! rt_servo r)) = sc_name (servo_config_of p))"
  proof (rule notI, elim bexE)
    fix r assume r: "r \<in> set (sb_servos (be_bus e))"
      and eq: "sc_device_id (so_config (?servos ! rt_servo r)) = sc_device_id (servo_config_of p)
        \<or> sc_name (so_config (?servos ! rt_servo r)) = sc_name (servo_config_of p)"
    have "sc_device_id (servo_config_of q) = pf_device_id q" "sc_name (servo_config_of q) = pf_sensor_name q" for q
      by (simp_all add: servo_config_of_def)
    then show False using apart [OF r] at [of "rt_servo r"] eq by metis
  qed
  have ok: "\<not> (sb_running (be_bus e) \<or> sc_name (servo_config_of p) = [] \<or> sc_device_id (servo_config_of p) = kSt3215BroadcastId
      \<or> sc_max_position_units (servo_config_of p) = 0 \<or> sc_feedback_timeout_ms (servo_config_of p) \<le> 0
      \<or> sc_feedback_timeout_ms (servo_config_of p) > int64_limit div 1000000)"
    using p assms(2) by (auto simp: servo_config_of_def valid_servo_def bus_fits_def)
  show ?thesis unfolding add_servo_def c Let_def option.case if_not_P [OF ok] if_not_P [OF dup] ..
qed

lemma configure_servos_succeeds:
  "registry_ready (ps @ rest) \<Longrightarrow> list_all (bus_fits ps) buses \<Longrightarrow> servos = map (\<lambda>q. make_servo (servo_config_of q)) ps \<Longrightarrow>
     \<exists>r. configure_servos addr rest buses servos groups = success r"
proof (induction rest arbitrary: ps buses servos groups)
  case (Cons p rest)
  obtain buses' i where b: "bus_for addr buses p = success (buses', i)" "i < length buses'" "list_all (bus_fits (ps @ [p])) buses'"
      "sp_path (be_serial (buses' ! i)) = sp_path (pf_serial p)" "\<forall>r \<in> set (sb_servos (be_bus (buses' ! i))). rt_servo r < length ps"
    using bus_for_succeeds [OF Cons.prems(1,2)] by blast
  let ?e = "buses' ! i" and ?servos = "map (\<lambda>q. make_servo (servo_config_of q)) (ps @ [p])"
  have e: "bus_fits (ps @ [p]) ?e" using b(2,3) by (simp add: list_all_length)
  let ?b = "(be_bus ?e)\<lparr>sb_servos := sb_servos (be_bus ?e) @ [make_runtime (length ps)]\<rparr>"
  have a: "add_servo (be_bus ?e) ?servos (Some (length ps)) = (?b, success ())"
    by (rule add_servo_succeeds [OF Cons.prems(1) e refl b(4,5)])
  have "bus_fits (ps @ [p]) (?e\<lparr>be_bus := ?b\<rparr>)" using e b(4) by (auto simp: bus_fits_def make_runtime_def)
  then have f: "list_all (bus_fits (ps @ [p])) (buses'[i := ?e\<lparr>be_bus := ?b\<rparr>])"
    using b(3) by (auto simp: list_all_iff dest!: subsetD [OF set_update_subset_insert])
  have "\<exists>r. configure_servos addr rest (buses'[i := ?e\<lparr>be_bus := ?b\<rparr>]) ?servos (groups @ [pf_safety_group p]) = success r"
    by (rule Cons.IH [OF _ f refl]) (use Cons.prems(1) in simp)
  then show ?case using b(1) a Cons.prems(3) by (simp add: Let_def success_def)
qed simp

lemma registry_configure_succeeds:
  assumes "registry_ready ps" "length ps \<le> kMaximumSt3215Servos"
  shows "snd (registry_configure addr make_registry ps) = success ()"
proof -
  obtain r where "configure_servos addr ps [] [] [] = success r"
    using configure_servos_succeeds [of "[]" ps "[]" "[]" addr "[]"] assms(1) by auto
  then show ?thesis
    using assms(2) by (cases r) (auto simp: registry_configure_def make_registry_def success_def)
qed

section \<open>Motors\<close>

definition valid_motor :: "damiao_profile \<Rightarrow> bool" where
  "valid_motor p \<longleftrightarrow> 0 < dp_motor_id p \<and> dp_motor_id p \<le> 15 \<and> 0 < dp_feedback_timeout_ms p"

lemma parse_damiao_valid:
  assumes "parse_damiao_motor d sensor = Inr p"
  shows "valid_motor p"
proof -
  have id: "0 < (ucast w :: u8) \<and> (ucast w :: u8) \<le> 15" if "w \<noteq> 0" "\<not> 0x0F < w" for w :: u16
  proof -
    have "unat w \<le> 15" "0 < unat w" using that by (simp_all add: not_less word_le_nat_alt unat_gt_0)
    moreover from this have "unat (ucast w :: u8) = unat w" by (simp add: unsigned_ucast_eq take_bit_nat_eq_self)
    ultimately show ?thesis by (simp add: word_le_nat_alt word_less_nat_alt)
  qed
  show ?thesis
    using assms id unfolding parse_damiao_motor_def valid_motor_def
    by (auto simp: Let_def not_le split: if_split_asm option.split_asm)
qed

interpretation motor_contract: link_contract motor_link valid_motor
proof
  show "lk_parse motor_link d sensor = Inr p \<Longrightarrow> valid_motor p" for d sensor p
    using parse_damiao_valid by (simp add: motor_link_def)
  show "valid_motor p \<Longrightarrow> valid_motor q \<Longrightarrow> lk_same motor_link p q \<Longrightarrow> valid_motor (lk_merge motor_link False p q)" for p q
    by (simp add: motor_link_def merge_motor_def valid_motor_def)
qed

section \<open>Robot profiles\<close>

lemma first_duplicate_None: "first_duplicate names ns = None \<longleftrightarrow> distinct ns \<and> set ns \<inter> names = {}"
  by (induction ns arbitrary: names) auto

lemma required_robot_string_nonempty: "required_robot_string dump v key sect = Inr s \<Longrightarrow> s \<noteq> []"
  by (auto simp: required_robot_string_def Let_def split: option.split_asm if_split_asm)

lemma object_case:
  "(case m of Some (JObject es) \<Rightarrow> f es | _ \<Rightarrow> Inl e) = Inr y \<longleftrightarrow> (\<exists>es. m = Some (JObject es) \<and> f es = Inr y)"
proof (cases m)
  case (Some j)
  then show ?thesis by (cases j) simp_all
qed simp

lemma array_case:
  "(case m of None \<Rightarrow> Inr d | Some (JArray vs) \<Rightarrow> f vs | Some _ \<Rightarrow> Inl e) = Inr y \<longleftrightarrow>
     m = None \<and> y = d \<or> (\<exists>vs. m = Some (JArray vs) \<and> f vs = Inr y)"
proof (cases m)
  case (Some j)
  then show ?thesis by (cases j) simp_all
qed auto

lemma parse_device_nonempty:
  assumes "parse_device dump singular v = Inr d"
  shows "dv_name d \<noteq> []" "dv_path d \<noteq> []"
proof -
  obtain es where "required_robot_string dump v ''name'' singular = Inr (dv_name d)"
    "required_robot_string dump (JObject es) ''path'' ''device'' = Inr (dv_path d)"
    using assms unfolding parse_device_def by (auto simp: object_case split: if_split_asm)
  then show "dv_name d \<noteq> []" "dv_path d \<noteq> []" by (auto dest: required_robot_string_nonempty)
qed

lemma check_each_member: "check_each f xs = Inr ys \<Longrightarrow> y \<in> set ys \<Longrightarrow> \<exists>x \<in> set xs. f x = Inr y"
  by (induction xs arbitrary: ys) auto

lemma parse_device_list_nonempty:
  assumes "parse_device_list dump doc plural singular = Inr ds" "d \<in> set ds"
  shows "dv_name d \<noteq> [] \<and> dv_path d \<noteq> []"
proof -
  obtain vs where "check_each (parse_device dump singular) vs = Inr ds"
    using assms unfolding parse_device_list_def array_case by auto
  then obtain v where "parse_device dump singular v = Inr d"
    using check_each_member [of "parse_device dump singular" vs ds d] assms(2) by blast
  then show ?thesis using parse_device_nonempty by blast
qed

lemma loaded_parts:
  assumes "load_robot_profile parse dump file path = success p"
  shows "derive_axes (rp_sensors p) (rp_actuators p) = Inr (rp_axes p)"
    "derive_st3215 (rp_sensors p) (rp_actuators p) = Inr (rp_st3215_servos p)"
    "derive_damiao_motors (rp_sensors p) (rp_actuators p) = Inr (rp_damiao_motors p)"
    "distinct (map dv_name (rp_sensors p @ rp_actuators p))"
    "d \<in> set (rp_sensors p) \<union> set (rp_actuators p) \<Longrightarrow> dv_name d \<noteq> [] \<and> dv_path d \<noteq> []"
    "check_dds_topics p = Inr ()"
proof -
  obtain doc where "build_robot_profile dump doc = Inr p"
  proof -
    obtain doc where "(case build_robot_profile dump doc of Inl m \<Rightarrow> invalid m | Inr profile \<Rightarrow> success profile) = success p"
      using assms by (auto simp: load_robot_profile_def success_def)
    then have "build_robot_profile dump doc = Inr p"
      by (cases "build_robot_profile dump doc") (simp_all add: invalid_def)
    then show thesis by (rule that)
  qed
  then show "derive_axes (rp_sensors p) (rp_actuators p) = Inr (rp_axes p)"
    "derive_st3215 (rp_sensors p) (rp_actuators p) = Inr (rp_st3215_servos p)"
    "derive_damiao_motors (rp_sensors p) (rp_actuators p) = Inr (rp_damiao_motors p)"
    "distinct (map dv_name (rp_sensors p @ rp_actuators p))"
    "d \<in> set (rp_sensors p) \<union> set (rp_actuators p) \<Longrightarrow> dv_name d \<noteq> [] \<and> dv_path d \<noteq> []"
    "check_dds_topics p = Inr ()"
    by (auto simp: build_robot_profile_def Let_def first_duplicate_None dest: parse_device_list_nonempty
        simp del: map_append distinct_append split: if_split_asm option.split_asm)
qed

lemma servo_pair:
  assumes "paired servo_link s a p"
  shows "pf_sensor_name p = dv_name s" "sp_path (pf_serial p) = dv_path s"
    "link_identity servo_link True s = sp_path (pf_serial p) @ [CHR 0x0A] @ decimal (unat (pf_device_id p))"
proof -
  obtain ps pa where p: "parse_st3215 s True = Inr ps" "p = merge_servo False ps pa"
    using assms by (auto simp: paired_def servo_link_simps)
  show "pf_sensor_name p = dv_name s" "sp_path (pf_serial p) = dv_path s"
    using parse_st3215_valid [OF p(1)] by (simp_all add: p(2) merge_servo_def)
  show "link_identity servo_link True s = sp_path (pf_serial p) @ [CHR 0x0A] @ decimal (unat (pf_device_id p))"
    by (simp add: link_identity_def servo_link_simps p merge_servo_def)
qed

lemma loaded_registry_ready:
  assumes L: "load_robot_profile parse dump file path = success p"
  shows "registry_ready (rp_st3215_servos p)"
proof -
  let ?ss = "of_kind servo_link (rp_sensors p)" and ?ps = "rp_st3215_servos p"
  have d: "derive servo_link (rp_sensors p) (rp_actuators p) = Inr ?ps"
    using loaded_parts(2) [OF L] by (simp add: derive_st3215_def)
  note m = derive_links(1) [OF d, unfolded links_match_def]
  have pair: "pf_sensor_name (?ps ! i) = dv_name (?ss ! i)" "sp_path (pf_serial (?ps ! i)) = dv_path (?ss ! i)"
    "link_identity servo_link True (?ss ! i) = sp_path (pf_serial (?ps ! i)) @ [CHR 0x0A] @ decimal (unat (pf_device_id (?ps ! i)))"
    if "i < length ?ps" for i
    using derived_paired [OF d that] servo_pair by blast+
  have names: "map pf_sensor_name ?ps = map dv_name ?ss" using m pair(1) by (intro nth_equalityI) auto
  have "distinct (map dv_name ?ss)"
    using loaded_parts(4) [OF L] by (simp add: of_kind_def distinct_map_filter)
  moreover have "distinct (map (\<lambda>q. (sp_path (pf_serial q), pf_device_id q)) ?ps)"
  proof -
    have "map (link_identity servo_link True) ?ss = map (\<lambda>q. sp_path (pf_serial q) @ [CHR 0x0A] @ decimal (unat (pf_device_id q))) ?ps"
      using m pair(3) by (intro nth_equalityI) auto
    then have "distinct (map (\<lambda>(x, w). x @ [CHR 0x0A] @ decimal (unat w)) (map (\<lambda>q. (sp_path (pf_serial q), pf_device_id q)) ?ps))"
      using m by (simp add: comp_def)
    then show ?thesis using distinct_map by blast
  qed
  moreover have "valid_servo q \<and> pf_sensor_name q \<noteq> [] \<and> sp_path (pf_serial q) \<noteq> []" if "q \<in> set ?ps" for q
  proof -
    obtain i where i: "i < length ?ps" "q = ?ps ! i" using \<open>q \<in> set ?ps\<close> by (auto simp: in_set_conv_nth)
    then have "?ss ! i \<in> set ?ss" using m by simp
    then have "?ss ! i \<in> set (rp_sensors p)" by (simp add: of_kind_def)
    then show ?thesis
      using loaded_parts(5) [OF L, of "?ss ! i"] pair(1,2) [OF i(1)] servo_contract.derived_valid [OF d] i
      by (auto simp: list_all_length)
  qed
  moreover have "\<forall>q \<in> set ?ps. \<forall>r \<in> set ?ps. sp_path (pf_serial q) = sp_path (pf_serial r) \<longrightarrow> pf_serial q = pf_serial r"
    by (intro ballI impI derived_ports [OF d])
  ultimately show ?thesis unfolding registry_ready_def names by simp
qed

text \<open>Every device of a loaded profile whose type the loader derives links for has a transport.\<close>

definition linked_types :: "string list" where
  "linked_types = [''cia402'', ''st3215'', ''damiao_motor'']"

lemma motor_has_transport:
  "dv_type d = ''damiao_motor'' \<Longrightarrow> parse_damiao_motor d s = Inr m \<Longrightarrow> dv_path d \<noteq> [] \<Longrightarrow> has_value (device_key d)"
  by (auto simp: parse_damiao_motor_def damiao_transport_of_def device_key_def transport_kind_of_def Let_def
      split: option.splits if_splits)

lemma loaded_device_key:
  assumes L: "load_robot_profile parse dump file path = success p" and d: "d \<in> set (rp_sensors p @ rp_actuators p)"
  shows "has_value (device_key d) \<longleftrightarrow> dv_type d \<in> set linked_types"
proof -
  note dm = loaded_parts(3) [OF L, unfolded derive_damiao_motors_def]
  have path: "dv_path d \<noteq> []" using loaded_parts(5) [OF L, of d] d by auto
  have "\<exists>s m. parse_damiao_motor d s = Inr m" if "dv_type d = ''damiao_motor''"
    using derive_parses [OF dm, of d] d that by (auto simp: motor_link_def)
  then have "has_value (device_key d)" if "dv_type d = ''damiao_motor''" using motor_has_transport path that by blast
  then show ?thesis
    using path by (auto simp: linked_types_def device_key_def transport_kind_of_def Let_def has_value_def success_def failure_def split: if_splits)
qed

lemma append_devices_value: "has_value (append_devices ds i s c) \<longleftrightarrow> (\<forall>d \<in> set ds. has_value (device_key d))"
proof (induction ds arbitrary: i c)
  case (Cons d ds)
  show ?case
  proof (cases "device_key d")
    case (Inr key)
    then show ?thesis using Cons.IH by (simp add: Let_def has_value_def [of "Inr key"] split: prod.split)
  qed (simp add: has_value_def)
qed simp

lemma compile_value:
  "has_value (compile_physical_topology sensors actuators) \<longleftrightarrow> (\<forall>d \<in> set (sensors @ actuators). has_value (device_key d))"
proof (cases "append_devices sensors 0 True initial_compile")
  case (Inl e)
  then show ?thesis
    using append_devices_value [of sensors 0 True initial_compile] by (auto simp: compile_physical_topology_def has_value_def)
next
  case (Inr c)
  then have "\<forall>d \<in> set sensors. has_value (device_key d)"
    using append_devices_value [of sensors 0 True initial_compile] by (simp add: has_value_def)
  then show ?thesis
    using Inr append_devices_value [of actuators 0 False c]
    by (cases "append_devices actuators 0 False c") (auto simp: compile_physical_topology_def has_value_def success_def)
qed

text \<open>Claim C18.  Exactly these loaded profiles configure the daemon: a profile that loads passes every check with which the
  daemon's configuration starts if and only if no axis has a command timeout that overflows 64-bit nanoseconds, every Damiao
  motor uses SocketCAN, and every sensor and actuator has one of the three types the daemon drives.  Nothing else can fail:
  the supervisor accepts its axes, the servo registry its servos, the counts are within the daemon's tables, every device
  has a transport, and every axis can be constructed.  The loader checks none of the three conditions.\<close>

theorem loaded_profile_configures:
  assumes L: "load_robot_profile parse dump file path = success p"
  shows "(has_value (preflight addr p) \<longleftrightarrow>
      list_all (\<lambda>a. ac_command_timeout a \<le> int64_max div 1000000) (rp_axes p)
      \<and> list_all (\<lambda>m. dp_transport m = dt_socketcan) (rp_damiao_motors p)
      \<and> list_all (\<lambda>d. dv_type d \<in> set linked_types) (rp_sensors p @ rp_actuators p))
    \<and> has_value (construct_axes (rp_axes p))"
proof -
  have axes: "derive axis_link (rp_sensors p) (rp_actuators p) = Inr (rp_axes p)"
    using loaded_parts(1) [OF L] by (simp add: derive_axes_def)
  have valid: "list_all valid_axis (rp_axes p)" by (rule axis_contract.derived_valid [OF axes])
  have n: "length (rp_axes p) \<le> kRobotIoMaximumAxes"
    using derive_links(2) [OF axes] by (simp add: axis_link_def kRobotIoMaximumAxes_def)
  note sup = valid_axes_configure [OF valid n]
  have servos: "length (rp_st3215_servos p) \<le> kMaximumSt3215Servos"
    using derive_links(2) [of servo_link] loaded_parts(2) [OF L]
    by (simp add: derive_st3215_def servo_link_simps kMaximumSt3215Servos_def)
  have reg: "snd (registry_configure addr make_registry (rp_st3215_servos p)) = success ()"
    by (rule registry_configure_succeeds [OF loaded_registry_ready [OF L] servos])
  have motors: "length (rp_damiao_motors p) \<le> kRobotIoMaximumServos"
    using derive_links(2) [of motor_link] loaded_parts(3) [OF L]
    by (simp add: derive_damiao_motors_def motor_link_def kRobotIoMaximumServos_def)
  have topology: "has_value (compile_physical_topology (rp_sensors p) (rp_actuators p))
      \<longleftrightarrow> list_all (\<lambda>d. dv_type d \<in> set linked_types) (rp_sensors p @ rp_actuators p)"
    unfolding compile_value list_all_iff using loaded_device_key [OF L] by blast
  have "has_value (preflight addr p) \<longleftrightarrow> has_value (snd (configure (make_supervisor default_options) (rp_axes p)))
      \<and> list_all (\<lambda>m. dp_transport m = dt_socketcan) (rp_damiao_motors p)
      \<and> has_value (compile_physical_topology (rp_sensors p) (rp_actuators p))"
    using n reg motors
    by (auto simp: preflight_def has_value_def success_def failure_def list_all_iff list_ex_iff split: sum.splits)
  then show ?thesis using sup topology construct_axes_succeeds [OF valid] by simp
qed

text \<open>Claim C19.  In a loaded profile every physical device is described by exactly one sensor and exactly one actuator.  For each
  of the three kinds the derived profiles are as many as the sensors of the kind and as its actuators, no two sensors name the
  same physical device, and the i-th profile is what the i-th sensor and exactly one of the actuators parse to, which have
  the same physical identity and agree on the configuration.  All device names differ, the counts are within 12 axes, 32
  servos and 32 motors; every axis has positive finite limits, every servo a valid identifier and bounded times, and every
  motor an identifier from 1 to 15 and a positive timeout.\<close>

theorem loaded_links_paired:
  assumes L: "load_robot_profile parse dump file path = success p"
  shows "links_match axis_link (rp_sensors p) (rp_actuators p) (rp_axes p)
    \<and> links_match servo_link (rp_sensors p) (rp_actuators p) (rp_st3215_servos p)
    \<and> links_match motor_link (rp_sensors p) (rp_actuators p) (rp_damiao_motors p)
    \<and> distinct (map dv_name (rp_sensors p @ rp_actuators p))
    \<and> length (rp_axes p) \<le> 12 \<and> length (rp_st3215_servos p) \<le> 32 \<and> length (rp_damiao_motors p) \<le> 32
    \<and> list_all valid_axis (rp_axes p) \<and> list_all valid_servo (rp_st3215_servos p) \<and> list_all valid_motor (rp_damiao_motors p)"
proof -
  note d = loaded_parts(1-3) [OF L, unfolded derive_axes_def derive_st3215_def derive_damiao_motors_def]
  have "lk_maximum axis_link = 12" "lk_maximum servo_link = 32" "lk_maximum motor_link = 32"
    by (simp_all add: axis_link_def servo_link_def motor_link_def)
  then show ?thesis
    using derive_links(1) [OF d(1)] derive_links(1) [OF d(2)] derive_links(1) [OF d(3)]
      derive_links(2) [OF d(1)] derive_links(2) [OF d(2)] derive_links(2) [OF d(3)] loaded_parts(4) [OF L]
      axis_contract.derived_valid [OF d(1)] servo_contract.derived_valid [OF d(2)] motor_contract.derived_valid [OF d(3)]
    by simp
qed

section \<open>Policy profiles\<close>

lemma validate_unique_fields_Inr:
  "validate_unique_fields fs sect names = Inr names' \<longleftrightarrow>
     distinct (map sm_name fs) \<and> sm_name ` set fs \<inter> names = {} \<and> names' = sm_name ` set fs \<union> names"
  by (induction fs arbitrary: names) auto

lemma validate_binding_list_Inr:
  "validate_binding_list bs fields_known sect names datas = Inr u \<longleftrightarrow>
     distinct (map pb_name bs) \<and> distinct (map pb_robot_data bs) \<and> pb_name ` set bs \<inter> names = {}
     \<and> pb_robot_data ` set bs \<inter> datas = {} \<and> pb_canonical_field ` set bs \<subseteq> fields_known"
  by (induction bs arbitrary: names datas) auto

definition bounds_ordered :: "semantic_bounds \<Rightarrow> bool" where
  "bounds_ordered b \<longleftrightarrow> (\<forall>l u. sb_lower b = Some l \<longrightarrow> sb_upper b = Some u \<longrightarrow> \<not> flt u l)"

definition valid_field :: "semantic_field \<Rightarrow> bool" where
  "valid_field f \<longleftrightarrow>
     \<not> is_blank (sm_name f) \<and> \<not> is_blank (sm_semantic_type f) \<and> (sm_kind f = sk_vector \<longrightarrow> sm_ordering f \<noteq> [])
     \<and> (\<forall>b. sm_bounds f = Some b \<longrightarrow> bounds_ordered b)"

lemma required_string_nonblank: "required_string v key sect True = Inr s \<Longrightarrow> \<not> is_blank s"
  by (auto simp: required_string_def split: option.split_asm json.split_asm if_split_asm)

lemma parse_bounds_ordered:
  assumes "parse_bounds v = Inr b"
  shows "bounds_ordered b"
proof -
  obtain lower upper where
    "(case (lower, upper) of
        (Some l, Some u) \<Rightarrow>
          if flt u l then Inl ''semantic field bounds lower must be <= upper'' else Inr \<lparr>sb_lower = lower, sb_upper = upper\<rparr>
      | _ \<Rightarrow> Inr \<lparr>sb_lower = lower, sb_upper = upper\<rparr>) = Inr b"
    using assms unfolding parse_bounds_def by (simp split: if_split_asm) blast
  then show ?thesis by (cases lower; cases upper) (auto simp: bounds_ordered_def split: if_split_asm)
qed

lemma parse_field_bounds_ordered:
  assumes "parse_field_bounds v = Inr (Some b)"
  shows "bounds_ordered b"
proof -
  obtain j where j: "member v ''bounds'' = Some j" using assms by (cases "member v ''bounds''") (simp_all add: parse_field_bounds_def)
  then have "parse_bounds j = Inr b" using assms by (cases j) (simp_all add: parse_field_bounds_def)
  then show ?thesis by (rule parse_bounds_ordered)
qed

lemma parse_semantic_field_valid:
  assumes "parse_semantic_field v = Inr f"
  shows "valid_field f"
proof -
  have "required_string v ''name'' ''semantic field'' True = Inr (sm_name f)"
    "required_string v ''semantic_type'' ''semantic field'' True = Inr (sm_semantic_type f)"
    and ord: "sm_kind f = sk_vector \<longrightarrow> sm_ordering f \<noteq> []" and b: "parse_field_bounds v = Inr (sm_bounds f)"
    using assms unfolding parse_semantic_field_def by (auto split: if_split_asm)
  then have "\<not> is_blank (sm_name f)" "\<not> is_blank (sm_semantic_type f)" by (auto dest: required_string_nonblank)
  then show ?thesis unfolding valid_field_def using ord b parse_field_bounds_ordered by auto
qed

lemma parse_semantic_fields_valid:
  assumes "parse_semantic_fields doc key = Inr fs"
  shows "list_all valid_field fs"
proof -
  obtain vs where vs: "check_each parse_semantic_field vs = Inr fs"
  proof (cases "member doc key")
    case (Some j)
    then show ?thesis using assms that by (cases j) (simp_all add: parse_semantic_fields_def)
  qed (use assms in \<open>simp add: parse_semantic_fields_def\<close>)
  then show ?thesis
    unfolding list_all_iff using check_each_member [OF vs] parse_semantic_field_valid by blast
qed

lemma parse_count_positive: "parse_count v key = Inr n \<Longrightarrow> 0 < n"
  by (auto simp: parse_count_def word_neq_0_conv split: option.split_asm if_split_asm)

lemma parse_temporal_positive:
  "parse_temporal doc = Inr t \<Longrightarrow> 0 < ts_action_horizon t \<and> 0 < ts_observation_history t"
  by (auto simp: parse_temporal_def dest: parse_count_positive split: option.split_asm)

text \<open>Claim C24.  A policy profile that loads is well formed.  Inputs and outputs are as many; within each the binding names and
  the robot data names are distinct, and every binding names a field of the matching canonical schema; each schema has distinct
  field names; a vector field lists its components, bounds are in order, and both horizons are at least one.\<close>

theorem loaded_policy_well_formed:
  assumes "load_policy_profile parse file path = success p"
  shows "length (pp_inputs p) = length (pp_outputs p)
    \<and> distinct (map pb_name (pp_inputs p)) \<and> distinct (map pb_name (pp_outputs p))
    \<and> distinct (map pb_robot_data (pp_inputs p)) \<and> distinct (map pb_robot_data (pp_outputs p))
    \<and> pb_canonical_field ` set (pp_inputs p) \<subseteq> sm_name ` set (pp_canonical_observation_schema p)
    \<and> pb_canonical_field ` set (pp_outputs p) \<subseteq> sm_name ` set (pp_canonical_action_schema p)
    \<and> distinct (map sm_name (pp_canonical_observation_schema p)) \<and> distinct (map sm_name (pp_canonical_action_schema p))
    \<and> list_all valid_field (pp_canonical_observation_schema p @ pp_canonical_action_schema p)
    \<and> 0 < ts_action_horizon (pp_temporal p) \<and> 0 < ts_observation_history (pp_temporal p)"
proof -
  obtain doc where "(case andthen (parse_policy_document doc) validate_policy_profile of Inl m \<Rightarrow> invalid m | Inr profile \<Rightarrow> success profile) = success p"
    using assms by (auto simp: load_policy_profile_def success_def)
  then have "andthen (parse_policy_document doc) validate_policy_profile = Inr p"
    by (cases "andthen (parse_policy_document doc) validate_policy_profile") (simp_all add: invalid_def)
  then obtain q where q: "parse_policy_document doc = Inr q" and v: "validate_policy_profile q = Inr p" by auto
  have pq: "p = q" using v by (auto simp: validate_policy_profile_def split: if_split_asm)
  have "parse_semantic_fields doc ''canonical_observation_schema'' = Inr (pp_canonical_observation_schema q)"
    "parse_semantic_fields doc ''canonical_action_schema'' = Inr (pp_canonical_action_schema q)" "parse_temporal doc = Inr (pp_temporal q)"
    using q by (auto simp: parse_policy_document_def)
  then have parts: "list_all valid_field (pp_canonical_observation_schema q)" "list_all valid_field (pp_canonical_action_schema q)"
    "0 < ts_action_horizon (pp_temporal q)" "0 < ts_observation_history (pp_temporal q)"
    using parse_semantic_fields_valid parse_temporal_positive by blast+
  show ?thesis
    using v parts unfolding pq
    by (auto simp: validate_policy_profile_def validate_bindings_def validate_unique_fields_Inr validate_binding_list_Inr split: if_split_asm)
qed

end
