(* ===== verification/Loader_Examples.thy ===== *)
theory Loader_Examples
  imports Loader_Props
begin

text \<open>
  A robot profile with one CiA 402 axis and one ST3215 servo and a policy profile with one binding each way, loaded: the
  concrete instances of the properties of the loader.
\<close>

definition sample_device :: "string \<Rightarrow> string \<Rightarrow> string \<Rightarrow> (string \<times> json) list \<Rightarrow> json" where
  "sample_device name type path args =
     JObject [(''name'', JString name), (''device'', JObject [(''type'', JString type), (''path'', JString path)]), (''args'', JObject args)]"

definition servo_texts :: "(string \<times> string) list" where
  "servo_texts = [(''baud_rate'', ''1000000''), (''device_id'', ''1'')]"

definition axis_texts :: "(string \<times> string) list" where
  "axis_texts = [(''alias'', ''0''), (''position'', ''0''), (''vendor_id'', ''0x9A''), (''product_code'', ''3''), (''revision'', ''1''),
     (''mode'', ''csp''), (''scale'', ''1''), (''minimum'', ''0''), (''maximum'', ''1''), (''slew_limit'', ''1''),
     (''following_error_limit'', ''1''), (''command_timeout_ms'', ''20''), (''safety_group'', ''arm'')]"

definition servo_args :: "(string \<times> json) list" where
  "servo_args = map (map_prod id JString) servo_texts"

definition axis_args :: "(string \<times> json) list" where
  "axis_args = map (map_prod id JString) axis_texts"

definition servo_named :: "string \<Rightarrow> device_config" where
  "servo_named name = \<lparr>dv_name = name, dv_type = ''st3215'', dv_path = ''/dev/ttyUSB0'', dv_args = map_of servo_texts\<rparr>"

definition axis_named :: "string \<Rightarrow> device_config" where
  "axis_named name = \<lparr>dv_name = name, dv_type = ''cia402'', dv_path = ''0'', dv_args = map_of axis_texts\<rparr>"

definition sample_axis :: "string \<Rightarrow> axis_config" where
  "sample_axis name = \<lparr>ac_name = name, ac_alias = 0, ac_position = 0, ac_vendor_id = 0x9A, ac_product_code = 3, ac_revision = 1,
     ac_mode = csp, ac_scale = Fin 1, ac_minimum = Fin 0, ac_maximum = Fin 1, ac_command_timeout = 20, ac_safety_group = ''arm'',
     ac_slew_limit = Fin 1, ac_following_error_limit = Fin 1\<rparr>"

definition sample_servo :: "string \<Rightarrow> string \<Rightarrow> servo_profile" where
  "sample_servo sensor actuator = \<lparr>pf_sensor_name = sensor, pf_actuator_name = actuator,
     pf_serial = \<lparr>sp_path = ''/dev/ttyUSB0'', sp_baud_rate = 1000000, sp_read_buffer_size = 256, sp_maximum_frame_size = 259,
       sp_read_timeout = 0, sp_write_timeout = 0, sp_service_period = 1000000\<rparr>,
     pf_device_id = 1, pf_servo_id = 1, pf_max_position_units = 4095, pf_speed_units = 0, pf_time_units = 0,
     pf_feedback_timeout_ms = 250, pf_safety_group = ''/dev/ttyUSB0'', pf_command_timeout_ms = 250, pf_maximum_command_future_ms = 50\<rparr>"

definition sample_document :: json where
  "sample_document = JObject [
     (''sensors'', JArray [sample_device ''elbow'' ''cia402'' ''0'' axis_args, sample_device ''wrist'' ''st3215'' ''/dev/ttyUSB0'' servo_args]),
     (''actuators'', JArray [sample_device ''wrist_drive'' ''st3215'' ''/dev/ttyUSB0'' servo_args, sample_device ''elbow_drive'' ''cia402'' ''0'' axis_args])]"

lemmas text_defs = trim_def is_space_def is_base_digit_def is_digit_def byte_between_def digits_value_def digit_number_def

lemmas number_defs = text_defs parse_unsigned_def from_chars_all_def Let_def

lemma axis_numbers:
  "parse_unsigned ''0'' = Some (0 :: u16)" "parse_unsigned ''1'' = Some (1 :: u32)" "parse_unsigned ''3'' = Some (3 :: u32)"
  "parse_unsigned ''0x9A'' = Some (0x9A :: u32)" "parse_unsigned ''20'' = Some (20 :: u64)"
  by (simp_all add: number_defs)

lemma servo_numbers: "parse_unsigned ''1'' = Some (1 :: u16)" "parse_unsigned ''1000000'' = Some (1000000 :: u32)"
  by (simp_all add: number_defs)

lemma small_doubles: "parse_double ''1'' = Some (Fin 1)" "parse_double ''0'' = Some (Fin 0)"
proof -
  have "fround f64 1 = Fin 1" by (rule fround_numeral(3)) (simp add: std_fmt_def f64_def)
  moreover have "fround f64 0 = Fin 0" by (simp add: fround_def rval_def f64_def)
  ultimately show "parse_double ''1'' = Some (Fin 1)" "parse_double ''0'' = Some (Fin 0)"
    by (simp_all add: parse_double_def strtod_def split_sign_def float_body_def exponent_part_def lower_char_def text_defs Let_def)
qed

lemma axis_keys_present: "k \<in> set axis_keys \<Longrightarrow> map_of axis_texts k \<noteq> None"
  unfolding axis_keys_def axis_texts_def by (auto simp: map_of_eq_None_iff)

lemma axis_parses: "parse_axis (axis_named name) = Inr (sample_axis name)"
proof -
  have sw: "\<not> (\<exists>key \<in> dom (dv_args (axis_named name)). switching_key key)"
    by (simp add: axis_named_def dom_map_of_conv_image_fst axis_texts_def switching_key_def sublist_code)
  have le: "last_error (map (\<lambda>key. error_of (device_arg (axis_named name) key)) axis_keys) = None"
    by (auto simp: device_arg_def axis_named_def axis_keys_present split: option.split dest: axis_keys_present)
  show ?thesis
    unfolding parse_axis_def if_not_P [OF sw] le option.case Let_def sample_axis_def
    by (simp add: axis_named_def axis_texts_def axis_numbers small_doubles axis_mode_def is_blank_def is_space_def fle_def feq_def)
qed

lemma servo_parses:
  "parse_st3215 (servo_named name) sensor = Inr (if sensor then sample_servo name [] else sample_servo [] name)"
  by (simp add: parse_st3215_def servo_named_def servo_texts_def device_arg_def st3215_identity_arg_def servo_numbers both_def
      parse_st3215_numbers_def unsigned_arg_def milliseconds_from_seconds_arg_def st3215_timeout_key_def st3215_write_timeout_def
      error_of_def unsafe_st3215_limits_def st3215_profile_def sample_servo_def)

lemma sample_lists:
  "parse_device_list dump sample_document ''sensors'' ''sensor'' = Inr [axis_named ''elbow'', servo_named ''wrist'']"
  "parse_device_list dump sample_document ''actuators'' ''actuator'' = Inr [servo_named ''wrist_drive'', axis_named ''elbow_drive'']"
  by (simp_all add: parse_device_list_def parse_device_def sample_document_def sample_device_def member_def required_robot_string_def
      python_value_string_def trim_def is_space_def both_def parse_args_def servo_args_def axis_args_def servo_named_def axis_named_def
      servo_texts_def axis_texts_def json_arg_value_def)

definition sample_sensor_list :: "device_config list" where
  "sample_sensor_list = [axis_named ''elbow'', servo_named ''wrist'']"

definition sample_actuator_list :: "device_config list" where
  "sample_actuator_list = [servo_named ''wrist_drive'', axis_named ''elbow_drive'']"

definition sample_robot_profile :: robot_profile where
  "sample_robot_profile = \<lparr>rp_sensors = sample_sensor_list, rp_actuators = sample_actuator_list, rp_axes = [sample_axis ''elbow''],
     rp_st3215_servos = [sample_servo ''wrist'' ''wrist_drive''], rp_damiao_motors = [], rp_dds = default_dds_config\<rparr>"

lemma named_simps [simp]:
  "dv_type (axis_named n) = ''cia402''" "dv_path (axis_named n) = ''0''" "dv_name (axis_named n) = n"
  "dv_type (servo_named n) = ''st3215''" "dv_path (servo_named n) = ''/dev/ttyUSB0''" "dv_name (servo_named n) = n"
  by (simp_all add: axis_named_def servo_named_def)

lemmas derive_eval = derive_def start_derivation_def add_device_def link_found_def link_joined_def Let_def
  sample_sensor_list_def sample_actuator_list_def

lemma sample_derived:
  "derive_axes sample_sensor_list sample_actuator_list = Inr [sample_axis ''elbow'']"
  "derive_st3215 sample_sensor_list sample_actuator_list = Inr [sample_servo ''wrist'' ''wrist_drive'']"
  "derive_damiao_motors sample_sensor_list sample_actuator_list = Inr []"
proof -
  have "same_static_config (sample_axis n) (sample_axis m)" "axis_identity (axis_named m) (sample_axis m) = axis_identity (axis_named n) (sample_axis n)"
    for n m
    by (simp_all add: same_static_config_def sample_axis_def feq_def axis_identity_def)
  then show "derive_axes sample_sensor_list sample_actuator_list = Inr [sample_axis ''elbow'']"
    by (simp add: derive_axes_def derive_eval axis_link_def axis_parses)
  show "derive_st3215 sample_sensor_list sample_actuator_list = Inr [sample_servo ''wrist'' ''wrist_drive'']"
    by (simp add: derive_st3215_def derive_eval servo_link_def servo_parses admit_bus_def same_st3215_physical_config_def same_serial_def
        merge_servo_def sample_servo_def)
  show "derive_damiao_motors sample_sensor_list sample_actuator_list = Inr []"
    by (simp add: derive_damiao_motors_def derive_eval motor_link_def)
qed

lemma sample_loads:
  "load_robot_profile (\<lambda>_. Some sample_document) dump (Some file) path = success sample_robot_profile"
proof -
  have doc: "is_object sample_document" "parse_dds_config sample_document = Inr default_dds_config"
    by (simp_all add: sample_document_def parse_dds_config_def member_def)
  have "build_robot_profile dump sample_document = Inr sample_robot_profile"
    using sample_derived unfolding build_robot_profile_def sample_lists sample_sensor_list_def [symmetric] sample_actuator_list_def [symmetric]
    by (simp add: doc sample_robot_profile_def default_dds_config_def)
      (simp add: sample_sensor_list_def sample_actuator_list_def Let_def check_dds_topics_def)
  then show ?thesis by (simp add: load_robot_profile_def read_json_def success_def)
qed

theorem loaded_profile_configures_witness:
  "has_value (preflight (\<lambda>n. n) sample_robot_profile) \<and> has_value (construct_axes (rp_axes sample_robot_profile))"
proof -
  have "list_all (\<lambda>a. ac_command_timeout a \<le> int64_max div 1000000) (rp_axes sample_robot_profile)"
    "list_all (\<lambda>m. dp_transport m = dt_socketcan) (rp_damiao_motors sample_robot_profile)"
    "list_all (\<lambda>d. dv_type d \<in> set linked_types) (rp_sensors sample_robot_profile @ rp_actuators sample_robot_profile)"
    by (simp_all add: sample_robot_profile_def sample_axis_def int64_max_def sample_sensor_list_def sample_actuator_list_def linked_types_def)
  with loaded_profile_configures [OF sample_loads, of "\<lambda>n. n"] show ?thesis by simp
qed

theorem loaded_links_paired_witness:
  "\<exists>!j. j < 1 \<and> paired axis_link (axis_named ''elbow'') (of_kind axis_link sample_actuator_list ! j) (sample_axis ''elbow'')"
proof -
  have "links_match axis_link sample_sensor_list sample_actuator_list [sample_axis ''elbow'']"
    using loaded_links_paired [OF sample_loads] by (simp add: sample_robot_profile_def)
  then show ?thesis by (simp add: links_match_def of_kind_def axis_link_def sample_sensor_list_def)
qed

section \<open>A policy profile\<close>

definition sample_field :: "string \<Rightarrow> json" where
  "sample_field name = JObject [(''name'', JString name), (''semantic_type'', JString ''position''), (''kind'', JString ''vector''),
     (''ordering'', JArray [JString ''elbow''])]"

definition sample_binding :: "string \<Rightarrow> string \<Rightarrow> json" where
  "sample_binding robot_data canonical = JObject [(''name'', JString robot_data), (''robot_data'', JString robot_data),
     (''canonical_field'', JString canonical)]"

definition sample_policy_document :: json where
  "sample_policy_document = JObject [(''id'', JString ''hold''), (''version'', JString ''1''), (''policy'', JString ''dummy''),
     (''inputs'', JArray [sample_binding ''elbow'' ''joints'']), (''outputs'', JArray [sample_binding ''elbow_drive'' ''targets'']),
     (''canonical_observation_schema'', JArray [sample_field ''joints'']), (''canonical_action_schema'', JArray [sample_field ''targets''])]"

definition sample_semantic_field :: "string \<Rightarrow> semantic_field" where
  "sample_semantic_field name = \<lparr>sm_name = name, sm_semantic_type = ''position'', sm_kind = sk_vector, sm_unit = None,
     sm_ordering = [''elbow''], sm_bounds = None, sm_frame = None, sm_normalized = False, sm_optional = False, sm_description = None\<rparr>"

definition sample_policy_binding :: "string \<Rightarrow> string \<Rightarrow> policy_binding" where
  "sample_policy_binding robot_data canonical = \<lparr>pb_name = robot_data, pb_robot_data = robot_data, pb_canonical_field = canonical,
     pb_source_path = None, pb_target_path = None, pb_optional = False, pb_metadata = JObject []\<rparr>"

lemma sample_field_parses:
  "name \<in> {''joints'', ''targets''} \<Longrightarrow> parse_semantic_field (sample_field name) = Inr (sample_semantic_field name)"
  by (auto simp: parse_semantic_field_def sample_field_def sample_semantic_field_def strict_object_def only_keys_def semantic_field_keys_def
      from_check_def required_string_def member_def both_def parse_kind_def optional_string_def parse_ordering_def parse_field_bounds_def
      parse_boolean_def is_blank_def is_space_def)

lemma sample_binding_parses:
  "(r, c) \<in> {(''elbow'', ''joints''), (''elbow_drive'', ''targets'')} \<Longrightarrow> parse_binding (sample_binding r c) = Inr (sample_policy_binding r c)"
  by (auto simp: parse_binding_def sample_binding_def sample_policy_binding_def strict_object_def only_keys_def from_check_def
      required_string_def member_def both_def optional_string_def parse_boolean_def parse_sub_object_def is_blank_def is_space_def)

definition loaded_policy :: policy_profile where
  "loaded_policy = \<lparr>pp_id = ''hold'', pp_version = ''1'', pp_policy = ''dummy'', pp_model = JObject [],
     pp_inputs = [sample_policy_binding ''elbow'' ''joints''], pp_outputs = [sample_policy_binding ''elbow_drive'' ''targets''],
     pp_canonical_observation_schema = [sample_semantic_field ''joints''], pp_canonical_action_schema = [sample_semantic_field ''targets''],
     pp_temporal = \<lparr>ts_mode = single_step, ts_action_horizon = 1, ts_observation_history = 1\<rparr>,
     pp_preprocess = [], pp_postprocess = [], pp_safety = JObject []\<rparr>"

lemma policy_loads: "load_policy_profile (\<lambda>_. Some sample_policy_document) (Some file) path = success loaded_policy"
proof -
  have "parse_policy_document sample_policy_document = Inr loaded_policy"
    by (simp add: parse_policy_document_def sample_policy_document_def strict_object_def only_keys_def policy_profile_keys_def
        from_check_def required_string_def member_def both_def parse_sub_object_def parse_bindings_def optional_list_def
        parse_semantic_fields_def parse_temporal_def parse_processors_def is_blank_def is_space_def sample_field_parses
        sample_binding_parses loaded_policy_def)
  moreover have "validate_policy_profile loaded_policy = Inr loaded_policy"
    by (simp add: validate_policy_profile_def validate_bindings_def loaded_policy_def sample_policy_binding_def sample_semantic_field_def)
  ultimately show ?thesis by (simp add: load_policy_profile_def read_json_def success_def)
qed

theorem loaded_policy_well_formed_witness:
  "length (pp_inputs loaded_policy) = length (pp_outputs loaded_policy) \<and> list_all valid_field (pp_canonical_observation_schema loaded_policy)"
  using loaded_policy_well_formed [OF policy_loads] by simp

end
