(* ===== verification/Spec2Isabelle.thy ===== *)
theory Spec2Isabelle
  imports Daemon_Examples Dds_Roundtrip Host_Props Cia402_Control Safety_Examples St3215_Units Serial_Props St3215_Registry_Props Local_Snapshot_Props Realtime_Props
    Topology_Props Damiao_Props Transport_Runtime_Props Ethercat_Master_Props Ethercat_Mailbox_Props
    Loader_Examples
begin

text \<open>
  \<^bold>\<open>Verification of the policy runtime\<close>

  The program is the C++ runtime that connects control policies to robot hardware.  It has two processes.  The policy
  host loads a robot and a policy profile, answers JSON requests, runs the policy and publishes batches of commands over
  DDS.  The robot I/O daemon receives them through its DDS endpoint and lock-free mailboxes, passes them through the
  safety supervisor, turns them into bytes with a device codec and sends them with a transport: CiA 402 drives on an EtherCAT
  master, ST3215 servos on serial buses, Damiao motors on CAN.  Feedback takes the way back through the same layers.
  Both processes are modelled, from the profile file and the request text to the bytes on the wire.

  \<^bold>\<open>Theories and sources\<close> (paths under \<^verbatim>\<open>src/\<close>)

  \<^item> \<^verbatim>\<open>Prelude\<close>: results and errors (\<^verbatim>\<open>include/.../common/result.hpp\<close>), machine words, little-endian bytes.
  \<^item> \<^verbatim>\<open>Floating\<close>: IEEE arithmetic with rounding to nearest even over exact rationals, for \<open>float\<close>, \<open>double\<close> and
    \<open>long double\<close>; the locale \<open>rounding\<close> is what the other theories use of it.
  \<^item> \<^verbatim>\<open>Interfaces\<close>: the locales \<open>command_gate\<close> (admission by sequence number), \<open>framed_stream\<close> (a parser that takes one
    frame) and \<open>bounded_fifo\<close>; \<open>can_wire\<close> in \<^verbatim>\<open>Can_Transport\<close> and \<open>link_contract\<close> in \<^verbatim>\<open>Loader_Links\<close>.  They are interpreted on
    the supervisor and the servos, on the ST3215 parser, on the ring queue, on both CAN transports, and on the three kinds of
    device a profile describes.
  \<^item> \<^verbatim>\<open>Cia402_State\<close>, \<^verbatim>\<open>Cia402_Axis\<close>, \<^verbatim>\<open>Cia402_Control\<close>: the drive state machine, unit conversions, codecs and the axis
    cycle (\<^verbatim>\<open>src/devices/cia402\<close>).
  \<^item> \<^verbatim>\<open>Safety\<close>, \<^verbatim>\<open>Safety_Groups\<close>, \<^verbatim>\<open>Safety_Props\<close>, \<^verbatim>\<open>Safety_Runs\<close>, \<^verbatim>\<open>Safety_Examples\<close>: the safety supervisor
    (\<^verbatim>\<open>src/robot_io/daemon/safety_supervisor.cpp\<close>).  Its record holds the arrays of the class; each loop of \<open>evaluate\<close> is
    one definition.
  \<^item> \<^verbatim>\<open>St3215_Protocol\<close>, \<^verbatim>\<open>St3215_Units\<close>: packets, the stream parser and position units; \<^verbatim>\<open>St3215_Servo\<close>, \<^verbatim>\<open>St3215_Bus\<close> with
    its \<^verbatim>\<open>_Props\<close>, \<^verbatim>\<open>_Runs\<close>, \<^verbatim>\<open>_Claims\<close> and \<^verbatim>\<open>_Examples\<close>, \<^verbatim>\<open>St3215_Registry\<close> and \<^verbatim>\<open>St3215_Registry_Props\<close>: servos, buses and
    the registry (\<^verbatim>\<open>src/devices/st3215\<close>).
  \<^item> \<^verbatim>\<open>Ring_Queue\<close>, \<^verbatim>\<open>Serial_Transport\<close>, \<^verbatim>\<open>Serial_Props\<close>: the serial transport; \<^verbatim>\<open>Can_Transport\<close>, \<^verbatim>\<open>Can_Props\<close>: SocketCAN and
    the serial CAN adapter (\<^verbatim>\<open>src/transport\<close>).
  \<^item> \<^verbatim>\<open>Damiao\<close>, \<^verbatim>\<open>Damiao_Props\<close>: the Damiao motor codec in \<open>float\<close> arithmetic, sensor and actuator
    (\<^verbatim>\<open>src/devices/damiao\<close>).
  \<^item> \<^verbatim>\<open>Pdo_Binding\<close>, \<^verbatim>\<open>Pdo_Props\<close>: typed fields of a process image and the binding of the CiA 402 objects; \<^verbatim>\<open>Ethercat_Mailbox\<close>,
    \<^verbatim>\<open>Ethercat_Master\<close> and their \<^verbatim>\<open>_Props\<close>, \<^verbatim>\<open>Ethercat_Admission\<close>: the mailbox and the master, one operation at a time and
    under every interleaving of their atomic steps (\<^verbatim>\<open>src/transport/ethercat\<close>).
  \<^item> \<^verbatim>\<open>Transport_Scheduler\<close>, \<^verbatim>\<open>Topology\<close>, \<^verbatim>\<open>Topology_Props\<close>, \<^verbatim>\<open>Transport_Runtime\<close>, \<^verbatim>\<open>Transport_Runtime_Props\<close>: executor
    assignment, compilation of the physical topology, the factory checks and the runtime of a transport
    (\<^verbatim>\<open>src/robot_io/daemon\<close>).
  \<^item> \<^verbatim>\<open>Realtime_Loop\<close>, \<^verbatim>\<open>Realtime_Props\<close>: setup of the real-time thread and the release schedule.
  \<^item> \<^verbatim>\<open>Local_Snapshot\<close>, \<^verbatim>\<open>Local_Snapshot_Props\<close>, \<^verbatim>\<open>Mailbox\<close>, \<^verbatim>\<open>Mailbox_Props\<close>: the lock-free snapshot and the DDS mailboxes.
  \<^item> \<^verbatim>\<open>Profile\<close>: the compiled robot profile; \<^verbatim>\<open>Dds_Topics\<close>, \<^verbatim>\<open>Dds_Topics_Props\<close>, \<^verbatim>\<open>Dds_Endpoint\<close>, \<^verbatim>\<open>Dds_Host\<close>,
    \<^verbatim>\<open>Dds_Roundtrip\<close>: the topic registry, the endpoint of the daemon with its worker, the endpoint of the host, and both
    together (\<^verbatim>\<open>src/robot_io/dds\<close>, \<^verbatim>\<open>src/runtime/dds_robot_io.cpp\<close>).
  \<^item> \<^verbatim>\<open>Daemon\<close>, \<^verbatim>\<open>Daemon_Cycle\<close>: configuration, start, staging and consuming of commands, the cycle, the run loop and stopping
    (\<^verbatim>\<open>src/robot_io/daemon/daemon.cpp\<close>); \<^verbatim>\<open>Daemon_Commands\<close>, \<^verbatim>\<open>Daemon_Props\<close>, \<^verbatim>\<open>Daemon_Runs\<close>, \<^verbatim>\<open>Daemon_Examples\<close>: what they
    guarantee.
  \<^item> \<^verbatim>\<open>Json\<close>, \<^verbatim>\<open>Rpc_Codec\<close>, \<^verbatim>\<open>Rpc_Props\<close>: JSON values and the message codec (\<^verbatim>\<open>src/devices/rpc\<close>); \<^verbatim>\<open>Policy\<close>: pipelines and
    policies (\<^verbatim>\<open>src/policy\<close>); \<^verbatim>\<open>Runtime_Host\<close>, \<^verbatim>\<open>Host_Props\<close>: the policy host (\<^verbatim>\<open>src/runtime\<close>).
  \<^item> \<^verbatim>\<open>Profile_Values\<close>, \<^verbatim>\<open>Robot_Loader\<close>, \<^verbatim>\<open>Policy_Loader\<close>: loading of profiles (\<^verbatim>\<open>src/profiles/loader.cpp\<close>);
    \<^verbatim>\<open>Loader_Links\<close>, \<^verbatim>\<open>Loader_Props\<close>, \<^verbatim>\<open>Loader_Examples\<close>: what a loaded profile guarantees.

  \<^bold>\<open>How the model corresponds to the code.\<close>  A class is a record of its data members and a method a function that
  takes the record and returns the updated one with its result; a failed \<open>Result\<close> is \<open>Inl\<close> with the code and the
  message of the source.  Integers keep their width as words, except 64-bit time stamps, which are \<open>int\<close>.  System calls
  are arguments: an outcome per call (CAN, real-time setup) or lists of the coming outcomes (serial), so that every
  theorem holds for whatever the system answers.  The EtherCAT backend, the DDS middleware and the parsing and printing of JSON
  texts belong to third-party libraries and are parameters; what a theorem needs of them is among its hypotheses, with a
  concrete instance in its witness.  Values that one thread publishes and another reads through
  \<open>LocalSnapshot\<close> are read as the last published value in the other theories; \<^verbatim>\<open>Local_Snapshot_Props\<close> justifies that for
  all interleavings of its sequentially consistent steps.  The hand-over of commands, the admission of cycles and the
  EtherCAT mailbox have step relations of their own, with invariants by rule induction.

  \<^bold>\<open>What is shown.\<close>  End to end: a control word that moves a drive towards operation leaves the daemon only when the staged
  command asks for it and the whole safety group is clear; what the host publishes is what the daemon's supervisor is
  offered; a stop request ends the run with every axis disabled; exactly which loaded profiles configure the daemon.  Safety: an axis
  is enabled only when its whole group is clear, an unclear member stops its group, recovery needs a newer command, fault
  resets are bounded, shutdown completes, a rejected command is a barrier for those staged before it.  EtherCAT: outputs are
  gated, cycles run only on an activated backend, opening is all or nothing, mailbox requests settle, bound cells do not overlap.
  Codecs: unit conversions and envelopes round-trip, streams cut into chunks are recovered, the array parser refines
  the byte-list parser, decoded feedback is within its limits when these are below half the range of
  \<open>float\<close>.  Servo buses: goal frames are bounded by accepted commands and
  carry the live command, valid feedback is authentic, servos are served in turn.  Transports: whole frames in order, the
  newest frame of each slot offered once and delivered when the socket takes it, every device routed to its own transport and slot.  Real time:
  releases on a fixed grid and setup that is all or nothing as far as the calls that undo it succeed.  Shared memory: snapshots are never torn, the event queue
  refines a bounded list, epoch batches are complete.  Host: every text is answered by a valid envelope, batches are numbered
  without gaps, also when writes fail in between.  Loading: sensors and actuators are paired one to one, policies bind distinct data to known fields.

  \<^bold>\<open>Bounds and fuel.\<close>  All modelled loops are total functions with a measure, except those that wait for the operating
  system, which consume lists of outcomes and return \<open>None\<close> when these end.  Draining a parser uses its capacity
  plus one as fuel, enough because every step consumes at least one byte.  Counters of publications, pushes and commits
  are assumed to stay below \<open>2 ^ 63\<close>, and times such that the schedule stays below \<open>2 ^ 63\<close> nanoseconds.

  \<^bold>\<open>Not modelled\<close>: the IgH backend, which only calls the kernel library; the diagnostic tools, which only print; the main
  functions, which parse arguments and call modelled operations; moving transports and runtimes; relaxed memory
  orders; and exceptions of the standard library, such as a failed allocation.
\<close>

end
